(* ===== verification/Prelude.thy ===== *)
theory Prelude
  imports Main "HOL-Library.Word"
begin

text \<open>
  Shared vocabulary of the development: the machine integer types of the Rust
  source, little-endian byte views of words, byte stores, the get-or-zero register
  maps (\<open>HashMap::get(..).unwrap_or(&0)\<close>) and the two-valued outcome of an
  instruction. The lemmas here are the generic facts on bits, bytes and stores that
  every component uses; they are collected in \<open>byte_simps\<close> and \<open>store_simps\<close>.
\<close>

unbundle bit_operations_syntax

section \<open>Machine integers\<close>

type_synonym u8 = "8 word"
type_synonym u16 = "16 word"
type_synonym u32 = "32 word"
type_synonym u64 = "64 word"

named_theorems byte_simps \<open>little-endian encode and decode\<close>
named_theorems store_simps \<open>reads after writes of byte stores and register maps\<close>

text \<open>The Rust idiom \<open>v & (1 << n) != 0\<close>, and \<open>b as u32\<close> for a flag.\<close>

definition bit_set :: "u32 \<Rightarrow> nat \<Rightarrow> bool" where
  "bit_set v n = (v AND push_bit n 1 \<noteq> 0)"

definition b2w :: "bool \<Rightarrow> u32" where
  "b2w b = (if b then 1 else 0)"

lemma and_push_bit_1_iff:
  fixes v :: "'a::len word"
  shows "v AND push_bit n 1 \<noteq> 0 \<longleftrightarrow> bit v n"
proof
  assume "bit v n"
  then have "n < LENGTH('a)" by (rule bit_imp_le_length)
  with \<open>bit v n\<close> have "bit (v AND push_bit n 1) n" by (simp add: bit_simps)
  then show "v AND push_bit n 1 \<noteq> 0" by (metis bit_0_eq bot_apply bot_bool_def)
next
  assume "v AND push_bit n 1 \<noteq> 0"
  then obtain m where "bit (v AND push_bit n 1) m"
    by (metis bit_word_eqI bit_0_eq bot_apply bot_bool_def)
  then show "bit v n" by (auto simp: bit_simps)
qed

lemma bit_set_bit [simp]: "bit_set v n \<longleftrightarrow> bit v n"
  unfolding bit_set_def by (rule and_push_bit_1_iff)

lemma b2w_simps [simp]: "b2w True = 1" "b2w False = 0"
  by (simp_all add: b2w_def)

lemma bit_b2w [simp]: "bit (b2w b) n \<longleftrightarrow> b \<and> n = 0"
  by (cases b) (auto simp: bit_1_iff)


section \<open>Rust's integer intrinsics\<close>

text \<open>
  \<open>count_ones\<close>, \<open>leading_zeros\<close>, \<open>trailing_zeros\<close>, \<open>swap_bytes\<close> and the
  sign-extending casts (\<open>x as u8 as i8 as i32 as u32\<close>). \<open>reverse_bits\<close> is the
  library's \<open>word_reverse\<close> and \<open>rotate_right\<close> its \<open>word_rotr\<close>.
\<close>

definition count_ones :: "'a::len word \<Rightarrow> nat" where
  "count_ones w = length (filter (bit w) [0..<LENGTH('a)])"

definition leading_zeros :: "u32 \<Rightarrow> u32" where
  "leading_zeros w = of_nat (length (takeWhile (\<lambda>i. \<not> bit w i) (rev [0..<32])))"

definition trailing_zeros :: "u32 \<Rightarrow> nat" where
  "trailing_zeros w = length (takeWhile (\<lambda>i. \<not> bit w i) [0..<32])"

definition sext8 :: "u32 \<Rightarrow> u32" where
  "sext8 v = scast (ucast v :: u8)"

definition sext16 :: "u32 \<Rightarrow> u32" where
  "sext16 v = scast (ucast v :: u16)"

section \<open>Bytes of a word\<close>

definition byte_of :: "'a::len word \<Rightarrow> nat \<Rightarrow> u8" where
  "byte_of v i = ucast (drop_bit (8 * i) v)"

definition le32 :: "u8 \<Rightarrow> u8 \<Rightarrow> u8 \<Rightarrow> u8 \<Rightarrow> u32" where
  "le32 b0 b1 b2 b3 =
     ucast b0 OR push_bit 8 (ucast b1) OR push_bit 16 (ucast b2) OR push_bit 24 (ucast b3)"

definition le16 :: "u8 \<Rightarrow> u8 \<Rightarrow> u16" where
  "le16 b0 b1 = ucast b0 OR push_bit 8 (ucast b1)"

definition swap_bytes :: "u32 \<Rightarrow> u32" where
  "swap_bytes v = le32 (byte_of v 3) (byte_of v 2) (byte_of v 1) (byte_of v 0)"

lemma bit_byte_of: "bit (byte_of v i) n \<longleftrightarrow> n < 8 \<and> bit v (8 * i + n)"
  by (auto simp: byte_of_def bit_simps)

lemma bit_le32:
  "bit (le32 b0 b1 b2 b3) n \<longleftrightarrow>
     (if n < 8 then bit b0 n else if n < 16 then bit b1 (n - 8)
      else if n < 24 then bit b2 (n - 16) else n < 32 \<and> bit b3 (n - 24))"
  by (auto simp: le32_def bit_simps dest: bit_imp_le_length)

lemma bit_le16:
  "bit (le16 b0 b1) n \<longleftrightarrow> (if n < 8 then bit b0 n else n < 16 \<and> bit b1 (n - 8))"
  by (auto simp: le16_def bit_simps dest: bit_imp_le_length)

lemma le32_bytes [byte_simps]:
  "le32 (byte_of v 0) (byte_of v (Suc 0)) (byte_of v 2) (byte_of v 3) = v"
  by (rule bit_word_eqI) (auto simp: bit_le32 bit_byte_of)

lemma byte_of_le32 [byte_simps]:
  "byte_of (le32 b0 b1 b2 b3) 0 = b0" "byte_of (le32 b0 b1 b2 b3) (Suc 0) = b1"
  "byte_of (le32 b0 b1 b2 b3) 2 = b2" "byte_of (le32 b0 b1 b2 b3) 3 = b3"
  by (auto intro!: bit_word_eqI simp: bit_le32 bit_byte_of dest: bit_imp_le_length)

lemma le16_bytes [byte_simps]: "le16 (byte_of v 0) (byte_of v (Suc 0)) = v"
  by (rule bit_word_eqI) (auto simp: bit_le16 bit_byte_of)

lemma byte_of_le16 [byte_simps]:
  "byte_of (le16 b0 b1) 0 = b0" "byte_of (le16 b0 b1) (Suc 0) = b1"
  by (auto intro!: bit_word_eqI simp: bit_le16 bit_byte_of dest: bit_imp_le_length)

lemma byte_bound: "unat (b :: u8) < 256"
proof -
  have "unat b < 2 ^ LENGTH(8)" by (rule unsigned_less)
  then show ?thesis by simp
qed

lemma unat_le16: "unat (le16 a b) = unat a + 256 * unat b"
proof -
  have "le16 a b = ucast a + push_bit 8 (ucast b)" unfolding le16_def
    by (rule disjunctive_add_eq_or [symmetric], rule bit_eqI) (auto simp: bit_simps dest: bit_imp_le_length)
  moreover have "unat (ucast a :: u16) = unat a" by (simp add: unsigned_ucast_eq take_bit_nat_eq_self less_trans [OF byte_bound])
  moreover have "unat (ucast b :: u16) = unat b" by (simp add: unsigned_ucast_eq take_bit_nat_eq_self less_trans [OF byte_bound])
  then have "unat (push_bit 8 (ucast b :: u16)) = 256 * unat b"
    using byte_bound [of b] by (simp add: push_bit_eq_mult unat_word_ariths(2))
  ultimately show ?thesis using byte_bound [of a] byte_bound [of b] by (simp add: unat_word_ariths(1))
qed
lemma ucast_u32_u8 [simp]: "ucast (ucast (b :: u8) :: u32) = b"
  by (rule bit_word_eqI) (auto simp: bit_simps)

lemma ucast_u32_u16 [simp]: "ucast (ucast (h :: u16) :: u32) = h"
  by (rule bit_word_eqI) (auto simp: bit_simps)

lemma bit_pow2: "bit (push_bit k 1 :: 'a::len word) n \<longleftrightarrow> n = k \<and> n < LENGTH('a)"
  unfolding bit_push_bit_iff bit_1_iff by auto

lemma bit_word_exp [simp]: "bit (2 ^ k :: 'a::len word) n \<longleftrightarrow> n = k \<and> n < LENGTH('a)"
  using bit_pow2 [of k n, where 'a = 'a] by (simp add: push_bit_eq_mult)

lemma ff_and [simp]: "(0xFF :: u8) AND b = b"
proof -
  have e: "(0xFF :: u8) = mask 8" by (simp add: mask_eq_exp_minus_1)
  show ?thesis unfolding e by (rule bit_word_eqI) (simp add: bit_and_iff bit_mask_iff)
qed

lemma and_3_cases:
  fixes x :: u32
  shows "x AND 3 = 0 \<or> x AND 3 = 1 \<or> x AND 3 = 2 \<or> x AND 3 = 3"
proof -
  have a: "x AND 3 = take_bit 2 x" by (simp add: take_bit_eq_mask mask_eq_exp_minus_1)
  have "unat (x AND 3) = take_bit 2 (unat x)" unfolding a by (rule unsigned_take_bit_eq)
  then have "unat (x AND 3) = unat x mod 4" by (simp add: take_bit_eq_mod)
  then have "unat (x AND 3) = 0 \<or> unat (x AND 3) = 1 \<or> unat (x AND 3) = 2 \<or> unat (x AND 3) = 3" by linarith
  then show ?thesis by (auto simp: word_unat_eq_iff)
qed

lemma and_not_add_and:
  fixes a m :: "'a::len word"
  shows "(a AND NOT m) + (a AND m) = a"
proof -
  have "(a AND NOT m) AND (a AND m) = 0" by (rule bit_word_eqI) (simp add: bit_and_iff bit_not_iff)
  then have "(a AND NOT m) + (a AND m) = (a AND NOT m) OR (a AND m)" by (rule disjunctive_add_eq_or)
  also have "\<dots> = a" by (rule bit_word_eqI) (auto simp: bit_and_iff bit_or_iff bit_not_iff)
  finally show ?thesis .
qed

lemma and_not_3_cases:
  fixes x :: u32
  assumes "x AND NOT 3 = c"
  shows "x = c \<or> x = c + 1 \<or> x = c + 2 \<or> x = c + 3"
  using and_3_cases [of x] and_not_add_and [of x 3] assms by auto

lemma unat_of_nat32: "m < 2 ^ 32 \<Longrightarrow> unat (of_nat m :: u32) = m"
  by (subst unat_of_nat) simp

section \<open>Byte stores\<close>

text \<open>
  A \<open>Vec<u8>\<close> whose length never changes is a function from offsets together with
  its fixed length. \<open>blit\<close> is \<open>copy_from_slice\<close> at an offset, \<open>fill_range\<close> is
  \<open>[lo..hi].fill(v)\<close>.
\<close>

type_synonym bytes = "nat \<Rightarrow> u8"

definition blit :: "bytes \<Rightarrow> nat \<Rightarrow> u8 list \<Rightarrow> bytes" where
  "blit m off bs = (\<lambda>i. if off \<le> i \<and> i < off + length bs then bs ! (i - off) else m i)"

definition fill_range :: "bytes \<Rightarrow> nat \<Rightarrow> nat \<Rightarrow> u8 \<Rightarrow> bytes" where
  "fill_range m lo hi v = (\<lambda>i. if lo \<le> i \<and> i < hi then v else m i)"

definition slice :: "bytes \<Rightarrow> nat \<Rightarrow> nat \<Rightarrow> u8 list" where
  "slice m off n = map (\<lambda>i. m (off + i)) [0..<n]"

definition le_bytes32 :: "u32 \<Rightarrow> u8 list" where
  "le_bytes32 v = [byte_of v 0, byte_of v 1, byte_of v 2, byte_of v 3]"

definition le_bytes16 :: "u16 \<Rightarrow> u8 list" where
  "le_bytes16 v = [byte_of v 0, byte_of v 1]"

definition get32 :: "bytes \<Rightarrow> nat \<Rightarrow> u32" where
  "get32 m off = le32 (m off) (m (off + 1)) (m (off + 2)) (m (off + 3))"

definition get16 :: "bytes \<Rightarrow> nat \<Rightarrow> u16" where
  "get16 m off = le16 (m off) (m (off + 1))"

lemma length_le_bytes [simp]: "length (le_bytes32 v) = 4" "length (le_bytes16 w) = 2"
  by (simp_all add: le_bytes32_def le_bytes16_def)

lemma length_slice [simp]: "length (slice m off n) = n"
  by (simp add: slice_def)

lemma nth_slice [simp]: "i < n \<Longrightarrow> slice m off n ! i = m (off + i)"
  by (simp add: slice_def)

lemma blit_in [store_simps]: "off \<le> i \<Longrightarrow> i < off + length bs \<Longrightarrow> blit m off bs i = bs ! (i - off)"
  by (simp add: blit_def)

lemma blit_out [store_simps]: "i < off \<or> off + length bs \<le> i \<Longrightarrow> blit m off bs i = m i"
  by (auto simp: blit_def)

lemma blit_Nil [simp]: "blit m off [] = m"
  by (rule ext) (auto simp: blit_def)

lemma slice_blit [store_simps]: "slice (blit m off bs) off (length bs) = bs"
  by (rule nth_equalityI) (auto simp: blit_def)

lemma get32_blit [store_simps]: "get32 (blit m off (le_bytes32 v)) off = v"
  by (simp add: get32_def blit_def le_bytes32_def le32_bytes)

lemma get16_blit [store_simps]: "get16 (blit m off (le_bytes16 v)) off = v"
  by (simp add: get16_def blit_def le_bytes16_def le16_bytes)

lemma get32_blit_other [store_simps]:
  "off + 4 \<le> lo \<or> lo + length bs \<le> off \<Longrightarrow> get32 (blit m lo bs) off = get32 m off"
  by (auto simp: get32_def blit_def)

lemma get16_blit_other [store_simps]:
  "off + 2 \<le> lo \<or> lo + length bs \<le> off \<Longrightarrow> get16 (blit m lo bs) off = get16 m off"
  by (auto simp: get16_def blit_def)

lemma slice_4: "slice m off 4 = [m off, m (off + 1), m (off + 2), m (off + 3)]"
  by (simp add: slice_def numeral_eq_Suc)

lemma slice_2: "slice m off 2 = [m off, m (off + 1)]"
  by (simp add: slice_def numeral_eq_Suc)

section \<open>Register maps\<close>

text \<open>\<open>HashMap<K, V>\<close> read with \<open>get(k).copied().unwrap_or(0)\<close>.\<close>

definition reg_get :: "('k \<rightharpoonup> 'v::zero) \<Rightarrow> 'k \<Rightarrow> 'v" where
  "reg_get m k = (case m k of None \<Rightarrow> 0 | Some v \<Rightarrow> v)"

lemma reg_get_upd [simp]: "reg_get (m(k \<mapsto> v)) k' = (if k' = k then v else reg_get m k')"
  by (simp add: reg_get_def)

lemma reg_get_empty [simp]: "reg_get Map.empty k = 0"
  by (simp add: reg_get_def)

section \<open>Outcomes\<close>

text \<open>
  \<open>Result<(), ()>\<close> of a method that mutates \<open>self\<close>: whatever was written before the
  error stays written, so the error carries the state as well. \<open>need\<close> is the
  \<open>?\<close> operator on a lookup that does not touch the state.
\<close>

datatype 's outcome = Ok 's | Err 's

definition need :: "'a option \<Rightarrow> 's \<Rightarrow> ('a \<Rightarrow> 's outcome) \<Rightarrow> 's outcome" where
  "need x s k = (case x of None \<Rightarrow> Err s | Some v \<Rightarrow> k v)"

primrec state_of :: "'s outcome \<Rightarrow> 's" where
  "state_of (Ok s) = s"
| "state_of (Err s) = s"

primrec is_ok :: "'s outcome \<Rightarrow> bool" where
  "is_ok (Ok s) = True"
| "is_ok (Err s) = False"

lemma need_simps [simp]: "need None s k = Err s" "need (Some v) s k = k v"
  by (simp_all add: need_def)

end
