(* ===== verification/Nv.thy ===== *)
theory Nv
  imports Prelude
begin

text \<open>
  The plaintext state files beside the flash images (\<open>src/flash.rs\<close>): the SP's
  \<open>sp-flash.bin.nv\<close> (\<open>NvState\<close>, \<open>load_nv\<close>, \<open>save_nv\<close>) and the RoT's
  \<open>sp-rot-flash.bin.nv\<close> (\<open>RotMeta\<close>, \<open>load_rot_meta\<close>, \<open>save_rot_meta\<close>).
  A file is its text, \<open>None\<close> when it cannot be read; the text is ASCII, so Rust's
  Unicode white space is the ASCII white space below. The lemmas show that a line
  written by \<open>save\<close> is read back by \<open>load\<close>.
\<close>

section \<open>The string functions of the Rust standard library\<close>

definition is_ws :: "char \<Rightarrow> bool" where
  "is_ws c \<longleftrightarrow> c \<in> {CHR 0x09, CHR 0x0A, CHR 0x0B, CHR 0x0C, CHR 0x0D, CHR '' ''}"

definition trim_by :: "(char \<Rightarrow> bool) \<Rightarrow> string \<Rightarrow> string" where
  "trim_by p s = rev (dropWhile p (rev (dropWhile p s)))"

definition trim :: "string \<Rightarrow> string" where
  "trim s = trim_by is_ws s"

definition trim_quotes :: "string \<Rightarrow> string" where
  "trim_quotes s = trim_by (\<lambda>c. c = CHR 0x22) s"

definition split_once :: "char \<Rightarrow> string \<Rightarrow> (string \<times> string) option" where
  "split_once d s = (case dropWhile (\<lambda>c. c \<noteq> d) s of
     [] \<Rightarrow> None
   | _ # r \<Rightarrow> Some (takeWhile (\<lambda>c. c \<noteq> d) s, r))"

definition strip_cr :: "string \<Rightarrow> string" where
  "strip_cr s = (if s \<noteq> [] \<and> last s = CHR 0x0D then butlast s else s)"

text \<open>\<open>str::lines\<close>: a final line without its newline counts, an empty rest does not.\<close>

function text_lines :: "string \<Rightarrow> string list" where
  "text_lines s =
     (if s = [] then []
      else case dropWhile (\<lambda>c. c \<noteq> CHR 0x0A) s of
        [] \<Rightarrow> [s]
      | _ # r \<Rightarrow> strip_cr (takeWhile (\<lambda>c. c \<noteq> CHR 0x0A) s) # text_lines r)"
  by pat_completeness auto
termination
proof (relation "measure length")
  fix s r :: string and x
  assume "dropWhile (\<lambda>c. c \<noteq> CHR 0x0A) s = x # r"
  then show "(r, s) \<in> measure length"
    using length_dropWhile_le [of "\<lambda>c. c \<noteq> CHR 0x0A" s] by simp
qed simp

declare text_lines.simps [simp del]

lemma text_lines_Nil [simp]: "text_lines [] = []"
  by (simp add: text_lines.simps)

lemma text_lines_line [simp]:
  "CHR 0x0A \<notin> set l \<Longrightarrow> text_lines (l @ CHR 0x0A # r) = strip_cr l # text_lines r"
  by (subst text_lines.simps) (auto simp: dropWhile_append3 takeWhile_tail dropWhile_append)

section \<open>NvState: the option bytes and the archive reference\<close>

record nv_state =
  swap_bank :: bool
  nv_archive :: "string option"

definition nv_default :: nv_state where
  "nv_default = \<lparr>swap_bank = False, nv_archive = None\<rparr>"

definition non_empty :: "string \<Rightarrow> string option" where
  "non_empty s = (if s = [] then None else Some s)"

definition load_nv_line :: "nv_state \<Rightarrow> string \<Rightarrow> nv_state" where
  "load_nv_line nv line0 =
     (let line = trim line0 in
      if line = [] \<or> hd line = CHR ''#'' then nv
      else case split_once (CHR ''='') line of
        None \<Rightarrow> nv
      | Some (k0, v0) \<Rightarrow>
          let k = trim k0; v = trim v0 in
          if k = ''swap_bank'' then nv\<lparr>swap_bank := (v = ''1'' \<or> v = ''true'')\<rparr>
          else if k = ''archive'' then nv\<lparr>nv_archive := non_empty (trim_quotes v)\<rparr>
          else nv)"

definition load_nv :: "string option \<Rightarrow> nv_state" where
  "load_nv file = (case file of
     None \<Rightarrow> nv_default
   | Some t \<Rightarrow> foldl load_nv_line nv_default (text_lines t))"

definition quoted_line :: "string \<Rightarrow> string \<Rightarrow> string" where
  "quoted_line k v = k @ '' = '' @ CHR 0x22 # v @ [CHR 0x22, CHR 0x0A]"

definition nv_header :: string where
  "nv_header = ''# sp-emu flash non-volatile registers (see src/flash.rs)''"

definition save_nv :: "nv_state \<Rightarrow> string" where
  "save_nv nv =
     nv_header @ CHR 0x0A #
     ''swap_bank = '' @ (if swap_bank nv then ''1'' else ''0'') @ CHR 0x0A #
     (case nv_archive nv of None \<Rightarrow> [] | Some a \<Rightarrow> quoted_line ''archive'' a)"

section \<open>RotMeta: the archive of each RoT flash region\<close>

record rot_meta =
  slot_a_archive :: "string option"
  slot_b_archive :: "string option"
  stage0_archive :: "string option"

definition rot_meta_default :: rot_meta where
  "rot_meta_default =
     \<lparr>slot_a_archive = None, slot_b_archive = None, stage0_archive = None\<rparr>"

definition load_rot_meta_line :: "rot_meta \<Rightarrow> string \<Rightarrow> rot_meta" where
  "load_rot_meta_line m line0 =
     (let line = trim line0 in
      if line = [] \<or> hd line = CHR ''#'' then m
      else case split_once (CHR ''='') line of
        None \<Rightarrow> m
      | Some (k0, v0) \<Rightarrow>
          let v = non_empty (trim_quotes (trim v0)); k = trim k0 in
          if k = ''slot_a_archive'' then m\<lparr>slot_a_archive := v\<rparr>
          else if k = ''slot_b_archive'' then m\<lparr>slot_b_archive := v\<rparr>
          else if k = ''stage0_archive'' then m\<lparr>stage0_archive := v\<rparr>
          else m)"

definition load_rot_meta :: "string option \<Rightarrow> rot_meta" where
  "load_rot_meta file = (case file of
     None \<Rightarrow> rot_meta_default
   | Some t \<Rightarrow> foldl load_rot_meta_line rot_meta_default (text_lines t))"

definition opt_line :: "string \<Rightarrow> string option \<Rightarrow> string" where
  "opt_line k v = (case v of None \<Rightarrow> [] | Some a \<Rightarrow> quoted_line k a)"

definition save_rot_meta :: "rot_meta \<Rightarrow> string" where
  "save_rot_meta m =
     ''# sp-emu RoT instance metadata: Hubris archive per region (see src/flash.rs)''
     @ CHR 0x0A #
     opt_line ''slot_a_archive'' (slot_a_archive m) @
     opt_line ''slot_b_archive'' (slot_b_archive m) @
     opt_line ''stage0_archive'' (stage0_archive m)"

section \<open>Reading back what was written\<close>

text \<open>
  The values a line can carry: not empty, on one line, not starting or ending with a
  quote (every value the program stores is a path such as \<open>archives/sp.zip\<close>).
\<close>

definition line_value :: "string \<Rightarrow> bool" where
  "line_value a \<longleftrightarrow>
     a \<noteq> [] \<and> CHR 0x0A \<notin> set a \<and> hd a \<noteq> CHR 0x22 \<and> last a \<noteq> CHR 0x22"

lemma dropWhile_hd: "s \<noteq> [] \<Longrightarrow> \<not> p (hd s) \<Longrightarrow> dropWhile p s = s"
  by (cases s) auto

lemma trim_by_id: "s \<noteq> [] \<Longrightarrow> \<not> p (hd s) \<Longrightarrow> \<not> p (last s) \<Longrightarrow> trim_by p s = s"
  by (simp add: trim_by_def dropWhile_hd hd_rev)

lemma trim_by_left [simp]: "p c \<Longrightarrow> trim_by p (c # s) = trim_by p s"
  by (simp add: trim_by_def)

lemma trim_by_snoc:
  assumes "p c" and "s \<noteq> []" and "\<not> p (hd s)"
  shows "trim_by p (s @ [c]) = trim_by p s"
proof -
  from assms(2,3) obtain x xs where "s = x # xs" "\<not> p x" by (cases s) auto
  with assms(1) show ?thesis by (simp add: trim_by_def)
qed

lemma trim_quotes_quoted:
  assumes "line_value a"
  shows "trim_quotes (CHR 0x22 # a @ [CHR 0x22]) = a"
  using assms by (simp add: trim_quotes_def line_value_def trim_by_snoc trim_by_id)

lemma split_once_eq [simp]:
  "d \<notin> set k \<Longrightarrow> split_once d (k @ d # v) = Some (k, v)"
  by (auto simp: split_once_def takeWhile_tail dropWhile_append3 dropWhile_append)

lemma text_lines_quoted:
  assumes "CHR 0x0A \<notin> set k" and "CHR 0x0A \<notin> set v"
  shows "text_lines (quoted_line k v @ r) = (k @ '' = '' @ CHR 0x22 # v @ [CHR 0x22]) # text_lines r"
proof -
  let ?l = "k @ '' = '' @ CHR 0x22 # v @ [CHR 0x22]"
  have "quoted_line k v @ r = ?l @ CHR 0x0A # r"
    by (simp add: quoted_line_def)
  moreover have "CHR 0x0A \<notin> set ?l"
    using assms by auto
  moreover have "strip_cr ?l = ?l"
    by (simp add: strip_cr_def)
  ultimately show ?thesis
    by (metis text_lines_line)
qed

text \<open>
  A key of the format: what \<open>trim\<close> leaves alone and \<open>split_once\<close> does not cut.
\<close>

definition line_key :: "string \<Rightarrow> bool" where
  "line_key k \<longleftrightarrow> k \<noteq> [] \<and> hd k \<noteq> CHR ''#'' \<and>
     (\<forall>c \<in> set k. \<not> is_ws c \<and> c \<noteq> CHR ''='' \<and> c \<noteq> CHR 0x22)"

lemma trim_quoted:
  assumes "line_key k"
  shows "trim (k @ '' = '' @ CHR 0x22 # v @ [CHR 0x22]) = k @ '' = '' @ CHR 0x22 # v @ [CHR 0x22]"
  unfolding trim_def
  using assms by (intro trim_by_id) (auto simp: line_key_def is_ws_def hd_append)

lemma split_quoted:
  assumes "line_key k"
  shows "split_once (CHR ''='') (k @ '' = '' @ CHR 0x22 # v @ [CHR 0x22])
       = Some (k @ '' '', '' '' @ CHR 0x22 # v @ [CHR 0x22])"
proof -
  have "CHR ''='' \<notin> set (k @ '' '')" using assms by (auto simp: line_key_def)
  from split_once_eq [OF this, of "'' '' @ CHR 0x22 # v @ [CHR 0x22]"] show ?thesis by simp
qed

lemma trim_key:
  assumes "line_key k"
  shows "trim (k @ '' '') = k"
proof -
  have ne: "k \<noteq> []" "\<not> is_ws (hd k)" "\<not> is_ws (last k)"
    using assms by (auto simp: line_key_def)
  have "trim (k @ '' '') = trim_by is_ws k"
    unfolding trim_def using ne by (intro trim_by_snoc) (auto simp: is_ws_def)
  with ne show ?thesis by (simp add: trim_by_id)
qed

lemma trim_value: "trim ('' '' @ CHR 0x22 # v @ [CHR 0x22]) = CHR 0x22 # v @ [CHR 0x22]"
  by (simp add: trim_def is_ws_def trim_by_id)

lemma hd_quoted: "line_key k \<Longrightarrow> hd (k @ r) \<noteq> CHR ''#''"
  by (auto simp: line_key_def)

lemmas quoted_simps = trim_quoted split_quoted trim_key trim_value hd_quoted trim_quotes_quoted

lemma line_key_archive [simp]:
  "line_key ''archive''" "line_key ''slot_a_archive''" "line_key ''slot_b_archive''"
  "line_key ''stage0_archive''"
  by (simp_all add: line_key_def is_ws_def)

lemma load_nv_line_archive:
  assumes "line_value a"
  shows "load_nv_line nv (''archive'' @ '' = '' @ CHR 0x22 # a @ [CHR 0x22])
       = nv\<lparr>nv_archive := Some a\<rparr>"
  unfolding load_nv_line_def quoted_simps(1) [OF line_key_archive(1)]
    quoted_simps(2) [OF line_key_archive(1)] option.case prod.case Let_def
    quoted_simps(3) [OF line_key_archive(1)] quoted_simps(4)
  using assms by (simp add: trim_quotes_quoted non_empty_def line_value_def)

lemma load_rot_meta_line_quoted:
  assumes "line_value a"
  shows "load_rot_meta_line m (''slot_a_archive'' @ '' = '' @ CHR 0x22 # a @ [CHR 0x22])
       = m\<lparr>slot_a_archive := Some a\<rparr>"
    and "load_rot_meta_line m (''slot_b_archive'' @ '' = '' @ CHR 0x22 # a @ [CHR 0x22])
       = m\<lparr>slot_b_archive := Some a\<rparr>"
    and "load_rot_meta_line m (''stage0_archive'' @ '' = '' @ CHR 0x22 # a @ [CHR 0x22])
       = m\<lparr>stage0_archive := Some a\<rparr>"
  unfolding load_rot_meta_line_def quoted_simps(1) [OF line_key_archive(2)]
    quoted_simps(2) [OF line_key_archive(2)] quoted_simps(3) [OF line_key_archive(2)]
    quoted_simps(1) [OF line_key_archive(3)]
    quoted_simps(2) [OF line_key_archive(3)] quoted_simps(3) [OF line_key_archive(3)]
    quoted_simps(1) [OF line_key_archive(4)]
    quoted_simps(2) [OF line_key_archive(4)] quoted_simps(3) [OF line_key_archive(4)]
    option.case prod.case Let_def quoted_simps(4)
  using assms by (simp_all add: trim_quotes_quoted non_empty_def line_value_def)

lemma load_nv_line_fixed:
  "load_nv_line nv nv_header = nv"
  "load_nv_line nv ''swap_bank = 1'' = nv\<lparr>swap_bank := True\<rparr>"
  "load_nv_line nv ''swap_bank = 0'' = nv\<lparr>swap_bank := False\<rparr>"
  by (simp_all add: load_nv_line_def nv_header_def trim_def trim_by_def is_ws_def split_once_def)

lemma text_lines_fixed:
  "text_lines (nv_header @ CHR 0x0A # r) = nv_header # text_lines r"
  "text_lines (''swap_bank = 1'' @ CHR 0x0A # r) = ''swap_bank = 1'' # text_lines r"
  "text_lines (''swap_bank = 0'' @ CHR 0x0A # r) = ''swap_bank = 0'' # text_lines r"
  by (subst text_lines_line; simp add: nv_header_def strip_cr_def)+

lemma text_lines_save_nv:
  assumes "\<And>a. nv_archive nv = Some a \<Longrightarrow> CHR 0x0A \<notin> set a"
  shows "text_lines (save_nv nv) =
    nv_header # (if swap_bank nv then ''swap_bank = 1'' else ''swap_bank = 0'') #
    (case nv_archive nv of None \<Rightarrow> []
     | Some a \<Rightarrow> [''archive'' @ '' = '' @ CHR 0x22 # a @ [CHR 0x22]])"
proof -
  have ar: "text_lines (case nv_archive nv of None \<Rightarrow> [] | Some a \<Rightarrow> quoted_line ''archive'' a)
    = (case nv_archive nv of None \<Rightarrow> []
       | Some a \<Rightarrow> [''archive'' @ '' = '' @ CHR 0x22 # a @ [CHR 0x22]])"
    using assms text_lines_quoted [of "''archive''" _ "[]"]
    by (auto split: option.splits)
  have "save_nv nv = nv_header @ CHR 0x0A #
     ((if swap_bank nv then ''swap_bank = 1'' else ''swap_bank = 0'') @ CHR 0x0A #
     (case nv_archive nv of None \<Rightarrow> [] | Some a \<Rightarrow> quoted_line ''archive'' a))"
    by (simp add: save_nv_def)
  then show ?thesis
    unfolding text_lines_fixed(1)
    by (cases "swap_bank nv") (simp_all only: if_True if_False text_lines_fixed ar)
qed

lemma load_save_nv:
  assumes "\<And>a. nv_archive nv = Some a \<Longrightarrow> line_value a"
  shows "load_nv (Some (save_nv nv)) = nv"
proof -
  have lines: "text_lines (save_nv nv) =
    nv_header # (if swap_bank nv then ''swap_bank = 1'' else ''swap_bank = 0'') #
    (case nv_archive nv of None \<Rightarrow> []
     | Some a \<Rightarrow> [''archive'' @ '' = '' @ CHR 0x22 # a @ [CHR 0x22]])"
    using assms by (intro text_lines_save_nv) (auto simp: line_value_def)
  have "load_nv (Some (save_nv nv)) = \<lparr>swap_bank = swap_bank nv, nv_archive = nv_archive nv\<rparr>"
    unfolding load_nv_def option.case lines
    using assms
    by (cases "swap_bank nv"; cases "nv_archive nv")
       (simp_all only: option.case foldl_Cons foldl_Nil if_True if_False
          load_nv_line_fixed load_nv_line_archive nv_default_def nv_state.simps)
  then show ?thesis by simp
qed

lemma text_lines_opt:
  assumes "CHR 0x0A \<notin> set k" and "\<And>a. v = Some a \<Longrightarrow> CHR 0x0A \<notin> set a"
  shows "text_lines (opt_line k v @ r) =
    (case v of None \<Rightarrow> [] | Some a \<Rightarrow> [k @ '' = '' @ CHR 0x22 # a @ [CHR 0x22]]) @ text_lines r"
  using assms by (cases v) (simp_all add: opt_line_def text_lines_quoted)

lemma load_rot_meta_header:
  "load_rot_meta_line m
     ''# sp-emu RoT instance metadata: Hubris archive per region (see src/flash.rs)'' = m"
  by (simp add: load_rot_meta_line_def trim_def trim_by_def is_ws_def)

lemma load_save_rot_meta:
  assumes a: "\<And>x. slot_a_archive m = Some x \<Longrightarrow> line_value x"
    and b: "\<And>x. slot_b_archive m = Some x \<Longrightarrow> line_value x"
    and c: "\<And>x. stage0_archive m = Some x \<Longrightarrow> line_value x"
  shows "load_rot_meta (Some (save_rot_meta m)) = m"
proof -
  let ?hdr = "''# sp-emu RoT instance metadata: Hubris archive per region (see src/flash.rs)''"
  let ?l = "\<lambda>k v. case v of None \<Rightarrow> [] | Some x \<Rightarrow> [k @ '' = '' @ CHR 0x22 # x @ [CHR 0x22]]"
  have nl: "line_value x \<Longrightarrow> CHR 0x0A \<notin> set x" for x by (simp add: line_value_def)
  have "text_lines (opt_line ''stage0_archive'' (stage0_archive m) @ []) =
      ?l ''stage0_archive'' (stage0_archive m) @ text_lines []"
    using c nl by (intro text_lines_opt) auto
  then have s: "text_lines (opt_line ''stage0_archive'' (stage0_archive m)) =
      ?l ''stage0_archive'' (stage0_archive m)" by simp
  have lines: "text_lines (save_rot_meta m) = ?hdr #
      ?l ''slot_a_archive'' (slot_a_archive m) @ ?l ''slot_b_archive'' (slot_b_archive m) @
      ?l ''stage0_archive'' (stage0_archive m)"
    unfolding save_rot_meta_def
    by (subst text_lines_line, simp, subst text_lines_opt, simp, use a nl in blast,
        subst text_lines_opt, simp, use b nl in blast, simp add: s strip_cr_def)
  have "load_rot_meta (Some (save_rot_meta m)) =
    \<lparr>slot_a_archive = slot_a_archive m, slot_b_archive = slot_b_archive m,
     stage0_archive = stage0_archive m\<rparr>"
    unfolding load_rot_meta_def option.case lines
    using a b c
    by (cases "slot_a_archive m"; cases "slot_b_archive m"; cases "stage0_archive m")
       (simp_all only: option.case foldl_Cons foldl_Nil foldl_append
          load_rot_meta_header load_rot_meta_line_quoted rot_meta_default_def rot_meta.simps)
  then show ?thesis by simp
qed

end
