(* ===== verification/Flash.thy ===== *)
theory Flash
  imports Nv
begin

text \<open>
  The STM32H7 embedded flash and FLASH controller of the service processor
  (\<open>src/flash.rs\<close>, the \<open>Flash\<close> struct): two banks of 1 MB behind one aperture, the
  two-write unlock sequences, bank erase, NOR programming, the option-byte bank swap
  and the write-through to the host file. \<open>fl_mem\<close> is the \<open>Vec<u8>\<close> of the fixed
  length \<open>TOTAL\<close>. The host file is \<open>fl_file\<close> (its contents, \<open>None\<close> once the handle
  is given up); whether the operating system carries out a write is the environment's
  choice, kept in \<open>fl_write_ok\<close> and \<open>fl_nv_ok\<close>.
\<close>

unbundle bit_operations_syntax

section \<open>Constants\<close>

abbreviation (input) FLASH_BASE :: u32 where "FLASH_BASE \<equiv> 0x08000000"
abbreviation (input) BANK_SIZE :: nat where "BANK_SIZE \<equiv> 0x100000"
abbreviation (input) TOTAL :: nat where "TOTAL \<equiv> 0x200000"
abbreviation (input) ERASED :: u8 where "ERASED \<equiv> 0xFF"

abbreviation (input) REG_OPTKEYR :: u32 where "REG_OPTKEYR \<equiv> 0x08"
abbreviation (input) REG_OPTCR :: u32 where "REG_OPTCR \<equiv> 0x18"
abbreviation (input) REG_OPTSR_CUR :: u32 where "REG_OPTSR_CUR \<equiv> 0x1C"
abbreviation (input) REG_OPTSR_PRG :: u32 where "REG_OPTSR_PRG \<equiv> 0x20"
abbreviation (input) REG_OPTCCR :: u32 where "REG_OPTCCR \<equiv> 0x24"
abbreviation (input) REG_KEYR2 :: u32 where "REG_KEYR2 \<equiv> 0x104"
abbreviation (input) REG_CR2 :: u32 where "REG_CR2 \<equiv> 0x10C"
abbreviation (input) REG_SR2 :: u32 where "REG_SR2 \<equiv> 0x110"
abbreviation (input) REG_CCR2 :: u32 where "REG_CCR2 \<equiv> 0x114"

abbreviation (input) KEY1 :: u32 where "KEY1 \<equiv> 0x45670123"
abbreviation (input) KEY2 :: u32 where "KEY2 \<equiv> 0xCDEF89AB"
abbreviation (input) OPTKEY1 :: u32 where "OPTKEY1 \<equiv> 0x08192A3B"
abbreviation (input) OPTKEY2 :: u32 where "OPTKEY2 \<equiv> 0x4C5D6E7F"

abbreviation (input) FLASH_IRQ :: nat where "FLASH_IRQ \<equiv> 4"

text \<open>Bit numbers of CR2 (LOCK, PG, BER, START, EOPIE), SR2, OPTCR and OPTSR.\<close>

abbreviation (input) CR_LOCK :: nat where "CR_LOCK \<equiv> 0"
abbreviation (input) CR_PG :: nat where "CR_PG \<equiv> 1"
abbreviation (input) CR_BER :: nat where "CR_BER \<equiv> 3"
abbreviation (input) CR_START :: nat where "CR_START \<equiv> 7"
abbreviation (input) CR_EOPIE :: nat where "CR_EOPIE \<equiv> 16"
abbreviation (input) SR_EOP :: nat where "SR_EOP \<equiv> 16"
abbreviation (input) OPTCR_OPTLOCK :: nat where "OPTCR_OPTLOCK \<equiv> 0"
abbreviation (input) OPTCR_OPTSTART :: nat where "OPTCR_OPTSTART \<equiv> 1"
abbreviation (input) OPT_SWAP_BANK :: nat where "OPT_SWAP_BANK \<equiv> 31"

section \<open>Slots of the flash image file\<close>

text \<open>
  The command-line operations on the 2 MB image file; \<open>slot_error\<close> lists their
  \<open>bail!\<close>s. An image file that does not exist is \<open>None\<close>.
\<close>

datatype slot_error = BadSlot char | ImageTooBig nat

definition slot_offset :: "char \<Rightarrow> slot_error + nat" where
  "slot_offset c =
     (if c = CHR ''a'' \<or> c = CHR ''A'' then Inr 0
      else if c = CHR ''b'' \<or> c = CHR ''B'' then Inr BANK_SIZE
      else Inl (BadSlot c))"

definition slot_base :: "char \<Rightarrow> slot_error + u32" where
  "slot_base c = map_sum id (\<lambda>o'. FLASH_BASE + of_nat o') (slot_offset c)"

definition resize :: "nat \<Rightarrow> 'a \<Rightarrow> 'a list \<Rightarrow> 'a list" where
  "resize n x xs = take n xs @ replicate (n - length xs) x"

definition load_nvm :: "u8 list option \<Rightarrow> u8 list" where
  "load_nvm file = (case file of
     Some d \<Rightarrow> resize TOTAL ERASED d | None \<Rightarrow> replicate TOTAL ERASED)"

definition program_slot :: "u8 list option \<Rightarrow> char \<Rightarrow> u8 list \<Rightarrow> slot_error + u8 list" where
  "program_slot file slot img = (case slot_offset slot of
     Inl e \<Rightarrow> Inl e
   | Inr o' \<Rightarrow>
       if length img > BANK_SIZE then Inl (ImageTooBig (length img))
       else let nvm = load_nvm file;
                nvm1 = take o' nvm @ replicate BANK_SIZE ERASED @ drop (o' + BANK_SIZE) nvm
            in Inr (take o' nvm1 @ img @ drop (o' + length img) nvm1))"

definition erase_slot :: "u8 list option \<Rightarrow> char \<Rightarrow> slot_error + u8 list" where
  "erase_slot file slot = (case slot_offset slot of
     Inl e \<Rightarrow> Inl e
   | Inr o' \<Rightarrow> let nvm = load_nvm file in
       Inr (take o' nvm @ replicate BANK_SIZE ERASED @ drop (o' + BANK_SIZE) nvm))"

definition slot_programmed :: "u8 list \<Rightarrow> char \<Rightarrow> slot_error + bool" where
  "slot_programmed nvm slot = (case slot_offset slot of
     Inl e \<Rightarrow> Inl e
   | Inr o' \<Rightarrow>
       let sp = le32 (nvm ! o') (nvm ! (o' + 1)) (nvm ! (o' + 2)) (nvm ! (o' + 3))
       in Inr (sp \<noteq> 0xFFFFFFFF \<and> 0x20000000 \<le> sp \<and> sp < 0x40000000))"

definition mirror_unprogrammed_slot :: "u8 list \<Rightarrow> u8 list" where
  "mirror_unprogrammed_slot nvm =
     (let a = (case slot_programmed nvm CHR ''a'' of Inr p \<Rightarrow> p | Inl _ \<Rightarrow> False);
          b = (case slot_programmed nvm CHR ''b'' of Inr p \<Rightarrow> p | Inl _ \<Rightarrow> False)
      in if a \<and> \<not> b then take BANK_SIZE nvm @ take BANK_SIZE nvm @ drop TOTAL nvm
         else if \<not> a \<and> b then take BANK_SIZE (drop BANK_SIZE nvm) @ drop BANK_SIZE nvm
         else nvm)"

section \<open>State of the runtime model\<close>

record flash =
  fl_mem :: bytes
  fl_file :: "bytes option"
  fl_nv_file :: "string option"
  fl_archive :: "string option"
  effective_swap :: bool
  committed_swap :: bool
  staged_swap :: bool
  bank2_locked :: bool
  opt_locked :: bool
  key2_state :: u8
  optkey_state :: u8
  cr2 :: u32
  sr2 :: u32
  erase_irq :: bool
  fl_regs :: "u32 \<rightharpoonup> u32"
  fl_write_ok :: "nat \<Rightarrow> nat \<Rightarrow> bool"
  fl_nv_ok :: bool

text \<open>
  \<open>Flash::new\<close>: \<open>file_ok\<close> says whether the backing file was opened and seeded with
  the image; \<open>nv_text\<close> is what the state file holds at that moment.
\<close>

definition flash_new ::
  "u8 list \<Rightarrow> nv_state \<Rightarrow> bool \<Rightarrow> string option \<Rightarrow> (nat \<Rightarrow> nat \<Rightarrow> bool) \<Rightarrow> bool \<Rightarrow> flash" where
  "flash_new img nv file_ok nv_text write_ok nv_ok =
     (let m = (\<lambda>i. resize TOTAL ERASED img ! i) in
      \<lparr>fl_mem = m, fl_file = (if file_ok then Some m else None), fl_nv_file = nv_text,
       fl_archive = nv_archive nv,
       effective_swap = swap_bank nv, committed_swap = swap_bank nv,
       staged_swap = swap_bank nv,
       bank2_locked = True, opt_locked = True, key2_state = 0, optkey_state = 0,
       cr2 = 0, sr2 = 0, erase_irq = False, fl_regs = Map.empty,
       fl_write_ok = write_ok, fl_nv_ok = nv_ok\<rparr>)"

section \<open>The aperture\<close>

definition phys_off :: "flash \<Rightarrow> u32 \<Rightarrow> nat" where
  "phys_off f addr =
     (let rel = unat (addr - FLASH_BASE) in
      if effective_swap f then rel XOR BANK_SIZE else rel)"

definition read_bytes :: "flash \<Rightarrow> nat \<Rightarrow> u32 \<Rightarrow> u8 list" where
  "read_bytes f N addr =
     (let o' = phys_off f addr; n = min (TOTAL - o') N
      in slice (fl_mem f) o' n @ replicate (N - n) ERASED)"

definition read_mem32 :: "flash \<Rightarrow> u32 \<Rightarrow> u32" where
  "read_mem32 f addr =
     (let b = read_bytes f 4 addr in le32 (b ! 0) (b ! 1) (b ! 2) (b ! 3))"

definition read_mem16 :: "flash \<Rightarrow> u32 \<Rightarrow> u16" where
  "read_mem16 f addr = (let b = read_bytes f 2 addr in le16 (b ! 0) (b ! 1))"

definition read_mem8 :: "flash \<Rightarrow> u32 \<Rightarrow> u8" where
  "read_mem8 f addr = fl_mem f (phys_off f addr)"

definition write_through :: "flash \<Rightarrow> nat \<Rightarrow> nat \<Rightarrow> flash" where
  "write_through f off n =
     (if n = 0 then f
      else case fl_file f of
        None \<Rightarrow> f
      | Some c \<Rightarrow>
          if fl_write_ok f off n
          then f\<lparr>fl_file := Some (blit c off (slice (fl_mem f) off n))\<rparr>
          else f\<lparr>fl_file := None\<rparr>)"

text \<open>The loop of \<open>write_mem\<close>: \<open>k\<close> bytes still to go, the next one is number \<open>i\<close>.\<close>

fun program_bytes :: "bytes \<Rightarrow> nat \<Rightarrow> u32 \<Rightarrow> nat \<Rightarrow> nat \<Rightarrow> bytes \<times> nat" where
  "program_bytes m o' val i 0 = (m, 0)"
| "program_bytes m o' val i (Suc k) =
     (if TOTAL \<le> o' + i then (m, 0)
      else let (m', n) = program_bytes (m(o' + i := m (o' + i) AND byte_of val i)) o' val (Suc i) k
           in (m', Suc n))"

definition write_mem :: "flash \<Rightarrow> u32 \<Rightarrow> u32 \<Rightarrow> nat \<Rightarrow> flash" where
  "write_mem f addr val size' =
     (if bank2_locked f \<or> \<not> bit_set (cr2 f) CR_PG then f
      else let o' = phys_off f addr;
               (m, n) = program_bytes (fl_mem f) o' val 0 size'
           in write_through (f\<lparr>fl_mem := m\<rparr>) o' n)"

definition load_image_at :: "flash \<Rightarrow> u32 \<Rightarrow> u8 list \<Rightarrow> flash" where
  "load_image_at f addr bs =
     (let o' = phys_off f addr; n = min (TOTAL - o') (length bs)
      in write_through (f\<lparr>fl_mem := blit (fl_mem f) o' (take n bs)\<rparr>) o' n)"

section \<open>The FLASH controller registers\<close>

definition reg_read :: "flash \<Rightarrow> u32 \<Rightarrow> u32" where
  "reg_read f off =
     (if off = REG_OPTCR then
        b2w (opt_locked f) OR push_bit OPT_SWAP_BANK (b2w (effective_swap f))
      else if off = REG_OPTSR_CUR then push_bit OPT_SWAP_BANK (b2w (committed_swap f))
      else if off = REG_OPTSR_PRG then push_bit OPT_SWAP_BANK (b2w (staged_swap f))
      else if off = REG_CR2 then cr2 f OR b2w (bank2_locked f)
      else if off = REG_SR2 then sr2 f
      else reg_get (fl_regs f) off)"

definition erase_bank2 :: "flash \<Rightarrow> flash" where
  "erase_bank2 f =
     (let base = phys_off f (FLASH_BASE + of_nat BANK_SIZE)
      in write_through
           (f\<lparr>fl_mem := fill_range (fl_mem f) base (base + BANK_SIZE) ERASED\<rparr>) base BANK_SIZE)"

text \<open>
  The two-write unlock sequence shared by KEYR2 and OPTKEYR: the new progress and
  whether this write opened the lock.
\<close>

definition unlock_step :: "u32 \<Rightarrow> u32 \<Rightarrow> u8 \<Rightarrow> u32 \<Rightarrow> u8 \<times> bool" where
  "unlock_step k1 k2 st val =
     (if st = 0 \<and> val = k1 then (1, False)
      else if st = 1 \<and> val = k2 then (0, True)
      else (0, False))"

definition write_keyr2 :: "flash \<Rightarrow> u32 \<Rightarrow> flash" where
  "write_keyr2 f val =
     (let (st, opened) = unlock_step KEY1 KEY2 (key2_state f) val
      in f\<lparr>key2_state := st, bank2_locked := (bank2_locked f \<and> \<not> opened)\<rparr>)"

definition write_optkeyr :: "flash \<Rightarrow> u32 \<Rightarrow> flash" where
  "write_optkeyr f val =
     (let (st, opened) = unlock_step OPTKEY1 OPTKEY2 (optkey_state f) val
      in f\<lparr>optkey_state := st, opt_locked := (opt_locked f \<and> \<not> opened)\<rparr>)"

definition write_cr2 :: "flash \<Rightarrow> u32 \<Rightarrow> flash" where
  "write_cr2 f val =
     (let f1 = f\<lparr>cr2 := val AND NOT (push_bit CR_LOCK 1),
                 bank2_locked := (bank2_locked f \<or> bit_set val CR_LOCK)\<rparr>
      in if bit_set val CR_BER \<and> bit_set val CR_START \<and> \<not> bank2_locked f1
         then let f2 = erase_bank2 f1;
                  f3 = f2\<lparr>sr2 := sr2 f2 OR push_bit SR_EOP 1\<rparr>
              in if bit_set val CR_EOPIE then f3\<lparr>erase_irq := True\<rparr> else f3
         else f1)"

definition write_optcr :: "flash \<Rightarrow> u32 \<Rightarrow> flash" where
  "write_optcr f val =
     (let f1 = f\<lparr>opt_locked := (opt_locked f \<or> bit_set val OPTCR_OPTLOCK)\<rparr>
      in if bit_set val OPTCR_OPTSTART \<and> \<not> opt_locked f1
         then let f2 = f1\<lparr>committed_swap := staged_swap f1\<rparr>;
                  nv = \<lparr>swap_bank = committed_swap f2, nv_archive = fl_archive f2\<rparr>
              in if fl_nv_ok f2 then f2\<lparr>fl_nv_file := Some (save_nv nv)\<rparr> else f2
         else f1)"

definition reg_write :: "flash \<Rightarrow> u32 \<Rightarrow> u32 \<Rightarrow> flash" where
  "reg_write f off val =
     (if off = REG_KEYR2 then write_keyr2 f val
      else if off = REG_OPTKEYR then write_optkeyr f val
      else if off = REG_CR2 then write_cr2 f val
      else if off = REG_SR2 then f\<lparr>sr2 := val\<rparr>
      else if off = REG_CCR2 then f\<lparr>sr2 := sr2 f AND NOT val\<rparr>
      else if off = REG_OPTSR_PRG then
        f\<lparr>staged_swap := bit_set val OPT_SWAP_BANK, fl_regs := (fl_regs f)(off \<mapsto> val)\<rparr>
      else if off = REG_OPTCR then write_optcr f val
      else if off = REG_OPTCCR then f
      else f\<lparr>fl_regs := (fl_regs f)(off \<mapsto> val)\<rparr>)"

definition take_erase_irq :: "flash \<Rightarrow> bool \<times> flash" where
  "take_erase_irq f = (erase_irq f, f\<lparr>erase_irq := False\<rparr>)"

definition force_swap :: "flash \<Rightarrow> bool \<Rightarrow> flash" where
  "force_swap f swap =
     f\<lparr>effective_swap := swap, committed_swap := swap, staged_swap := swap\<rparr>"

definition reset_latch :: "flash \<Rightarrow> flash" where
  "reset_latch f = f\<lparr>effective_swap := committed_swap f\<rparr>"

section \<open>Facts on the fields each operation leaves alone\<close>

named_theorems flash_frame \<open>fields a flash operation does not touch\<close>

lemma write_through_frame [flash_frame, simp]:
  "fl_mem (write_through f o' n) = fl_mem f"
  "effective_swap (write_through f o' n) = effective_swap f"
  "committed_swap (write_through f o' n) = committed_swap f"
  "staged_swap (write_through f o' n) = staged_swap f"
  "bank2_locked (write_through f o' n) = bank2_locked f"
  "opt_locked (write_through f o' n) = opt_locked f"
  "key2_state (write_through f o' n) = key2_state f"
  "optkey_state (write_through f o' n) = optkey_state f"
  "cr2 (write_through f o' n) = cr2 f"
  "sr2 (write_through f o' n) = sr2 f"
  "erase_irq (write_through f o' n) = erase_irq f"
  "fl_regs (write_through f o' n) = fl_regs f"
  "fl_archive (write_through f o' n) = fl_archive f"
  "fl_nv_file (write_through f o' n) = fl_nv_file f"
  "fl_nv_ok (write_through f o' n) = fl_nv_ok f"
  by (simp_all add: write_through_def split: option.splits)

lemma write_mem_frame [flash_frame, simp]:
  "effective_swap (write_mem f a v n) = effective_swap f"
  "committed_swap (write_mem f a v n) = committed_swap f"
  "staged_swap (write_mem f a v n) = staged_swap f"
  "bank2_locked (write_mem f a v n) = bank2_locked f"
  "opt_locked (write_mem f a v n) = opt_locked f"
  "key2_state (write_mem f a v n) = key2_state f"
  "optkey_state (write_mem f a v n) = optkey_state f"
  "cr2 (write_mem f a v n) = cr2 f"
  by (simp_all add: write_mem_def Let_def split: prod.splits)

lemma erase_bank2_frame [flash_frame, simp]:
  "effective_swap (erase_bank2 f) = effective_swap f"
  "committed_swap (erase_bank2 f) = committed_swap f"
  "staged_swap (erase_bank2 f) = staged_swap f"
  "bank2_locked (erase_bank2 f) = bank2_locked f"
  "opt_locked (erase_bank2 f) = opt_locked f"
  "key2_state (erase_bank2 f) = key2_state f"
  "optkey_state (erase_bank2 f) = optkey_state f"
  "cr2 (erase_bank2 f) = cr2 f"
  "sr2 (erase_bank2 f) = sr2 f"
  by (simp_all add: erase_bank2_def Let_def)

lemma reg_write_effective_swap [simp]: "effective_swap (reg_write f off v) = effective_swap f"
  by (simp add: reg_write_def write_keyr2_def write_optkeyr_def write_cr2_def write_optcr_def
      Let_def split: prod.splits)

section \<open>The aperture as two banks\<close>

text \<open>
  \<open>aperture f i\<close> is the byte the core sees at \<open>FLASH_BASE + i\<close>. The XOR of
  \<open>phys_off\<close> is a swap of the two halves.
\<close>

definition ap_off :: "bool \<Rightarrow> nat \<Rightarrow> nat" where
  "ap_off swap i = (if swap then (if i < BANK_SIZE then i + BANK_SIZE else i - BANK_SIZE) else i)"

definition aperture :: "flash \<Rightarrow> nat \<Rightarrow> u8" where
  "aperture f i = fl_mem f (ap_off (effective_swap f) i)"

lemma xor_bank_size_low:
  assumes "q < BANK_SIZE"
  shows "q XOR BANK_SIZE = q + BANK_SIZE"
proof -
  have "\<not> bit q 20" using assms by (simp add: bit_iff_odd)
  moreover have "q XOR BANK_SIZE = flip_bit 20 q" by (simp add: flip_bit_def)
  ultimately show ?thesis by (simp add: flip_bit_eq_if set_bit_eq)
qed

lemma xor_bank_size:
  assumes "r < TOTAL"
  shows "r XOR BANK_SIZE = (if r < BANK_SIZE then r + BANK_SIZE else r - BANK_SIZE)"
proof (cases "r < BANK_SIZE")
  case True
  then show ?thesis by (simp add: xor_bank_size_low)
next
  case False
  then obtain q where r: "r = q + BANK_SIZE" by (metis le_add_diff_inverse2 not_less)
  with assms have "q < BANK_SIZE" by simp
  then have "r XOR BANK_SIZE = q" by (simp add: r flip: xor_bank_size_low add: xor.assoc)
  with False r show ?thesis by simp
qed

lemma unat_aperture [simp]:
  "i < TOTAL \<Longrightarrow> unat (FLASH_BASE + of_nat i - FLASH_BASE :: u32) = i"
  by (simp add: unat_of_nat)

lemma phys_off_ap: "i < TOTAL \<Longrightarrow> phys_off f (FLASH_BASE + of_nat i) = ap_off (effective_swap f) i"
  by (simp add: phys_off_def Let_def ap_off_def xor_bank_size unat_of_nat)

lemma ap_off_less: "i < TOTAL \<Longrightarrow> ap_off s i < TOTAL"
  unfolding ap_off_def by (simp split: if_split) linarith

lemma ap_off_inj: "i < TOTAL \<Longrightarrow> j < TOTAL \<Longrightarrow> ap_off s i = ap_off s j \<longleftrightarrow> i = j"
  by (auto simp: ap_off_def split: if_splits)

lemma ap_off_word: "4 dvd i \<Longrightarrow> i < TOTAL \<Longrightarrow> k < 4 \<Longrightarrow> ap_off s (i + k) = ap_off s i + k"
  by (auto simp: ap_off_def dvd_def)

lemma ap_off_word_less: "4 dvd i \<Longrightarrow> i < TOTAL \<Longrightarrow> ap_off s i + 4 \<le> TOTAL"
  by (auto simp: ap_off_def dvd_def)

lemma aperture_read_mem8: "i < TOTAL \<Longrightarrow> read_mem8 f (FLASH_BASE + of_nat i) = aperture f i"
  by (simp add: read_mem8_def aperture_def phys_off_ap)

lemma aperture_read_mem32:
  assumes "4 dvd i" and "i < TOTAL"
  shows "read_mem32 f (FLASH_BASE + of_nat i) =
    le32 (aperture f i) (aperture f (i + 1)) (aperture f (i + 2)) (aperture f (i + 3))"
proof -
  have le: "ap_off (effective_swap f) i + 4 \<le> TOTAL"
    using assms by (rule ap_off_word_less)
  then have min: "min (TOTAL - ap_off (effective_swap f) i) 4 = 4" by linarith
  show ?thesis
    using ap_off_word [OF assms, of 1] ap_off_word [OF assms, of 2] ap_off_word [OF assms, of 3]
    unfolding read_mem32_def read_bytes_def phys_off_ap [OF assms(2)] Let_def min slice_4
    by (simp add: aperture_def)
qed

section \<open>NOR programming\<close>

lemma program_bytes_eq:
  "program_bytes m o' val i k =
    ((\<lambda>j. if o' + i \<le> j \<and> j < o' + i + k \<and> j < TOTAL then m j AND byte_of val (j - o') else m j),
     min k (TOTAL - (o' + i)))"
proof (induction k arbitrary: m i)
  case 0
  then show ?case by (auto simp: fun_eq_iff)
next
  case (Suc k)
  show ?case
  proof (cases "TOTAL \<le> o' + i")
    case True
    then show ?thesis by (auto simp: fun_eq_iff)
  next
    case False
    then show ?thesis
      by (auto simp: Suc.IH fun_eq_iff)
  qed
qed

lemma write_mem_locked: "bank2_locked f \<or> \<not> bit (cr2 f) CR_PG \<Longrightarrow> write_mem f a v n = f"
  by (auto simp: write_mem_def)

lemma fl_mem_write_mem:
  "fl_mem (write_mem f a v n) j =
    (if \<not> bank2_locked f \<and> bit (cr2 f) CR_PG \<and> phys_off f a \<le> j \<and> j < phys_off f a + n \<and> j < TOTAL
     then fl_mem f j AND byte_of v (j - phys_off f a) else fl_mem f j)"
  by (auto simp: write_mem_def Let_def program_bytes_eq)

lemma aperture_write_mem:
  assumes "4 dvd i" and "i < TOTAL" and "j < TOTAL"
    and "\<not> bank2_locked f" and "bit (cr2 f) CR_PG"
  shows "aperture (write_mem f (FLASH_BASE + of_nat i) v 4) j =
    (if i \<le> j \<and> j < i + 4 then aperture f j AND byte_of v (j - i) else aperture f j)"
proof -
  let ?s = "effective_swap f"
  have iff: "ap_off ?s i \<le> ap_off ?s j \<and> ap_off ?s j < ap_off ?s i + 4 \<longleftrightarrow> i \<le> j \<and> j < i + 4"
  proof
    assume "i \<le> j \<and> j < i + 4"
    then obtain k where "j = i + k" "k < 4" by (metis le_Suc_ex add_less_cancel_left)
    then show "ap_off ?s i \<le> ap_off ?s j \<and> ap_off ?s j < ap_off ?s i + 4"
      using ap_off_word [OF assms(1,2)] by simp
  next
    assume *: "ap_off ?s i \<le> ap_off ?s j \<and> ap_off ?s j < ap_off ?s i + 4"
    then obtain k where k: "ap_off ?s j = ap_off ?s i + k" "k < 4"
      by (metis le_Suc_ex add_less_cancel_left)
    then have "ap_off ?s j = ap_off ?s (i + k)" using ap_off_word [OF assms(1,2)] by simp
    moreover have "i + k < TOTAL" using assms(1,2) k(2) by (auto simp: dvd_def)
    ultimately show "i \<le> j \<and> j < i + 4"
      using ap_off_inj [OF assms(3)] k(2) by simp
  qed
  have sub: "i \<le> j \<and> j < i + 4 \<Longrightarrow> ap_off ?s j - ap_off ?s i = j - i"
    using ap_off_word [OF assms(1,2), of "j - i"] by auto
  show ?thesis
    using iff sub assms(4,5) ap_off_less [OF assms(3)]
    by (auto simp: aperture_def fl_mem_write_mem phys_off_ap assms(2))
qed

lemma write_mem_clears_bits:
  "fl_mem (write_mem f a v n) j AND fl_mem f j = fl_mem (write_mem f a v n) j"
  by (auto simp: fl_mem_write_mem intro!: bit_word_eqI simp: bit_simps)

section \<open>Erase, and what register writes do to the two banks\<close>

lemma phys_off_upper: "phys_off f 0x08100000 = ap_off (effective_swap f) BANK_SIZE"
  using phys_off_ap [of BANK_SIZE f] by simp

lemma aperture_erase_bank2:
  assumes "i < TOTAL"
  shows "aperture (erase_bank2 f) i = (if i < BANK_SIZE then aperture f i else ERASED)"
  using assms
  by (auto simp: aperture_def erase_bank2_def phys_off_upper Let_def fill_range_def ap_off_def)

lemma aperture_reg_write:
  assumes "i < TOTAL"
  shows "aperture (reg_write f off v) i =
    (if off = REG_CR2 \<and> bit v CR_BER \<and> bit v CR_START \<and> \<not> bit v CR_LOCK \<and> \<not> bank2_locked f
        \<and> BANK_SIZE \<le> i
     then ERASED else aperture f i)"
proof (cases "off = REG_CR2 \<and> bit v CR_BER \<and> bit v CR_START \<and> \<not> bit v CR_LOCK \<and> \<not> bank2_locked f")
  case True
  let ?f1 = "f\<lparr>cr2 := v AND NOT (push_bit CR_LOCK 1),
               bank2_locked := (bank2_locked f \<or> bit_set v CR_LOCK)\<rparr>"
  have "aperture (reg_write f off v) i = aperture (erase_bank2 ?f1) i"
    using True by (simp add: reg_write_def write_cr2_def Let_def aperture_def)
  also have "\<dots> = (if i < BANK_SIZE then aperture ?f1 i else ERASED)"
    using assms by (rule aperture_erase_bank2)
  also have "aperture ?f1 i = aperture f i"
    by (simp add: aperture_def)
  finally show ?thesis using True by auto
next
  case False
  then have "fl_mem (reg_write f off v) = fl_mem f"
    by (auto simp: reg_write_def write_cr2_def write_keyr2_def write_optkeyr_def write_optcr_def
        Let_def split: prod.splits)
  with False show ?thesis by (auto simp: aperture_def)
qed

section \<open>The host file holds the memory\<close>

text \<open>
  Write-through: as long as the handle is alive, the file and the memory agree on the
  whole 2 MB.
\<close>

definition flash_durable :: "flash \<Rightarrow> bool" where
  "flash_durable f = (\<forall>c. fl_file f = Some c \<longrightarrow> (\<forall>i < TOTAL. c i = fl_mem f i))"

lemma write_through_durable:
  assumes "\<And>c i. fl_file f = Some c \<Longrightarrow> i < TOTAL \<Longrightarrow> i < o' \<or> o' + n \<le> i \<Longrightarrow> c i = fl_mem f i"
  shows "flash_durable (write_through f o' n)"
proof (cases "n = 0")
  case True
  with assms show ?thesis
    by (metis add_0_right flash_durable_def linorder_not_le write_through_def)
next
  case False
  with assms show ?thesis
    by (cases "fl_file f") (auto simp: write_through_def flash_durable_def blit_def)
qed

lemma write_mem_durable:
  assumes "flash_durable f"
  shows "flash_durable (write_mem f a v n)"
proof -
  have "flash_durable (write_through
      (f\<lparr>fl_mem := fst (program_bytes (fl_mem f) (phys_off f a) v 0 n)\<rparr>)
      (phys_off f a) (snd (program_bytes (fl_mem f) (phys_off f a) v 0 n)))"
    using assms by (intro write_through_durable) (auto simp: program_bytes_eq flash_durable_def)
  with assms show ?thesis by (simp add: write_mem_def Let_def split_def)
qed

lemma erase_bank2_durable: "flash_durable f \<Longrightarrow> flash_durable (erase_bank2 f)"
  unfolding erase_bank2_def Let_def
  by (rule write_through_durable) (auto simp: flash_durable_def fill_range_def)

lemma load_image_durable: "flash_durable f \<Longrightarrow> flash_durable (load_image_at f a bs)"
  unfolding load_image_at_def Let_def
  by (rule write_through_durable) (auto simp: flash_durable_def blit_def)

lemma flash_durable_cong:
  "fl_file f = fl_file g \<Longrightarrow> fl_mem f = fl_mem g \<Longrightarrow> flash_durable f = flash_durable g"
  by (simp add: flash_durable_def)

lemma write_cr2_durable:
  assumes "flash_durable f"
  shows "flash_durable (write_cr2 f v)"
proof -
  let ?f1 = "f\<lparr>cr2 := v AND NOT (push_bit CR_LOCK 1),
               bank2_locked := (bank2_locked f \<or> bit_set v CR_LOCK)\<rparr>"
  have f1: "flash_durable ?f1" using assms by (simp add: flash_durable_def)
  have "fl_file (write_cr2 f v) = fl_file ?f1 \<and> fl_mem (write_cr2 f v) = fl_mem ?f1 \<or>
        fl_file (write_cr2 f v) = fl_file (erase_bank2 ?f1) \<and>
        fl_mem (write_cr2 f v) = fl_mem (erase_bank2 ?f1)"
    by (simp add: write_cr2_def Let_def)
  with f1 erase_bank2_durable [OF f1] show ?thesis
    by (metis flash_durable_cong)
qed

lemma reg_write_durable:
  assumes "flash_durable f"
  shows "flash_durable (reg_write f off v)"
proof (cases "off = REG_CR2")
  case True
  then show ?thesis using write_cr2_durable [OF assms] by (simp add: reg_write_def)
next
  case False
  then have "fl_file (reg_write f off v) = fl_file f \<and> fl_mem (reg_write f off v) = fl_mem f"
    by (auto simp: reg_write_def write_keyr2_def write_optkeyr_def write_optcr_def Let_def
        split: prod.splits)
  with assms show ?thesis by (metis flash_durable_cong)
qed

section \<open>Sequences of firmware accesses\<close>

text \<open>What the bus can do to the controller between two resets.\<close>

datatype flash_op = RegWrite u32 u32 | MemWrite u32 u32 nat | TakeIrq

primrec flash_step :: "flash \<Rightarrow> flash_op \<Rightarrow> flash" where
  "flash_step f (RegWrite off v) = reg_write f off v"
| "flash_step f (MemWrite a v n) = write_mem f a v n"
| "flash_step f TakeIrq = snd (take_erase_irq f)"

definition flash_run :: "flash \<Rightarrow> flash_op list \<Rightarrow> flash" where
  "flash_run f ops = foldl flash_step f ops"

lemma flash_step_durable: "flash_durable f \<Longrightarrow> flash_durable (flash_step f op)"
  by (cases op) (simp_all add: reg_write_durable write_mem_durable take_erase_irq_def,
      simp add: flash_durable_def)

lemma flash_run_durable: "flash_durable f \<Longrightarrow> flash_durable (flash_run f ops)"
  by (induction ops arbitrary: f) (simp_all add: flash_run_def flash_step_durable)

lemma flash_step_swap: "effective_swap (flash_step f op) = effective_swap f"
  by (cases op) (simp_all add: take_erase_irq_def)

lemma flash_run_swap: "effective_swap (flash_run f ops) = effective_swap f"
  by (induction ops arbitrary: f) (simp_all add: flash_run_def flash_step_swap)

lemma flash_new_durable: "flash_durable (flash_new img nv ok txt wok nok)"
  by (simp add: flash_durable_def flash_new_def Let_def)

section \<open>The unlock sequences\<close>

text \<open>
  What both key registers promise: a lock that is closed with no progress opens only
  when the two keys are written one right after the other.
\<close>

locale key_lock =
  fixes locked :: "'s \<Rightarrow> bool"
    and progress :: "'s \<Rightarrow> u8"
    and key_write :: "'s \<Rightarrow> u32 \<Rightarrow> 's"
    and k1 k2 :: u32
  assumes keys_differ: "k1 \<noteq> k2"
    and first_key: "progress s = 0 \<Longrightarrow> progress (key_write s k1) = 1 \<and> locked (key_write s k1) = locked s"
    and wrong_first: "progress s = 0 \<Longrightarrow> v \<noteq> k1 \<Longrightarrow>
           progress (key_write s v) = 0 \<and> locked (key_write s v) = locked s"
    and second_key: "progress s = 1 \<Longrightarrow> progress (key_write s k2) = 0 \<and> \<not> locked (key_write s k2)"
    and wrong_second: "progress s = 1 \<Longrightarrow> v \<noteq> k2 \<Longrightarrow>
           progress (key_write s v) = 0 \<and> locked (key_write s v) = locked s"
begin

lemma unlock_pair: "progress s = 0 \<Longrightarrow> \<not> locked (key_write (key_write s k1) k2)"
  using first_key second_key by blast

lemma opened_by_pair_gen:
  assumes "locked s" and "progress s \<le> 1" and "\<not> locked (foldl key_write s vs)"
  shows "(\<exists>us ws. vs = us @ k1 # k2 # ws) \<or> (progress s = 1 \<and> (\<exists>ws. vs = k2 # ws))"
  using assms
proof (induction vs arbitrary: s)
  case Nil
  then show ?case by simp
next
  case (Cons v vs)
  from Cons.prems(2) consider (zero) "progress s = 0" | (one) "progress s = 1"
    by (metis le_less word_less_1 less_le_trans word_le_less_eq)
  then show ?case
  proof cases
    case zero
    show ?thesis
    proof (cases "v = k1")
      case True
      then have "locked (key_write s v)" "progress (key_write s v) = 1"
        using first_key [OF zero] Cons.prems(1) by auto
      with Cons.IH [of "key_write s v"] Cons.prems(3)
      have "(\<exists>us ws. vs = us @ k1 # k2 # ws) \<or> (\<exists>ws. vs = k2 # ws)" by auto
      then show ?thesis
        by (metis True append_Cons append_Nil)
    next
      case False
      then have "locked (key_write s v)" "progress (key_write s v) = 0"
        using wrong_first [OF zero] Cons.prems(1) by auto
      with Cons.IH [of "key_write s v"] Cons.prems(3)
      have "\<exists>us ws. vs = us @ k1 # k2 # ws" by auto
      then show ?thesis by (metis append_Cons)
    qed
  next
    case one
    show ?thesis
    proof (cases "v = k2")
      case True
      then show ?thesis using one by blast
    next
      case False
      then have "locked (key_write s v)" "progress (key_write s v) = 0"
        using wrong_second [OF one] Cons.prems(1) by auto
      with Cons.IH [of "key_write s v"] Cons.prems(3)
      have "\<exists>us ws. vs = us @ k1 # k2 # ws" by auto
      then show ?thesis by (metis append_Cons)
    qed
  qed
qed

lemma opened_by_pair:
  "locked s \<Longrightarrow> progress s = 0 \<Longrightarrow> \<not> locked (foldl key_write s vs) \<Longrightarrow>
     \<exists>us ws. vs = us @ k1 # k2 # ws"
  using opened_by_pair_gen [of s vs] by auto

end

interpretation bank2: key_lock bank2_locked key2_state "\<lambda>f v. reg_write f REG_KEYR2 v" KEY1 KEY2
  by unfold_locales (simp_all add: reg_write_def write_keyr2_def unlock_step_def)

interpretation optbytes: key_lock opt_locked optkey_state "\<lambda>f v. reg_write f REG_OPTKEYR v" OPTKEY1 OPTKEY2
  by unfold_locales (simp_all add: reg_write_def write_optkeyr_def unlock_step_def)

section \<open>A whole firmware update\<close>

text \<open>
  The register and memory traffic of an in-band update, as the STM32H7 update server
  drives it: unlock bank 2, erase it, clear EOP, set PG, program the image word by
  word through the upper half of the aperture, lock again; then unlock the option
  bytes, stage the swap and commit it with OPTSTART.
\<close>

fun prog_ops :: "nat \<Rightarrow> u32 list \<Rightarrow> flash_op list" where
  "prog_ops off [] = []"
| "prog_ops off (w # ws) = MemWrite (FLASH_BASE + of_nat off) w 4 # prog_ops (off + 4) ws"

definition erase_ops :: "flash_op list" where
  "erase_ops =
     [RegWrite REG_KEYR2 KEY1, RegWrite REG_KEYR2 KEY2,
      RegWrite REG_CR2 0x10088, RegWrite REG_CCR2 0x10000, RegWrite REG_CR2 2]"

definition commit_ops :: "bool \<Rightarrow> flash_op list" where
  "commit_ops swap =
     [RegWrite REG_CR2 1, RegWrite REG_OPTKEYR OPTKEY1, RegWrite REG_OPTKEYR OPTKEY2,
      RegWrite REG_OPTSR_PRG (push_bit OPT_SWAP_BANK (b2w swap)), RegWrite REG_OPTCR 2]"

definition update_ops :: "u32 list \<Rightarrow> bool \<Rightarrow> flash_op list" where
  "update_ops ws swap = erase_ops @ prog_ops BANK_SIZE ws @ commit_ops swap"

lemma flash_run_simps [simp]:
  "flash_run f [] = f"
  "flash_run f (op # ops) = flash_run (flash_step f op) ops"
  "flash_run f (xs @ ys) = flash_run (flash_run f xs) ys"
  by (simp_all add: flash_run_def)

lemma prog_ops_frame:
  "bank2_locked (flash_run f (prog_ops off ws)) = bank2_locked f"
  "cr2 (flash_run f (prog_ops off ws)) = cr2 f"
  "opt_locked (flash_run f (prog_ops off ws)) = opt_locked f"
  "optkey_state (flash_run f (prog_ops off ws)) = optkey_state f"
  by (induction ws arbitrary: f off) simp_all

lemma byte_mod4:
  "i \<le> j \<Longrightarrow> j < i + 4 \<Longrightarrow> (j - i) div 4 = (0::nat) \<and> (j - i) mod 4 = j - i"
  by auto

lemma byte_next4:
  "i + 4 \<le> j \<Longrightarrow> (j - i) div 4 = Suc ((j - (i + 4)) div 4) \<and> (j - i) mod 4 = (j - (i + 4)) mod (4::nat)"
proof -
  assume "i + 4 \<le> j"
  then obtain k where "j = i + 4 + k" by (metis le_Suc_ex)
  then show ?thesis by simp
qed

lemma aperture_prog_ops:
  assumes "4 dvd off" and "off + 4 * length ws \<le> TOTAL" and "j < TOTAL"
    and "\<not> bank2_locked f" and "bit (cr2 f) CR_PG"
  shows "aperture (flash_run f (prog_ops off ws)) j =
    (if off \<le> j \<and> j < off + 4 * length ws
     then aperture f j AND byte_of (ws ! ((j - off) div 4)) ((j - off) mod 4)
     else aperture f j)"
  using assms
proof (induction ws arbitrary: f off)
  case Nil
  then show ?case by auto
next
  case (Cons w ws)
  let ?g = "write_mem f (FLASH_BASE + of_nat off) w 4"
  have "off < TOTAL" using Cons.prems(2) by simp
  then have g: "aperture ?g j =
      (if off \<le> j \<and> j < off + 4 then aperture f j AND byte_of w (j - off) else aperture f j)"
    using Cons.prems by (intro aperture_write_mem) auto
  have run: "aperture (flash_run ?g (prog_ops (off + 4) ws)) j =
      (if off + 4 \<le> j \<and> j < off + 4 + 4 * length ws
       then aperture ?g j AND byte_of (ws ! ((j - (off + 4)) div 4)) ((j - (off + 4)) mod 4)
       else aperture ?g j)"
    using Cons.prems by (intro Cons.IH) auto
  consider (here) "off \<le> j" "j < off + 4" | (later) "off + 4 \<le> j" | (before) "j < off" by linarith
  then show ?case
    using run g byte_mod4 [of off j] byte_next4 [of off j]
    by cases (auto simp del: of_nat_add)
qed

lemma erased_and: "ERASED AND b = b"
  by (rule bit_word_eqI) (auto simp: bit_simps bit_numeral_word_iff less_Suc_eq numeral_eq_Suc)

text \<open>After the erase and with PG set, every state field the commit relies on is known.\<close>

lemma erase_ops_state:
  assumes "key2_state f = 0"
  defines "g \<equiv> flash_run f erase_ops"
  shows "\<not> bank2_locked g" "bit (cr2 g) CR_PG" "effective_swap g = effective_swap f"
    "opt_locked g = opt_locked f" "optkey_state g = optkey_state f"
  using assms
  by (simp_all add: erase_ops_def reg_write_def write_keyr2_def unlock_step_def write_cr2_def Let_def
      bit_numeral_word_iff)

lemma aperture_erase_ops:
  assumes "key2_state f = 0" and "i < TOTAL"
  shows "aperture (flash_run f erase_ops) i = (if i < BANK_SIZE then aperture f i else ERASED)"
  using assms
  by (simp add: erase_ops_def aperture_reg_write)
     (simp add: reg_write_def write_keyr2_def unlock_step_def)

lemma commit_ops_swap:
  assumes "optkey_state g = 0"
  shows "committed_swap (flash_run g (commit_ops swap)) = swap"
  using assms
  by (cases swap)
     (simp_all add: commit_ops_def reg_write_def write_optkeyr_def unlock_step_def write_cr2_def
       write_optcr_def Let_def)

lemma aperture_commit_ops:
  assumes "i < TOTAL"
  shows "aperture (flash_run g (commit_ops swap)) i = aperture g i"
  using assms by (simp add: commit_ops_def aperture_reg_write)

lemma aperture_update:
  assumes "4 * length ws \<le> BANK_SIZE" and "key2_state f = 0" and "j < TOTAL"
  shows "aperture (flash_run f (update_ops ws swap)) j =
    (if j < BANK_SIZE then aperture f j
     else if j < BANK_SIZE + 4 * length ws
     then byte_of (ws ! ((j - BANK_SIZE) div 4)) ((j - BANK_SIZE) mod 4) else ERASED)"
proof -
  let ?e = "flash_run f erase_ops"
  have "aperture (flash_run f (update_ops ws swap)) j
      = aperture (flash_run ?e (prog_ops BANK_SIZE ws)) j"
    using assms(3) by (simp add: update_ops_def aperture_commit_ops)
  also have "\<dots> = (if BANK_SIZE \<le> j \<and> j < BANK_SIZE + 4 * length ws
       then aperture ?e j AND byte_of (ws ! ((j - BANK_SIZE) div 4)) ((j - BANK_SIZE) mod 4)
       else aperture ?e j)"
    using erase_ops_state [OF assms(2)] assms by (intro aperture_prog_ops) auto
  finally show ?thesis
    using aperture_erase_ops [OF assms(2,3)] by (auto simp: erased_and)
qed

lemma update_committed:
  assumes "key2_state f = 0" and "optkey_state f = 0"
  shows "committed_swap (flash_run f (update_ops ws swap)) = swap"
  using assms by (simp add: update_ops_def commit_ops_swap prog_ops_frame erase_ops_state)

lemma aperture_reset_latch:
  assumes "i < TOTAL"
  shows "aperture (reset_latch f) i =
    aperture f (if committed_swap f = effective_swap f then i
                else if i < BANK_SIZE then i + BANK_SIZE else i - BANK_SIZE)"
  using assms by (auto simp: aperture_def reset_latch_def ap_off_def)

text \<open>What a restart of the emulator rebuilds from the host files of a running instance.\<close>

definition flash_restart :: "flash \<Rightarrow> bytes \<Rightarrow> flash" where
  "flash_restart f c =
     flash_new (map c [0..<TOTAL]) (load_nv (fl_nv_file f)) True (fl_nv_file f)
       (fl_write_ok f) (fl_nv_ok f)"

lemma resize_id [simp]: "length xs = n \<Longrightarrow> resize n x xs = xs"
  by (simp add: resize_def)

lemma length_resize [simp]: "length (resize n x xs) = n"
  by (simp add: resize_def min_def)

lemma aperture_restart:
  assumes "i < TOTAL"
  shows "aperture (flash_restart f c) i = c (ap_off (swap_bank (load_nv (fl_nv_file f))) i)"
  using ap_off_less [OF assms]
  by (simp add: flash_restart_def flash_new_def Let_def aperture_def)

lemma prog_ops_nv:
  "fl_archive (flash_run f (prog_ops off ws)) = fl_archive f"
  "fl_nv_ok (flash_run f (prog_ops off ws)) = fl_nv_ok f"
proof (induction ws arbitrary: f off)
  case (Cons w ws)
  {
    case 1
    show ?case using Cons by (simp add: write_mem_def Let_def split_def)
  next
    case 2
    show ?case using Cons by (simp add: write_mem_def Let_def split_def)
  }
qed simp_all

lemma erase_ops_nv:
  "fl_archive (flash_run f erase_ops) = fl_archive f"
  "fl_nv_ok (flash_run f erase_ops) = fl_nv_ok f"
  by (simp_all add: erase_ops_def reg_write_def write_keyr2_def write_cr2_def erase_bank2_def
      Let_def split: prod.splits)

lemma commit_ops_nv:
  assumes "optkey_state g = 0" and "fl_nv_ok g"
  shows "fl_nv_file (flash_run g (commit_ops swap))
    = Some (save_nv \<lparr>swap_bank = swap, nv_archive = fl_archive g\<rparr>)"
  using assms
  by (cases swap)
     (simp_all add: commit_ops_def reg_write_def write_optkeyr_def unlock_step_def write_cr2_def
       write_optcr_def Let_def)

lemma update_nv:
  assumes "key2_state f = 0" and "optkey_state f = 0" and "fl_nv_ok f"
  shows "fl_nv_file (flash_run f (update_ops ws swap))
    = Some (save_nv \<lparr>swap_bank = swap, nv_archive = fl_archive f\<rparr>)"
  using assms
  by (simp add: update_ops_def commit_ops_nv prog_ops_nv erase_ops_nv prog_ops_frame erase_ops_state)

section \<open>No write without the keys\<close>

fun key2_writes :: "flash_op list \<Rightarrow> u32 list" where
  "key2_writes [] = []"
| "key2_writes (RegWrite off v # ops) =
     (if off = REG_KEYR2 then v # key2_writes ops else key2_writes ops)"
| "key2_writes (op # ops) = key2_writes ops"

abbreviation (input) key2_fold :: "flash \<Rightarrow> u32 list \<Rightarrow> flash" where
  "key2_fold k vs \<equiv> foldl (\<lambda>f v. reg_write f REG_KEYR2 v) k vs"

lemma key2_fold_unlocked: "\<not> bank2_locked k \<Longrightarrow> \<not> bank2_locked (key2_fold k vs)"
  by (induction vs arbitrary: k)
     (simp_all add: reg_write_def write_keyr2_def split_def)

lemma locked_reg_write:
  assumes "bank2_locked f" and "off \<noteq> REG_KEYR2"
  shows "fl_mem (reg_write f off v) = fl_mem f \<and> bank2_locked (reg_write f off v)
    \<and> key2_state (reg_write f off v) = key2_state f"
  using assms
  by (auto simp: reg_write_def write_optkeyr_def write_cr2_def write_optcr_def Let_def
      split: prod.splits)

lemma key2_write_state:
  "key2_state f = key2_state k \<Longrightarrow> (bank2_locked k \<Longrightarrow> bank2_locked f) \<Longrightarrow>
   fl_mem (reg_write f REG_KEYR2 v) = fl_mem f \<and>
   key2_state (reg_write f REG_KEYR2 v) = key2_state (reg_write k REG_KEYR2 v) \<and>
   (bank2_locked (reg_write k REG_KEYR2 v) \<longrightarrow> bank2_locked (reg_write f REG_KEYR2 v))"
  by (auto simp: reg_write_def write_keyr2_def split_def Let_def)

lemma locked_run_mem:
  assumes "key2_state f = key2_state k" and "bank2_locked k \<Longrightarrow> bank2_locked f"
    and "bank2_locked (key2_fold k (key2_writes ops))"
  shows "fl_mem (flash_run f ops) = fl_mem f"
  using assms
proof (induction ops arbitrary: f k)
  case Nil
  then show ?case by simp
next
  case (Cons op ops)
  have lk: "bank2_locked k"
  proof (rule ccontr)
    assume "\<not> bank2_locked k"
    then show False using key2_fold_unlocked Cons.prems(3) by blast
  qed
  then have lf: "bank2_locked f" using Cons.prems(2) by blast
  show ?case
  proof (cases op)
    case (RegWrite off v)
    show ?thesis
    proof (cases "off = REG_KEYR2")
      case True
      then show ?thesis
        using RegWrite Cons.prems key2_write_state [OF Cons.prems(1,2), of v]
          Cons.IH [of "reg_write f REG_KEYR2 v" "reg_write k REG_KEYR2 v"]
        by simp
    next
      case False
      then show ?thesis
        using RegWrite Cons.prems locked_reg_write [OF lf False, of v]
          Cons.IH [of "reg_write f off v" k]
        by simp
    qed
  next
    case (MemWrite a v n)
    then show ?thesis
      using Cons.prems lf Cons.IH [of f k] by (simp add: write_mem_locked)
  next
    case TakeIrq
    then show ?thesis
      using Cons.prems lf Cons.IH [of "f\<lparr>erase_irq := False\<rparr>" k] by (simp add: take_erase_irq_def)
  qed
qed

text \<open>As long as the operating system carries out every write, the file handle stays alive.\<close>

lemma write_through_file_kept:
  "fl_write_ok f = (\<lambda>_ _. True) \<Longrightarrow> fl_file f \<noteq> None \<Longrightarrow>
   fl_file (write_through f o' n) \<noteq> None \<and> fl_write_ok (write_through f o' n) = (\<lambda>_ _. True)"
  by (auto simp: write_through_def split: option.splits)

lemma write_mem_file_kept:
  "fl_write_ok f = (\<lambda>_ _. True) \<Longrightarrow> fl_file f \<noteq> None \<Longrightarrow>
   fl_file (write_mem f a v n) \<noteq> None \<and> fl_write_ok (write_mem f a v n) = (\<lambda>_ _. True)"
  using write_through_file_kept [of "f\<lparr>fl_mem := m\<rparr>" for m]
  by (simp add: write_mem_def Let_def split_def)

lemma erase_bank2_file_kept:
  "fl_write_ok f = (\<lambda>_ _. True) \<Longrightarrow> fl_file f \<noteq> None \<Longrightarrow>
   fl_file (erase_bank2 f) \<noteq> None \<and> fl_write_ok (erase_bank2 f) = (\<lambda>_ _. True)"
  using write_through_file_kept [of "f\<lparr>fl_mem := m\<rparr>" for m]
  by (simp add: erase_bank2_def Let_def)

lemma reg_write_file_kept:
  "fl_write_ok f = (\<lambda>_ _. True) \<Longrightarrow> fl_file f \<noteq> None \<Longrightarrow>
   fl_file (reg_write f off v) \<noteq> None \<and> fl_write_ok (reg_write f off v) = (\<lambda>_ _. True)"
  using erase_bank2_file_kept [of "f\<lparr>cr2 := a, bank2_locked := b\<rparr>" for a b]
  by (simp add: reg_write_def write_keyr2_def write_optkeyr_def write_optcr_def write_cr2_def
      Let_def split_def)

lemma flash_run_file_kept:
  "fl_write_ok f = (\<lambda>_ _. True) \<Longrightarrow> fl_file f \<noteq> None \<Longrightarrow> fl_file (flash_run f ops) \<noteq> None"
proof (induction ops arbitrary: f)
  case (Cons op ops)
  then have "fl_file (flash_step f op) \<noteq> None \<and> fl_write_ok (flash_step f op) = (\<lambda>_ _. True)"
    using write_mem_file_kept reg_write_file_kept
    by (cases op) (auto simp: take_erase_irq_def)
  with Cons.IH show ?case by simp
qed simp

section \<open>Properties\<close>

text \<open>
  C1: an in-band update works end to end. Whatever the bank mapping, after the
  update traffic the running bank still reads as before, and the reset that follows
  makes the new image (any image that fits the bank) appear at the boot address, with
  the old image in the other half.
\<close>

theorem flash_update_boots_new_image:
  assumes "4 * length ws \<le> BANK_SIZE" and "key2_state f = 0" and "optkey_state f = 0"
    and "swap = (\<not> effective_swap f)" and "g = flash_run f (update_ops ws swap)"
  shows "(\<forall>i < BANK_SIZE. read_mem8 g (FLASH_BASE + of_nat i) = read_mem8 f (FLASH_BASE + of_nat i))
    \<and> (\<forall>k < length ws. read_mem32 (reset_latch g) (FLASH_BASE + of_nat (4 * k)) = ws ! k)
    \<and> (\<forall>i < BANK_SIZE. read_mem8 (reset_latch g) (FLASH_BASE + of_nat (BANK_SIZE + i))
                        = read_mem8 f (FLASH_BASE + of_nat i))"
proof (intro conjI allI impI)
  note up = aperture_update [OF assms(1,2), of _ swap, folded assms(5)]
  have eff: "effective_swap g = effective_swap f" by (simp only: assms(5) flash_run_swap)
  have com: "committed_swap g = swap" using assms by (simp add: update_committed)
  have latch: "aperture (reset_latch g) i = aperture g (if i < BANK_SIZE then i + BANK_SIZE else i - BANK_SIZE)"
    if "i < TOTAL" for i
    using aperture_reset_latch [OF that, of g] eff com assms(4) by auto
  fix i assume i: "i < BANK_SIZE"
  then show "read_mem8 g (FLASH_BASE + of_nat i) = read_mem8 f (FLASH_BASE + of_nat i)"
    using up [of i] by (simp add: aperture_read_mem8 del: of_nat_add)
  have "BANK_SIZE + i < TOTAL" using i by simp
  then show "read_mem8 (reset_latch g) (FLASH_BASE + of_nat (BANK_SIZE + i))
      = read_mem8 f (FLASH_BASE + of_nat i)"
    using i up [of i] latch [of "BANK_SIZE + i"] by (simp add: aperture_read_mem8 del: of_nat_add)
next
  note up = aperture_update [OF assms(1,2), of _ swap, folded assms(5)]
  fix k assume k: "k < length ws"
  have latch: "aperture (reset_latch g) i = aperture g (i + BANK_SIZE)" if "i < BANK_SIZE" for i
    using aperture_reset_latch [of i g] that assms by (simp add: update_committed flash_run_swap)
  have b: "aperture (reset_latch g) (4 * k + m) = byte_of (ws ! k) m" if "m < 4" for m
    using that k assms(1) latch [of "4 * k + m"] up [of "4 * k + m + BANK_SIZE"] by simp
  have "4 * k < TOTAL" using k assms(1) by simp
  then show "read_mem32 (reset_latch g) (FLASH_BASE + of_nat (4 * k)) = ws ! k"
    using b [of 0] b [of 1] b [of 2] b [of 3]
    by (simp add: aperture_read_mem32 le32_bytes del: of_nat_mult)
qed

theorem flash_update_boots_new_image_witness:
  "\<exists>f g. key2_state f = 0 \<and> g = flash_run f (update_ops [0x20001000, 0x08000101] True)
     \<and> read_mem32 (reset_latch g) (FLASH_BASE + of_nat (4 * 1)) = 0x08000101"
proof -
  let ?f = "flash_new [] nv_default False None (\<lambda>_ _. True) True"
  let ?g = "flash_run ?f (update_ops [0x20001000, 0x08000101] True)"
  have st: "key2_state ?f = 0" "optkey_state ?f = 0" "True = (\<not> effective_swap ?f)"
    by (simp_all add: flash_new_def nv_default_def Let_def)
  have len: "4 * length [0x20001000, 0x08000101 :: u32] \<le> BANK_SIZE" by simp
  from flash_update_boots_new_image [OF len st, of ?g]
  have "\<forall>k < length [0x20001000, 0x08000101 :: u32].
      read_mem32 (reset_latch ?g) (FLASH_BASE + of_nat (4 * k)) = [0x20001000, 0x08000101] ! k"
    by blast
  then have "read_mem32 (reset_latch ?g) (FLASH_BASE + of_nat (4 * 1)) = [0x20001000, 0x08000101] ! 1"
    by (metis One_nat_def length_Cons lessI list.size(3))
  with st show ?thesis by (intro exI [of _ ?f] exI [of _ ?g]) simp
qed

text \<open>
  C2: the update survives the death of the process at any moment after the commit:
  rebuilding the model from the host image file and the \<open>.nv\<close> state file boots the
  new image, and keeps the old one in the other half, whatever the operating system
  did to the writes as long as the image handle is still alive.
\<close>

theorem flash_update_survives_restart:
  assumes "4 * length ws \<le> BANK_SIZE" and "key2_state f = 0" and "optkey_state f = 0"
    and "swap = (\<not> effective_swap f)" and "g = flash_run f (update_ops ws swap)"
    and "flash_durable f" and "fl_file g = Some c" and "fl_nv_ok f"
    and "\<And>a. fl_archive f = Some a \<Longrightarrow> line_value a"
  shows "(\<forall>i < TOTAL. aperture (flash_restart g c) i = aperture (reset_latch g) i)
    \<and> load_nv (fl_nv_file g) = \<lparr>swap_bank = swap, nv_archive = fl_archive f\<rparr>"
proof
  have nv: "fl_nv_file g = Some (save_nv \<lparr>swap_bank = swap, nv_archive = fl_archive f\<rparr>)"
    using assms by (simp add: update_nv)
  then show nv': "load_nv (fl_nv_file g) = \<lparr>swap_bank = swap, nv_archive = fl_archive f\<rparr>"
    using assms(9) load_save_nv [of "\<lparr>swap_bank = swap, nv_archive = fl_archive f\<rparr>"] by simp
  have dur: "flash_durable g" using assms(5,6) by (simp add: flash_run_durable)
  have com: "committed_swap g = swap" using assms by (simp add: update_committed)
  show "\<forall>i < TOTAL. aperture (flash_restart g c) i = aperture (reset_latch g) i"
  proof (intro allI impI)
    fix i :: nat assume i: "i < TOTAL"
    have "c (ap_off swap i) = fl_mem g (ap_off swap i)"
      using dur assms(7) ap_off_less [OF i] by (simp add: flash_durable_def)
    then show "aperture (flash_restart g c) i = aperture (reset_latch g) i"
      using aperture_restart [OF i, of g c] nv' com by (simp add: aperture_def reset_latch_def)
  qed
qed

theorem flash_update_survives_restart_witness:
  "\<exists>f g c. flash_durable f \<and> fl_file g = Some c \<and> g = flash_run f (update_ops [7] True)
     \<and> (\<forall>i < TOTAL. aperture (flash_restart g c) i = aperture (reset_latch g) i)
     \<and> swap_bank (load_nv (fl_nv_file g))"
proof -
  let ?f = "flash_new [] \<lparr>swap_bank = False, nv_archive = Some ''archives/sp.zip''\<rparr> True None
              (\<lambda>_ _. True) True"
  let ?g = "flash_run ?f (update_ops [7] True)"
  have st: "key2_state ?f = 0" "optkey_state ?f = 0" "True = (\<not> effective_swap ?f)" "fl_nv_ok ?f"
    "\<And>a. fl_archive ?f = Some a \<Longrightarrow> line_value a"
    by (simp_all add: flash_new_def Let_def line_value_def)
  have len: "4 * length [7 :: u32] \<le> BANK_SIZE" by simp
  have "fl_file ?g \<noteq> None"
    by (rule flash_run_file_kept) (simp_all add: flash_new_def Let_def)
  then obtain c where c: "fl_file ?g = Some c" by blast
  from flash_update_survives_restart [OF len st(1,2,3) refl flash_new_durable c st(4) st(5)]
  show ?thesis using c flash_new_durable
    by (intro exI [of _ ?f] exI [of _ ?g] exI [of _ c]) simp
qed

text \<open>
  C3: the flash cannot be modified by accident. Starting locked and with no unlock
  progress, whatever register writes, stores and interrupt polls follow, a changed
  byte means that KEY1 and KEY2 were written to KEYR2 one right after the other.
\<close>

theorem flash_modified_only_after_unlock:
  assumes "bank2_locked f" and "key2_state f = 0" and "fl_mem (flash_run f ops) \<noteq> fl_mem f"
  shows "\<exists>us vs. key2_writes ops = us @ KEY1 # KEY2 # vs"
proof -
  have "\<not> bank2_locked (key2_fold f (key2_writes ops))"
    using assms(3) locked_run_mem [of f f ops] by blast
  then show ?thesis using bank2.opened_by_pair [OF assms(1,2)] by blast
qed

theorem flash_modified_only_after_unlock_witness:
  "\<exists>f. bank2_locked f \<and> fl_mem (flash_run f (update_ops [7] True)) \<noteq> fl_mem f
     \<and> (\<exists>us vs. key2_writes (update_ops [7] True) = us @ KEY1 # KEY2 # vs)"
proof -
  let ?f = "flash_new (replicate TOTAL 5) nv_default True None (\<lambda>_ _. True) True"
  let ?g = "flash_run ?f (update_ops [7] True)"
  have st: "key2_state ?f = 0" "bank2_locked ?f"
    by (simp_all add: flash_new_def Let_def)
  have "aperture ?g BANK_SIZE = byte_of (7::u32) 0"
    using aperture_update [of "[7]" ?f BANK_SIZE True] st(1) by simp
  then have "aperture ?g BANK_SIZE = 7" by (simp add: byte_of_def)
  moreover have "aperture ?f BANK_SIZE = 5"
    by (simp add: aperture_def flash_new_def Let_def ap_off_def nv_default_def)
  ultimately have "aperture ?g BANK_SIZE \<noteq> aperture ?f BANK_SIZE" by simp
  then have ne: "fl_mem ?g \<noteq> fl_mem ?f"
    by (auto simp: aperture_def flash_run_swap)
  from flash_modified_only_after_unlock [OF st(2,1) ne] st ne show ?thesis by blast
qed

text \<open>
  no controller register write disturbs the bank the core is executing from, and
  the mapping of the aperture never changes between resets.
\<close>

theorem flash_reg_write_keeps_running_bank:
  "(\<forall>i < BANK_SIZE. read_mem8 (reg_write f off v) (FLASH_BASE + of_nat i) = read_mem8 f (FLASH_BASE + of_nat i))
   \<and> effective_swap (flash_run f ops) = effective_swap f"
  by (auto simp: aperture_read_mem8 aperture_reg_write flash_run_swap)

theorem flash_reg_write_keeps_running_bank_witness:
  "read_mem8 (reg_write (flash_new [0xAB] nv_default False None (\<lambda>_ _. True) True) REG_CR2 0x88) FLASH_BASE = 0xAB"
proof -
  let ?f = "flash_new [0xAB] nv_default False None (\<lambda>_ _. True) True"
  have "read_mem8 ?f FLASH_BASE = 0xAB"
    by (simp add: read_mem8_def phys_off_def flash_new_def nv_default_def resize_def Let_def)
  moreover have "read_mem8 (reg_write ?f REG_CR2 0x88) (FLASH_BASE + of_nat 0) = read_mem8 ?f (FLASH_BASE + of_nat 0)"
    by (rule flash_reg_write_keeps_running_bank [THEN conjunct1, rule_format]) simp
  ultimately show ?thesis by simp
qed

end
