(* ===== verification/Devices.thy ===== *)
theory Devices
  imports Prelude
begin

text \<open>
  The memory-mapped peripherals of the service processor's SoC (\<open>src/soc.rs\<close>) and
  the RoT's hash engine (\<open>src/hashcrypt.rs\<close>): for each device its registers and the
  three operations of the \<open>Mmio\<close> trait (\<open>read\<close>, \<open>write\<close>, \<open>take_irq\<close>), each
  returning the new device state. What several Rust objects share through an
  \<open>Rc<RefCell<..>>\<close> (the UART queues, the SPI2 chip select) is the \<open>shared\<close>
  record, threaded through the operations of the devices that hold a handle to it.
  Hash functions of the \<open>sha2\<close> crate are environment fields of the device.
\<close>

unbundle bit_operations_syntax

section \<open>State shared between devices and the bus\<close>

record shared =
  uart_tx :: "u8 list"
  uart_rx :: "u8 list"
  spi2_cs :: u8

text \<open>\<open>off & !3\<close>: the word a register access falls in.\<close>

abbreviation word_of :: "u32 \<Rightarrow> u32" where
  "word_of off \<equiv> off AND NOT 3"

section \<open>Generic register file, SYSCFG and the unique id\<close>

type_synonym regmap = "u32 \<rightharpoonup> u32"

definition regfile_read :: "regmap \<Rightarrow> u32 \<Rightarrow> u32" where
  "regfile_read m off = reg_get m (word_of off)"

definition regfile_write :: "regmap \<Rightarrow> u32 \<Rightarrow> u32 \<Rightarrow> regmap" where
  "regfile_write m off val = m(word_of off \<mapsto> val)"

definition syscfg_read :: "regmap \<Rightarrow> u32 \<Rightarrow> u32" where
  "syscfg_read m off =
     (if word_of off = 0x124 then (reg_get m 0x124 AND NOT 0xF) OR 8
      else reg_get m (word_of off))"

definition syscfg_write :: "regmap \<Rightarrow> u32 \<Rightarrow> u32 \<Rightarrow> regmap" where
  "syscfg_write m off val = m(word_of off \<mapsto> val)"

text \<open>
  \<open>Identity::sp_uid_word\<close> on the SP's unique id, the byte array \<open>sp_uid\<close> of the
  instance identity; past it a non-zero filler.
\<close>

definition uid_read :: "u8 list \<Rightarrow> u32 \<Rightarrow> u32" where
  "uid_read sp_uid off =
     (let o' = unat (word_of off) in
      if o' + 4 \<le> length sp_uid
      then le32 (sp_uid ! o') (sp_uid ! (o' + 1)) (sp_uid ! (o' + 2)) (sp_uid ! (o' + 3))
      else 1)"

section \<open>TIM16\<close>

record tim16 =
  tim_regs :: regmap
  armed :: bool

definition tim16_new :: tim16 where
  "tim16_new = \<lparr>tim_regs = Map.empty, armed = False\<rparr>"

definition tim16_read :: "tim16 \<Rightarrow> u32 \<Rightarrow> u32" where
  "tim16_read d off = reg_get (tim_regs d) (word_of off)"

definition tim16_write :: "tim16 \<Rightarrow> u32 \<Rightarrow> u32 \<Rightarrow> tim16" where
  "tim16_write d off val =
     (let d1 = d\<lparr>tim_regs := (tim_regs d)(word_of off \<mapsto> val)\<rparr>
      in if word_of off = 0 \<and> bit_set val 0 then d1\<lparr>armed := True\<rparr> else d1)"

definition tim16_take_irq :: "tim16 \<Rightarrow> u16 option \<times> tim16" where
  "tim16_take_irq d =
     (if \<not> armed d then (None, d)
      else let r1 = (tim_regs d)(0x10 \<mapsto> reg_get (tim_regs d) 0x10 OR 1);
               r2 = r1(0 \<mapsto> reg_get r1 0 AND NOT 1)
           in (Some 117, d\<lparr>armed := False, tim_regs := r2\<rparr>))"

section \<open>UART7\<close>

definition uart7_read :: "'a shared_scheme \<Rightarrow> regmap \<Rightarrow> u32 \<Rightarrow> u32 \<times> 'a shared_scheme" where
  "uart7_read sh m off =
     (let r = word_of off in
      if r = 0x1C then
        (push_bit 7 1 OR push_bit 6 1 OR push_bit 23 1 OR push_bit 21 1 OR push_bit 22 1
           OR (if uart_rx sh \<noteq> [] then push_bit 5 1 else 0), sh)
      else if r = 0x24 then
        (case uart_rx sh of [] \<Rightarrow> (0, sh) | b # bs \<Rightarrow> (ucast b, sh\<lparr>uart_rx := bs\<rparr>))
      else (reg_get m r, sh))"

definition uart7_write :: "'a shared_scheme \<Rightarrow> regmap \<Rightarrow> u32 \<Rightarrow> u32 \<Rightarrow> regmap \<times> 'a shared_scheme" where
  "uart7_write sh m off val =
     (let r = word_of off in
      if r = 0x28 then (m, sh\<lparr>uart_tx := uart_tx sh @ [ucast val]\<rparr>)
      else (m(r \<mapsto> val), sh))"

section \<open>The KSZ8463 switch and SPI4\<close>

type_synonym ksz = "u16 \<rightharpoonup> u16"

definition ksz_read :: "ksz \<Rightarrow> u16 \<Rightarrow> u16" where
  "ksz_read k addr =
     (if addr = 0x0C then 0x8452 else if addr = 0x2F0 then 0x4000 else reg_get k addr)"

definition ksz_write :: "ksz \<Rightarrow> u16 \<Rightarrow> u16 \<Rightarrow> ksz" where
  "ksz_write k addr val = k(addr \<mapsto> val)"

text \<open>
  The four-byte exchange \<open>[addr_hi, addr_lo, d0, d1]\<close> with the switch, shared by SPI4
  and by SPI2's KSZ target; \<open>pos\<close> is the byte's position in the exchange.
\<close>

record ksz_xfer =
  kx_ksz :: ksz
  kx_cmd :: u16
  kx_write :: bool
  kx_val :: u16
  kx_dlo :: u8

definition ksz_xfer_new :: ksz_xfer where
  "ksz_xfer_new = \<lparr>kx_ksz = Map.empty, kx_cmd = 0, kx_write = False, kx_val = 0, kx_dlo = 0\<rparr>"

definition ksz_xfer_byte :: "ksz_xfer \<Rightarrow> nat \<Rightarrow> u8 \<Rightarrow> u8 \<times> ksz_xfer" where
  "ksz_xfer_byte k pos b =
     (if pos = 0 then (0, k\<lparr>kx_cmd := push_bit 8 (ucast b)\<rparr>)
      else if pos = 1 then
        let cmd = kx_cmd k OR ucast b in
        (0, k\<lparr>kx_cmd := cmd, kx_write := (cmd AND 0x8000 \<noteq> 0),
              kx_val := ksz_read (kx_ksz k) (cmd AND 0x7FFF)\<rparr>)
      else if pos = 2 then
        (if kx_write k then (0, k\<lparr>kx_dlo := b\<rparr>) else (ucast (kx_val k AND 0xFF), k))
      else if kx_write k then
        (0, k\<lparr>kx_ksz := ksz_write (kx_ksz k) (kx_cmd k AND 0x7FFF)
                          (push_bit 8 (ucast b) OR ucast (kx_dlo k))\<rparr>)
      else (ucast (drop_bit 8 (kx_val k)), k))"

definition spi_sr :: "u32 \<Rightarrow> u32 \<Rightarrow> bool \<Rightarrow> u32" where
  "spi_sr done_count tsize rx_nonempty =
     push_bit 1 1 OR (if rx_nonempty then push_bit 13 1 else 0) OR
     (if done_count \<ge> max tsize 1 then push_bit 3 1 OR push_bit 12 1 else 0)"

record spi4 =
  s4_regs :: regmap
  s4_ksz :: ksz_xfer
  s4_rx :: "u8 list"
  s4_idx :: u32

definition spi4_new :: spi4 where
  "spi4_new = \<lparr>s4_regs = Map.empty, s4_ksz = ksz_xfer_new, s4_rx = [], s4_idx = 0\<rparr>"

definition spi4_xfer_byte :: "spi4 \<Rightarrow> u8 \<Rightarrow> u8 \<times> spi4" where
  "spi4_xfer_byte d b =
     (let (r, k) = ksz_xfer_byte (s4_ksz d) (unat (s4_idx d) mod 4) b
      in (r, d\<lparr>s4_idx := s4_idx d + 1, s4_ksz := k\<rparr>))"

definition spi4_read :: "spi4 \<Rightarrow> u32 \<Rightarrow> u32 \<times> spi4" where
  "spi4_read d off =
     (let w = word_of off in
      if w = 0x14 then
        (spi_sr (s4_idx d) (reg_get (s4_regs d) 0x04 AND 0xFFFF) (s4_rx d \<noteq> []), d)
      else if w = 0x30 then
        (case s4_rx d of [] \<Rightarrow> (0, d) | b # bs \<Rightarrow> (ucast b, d\<lparr>s4_rx := bs\<rparr>))
      else if w = 0x20 then (0, d)
      else (reg_get (s4_regs d) w, d))"

definition spi4_write :: "spi4 \<Rightarrow> u32 \<Rightarrow> u32 \<Rightarrow> spi4" where
  "spi4_write d off val =
     (let w = word_of off in
      if w = 0x20 then
        let (rx, d1) = spi4_xfer_byte d (ucast val) in d1\<lparr>s4_rx := s4_rx d1 @ [rx]\<rparr>
      else if w = 0 then
        let was_spe = bit_set (reg_get (s4_regs d) 0) 0;
            d1 = d\<lparr>s4_regs := (s4_regs d)(0 \<mapsto> val)\<rparr>
        in if bit_set val 0 \<and> \<not> was_spe then d1\<lparr>s4_idx := 0, s4_rx := []\<rparr> else d1
      else d\<lparr>s4_regs := (s4_regs d)(w \<mapsto> val)\<rparr>)"

section \<open>SPI2: the sequencer FPGA and the KSZ8463 behind one bus\<close>

record spi2 =
  s2_regs :: regmap
  s2_target :: u8
  s2_idx :: u32
  s2_rx :: "u8 list"
  s2_seq :: "u16 \<rightharpoonup> u8"
  s2_seq_cmd :: u8
  s2_seq_addr :: u16
  s2_ksz :: ksz_xfer

definition spi2_new :: spi2 where
  "spi2_new = \<lparr>s2_regs = Map.empty, s2_target = 0, s2_idx = 0, s2_rx = [], s2_seq = Map.empty,
     s2_seq_cmd = 0, s2_seq_addr = 0, s2_ksz = ksz_xfer_new\<rparr>"

definition seq_read :: "(u16 \<rightharpoonup> u8) \<Rightarrow> u16 \<Rightarrow> u8" where
  "seq_read seq addr =
     (if addr = 0 then 0xDE else if addr = 1 then 0x01
      else if addr = 0xA then 0x81 else if addr = 0xB then 0x39
      else if addr = 0xC then 0x75 else if addr = 0xD then 0x74
      else if addr = 0x13 then 0 else reg_get seq addr)"

definition spi2_xfer_inner :: "spi2 \<Rightarrow> u8 \<Rightarrow> u32 \<Rightarrow> u8 \<times> spi2" where
  "spi2_xfer_inner d b pos =
     (if s2_target d = 1 then
        (if pos = 0 then (0, d\<lparr>s2_seq_cmd := b\<rparr>)
         else if pos = 1 then (0, d\<lparr>s2_seq_addr := push_bit 8 (ucast b)\<rparr>)
         else if pos = 2 then (0, d\<lparr>s2_seq_addr := s2_seq_addr d OR ucast b\<rparr>)
         else
           let a = s2_seq_addr d + (ucast pos - 3) in
           if s2_seq_cmd d = 1 then (seq_read (s2_seq d) a, d)
           else
             let cur = reg_get (s2_seq d) a;
                 nv = (if s2_seq_cmd d = 2 then cur OR b
                       else if s2_seq_cmd d = 3 then cur AND NOT b else b)
             in (0, d\<lparr>s2_seq := (s2_seq d)(a \<mapsto> nv)\<rparr>))
      else if s2_target d = 2 then
        let (r, k) = ksz_xfer_byte (s2_ksz d) (unat pos mod 4) b in (r, d\<lparr>s2_ksz := k\<rparr>)
      else (0, d))"

definition spi2_xfer :: "'a shared_scheme \<Rightarrow> spi2 \<Rightarrow> u8 \<Rightarrow> u8 \<times> spi2" where
  "spi2_xfer sh d b =
     (let pos = s2_idx d;
          d1 = d\<lparr>s2_idx := pos + 1\<rparr>;
          d2 = (if pos = 0 then d1\<lparr>s2_target := spi2_cs sh\<rparr> else d1)
      in spi2_xfer_inner d2 b pos)"

definition spi2_read :: "spi2 \<Rightarrow> u32 \<Rightarrow> u32 \<times> spi2" where
  "spi2_read d off =
     (let w = word_of off in
      if w = 0x14 then
        (spi_sr (s2_idx d) (reg_get (s2_regs d) 0x04 AND 0xFFFF) (s2_rx d \<noteq> []), d)
      else if w = 0x30 then
        (case s2_rx d of [] \<Rightarrow> (0, d) | b # bs \<Rightarrow> (ucast b, d\<lparr>s2_rx := bs\<rparr>))
      else (reg_get (s2_regs d) w, d))"

definition spi2_write :: "'a shared_scheme \<Rightarrow> spi2 \<Rightarrow> u32 \<Rightarrow> u32 \<Rightarrow> spi2" where
  "spi2_write sh d off val =
     (let w = word_of off in
      if w = 0x20 then
        let (rx, d1) = spi2_xfer sh d (ucast val) in d1\<lparr>s2_rx := s2_rx d1 @ [rx]\<rparr>
      else if w = 0 then
        let was = bit_set (reg_get (s2_regs d) 0) 0;
            d1 = d\<lparr>s2_regs := (s2_regs d)(0 \<mapsto> val)\<rparr>
        in if bit_set val 0 \<and> \<not> was then d1\<lparr>s2_idx := 0, s2_rx := []\<rparr> else d1
      else d\<lparr>s2_regs := (s2_regs d)(w \<mapsto> val)\<rparr>)"

end
