(* ===== verification/Qspi.thy ===== *)
theory Qspi
  imports Devices
begin

text \<open>
  The QUADSPI peripheral with its 32 MiB NOR array (\<open>Qspi\<close> in \<open>src/soc.rs\<close>): the
  indirect read and write transfers the drivers build out of CCR, AR and DR accesses,
  the write-enable latch, erase and program, and the write-through backing file. The
  host's answers (can the file be created, does a write succeed) are fields of the
  state. The properties follow the driver's own command sequences.
\<close>

unbundle bit_operations_syntax

abbreviation (input) ERASED_BYTE :: u8 where "ERASED_BYTE \<equiv> 0xFF"

definition QSPI_SIZE :: nat where "QSPI_SIZE = 2 ^ 25"
definition QSPI_SECTOR :: nat where "QSPI_SECTOR = 2 ^ 16"

section \<open>State\<close>

datatype qspi_xfer =
    Idle
  | ReadAtAddr nat
  | WriteAtAddr u8 bool
  | WriteData nat

record qspi =
  q_dlr :: u32
  q_ar :: u32
  q_resp :: "u8 list"
  q_resp_pos :: nat
  q_mode_read :: bool
  q_tcf :: bool
  q_cr :: u32
  q_dcr :: u32
  q_wel :: bool
  q_xfer :: qspi_xfer
  q_wr_buf :: "u8 list"
  q_mem :: bytes
  q_file :: "bytes option"
  q_path :: "string option"
  q_create_ok :: bool
  q_write_ok :: "nat \<Rightarrow> nat \<Rightarrow> bool"

text \<open>
  \<open>with_backing\<close>: \<open>loaded\<close> is what the existing file at \<open>path\<close> reads as, \<open>None\<close> when
  there is no such file or it cannot be opened. A file's contents are the bytes the
  next load sees, for a file of the array's own length (what \<open>ensure_file\<close> creates).
\<close>

definition qspi_with_backing ::
  "string option \<Rightarrow> u8 list option \<Rightarrow> bool \<Rightarrow> (nat \<Rightarrow> nat \<Rightarrow> bool) \<Rightarrow> qspi" where
  "qspi_with_backing path loaded create_ok write_ok =
     (let m = (case loaded of None \<Rightarrow> (\<lambda>_. ERASED_BYTE)
               | Some buf \<Rightarrow> blit (\<lambda>_. ERASED_BYTE) 0 (take QSPI_SIZE buf));
          file = (case loaded of None \<Rightarrow> None
                  | Some buf \<Rightarrow> Some (blit (\<lambda>_. ERASED_BYTE) 0 buf))
      in \<lparr>q_dlr = 0, q_ar = 0, q_resp = [], q_resp_pos = 0, q_mode_read = False,
          q_tcf = False, q_cr = 0, q_dcr = 0, q_wel = False, q_xfer = Idle, q_wr_buf = [],
          q_mem = m, q_file = file, q_path = path,
          q_create_ok = create_ok, q_write_ok = write_ok\<rparr>)"

section \<open>Responses of a read\<close>

definition build_response :: "qspi \<Rightarrow> u8 \<Rightarrow> nat \<Rightarrow> u8 list" where
  "build_response q instr len =
     (if instr = 0x9F then take len ([0x20, 0xBA, 0x19] @ replicate (len - 3) 0)
      else if instr = 0x05 then
        (if q_wel q then (replicate len 0)[0 := 2] else replicate len 0)
      else replicate len 0xFF)"

definition qspi_read_mem :: "qspi \<Rightarrow> u32 \<Rightarrow> nat \<Rightarrow> u8 list" where
  "qspi_read_mem q addr len = map (\<lambda>i. q_mem q ((unat addr + i) mod QSPI_SIZE)) [0..<len]"

section \<open>The backing file\<close>

definition ensure_file :: "qspi \<Rightarrow> qspi" where
  "ensure_file q =
     (if q_file q \<noteq> None then q
      else if q_path q = None then q
      else if q_create_ok q then q\<lparr>q_file := Some (q_mem q)\<rparr>
      else q\<lparr>q_path := None\<rparr>)"

definition qspi_write_through :: "qspi \<Rightarrow> nat \<Rightarrow> nat \<Rightarrow> qspi" where
  "qspi_write_through q off len =
     (if len = 0 then q
      else let q1 = ensure_file q in
        case q_file q1 of
          None \<Rightarrow> q1
        | Some c \<Rightarrow>
            if q_write_ok q1 off len
            then q1\<lparr>q_file := Some (blit c off (slice (q_mem q1) off len))\<rparr>
            else q1\<lparr>q_file := None, q_path := None\<rparr>)"

section \<open>Erase and program\<close>

definition do_erase :: "qspi \<Rightarrow> u8 \<Rightarrow> qspi" where
  "do_erase q instr =
     (if \<not> q_wel q then q\<lparr>q_tcf := True\<rparr>
      else
        let (base, len) =
              (if instr = 0xC7 then (0, QSPI_SIZE)
               else (unat (q_ar q) mod QSPI_SIZE div QSPI_SECTOR * QSPI_SECTOR, QSPI_SECTOR));
            q1 = q\<lparr>q_wel := False,
                   q_mem := fill_range (q_mem q) base (base + len) ERASED_BYTE\<rparr>
        in (qspi_write_through q1 base len)\<lparr>q_tcf := True\<rparr>)"

text \<open>The loop of \<open>do_program\<close>: bytes \<open>i\<close>, \<open>i + 1\<close>, .. of the buffer.\<close>

fun and_bytes :: "bytes \<Rightarrow> nat \<Rightarrow> nat \<Rightarrow> u8 list \<Rightarrow> bytes" where
  "and_bytes m base i [] = m"
| "and_bytes m base i (b # bs) =
     (let j = (base + i) mod QSPI_SIZE in and_bytes (m(j := m j AND b)) base (Suc i) bs)"

definition do_program :: "qspi \<Rightarrow> qspi" where
  "do_program q =
     (let buf = q_wr_buf q; q0 = q\<lparr>q_wr_buf := []\<rparr>
      in if \<not> q_wel q0 then q0\<lparr>q_tcf := True\<rparr>
         else
           let base = unat (q_ar q0) mod QSPI_SIZE;
               q1 = q0\<lparr>q_wel := False, q_mem := and_bytes (q_mem q0) base 0 buf\<rparr>;
               first = min (length buf) (QSPI_SIZE - base);
               q2 = qspi_write_through q1 base first;
               q3 = (if first < length buf then qspi_write_through q2 0 (length buf - first) else q2)
           in q3\<lparr>q_tcf := True\<rparr>)"

section \<open>Register accesses\<close>

definition qspi_read :: "qspi \<Rightarrow> u32 \<Rightarrow> u32 \<times> qspi" where
  "qspi_read q off =
     (let w = word_of off in
      if w = 0x00 then (q_cr q, q)
      else if w = 0x04 then (q_dcr q, q)
      else if w = 0x08 then
        let remaining = length (q_resp q) - q_resp_pos q;
            q1 = (if q_mode_read q \<and> remaining = 0 then q\<lparr>q_tcf := True\<rparr> else q);
            flevel = (if q_mode_read q1 then of_nat (min remaining 32) else 0)
        in ((if q_tcf q1 then push_bit 1 1 else 0) OR
            (if \<not> q_mode_read q1 \<or> 0 < remaining then push_bit 2 1 else 0) OR
            push_bit 8 flevel, q1)
      else if w = 0x10 then (q_dlr q, q)
      else if w = 0x18 then (q_ar q, q)
      else if w = 0x20 then
        (if q_resp_pos q < length (q_resp q)
         then (ucast (q_resp q ! q_resp_pos q), q\<lparr>q_resp_pos := q_resp_pos q + 1\<rparr>)
         else (0xFF, q))
      else (0, q))"

text \<open>The CCR write: what the transfer is, and the commands that need no more than it.\<close>

definition qspi_write_ccr :: "qspi \<Rightarrow> u32 \<Rightarrow> qspi" where
  "qspi_write_ccr q val =
     (let instr = (ucast (val AND 0xFF) :: u8);
          admode = drop_bit 10 val AND 3;
          dmode = drop_bit 24 val AND 3;
          fmode = drop_bit 26 val AND 3;
          len = unat (q_dlr q) + 1
      in if fmode = 1 then
           (if admode \<noteq> 0 then q\<lparr>q_resp := [], q_xfer := ReadAtAddr len\<rparr>
            else q\<lparr>q_resp := build_response q instr len, q_xfer := Idle\<rparr>)
           \<lparr>q_resp_pos := 0, q_mode_read := True, q_tcf := False\<rparr>
         else
           let q1 = q\<lparr>q_mode_read := False, q_wr_buf := []\<rparr>
           in if instr = 0x06 then q1\<lparr>q_wel := True, q_xfer := Idle, q_tcf := True\<rparr>
              else if instr = 0x04 then q1\<lparr>q_wel := False, q_xfer := Idle, q_tcf := True\<rparr>
              else if instr = 0xC7 then do_erase (q1\<lparr>q_xfer := Idle\<rparr>) instr
              else if admode \<noteq> 0 then
                q1\<lparr>q_xfer := WriteAtAddr instr (dmode \<noteq> 0), q_tcf := False\<rparr>
              else q1\<lparr>q_xfer := Idle, q_tcf := True\<rparr>)"

definition qspi_write_ar :: "qspi \<Rightarrow> u32 \<Rightarrow> qspi" where
  "qspi_write_ar q val =
     (let q1 = q\<lparr>q_ar := val\<rparr>
      in case q_xfer q1 of
           ReadAtAddr len \<Rightarrow>
             q1\<lparr>q_resp := qspi_read_mem q1 val len, q_resp_pos := 0, q_xfer := Idle\<rparr>
         | WriteAtAddr instr data \<Rightarrow>
             (if data then q1\<lparr>q_xfer := WriteData (unat (q_dlr q1) + 1)\<rparr>
              else do_erase (q1\<lparr>q_xfer := Idle\<rparr>) instr)
         | _ \<Rightarrow> q1)"

definition qspi_write_dr :: "qspi \<Rightarrow> u32 \<Rightarrow> qspi" where
  "qspi_write_dr q val =
     (case q_xfer q of
        WriteData remaining \<Rightarrow>
          let q1 = q\<lparr>q_wr_buf := q_wr_buf q @ [ucast (val AND 0xFF)]\<rparr>
          in if length (q_wr_buf q1) \<ge> remaining then do_program (q1\<lparr>q_xfer := Idle\<rparr>) else q1
      | _ \<Rightarrow> q)"

definition qspi_write :: "qspi \<Rightarrow> u32 \<Rightarrow> u32 \<Rightarrow> qspi" where
  "qspi_write q off val =
     (let w = word_of off in
      if w = 0x00 then q\<lparr>q_cr := val\<rparr>
      else if w = 0x04 then q\<lparr>q_dcr := val\<rparr>
      else if w = 0x0C then (if bit_set val 1 then q\<lparr>q_tcf := False\<rparr> else q)
      else if w = 0x10 then q\<lparr>q_dlr := val\<rparr>
      else if w = 0x14 then qspi_write_ccr q val
      else if w = 0x18 then qspi_write_ar q val
      else if w = 0x20 then qspi_write_dr q val
      else q)"


section \<open>What the pieces do to the array\<close>

lemma QSPI_SIZE_pos [simp]: "0 < QSPI_SIZE" by (simp add: QSPI_SIZE_def)

lemma mod_inj_window:
  fixes k l :: nat
  assumes "(b + k) mod n = (b + l) mod n" and "k < n" and "l < n"
  shows "k = l"
proof -
  have "k = l" if "(b + k) mod n = (b + l) mod n" "k \<le> l" "l < n" for k l
  proof -
    have "n dvd (b + l) - (b + k)" using that(1,2) by (metis add_le_cancel_left mod_eq_dvd_iff_nat)
    then have "n dvd l - k" by simp
    with that(2,3) show ?thesis by (metis dvd_imp_le le_antisym less_imp_diff_less not_le zero_less_diff)
  qed
  from this [of k l] this [of l k] assms show ?thesis by (metis nat_le_linear)
qed

lemma and_bytes_miss:
  "(\<And>k. k < length bs \<Longrightarrow> j \<noteq> (base + i + k) mod QSPI_SIZE) \<Longrightarrow> and_bytes m base i bs j = m j"
proof (induction m base i bs rule: and_bytes.induct)
  case (2 m base i b bs)
  have "j \<noteq> (base + i) mod QSPI_SIZE" using "2.prems" [of 0] by simp
  moreover have "j \<noteq> (base + Suc i + k) mod QSPI_SIZE" if "k < length bs" for k
    using "2.prems" [of "Suc k"] that by simp
  ultimately show ?case using "2.IH" [OF refl] by (simp add: Let_def fun_upd_def)
qed simp

lemma and_bytes_hit:
  "k < length bs \<Longrightarrow> length bs \<le> QSPI_SIZE \<Longrightarrow>
     and_bytes m base i bs ((base + i + k) mod QSPI_SIZE) = m ((base + i + k) mod QSPI_SIZE) AND bs ! k"
proof (induction m base i bs arbitrary: k rule: and_bytes.induct)
  case (2 m base i b bs)
  show ?case
  proof (cases k)
    case 0
    have "(base + i) mod QSPI_SIZE \<noteq> (base + Suc i + l) mod QSPI_SIZE" if "l < length bs" for l
      using mod_inj_window [of "base + i" 0 QSPI_SIZE "Suc l"] that "2.prems"(2) by auto
    then show ?thesis using 0 by (simp add: Let_def and_bytes_miss)
  next
    case (Suc l)
    have "(base + i + Suc l) mod QSPI_SIZE \<noteq> (base + i) mod QSPI_SIZE"
      using mod_inj_window [of "base + i" "Suc l" QSPI_SIZE 0] Suc "2.prems" by auto
    then show ?thesis using "2.IH" [OF refl, of l] "2.prems" Suc by (simp add: Let_def fun_upd_def)
  qed
qed simp

lemma ensure_file_frame [simp]:
  "q_mem (ensure_file q) = q_mem q" "q_wel (ensure_file q) = q_wel q"
  "q_ar (ensure_file q) = q_ar q" "q_xfer (ensure_file q) = q_xfer q"
  "q_mode_read (ensure_file q) = q_mode_read q" "q_wr_buf (ensure_file q) = q_wr_buf q"
  "q_dlr (ensure_file q) = q_dlr q"
  by (auto simp: ensure_file_def)

lemma qspi_write_through_frame [simp]:
  "q_mem (qspi_write_through q a n) = q_mem q" "q_wel (qspi_write_through q a n) = q_wel q"
  "q_ar (qspi_write_through q a n) = q_ar q" "q_xfer (qspi_write_through q a n) = q_xfer q"
  "q_mode_read (qspi_write_through q a n) = q_mode_read q"
  "q_wr_buf (qspi_write_through q a n) = q_wr_buf q"
  "q_dlr (qspi_write_through q a n) = q_dlr q"
  by (auto simp: qspi_write_through_def Let_def split: option.split)

section \<open>The driver's command sequences\<close>

text \<open>The CCR word the driver builds, a command with its address and data, and a read.\<close>

definition qspi_ccr :: "u8 \<Rightarrow> bool \<Rightarrow> bool \<Rightarrow> bool \<Rightarrow> u32" where
  "qspi_ccr instr rd addressed data =
     ucast instr OR (if rd then push_bit 26 1 else 0) OR
     (if addressed then push_bit 10 1 OR push_bit 12 3 else 0) OR
     (if data then push_bit 24 1 else 0)"

definition qspi_cmd :: "qspi \<Rightarrow> u8 \<Rightarrow> u32 option \<Rightarrow> u8 list \<Rightarrow> qspi" where
  "qspi_cmd q instr addr data =
     (let q1 = (if data \<noteq> [] then qspi_write q 0x10 (of_nat (length data - 1)) else q);
          q2 = qspi_write q1 0x14 (qspi_ccr instr False (addr \<noteq> None) (data \<noteq> []));
          q3 = (case addr of None \<Rightarrow> q2 | Some a \<Rightarrow> qspi_write q2 0x18 a)
      in foldl (\<lambda>q b. qspi_write q 0x20 (ucast b)) q3 data)"

fun drain_dr :: "nat \<Rightarrow> qspi \<Rightarrow> u8 list \<times> qspi" where
  "drain_dr 0 q = ([], q)"
| "drain_dr (Suc n) q =
     (let (v, q1) = qspi_read q 0x20; (vs, q2) = drain_dr n q1 in (ucast v # vs, q2))"

definition qspi_query :: "qspi \<Rightarrow> u8 \<Rightarrow> u32 option \<Rightarrow> nat \<Rightarrow> u8 list \<times> qspi" where
  "qspi_query q instr addr len =
     (let q1 = qspi_write q 0x10 (of_nat (len - 1));
          q2 = qspi_write q1 0x14 (qspi_ccr instr True (addr \<noteq> None) True);
          q3 = (case addr of None \<Rightarrow> q2 | Some a \<Rightarrow> qspi_write q2 0x18 a)
      in drain_dr len q3)"

lemma mask_numerals: "(3 :: u32) = mask 2" "(0xFF :: u32) = mask 8"
  by (simp_all add: mask_eq_exp_minus_1)

lemma bit_ccr:
  "bit (qspi_ccr i r a d) n \<longleftrightarrow>
     (n < 8 \<and> bit i n) \<or> (r \<and> n = 26) \<or> (a \<and> (n = 10 \<or> n = 12 \<or> n = 13)) \<or> (d \<and> n = 24)"
proof -
  have three: "bit (push_bit 12 3 :: u32) n \<longleftrightarrow> n = 12 \<or> n = 13"
    unfolding mask_numerals bit_push_bit_iff bit_mask_iff by auto
  show ?thesis
    unfolding qspi_ccr_def bit_or_iff if_distrib [where f = "\<lambda>v. bit v n"] bit_pow2 three
    by (auto simp: bit_simps dest: bit_imp_le_length)
qed

lemma ccr_fields [simp]:
  "ucast (qspi_ccr i r a d AND 0xFF) = i"
  "drop_bit 10 (qspi_ccr i r a d) AND 3 = b2w a"
  "drop_bit 24 (qspi_ccr i r a d) AND 3 = b2w d"
  "drop_bit 26 (qspi_ccr i r a d) AND 3 = b2w r"
  unfolding mask_numerals
  by (rule bit_word_eqI; auto simp: bit_ccr bit_simps)+

lemma drain_dr_eq:
  "q_resp_pos q + n \<le> length (q_resp q) \<Longrightarrow>
     drain_dr n q = (take n (drop (q_resp_pos q) (q_resp q)), q\<lparr>q_resp_pos := q_resp_pos q + n\<rparr>)"
proof (induction n arbitrary: q)
  case 0
  then show ?case by simp
next
  case (Suc n)
  have r: "qspi_read q 0x20 = (ucast (q_resp q ! q_resp_pos q), q\<lparr>q_resp_pos := q_resp_pos q + 1\<rparr>)"
    using Suc.prems by (simp add: qspi_read_def)
  have "drop (q_resp_pos q) (q_resp q) = q_resp q ! q_resp_pos q # drop (Suc (q_resp_pos q)) (q_resp q)"
    using Suc.prems by (simp add: Cons_nth_drop_Suc)
  then show ?case using Suc.IH [of "q\<lparr>q_resp_pos := q_resp_pos q + 1\<rparr>"] Suc.prems
    by (simp add: r)
qed

lemma unat_len_minus: "0 < n \<Longrightarrow> n \<le> 2 ^ 32 \<Longrightarrow> unat (of_nat (n - Suc 0) :: u32) = n - Suc 0"
  by (rule unat_of_nat32) simp

text \<open>Page data arriving byte by byte through DR: the last byte programs the page.\<close>

lemma feed_dr:
  "q_xfer q = WriteData n \<Longrightarrow> length (q_wr_buf q) + length bs = n \<Longrightarrow> bs \<noteq> [] \<Longrightarrow>
     foldl (\<lambda>q b. qspi_write q 0x20 (ucast b)) q bs =
     do_program (q\<lparr>q_wr_buf := q_wr_buf q @ bs, q_xfer := Idle\<rparr>)"
proof (induction bs arbitrary: q)
  case Nil
  then show ?case by simp
next
  case (Cons b bs)
  have b: "ucast ((ucast b :: u32) AND 0xFF) = b"
    unfolding mask_numerals by (rule bit_word_eqI) (auto simp: bit_simps)
  show ?case
  proof (cases "bs = []")
    case True
    with Cons.prems b show ?thesis by (simp add: qspi_write_def qspi_write_dr_def Let_def)
  next
    case False
    have w: "qspi_write q 0x20 (ucast b) = q\<lparr>q_wr_buf := q_wr_buf q @ [b]\<rparr>"
      using Cons.prems False b by (simp add: qspi_write_def qspi_write_dr_def Let_def neq_Nil_conv) auto
    show ?thesis using Cons.IH [of "q\<lparr>q_wr_buf := q_wr_buf q @ [b]\<rparr>"] Cons.prems False
      by (simp add: w)
  qed
qed


text \<open>The three commands of an update, in terms of the array.\<close>

lemma cmd_wren: "qspi_cmd q 0x06 None [] = q\<lparr>q_mode_read := False, q_wr_buf := [], q_wel := True,
    q_xfer := Idle, q_tcf := True\<rparr>"
  by (simp add: qspi_cmd_def qspi_write_def qspi_write_ccr_def Let_def)

lemma cmd_erase:
  assumes "q_wel q"
  shows "q_mem (qspi_cmd q 0xDC (Some a) []) =
           (let base = unat a mod QSPI_SIZE div QSPI_SECTOR * QSPI_SECTOR
            in fill_range (q_mem q) base (base + QSPI_SECTOR) 0xFF)"
    and "\<not> q_wel (qspi_cmd q 0xDC (Some a) [])"
  using assms by (simp_all add: qspi_cmd_def qspi_write_def qspi_write_ccr_def qspi_write_ar_def
      do_erase_def Let_def)

lemma cmd_program_state:
  assumes "bs \<noteq> []" and "length bs \<le> 2 ^ 32"
  shows "qspi_cmd q 0x12 (Some a) bs =
           do_program (q\<lparr>q_dlr := of_nat (length bs - 1), q_mode_read := False,
                         q_tcf := False, q_ar := a, q_wr_buf := bs, q_xfer := Idle\<rparr>)"
proof -
  let ?q = "q\<lparr>q_dlr := of_nat (length bs - 1), q_mode_read := False, q_wr_buf := [],
      q_tcf := False, q_ar := a, q_xfer := WriteData (length bs)\<rparr>"
  have n: "unat (of_nat (length bs - Suc 0) :: u32) = length bs - Suc 0"
    using assms by (intro unat_len_minus) auto
  have l: "Suc (length bs - Suc 0) = length bs" using assms(1) by simp
  have "qspi_cmd q 0x12 (Some a) bs = foldl (\<lambda>q b. qspi_write q 0x20 (ucast b)) ?q bs"
    using assms(1)
    by (simp add: qspi_cmd_def qspi_write_def qspi_write_ccr_def qspi_write_ar_def Let_def n l
        del: of_nat_diff)
  also have "\<dots> = do_program (?q\<lparr>q_wr_buf := q_wr_buf ?q @ bs, q_xfer := Idle\<rparr>)"
    using assms(1) by (intro feed_dr) simp_all
  finally show ?thesis by simp
qed

lemma cmd_program:
  assumes "q_wel q" and "bs \<noteq> []" and "length bs \<le> 2 ^ 32"
  shows "q_mem (qspi_cmd q 0x12 (Some a) bs) = and_bytes (q_mem q) (unat a mod QSPI_SIZE) 0 bs"
    and "\<not> q_wel (qspi_cmd q 0x12 (Some a) bs)"
  using assms by (simp_all add: cmd_program_state do_program_def Let_def)

lemma qspi_read_mem_frame [simp]:
  "qspi_read_mem (q\<lparr>q_ar := x\<rparr>) = qspi_read_mem q" "qspi_read_mem (q\<lparr>q_tcf := b\<rparr>) = qspi_read_mem q"
  "qspi_read_mem (q\<lparr>q_mode_read := b\<rparr>) = qspi_read_mem q"
  "qspi_read_mem (q\<lparr>q_resp := r\<rparr>) = qspi_read_mem q"
  "qspi_read_mem (q\<lparr>q_resp_pos := n\<rparr>) = qspi_read_mem q"
  "qspi_read_mem (q\<lparr>q_xfer := t\<rparr>) = qspi_read_mem q"
  "qspi_read_mem (q\<lparr>q_dlr := x\<rparr>) = qspi_read_mem q"
  by (rule ext, rule ext, simp add: qspi_read_mem_def)+

lemma query_mem:
  assumes "0 < n" and "n \<le> 2 ^ 32"
  shows "fst (qspi_query q 0x13 (Some a) n) = qspi_read_mem q a n"
    and "bit (fst (qspi_read (snd (qspi_query q 0x13 (Some a) n)) 0x08)) 1"
proof -
  let ?q = "q\<lparr>q_dlr := of_nat (n - 1), q_mode_read := True, q_tcf := False, q_ar := a,
      q_resp := qspi_read_mem q a n, q_resp_pos := 0, q_xfer := Idle\<rparr>"
  have m: "unat (of_nat (n - Suc 0) :: u32) = n - Suc 0" using assms by (intro unat_len_minus)
  have "qspi_query q 0x13 (Some a) n = drain_dr n ?q"
    using assms(1)
    by (simp add: qspi_query_def qspi_write_def qspi_write_ccr_def qspi_write_ar_def Let_def m
        del: of_nat_diff)
  also have "\<dots> = (qspi_read_mem q a n, ?q\<lparr>q_resp_pos := n\<rparr>)"
    by (subst drain_dr_eq) (simp_all add: qspi_read_mem_def)
  finally have eq: "qspi_query q 0x13 (Some a) n = (qspi_read_mem q a n, ?q\<lparr>q_resp_pos := n\<rparr>)" .
  show "fst (qspi_query q 0x13 (Some a) n) = qspi_read_mem q a n"
    unfolding eq by simp
  show "bit (fst (qspi_read (snd (qspi_query q 0x13 (Some a) n)) 0x08)) 1"
    unfolding eq by (simp add: qspi_read_def qspi_read_mem_def Let_def bit_simps)
qed

section \<open>Nothing changes without the write-enable latch\<close>

definition is_wren :: "u32 \<Rightarrow> u32 \<Rightarrow> bool" where
  "is_wren off val = (word_of off = 0x14 \<and> ucast (val AND 0xFF) = (0x06 :: u8))"

lemma do_erase_locked: "\<not> q_wel q \<Longrightarrow> do_erase q i = q\<lparr>q_tcf := True\<rparr>"
  by (simp add: do_erase_def)

lemma do_program_locked: "\<not> q_wel q \<Longrightarrow> do_program q = q\<lparr>q_wr_buf := [], q_tcf := True\<rparr>"
  by (simp add: do_program_def)

lemma qspi_write_locked:
  assumes "\<not> q_wel q" and "\<not> is_wren off val"
  shows "\<not> q_wel (qspi_write q off val) \<and> q_mem (qspi_write q off val) = q_mem q
         \<and> q_file (qspi_write q off val) = q_file q"
  using assms
  by (simp add: qspi_write_def qspi_write_ccr_def qspi_write_ar_def qspi_write_dr_def
      is_wren_def Let_def do_erase_locked do_program_locked split: qspi_xfer.split)

lemma qspi_read_frame [simp]:
  "q_wel (snd (qspi_read q off)) = q_wel q" "q_mem (snd (qspi_read q off)) = q_mem q"
  "q_file (snd (qspi_read q off)) = q_file q"
  by (simp_all add: qspi_read_def Let_def)

datatype qspi_op = QRead u32 | QWrite u32 u32

primrec qspi_step :: "qspi \<Rightarrow> qspi_op \<Rightarrow> qspi" where
  "qspi_step q (QRead off) = snd (qspi_read q off)"
| "qspi_step q (QWrite off v) = qspi_write q off v"

definition qspi_run :: "qspi \<Rightarrow> qspi_op list \<Rightarrow> qspi" where
  "qspi_run = foldl qspi_step"

lemma qspi_run_locked:
  "\<not> q_wel q \<Longrightarrow> \<forall>off v. QWrite off v \<in> set ops \<longrightarrow> \<not> is_wren off v \<Longrightarrow>
     q_mem (qspi_run q ops) = q_mem q \<and> q_file (qspi_run q ops) = q_file q"
proof (induction ops arbitrary: q)
  case Nil
  then show ?case by (simp add: qspi_run_def)
next
  case (Cons op ops)
  have "\<not> q_wel (qspi_step q op) \<and> q_mem (qspi_step q op) = q_mem q \<and> q_file (qspi_step q op) = q_file q"
    using Cons.prems qspi_write_locked [of q] by (cases op) simp_all
  with Cons show ?case by (simp add: qspi_run_def)
qed

section \<open>The backing file mirrors the array\<close>

definition qspi_durable :: "qspi \<Rightarrow> bool" where
  "qspi_durable q = (\<forall>c. q_file q = Some c \<longrightarrow> (\<forall>i < QSPI_SIZE. c i = q_mem q i))"

lemma qspi_durable_cong:
  "q_mem q' = q_mem q \<Longrightarrow> q_file q' = q_file q \<Longrightarrow> qspi_durable q' = qspi_durable q"
  by (simp add: qspi_durable_def)

text \<open>Written through, a stretch of the array is on file; the rest stays as it was.\<close>

definition durable_except :: "qspi \<Rightarrow> (nat \<Rightarrow> bool) \<Rightarrow> bool" where
  "durable_except q P = (\<forall>c. q_file q = Some c \<longrightarrow> (\<forall>i < QSPI_SIZE. P i \<or> c i = q_mem q i))"

lemma write_through_except:
  assumes "durable_except q P"
  shows "durable_except (qspi_write_through q off n) (\<lambda>i. P i \<and> \<not> (off \<le> i \<and> i < off + n))"
  using assms
  by (auto simp: qspi_write_through_def ensure_file_def durable_except_def blit_def Let_def
      split: option.split)

lemma durable_exceptI: "durable_except q (\<lambda>_. False) \<Longrightarrow> qspi_durable q"
  by (simp add: durable_except_def qspi_durable_def)

lemma durable_except_mono: "durable_except q P \<Longrightarrow> (\<And>i. i < QSPI_SIZE \<Longrightarrow> P i \<Longrightarrow> Q i) \<Longrightarrow> durable_except q Q"
  unfolding durable_except_def by blast


lemma do_erase_durable: "qspi_durable q \<Longrightarrow> qspi_durable (do_erase q i)"
proof -
  assume d: "qspi_durable q"
  have "qspi_durable ((qspi_write_through (q\<lparr>q_wel := False,
      q_mem := fill_range (q_mem q) b (b + n) 0xFF\<rparr>) b n)\<lparr>q_tcf := True\<rparr>)" for b n
  proof -
    let ?q = "q\<lparr>q_wel := False, q_mem := fill_range (q_mem q) b (b + n) 0xFF\<rparr>"
    from d have "durable_except ?q (\<lambda>i. b \<le> i \<and> i < b + n)"
      by (auto simp: qspi_durable_def durable_except_def fill_range_def)
    from write_through_except [OF this, of b n]
    have "qspi_durable (qspi_write_through ?q b n)"
      by (intro durable_exceptI) (erule durable_except_mono, auto)
    then show ?thesis by (simp add: qspi_durable_def)
  qed
  with d show ?thesis
    unfolding do_erase_def Let_def
    by (simp add: split_def qspi_durable_cong [of "q\<lparr>q_tcf := True\<rparr>" q])
qed

lemma do_program_durable:
  assumes d: "qspi_durable q" and len: "length (q_wr_buf q) \<le> QSPI_SIZE"
  shows "qspi_durable (do_program q)"
proof (cases "q_wel q")
  case False
  with d show ?thesis by (simp add: do_program_locked qspi_durable_def)
next
  case True
  define bs base where "bs = q_wr_buf q" and "base = unat (q_ar q) mod QSPI_SIZE"
  define q1 where "q1 = (q\<lparr>q_wr_buf := []\<rparr>)\<lparr>q_wel := False, q_mem := and_bytes (q_mem q) base 0 bs\<rparr>"
  define first where "first = min (length bs) (QSPI_SIZE - base)"
  let ?hit = "\<lambda>i. \<exists>k < length bs. i = (base + k) mod QSPI_SIZE"
  have base: "base < QSPI_SIZE" unfolding base_def by simp
  have "durable_except q1 ?hit"
    unfolding durable_except_def
  proof (intro allI impI)
    fix c i assume "q_file q1 = Some c" "i < QSPI_SIZE"
    with d have "c i = q_mem q i" by (simp add: q1_def qspi_durable_def)
    moreover have "?hit i \<or> q_mem q1 i = q_mem q i"
      using and_bytes_miss [of bs i base 0 "q_mem q"] by (auto simp: q1_def)
    ultimately show "?hit i \<or> c i = q_mem q1 i" by auto
  qed
  from write_through_except [OF this, of base first]
  have e2: "durable_except (qspi_write_through q1 base first)
      (\<lambda>i. first < length bs \<and> i < length bs - first)"
  proof (rule durable_except_mono)
    fix i assume "i < QSPI_SIZE" and A: "?hit i \<and> \<not> (base \<le> i \<and> i < base + first)"
    then obtain k where k: "k < length bs" "i = (base + k) mod QSPI_SIZE" by auto
    have "QSPI_SIZE \<le> base + k"
    proof (rule ccontr)
      assume "\<not> QSPI_SIZE \<le> base + k"
      with k A show False by (auto simp: first_def)
    qed
    moreover have "base + k < 2 * QSPI_SIZE" using base k(1) len by (simp add: bs_def)
    ultimately have "i = base + k - QSPI_SIZE" using k(2) by (simp add: le_mod_geq)
    then show "first < length bs \<and> i < length bs - first"
      using \<open>QSPI_SIZE \<le> base + k\<close> k(1) base unfolding first_def by linarith
  qed
  let ?q2 = "qspi_write_through q1 base first"
  have wrap: "qspi_durable (qspi_write_through ?q2 0 (length bs - first))"
    by (rule durable_exceptI, rule durable_except_mono [OF write_through_except [OF e2]]) auto
  have flat: "qspi_durable ?q2" if "\<not> first < length bs"
    by (rule durable_exceptI, rule durable_except_mono [OF e2]) (use that in auto)
  have "qspi_durable (if first < length bs then qspi_write_through ?q2 0 (length bs - first) else ?q2)"
    using wrap flat by simp
  moreover have "do_program q =
      (if first < length bs then qspi_write_through ?q2 0 (length bs - first) else ?q2)\<lparr>q_tcf := True\<rparr>"
    unfolding do_program_def Let_def q1_def first_def base_def bs_def using True by simp
  ultimately show ?thesis by (simp add: qspi_durable_def)
qed

text \<open>Page data never outgrows the array as long as DLR asks for no more than it.\<close>

definition qspi_sane :: "qspi \<Rightarrow> bool" where
  "qspi_sane q =
     (unat (q_dlr q) < QSPI_SIZE \<and>
      (\<forall>n. q_xfer q = WriteData n \<longrightarrow> length (q_wr_buf q) < n \<and> n \<le> QSPI_SIZE) \<and>
      (\<forall>i d. q_xfer q = WriteAtAddr i d \<longrightarrow> q_wr_buf q = []))"

definition big_dlr :: "u32 \<Rightarrow> u32 \<Rightarrow> bool" where
  "big_dlr off val = (word_of off = 0x10 \<and> QSPI_SIZE \<le> unat val)"

lemma do_erase_frame [simp]:
  "q_dlr (do_erase q i) = q_dlr q" "q_xfer (do_erase q i) = q_xfer q"
  "q_wr_buf (do_erase q i) = q_wr_buf q"
  by (simp_all add: do_erase_def Let_def split_def)

lemma do_program_frame [simp]:
  "q_dlr (do_program q) = q_dlr q" "q_xfer (do_program q) = q_xfer q"
  by (simp_all add: do_program_def Let_def)

lemma qspi_step_sane_write:
  assumes "qspi_sane q" and "\<not> big_dlr off val"
  shows "qspi_sane (qspi_write q off val)"
  using assms
  by (auto simp: qspi_write_def qspi_write_ccr_def qspi_write_ar_def qspi_write_dr_def
      qspi_sane_def big_dlr_def Let_def not_le split: qspi_xfer.split)

lemma qspi_write_durable:
  assumes "qspi_durable q" and "qspi_sane q"
  shows "qspi_durable (qspi_write q off val)"
proof -
  have E: "qspi_durable (do_erase q' i)" if "q_mem q' = q_mem q" "q_file q' = q_file q" for q' i
    using do_erase_durable qspi_durable_cong [OF that] assms(1) by blast
  have P: "qspi_durable (do_program q')"
    if "q_mem q' = q_mem q" "q_file q' = q_file q" "length (q_wr_buf q') \<le> QSPI_SIZE" for q'
    using do_program_durable qspi_durable_cong [OF that(1,2)] assms(1) that(3) by blast
  have K: "qspi_durable q'" if "q_mem q' = q_mem q" "q_file q' = q_file q" for q'
    using qspi_durable_cong [OF that] assms(1) by blast
  have ccr: "qspi_durable (qspi_write_ccr q val)"
    by (auto simp: qspi_write_ccr_def Let_def intro!: K E)
  have ar: "qspi_durable (qspi_write_ar q val)"
    by (auto simp: qspi_write_ar_def Let_def intro!: K E split: qspi_xfer.split)
  have dr: "qspi_durable (qspi_write_dr q val)"
    using assms(2)
    by (auto simp: qspi_write_dr_def qspi_sane_def Let_def intro: K P split: qspi_xfer.split)
  show ?thesis
    using ccr ar dr by (auto simp: qspi_write_def Let_def intro!: K)
qed


lemma qspi_read_sane: "qspi_sane q \<Longrightarrow> qspi_sane (snd (qspi_read q off))"
  by (simp add: qspi_sane_def qspi_read_def Let_def)

lemma qspi_run_durable:
  "qspi_durable q \<Longrightarrow> qspi_sane q \<Longrightarrow> \<forall>off v. QWrite off v \<in> set ops \<longrightarrow> \<not> big_dlr off v \<Longrightarrow>
     qspi_durable (qspi_run q ops)"
proof (induction ops arbitrary: q)
  case Nil
  then show ?case by (simp add: qspi_run_def)
next
  case (Cons op ops)
  have "qspi_durable (qspi_step q op) \<and> qspi_sane (qspi_step q op)"
    using Cons.prems qspi_write_durable [of q] qspi_step_sane_write [of q] qspi_read_sane [of q]
      qspi_durable_cong [of "snd (qspi_read q off)" q for off]
    by (cases op) auto
  with Cons show ?case by (simp add: qspi_run_def)
qed

lemma with_backing_durable: "qspi_durable (qspi_with_backing path loaded c w)"
  by (auto simp: qspi_durable_def qspi_with_backing_def Let_def blit_def split: option.split)

lemma with_backing_sane: "qspi_sane (qspi_with_backing path loaded c w)"
  by (simp add: qspi_sane_def qspi_with_backing_def Let_def)

section \<open>Properties\<close>

text \<open>A range inside a sector stays inside the array; programming it touches no other sector.\<close>

lemma within_sector:
  assumes "a mod QSPI_SECTOR + n \<le> QSPI_SECTOR"
  defines "base \<equiv> a mod QSPI_SIZE"
  shows "base + n \<le> base div QSPI_SECTOR * QSPI_SECTOR + QSPI_SECTOR" and "base + n \<le> QSPI_SIZE"
proof -
  have sz: "QSPI_SIZE = QSPI_SECTOR * 512" by (simp add: QSPI_SIZE_def QSPI_SECTOR_def)
  have low: "base mod QSPI_SECTOR = a mod QSPI_SECTOR"
    unfolding base_def sz by (simp add: mod_mult2_eq)
  show fit: "base + n \<le> base div QSPI_SECTOR * QSPI_SECTOR + QSPI_SECTOR"
    using assms(1) low mod_div_mult_eq [of base QSPI_SECTOR] by linarith
  have "base div QSPI_SECTOR < 512"
    using less_mult_imp_div_less [of base 512 QSPI_SECTOR]
    by (metis QSPI_SIZE_pos base_def mod_less_divisor mult.commute sz)
  then have "base div QSPI_SECTOR + 1 \<le> 512" by simp
  from mult_le_mono1 [OF this, of QSPI_SECTOR] show "base + n \<le> QSPI_SIZE"
    using fit unfolding sz by (simp only: add_mult_distrib mult_1 mult.commute [of QSPI_SECTOR])
qed

lemma outside_sector:
  assumes "i div QSPI_SECTOR \<noteq> base div QSPI_SECTOR"
    and "base + length bs \<le> base div QSPI_SECTOR * QSPI_SECTOR + QSPI_SECTOR" "base + length bs \<le> QSPI_SIZE"
  shows "and_bytes m base 0 bs i = m i"
    and "i < base div QSPI_SECTOR * QSPI_SECTOR \<or> base div QSPI_SECTOR * QSPI_SECTOR + QSPI_SECTOR \<le> i"
proof -
  have pos: "0 < QSPI_SECTOR" by (simp add: QSPI_SECTOR_def)
  show out: "i < base div QSPI_SECTOR * QSPI_SECTOR \<or> base div QSPI_SECTOR * QSPI_SECTOR + QSPI_SECTOR \<le> i"
    using assms(1) pos by (metis add.commute div_nat_eqI leI mult.commute mult_Suc)
  show "and_bytes m base 0 bs i = m i"
  proof (rule and_bytes_miss)
    fix k assume k: "k < length bs"
    have "(base + 0 + k) mod QSPI_SIZE = base + k" using k assms(3) by simp
    then show "i \<noteq> (base + 0 + k) mod QSPI_SIZE"
      using out k assms(2) div_times_less_eq_dividend [of base QSPI_SECTOR] by linarith
  qed
qed

text \<open>
  C30: The update path of the external flash: with the driver's own register sequence,
  write-enable and sector-erase the sector of \<open>a\<close>, write-enable and page-program
  \<open>bs\<close> at \<open>a\<close>, then an addressed read of as many bytes returns exactly \<open>bs\<close>, the read
  ends with TCF set, and no byte outside the erased sector has changed.
\<close>

theorem qspi_update_reads_back:
  fixes bs :: "u8 list" and q :: qspi and a :: u32
  assumes "bs \<noteq> []" and "unat a mod QSPI_SECTOR + length bs \<le> QSPI_SECTOR"
  defines "q1 \<equiv> qspi_cmd (qspi_cmd q 0x06 None []) 0xDC (Some a) []"
  defines "q2 \<equiv> qspi_cmd (qspi_cmd q1 0x06 None []) 0x12 (Some a) bs"
  shows "fst (qspi_query q2 0x13 (Some a) (length bs)) = bs \<and>
         bit (fst (qspi_read (snd (qspi_query q2 0x13 (Some a) (length bs))) 0x08)) 1 \<and>
         (\<forall>i. i div QSPI_SECTOR \<noteq> unat a mod QSPI_SIZE div QSPI_SECTOR \<longrightarrow> q_mem q2 i = q_mem q i)"
proof -
  define base where "base = unat a mod QSPI_SIZE"
  have len: "length bs \<le> 2 ^ 32" "length bs \<le> QSPI_SIZE"
    using assms(2) by (simp_all add: QSPI_SECTOR_def QSPI_SIZE_def)
  have fit: "base + length bs \<le> base div QSPI_SECTOR * QSPI_SECTOR + QSPI_SECTOR" and in_array: "base + length bs \<le> QSPI_SIZE"
    using within_sector [OF assms(2)] by (simp_all add: base_def)
  have m1: "q_mem q1 = fill_range (q_mem q) (base div QSPI_SECTOR * QSPI_SECTOR)
      (base div QSPI_SECTOR * QSPI_SECTOR + QSPI_SECTOR) 0xFF"
    unfolding q1_def cmd_wren by (subst cmd_erase) (simp_all add: Let_def base_def)
  have m2: "q_mem q2 = and_bytes (q_mem q1) base 0 bs"
    unfolding q2_def cmd_wren using assms(1) len(1) by (subst cmd_program) (simp_all add: base_def)
  have cell: "q_mem q2 (base + k) = bs ! k" if "k < length bs" for k
  proof -
    have "base div QSPI_SECTOR * QSPI_SECTOR \<le> base + k"
      using div_times_less_eq_dividend [of base QSPI_SECTOR] by linarith
    then have "q_mem q1 (base + k) = 0xFF" using fit that unfolding m1 by (simp add: fill_range_def)
    then show ?thesis
      using and_bytes_hit [of k bs "q_mem q1" base 0] that len(2) in_array m2
      by (simp add: mask_eq_exp_minus_1)
  qed
  have rd: "qspi_read_mem q2 a (length bs) = bs"
  proof (rule nth_equalityI)
    fix k assume "k < length (qspi_read_mem q2 a (length bs))"
    then have k: "k < length bs" by (simp add: qspi_read_mem_def)
    then have "(unat a + k) mod QSPI_SIZE = base + k"
      using in_array by (metis base_def le_trans mod_add_left_eq mod_less less_le_trans add_less_cancel_left)
    with k cell [OF k] show "qspi_read_mem q2 a (length bs) ! k = bs ! k"
      by (simp add: qspi_read_mem_def)
  qed (simp add: qspi_read_mem_def)
  have other: "q_mem q2 i = q_mem q i" if "i div QSPI_SECTOR \<noteq> base div QSPI_SECTOR" for i
    using outside_sector [OF that fit in_array] by (auto simp: m1 m2 fill_range_def)
  show ?thesis
    using query_mem [of "length bs" q2 a] assms(1) len(1) rd other by (simp add: base_def)
qed

theorem qspi_update_reads_back_witness:
  "fst (qspi_query (qspi_cmd (qspi_cmd (qspi_cmd (qspi_cmd (qspi_with_backing None None True (\<lambda>_ _. True))
     0x06 None []) 0xDC (Some 0x20000) []) 0x06 None []) 0x12 (Some 0x20000) [0xDE, 0xAD])
     0x13 (Some 0x20000) 2) = [0xDE, 0xAD]"
proof -
  have "unat (0x20000 :: u32) mod QSPI_SECTOR + length [0xDE, 0xAD :: u8] \<le> QSPI_SECTOR"
    by (simp add: QSPI_SECTOR_def)
  from qspi_update_reads_back [OF _ this, THEN conjunct1] show ?thesis
    by (metis Suc_1 list.distinct(1) list.size(3,4) One_nat_def add.commute plus_1_eq_Suc)
qed

text \<open>
  With the write-enable latch clear, no sequence of register reads and writes
  changes the flash array or its backing file until a WREN command is written to CCR.
\<close>

theorem qspi_array_fixed_without_wren:
  assumes "\<not> q_wel q" and "\<forall>off v. QWrite off v \<in> set ops \<longrightarrow> \<not> is_wren off v"
  shows "q_mem (qspi_run q ops) = q_mem q \<and> q_file (qspi_run q ops) = q_file q"
  using assms by (rule qspi_run_locked)

theorem qspi_array_fixed_without_wren_witness:
  "q_mem (qspi_run (qspi_with_backing None None True (\<lambda>_ _. True))
     [QWrite 0x14 0xC7, QRead 0x08]) = q_mem (qspi_with_backing None None True (\<lambda>_ _. True))"
  using qspi_array_fixed_without_wren [of "qspi_with_backing None None True (\<lambda>_ _. True)"
      "[QWrite 0x14 0xC7, QRead 0x08]"]
  by (simp add: qspi_with_backing_def is_wren_def)

text \<open>
  The backing file is a faithful copy: whatever the drivers do, as long as no
  transfer length beyond the array is programmed into DLR, an open backing file holds
  the array byte for byte (so a restart that loads it resumes from the same contents).
\<close>

theorem qspi_file_mirrors_array:
  assumes "\<forall>off v. QWrite off v \<in> set ops \<longrightarrow> \<not> big_dlr off v"
    and "q_file (qspi_run (qspi_with_backing path loaded cok wok) ops) = Some c"
    and "i < QSPI_SIZE"
  shows "c i = q_mem (qspi_run (qspi_with_backing path loaded cok wok) ops) i"
  using qspi_run_durable [OF with_backing_durable with_backing_sane assms(1)] assms(2,3)
  by (auto simp: qspi_durable_def)

theorem qspi_file_mirrors_array_witness:
  "\<exists>c. q_file (qspi_run (qspi_with_backing (Some ''q'') None True (\<lambda>_ _. True))
         [QWrite 0x14 0x06, QWrite 0x14 0xC7]) = Some c \<and>
       c 5 = q_mem (qspi_run (qspi_with_backing (Some ''q'') None True (\<lambda>_ _. True))
         [QWrite 0x14 0x06, QWrite 0x14 0xC7]) 5"
proof -
  let ?q = "qspi_run (qspi_with_backing (Some ''q'') None True (\<lambda>_ _. True))
         [QWrite 0x14 0x06, QWrite 0x14 0xC7]"
  obtain c where "q_file ?q = Some c"
    by (auto simp: qspi_run_def qspi_with_backing_def qspi_write_def qspi_write_ccr_def do_erase_def
        qspi_write_through_def ensure_file_def Let_def QSPI_SIZE_def)
  moreover have "c 5 = q_mem ?q 5"
    using calculation by (intro qspi_file_mirrors_array) (auto simp: big_dlr_def QSPI_SIZE_def)
  ultimately show ?thesis by blast
qed

end
