(* ===== verification/RotFlash.thy ===== *)
theory RotFlash
  imports Prelude
begin

text \<open>
  The LPC55 RoT flash and its command engine (\<open>src/rot_flash.rs\<close>): the 1 MB window,
  the packed per-page erased bitset, the 512-byte program buffer, the command
  registers at 0x4003_4000 and the write-through backing files. \<open>rf_panicked\<close> records
  an out-of-range slice, which stops the emulator. The protected-flash field parser of
  the \<open>lpc55_areas\<close> crate is a parameter of the definitions that use it.
\<close>

unbundle bit_operations_syntax

definition SIZE :: nat where "SIZE = 0x100000"
definition NPAGES :: nat where "NPAGES = 2048"
abbreviation (input) PAGE :: nat where "PAGE \<equiv> 512"
abbreviation (input) WORD :: nat where "WORD \<equiv> 16"
abbreviation (input) WORDS_PER_PAGE :: nat where "WORDS_PER_PAGE \<equiv> 32"
abbreviation (input) ROT_ERASED :: u8 where "ROT_ERASED \<equiv> 0xFF"

abbreviation (input) CFPA_PING :: nat where "CFPA_PING \<equiv> 0x9E000"
abbreviation (input) CFPA_PONG :: nat where "CFPA_PONG \<equiv> 0x9E200"
abbreviation (input) CMPA :: nat where "CMPA \<equiv> 0x9E400"

abbreviation (input) REG_CMD :: u32 where "REG_CMD \<equiv> 0x00"
abbreviation (input) REG_STARTA :: u32 where "REG_STARTA \<equiv> 0x10"
abbreviation (input) REG_STOPA :: u32 where "REG_STOPA \<equiv> 0x14"
abbreviation (input) REG_DATAW :: u32 where "REG_DATAW \<equiv> 0x80"
abbreviation (input) REG_INT_STATUS :: u32 where "REG_INT_STATUS \<equiv> 0xFE0"
abbreviation (input) REG_INT_CLR_STATUS :: u32 where "REG_INT_CLR_STATUS \<equiv> 0xFE8"
abbreviation (input) REG_INT_SET_STATUS :: u32 where "REG_INT_SET_STATUS \<equiv> 0xFEC"

abbreviation (input) CMD_READ :: u32 where "CMD_READ \<equiv> 3"
abbreviation (input) CMD_ERASE :: u32 where "CMD_ERASE \<equiv> 4"
abbreviation (input) CMD_BLANK :: u32 where "CMD_BLANK \<equiv> 5"
abbreviation (input) CMD_WRITE :: u32 where "CMD_WRITE \<equiv> 8"
abbreviation (input) CMD_PROGRAM :: u32 where "CMD_PROGRAM \<equiv> 12"

abbreviation (input) ST_FAIL :: u32 where "ST_FAIL \<equiv> 1"
abbreviation (input) ST_DONE :: u32 where "ST_DONE \<equiv> 4"
abbreviation (input) ST_ECC :: u32 where "ST_ECC \<equiv> 8"

section \<open>State\<close>

record rot_flash =
  rf_mem :: bytes
  rf_erased :: bytes
  page_buf :: bytes
  starta :: u32
  stopa :: u32
  dataw :: "nat \<Rightarrow> u32"
  rf_status :: u32
  rf_file :: "bytes option"
  rf_bits_file :: "bytes option"
  rf_write_ok :: "nat \<Rightarrow> nat \<Rightarrow> bool"
  rf_bits_ok :: bool
  rf_panicked :: bool

definition is_erased :: "rot_flash \<Rightarrow> nat \<Rightarrow> bool" where
  "is_erased f page = (rf_erased f (page div 8) AND push_bit (page mod 8) 1 \<noteq> 0)"

definition set_erased :: "rot_flash \<Rightarrow> nat \<Rightarrow> bool \<Rightarrow> rot_flash" where
  "set_erased f page e =
     (let i = page div 8; b = push_bit (page mod 8) 1
      in if e then f\<lparr>rf_erased := (rf_erased f)(i := rf_erased f i OR b)\<rparr>
         else f\<lparr>rf_erased := (rf_erased f)(i := rf_erased f i AND NOT b)\<rparr>)"

text \<open>A device before seeding: everything erased.\<close>

definition rot_blank :: "(nat \<Rightarrow> nat \<Rightarrow> bool) \<Rightarrow> bool \<Rightarrow> rot_flash" where
  "rot_blank wok bok =
     \<lparr>rf_mem = (\<lambda>_. ROT_ERASED), rf_erased = (\<lambda>_. 0xFF), page_buf = (\<lambda>_. ROT_ERASED),
      starta = 0, stopa = 0, dataw = (\<lambda>_. 0), rf_status = 0, rf_file = None,
      rf_bits_file = None, rf_write_ok = wok, rf_bits_ok = bok, rf_panicked = False\<rparr>"

section \<open>Persistence\<close>

definition persist_bitset :: "rot_flash \<Rightarrow> rot_flash" where
  "persist_bitset f = (if rf_bits_ok f then f\<lparr>rf_bits_file := Some (rf_erased f)\<rparr> else f)"

definition persist_pages :: "rot_flash \<Rightarrow> nat \<Rightarrow> nat \<Rightarrow> rot_flash" where
  "persist_pages f lo hi =
     (case rf_file f of
        None \<Rightarrow> persist_bitset f
      | Some c \<Rightarrow>
          let off = lo * PAGE; end' = min ((hi + 1) * PAGE) SIZE
          in if end' < off then f\<lparr>rf_panicked := True\<rparr>
             else if rf_write_ok f off (end' - off)
             then persist_bitset (f\<lparr>rf_file := Some (blit c off (slice (rf_mem f) off (end' - off)))\<rparr>)
             else persist_bitset (f\<lparr>rf_file := None\<rparr>))"

definition persist_all :: "rot_flash \<Rightarrow> rot_flash" where
  "persist_all f =
     persist_bitset
       (case rf_file f of
          None \<Rightarrow> f
        | Some c \<Rightarrow> if rf_write_ok f 0 SIZE then f\<lparr>rf_file := Some (rf_mem f)\<rparr>
                    else f\<lparr>rf_file := None\<rparr>)"

section \<open>Direct loads and the memory window\<close>

text \<open>The inclusive page range of \<open>write_pages\<close> and of an erase.\<close>

definition set_erased_range :: "rot_flash \<Rightarrow> nat \<Rightarrow> nat \<Rightarrow> bool \<Rightarrow> rot_flash" where
  "set_erased_range f lo hi e = foldl (\<lambda>f p. set_erased f p e) f [lo..<Suc hi]"

definition write_pages :: "rot_flash \<Rightarrow> nat \<Rightarrow> u8 list \<Rightarrow> rot_flash" where
  "write_pages f off bs =
     (let n = min (length bs) (SIZE - off) in
      if n = 0 then f
      else set_erased_range (f\<lparr>rf_mem := blit (rf_mem f) off (take n bs)\<rparr>)
             (off div PAGE) ((off + n - 1) div PAGE) False)"

definition rot_load_image_at :: "rot_flash \<Rightarrow> u32 \<Rightarrow> u8 list \<Rightarrow> rot_flash" where
  "rot_load_image_at f addr bs = persist_all (write_pages f (unat addr) bs)"

definition rot_read_bytes :: "rot_flash \<Rightarrow> nat \<Rightarrow> u32 \<Rightarrow> u8 list" where
  "rot_read_bytes f N addr =
     (let o' = unat addr; n = min (SIZE - o') N
      in slice (rf_mem f) o' n @ replicate (N - n) ROT_ERASED)"

definition rot_read_mem32 :: "rot_flash \<Rightarrow> u32 \<Rightarrow> u32" where
  "rot_read_mem32 f addr =
     (let b = rot_read_bytes f 4 addr in le32 (b ! 0) (b ! 1) (b ! 2) (b ! 3))"

definition rot_read_mem16 :: "rot_flash \<Rightarrow> u32 \<Rightarrow> u16" where
  "rot_read_mem16 f addr = (let b = rot_read_bytes f 2 addr in le16 (b ! 0) (b ! 1))"

definition rot_read_mem8 :: "rot_flash \<Rightarrow> u32 \<Rightarrow> u8" where
  "rot_read_mem8 f addr = rf_mem f (unat addr)"

text \<open>A store into the window is ignored.\<close>

definition rot_write_mem :: "rot_flash \<Rightarrow> u32 \<Rightarrow> u32 \<Rightarrow> nat \<Rightarrow> rot_flash" where
  "rot_write_mem f addr val size' = f"

section \<open>The command engine\<close>

definition set_status :: "rot_flash \<Rightarrow> u32 \<Rightarrow> rot_flash" where
  "set_status f bits = f\<lparr>rf_status := rf_status f OR bits\<rparr>"

text \<open>One page of an erase, and the loop over the range.\<close>

definition erase_page :: "rot_flash \<Rightarrow> nat \<Rightarrow> rot_flash" where
  "erase_page f page =
     set_erased (f\<lparr>rf_mem := fill_range (rf_mem f) (page * PAGE) (page * PAGE + PAGE) ROT_ERASED\<rparr>)
       page True"

definition cmd_erase :: "rot_flash \<Rightarrow> rot_flash" where
  "cmd_erase f =
     (let lo = unat (starta f) * WORD div PAGE;
          hi = unat (stopa f) * WORD div PAGE;
          f1 = foldl erase_page f [lo..<Suc (min hi (NPAGES - 1))]
      in set_status (persist_pages f1 lo hi) ST_DONE)"

definition cmd_write :: "rot_flash \<Rightarrow> rot_flash" where
  "cmd_write f =
     (let row = unat (starta f) mod WORDS_PER_PAGE;
          buf = foldl (\<lambda>b i. blit b (row * WORD + i * 4) (le_bytes32 (dataw f i))) (page_buf f) [0..<4]
      in set_status (f\<lparr>page_buf := buf\<rparr>) ST_DONE)"

definition and_page :: "bytes \<Rightarrow> nat \<Rightarrow> bytes \<Rightarrow> bytes" where
  "and_page m base buf = (\<lambda>j. if base \<le> j \<and> j < base + PAGE then m j AND buf (j - base) else m j)"

definition cmd_program :: "rot_flash \<Rightarrow> rot_flash" where
  "cmd_program f =
     (let page = unat (starta f) * WORD div PAGE;
          f1 = (if page < NPAGES then
                  persist_pages
                    (set_erased (f\<lparr>rf_mem := and_page (rf_mem f) (page * PAGE) (page_buf f)\<rparr>)
                       page False) page page
                else f)
      in set_status (f1\<lparr>page_buf := (\<lambda>_. ROT_ERASED)\<rparr>) ST_DONE)"

text \<open>
  The scan of BlankCheck: the first word from \<open>w\<close> on whose page is programmed, if the
  range reaches one inside the flash.
\<close>

function blank_scan :: "rot_flash \<Rightarrow> nat \<Rightarrow> nat \<Rightarrow> nat option" where
  "blank_scan f w hi =
     (if hi < w then None
      else if SIZE < w * WORD + WORD then None
      else if \<not> is_erased f (w * WORD div PAGE) then Some w
      else blank_scan f (w + 1) hi)"
  by pat_completeness auto
termination by (relation "measure (\<lambda>(f, w, hi). Suc hi - w)") auto

declare blank_scan.simps [simp del]

definition cmd_blank :: "rot_flash \<Rightarrow> rot_flash" where
  "cmd_blank f =
     (case blank_scan f (unat (starta f)) (unat (stopa f)) of
        Some w \<Rightarrow> set_status (f\<lparr>dataw := (dataw f)(0 := of_nat w)\<rparr>) (ST_DONE OR ST_FAIL)
      | None \<Rightarrow> set_status f ST_DONE)"

definition cmd_read :: "rot_flash \<Rightarrow> rot_flash" where
  "cmd_read f =
     (let base = unat (starta f) * WORD; page = base div PAGE
      in if NPAGES \<le> page \<or> is_erased f page then set_status f (ST_DONE OR ST_ECC)
         else set_status
                (f\<lparr>dataw := (\<lambda>k. if k < 4 then get32 (rf_mem f) (base + k * 4) else dataw f k)\<rparr>)
                ST_DONE)"

definition do_cmd :: "rot_flash \<Rightarrow> u32 \<Rightarrow> rot_flash" where
  "do_cmd f cmd =
     (let c = cmd AND 0xF in
      if c = CMD_ERASE then cmd_erase f
      else if c = CMD_WRITE then cmd_write f
      else if c = CMD_PROGRAM then cmd_program f
      else if c = CMD_BLANK then cmd_blank f
      else if c = CMD_READ then cmd_read f
      else set_status f (ST_DONE OR ST_FAIL))"

definition rot_reg_read :: "rot_flash \<Rightarrow> u32 \<Rightarrow> u32" where
  "rot_reg_read f off =
     (if off = REG_STARTA then starta f
      else if off = REG_STOPA then stopa f
      else if off = REG_INT_STATUS then rf_status f
      else if REG_DATAW \<le> off \<and> off < REG_DATAW + 32 then dataw f (unat (off - REG_DATAW) div 4)
      else 0)"

definition rot_reg_write :: "rot_flash \<Rightarrow> u32 \<Rightarrow> u32 \<Rightarrow> rot_flash" where
  "rot_reg_write f off val =
     (if off = REG_CMD then do_cmd f val
      else if off = REG_STARTA then f\<lparr>starta := val\<rparr>
      else if off = REG_STOPA then f\<lparr>stopa := val\<rparr>
      else if off = REG_INT_CLR_STATUS then f\<lparr>rf_status := rf_status f AND NOT val\<rparr>
      else if off = REG_INT_SET_STATUS then f\<lparr>rf_status := rf_status f OR val\<rparr>
      else if REG_DATAW \<le> off \<and> off < REG_DATAW + 32 then
        f\<lparr>dataw := (dataw f)(unat (off - REG_DATAW) div 4 := val)\<rparr>
      else f)"

section \<open>The active protected-flash page\<close>

text \<open>\<open>version\<close> is the parsed version field of a page (0 when it does not parse).\<close>

definition active_cfpa :: "(u8 list \<Rightarrow> u32) \<Rightarrow> rot_flash \<Rightarrow> nat" where
  "active_cfpa version f =
     (if version (slice (rf_mem f) CFPA_PONG PAGE) \<le> version (slice (rf_mem f) CFPA_PING PAGE)
      then CFPA_PING else CFPA_PONG)"

definition cmpa_bytes :: "rot_flash \<Rightarrow> u8 list" where
  "cmpa_bytes f = slice (rf_mem f) CMPA PAGE"

definition active_cfpa_bytes :: "(u8 list \<Rightarrow> u32) \<Rightarrow> rot_flash \<Rightarrow> u8 list" where
  "active_cfpa_bytes version f = slice (rf_mem f) (active_cfpa version f) PAGE"

definition rot_slice :: "rot_flash \<Rightarrow> u32 \<Rightarrow> nat \<Rightarrow> u8 list" where
  "rot_slice f addr len =
     (let o' = min (unat addr) SIZE; end' = min (o' + len) SIZE in slice (rf_mem f) o' (end' - o'))"


section \<open>The erased bitset and the pages\<close>

lemma is_erased_bit: "is_erased f p \<longleftrightarrow> bit (rf_erased f (p div 8)) (p mod 8)"
  unfolding is_erased_def by (rule and_push_bit_1_iff)

lemma is_erased_set [simp]: "is_erased (set_erased f p e) q = (if q = p then e else is_erased f q)"
proof (cases "q div 8 = p div 8")
  case True
  have "p mod 8 = q mod 8 \<longleftrightarrow> p = q" using True by (metis div_mod_decomp)
  moreover have "p mod 8 < 8" "q mod 8 < 8" by simp_all
  ultimately show ?thesis
    using True by (cases e) (simp_all add: is_erased_bit set_erased_def bit_or_iff bit_and_iff
        bit_not_iff bit_pow2 Let_def, auto)
next
  case False
  then show ?thesis by (auto simp: is_erased_bit set_erased_def Let_def)
qed

lemma is_erased_cong: "rf_erased f = rf_erased g \<Longrightarrow> is_erased f p = is_erased g p"
  by (simp add: is_erased_def)

lemma set_erased_frame [simp]:
  "rf_mem (set_erased f p e) = rf_mem f" "page_buf (set_erased f p e) = page_buf f"
  "starta (set_erased f p e) = starta f" "stopa (set_erased f p e) = stopa f"
  "dataw (set_erased f p e) = dataw f" "rf_status (set_erased f p e) = rf_status f"
  "rf_file (set_erased f p e) = rf_file f" "rf_panicked (set_erased f p e) = rf_panicked f"
  by (auto simp: set_erased_def Let_def)

lemma persist_frame [simp]:
  "rf_mem (persist_pages f a b) = rf_mem f" "rf_erased (persist_pages f a b) = rf_erased f"
  "page_buf (persist_pages f a b) = page_buf f" "starta (persist_pages f a b) = starta f"
  "stopa (persist_pages f a b) = stopa f" "dataw (persist_pages f a b) = dataw f"
  "rf_status (persist_pages f a b) = rf_status f"
  by (auto simp: persist_pages_def persist_bitset_def Let_def split: option.split)

lemma persist_all_frame [simp]:
  "rf_mem (persist_all f) = rf_mem f" "rf_erased (persist_all f) = rf_erased f"
  by (auto simp: persist_all_def persist_bitset_def split: option.split)

lemma is_erased_persist [simp]:
  "is_erased (persist_pages f a b) p = is_erased f p" "is_erased (persist_all f) p = is_erased f p"
  by (simp_all add: is_erased_def)

lemma set_status_frame [simp]:
  "rf_mem (set_status f b) = rf_mem f" "rf_erased (set_status f b) = rf_erased f"
  "page_buf (set_status f b) = page_buf f" "starta (set_status f b) = starta f"
  "stopa (set_status f b) = stopa f" "dataw (set_status f b) = dataw f"
  "is_erased (set_status f b) p = is_erased f p" "rf_panicked (set_status f b) = rf_panicked f"
  "rf_status (set_status f b) = rf_status f OR b"
  by (simp_all add: set_status_def is_erased_def)

lemma is_erased_upd [simp]:
  "is_erased (f\<lparr>rf_mem := m\<rparr>) p = is_erased f p" "is_erased (f\<lparr>page_buf := pb\<rparr>) p = is_erased f p"
  "is_erased (f\<lparr>dataw := d\<rparr>) p = is_erased f p" "is_erased (f\<lparr>starta := a\<rparr>) p = is_erased f p"
  "is_erased (f\<lparr>stopa := a\<rparr>) p = is_erased f p" "is_erased (f\<lparr>rf_status := a\<rparr>) p = is_erased f p"
  by (simp_all add: is_erased_def)

lemma in_page_iff: "p * PAGE \<le> j \<and> j < p * PAGE + PAGE \<longleftrightarrow> j div PAGE = p"
  by auto

text \<open>Erasing the pages \<open>[a..<b]\<close>.\<close>

lemma erase_pages:
  "rf_mem (foldl erase_page f [a..<b]) = (\<lambda>j. if a \<le> j div PAGE \<and> j div PAGE < b then ROT_ERASED else rf_mem f j)
   \<and> (\<forall>p. is_erased (foldl erase_page f [a..<b]) p = ((a \<le> p \<and> p < b) \<or> is_erased f p))"
proof (induction b)
  case 0
  then show ?case by simp
next
  case (Suc b)
  show ?case
  proof (cases "a \<le> b")
    case True
    let ?g = "foldl erase_page f [a..<b]"
    have e: "foldl erase_page f [a..<Suc b] = erase_page ?g b" using True by simp
    have m: "rf_mem (erase_page ?g b) j = (if j div PAGE = b then ROT_ERASED else rf_mem ?g j)" for j
      using in_page_iff [of b j] by (simp add: erase_page_def fill_range_def)
    show ?thesis
      unfolding e
    proof (intro conjI ext allI)
      show "rf_mem (erase_page ?g b) j =
          (if a \<le> j div PAGE \<and> j div PAGE < Suc b then ROT_ERASED else rf_mem f j)" for j
        unfolding m using True fun_cong [OF Suc.IH [THEN conjunct1], of j] by (auto simp: less_Suc_eq)
      show "is_erased (erase_page ?g b) p = ((a \<le> p \<and> p < Suc b) \<or> is_erased f p)" for p
        using Suc.IH [THEN conjunct2, rule_format, of p] True by (auto simp: erase_page_def less_Suc_eq)
    qed
  next
    case False
    then have "[a..<Suc b] = []" by simp
    then show ?thesis using False by (auto intro!: ext)
  qed
qed

lemma set_erased_range_False [simp]:
  "is_erased (set_erased_range f a b False) p = (is_erased f p \<and> \<not> (a \<le> p \<and> p \<le> b))"
  "rf_mem (set_erased_range f a b e) = rf_mem f"
proof -
  have "is_erased (foldl (\<lambda>f p. set_erased f p False) f [a..<n]) p = (is_erased f p \<and> \<not> (a \<le> p \<and> p < n))" for n
    by (induction n) (auto simp: less_Suc_eq)
  from this [of "Suc b"] show "is_erased (set_erased_range f a b False) p = (is_erased f p \<and> \<not> (a \<le> p \<and> p \<le> b))"
    by (simp add: set_erased_range_def less_Suc_eq_le)
  have "rf_mem (foldl (\<lambda>f p. set_erased f p e) f ps) = rf_mem f" for ps
    by (induction ps arbitrary: f) simp_all
  then show "rf_mem (set_erased_range f a b e) = rf_mem f" by (simp add: set_erased_range_def)
qed

section \<open>The invariant: an erased page holds 0xFF\<close>

definition rot_wf :: "rot_flash \<Rightarrow> bool" where
  "rot_wf f = (\<forall>j < SIZE. is_erased f (j div PAGE) \<longrightarrow> rf_mem f j = ROT_ERASED)"

lemma rot_wf_cong: "rf_mem f = rf_mem g \<Longrightarrow> rf_erased f = rf_erased g \<Longrightarrow> rot_wf f = rot_wf g"
  using is_erased_cong by (metis rot_wf_def)

lemma rot_wf_blank: "rot_wf (rot_blank w b)"
  by (simp add: rot_wf_def rot_blank_def)

lemma rot_wf_erase:
  assumes "rot_wf f"
  shows "rot_wf (cmd_erase f)"
proof -
  have "rot_wf (set_status (persist_pages (foldl erase_page f [a..<b]) c d) e)" for a b c d e
    using assms erase_pages [of f a b] by (auto simp: rot_wf_def)
  then show ?thesis by (simp only: cmd_erase_def Let_def)
qed

lemma rot_wf_program:
  assumes "rot_wf f"
  shows "rot_wf (cmd_program f)"
  using assms in_page_iff by (auto simp: rot_wf_def cmd_program_def and_page_def Let_def)

lemma rot_wf_write_pages:
  assumes "rot_wf f"
  shows "rot_wf (write_pages f off bs)"
  using assms
  by (auto simp: rot_wf_def write_pages_def blit_def Let_def div_le_mono)

lemma rot_wf_do_cmd: "rot_wf f \<Longrightarrow> rot_wf (do_cmd f c)"
proof -
  assume wf: "rot_wf f"
  have "rot_wf (cmd_write f)" "rot_wf (cmd_blank f)" "rot_wf (cmd_read f)" "rot_wf (set_status f x)" for x
    using wf by (auto simp: rot_wf_def cmd_write_def cmd_blank_def cmd_read_def Let_def split: option.split)
  with wf show ?thesis by (simp add: do_cmd_def Let_def rot_wf_erase rot_wf_program)
qed

lemma rot_wf_reg_write: "rot_wf f \<Longrightarrow> rot_wf (rot_reg_write f off val)"
  using rot_wf_do_cmd [of f val] by (auto simp: rot_reg_write_def rot_wf_def)

datatype rot_op = RotReg u32 u32 | RotStore u32 u32 nat | RotLoad u32 "u8 list"

primrec rot_step :: "rot_flash \<Rightarrow> rot_op \<Rightarrow> rot_flash" where
  "rot_step f (RotReg off v) = rot_reg_write f off v"
| "rot_step f (RotStore a v n) = rot_write_mem f a v n"
| "rot_step f (RotLoad a bs) = rot_load_image_at f a bs"

definition rot_run :: "rot_flash \<Rightarrow> rot_op list \<Rightarrow> rot_flash" where
  "rot_run = foldl rot_step"

lemma rot_wf_step: "rot_wf f \<Longrightarrow> rot_wf (rot_step f op')"
proof (cases op')
  case (RotLoad a bs)
  assume "rot_wf f"
  then have "rot_wf (write_pages f (unat a) bs)" by (rule rot_wf_write_pages)
  then show ?thesis using RotLoad
    by (simp add: rot_load_image_at_def rot_wf_cong [of "persist_all g" g for g])
qed (auto simp: rot_wf_reg_write rot_write_mem_def)

lemma rot_wf_run: "rot_wf f \<Longrightarrow> rot_wf (rot_run f ops)"
  unfolding rot_run_def by (induction ops arbitrary: f) (auto simp: rot_wf_step)

section \<open>Blank check\<close>

lemma blank_scan_Some:
  "blank_scan f w hi = Some v \<longleftrightarrow>
     w \<le> v \<and> v \<le> hi \<and> v * WORD + WORD \<le> SIZE \<and> \<not> is_erased f (v * WORD div PAGE) \<and>
     (\<forall>u. w \<le> u \<and> u < v \<longrightarrow> is_erased f (u * WORD div PAGE))"
proof (induction f w hi rule: blank_scan.induct)
  case (1 f w hi)
  consider "hi < w" | "w \<le> hi" "SIZE < w * WORD + WORD"
    | (hit) "w \<le> hi" "w * WORD + WORD \<le> SIZE" "\<not> is_erased f (w * WORD div PAGE)"
    | (rec) "w \<le> hi" "w * WORD + WORD \<le> SIZE" "is_erased f (w * WORD div PAGE)"
    by linarith
  then show ?case
  proof cases
    case hit
    then have "blank_scan f w hi = Some w" by (subst blank_scan.simps) simp
    moreover have "v = w" if "w \<le> v" "\<forall>u. w \<le> u \<and> u < v \<longrightarrow> is_erased f (u * WORD div PAGE)"
      using that(1) hit(3) spec [OF that(2), of w] by (cases "w < v") auto
    ultimately show ?thesis using hit by auto
  next
    case rec
    then have eq1: "blank_scan f w hi = blank_scan f (w + 1) hi" by (subst blank_scan.simps) simp
    have eq2: "w \<le> v \<and> (\<forall>u. w \<le> u \<and> u < v \<longrightarrow> is_erased f (u * WORD div PAGE)) \<longleftrightarrow>
        v = w \<or> (w + 1 \<le> v \<and> (\<forall>u. w + 1 \<le> u \<and> u < v \<longrightarrow> is_erased f (u * WORD div PAGE)))"
      (is "?L \<longleftrightarrow> ?R")
    proof
      assume L: ?L
      show ?R using L by (cases "v = w") auto
    next
      assume R: ?R
      have "is_erased f (u * WORD div PAGE)" if "w \<le> u" "u < v" for u
        using R that rec(3) by (cases "u = w") auto
      with R show ?L by auto
    qed
    have eq3: "blank_scan f (w + 1) hi = Some v \<longleftrightarrow>
     w + 1 \<le> v \<and> v \<le> hi \<and> v * WORD + WORD \<le> SIZE \<and> \<not> is_erased f (v * WORD div PAGE) \<and>
     (\<forall>u. w + 1 \<le> u \<and> u < v \<longrightarrow> is_erased f (u * WORD div PAGE))"
      using rec by (intro "1.IH") auto
    have eq4: "v = w \<longrightarrow> is_erased f (v * WORD div PAGE)" using rec(3) by simp
    show ?thesis unfolding eq1 eq3 using eq2 eq4 by argo
  next
    case 1
    then have "blank_scan f w hi = None" by (subst blank_scan.simps) simp
    with 1 show ?thesis by auto
  next
    case 2
    then have "blank_scan f w hi = None" by (subst blank_scan.simps) simp
    with 2 show ?thesis by auto
  qed
qed

lemma blank_scan_None:
  "blank_scan f w hi = None \<longleftrightarrow>
     (\<forall>v. w \<le> v \<and> v \<le> hi \<and> v * WORD + WORD \<le> SIZE \<longrightarrow> is_erased f (v * WORD div PAGE))"
proof -
  define P where "P v \<longleftrightarrow> w \<le> v \<and> v \<le> hi \<and> v * WORD + WORD \<le> SIZE \<and> \<not> is_erased f (v * WORD div PAGE)" for v
  have "(\<exists>v. P v) \<longleftrightarrow> (\<exists>v. blank_scan f w hi = Some v)"
  proof
    assume "\<exists>v. P v"
    then have P: "P (Least P)" by (rule LeastI_ex)
    have "is_erased f (u * WORD div PAGE)" if "w \<le> u" "u < Least P" for u
      using not_less_Least [OF that(2)] that P unfolding P_def by auto
    with P show "\<exists>v. blank_scan f w hi = Some v" unfolding blank_scan_Some P_def by blast
  qed (auto simp: blank_scan_Some P_def)
  then show ?thesis unfolding P_def by (cases "blank_scan f w hi") auto
qed

section \<open>A page update\<close>

lemma concat_nth_uniform:
  "(\<And>x. length (g x) = n) \<Longrightarrow> i < length xs \<Longrightarrow> m < n \<Longrightarrow> concat (map g xs) ! (n * i + m) = g (xs ! i) ! m"
proof (induction xs arbitrary: i)
  case (Cons x xs)
  then show ?case by (cases i) (auto simp: nth_append)
qed simp

text \<open>
  The driver's page write: clear the status, erase the page, load the 32 rows into the
  program buffer through DATAW0..3 and Write, then Program. \<open>ws\<close> is the page as words.
\<close>

definition row_ops :: "u32 list \<Rightarrow> nat \<Rightarrow> rot_op list" where
  "row_ops ws r =
     [RotReg REG_STARTA (of_nat r), RotReg 0x80 (ws ! (4 * r)), RotReg 0x84 (ws ! (4 * r + 1)),
      RotReg 0x88 (ws ! (4 * r + 2)), RotReg 0x8C (ws ! (4 * r + 3)), RotReg REG_CMD CMD_WRITE]"

definition page_update_ops :: "nat \<Rightarrow> u32 list \<Rightarrow> rot_op list" where
  "page_update_ops p ws =
     [RotReg REG_INT_CLR_STATUS 0xF, RotReg REG_STARTA (of_nat (p * 32)),
      RotReg REG_STOPA (of_nat (p * 32 + 31)), RotReg REG_CMD CMD_ERASE] @
     concat (map (row_ops ws) [0..<32]) @
     [RotReg REG_STARTA (of_nat (p * 32)), RotReg REG_CMD CMD_PROGRAM]"

lemma rot_run_simps [simp]:
  "rot_run f [] = f" "rot_run f (x # xs) = rot_run (rot_step f x) xs"
  "rot_run f (xs @ ys) = rot_run (rot_run f xs) ys"
  by (simp_all add: rot_run_def)

definition row_bytes :: "u32 list \<Rightarrow> nat \<Rightarrow> u8 list" where
  "row_bytes ws r = concat (map (\<lambda>i. le_bytes32 (ws ! (4 * r + i))) [0..<4])"

lemma blit_append: "blit (blit m a xs) (a + length xs) ys = blit m a (xs @ ys)"
  by (rule ext) (auto simp: blit_def nth_append)

lemma row_write:
  assumes "r < 32"
  shows "page_buf (rot_run f (row_ops ws r)) = blit (page_buf f) (r * 16) (row_bytes ws r)"
    and "rf_mem (rot_run f (row_ops ws r)) = rf_mem f"
    and "rf_erased (rot_run f (row_ops ws r)) = rf_erased f"
    and "rf_panicked (rot_run f (row_ops ws r)) = rf_panicked f"
    and "rf_file (rot_run f (row_ops ws r)) = rf_file f"
proof -
  have r: "unat (of_nat r :: u32) = r" using assms by (intro unat_of_nat32) simp
  have four: "[0..<4] = [0, 1, 2, 3 :: nat]" by (simp add: upt_rec)
  have b2: "blit (blit m a (le_bytes32 v)) (a + 4) (le_bytes32 w) = blit m a (le_bytes32 v @ le_bytes32 w)"
    for m a v w using blit_append [of m a "le_bytes32 v" "le_bytes32 w"] by simp
  have b3: "blit (blit m a (le_bytes32 v @ le_bytes32 w)) (a + 8) (le_bytes32 x) =
      blit m a (le_bytes32 v @ le_bytes32 w @ le_bytes32 x)"
    for m a v w x using blit_append [of m a "le_bytes32 v @ le_bytes32 w" "le_bytes32 x"] by simp
  have b4: "blit (blit m a (le_bytes32 v @ le_bytes32 w @ le_bytes32 x)) (a + 12) (le_bytes32 y) =
      blit m a (le_bytes32 v @ le_bytes32 w @ le_bytes32 x @ le_bytes32 y)"
    for m a v w x y using blit_append [of m a "le_bytes32 v @ le_bytes32 w @ le_bytes32 x" "le_bytes32 y"] by simp
  note defs = row_ops_def rot_reg_write_def do_cmd_def cmd_write_def row_bytes_def four Let_def r
  show "page_buf (rot_run f (row_ops ws r)) = blit (page_buf f) (r * 16) (row_bytes ws r)"
    using assms by (simp add: defs b2 b3 b4)
  show "rf_mem (rot_run f (row_ops ws r)) = rf_mem f" "rf_erased (rot_run f (row_ops ws r)) = rf_erased f"
    "rf_panicked (rot_run f (row_ops ws r)) = rf_panicked f" "rf_file (rot_run f (row_ops ws r)) = rf_file f"
    by (simp_all add: defs set_status_def)
qed

lemma length_row_bytes [simp]: "length (row_bytes ws r) = 16"
  by (simp add: row_bytes_def upt_rec)

lemma rows_write:
  "n \<le> 32 \<Longrightarrow>
     page_buf (rot_run f (concat (map (row_ops ws) [0..<n]))) =
       blit (page_buf f) 0 (concat (map (row_bytes ws) [0..<n])) \<and>
     rf_mem (rot_run f (concat (map (row_ops ws) [0..<n]))) = rf_mem f \<and>
     rf_erased (rot_run f (concat (map (row_ops ws) [0..<n]))) = rf_erased f \<and>
     rf_panicked (rot_run f (concat (map (row_ops ws) [0..<n]))) = rf_panicked f \<and>
     rf_file (rot_run f (concat (map (row_ops ws) [0..<n]))) = rf_file f"
proof (induction n)
  case 0
  then show ?case by simp
next
  case (Suc n)
  have len: "length (concat (map (row_bytes ws) [0..<n])) = n * 16"
    by (simp add: length_concat comp_def sum_list_triv)
  show ?case using Suc
    by (simp add: row_write blit_append [of _ 0, unfolded add_0, symmetric] len)
qed


lemma upt4: "[0..<4] = [0, 1, 2, 3 :: nat]"
  by (simp add: upt_rec)

lemma take4: "4 \<le> length xs \<Longrightarrow> take 4 xs = [xs ! 0, xs ! 1, xs ! 2, xs ! 3]"
  by (auto simp: numeral_eq_Suc Suc_le_length_iff)

lemma rows_concat:
  "4 * n \<le> length ws \<Longrightarrow> concat (map (row_bytes ws) [0..<n]) = concat (map le_bytes32 (take (4 * n) ws))"
proof (induction n)
  case 0
  then show ?case by simp
next
  case (Suc n)
  have d: "take 4 (drop (4 * n) ws) = [ws ! (4 * n), ws ! (4 * n + 1), ws ! (4 * n + 2), ws ! (4 * n + 3)]"
    using Suc.prems take4 [of "drop (4 * n) ws"] by simp
  have "take (4 * Suc n) ws = take (4 * n) ws @ take 4 (drop (4 * n) ws)"
    by (simp add: take_add [symmetric] add.commute)
  with Suc d show ?case by (simp add: row_bytes_def upt4)
qed

lemma word_num_32: "p < NPAGES \<Longrightarrow> k < 32 \<Longrightarrow> unat (of_nat (p * 32 + k) :: u32) = p * 32 + k"
  by (rule unat_of_nat32) (simp add: NPAGES_def)

lemma persist_page_ok: "p < NPAGES \<Longrightarrow> rf_panicked (persist_pages f p p) = rf_panicked f"
  by (auto simp: persist_pages_def persist_bitset_def NPAGES_def SIZE_def Let_def split: option.split)

definition after_erase :: "rot_flash \<Rightarrow> nat \<Rightarrow> rot_flash" where
  "after_erase f p =
     rot_run f [RotReg REG_INT_CLR_STATUS 0xF, RotReg REG_STARTA (of_nat (p * 32)),
                RotReg REG_STOPA (of_nat (p * 32 + 31)), RotReg REG_CMD CMD_ERASE]"

lemma after_erase_facts:
  assumes "p < NPAGES"
  shows "rf_mem (after_erase f p) = (\<lambda>j. if j div PAGE = p then ROT_ERASED else rf_mem f j)"
    and "is_erased (after_erase f p) q = (q = p \<or> is_erased f q)"
    and "rf_panicked (after_erase f p) = rf_panicked f"
proof -
  define g where "g = f\<lparr>rf_status := rf_status f AND NOT 0xF, starta := of_nat (p * 32),
      stopa := of_nat (p * 32 + 31)\<rparr>"
  have lo: "unat (starta g) * WORD div PAGE = p" using word_num_32 [OF assms, of 0] by (simp add: g_def)
  have hi: "unat (stopa g) * WORD div PAGE = p" using word_num_32 [OF assms, of 31] by (simp add: g_def)
  have mn: "min p (NPAGES - 1) = p" using assms by (simp add: NPAGES_def)
  have one: "[p..<Suc p] = [p]" by simp
  have a: "after_erase f p = cmd_erase g"
    by (simp add: after_erase_def rot_reg_write_def do_cmd_def g_def)
  have e: "cmd_erase g = set_status (persist_pages (erase_page g p) p p) ST_DONE"
    unfolding cmd_erase_def Let_def lo hi mn one by simp
  have gm: "rf_mem g = rf_mem f" "rf_erased g = rf_erased f" "rf_panicked g = rf_panicked f"
    by (simp_all add: g_def)
  show "rf_mem (after_erase f p) = (\<lambda>j. if j div PAGE = p then ROT_ERASED else rf_mem f j)"
    unfolding a e using in_page_iff [of p] by (auto simp: erase_page_def fill_range_def gm)
  show "is_erased (after_erase f p) q = (q = p \<or> is_erased f q)"
    unfolding a e by (simp add: erase_page_def is_erased_cong [OF gm(2)])
  show "rf_panicked (after_erase f p) = rf_panicked f"
    unfolding a e by (simp add: persist_page_ok [OF assms] erase_page_def gm)
qed

definition after_program :: "rot_flash \<Rightarrow> nat \<Rightarrow> rot_flash" where
  "after_program f p = rot_run f [RotReg REG_STARTA (of_nat (p * 32)), RotReg REG_CMD CMD_PROGRAM]"

lemma after_program_facts:
  assumes "p < NPAGES"
  shows "rf_mem (after_program f p) = and_page (rf_mem f) (p * PAGE) (page_buf f)"
    and "is_erased (after_program f p) q = (q \<noteq> p \<and> is_erased f q)"
    and "rf_panicked (after_program f p) = rf_panicked f"
proof -
  define g where "g = f\<lparr>starta := of_nat (p * 32)\<rparr>"
  have pg: "unat (starta g) * WORD div PAGE = p" using word_num_32 [OF assms, of 0] by (simp add: g_def)
  have a: "after_program f p = cmd_program g"
    by (simp add: after_program_def rot_reg_write_def do_cmd_def g_def)
  have gm: "rf_mem g = rf_mem f" "rf_erased g = rf_erased f" "rf_panicked g = rf_panicked f"
    "page_buf g = page_buf f"
    by (simp_all add: g_def)
  have e: "cmd_program g = set_status
      ((persist_pages (set_erased (g\<lparr>rf_mem := and_page (rf_mem g) (p * PAGE) (page_buf g)\<rparr>) p False) p p)
         \<lparr>page_buf := (\<lambda>_. ROT_ERASED)\<rparr>) ST_DONE"
    unfolding cmd_program_def Let_def pg using assms by simp
  show "rf_mem (after_program f p) = and_page (rf_mem f) (p * PAGE) (page_buf f)"
    unfolding a e by (simp add: gm)
  show "is_erased (after_program f p) q = (q \<noteq> p \<and> is_erased f q)"
    unfolding a e by (simp add: is_erased_cong [OF gm(2)])
  show "rf_panicked (after_program f p) = rf_panicked f"
    unfolding a e by (simp add: persist_page_ok [OF assms] gm)
qed

lemma page_update_split:
  "rot_run f (page_update_ops p ws) =
     after_program (rot_run (after_erase f p) (concat (map (row_ops ws) [0..<32]))) p"
  by (simp only: page_update_ops_def after_erase_def after_program_def rot_run_simps)

definition read_word :: "rot_flash \<Rightarrow> nat \<Rightarrow> rot_flash" where
  "read_word f w =
     rot_run f [RotReg REG_INT_CLR_STATUS 0xF, RotReg REG_STARTA (of_nat w), RotReg REG_CMD CMD_READ]"

lemma read_word_eq:
  assumes "w < NPAGES * 32"
  shows "read_word f w =
     (let g = f\<lparr>rf_status := rf_status f AND NOT 0xF, starta := of_nat w\<rparr> in
      if is_erased f (w div 32) then set_status g (ST_DONE OR ST_ECC)
      else set_status (g\<lparr>dataw := (\<lambda>k. if k < 4 then get32 (rf_mem f) (w * 16 + k * 4) else dataw f k)\<rparr>) ST_DONE)"
proof -
  have w: "unat (of_nat w :: u32) = w" using assms by (intro unat_of_nat32) (simp add: NPAGES_def)
  have d: "w * 16 div 512 = w div 32" by simp
  show ?thesis
    using assms by (simp add: read_word_def rot_reg_write_def do_cmd_def cmd_read_def Let_def w d cong: if_cong)
qed

section \<open>Properties\<close>

text \<open>
  C31: The page write of the flash driver works: erase, 32 row writes and a program leave
  the page holding exactly the 512 bytes of \<open>ws\<close> and marked programmed, every other page
  with its contents and erased mark, and reading any row of the page back through the
  command engine returns its four words without an ECC fault.
\<close>

theorem rot_page_update:
  fixes f :: rot_flash and ws :: "u32 list"
  assumes "p < NPAGES" and "length ws = 128"
  defines "f' \<equiv> rot_run f (page_update_ops p ws)"
  shows "slice (rf_mem f') (p * PAGE) PAGE = concat (map le_bytes32 ws) \<and> \<not> is_erased f' p \<and>
         (\<forall>q. q \<noteq> p \<longrightarrow> is_erased f' q = is_erased f q) \<and>
         (\<forall>j. j div PAGE \<noteq> p \<longrightarrow> rf_mem f' j = rf_mem f j) \<and>
         (\<forall>r k. r < 32 \<and> k < 4 \<longrightarrow> dataw (read_word f' (p * 32 + r)) k = ws ! (4 * r + k)) \<and>
         (\<forall>r. r < 32 \<longrightarrow> \<not> bit (rf_status (read_word f' (p * 32 + r))) 3) \<and>
         rf_panicked f' = rf_panicked f"
proof -
  let ?g = "rot_run (after_erase f p) (concat (map (row_ops ws) [0..<32]))"
  let ?bs = "concat (map le_bytes32 ws)"
  have len: "length ?bs = 512" using assms(2) by (simp add: length_concat comp_def sum_list_triv)
  have R: "page_buf ?g = blit (page_buf (after_erase f p)) 0 ?bs" "rf_mem ?g = rf_mem (after_erase f p)"
    "rf_erased ?g = rf_erased (after_erase f p)" "rf_panicked ?g = rf_panicked (after_erase f p)"
    using rows_write [of 32 "after_erase f p" ws] rows_concat [of 32 ws] assms(2) by auto
  have f': "f' = after_program ?g p" unfolding f'_def by (rule page_update_split)
  note E = after_erase_facts [OF assms(1), of f] and P = after_program_facts [OF assms(1), of ?g]
  have cell: "rf_mem f' (p * PAGE + i) = ?bs ! i" if "i < 512" for i
    unfolding f' P(1) R E(1) using that len by (simp add: and_page_def blit_def)
  have page: "slice (rf_mem f') (p * PAGE) PAGE = ?bs"
    using cell len by (intro nth_equalityI) simp_all
  have er: "is_erased f' q = (q \<noteq> p \<and> is_erased f q)" for q
    unfolding f' P(2) using E(2) [of q] is_erased_cong [OF R(3)] by auto
  have other: "rf_mem f' j = rf_mem f j" if "j div PAGE \<noteq> p" for j
    unfolding f' P(1) R E(1) using that in_page_iff [of p j] by (auto simp: and_page_def)
  have word: "get32 (rf_mem f') ((p * 32 + r) * 16 + k * 4) = ws ! (4 * r + k)" if "r < 32" "k < 4" for r k
  proof -
    define i where "i = 4 * r + k"
    have i: "i < 128" using that by (simp add: i_def)
    have at: "(p * 32 + r) * 16 + k * 4 = p * PAGE + 4 * i" by (simp add: i_def)
    have b: "?bs ! (4 * i + m) = le_bytes32 (ws ! i) ! m" if "m < 4" for m
      using concat_nth_uniform [where g = le_bytes32 and n = 4 and xs = ws and i = i and m = m] i assms(2) that by simp
    have c: "rf_mem f' (p * PAGE + (4 * i + m)) = le_bytes32 (ws ! i) ! m" if "m < 4" for m
      using cell [of "4 * i + m"] b [OF that] that i by simp
    show ?thesis
      unfolding at get32_def i_def [symmetric]
      using c [of 0] c [of 1] c [of 2] c [of 3]
      by (simp add: add.assoc le_bytes32_def byte_simps)
  qed
  have rd: "read_word f' (p * 32 + r) = set_status
      (f'\<lparr>rf_status := rf_status f' AND NOT 0xF, starta := of_nat (p * 32 + r),
         dataw := (\<lambda>k. if k < 4 then get32 (rf_mem f') ((p * 32 + r) * 16 + k * 4) else dataw f' k)\<rparr>) ST_DONE"
    if "r < 32" for r
    using read_word_eq [of "p * 32 + r" f'] assms(1) that er [of p] by (simp add: NPAGES_def Let_def)
  show ?thesis
    using page er other word P(3) R(4) E(3) unfolding f' [symmetric]
    by (auto simp: rd bit_simps bit_numeral_simps)
qed


theorem rot_page_update_witness:
  "dataw (read_word (rot_run (rot_blank (\<lambda>_ _. True) True) (page_update_ops 64 (replicate 128 5))) 2049) 3 = 5"
proof -
  have "dataw (read_word (rot_run (rot_blank (\<lambda>_ _. True) True) (page_update_ops 64 (replicate 128 5)))
      (64 * 32 + 1)) 3 = replicate 128 5 ! (4 * 1 + 3)"
    using rot_page_update [of 64 "replicate 128 5" "rot_blank (\<lambda>_ _. True) True"]
    unfolding NPAGES_def length_replicate by (meson less_numeral_extra(4) numeral_less_iff order_refl
        semiring_norm(75,76,78,81) one_less_numeral_iff)
  then show ?thesis by simp
qed

text \<open>
  The erased bitset never lies: from a blank part, whatever command, store or direct
  load happens, a page still marked erased holds nothing but 0xFF (so hashing or booting
  from it sees an unprogrammed page).
\<close>

theorem rot_erased_pages_are_blank:
  assumes "j < SIZE" and "is_erased (rot_run (rot_blank wok bok) ops) (j div PAGE)"
  shows "rf_mem (rot_run (rot_blank wok bok) ops) j = ROT_ERASED"
  using rot_wf_run [OF rot_wf_blank, of wok bok ops] assms by (simp add: rot_wf_def)

theorem rot_erased_pages_are_blank_witness:
  "rf_mem (rot_run (rot_blank (\<lambda>_ _. True) True) [RotStore 0x200 7 4, RotReg REG_STARTA 3]) 0x204 = ROT_ERASED"
  by (rule rot_erased_pages_are_blank)
    (simp_all add: SIZE_def rot_write_mem_def rot_reg_write_def is_erased_bit rot_blank_def bit_1_iff)

text \<open>
  BlankCheck answers the question bootleby asks of it: over the word range
  [STARTA, STOPA] it reports FAIL exactly when some word of the range inside the flash
  lies in a programmed page, and then DATAW0 is the first such word.
\<close>

theorem rot_blank_check:
  fixes f :: rot_flash and lo hi :: u32
  defines "g \<equiv> rot_run f [RotReg REG_INT_CLR_STATUS 0xF, RotReg REG_STARTA lo, RotReg REG_STOPA hi,
                        RotReg REG_CMD CMD_BLANK]"
  defines "hit \<equiv> \<lambda>v. unat lo \<le> v \<and> v \<le> unat hi \<and> v * WORD + WORD \<le> SIZE \<and> \<not> is_erased f (v div 32)"
  shows "bit (rf_status g) 2 \<and> (bit (rf_status g) 0 \<longleftrightarrow> (\<exists>v. hit v)) \<and>
         (bit (rf_status g) 0 \<longrightarrow> hit (unat (dataw g 0)) \<and> (\<forall>v. hit v \<longrightarrow> unat (dataw g 0) \<le> v))"
proof -
  define h where "h = f\<lparr>rf_status := rf_status f AND NOT 0xF, starta := lo, stopa := hi\<rparr>"
  have g: "g = cmd_blank h"
    by (simp add: g_def h_def rot_reg_write_def do_cmd_def)
  have ie: "is_erased h p = is_erased f p" for p by (simp add: h_def)
  have hl: "starta h = lo" "stopa h = hi" "\<not> bit (rf_status h) 0"
    by (simp_all add: h_def bit_simps bit_numeral_simps)
  have d: "v * 16 div 512 = v div 32" for v :: nat by simp
  show ?thesis
  proof (cases "blank_scan h (unat lo) (unat hi)")
    case None
    then have "\<not> hit v" for v unfolding blank_scan_None hit_def by (auto simp: ie)
    then show ?thesis using None
      by (simp add: g cmd_blank_def hl bit_simps bit_numeral_simps)
  next
    case (Some w)
    then have S: "hit w" "\<And>u. unat lo \<le> u \<Longrightarrow> u < w \<Longrightarrow> is_erased f (u div 32)"
      unfolding blank_scan_Some hit_def d ie by auto
    have "unat (of_nat w :: u32) = w"
      using S(1) by (intro unat_of_nat32) (simp add: hit_def SIZE_def)
    moreover have "w \<le> v" if "hit v" for v
      using that S(2) [of v] by (auto simp: hit_def intro: leI)
    ultimately show ?thesis using Some S(1)
      by (auto simp: g cmd_blank_def hl bit_simps bit_numeral_simps)
  qed
qed

theorem rot_blank_check_witness:
  "bit (rf_status (rot_run (set_erased (rot_blank (\<lambda>_ _. True) True) 1 False)
     [RotReg REG_INT_CLR_STATUS 0xF, RotReg REG_STARTA 0, RotReg REG_STOPA 100, RotReg REG_CMD CMD_BLANK])) 0"
  by (rule rot_blank_check [where f = "set_erased (rot_blank (\<lambda>_ _. True) True) 1 False" and lo = 0 and hi = 100,
        THEN conjunct2, THEN conjunct1, THEN iffD2])
    (rule exI [of _ 32], simp add: is_erased_bit set_erased_def rot_blank_def SIZE_def bit_simps)

text \<open>
  A misordered erase stops the emulator: with an open backing file, an EraseRange
  whose STARTA lies in a page past the one after STOPA's (or past the end of the flash)
  slices the array backwards in \<open>persist_pages\<close> and panics.
\<close>

theorem rot_erase_bad_range_panics:
  assumes "rf_file f \<noteq> None"
    and "min (unat (stopa f) div 32 + 1) NPAGES < unat (starta f) div 32"
  shows "rf_panicked (cmd_erase f)"
proof -
  define lo hi where "lo = unat (starta f) div 32" and "hi = unat (stopa f) div 32"
  have d: "v * 16 div 512 = v div 32" for v :: nat by simp
  have r: "[lo..<Suc (min hi (NPAGES - 1))] = []"
    using assms(2) by (auto simp: lo_def hi_def NPAGES_def min_def split: if_splits)
  have "min ((hi + 1) * PAGE) SIZE < lo * PAGE"
    using assms(2) by (auto simp: lo_def hi_def NPAGES_def SIZE_def min_def split: if_splits)
  then have "rf_panicked (persist_pages f lo hi)"
    using assms(1) by (auto simp: persist_pages_def Let_def)
  then show ?thesis
    unfolding cmd_erase_def Let_def d lo_def [symmetric] hi_def [symmetric] r by simp
qed

theorem rot_erase_bad_range_panics_witness:
  "rf_panicked (cmd_erase ((rot_blank (\<lambda>_ _. True) True)\<lparr>rf_file := Some (\<lambda>_. 0xFF), starta := 64, stopa := 0\<rparr>))"
  by (rule rot_erase_bad_range_panics) (simp_all add: rot_blank_def NPAGES_def)

end
