(* ===== verification/Text.thy ===== *)
theory Text
  imports Nv
begin

text \<open>
  Numbers as text, the way the Rust standard library prints and parses them: \<open>{}\<close>,
  \<open>{:02x}\<close> and \<open>{:#04x}\<close> formatting, \<open>from_str_radix\<close> and \<open>parse\<close> on unsigned
  integers, \<open>split_whitespace\<close> and \<open>split(c)\<close>. The lemmas are the print/parse round
  trips.
\<close>

section \<open>Digits\<close>

definition digit_char :: "nat \<Rightarrow> char" where
  "digit_char d = (if d < 10 then char_of (48 + d) else char_of (87 + d))"

definition digit_val :: "nat \<Rightarrow> char \<Rightarrow> nat option" where
  "digit_val radix c =
     (let n = of_char c :: nat;
          d = (if 48 \<le> n \<and> n \<le> 57 then n - 48
               else if 97 \<le> n \<and> n \<le> 122 then n - 87
               else if 65 \<le> n \<and> n \<le> 90 then n - 55
               else radix)
      in if d < radix then Some d else None)"

primrec digits_val :: "nat \<Rightarrow> nat \<Rightarrow> string \<Rightarrow> nat option" where
  "digits_val radix acc [] = Some acc"
| "digits_val radix acc (c # cs) =
     (case digit_val radix c of None \<Rightarrow> None | Some d \<Rightarrow> digits_val radix (acc * radix + d) cs)"

text \<open>
  \<open>uN::from_str_radix\<close>, the greatest value of the type a parameter: an optional plus
  sign, at least one digit, no overflow.
\<close>

definition parse_uint :: "nat \<Rightarrow> nat \<Rightarrow> string \<Rightarrow> nat option" where
  "parse_uint radix most s =
     (let t = (case s of [] \<Rightarrow> [] | c # cs \<Rightarrow> if c = CHR ''+'' then cs else s) in
      if t = [] then None
      else case digits_val radix 0 t of
        None \<Rightarrow> None
      | Some n \<Rightarrow> if n \<le> most then Some n else None)"

fun print_uint :: "nat \<Rightarrow> nat \<Rightarrow> string" where
  "print_uint radix n =
     (if n < radix \<or> radix < 2 then [digit_char n]
      else print_uint radix (n div radix) @ [digit_char (n mod radix)])"

declare print_uint.simps [simp del]

abbreviation dec :: "nat \<Rightarrow> string" where
  "dec n \<equiv> print_uint 10 n"

definition hex_02 :: "nat \<Rightarrow> string" where
  "hex_02 n = (if n < 16 then CHR ''0'' # print_uint 16 n else print_uint 16 n)"

definition hex_0x04 :: "nat \<Rightarrow> string" where
  "hex_0x04 n = ''0x'' @ hex_02 n"

section \<open>Splitting\<close>

function split_ws :: "string \<Rightarrow> string list" where
  "split_ws s =
     (case dropWhile is_ws s of
        [] \<Rightarrow> []
      | c # cs \<Rightarrow> takeWhile (\<lambda>c. \<not> is_ws c) (c # cs) # split_ws (dropWhile (\<lambda>c. \<not> is_ws c) (c # cs)))"
  by pat_completeness auto
termination
proof (relation "measure length")
  fix s c cs
  assume a: "dropWhile is_ws s = c # cs"
  then have "\<not> is_ws c" by (metis hd_dropWhile list.sel(1) list.simps(3))
  then have "length (dropWhile (\<lambda>c. \<not> is_ws c) (c # cs)) \<le> length cs"
    using length_dropWhile_le [of _ cs] by simp
  also have "\<dots> < length s" using a length_dropWhile_le [of is_ws s] by simp
  finally show "(dropWhile (\<lambda>c. \<not> is_ws c) (c # cs), s) \<in> measure length" by simp
qed simp

declare split_ws.simps [simp del]

function split_char :: "char \<Rightarrow> string \<Rightarrow> string list" where
  "split_char d s =
     (case dropWhile (\<lambda>c. c \<noteq> d) s of
        [] \<Rightarrow> [s]
      | _ # rest \<Rightarrow> takeWhile (\<lambda>c. c \<noteq> d) s # split_char d rest)"
  by pat_completeness auto
termination
proof (relation "measure (\<lambda>(d, s). length s)")
  fix d s x rest
  assume "dropWhile (\<lambda>c. c \<noteq> d) s = x # rest"
  then show "((d, rest), d, s) \<in> measure (\<lambda>(d, s). length s)"
    using length_dropWhile_le [of "\<lambda>c. c \<noteq> d" s] by simp
qed simp

declare split_char.simps [simp del]

definition strip_prefix :: "string \<Rightarrow> string \<Rightarrow> string option" where
  "strip_prefix p s = (if take (length p) s = p then Some (drop (length p) s) else None)"

text \<open>\<open>trim_start_matches("0x")\<close> removes every leading repetition.\<close>

fun trim_0x :: "string \<Rightarrow> string" where
  "trim_0x (a # b # s) = (if a = CHR ''0'' \<and> b = CHR ''x'' then trim_0x s else a # b # s)"
| "trim_0x s = s"

section \<open>Round trips\<close>

lemma of_char_of [simp]: "n < 256 \<Longrightarrow> (of_char (char_of n) :: nat) = n"
  by simp

lemma digit_val_char [simp]: "d < radix \<Longrightarrow> radix \<le> 36 \<Longrightarrow> digit_val radix (digit_char d) = Some d"
  by (auto simp: digit_val_def digit_char_def Let_def)

lemma digits_val_append [simp]:
  "digits_val radix acc (xs @ ys) =
     (case digits_val radix acc xs of None \<Rightarrow> None | Some a \<Rightarrow> digits_val radix a ys)"
  by (induction xs arbitrary: acc) (auto split: option.split)

lemma digits_val_print:
  assumes "2 \<le> radix" and "radix \<le> 36"
  shows "digits_val radix 0 (print_uint radix n) = Some n"
  using assms
proof (induction radix n rule: print_uint.induct)
  case (1 radix n)
  show ?case
  proof (cases "n < radix")
    case True
    with 1 show ?thesis by (simp add: print_uint.simps)
  next
    case False
    with 1 have "digits_val radix 0 (print_uint radix (n div radix)) = Some (n div radix)" by simp
    with 1 False show ?thesis by (subst print_uint.simps) simp
  qed
qed

lemma print_uint_digits:
  assumes "2 \<le> radix"
  shows "print_uint radix n \<noteq> [] \<and> (\<forall>c \<in> set (print_uint radix n). \<exists>d < radix. c = digit_char d)"
  using assms
proof (induction radix n rule: print_uint.induct)
  case (1 radix n)
  show ?case
  proof (cases "n < radix")
    case True
    with 1 show ?thesis by (subst (1 2) print_uint.simps) auto
  next
    case False
    have "\<exists>d<radix. digit_char (n mod radix) = digit_char d"
      using 1(2) by (intro exI [of _ "n mod radix"]) simp
    with False show ?thesis using 1 by (subst (1 2) print_uint.simps) auto
  qed
qed

lemma digit_char_plain:
  assumes "d < 16"
  shows "digit_char d \<noteq> CHR ''+'' \<and> \<not> is_ws (digit_char d) \<and> digit_char d \<noteq> CHR ''x'' \<and>
    digit_char d \<noteq> CHR ''-''"
proof -
  have "(of_char (digit_char d) :: nat) = (if d < 10 then 48 + d else 87 + d)"
    using assms by (simp add: digit_char_def)
  then show ?thesis using assms by (auto simp: is_ws_def split: if_splits)
qed

text \<open>Printed numbers contain no sign, no white space and no radix mark.\<close>

definition plain_char :: "char \<Rightarrow> bool" where
  "plain_char c = (c \<noteq> CHR ''+'' \<and> \<not> is_ws c \<and> c \<noteq> CHR ''x'' \<and> c \<noteq> CHR ''-'')"

definition plain :: "string \<Rightarrow> bool" where
  "plain s = (s \<noteq> [] \<and> (\<forall>c \<in> set s. plain_char c))"

lemma plain_print: "2 \<le> radix \<Longrightarrow> radix \<le> 16 \<Longrightarrow> plain (print_uint radix n)"
proof -
  assume r: "2 \<le> radix" "radix \<le> 16"
  have "plain_char c" if "c \<in> set (print_uint radix n)" for c
    using that r print_uint_digits [OF r(1), of n] digit_char_plain less_le_trans
    unfolding plain_char_def by metis
  then show "plain (print_uint radix n)" using print_uint_digits [OF r(1), of n] by (simp add: plain_def)
qed

lemma plain_hex_02: "plain (hex_02 n)"
  using plain_print [of 16 n] by (auto simp: hex_02_def plain_def plain_char_def is_ws_def)

lemma parse_plain:
  "plain s \<Longrightarrow> digits_val radix 0 s = Some n \<Longrightarrow> n \<le> most \<Longrightarrow> parse_uint radix most s = Some n"
  by (cases s) (auto simp: parse_uint_def plain_def plain_char_def)

lemma parse_dec: "n \<le> most \<Longrightarrow> parse_uint 10 most (dec n) = Some n"
  by (rule parse_plain) (simp_all add: plain_print digits_val_print)

lemma digits_val_0: "2 \<le> radix \<Longrightarrow> digits_val radix 0 (CHR ''0'' # s) = digits_val radix 0 s"
  by (simp add: digit_val_def)

lemma parse_hex_02: "n \<le> most \<Longrightarrow> parse_uint 16 most (hex_02 n) = Some n"
  by (rule parse_plain [OF plain_hex_02])
    (simp_all add: digits_val_print hex_02_def digits_val_0 del: digits_val.simps)

lemma split_ws_token:
  assumes "t \<noteq> []" and "\<forall>c \<in> set t. \<not> is_ws c"
  shows "split_ws (t @ CHR '' '' # s) = t # split_ws s" and "split_ws t = [t]"
proof -
  have sp: "is_ws (CHR '' '')" by (simp add: is_ws_def)
  obtain c cs where t: "t = c # cs" "\<not> is_ws c" using assms by (cases t) auto
  have "split_ws (CHR '' '' # s) = split_ws s"
    by (subst (1 2) split_ws.simps) (simp add: sp)
  then show "split_ws (t @ CHR '' '' # s) = t # split_ws s"
    using assms t sp by (subst split_ws.simps) (simp add: takeWhile_tail dropWhile_append3 dropWhile_append)
  have d: "dropWhile (\<lambda>c. \<not> is_ws c) cs = []" "takeWhile (\<lambda>c. \<not> is_ws c) cs = cs"
    using assms t by (auto simp: dropWhile_eq_Nil_conv takeWhile_eq_all_conv)
  have "split_ws [] = []" by (subst split_ws.simps) simp
  then show "split_ws t = [t]"
    by (subst split_ws.simps) (simp add: t d)
qed

end
