(* ===== verification/Vpd.thy ===== *)
theory Vpd
  imports Devices Text
begin

text \<open>
  The board's vital product data (\<open>src/soc.rs\<close>): the CRC-32C and TLV-C writer, the VPD
  image behind the I2C EEPROM, and \<open>src/lpc55.rs\<close>'s synthetic bootloader image, which
  carries a caboose in the same format. A Rust \<open>String\<close> is its UTF-8 bytes.
\<close>

unbundle bit_operations_syntax

section \<open>CRC-32C\<close>

definition crc_bit :: "u32 \<Rightarrow> u32" where
  "crc_bit c = (if c AND 1 \<noteq> 0 then drop_bit 1 c XOR 0x82F63B78 else drop_bit 1 c)"

definition crc_byte :: "u32 \<Rightarrow> u8 \<Rightarrow> u32" where
  "crc_byte c b = (crc_bit ^^ 8) (c XOR ucast b)"

definition crc32c :: "u8 list \<Rightarrow> u32" where
  "crc32c bs = NOT (foldl crc_byte 0xFFFFFFFF bs)"

section \<open>TLV-C chunks\<close>

abbreviation (input) HEADER_MAGIC :: u32 where "HEADER_MAGIC \<equiv> 0x6b329f69"

definition tlvc_header_checksum :: "u8 list \<Rightarrow> u32 \<Rightarrow> u32" where
  "tlvc_header_checksum tag len =
     NOT (le32 (tag ! 0) (tag ! 1) (tag ! 2) (tag ! 3) * HEADER_MAGIC + len)"

definition pad4 :: "u8 list \<Rightarrow> u8 list" where
  "pad4 v = v @ replicate ((4 - length v mod 4) mod 4) 0"

definition tlvc_chunk :: "u8 list \<Rightarrow> u8 list \<Rightarrow> u8 list" where
  "tlvc_chunk tag body =
     (let len = of_nat (length body) in
      pad4 (tag @ le_bytes32 len @ le_bytes32 (tlvc_header_checksum tag len) @ body) @
      le_bytes32 (crc32c body))"

definition ascii :: "string \<Rightarrow> u8 list" where
  "ascii s = map of_char s"

section \<open>The VPD image\<close>

definition vpd_ascii_field :: "string \<Rightarrow> nat \<Rightarrow> string" where
  "vpd_ascii_field val most =
     take most (filter (\<lambda>c. 32 \<le> (of_char c :: nat) \<and> (of_char c :: nat) \<le> 126 \<and> c \<noteq> CHR '':'') val)"

text \<open>The settings the image depends on: board, instance index, and the field overrides.\<close>

record vpd_config =
  vc_sidecar :: bool
  vc_index :: u8
  vc_serial :: "string option"
  vc_part :: "string option"
  vc_rev :: "string option"

definition vpd_serial :: "vpd_config \<Rightarrow> string" where
  "vpd_serial k = vpd_ascii_field
     (case vc_serial k of Some s \<Rightarrow> s
      | None \<Rightarrow> if vc_sidecar k then ''BRM42220001'' else ''BRM4422000'' @ dec (unat (vc_index k))) 11"

definition vpd_part :: "vpd_config \<Rightarrow> string" where
  "vpd_part k = vpd_ascii_field
     (case vc_part k of Some s \<Rightarrow> s
      | None \<Rightarrow> if vc_sidecar k then ''SIDECAR-C'' else ''913-0000019'') 11"

definition vpd_rev :: "vpd_config \<Rightarrow> string" where
  "vpd_rev k = vpd_ascii_field (case vc_rev k of Some s \<Rightarrow> s | None \<Rightarrow> ''002'') 11"

definition vpd_barcode :: "vpd_config \<Rightarrow> string" where
  "vpd_barcode k = ''0XV2:'' @ vpd_part k @ '':'' @ vpd_rev k @ '':'' @ vpd_serial k"

definition vpd_mac0 :: "vpd_config \<Rightarrow> u8 list" where
  "vpd_mac0 k =
     [0x0e, 0x1d, 0xb7, 0xfe, 0x45, if vc_sidecar k then 0x30 else 0x20 + vc_index k] @
     le_bytes16 128 @ [1]"

definition vpd_root :: "vpd_config \<Rightarrow> u8 list" where
  "vpd_root k =
     tlvc_chunk (ascii ''FRU0'')
       (tlvc_chunk (ascii ''MAC0'') (vpd_mac0 k) @ tlvc_chunk (ascii ''BARC'') (ascii (vpd_barcode k)))"

definition build_vpd_eeprom :: "vpd_config \<Rightarrow> u8 list" where
  "build_vpd_eeprom k = vpd_root k @ replicate (1024 - length (vpd_root k)) 0xFF"

section \<open>The synthetic bootloader image of the RoT\<close>

definition stage0_caboose :: "u8 list" where
  "stage0_caboose =
     tlvc_chunk (ascii ''BORD'') (ascii ''oxide-rot-1'') @
     tlvc_chunk (ascii ''NAME'') (ascii ''bootleby'') @
     tlvc_chunk (ascii ''GITC'') (ascii ''0000000000000000000000000000000000000000'') @
     tlvc_chunk (ascii ''VERS'') (ascii ''0.0.0-sp-emu'') @
     tlvc_chunk (ascii ''SIGN'')
       (ascii ''11594bb5548a757e918e6fe056e2ad9e084297c9555417a025d8788eacf55daf'')"

definition splice :: "u8 list \<Rightarrow> nat \<Rightarrow> u8 list \<Rightarrow> u8 list" where
  "splice buf off bs = take off buf @ bs @ drop (off + length bs) buf"

definition synthetic_stage0 :: "u8 list" where
  "synthetic_stage0 =
     (let tlvc = stage0_caboose;
          caboose_size = 4 + length tlvc + 4;
          caboose_start = 0x0800 - caboose_size;
          b0 = replicate 0x0800 0xFF;
          b1 = splice b0 0x130 (le_bytes32 0x64CED6CA);
          b2 = splice b1 0x134 (le_bytes32 0x0800);
          b3 = splice b2 caboose_start (le_bytes32 0xCAB0005E);
          b4 = splice b3 (caboose_start + 4) tlvc
      in splice b4 (0x0800 - 4) (le_bytes32 (of_nat caboose_size)))"

section \<open>The CRC detects every change confined to four bytes\<close>

text \<open>The bit step is linear and invertible, so bytes fold in as one word.\<close>

lemma bit_crc_bit:
  "bit (crc_bit c) n \<longleftrightarrow> bit c (Suc n) \<noteq> (bit c 0 \<and> bit (0x82F63B78 :: u32) n)"
  using and_push_bit_1_iff [of c 0]
  by (cases "bit c 0") (auto simp: crc_bit_def bit_xor_iff bit_drop_bit_eq simp del: bit_0 dest: bit_imp_le_length)

lemma crc_bit_xor: "crc_bit (a XOR b) = crc_bit a XOR crc_bit b"
  by (rule bit_word_eqI, unfold bit_crc_bit bit_xor_iff) blast

lemma crc_bit_top: "bit (crc_bit c) 31 \<longleftrightarrow> bit c 0"
proof -
  have "\<not> bit c 32" by (auto dest: bit_imp_le_length)
  moreover have "bit (0x82F63B78 :: u32) 31" by simp
  ultimately show ?thesis unfolding bit_crc_bit by (simp del: bit_0)
qed

lemma crc_bit_eq_0:
  assumes "crc_bit c = 0"
  shows "c = 0"
proof (rule bit_word_eqI)
  fix n
  have z: "\<not> bit (crc_bit c) m" for m using assms by simp
  have b: "\<not> bit c 0" using z [of 31] unfolding crc_bit_top .
  have "\<not> bit c (Suc m)" for m using z [of m] b unfolding bit_crc_bit by blast
  with b show "bit c n = bit 0 n" by (cases n) (simp_all del: bit_0)
qed

lemma crc_bits_xor: "(crc_bit ^^ n) (a XOR b) = (crc_bit ^^ n) a XOR (crc_bit ^^ n) b"
  by (induction n) (simp_all add: crc_bit_xor)

lemma crc_bits_eq_0: "(crc_bit ^^ n) c = 0 \<Longrightarrow> c = 0"
  by (induction n) (auto dest: crc_bit_eq_0)

lemma crc_bits_inj: "(crc_bit ^^ n) a = (crc_bit ^^ n) b \<Longrightarrow> a = b"
proof -
  assume "(crc_bit ^^ n) a = (crc_bit ^^ n) b"
  then have "(crc_bit ^^ n) (a XOR b) = 0" by (simp add: crc_bits_xor)
  then have "a XOR b = 0" by (rule crc_bits_eq_0)
  then have "\<not> bit (a XOR b) n" for n by simp
  then show "a = b" by (intro bit_word_eqI) (auto simp: bit_xor_iff)
qed

lemma crc_bit_shift:
  assumes "\<not> bit v 31"
  shows "crc_bit (push_bit 1 v) = v"
proof (rule bit_word_eqI)
  fix n assume "n < LENGTH(32)"
  then have "n < 31 \<or> n = 31" by auto
  then have m: "bit (push_bit 1 v) (Suc n) = bit v n"
    using assms unfolding bit_push_bit_iff by auto
  have "\<not> bit (push_bit 1 v) 0" unfolding bit_push_bit_iff by simp
  with m show "bit (crc_bit (push_bit 1 v)) n = bit v n" unfolding bit_crc_bit by blast
qed

text \<open>Bytes that fit the word above position \<open>8 * n\<close> wait there until they are folded in.\<close>

lemma crc_bits_shift:
  assumes "\<forall>i. bit v i \<longrightarrow> i + n < 32"
  shows "(crc_bit ^^ n) (push_bit n v) = v"
  using assms
proof (induction n arbitrary: v)
  case (Suc n)
  have "(crc_bit ^^ Suc n) (push_bit (Suc n) v) = crc_bit ((crc_bit ^^ n) (push_bit n (push_bit 1 v)))"
    by (simp add: push_bit_push_bit)
  also have "(crc_bit ^^ n) (push_bit n (push_bit 1 v)) = push_bit 1 v"
  proof (rule Suc.IH, intro allI impI)
    fix i assume "bit (push_bit 1 v) i"
    then have "1 \<le> i" "bit v (i - 1)" unfolding bit_push_bit_iff by auto
    then show "i + n < 32" using Suc.prems by fastforce
  qed
  also have "crc_bit (push_bit 1 v) = v"
    by (rule crc_bit_shift) (use Suc.prems in fastforce)
  finally show ?case .
qed simp

primrec le_word :: "u8 list \<Rightarrow> u32" where
  "le_word [] = 0"
| "le_word (b # bs) = ucast b OR push_bit 8 (le_word bs)"

lemma bit_le_word: "bit (le_word bs) i \<Longrightarrow> i < 8 * length bs"
  by (induction bs arbitrary: i) (force simp: bit_or_iff bit_unsigned_iff bit_push_bit_iff dest: bit_imp_le_length)+

lemma xor_or_disjoint: "(ucast (b :: u8) :: u32) OR push_bit 8 v = ucast b XOR push_bit 8 v"
  by (rule bit_word_eqI) (auto simp: bit_simps dest: bit_imp_le_length)

lemma crc_folds_word:
  assumes "length bs \<le> 4"
  shows "foldl crc_byte c bs = (crc_bit ^^ (8 * length bs)) (c XOR le_word bs)"
  using assms
proof (induction bs arbitrary: c)
  case (Cons b bs)
  have s: "(crc_bit ^^ 8) (push_bit 8 (le_word bs)) = le_word bs"
    using Cons.prems by (intro crc_bits_shift) (fastforce dest: bit_le_word)
  have "foldl crc_byte c (b # bs) = (crc_bit ^^ (8 * length bs)) ((crc_bit ^^ 8) (c XOR ucast b) XOR le_word bs)"
    using Cons by (simp add: crc_byte_def [of c b])
  also have "(crc_bit ^^ 8) (c XOR ucast b) XOR le_word bs =
      (crc_bit ^^ 8) ((c XOR ucast b) XOR push_bit 8 (le_word bs))"
    by (simp only: crc_bits_xor s)
  also have "(crc_bit ^^ (8 * length bs)) \<dots> =
      (crc_bit ^^ (8 * length (b # bs))) (c XOR le_word (b # bs))"
    by (simp only: funpow_add [THEN fun_cong, symmetric, unfolded comp_def] list.size le_word.simps xor_or_disjoint
        xor.assoc) (simp add: algebra_simps)
  finally show ?case .
qed simp

lemma le_word_inj: "length xs = length ys \<Longrightarrow> length xs \<le> 4 \<Longrightarrow> le_word xs = le_word ys \<Longrightarrow> xs = ys"
proof (induction xs ys rule: list_induct2)
  case (Cons x xs y ys)
  have b: "bit x n = bit y n" if "n < 8" for n
  proof -
    have "bit (le_word (x # xs)) n = bit (le_word (y # ys)) n" using Cons by simp
    then show ?thesis using that by (simp add: bit_or_iff bit_unsigned_iff bit_push_bit_iff)
  qed
  have t: "bit (le_word xs) n = bit (le_word ys) n" if "n < 24" for n
  proof -
    have "bit (le_word (x # xs)) (8 + n) = bit (le_word (y # ys)) (8 + n)" using Cons by simp
    then show ?thesis using that by (auto simp: bit_or_iff bit_unsigned_iff bit_push_bit_iff dest: bit_imp_le_length)
  qed
  have "le_word xs = le_word ys"
  proof (rule bit_word_eqI)
    fix n
    show "bit (le_word xs) n = bit (le_word ys) n"
      using t [of n] bit_le_word [of xs n] bit_le_word [of ys n] Cons by auto
  qed
  moreover have "x = y" by (rule bit_word_eqI) (use b in simp)
  ultimately show ?case using Cons by simp
qed simp

lemma crc_fold_inj: "foldl crc_byte a bs = foldl crc_byte b bs \<Longrightarrow> a = b"
proof (induction bs arbitrary: a b)
  case (Cons x bs)
  then have "crc_byte a x = crc_byte b x" by simp
  then have "a XOR ucast x = b XOR ucast x" unfolding crc_byte_def by (rule crc_bits_inj)
  then have "(a XOR ucast x) XOR ucast x = (b XOR ucast x) XOR ucast x" by simp
  then show ?case by (simp add: xor.assoc)
qed simp

text \<open>
  C36: The TLV-C body checksum detects every corruption confined to four consecutive bytes:
  two bodies that agree outside such a window and differ inside it have different CRCs.
\<close>

theorem crc_detects_burst:
  assumes "length xs = length ys" and "length xs \<le> 4" and "xs \<noteq> ys"
  shows "crc32c (p @ xs @ s) \<noteq> crc32c (p @ ys @ s)"
proof
  assume "crc32c (p @ xs @ s) = crc32c (p @ ys @ s)"
  then have "foldl crc_byte 0xFFFFFFFF (p @ xs @ s) = foldl crc_byte 0xFFFFFFFF (p @ ys @ s)"
    unfolding crc32c_def by (metis bit.double_compl)
  then have "foldl crc_byte (foldl crc_byte 0xFFFFFFFF p) xs = foldl crc_byte (foldl crc_byte 0xFFFFFFFF p) ys"
    by (auto dest: crc_fold_inj)
  then have "foldl crc_byte 0xFFFFFFFF p XOR le_word xs = foldl crc_byte 0xFFFFFFFF p XOR le_word ys"
    using assms(1,2) crc_folds_word [of xs] crc_folds_word [of ys] by (auto dest: crc_bits_inj)
  then have "bit (le_word xs) n = bit (le_word ys) n" for n
    by (metis bit_xor_iff)
  then have "le_word xs = le_word ys" by (intro bit_word_eqI) simp
  with assms show False using le_word_inj by blast
qed

lemma crc_detects_burst_witness:
  "crc32c ([1, 2] @ [3, 4] @ [5]) \<noteq> crc32c ([1, 2] @ [3, 6] @ [5])"
  by (rule crc_detects_burst) simp_all

section \<open>The images fit\<close>

lemma length_pad4: "length (pad4 v) = 4 * ((length v + 3) div 4)"
proof -
  have "n + (4 - n mod 4) mod 4 = 4 * ((n + 3) div 4)" for n :: nat
  proof -
    have "n mod 4 = 0 \<or> n mod 4 = 1 \<or> n mod 4 = 2 \<or> n mod 4 = 3" by linarith
    then show ?thesis by (elim disjE) (simp_all, presburger+)
  qed
  then show ?thesis by (simp add: pad4_def)
qed

lemma length_tlvc_chunk:
  assumes "length tag = 4"
  shows "length (tlvc_chunk tag body) = 16 + 4 * ((length body + 3) div 4)"
proof -
  have "4 * ((12 + n + 3) div 4) = 12 + 4 * ((n + 3) div 4)" for n :: nat by presburger
  from this [of "length body"] show ?thesis using assms by (simp add: tlvc_chunk_def length_pad4 Let_def)
qed

lemma length_ascii [simp]: "length (ascii s) = length s"
  by (simp add: ascii_def)

lemma length_field: "length (vpd_ascii_field v n) \<le> n"
  by (simp add: vpd_ascii_field_def)

text \<open>The copy into the 1024-byte EEPROM never panics, whatever the field overrides are.\<close>

lemma vpd_root_fits: "length (vpd_root k) \<le> 1024" "length (build_vpd_eeprom k) = 1024"
proof -
  have "length (vpd_barcode k) \<le> 40"
  proof -
    have "length (vpd_part k) \<le> 11" "length (vpd_rev k) \<le> 11" "length (vpd_serial k) \<le> 11"
      unfolding vpd_part_def vpd_rev_def vpd_serial_def by (rule length_field)+
    then show ?thesis by (simp add: vpd_barcode_def)
  qed
  then have "length (tlvc_chunk (ascii ''BARC'') (ascii (vpd_barcode k))) \<le> 56"
    by (simp add: length_tlvc_chunk)
  moreover have "length (tlvc_chunk (ascii ''MAC0'') (vpd_mac0 k)) = 28"
    by (simp add: length_tlvc_chunk vpd_mac0_def)
  ultimately show "length (vpd_root k) \<le> 1024" by (simp add: vpd_root_def length_tlvc_chunk)
  then show "length (build_vpd_eeprom k) = 1024" by (simp add: build_vpd_eeprom_def)
qed

end
