(* ===== verification/RotSeed.thy ===== *)
theory RotSeed
  imports RotFlash Vpd
begin

text \<open>
  How the RoT's flash comes to be (\<open>src/rot_flash.rs\<close>): a fresh part is seeded with its images
  and the protected-flash pages, a part with backing files is loaded from them; the boot
  preference of the active CFPA page. The page layouts of the \<open>lpc55_areas\<close> crate, SHA-256 and
  the captured NMPA pages are the fields of \<open>pfr_env\<close>; the overrides and files are arguments,
  where \<open>Some None\<close> is a file that cannot be read. A packed page has exactly 512 bytes, so the
  \<open>expect\<close> of \<open>to_page\<close> does not fail (\<open>pfr_sized\<close>). Logging is left out.
\<close>

unbundle bit_operations_syntax

abbreviation (input) NMPA :: nat where "NMPA \<equiv> 0x9EC00"
abbreviation (input) NMPA_PAGES :: nat where "NMPA_PAGES \<equiv> 10"
abbreviation (input) NMPA_UUID :: nat where "NMPA_UUID \<equiv> 0x9FC70"
abbreviation (input) SLOT_A :: nat where "SLOT_A \<equiv> 0x10000"
abbreviation (input) SLOT_B :: nat where "SLOT_B \<equiv> 0x50000"
abbreviation (input) STAGE0_BASE :: nat where "STAGE0_BASE \<equiv> 0"
abbreviation (input) STAGE0NEXT_BASE :: nat where "STAGE0NEXT_BASE \<equiv> 0x2000"
abbreviation (input) CFPA_HASH_OFF :: nat where "CFPA_HASH_OFF \<equiv> 0x1E0"
abbreviation (input) DCFG_CC_SOCU :: u32 where "DCFG_CC_SOCU \<equiv> 0xfd0002ff"

section \<open>The pages of the protected region\<close>

text \<open>
  \<open>pack_cmpa boot_cfg cc_socu_pin cc_socu_dflt secure_boot_cfg rotkh\<close> and
  \<open>pack_cfpa version rkth_revoke ns_pin ns_dflt customer_defined0\<close> pack a page whose other
  fields have their defaults; \<open>cfpa_version\<close> and \<open>cfpa_customer0\<close> are fields of the parsed
  page, zero when it does not parse.
\<close>

record pfr_env =
  pack_cmpa :: "u32 \<Rightarrow> u32 \<Rightarrow> u32 \<Rightarrow> u32 \<Rightarrow> u8 list \<Rightarrow> u8 list"
  pack_cfpa :: "u32 \<Rightarrow> u32 \<Rightarrow> u32 \<Rightarrow> u32 \<Rightarrow> u32 \<Rightarrow> u8 list"
  cfpa_version :: "u8 list \<Rightarrow> u32"
  cfpa_customer0 :: "u8 list \<Rightarrow> u32"
  nmpa_page :: "nat \<Rightarrow> u8 list"
  pfr_sha256 :: "u8 list \<Rightarrow> u8 list"

definition RKTH_BART :: "u8 list" where
  "RKTH_BART =
     [0x84, 0x33, 0x2e, 0xf8, 0x27, 0x9d, 0xf8, 0x7f, 0xbb, 0x75, 0x9d, 0xc3,
      0x86, 0x6c, 0xbc, 0x50, 0xcd, 0x24, 0x6f, 0xbb, 0x5a, 0x64, 0x70, 0x5a,
      0x7e, 0x60, 0xba, 0x86, 0xbf, 0x01, 0xc2, 0x7d]"

definition seed_cmpa :: "pfr_env \<Rightarrow> u8 list" where
  "seed_cmpa P = pack_cmpa P 0x78000080 DCFG_CC_SOCU DCFG_CC_SOCU 0xc0000004 RKTH_BART"

definition seed_cfpa :: "pfr_env \<Rightarrow> bool \<Rightarrow> u8 list" where
  "seed_cfpa P pref_b =
     (let page = pack_cfpa P 0 1 DCFG_CC_SOCU DCFG_CC_SOCU (if pref_b then 1 else 0)
      in take CFPA_HASH_OFF page @ pfr_sha256 P (take CFPA_HASH_OFF page))"

datatype seed_error = Unreadable | Wrong_Size nat

definition load_page_override :: "u8 list option option \<Rightarrow> seed_error + u8 list option" where
  "load_page_override file =
     (case file of
        None \<Rightarrow> Inr None
      | Some None \<Rightarrow> Inl Unreadable
      | Some (Some bs) \<Rightarrow> if length bs = PAGE then Inr (Some bs) else Inl (Wrong_Size (length bs)))"

section \<open>Seeding\<close>

record seed_cfg =
  sc_fresh :: bool
  sc_erase_a :: bool
  sc_image_b :: "u8 list option option"
  sc_cmpa :: "u8 list option option"
  sc_cfpa :: "u8 list option option"
  sc_pref_b :: bool
  sc_nmpa :: "u8 list option option"
  sc_uuid :: "u8 list"

definition seed_cfg_default :: "u8 list \<Rightarrow> seed_cfg" where
  "seed_cfg_default uuid =
     \<lparr>sc_fresh = False, sc_erase_a = False, sc_image_b = None, sc_cmpa = None, sc_cfpa = None,
      sc_pref_b = False, sc_nmpa = None, sc_uuid = uuid\<rparr>"

definition seed_slots :: "seed_cfg \<Rightarrow> u8 list \<Rightarrow> rot_flash \<Rightarrow> seed_error + rot_flash" where
  "seed_slots K img f =
     (let f1 = (if sc_erase_a K then f else write_pages f SLOT_A img) in
      case sc_image_b K of
        None \<Rightarrow> Inr f1 | Some None \<Rightarrow> Inl Unreadable | Some (Some b) \<Rightarrow> Inr (write_pages f1 SLOT_B b))"

definition seed_pfr :: "pfr_env \<Rightarrow> seed_cfg \<Rightarrow> rot_flash \<Rightarrow> seed_error + rot_flash" where
  "seed_pfr P K f =
     (case load_page_override (sc_cmpa K) of
        Inl e \<Rightarrow> Inl e
      | Inr cm \<Rightarrow>
          (case load_page_override (sc_cfpa K) of
             Inl e \<Rightarrow> Inl e
           | Inr cf \<Rightarrow>
               let f1 = write_pages f CMPA (case cm of Some p \<Rightarrow> p | None \<Rightarrow> seed_cmpa P);
                   f2 = write_pages f1 CFPA_PING (case cf of Some p \<Rightarrow> p | None \<Rightarrow> seed_cfpa P (sc_pref_b K))
               in Inr (write_pages f2 CFPA_PONG (replicate PAGE 0))))"

definition seed_nmpa :: "pfr_env \<Rightarrow> seed_cfg \<Rightarrow> rot_flash \<Rightarrow> seed_error + rot_flash" where
  "seed_nmpa P K f =
     (case sc_nmpa K of
        Some None \<Rightarrow> Inl Unreadable
      | Some (Some blob) \<Rightarrow> Inr (write_pages f NMPA (take (NMPA_PAGES * PAGE) blob))
      | None \<Rightarrow>
          (let f1 = foldl (\<lambda>f i. write_pages f (NMPA + i * PAGE) (nmpa_page P i)) f [0, 1, 8, 9] in
           Inr (set_erased (f1\<lparr>rf_mem := blit (rf_mem f1) NMPA_UUID (sc_uuid K)\<rparr>) (NMPA_UUID div PAGE) False)))"

definition seed_fresh :: "pfr_env \<Rightarrow> seed_cfg \<Rightarrow> u8 list \<Rightarrow> rot_flash \<Rightarrow> seed_error + rot_flash" where
  "seed_fresh P K img f =
     (case seed_slots K img f of
        Inl e \<Rightarrow> Inl e
      | Inr f1 \<Rightarrow>
          (case seed_pfr P K f1 of
             Inl e \<Rightarrow> Inl e
           | Inr f2 \<Rightarrow>
               (case seed_nmpa P K f2 of
                  Inl e \<Rightarrow> Inl e
                | Inr f3 \<Rightarrow>
                    Inr (write_pages (write_pages f3 STAGE0_BASE synthetic_stage0) STAGE0NEXT_BASE synthetic_stage0))))"

section \<open>Construction\<close>

definition file_bytes :: "u8 list \<Rightarrow> bytes" where
  "file_bytes d = blit (\<lambda>_. 0) 0 d"

text \<open>A persisted part: the memory file and the erased bitset that has to be beside it.\<close>

definition load_persisted :: "u8 list option \<Rightarrow> u8 list option \<Rightarrow> rot_flash \<Rightarrow> seed_error + rot_flash" where
  "load_persisted data bits f =
     (case data of
        None \<Rightarrow> Inl Unreadable
      | Some d \<Rightarrow>
          (case bits of
             None \<Rightarrow> Inl Unreadable
           | Some e \<Rightarrow>
               Inr (f\<lparr>rf_mem := blit (rf_mem f) 0 (take SIZE d),
                      rf_erased := blit (rf_erased f) 0 (take (NPAGES div 8) e)\<rparr>)))"

text \<open>
  \<open>RotFlash::new\<close>: \<open>file\<close> and \<open>bits\<close> are the files found at its path, \<open>opens\<close> whether the
  backing file can be opened for writing, and the last two arguments decide the later writes.
\<close>

definition rot_new ::
  "pfr_env \<Rightarrow> seed_cfg \<Rightarrow> u8 list \<Rightarrow> u8 list option option \<Rightarrow> u8 list option \<Rightarrow> bool \<Rightarrow>
   (nat \<Rightarrow> nat \<Rightarrow> bool) \<Rightarrow> bool \<Rightarrow> seed_error + rot_flash" where
  "rot_new P K img file bits opens wok bok =
     (let f0 = (rot_blank wok bok)\<lparr>rf_bits_file := map_option file_bytes bits\<rparr>;
          use_persisted = (file \<noteq> None \<and> \<not> sc_fresh K);
          content = (case file of Some (Some d) \<Rightarrow> file_bytes d | _ \<Rightarrow> (\<lambda>_. 0))
      in case (if use_persisted then load_persisted (the file) bits f0 else seed_fresh P K img f0) of
           Inl e \<Rightarrow> Inl e
         | Inr f \<Rightarrow>
             (let f1 = f\<lparr>rf_file := (if opens then Some content else None)\<rparr>
              in Inr (if use_persisted then f1 else persist_all f1)))"

section \<open>The boot preference\<close>

definition boot_pref_slot :: "pfr_env \<Rightarrow> rot_flash \<Rightarrow> char" where
  "boot_pref_slot P f =
     (if cfpa_customer0 P (active_cfpa_bytes (cfpa_version P) f) AND 1 = 0 then CHR ''a'' else CHR ''b'')"

section \<open>A fresh part\<close>

text \<open>What the environment's parameters are relied on for: the sizes the build asserts.\<close>

definition pfr_sized :: "pfr_env \<Rightarrow> bool" where
  "pfr_sized P \<longleftrightarrow>
     (\<forall>a b c d k. length (pack_cmpa P a b c d k) = PAGE) \<and> (\<forall>a b c d k. length (pack_cfpa P a b c d k) = PAGE) \<and>
     (\<forall>i. length (nmpa_page P i) = PAGE) \<and> (\<forall>m. length (pfr_sha256 P m) = 32)"

lemma write_pages_mem:
  "off + length bs \<le> SIZE \<Longrightarrow> rf_mem (write_pages f off bs) = blit (rf_mem f) off bs"
  by (simp add: write_pages_def Let_def)

lemma write_pages_erased:
  "off + length bs \<le> SIZE \<Longrightarrow> bs \<noteq> [] \<Longrightarrow>
     is_erased (write_pages f off bs) p =
       (is_erased f p \<and> \<not> (off div PAGE \<le> p \<and> p \<le> (off + length bs - 1) div PAGE))"
  by (simp add: write_pages_def Let_def)

lemma slice_blit_other: "lo + n \<le> off \<or> off + length bs \<le> lo \<Longrightarrow> slice (blit m off bs) lo n = slice m lo n"
  by (auto simp: slice_def blit_def)

lemma slice_blit_len: "n = length bs \<Longrightarrow> slice (blit m off bs) off n = bs"
  by (simp add: slice_blit)

lemma length_seed:
  assumes "pfr_sized P"
  shows "length (seed_cmpa P) = PAGE" "length (seed_cfpa P b) = PAGE" "length (nmpa_page P i) = PAGE"
  using assms by (simp_all add: pfr_sized_def seed_cmpa_def seed_cfpa_def Let_def)

lemma length_splice: "off + length bs \<le> length buf \<Longrightarrow> length (splice buf off bs) = length buf"
  by (simp add: splice_def)

lemma length_stage0: "length synthetic_stage0 = 2048"
proof -
  have "length stage0_caboose \<le> 1000"
    by (simp add: stage0_caboose_def tlvc_chunk_def Let_def ascii_def pad4_def le_bytes32_def)
  then show ?thesis by (simp add: synthetic_stage0_def Let_def length_splice le_bytes32_def)
qed

text \<open>The writes of a fresh part in order, without overrides.\<close>

definition fresh_part :: "pfr_env \<Rightarrow> bool \<Rightarrow> u8 list \<Rightarrow> u8 list \<Rightarrow> rot_flash \<Rightarrow> rot_flash" where
  "fresh_part P b uuid img f =
     (let f1 = write_pages (write_pages (write_pages (write_pages f SLOT_A img)
                 CMPA (seed_cmpa P)) CFPA_PING (seed_cfpa P b)) CFPA_PONG (replicate PAGE 0);
          f2 = write_pages (write_pages (write_pages (write_pages f1
                 NMPA (nmpa_page P 0)) (NMPA + 512) (nmpa_page P 1)) (NMPA + 4096) (nmpa_page P 8))
                 (NMPA + 4608) (nmpa_page P 9);
          f3 = set_erased (f2\<lparr>rf_mem := blit (rf_mem f2) NMPA_UUID uuid\<rparr>) 1278 False
      in write_pages (write_pages f3 STAGE0_BASE synthetic_stage0) STAGE0NEXT_BASE synthetic_stage0)"

lemma seed_fresh_default:
  "seed_fresh P ((seed_cfg_default uuid)\<lparr>sc_pref_b := b\<rparr>) img f = Inr (fresh_part P b uuid img f)"
  by (simp add: seed_fresh_def seed_slots_def seed_pfr_def seed_nmpa_def load_page_override_def
      seed_cfg_default_def fresh_part_def Let_def)

lemma fresh_part_mem:
  assumes "pfr_sized P" "length img \<le> 0x40000" "length uuid = 16"
  shows "rf_mem (fresh_part P b uuid img f) =
    blit (blit (blit (blit (blit (blit (blit (blit (blit (blit (blit (rf_mem f) SLOT_A img)
      CMPA (seed_cmpa P)) CFPA_PING (seed_cfpa P b)) CFPA_PONG (replicate PAGE 0))
      NMPA (nmpa_page P 0)) (NMPA + 512) (nmpa_page P 1)) (NMPA + 4096) (nmpa_page P 8))
      (NMPA + 4608) (nmpa_page P 9)) NMPA_UUID uuid) 0 synthetic_stage0) 0x2000 synthetic_stage0"
  using assms(2,3) length_seed [OF assms(1)]
  by (simp add: fresh_part_def Let_def write_pages_mem length_stage0 SIZE_def)

lemma one_page_erased:
  assumes "length bs = PAGE" "off = n * PAGE" "n < NPAGES"
  shows "is_erased (write_pages f off bs) p = (is_erased f p \<and> p \<noteq> n)"
proof -
  have "bs \<noteq> []" "off + length bs \<le> SIZE" using assms by (auto simp: SIZE_def NPAGES_def)
  moreover have "(off + length bs - 1) div PAGE = n" "off div PAGE = n"
    using assms(1,2) div_less_dividend by (simp_all add: add.commute)
  ultimately show ?thesis using write_pages_erased [of off bs f p] by auto
qed

lemma stage0_erased:
  "off \<in> {0, 0x2000} \<Longrightarrow> is_erased (write_pages f off synthetic_stage0) p =
     (is_erased f p \<and> \<not> (off div PAGE \<le> p \<and> p \<le> off div PAGE + 3))"
proof -
  have "synthetic_stage0 \<noteq> []" using length_stage0 by (metis list.size(3) zero_neq_numeral)
  then show "off \<in> {0, 0x2000} \<Longrightarrow> ?thesis"
    using length_stage0 write_pages_erased [of off synthetic_stage0 f p] by (auto simp: SIZE_def)
qed

lemma fresh_part_erased:
  assumes "pfr_sized P" "length img \<le> 0x40000" "img \<noteq> []"
  shows "is_erased (fresh_part P b uuid img f) p =
    (is_erased f p \<and> \<not> (128 \<le> p \<and> p \<le> (SLOT_A + length img - 1) div PAGE) \<and>
     \<not> (p \<le> 3) \<and> \<not> (16 \<le> p \<and> p \<le> 19) \<and> p \<notin> {1264, 1265, 1266, 1270, 1271, 1278, 1279})"
proof -
  note len = length_seed [OF assms(1)]
  have pages:
    "is_erased (write_pages g CMPA (seed_cmpa P)) p = (is_erased g p \<and> p \<noteq> 1266)"
    "is_erased (write_pages g CFPA_PING (seed_cfpa P b)) p = (is_erased g p \<and> p \<noteq> 1264)"
    "is_erased (write_pages g CFPA_PONG (replicate PAGE 0)) p = (is_erased g p \<and> p \<noteq> 1265)"
    "is_erased (write_pages g NMPA (nmpa_page P 0)) p = (is_erased g p \<and> p \<noteq> 1270)"
    "is_erased (write_pages g (NMPA + 512) (nmpa_page P 1)) p = (is_erased g p \<and> p \<noteq> 1271)"
    "is_erased (write_pages g (NMPA + 4096) (nmpa_page P 8)) p = (is_erased g p \<and> p \<noteq> 1278)"
    "is_erased (write_pages g (NMPA + 4608) (nmpa_page P 9)) p = (is_erased g p \<and> p \<noteq> 1279)" for g
    by (rule one_page_erased; simp add: len NPAGES_def)+
  have a: "is_erased (write_pages g SLOT_A img) p =
      (is_erased g p \<and> \<not> (128 \<le> p \<and> p \<le> (SLOT_A + length img - 1) div PAGE))" for g
    using assms(2,3) write_pages_erased [of SLOT_A img g p] by (simp add: SIZE_def)
  have s: "is_erased (write_pages (write_pages g STAGE0_BASE synthetic_stage0) STAGE0NEXT_BASE synthetic_stage0) p =
      (is_erased g p \<and> \<not> p \<le> 3 \<and> \<not> (16 \<le> p \<and> p \<le> 19))" for g
    by (simp add: stage0_erased)
  show ?thesis
    unfolding fresh_part_def Let_def s is_erased_set is_erased_upd pages a by auto
qed

text \<open>
  A fresh part reads as it should before any command: slot A holds the image, the CMPA the
  root-key hash page, CFPA ping the synthesized page over a zeroed pong, the NMPA this
  instance's device UUID, and exactly the pages written count as programmed, so that a read of
  any other faults.
\<close>

theorem fresh_part_layout:
  assumes "pfr_sized P" "img \<noteq> []" "length img \<le> 0x40000" "length uuid = 16"
  shows "\<exists>f. seed_fresh P ((seed_cfg_default uuid)\<lparr>sc_pref_b := b\<rparr>) img (rot_blank wok bok) = Inr f \<and>
     slice (rf_mem f) SLOT_A (length img) = img \<and> cmpa_bytes f = seed_cmpa P \<and>
     slice (rf_mem f) CFPA_PING PAGE = seed_cfpa P b \<and> slice (rf_mem f) CFPA_PONG PAGE = replicate PAGE 0 \<and>
     slice (rf_mem f) NMPA_UUID 16 = uuid \<and>
     (\<forall>p < NPAGES. is_erased f p = (\<not> (128 \<le> p \<and> p \<le> (SLOT_A + length img - 1) div PAGE) \<and>
        \<not> p \<le> 3 \<and> \<not> (16 \<le> p \<and> p \<le> 19) \<and> p \<notin> {1264, 1265, 1266, 1270, 1271, 1278, 1279}))"
proof -
  let ?f = "fresh_part P b uuid img (rot_blank wok bok)"
  note len = length_seed [OF assms(1)] length_stage0 assms(4)
  have m: "slice (rf_mem ?f) SLOT_A (length img) = img" "slice (rf_mem ?f) CMPA PAGE = seed_cmpa P"
    "slice (rf_mem ?f) CFPA_PING PAGE = seed_cfpa P b" "slice (rf_mem ?f) CFPA_PONG PAGE = replicate PAGE 0"
    "slice (rf_mem ?f) NMPA_UUID 16 = uuid"
    unfolding fresh_part_mem [OF assms(1,3,4)] using assms(3)
    by (simp_all add: slice_blit_other slice_blit_len len)
  have "is_erased (rot_blank wok bok) p" if "p < NPAGES" for p
  proof -
    have "(255 :: u8) = mask 8" by (simp add: mask_eq_exp_minus_1)
    then have "bit (255 :: u8) (p mod 8)" by (simp only: bit_mask_iff) simp
    then show ?thesis by (simp add: rot_blank_def is_erased_bit)
  qed
  then show ?thesis
    using m fresh_part_erased [OF assms(1,3,2)] by (intro exI [of _ ?f]) (simp add: seed_fresh_default cmpa_bytes_def)
qed

text \<open>A toy environment for the witnesses: pages that carry their fields in their first bytes.\<close>

definition toy_pfr :: pfr_env where
  "toy_pfr =
     \<lparr>pack_cmpa = (\<lambda>a b c d k. le_bytes32 a @ replicate 508 0),
      pack_cfpa = (\<lambda>v r a b c. le_bytes32 v @ le_bytes32 c @ replicate 504 0),
      cfpa_version = (\<lambda>p. le32 (p ! 0) (p ! 1) (p ! 2) (p ! 3)),
      cfpa_customer0 = (\<lambda>p. le32 (p ! 4) (p ! 5) (p ! 6) (p ! 7)),
      nmpa_page = (\<lambda>i. replicate 512 0), pfr_sha256 = (\<lambda>m. replicate 32 (of_nat (length m)))\<rparr>"

lemma toy_pfr_sized: "pfr_sized toy_pfr"
  by (simp add: pfr_sized_def toy_pfr_def le_bytes32_def)

theorem fresh_part_layout_witness:
  "\<exists>f. seed_fresh toy_pfr ((seed_cfg_default (replicate 16 7))\<lparr>sc_pref_b := True\<rparr>) [1, 2, 3] (rot_blank (\<lambda>_ _. True) True) = Inr f \<and>
     slice (rf_mem f) SLOT_A 3 = [1, 2, 3] \<and> slice (rf_mem f) NMPA_UUID 16 = replicate 16 7 \<and>
     \<not> is_erased f 128 \<and> is_erased f 129"
  using fresh_part_layout [OF toy_pfr_sized, of "[1, 2, 3]" "replicate 16 7" True "\<lambda>_ _. True" True]
  by (auto simp: NPAGES_def numeral_3_eq_3)

text \<open>
  The boot preference follows the configuration on a fresh part: the ping page is the active
  one (versions tie), its digest field is the digest of its first 480 bytes, and its preference
  bit selects slot B exactly when the configuration asks for it. The crate is relied on to
  parse the fields it packed, whatever digest follows them, and to read version 0 in a zero page.
\<close>

theorem fresh_boot_preference:
  assumes "pfr_sized P" "length img \<le> 0x40000" "length uuid = 16"
    and parse: "\<And>c h. length h = 32 \<Longrightarrow>
        cfpa_version P (take CFPA_HASH_OFF (pack_cfpa P 0 1 DCFG_CC_SOCU DCFG_CC_SOCU c) @ h) = 0 \<and>
        cfpa_customer0 P (take CFPA_HASH_OFF (pack_cfpa P 0 1 DCFG_CC_SOCU DCFG_CC_SOCU c) @ h) = c"
    and zero: "cfpa_version P (replicate PAGE 0) = 0"
    and f: "seed_fresh P ((seed_cfg_default uuid)\<lparr>sc_pref_b := b\<rparr>) img (rot_blank wok bok) = Inr f"
  shows "boot_pref_slot P f = (if b then CHR ''b'' else CHR ''a'') \<and>
         active_cfpa (cfpa_version P) f = CFPA_PING \<and>
         drop CFPA_HASH_OFF (active_cfpa_bytes (cfpa_version P) f) =
           pfr_sha256 P (take CFPA_HASH_OFF (active_cfpa_bytes (cfpa_version P) f))"
proof -
  note len = length_seed [OF assms(1)] length_stage0 assms(3)
  have fe: "f = fresh_part P b uuid img (rot_blank wok bok)" using f by (simp add: seed_fresh_default)
  have ping: "slice (rf_mem f) CFPA_PING PAGE = seed_cfpa P b" and pong: "slice (rf_mem f) CFPA_PONG PAGE = replicate PAGE 0"
    unfolding fe fresh_part_mem [OF assms(1-3)] using assms(2) by (simp_all add: slice_blit_other slice_blit_len len)
  let ?d = "pfr_sha256 P (take CFPA_HASH_OFF (pack_cfpa P 0 1 DCFG_CC_SOCU DCFG_CC_SOCU (if b then 1 else 0)))"
  have s: "seed_cfpa P b = take CFPA_HASH_OFF (pack_cfpa P 0 1 DCFG_CC_SOCU DCFG_CC_SOCU (if b then 1 else 0)) @ ?d"
    by (simp add: seed_cfpa_def Let_def)
  have "length ?d = 32" "length (pack_cfpa P 0 1 DCFG_CC_SOCU DCFG_CC_SOCU (if b then 1 else 0)) = PAGE"
    using assms(1) unfolding pfr_sized_def by blast+
  moreover note parse [OF this(1), of "if b then 1 else 0"]
  moreover from this have a: "active_cfpa (cfpa_version P) f = CFPA_PING"
    unfolding active_cfpa_def ping pong zero s by simp
  ultimately show ?thesis unfolding boot_pref_slot_def active_cfpa_bytes_def a ping s by simp
qed

theorem fresh_boot_preference_witness:
  "\<exists>f. seed_fresh toy_pfr ((seed_cfg_default (replicate 16 7))\<lparr>sc_pref_b := True\<rparr>) [1] (rot_blank (\<lambda>_ _. True) True) = Inr f \<and>
     boot_pref_slot toy_pfr f = CHR ''b''"
proof -
  obtain f where f: "seed_fresh toy_pfr ((seed_cfg_default (replicate 16 7))\<lparr>sc_pref_b := True\<rparr>) [1]
      (rot_blank (\<lambda>_ _. True) True) = Inr f"
    by (simp add: seed_fresh_default)
  have parse: "cfpa_version toy_pfr (take CFPA_HASH_OFF (pack_cfpa toy_pfr 0 1 DCFG_CC_SOCU DCFG_CC_SOCU c) @ h) = 0 \<and>
      cfpa_customer0 toy_pfr (take CFPA_HASH_OFF (pack_cfpa toy_pfr 0 1 DCFG_CC_SOCU DCFG_CC_SOCU c) @ h) = c" for c h
    by (simp add: toy_pfr_def le_bytes32_def le32_bytes)
  have zero: "cfpa_version toy_pfr (replicate PAGE 0) = 0" by (simp add: toy_pfr_def le32_def)
  have "boot_pref_slot toy_pfr f = (if True then CHR ''b'' else CHR ''a'')"
    using fresh_boot_preference [OF toy_pfr_sized _ _ parse zero f] by simp
  then show ?thesis using f by simp
qed

section \<open>Restart\<close>

text \<open>The backing files mirror the part: the memory file while it is open, the bitset always.\<close>

definition file_mirrors :: "rot_flash \<Rightarrow> bool" where
  "file_mirrors f \<longleftrightarrow> (\<forall>c. rf_file f = Some c \<longrightarrow> (\<forall>i < SIZE. c i = rf_mem f i))"

definition bits_mirror :: "rot_flash \<Rightarrow> bool" where
  "bits_mirror f \<longleftrightarrow> rf_bits_ok f \<and> rf_bits_file f = Some (rf_erased f)"

definition rot_mirrors :: "rot_flash \<Rightarrow> bool" where
  "rot_mirrors f \<longleftrightarrow> file_mirrors f \<and> bits_mirror f"

lemma bits_mirror_persist: "rf_bits_ok f \<Longrightarrow> bits_mirror (persist_bitset f)"
  by (simp add: bits_mirror_def persist_bitset_def)

lemma file_mirrors_bitset [simp]: "file_mirrors (persist_bitset f) = file_mirrors f"
  by (simp add: file_mirrors_def persist_bitset_def)

lemma bits_ok_frame [simp]:
  "rf_bits_ok (set_erased f p e) = rf_bits_ok f" "rf_bits_ok (set_status f b) = rf_bits_ok f"
  "rf_bits_ok (set_erased_range f lo hi e) = rf_bits_ok f"
proof -
  show a: "rf_bits_ok (set_erased f p e) = rf_bits_ok f" for f p by (simp add: set_erased_def Let_def)
  have "rf_bits_ok (foldl (\<lambda>f p. set_erased f p e) f ps) = rf_bits_ok f" for ps
    by (induction ps arbitrary: f) (simp_all add: a)
  then show "rf_bits_ok (set_erased_range f lo hi e) = rf_bits_ok f" by (simp add: set_erased_range_def)
qed (simp add: set_status_def)

text \<open>A change confined to the persisted pages leaves the mirror intact once they are written.\<close>

lemma persist_pages_mirrors:
  assumes "rf_bits_ok f"
    and "\<And>c i. rf_file f = Some c \<Longrightarrow> i < SIZE \<Longrightarrow> \<not> (lo * PAGE \<le> i \<and> i < (hi + 1) * PAGE) \<Longrightarrow> c i = rf_mem f i"
    and "\<not> rf_panicked (persist_pages f lo hi)"
  shows "rot_mirrors (persist_pages f lo hi)"
proof (cases "rf_file f")
  case None
  then have "file_mirrors f" by (simp add: file_mirrors_def)
  then show ?thesis using None assms(1) by (simp add: persist_pages_def rot_mirrors_def bits_mirror_persist)
next
  case (Some c)
  let ?off = "lo * PAGE" and ?e = "min ((hi + 1) * PAGE) SIZE"
  have le: "?off \<le> ?e" using assms(3) Some by (auto simp: persist_pages_def Let_def split: if_splits)
  have "blit c ?off (slice (rf_mem f) ?off (?e - ?off)) i = rf_mem f i" if "i < SIZE" for i
    using assms(2) [OF Some that] le that by (auto simp: blit_def slice_def)
  then have "file_mirrors (f\<lparr>rf_file := Some (blit c ?off (slice (rf_mem f) ?off (?e - ?off)))\<rparr>)"
    by (simp add: file_mirrors_def)
  moreover have "file_mirrors (f\<lparr>rf_file := None\<rparr>)" by (simp add: file_mirrors_def)
  moreover have "\<not> ?e < ?off" using le by (simp only: not_less)
  ultimately show ?thesis
    using Some assms(1) unfolding persist_pages_def Let_def
    by (simp add: rot_mirrors_def bits_mirror_persist del: min_less_iff_conj min_less_iff_disj not_less)
qed

lemma persist_all_mirrors: "rf_bits_ok f \<Longrightarrow> rot_mirrors (persist_all f)"
proof -
  assume ok: "rf_bits_ok f"
  have "file_mirrors (case rf_file f of None \<Rightarrow> f
      | Some c \<Rightarrow> if rf_write_ok f 0 SIZE then f\<lparr>rf_file := Some (rf_mem f)\<rparr> else f\<lparr>rf_file := None\<rparr>)"
    by (simp add: file_mirrors_def split: option.split)
  with ok show ?thesis
    by (simp add: persist_all_def rot_mirrors_def bits_mirror_persist split: option.split)
qed

lemma erase_frame:
  "rf_file (foldl erase_page f ps) = rf_file f \<and> rf_bits_ok (foldl erase_page f ps) = rf_bits_ok f"
  by (induction ps arbitrary: f) (simp_all add: erase_page_def)

lemma mirrors_upd:
  "rf_mem g = rf_mem f \<Longrightarrow> rf_erased g = rf_erased f \<Longrightarrow> rf_file g = rf_file f \<Longrightarrow> rf_bits_file g = rf_bits_file f \<Longrightarrow>
     rf_bits_ok g = rf_bits_ok f \<Longrightarrow> rot_mirrors g = rot_mirrors f"
  by (simp add: rot_mirrors_def file_mirrors_def bits_mirror_def)

lemma mirrors_status [simp]: "rot_mirrors (set_status f b) = rot_mirrors f"
  by (rule mirrors_upd) (simp_all add: set_status_def)

lemma outside_pages:
  "\<not> (lo * PAGE \<le> i \<and> i < (hi + 1) * PAGE) \<Longrightarrow> \<not> (lo \<le> i div PAGE \<and> i div PAGE < Suc (min hi k))"
  by (auto simp: less_Suc_eq_le)

lemma mirrors_erase:
  assumes "rot_mirrors f" "\<not> rf_panicked (cmd_erase f)"
  shows "rot_mirrors (cmd_erase f)"
proof -
  let ?lo = "unat (starta f) * WORD div PAGE" and ?hi = "unat (stopa f) * WORD div PAGE"
  let ?g = "foldl erase_page f [?lo..<Suc (min ?hi (NPAGES - 1))]"
  have g: "rf_file ?g = rf_file f" "rf_bits_ok ?g" using erase_frame assms(1) by (auto simp: rot_mirrors_def bits_mirror_def)
  have "rot_mirrors (persist_pages ?g ?lo ?hi)"
  proof (rule persist_pages_mirrors [OF g(2)])
    fix c i
    assume c: "rf_file ?g = Some c" "i < SIZE" "\<not> (?lo * PAGE \<le> i \<and> i < (?hi + 1) * PAGE)"
    have "\<not> (?lo \<le> i div PAGE \<and> i div PAGE < Suc (min ?hi (NPAGES - 1)))"
      by (rule outside_pages [OF c(3)])
    then have "rf_mem ?g i = rf_mem f i"
      unfolding erase_pages [of f ?lo "Suc (min ?hi (NPAGES - 1))", THEN conjunct1] by (simp only: if_False)
    then show "c i = rf_mem ?g i" using c(1,2) assms(1) g(1) unfolding rot_mirrors_def file_mirrors_def by metis
  next
    show "\<not> rf_panicked (persist_pages ?g ?lo ?hi)" using assms(2) by (simp add: cmd_erase_def Let_def)
  qed
  then show ?thesis by (simp add: cmd_erase_def Let_def)
qed

lemma mirrors_program:
  assumes "rot_mirrors f" "\<not> rf_panicked (cmd_program f)"
  shows "rot_mirrors (cmd_program f)"
proof -
  let ?p = "unat (starta f) * WORD div PAGE"
  let ?g = "set_erased (f\<lparr>rf_mem := and_page (rf_mem f) (?p * PAGE) (page_buf f)\<rparr>) ?p False"
  have buf: "rot_mirrors (set_status (g\<lparr>page_buf := pb\<rparr>) st) = rot_mirrors g" for g pb st
    by (simp add: mirrors_upd [of "g\<lparr>page_buf := pb\<rparr>" g])
  have "rot_mirrors (persist_pages ?g ?p ?p)" if "?p < NPAGES"
  proof (rule persist_pages_mirrors)
    show "rf_bits_ok ?g" using assms(1) by (simp add: rot_mirrors_def bits_mirror_def)
    show "c i = rf_mem ?g i"
      if "rf_file ?g = Some c" "i < SIZE" "\<not> (?p * PAGE \<le> i \<and> i < (?p + 1) * PAGE)" for c i
    proof -
      have "c i = rf_mem f i" using that(1,2) assms(1) by (simp add: rot_mirrors_def file_mirrors_def)
      also have "\<dots> = and_page (rf_mem f) (?p * PAGE) (page_buf f) i"
        using that(3) unfolding and_page_def by (metis add.commute distrib_right mult_1)
      finally show ?thesis by simp
    qed
    show "\<not> rf_panicked (persist_pages ?g ?p ?p)"
      using assms(2) that by (simp add: cmd_program_def Let_def)
  qed
  then show ?thesis using assms(1) unfolding cmd_program_def Let_def buf by (simp only: if_split) blast
qed

text \<open>A panic stays.\<close>

lemma panicked_frame:
  "rf_panicked (set_erased_range f lo hi e) = rf_panicked f" "rf_panicked (persist_all f) = rf_panicked f"
  "rf_panicked (foldl erase_page f ps) = rf_panicked f" "rf_panicked f \<Longrightarrow> rf_panicked (persist_pages f lo hi)"
proof -
  have "rf_panicked (foldl (\<lambda>f p. set_erased f p e) f ps) = rf_panicked f" for ps
    by (induction ps arbitrary: f) simp_all
  then show "rf_panicked (set_erased_range f lo hi e) = rf_panicked f" by (simp add: set_erased_range_def)
  show "rf_panicked (persist_all f) = rf_panicked f"
    by (simp add: persist_all_def persist_bitset_def split: option.split)
  show "rf_panicked (foldl erase_page f ps) = rf_panicked f"
    by (induction ps arbitrary: f) (simp_all add: erase_page_def)
  show "rf_panicked f \<Longrightarrow> rf_panicked (persist_pages f lo hi)"
    by (simp add: persist_pages_def persist_bitset_def Let_def split: option.split)
qed

lemma panicked_stays: "rf_panicked f \<Longrightarrow> rf_panicked (rot_step f oper)"
proof (cases oper)
  case (RotReg off v)
  assume f: "rf_panicked f"
  have "rf_panicked (do_cmd f v)"
    using f by (simp add: do_cmd_def cmd_erase_def cmd_write_def cmd_program_def cmd_blank_def cmd_read_def
        Let_def panicked_frame split: option.split)
  then show ?thesis using f RotReg by (simp add: rot_reg_write_def)
qed (simp_all add: rot_write_mem_def rot_load_image_at_def write_pages_def Let_def panicked_frame)

lemma mirrors_step:
  assumes "rot_mirrors f" "\<not> rf_panicked (rot_step f oper)"
  shows "rot_mirrors (rot_step f oper)"
proof (cases oper)
  case (RotReg off v)
  have upd: "rot_mirrors (f\<lparr>starta := x\<rparr>)" "rot_mirrors (f\<lparr>stopa := x\<rparr>)" "rot_mirrors (f\<lparr>rf_status := x\<rparr>)"
    "rot_mirrors (f\<lparr>dataw := d\<rparr>)" "rot_mirrors (f\<lparr>page_buf := pb\<rparr>)" for x d pb
    using assms(1) by (simp_all add: rot_mirrors_def file_mirrors_def bits_mirror_def)
  have "rot_mirrors (cmd_write f)" "rot_mirrors (cmd_blank f)" "rot_mirrors (cmd_read f)"
    using upd assms(1) by (simp_all add: cmd_write_def cmd_blank_def cmd_read_def Let_def split: option.split)
  then have "\<not> rf_panicked (do_cmd f v) \<Longrightarrow> rot_mirrors (do_cmd f v)"
    using mirrors_erase [OF assms(1)] mirrors_program [OF assms(1)] assms(1)
    by (auto simp: do_cmd_def Let_def split: if_splits)
  then show ?thesis using assms RotReg upd by (cases "off = 0") (simp_all add: rot_reg_write_def)
next
  case (RotStore a v n)
  then show ?thesis using assms(1) by (simp add: rot_write_mem_def)
next
  case (RotLoad a bs)
  have "rf_bits_ok (write_pages f (unat a) bs)"
    using assms(1) by (simp add: write_pages_def Let_def rot_mirrors_def bits_mirror_def)
  then show ?thesis using RotLoad by (simp add: rot_load_image_at_def persist_all_mirrors)
qed

lemma mirrors_run:
  assumes "rot_mirrors f" "\<not> rf_panicked (rot_run f ops)"
  shows "rot_mirrors (rot_run f ops)"
  using assms
proof (induction ops rule: rev_induct)
  case (snoc oper ops)
  have e: "rot_run f (ops @ [oper]) = rot_step (rot_run f ops) oper" by (simp add: rot_run_def)
  then have "\<not> rf_panicked (rot_run f ops)" using snoc.prems(2) panicked_stays by metis
  then show ?case using snoc e mirrors_step by simp
qed (simp add: rot_run_def)

definition file_list :: "bytes \<Rightarrow> nat \<Rightarrow> u8 list" where
  "file_list c n = slice c 0 n"

text \<open>
  C15: The part survives the process: whatever register traffic and image loads follow its
  seeding, as long as the emulator does not stop and its file stays writable, a new process on
  the files it left (the memory file and the bitset beside it) has the same flash content and
  the same erased pages, whatever image it is given.
\<close>

theorem rot_part_survives_restart:
  assumes "rot_new P K img None None True wok True = Inr f0"
    and "f = rot_run f0 ops" "\<not> rf_panicked f" "rf_file f = Some c"
    and "\<not> sc_fresh K'"
  shows "\<exists>g. rot_new P' K' img' (Some (Some (file_list c SIZE)))
               (map_option (\<lambda>e. file_list e (NPAGES div 8)) (rf_bits_file f)) opens wok' bok' = Inr g \<and>
             (\<forall>i < SIZE. rf_mem g i = rf_mem f i) \<and> (\<forall>p < NPAGES. is_erased g p = is_erased f p)"
proof -
  obtain f1 where f1: "seed_fresh P K img (rot_blank wok True) = Inr f1"
    "f0 = persist_all (f1\<lparr>rf_file := Some (\<lambda>_. 0)\<rparr>)"
    using assms(1) by (auto simp: rot_new_def Let_def rot_blank_def split: sum.splits)
  have ok: "rf_bits_ok (write_pages g off bs) = rf_bits_ok g" for g off bs
    by (simp add: write_pages_def Let_def)
  have "rf_bits_ok f1"
    using f1(1) by (auto simp: seed_fresh_def seed_slots_def seed_pfr_def seed_nmpa_def Let_def ok rot_blank_def
        split: sum.splits option.splits if_splits)
  then have "rot_mirrors f0" unfolding f1(2) by (intro persist_all_mirrors) simp
  then have m: "rot_mirrors f" using assms(2,3) mirrors_run by simp
  then have c: "\<forall>i < SIZE. c i = rf_mem f i" and e: "rf_bits_file f = Some (rf_erased f)"
    using assms(4) by (auto simp: rot_mirrors_def file_mirrors_def bits_mirror_def)
  let ?g = "(rot_blank wok' bok')\<lparr>rf_bits_file := Some (file_bytes (file_list (rf_erased f) (NPAGES div 8))),
      rf_mem := blit (\<lambda>_. 0xFF) 0 (file_list c SIZE),
      rf_erased := blit (\<lambda>_. 0xFF) 0 (file_list (rf_erased f) (NPAGES div 8)),
      rf_file := (if opens then Some (file_bytes (file_list c SIZE)) else None)\<rparr>"
  have "rot_new P' K' img' (Some (Some (file_list c SIZE)))
      (map_option (\<lambda>e. file_list e (NPAGES div 8)) (rf_bits_file f)) opens wok' bok' = Inr ?g"
    using assms(5) e by (simp add: rot_new_def load_persisted_def Let_def file_list_def rot_blank_def)
  moreover have "rf_mem ?g i = rf_mem f i" if "i < SIZE" for i
    using that c by (simp add: file_list_def blit_def slice_def)
  moreover have "is_erased ?g p = is_erased f p" if "p < NPAGES" for p
  proof -
    have "p div 8 < NPAGES div 8" using that by (simp add: NPAGES_def)
    then show ?thesis by (simp add: is_erased_def file_list_def blit_def slice_def)
  qed
  ultimately show ?thesis by blast
qed

text \<open>The witness: a toy part, a program command, and the restart on its files.\<close>

theorem rot_part_survives_restart_witness:
  "\<exists>f0 f c g. rot_new toy_pfr (seed_cfg_default (replicate 16 7)) [1] None None True (\<lambda>_ _. True) True = Inr f0 \<and>
     f = rot_run f0 [RotReg REG_STARTA 0x2800, RotReg REG_CMD 12] \<and> rf_file f = Some c \<and>
     rot_new toy_pfr (seed_cfg_default []) [] (Some (Some (file_list c SIZE)))
       (map_option (\<lambda>e. file_list e (NPAGES div 8)) (rf_bits_file f)) True (\<lambda>_ _. True) True = Inr g \<and>
     is_erased g 640 = is_erased f 640"
proof -
  have d: "seed_cfg_default u = (seed_cfg_default u)\<lparr>sc_pref_b := False\<rparr>" for u
    by (simp add: seed_cfg_default_def)
  let ?p = "fresh_part toy_pfr False (replicate 16 7) [1] (rot_blank (\<lambda>_ _. True) True)"
  let ?start = "persist_all (?p\<lparr>rf_file := Some (\<lambda>_. 0)\<rparr>)"
  let ?f = "rot_run ?start [RotReg REG_STARTA 0x2800, RotReg REG_CMD 12]"
  have n: "rot_new toy_pfr (seed_cfg_default (replicate 16 7)) [1] None None True (\<lambda>_ _. True) True = Inr ?start"
    using seed_fresh_default [where uuid = "replicate 16 7" and P = toy_pfr and b = False and img = "[1]"] d
    by (simp add: rot_new_def Let_def rot_blank_def)
  have w: "rf_write_ok (write_pages h off bs) = rf_write_ok h" "rf_panicked (write_pages h off bs) = rf_panicked h" for h off bs
  proof -
    have "rf_write_ok (set_erased h' p e) = rf_write_ok h'" for h' p e by (simp add: set_erased_def Let_def)
    then have "rf_write_ok (foldl (\<lambda>f p. set_erased f p e) h' ps) = rf_write_ok h'" for ps e h'
      by (induction ps arbitrary: h') simp_all
    then show "rf_write_ok (write_pages h off bs) = rf_write_ok h"
      by (simp add: write_pages_def set_erased_range_def Let_def)
    show "rf_panicked (write_pages h off bs) = rf_panicked h"
      by (simp add: write_pages_def Let_def panicked_frame)
  qed
  have se: "rf_write_ok (set_erased h p e) = rf_write_ok h" for h p e by (simp add: set_erased_def Let_def)
  have p: "rf_write_ok ?p = (\<lambda>_ _. True)" "\<not> rf_panicked ?p"
    by (simp_all add: fresh_part_def Let_def w se) (simp_all add: rot_blank_def)
  have f0: "rf_write_ok ?start = (\<lambda>_ _. True)" "\<not> rf_panicked ?start" "\<exists>c. rf_file ?start = Some c"
    using p by (simp_all add: persist_all_def persist_bitset_def)
  then obtain c0 where c0: "rf_file ?start = Some c0" by blast
  have f: "\<not> rf_panicked ?f \<and> (\<exists>c. rf_file ?f = Some c)"
    using f0 c0
    by (simp add: rot_run_def rot_reg_write_def do_cmd_def cmd_program_def persist_pages_def persist_bitset_def
        NPAGES_def SIZE_def Let_def se set_status_def del: persist_all_frame)
  then obtain c where c: "rf_file ?f = Some c" by blast
  obtain g where "rot_new toy_pfr (seed_cfg_default []) [] (Some (Some (file_list c SIZE)))
      (map_option (\<lambda>e. file_list e (NPAGES div 8)) (rf_bits_file ?f)) True (\<lambda>_ _. True) True = Inr g"
    "\<forall>p < NPAGES. is_erased g p = is_erased ?f p"
    using rot_part_survives_restart [OF n refl _ c, of "seed_cfg_default []" toy_pfr "[]" True "\<lambda>_ _. True" True] f
    by (auto simp: seed_cfg_default_def)
  moreover from this have "is_erased g 640 = is_erased ?f 640" by (simp add: NPAGES_def)
  ultimately show ?thesis using n c by blast
qed

end
