(* ===== verification/Romapi.thy ===== *)
theory Romapi
  imports Prelude
begin

text \<open>
  The boot-ROM pointer graph of the LPC55 (\<open>src/romapi.rs\<close>): the words a guest loads on
  its way to \<open>skboot_authenticate\<close>, and the two trap addresses they lead to. The traps'
  behaviour is with the processor.
\<close>

abbreviation (input) LPC55_ROM_TABLE :: u32 where "LPC55_ROM_TABLE \<equiv> 0x130010f0"
abbreviation (input) SKBOOT_PTR_ADDR :: u32 where "SKBOOT_PTR_ADDR \<equiv> 0x13001118"
abbreviation (input) LPC55_BOOT_ROM :: u32 where "LPC55_BOOT_ROM \<equiv> 0x03000000"
abbreviation (input) SKBOOT_FNS_ADDR :: u32 where "SKBOOT_FNS_ADDR \<equiv> 0x03000000"
abbreviation (input) AUTH_TRAP :: u32 where "AUTH_TRAP \<equiv> 0x03000100"
abbreviation (input) HASHCRYPT_TRAP :: u32 where "HASHCRYPT_TRAP \<equiv> 0x03000104"

definition rom_read32 :: "u32 \<Rightarrow> u32 option" where
  "rom_read32 a =
     (if a = SKBOOT_PTR_ADDR then Some SKBOOT_FNS_ADDR
      else if a = SKBOOT_FNS_ADDR then Some 0x03000101
      else if a = SKBOOT_FNS_ADDR + 4 then Some 0x03000105
      else if LPC55_ROM_TABLE \<le> a \<and> a < LPC55_ROM_TABLE + 0x40 then Some 0
      else if LPC55_BOOT_ROM \<le> a \<and> a < LPC55_BOOT_ROM + 0x10000 then Some 0
      else None)"

definition is_trap :: "u32 \<Rightarrow> bool" where
  "is_trap pc = (pc = AUTH_TRAP \<or> pc = HASHCRYPT_TRAP)"

end
