(* ===== verification/Soc_Ctl.thy ===== *)
theory Soc_Ctl
  imports Devices
begin

text \<open>
  The remaining register-level peripherals: RCC, PWR and the System Control Space of
  \<open>src/soc.rs\<close>, the random number generator, the HASH engine, and the LPC55
  HASHCRYPT engine of \<open>src/hashcrypt.rs\<close>. The two functions of the \<open>sha2\<close> crate are
  fields of the device that uses them (\<open>sha256\<close>: the digest of a byte string as 32
  bytes; \<open>compress256\<close>: one block folded into the running state), so nothing here
  assumes what they compute.
\<close>

unbundle bit_operations_syntax

section \<open>RCC, PWR, SCS\<close>

text \<open>Register arrays of a power-of-two length, indexed by the masked word offset.\<close>

type_synonym regarray = "nat \<Rightarrow> u32"

definition word_index :: "u32 \<Rightarrow> u32 \<Rightarrow> nat" where
  "word_index m off = unat (drop_bit 2 off AND m)"

definition ready_bit :: "nat \<Rightarrow> nat \<Rightarrow> u32 \<Rightarrow> u32" where
  "ready_bit on rdy v = (if bit_set v on then v OR push_bit rdy 1 else v)"

definition rcc_read :: "regarray \<Rightarrow> u32 \<Rightarrow> u32" where
  "rcc_read r off =
     (let v = r (word_index 0xFF off) in
      if off = 0 then
        ready_bit 28 29 (ready_bit 26 27 (ready_bit 24 25 (ready_bit 16 17
          (v OR push_bit 1 1 OR push_bit 2 1))))
      else if off = 0x10 then
        let sw = v AND 7 in (v AND NOT (push_bit 3 7)) OR push_bit 3 sw
      else v)"

definition rcc_write :: "regarray \<Rightarrow> u32 \<Rightarrow> u32 \<Rightarrow> regarray" where
  "rcc_write r off val = r(word_index 0xFF off := val)"

definition pwr_read :: "regarray \<Rightarrow> u32 \<Rightarrow> u32" where
  "pwr_read r off =
     (let v = r (word_index 0x3F off) in
      if off = 0x04 then v OR push_bit 13 1
      else if off = 0x18 then v OR push_bit 13 1 else v)"

definition pwr_write :: "regarray \<Rightarrow> u32 \<Rightarrow> u32 \<Rightarrow> regarray" where
  "pwr_write r off val = r(word_index 0x3F off := val)"

definition scs_read :: "regarray \<Rightarrow> u32 \<Rightarrow> u32" where
  "scs_read r off =
     (let i = word_index 0x3FF off in
      if off = 0x010 then r i OR push_bit 16 1
      else if off = 0xD00 then 0x411FC271
      else r i)"

definition scs_write :: "regarray \<Rightarrow> u32 \<Rightarrow> u32 \<Rightarrow> regarray" where
  "scs_write r off val = r(word_index 0x3FF off := val)"

section \<open>RNG\<close>

record rng =
  rng_state :: u64
  rng_cr :: u32

definition rng_new :: rng where
  "rng_new = \<lparr>rng_state = 0x9E3779B97F4A7C15, rng_cr = 0\<rparr>"

definition rng_next_word :: "rng \<Rightarrow> u32 \<times> rng" where
  "rng_next_word d =
     (let x0 = rng_state d;
          x1 = x0 XOR drop_bit 12 x0;
          x2 = x1 XOR push_bit 25 x1;
          x3 = x2 XOR drop_bit 27 x2;
          v = (ucast (drop_bit 32 (x3 * 0x2545F4914F6CDD1D)) :: u32)
      in (if v = 0 then 1 else v, d\<lparr>rng_state := x3\<rparr>))"

definition rng_read :: "rng \<Rightarrow> u32 \<Rightarrow> u32 \<times> rng" where
  "rng_read d off =
     (let w = word_of off in
      if w = 0 then (rng_cr d, d)
      else if w = 4 then (1, d)
      else if w = 8 then rng_next_word d
      else (0, d))"

definition rng_write :: "rng \<Rightarrow> u32 \<Rightarrow> u32 \<Rightarrow> rng" where
  "rng_write d off val = (if word_of off = 0 then d\<lparr>rng_cr := val\<rparr> else d)"

lemma xor_drop_nonzero:
  fixes x :: "'a::len word"
  assumes "0 < n" and "x XOR drop_bit n x = 0"
  shows "x = 0"
proof -
  from assms(2) have eq: "x = drop_bit n x" by (metis bit.xor_self xor.left_neutral xor.assoc)
  have "unat x = drop_bit n (unat x)"
    by (subst eq) (rule unat_drop_bit_eq)
  then have "unat x div 2 ^ n = unat x" by (simp only: drop_bit_eq_div [symmetric])
  moreover have "1 < (2 :: nat) ^ n" using assms(1) by (rule one_less_power [rotated]) simp
  ultimately have "unat x = 0"
    by (metis div_less_dividend less_irrefl not_gr_zero)
  then show ?thesis by (simp only: unsigned_eq_0_iff)
qed

lemma xor_push_nonzero:
  fixes x :: "'a::len word"
  assumes "0 < n" and "x XOR push_bit n x = 0"
  shows "x = 0"
proof -
  from assms(2) have eq: "x = push_bit n x" by (metis bit.xor_self xor.left_neutral xor.assoc)
  have "\<not> bit x m" for m
  proof (induction m rule: less_induct)
    case (less m)
    show ?case
    proof
      assume b: "bit x m"
      with eq have "bit (push_bit n x) m" by simp
      then have "n \<le> m" "bit x (m - n)" by (auto simp: bit_simps)
      with less [of "m - n"] assms(1) show False by simp
    qed
  qed
  then show ?thesis by (simp add: bit_word_eqI)
qed

lemma rng_next_word_state:
  "rng_state d \<noteq> 0 \<Longrightarrow> rng_state (snd (rng_next_word d)) \<noteq> 0"
proof -
  assume nz: "rng_state d \<noteq> 0"
  define x1 where "x1 = rng_state d XOR drop_bit 12 (rng_state d)"
  define x2 where "x2 = x1 XOR push_bit 25 x1"
  have "x1 \<noteq> 0" using nz xor_drop_nonzero [of 12 "rng_state d"] unfolding x1_def by auto
  then have "x2 \<noteq> 0" using xor_push_nonzero [of 25 x1] unfolding x2_def by auto
  then have "x2 XOR drop_bit 27 x2 \<noteq> 0" using xor_drop_nonzero [of 27 x2] by auto
  moreover have "rng_state (snd (rng_next_word d)) = x2 XOR drop_bit 27 x2"
    by (simp add: rng_next_word_def Let_def x1_def x2_def)
  ultimately show ?thesis by simp
qed

lemma rng_next_word_nonzero: "fst (rng_next_word d) \<noteq> 0"
  by (simp add: rng_next_word_def Let_def)


text \<open>A run of register accesses of the RNG, with the words read from DR.\<close>

datatype rng_op = RngRead u32 | RngWrite u32 u32

fun rng_run :: "rng \<Rightarrow> rng_op list \<Rightarrow> u32 list \<times> rng" where
  "rng_run d [] = ([], d)"
| "rng_run d (RngWrite off v # ops) = rng_run (rng_write d off v) ops"
| "rng_run d (RngRead off # ops) =
     (let (v, d1) = rng_read d off; (vs, d2) = rng_run d1 ops
      in (if word_of off = 8 then v # vs else vs, d2))"

lemma rng_read_state: "rng_state d \<noteq> 0 \<Longrightarrow> rng_state (snd (rng_read d off)) \<noteq> 0"
  using rng_next_word_state [of d] by (simp add: rng_read_def Let_def)

lemma rng_write_state [simp]: "rng_state (rng_write d off v) = rng_state d"
  by (simp add: rng_write_def)

lemma rng_run_nonzero:
  "rng_state d \<noteq> 0 \<Longrightarrow> 0 \<notin> set (fst (rng_run d ops)) \<and> rng_state (snd (rng_run d ops)) \<noteq> 0"
proof (induction d ops rule: rng_run.induct)
  case (3 d off ops)
  obtain v d1 where r: "rng_read d off = (v, d1)" by (cases "rng_read d off")
  obtain vs d2 where rs: "rng_run d1 ops = (vs, d2)" by (cases "rng_run d1 ops")
  from rng_read_state [OF "3.prems", of off] r have "rng_state d1 \<noteq> 0" by simp
  with "3.IH" [OF r [symmetric]] rs have IH: "0 \<notin> set vs" "rng_state d2 \<noteq> 0" by auto
  have "word_of off = 8 \<Longrightarrow> v \<noteq> 0"
    using r rng_next_word_nonzero [of d] by (simp add: rng_read_def Let_def)
  with IH r rs show ?case by auto
qed auto

section \<open>HASH\<close>

record hash =
  irq_pending :: bool
  dcis :: bool
  hash_buf :: "u8 list"
  nblw :: u32
  hash_digest :: "u32 list"
  sha256 :: "u8 list \<Rightarrow> u8 list"

definition hash_new :: "(u8 list \<Rightarrow> u8 list) \<Rightarrow> hash" where
  "hash_new sha =
     \<lparr>irq_pending = False, dcis = False, hash_buf = [], nblw = 0,
      hash_digest = replicate 8 0, sha256 = sha\<rparr>"

definition be32_at :: "u8 list \<Rightarrow> nat \<Rightarrow> u32" where
  "be32_at d i = le32 (d ! (i + 3)) (d ! (i + 2)) (d ! (i + 1)) (d ! i)"

definition hash_read :: "hash \<Rightarrow> u32 \<Rightarrow> u32" where
  "hash_read d off =
     (let w = word_of off in
      if w = 0x24 then 1 OR (if dcis d then push_bit 1 1 else 0)
      else if w = 0x0C \<or> w = 0x10 \<or> w = 0x14 \<or> w = 0x18 \<or> w = 0x1C then
        hash_digest d ! (unat (w - 0x0C) div 4)
      else if 0x310 \<le> w \<and> w \<le> 0x32C then hash_digest d ! (unat (w - 0x310) div 4)
      else 0)"

definition hash_finish :: "hash \<Rightarrow> hash" where
  "hash_finish d =
     (let buf = (if nblw d \<noteq> 0
                 then take (length (hash_buf d) - (4 - unat (nblw d) div 8)) (hash_buf d)
                 else hash_buf d);
          dg = sha256 d buf
      in d\<lparr>hash_digest := map (\<lambda>i. be32_at dg (i * 4)) [0..<8], hash_buf := [],
           dcis := True, irq_pending := True\<rparr>)"

definition hash_write :: "hash \<Rightarrow> u32 \<Rightarrow> u32 \<Rightarrow> hash" where
  "hash_write d off val =
     (let w = word_of off in
      if w = 0 then
        (if bit_set val 2 then d\<lparr>hash_buf := [], nblw := 0, dcis := False\<rparr> else d)
      else if w = 4 then d\<lparr>hash_buf := hash_buf d @ le_bytes32 val\<rparr>
      else if w = 8 then
        let d1 = d\<lparr>nblw := val AND 0x1F\<rparr>
        in if bit_set val 8 then hash_finish d1 else d1
      else d)"

definition hash_take_irq :: "hash \<Rightarrow> u16 option \<times> hash" where
  "hash_take_irq d = (if irq_pending d then (Some 80, d\<lparr>irq_pending := False\<rparr>) else (None, d))"

text \<open>Feeding words through DIN appends their bytes; nothing else moves.\<close>

definition hash_feed :: "hash \<Rightarrow> u32 list \<Rightarrow> hash" where
  "hash_feed = foldl (\<lambda>d w. hash_write d 4 w)"

lemma hash_feed_eq: "hash_feed d ws = d\<lparr>hash_buf := hash_buf d @ concat (map le_bytes32 ws)\<rparr>"
proof (induction ws arbitrary: d)
  case Nil
  then show ?case by (simp add: hash_feed_def)
next
  case (Cons w ws)
  have "hash_write d 4 w = d\<lparr>hash_buf := hash_buf d @ le_bytes32 w\<rparr>"
    by (simp add: hash_write_def)
  with Cons show ?case by (simp add: hash_feed_def)
qed

text \<open>
  The digest registers as the driver reads them: eight words from HR0 up, each one
  big-endian in the byte string.
\<close>

definition hash_result :: "hash \<Rightarrow> u8 list" where
  "hash_result d = concat (map (\<lambda>i. rev (le_bytes32 (hash_read d (0x310 + 4 * of_nat i)))) [0..<8])"

lemma be32_bytes: "rev (le_bytes32 (be32_at d i)) = [d ! i, d ! (i + 1), d ! (i + 2), d ! (i + 3)]"
  by (simp add: be32_at_def le_bytes32_def byte_simps)

lemma hash_read_HR:
  assumes "i < 8"
  shows "hash_read d (0x310 + 4 * of_nat i) = hash_digest d ! i"
proof -
  from assms have "i \<in> {0, 1, 2, 3, 4, 5, 6, 7}" by auto
  then show ?thesis by (auto simp: hash_read_def)
qed

section \<open>HASHCRYPT\<close>

abbreviation (input) REG_CTRL :: u32 where "REG_CTRL \<equiv> 0x00"
abbreviation (input) REG_STATUS :: u32 where "REG_STATUS \<equiv> 0x04"
abbreviation (input) REG_INDATA :: u32 where "REG_INDATA \<equiv> 0x20"
abbreviation (input) REG_DIGEST0 :: u32 where "REG_DIGEST0 \<equiv> 0x40"
abbreviation (input) ST_WAITING :: u32 where "ST_WAITING \<equiv> 1"
abbreviation (input) ST_DIGEST :: u32 where "ST_DIGEST \<equiv> 2"

definition SHA256_IV :: "u32 list" where
  "SHA256_IV = [0x6a09e667, 0xbb67ae85, 0x3c6ef372, 0xa54ff53a,
                0x510e527f, 0x9b05688c, 0x1f83d9ab, 0x5be0cd19]"

record hashcrypt =
  hc_state :: "u32 list"
  hc_block :: "u32 list"
  hc_fill :: nat
  hc_digest :: "u32 list"
  hc_status :: u32
  compress256 :: "u32 list \<Rightarrow> u8 list \<Rightarrow> u32 list"

definition hashcrypt_new :: "(u32 list \<Rightarrow> u8 list \<Rightarrow> u32 list) \<Rightarrow> hashcrypt" where
  "hashcrypt_new cmp =
     \<lparr>hc_state = SHA256_IV, hc_block = replicate 16 0, hc_fill = 0,
      hc_digest = replicate 8 0, hc_status = 0, compress256 = cmp\<rparr>"

definition hashcrypt_start :: "hashcrypt \<Rightarrow> hashcrypt" where
  "hashcrypt_start d = d\<lparr>hc_state := SHA256_IV, hc_fill := 0, hc_status := ST_WAITING\<rparr>"

definition hashcrypt_feed :: "hashcrypt \<Rightarrow> u32 \<Rightarrow> hashcrypt" where
  "hashcrypt_feed d w =
     (let d1 = d\<lparr>hc_status := hc_status d AND NOT ST_DIGEST,
                 hc_block := (hc_block d)[hc_fill d := w], hc_fill := hc_fill d + 1\<rparr>;
          d2 = (if hc_fill d1 = 16
                then let st = compress256 d1 (hc_state d1) (concat (map le_bytes32 (hc_block d1)))
                     in d1\<lparr>hc_state := st, hc_fill := 0, hc_digest := map swap_bytes st,
                           hc_status := hc_status d1 OR ST_DIGEST\<rparr>
                else d1)
      in d2\<lparr>hc_status := hc_status d2 OR ST_WAITING\<rparr>)"

definition hashcrypt_read :: "hashcrypt \<Rightarrow> u32 \<Rightarrow> u32" where
  "hashcrypt_read d off =
     (if off = REG_STATUS then hc_status d
      else if REG_DIGEST0 \<le> off \<and> off < REG_DIGEST0 + 32 then
        hc_digest d ! (unat (off - REG_DIGEST0) div 4)
      else 0)"

definition hashcrypt_write :: "hashcrypt \<Rightarrow> u32 \<Rightarrow> u32 \<Rightarrow> hashcrypt" where
  "hashcrypt_write d off val =
     (if off = REG_CTRL \<and> val AND 7 = 2 \<and> val AND push_bit 4 1 \<noteq> 0 then hashcrypt_start d
      else if off = REG_INDATA then hashcrypt_feed d val
      else d)"

definition hashcrypt_feeds :: "hashcrypt \<Rightarrow> u32 list \<Rightarrow> hashcrypt" where
  "hashcrypt_feeds = foldl (\<lambda>d w. hashcrypt_write d REG_INDATA w)"

lemma hashcrypt_feeds_simps [simp]:
  "hashcrypt_feeds d [] = d"
  "hashcrypt_feeds d (w # ws) = hashcrypt_feeds (hashcrypt_feed d w) ws"
  "hashcrypt_feeds d (xs @ ys) = hashcrypt_feeds (hashcrypt_feeds d xs) ys"
  by (simp_all add: hashcrypt_feeds_def hashcrypt_write_def)

text \<open>While the block is not yet full, a word only lands in its slot.\<close>

lemma hashcrypt_partial:
  "hc_fill d + length ws < 16 \<Longrightarrow> length (hc_block d) = 16 \<Longrightarrow>
     let d' = hashcrypt_feeds d ws in
     hc_state d' = hc_state d \<and> hc_fill d' = hc_fill d + length ws \<and>
     hc_block d' = take (hc_fill d) (hc_block d) @ ws @ drop (hc_fill d + length ws) (hc_block d) \<and>
     compress256 d' = compress256 d"
proof (induction ws arbitrary: d)
  case Nil
  then show ?case by simp
next
  case (Cons w ws)
  let ?d = "hashcrypt_feed d w"
  have f: "hc_fill ?d = Suc (hc_fill d)" "hc_block ?d = (hc_block d)[hc_fill d := w]"
    "hc_state ?d = hc_state d" "compress256 ?d = compress256 d"
    using Cons.prems by (auto simp: hashcrypt_feed_def Let_def)
  have upd: "take (Suc (hc_fill d)) ((hc_block d)[hc_fill d := w]) = take (hc_fill d) (hc_block d) @ [w]"
    using Cons.prems by (simp add: take_Suc_conv_app_nth)
  from Cons.IH [of ?d] Cons.prems show ?case
    by (simp add: f Let_def upd)
qed

lemma hashcrypt_block:
  assumes "hc_fill d = 0" and "length (hc_block d) = 16" and "length ws = 16"
  shows "let d' = hashcrypt_feeds d ws; st = compress256 d (hc_state d) (concat (map le_bytes32 ws)) in
     hc_state d' = st \<and> hc_fill d' = 0 \<and> length (hc_block d') = 16 \<and>
     hc_digest d' = map swap_bytes st \<and> compress256 d' = compress256 d \<and>
     bit (hc_status d') 0 \<and> bit (hc_status d') 1"
proof -
  obtain us w where ws: "ws = us @ [w]" "length us = 15"
  proof
    show "ws = butlast ws @ [last ws]" using assms(3) by (intro append_butlast_last_id [symmetric]) auto
    show "length (butlast ws) = 15" using assms(3) by simp
  qed
  let ?d = "hashcrypt_feeds d us"
  have p: "hc_state ?d = hc_state d" "hc_fill ?d = 15" "hc_block ?d = us @ drop 15 (hc_block d)"
    "compress256 ?d = compress256 d"
    using hashcrypt_partial [of d us] assms ws by (auto simp: Let_def)
  have blk: "(hc_block ?d)[15 := w] = ws"
  proof -
    from assms(2) obtain z where "drop 15 (hc_block d) = [z]"
      by (cases "drop 15 (hc_block d)") (auto dest: arg_cong [where f = length])
    then show ?thesis using p(3) ws by (simp add: list_update_append)
  qed
  show ?thesis
    unfolding ws(1) hashcrypt_feeds_simps
    using p blk ws assms(3) by (simp add: hashcrypt_feed_def Let_def bit_simps)
qed


text \<open>A message of whole 512-bit blocks, and the compression of the blocks one after the other.\<close>

lemma hashcrypt_blocks:
  "hc_fill d = 0 \<Longrightarrow> length (hc_block d) = 16 \<Longrightarrow> \<forall>b \<in> set bs. length b = 16 \<Longrightarrow> bs \<noteq> [] \<Longrightarrow>
     let d' = hashcrypt_feeds d (concat bs);
         st = foldl (\<lambda>h b. compress256 d h (concat (map le_bytes32 b))) (hc_state d) bs in
     hc_state d' = st \<and> hc_fill d' = 0 \<and> length (hc_block d') = 16 \<and>
     hc_digest d' = map swap_bytes st \<and> compress256 d' = compress256 d \<and>
     bit (hc_status d') 0 \<and> bit (hc_status d') 1"
proof (induction bs arbitrary: d)
  case Nil
  then show ?case by simp
next
  case (Cons b bs)
  let ?d = "hashcrypt_feeds d b"
  have B: "hc_state ?d = compress256 d (hc_state d) (concat (map le_bytes32 b))" "hc_fill ?d = 0"
    "length (hc_block ?d) = 16" "hc_digest ?d = map swap_bytes (hc_state ?d)"
    "compress256 ?d = compress256 d" "bit (hc_status ?d) 0" "bit (hc_status ?d) 1"
    using hashcrypt_block [of d b] Cons.prems by (auto simp: Let_def)
  show ?case
  proof (cases "bs = []")
    case True
    with B show ?thesis by (simp add: Let_def)
  next
    case False
    with Cons.IH [of ?d] Cons.prems B show ?thesis by (simp add: Let_def)
  qed
qed

lemma hashcrypt_start_write:
  "hashcrypt_write d REG_CTRL 0x12 = hashcrypt_start d"
  by (simp add: hashcrypt_write_def)

lemma hashcrypt_start_simps [simp]:
  "hc_state (hashcrypt_start d) = SHA256_IV" "hc_fill (hashcrypt_start d) = 0"
  "hc_block (hashcrypt_start d) = hc_block d" "compress256 (hashcrypt_start d) = compress256 d"
  by (simp_all add: hashcrypt_start_def)

definition hashcrypt_digest_words :: "hashcrypt \<Rightarrow> u32 list" where
  "hashcrypt_digest_words d =
     map (\<lambda>i. swap_bytes (hashcrypt_read d (REG_DIGEST0 + 4 * of_nat i))) [0..<8]"

lemma hashcrypt_read_DIGEST:
  assumes "i < 8"
  shows "hashcrypt_read d (REG_DIGEST0 + 4 * of_nat i) = hc_digest d ! i"
proof -
  from assms have "i \<in> {0, 1, 2, 3, 4, 5, 6, 7}" by auto
  then show ?thesis by (auto simp: hashcrypt_read_def)
qed

lemma swap_bytes_swap [simp]: "swap_bytes (swap_bytes v) = v"
  by (simp add: swap_bytes_def byte_simps)

section \<open>Properties\<close>

text \<open>
  Whatever the driver reads and writes, the generator never gets stuck: starting
  from its seed its state stays non-zero and no read of DR returns zero (the driver
  treats a zero word as an error).
\<close>

theorem rng_never_zero:
  "0 \<notin> set (fst (rng_run rng_new ops)) \<and> rng_state (snd (rng_run rng_new ops)) \<noteq> 0"
  using rng_run_nonzero [of rng_new ops] by (simp add: rng_new_def)

text \<open>
  The HASH engine computes the digest of the message the driver streams in: after
  CR.INIT, feeding words through DIN and setting STR.DCAL with no partial word, HR0 to
  HR7 read back as big-endian words are the digest of the words' little-endian bytes,
  DCIS is set and the digest interrupt (80) is raised exactly once.
\<close>

theorem hash_digest_of_message:
  fixes ws :: "u32 list"
  assumes "\<And>m. length (sha256 d m) = 32"
  defines "d' \<equiv> hash_write (hash_feed (hash_write d 0 4) ws) 8 0x100"
  shows "hash_result d' = sha256 d (concat (map le_bytes32 ws)) \<and>
         bit (hash_read d' 0x24) 1 \<and>
         fst (hash_take_irq d') = Some 80 \<and>
         fst (hash_take_irq (snd (hash_take_irq d'))) = None"
proof -
  let ?m = "concat (map le_bytes32 ws)"
  have d': "d' = (hash_write d 0 4)\<lparr>hash_buf := [], nblw := 0, dcis := True, irq_pending := True,
      hash_digest := map (\<lambda>i. be32_at (sha256 d ?m) (i * 4)) [0..<8]\<rparr>"
    by (simp add: d'_def hash_feed_eq hash_write_def hash_finish_def bit_simps)
  have "hash_result d' =
      concat (map (\<lambda>i. rev (le_bytes32 (be32_at (sha256 d ?m) (i * 4)))) [0..<8])"
    unfolding hash_result_def by (intro arg_cong [where f = concat] map_cong refl)
      (simp add: hash_read_HR d')
  also have "\<dots> = map (\<lambda>i. sha256 d ?m ! i) [0..<32]"
    by (simp add: be32_bytes upt_rec numeral_eq_Suc)
  also have "\<dots> = sha256 d ?m"
    using map_nth [of "sha256 d ?m"] assms(1) by simp
  finally show ?thesis
    by (simp add: d' hash_take_irq_def hash_read_def bit_simps)
qed

theorem hash_digest_of_message_witness:
  "hash_result (hash_write (hash_feed (hash_write (hash_new (\<lambda>m. replicate 32 (of_nat (length m)))) 0 4)
     [1, 2]) 8 0x100) = replicate 32 8"
  using hash_digest_of_message [of "hash_new (\<lambda>m. replicate 32 (of_nat (length m)))" "[1, 2]"]
  by (simp add: hash_new_def)

text \<open>
  HASHCRYPT is the Merkle-Damgard iteration the firmware relies on: after a CTRL
  write starting SHA2-256, streaming whole blocks of sixteen words through INDATA
  leaves in DIGEST0..7 (byte-swapped, as the firmware reads them) the compression
  function folded over the blocks from the SHA-256 initial value, with the digest
  flagged ready.
\<close>

theorem hashcrypt_folds_blocks:
  fixes bs :: "u32 list list"
  assumes "length (hc_block d) = 16" and "\<forall>b \<in> set bs. length b = 16" and "bs \<noteq> []"
    and "\<And>h b. length h = 8 \<Longrightarrow> length b = 64 \<Longrightarrow> length (compress256 d h b) = 8"
  defines "d' \<equiv> hashcrypt_feeds (hashcrypt_write d REG_CTRL 0x12) (concat bs)"
  shows "hashcrypt_digest_words d' =
           foldl (\<lambda>h b. compress256 d h (concat (map le_bytes32 b))) SHA256_IV bs \<and>
         bit (hashcrypt_read d' REG_STATUS) 1"
proof -
  let ?st = "foldl (\<lambda>h b. compress256 d h (concat (map le_bytes32 b))) SHA256_IV bs"
  have B: "hc_digest d' = map swap_bytes ?st" "bit (hc_status d') 1"
    using hashcrypt_blocks [of "hashcrypt_start d" bs] assms(1-3)
    unfolding d'_def hashcrypt_start_write by (auto simp: Let_def)
  have len: "length (foldl (\<lambda>h b. compress256 d h (concat (map le_bytes32 b))) h bs) = 8"
    if "length h = 8" "\<forall>b \<in> set bs. length b = 16" for h bs
    using that
  proof (induction bs arbitrary: h)
    case (Cons b bs)
    have "length (concat (map le_bytes32 b)) = 64"
      using Cons.prems by (simp add: length_concat comp_def sum_list_triv)
    with Cons assms(4) [of h] show ?case by simp
  qed simp
  have "length ?st = 8" using len [of SHA256_IV bs] assms(2) by (simp add: SHA256_IV_def)
  then have "hashcrypt_digest_words d' = ?st"
    unfolding hashcrypt_digest_words_def
    by (intro nth_equalityI) (simp_all add: hashcrypt_read_DIGEST B(1))
  with B(2) show ?thesis by (simp add: hashcrypt_read_def)
qed

theorem hashcrypt_folds_blocks_witness:
  "hashcrypt_digest_words (hashcrypt_feeds (hashcrypt_write (hashcrypt_new (\<lambda>h b. map (\<lambda>x. x + ucast (hd b)) h))
      REG_CTRL 0x12) (concat [replicate 16 3])) = map (\<lambda>x. x + 3) SHA256_IV"
proof -
  let ?cmp = "\<lambda>(h :: u32 list) (b :: u8 list). map (\<lambda>x. x + ucast (hd b)) h"
  have b: "ucast (hd (concat (map le_bytes32 (replicate 16 3)))) = (3 :: u32)"
  proof -
    have "replicate 16 (3 :: u32) = 3 # replicate 15 3" using replicate_Suc [of 15 "3 :: u32"] by simp
    then show ?thesis by (simp only: list.map concat.simps) (simp add: le_bytes32_def byte_of_def)
  qed
  have "hashcrypt_digest_words (hashcrypt_feeds (hashcrypt_write (hashcrypt_new ?cmp)
      REG_CTRL 0x12) (concat [replicate 16 3])) =
      foldl (\<lambda>h b. compress256 (hashcrypt_new ?cmp) h (concat (map le_bytes32 b))) SHA256_IV [replicate 16 3]"
    by (rule hashcrypt_folds_blocks [THEN conjunct1]) (simp_all add: hashcrypt_new_def)
  then show ?thesis unfolding hashcrypt_new_def using b by (simp del: concat.simps)
qed

end
