(* ===== verification/Vsc7448.thy ===== *)
theory Vsc7448
  imports Devices
begin

text \<open>
  SPI2 of the sidecar board (\<open>Vsc7448\<close> of \<open>src/soc.rs\<close>): the SPI register protocol of
  the VSC7448 management switch, its register plane, and the MIIM controller that bridges
  to a VSC8504 quad PHY. Arithmetic on \<open>u32\<close> wraps and shift amounts are taken modulo 32,
  as the release build computes them.
\<close>

unbundle bit_operations_syntax

section \<open>The PHY behind the MIIM controller\<close>

type_synonym phy_regs = "u8 \<times> u16 \<times> u8 \<rightharpoonup> u16"

record vsc =
  v_regs :: regmap
  v_plane :: "u32 \<rightharpoonup> u32"
  v_rx :: "u8 list"
  v_idx :: u32
  v_is_write :: bool
  v_waddr :: u32
  v_rval :: u32
  v_wval :: u32
  v_phy_regs :: phy_regs
  v_phy_page :: "u8 \<rightharpoonup> u16"
  v_mii_data :: u32

definition vsc_new :: vsc where
  "vsc_new = \<lparr>v_regs = Map.empty, v_plane = Map.empty, v_rx = [], v_idx = 0, v_is_write = False,
     v_waddr = 0, v_rval = 0, v_wval = 0, v_phy_regs = Map.empty, v_phy_page = Map.empty,
     v_mii_data = 0\<rparr>"

definition phy_read :: "vsc \<Rightarrow> u8 \<Rightarrow> u8 \<Rightarrow> u16" where
  "phy_read d phy rg =
     (let page = reg_get (v_phy_page d) phy;
          stored = reg_get (v_phy_regs d) (phy, page, rg) in
      if rg = 31 then page
      else if page = 0 \<and> rg = 2 then 0x0007
      else if page = 0 \<and> rg = 3 then 0x04c2
      else if page = 1 \<and> rg = 23 then
        (stored AND 0x07ff) OR push_bit 11 (ucast (phy - 4) AND 0x1f)
      else if page = 16 \<and> rg = 30 then 0x0001
      else stored)"

definition phy_write :: "vsc \<Rightarrow> u8 \<Rightarrow> u8 \<Rightarrow> u16 \<Rightarrow> vsc" where
  "phy_write d phy rg v =
     (if rg = 31 then d\<lparr>v_phy_page := (v_phy_page d)(phy \<mapsto> v)\<rparr>
      else
        let page = reg_get (v_phy_page d) phy;
            d1 = (if page = 16 \<and> rg = 18 \<and> v = 0x8008
                  then d\<lparr>v_phy_regs := (v_phy_regs d)((phy, 1, 25) \<mapsto> 0x29E8)\<rparr> else d);
            v1 = (if page = 0 \<and> rg = 0 then v AND NOT 0x8000
                  else if page = 16 \<and> rg = 18 then v AND NOT 0xC000 else v)
        in d1\<lparr>v_phy_regs := (v_phy_regs d1)((phy, page, rg) \<mapsto> v1)\<rparr>)"

definition mii_cmd :: "vsc \<Rightarrow> u32 \<Rightarrow> vsc" where
  "mii_cmd d v =
     (if drop_bit 31 v = 0 then d
      else
        let phy = ucast (drop_bit 25 v AND 0x1f);
            rg = ucast (drop_bit 20 v AND 0x1f);
            opr = drop_bit 1 v AND 3
        in if opr = 1 then phy_write d phy rg (ucast (drop_bit 4 v AND 0xffff))
           else if opr = 2 then d\<lparr>v_mii_data := ucast (phy_read d phy rg)\<rparr>
           else d)"

section \<open>The register plane\<close>

definition vsc_read :: "vsc \<Rightarrow> u32 \<Rightarrow> u32" where
  "vsc_read d waddr =
     (if waddr = 0x4000 then 0x374680E9
      else if waddr = 0x11800f then push_bit 14 5
      else if waddr = 0x4032 then 0
      else if waddr = 0x4035 then v_mii_data d
      else
        let rg = 0x71000000 OR push_bit 2 waddr;
            stored = reg_get (v_plane d) waddr in
        if 0x71480000 \<le> rg \<and> rg < 0x714C0000 then
          (let o' = rg AND 0xFFFF in
           if o' = 0x18c \<or> o' = 0xcc then stored OR 0x80000000
           else if o' = 0x190 \<or> o' = 0xd0 then stored OR 0xd
           else stored)
        else if 0x714C0000 \<le> rg \<and> rg < 0x71500000 \<and> rg AND 0xFFFF = 0x20 then stored OR 2
        else stored)"

definition RAM_INIT_REGS :: "u32 list" where
  "RAM_INIT_REGS = [0x717e03ec, 0x71b53528, 0x71c43638, 0x71f94358, 0x714139b8, 0x71450008]"

text \<open>What a completed register write stores: the self-clearing strobes come back clear.\<close>

definition vsc_stored :: "u32 \<Rightarrow> u32 \<Rightarrow> u32" where
  "vsc_stored a v =
     (let v1 = (if 0x71000000 OR push_bit 2 a \<in> set RAM_INIT_REGS then v AND NOT 2 else v)
      in if a = 0x11803a \<or> a = 0x11805a then v1 AND NOT 0xC0000000 else v1)"

definition vsc_commit :: "vsc \<Rightarrow> u32 \<Rightarrow> u32 \<Rightarrow> vsc" where
  "vsc_commit d a w =
     (let v = vsc_stored a w;
          d1 = (if a = 0x4034 then mii_cmd d v else d)
      in d1\<lparr>v_plane := (v_plane d1)(a \<mapsto> v)\<rparr>)"

section \<open>The SPI exchange\<close>

definition shamt :: "u32 \<Rightarrow> nat" where
  "shamt s = unat (s AND 31)"

definition vsc_xfer_byte :: "vsc \<Rightarrow> u8 \<Rightarrow> u8 \<times> vsc" where
  "vsc_xfer_byte d0 b =
     (let pos = v_idx d0; d = d0\<lparr>v_idx := pos + 1\<rparr> in
      if pos = 0 then
        (0, d\<lparr>v_is_write := (b AND 0x80 \<noteq> 0), v_waddr := push_bit 16 (ucast (b AND 0x7f))\<rparr>)
      else if pos = 1 then (0, d\<lparr>v_waddr := v_waddr d OR push_bit 8 (ucast b)\<rparr>)
      else if pos = 2 then
        (let d1 = d\<lparr>v_waddr := v_waddr d OR ucast b\<rparr>
         in (0, if v_is_write d1 then d1 else d1\<lparr>v_rval := vsc_read d1 (v_waddr d1)\<rparr>))
      else if v_is_write d then
        (let sh = shamt ((6 - pos) * 8);
             w = (v_wval d AND NOT (push_bit sh 0xFF)) OR push_bit sh (ucast b);
             d1 = d\<lparr>v_wval := w\<rparr>
         in (0, if pos = 6 then vsc_commit d1 (v_waddr d1) w else d1))
      else if pos = 3 then (0, d)
      else (ucast (drop_bit (shamt ((7 - pos) * 8)) (v_rval d) AND 0xFF), d))"

definition vsc_dev_read :: "vsc \<Rightarrow> u32 \<Rightarrow> u32 \<times> vsc" where
  "vsc_dev_read d off =
     (let w = word_of off in
      if w = 0x14 then
        (spi_sr (v_idx d) (reg_get (v_regs d) 0x04 AND 0xFFFF) (v_rx d \<noteq> []), d)
      else if w = 0x30 then
        (case v_rx d of [] \<Rightarrow> (0, d) | b # bs \<Rightarrow> (ucast b, d\<lparr>v_rx := bs\<rparr>))
      else if w = 0x20 then (0, d)
      else (reg_get (v_regs d) w, d))"

definition vsc_dev_write :: "vsc \<Rightarrow> u32 \<Rightarrow> u32 \<Rightarrow> vsc" where
  "vsc_dev_write d off val =
     (let w = word_of off in
      if w = 0x20 then
        let (rx, d1) = vsc_xfer_byte d (ucast val) in d1\<lparr>v_rx := v_rx d1 @ [rx]\<rparr>
      else if w = 0 then
        let was_spe = bit_set (reg_get (v_regs d) 0) 0;
            d1 = d\<lparr>v_regs := (v_regs d)(0 \<mapsto> val)\<rparr>
        in if bit_set val 0 \<and> \<not> was_spe
           then d1\<lparr>v_idx := 0, v_rx := [], v_wval := 0, v_is_write := False\<rparr> else d1
      else d\<lparr>v_regs := (v_regs d)(w \<mapsto> val)\<rparr>)"

section \<open>The driver's transactions\<close>

text \<open>
  A transaction toggles SPE and clocks bytes through TXDR; the answer is what RXDR pops.
\<close>

definition spi_start :: "vsc \<Rightarrow> vsc" where
  "spi_start d = vsc_dev_write (vsc_dev_write d 0 0) 0 1"

definition clock_bytes :: "vsc \<Rightarrow> u8 list \<Rightarrow> vsc" where
  "clock_bytes d bs = foldl (\<lambda>d b. vsc_dev_write d 0x20 (ucast b)) d bs"

primrec pop_rx :: "nat \<Rightarrow> vsc \<Rightarrow> u32 list" where
  "pop_rx 0 d = []"
| "pop_rx (Suc n) d = (let (v, d1) = vsc_dev_read d 0x30 in v # pop_rx n d1)"

definition reg_header :: "bool \<Rightarrow> u32 \<Rightarrow> u8 list" where
  "reg_header wr a = [(if wr then 0x80 else 0) OR byte_of a 2, byte_of a 1, byte_of a 0]"

definition be_bytes32 :: "u32 \<Rightarrow> u8 list" where
  "be_bytes32 v = [byte_of v 3, byte_of v 2, byte_of v 1, byte_of v 0]"

definition spi_reg_write :: "vsc \<Rightarrow> u32 \<Rightarrow> u32 \<Rightarrow> vsc" where
  "spi_reg_write d a v = clock_bytes (spi_start d) (reg_header True a @ be_bytes32 v)"

definition spi_reg_read :: "vsc \<Rightarrow> u32 \<Rightarrow> u32 list \<times> vsc" where
  "spi_reg_read d a =
     (let d1 = clock_bytes (spi_start d) (reg_header False a @ replicate 5 0)
      in (pop_rx 8 d1, d1))"

text \<open>The switch state, apart from the SPI exchange in progress.\<close>

definition same_switch :: "vsc \<Rightarrow> vsc \<Rightarrow> bool" where
  "same_switch d e = (v_plane d = v_plane e \<and> v_phy_regs d = v_phy_regs e \<and>
     v_phy_page d = v_phy_page e \<and> v_mii_data d = v_mii_data e)"

lemma same_switch_read: "same_switch d e \<Longrightarrow> vsc_read d = vsc_read e"
  by (rule ext) (simp add: vsc_read_def same_switch_def)

lemma txdr [simp]:
  "vsc_dev_write d 0x20 (ucast (b :: u8)) =
     (snd (vsc_xfer_byte d b))\<lparr>v_rx := v_rx (snd (vsc_xfer_byte d b)) @ [fst (vsc_xfer_byte d b)]\<rparr>"
  by (simp add: vsc_dev_write_def split_def Let_def)

lemma spi_start_fields:
  "spi_start d = d\<lparr>v_regs := (v_regs d)(0 \<mapsto> 1), v_idx := 0, v_rx := [], v_wval := 0, v_is_write := False\<rparr>"
  by (simp add: spi_start_def vsc_dev_write_def Let_def)

lemma waddr_join:
  assumes "a < 0x800000"
  shows "push_bit 16 (ucast (byte_of a 2 AND 0x7f)) OR push_bit 8 (ucast (byte_of a 1)) OR ucast (byte_of a 0) = (a :: u32)"
    and "push_bit 16 (ucast ((0x80 OR byte_of a 2) AND 0x7f)) OR push_bit 8 (ucast (byte_of a 1)) OR ucast (byte_of a 0) = (a :: u32)"
    and "\<not> bit (byte_of a 2) 7"
proof -
  have a: "a = take_bit 23 a"
  proof -
    have "unat a < 2 ^ 23" using assms by (simp add: word_less_nat_alt)
    then have "unat (take_bit 23 a) = unat a" by (simp add: unsigned_take_bit_eq take_bit_nat_eq_self)
    then show ?thesis by (simp add: word_unat_eq_iff)
  qed
  show "\<not> bit (byte_of a 2) 7" by (subst a) (simp add: bit_byte_of bit_take_bit_iff)
  have b: "n < 23" if "bit a n" for n
    using that by (subst (asm) a) (simp add: bit_take_bit_iff)
  have f: "(0x7f :: u8) = mask 7" by (simp add: mask_eq_exp_minus_1)
  show j: "push_bit 16 (ucast (byte_of a 2 AND 0x7f)) OR push_bit 8 (ucast (byte_of a 1)) OR ucast (byte_of a 0) = a"
    unfolding f by (rule bit_word_eqI) (auto simp: bit_simps bit_byte_of dest: b)
  have "(0x80 OR byte_of a 2) AND 0x7f = byte_of a 2 AND 0x7f" by (simp add: word_ao_dist)
  with j show "push_bit 16 (ucast ((0x80 OR byte_of a 2) AND 0x7f)) OR push_bit 8 (ucast (byte_of a 1)) OR ucast (byte_of a 0) = a"
    by simp
qed

section \<open>What a transaction does\<close>

lemma clock_bytes_simps [simp]:
  "clock_bytes d [] = d" "clock_bytes d (b # bs) = clock_bytes (vsc_dev_write d 0x20 (ucast b)) bs"
  by (simp_all add: clock_bytes_def)

lemma write_flag: "(0x80 OR b) AND (0x80 :: u8) \<noteq> 0"
  by (simp add: word_ao_dist)

lemma read_flag: "\<not> bit b 7 \<Longrightarrow> b AND (0x80 :: u8) = 0"
  using and_push_bit_1_iff [of b 7] by auto

lemma mask_load:
  fixes w v :: u32
  defines "m \<equiv> \<lambda>w (sh :: nat) (b :: u8). (w AND NOT (push_bit sh 0xFF)) OR push_bit sh (ucast b)"
  shows "m (m (m (m w 24 (byte_of v 3)) 16 (byte_of v 2)) 8 (byte_of v 1)) 0 (byte_of v 0) = v"
proof -
  have f: "(0xFF :: u32) = mask 8" by (simp add: mask_eq_exp_minus_1)
  show ?thesis unfolding m_def f by (rule bit_word_eqI) (auto simp: bit_simps bit_byte_of)
qed

lemma shamt_simps:
  "shamt ((6 - 3) * 8) = 24" "shamt ((6 - 4) * 8) = 16" "shamt ((6 - 5) * 8) = 8" "shamt ((6 - 6) * 8) = 0"
  "shamt ((7 - 4) * 8) = 24" "shamt ((7 - 5) * 8) = 16" "shamt ((7 - 6) * 8) = 8" "shamt ((7 - 7) * 8) = 0"
  by (simp_all add: shamt_def)

text \<open>Byte by byte: the header, then the value in or out.\<close>

lemma xfer_header:
  "v_idx d = 0 \<Longrightarrow> vsc_xfer_byte d b =
     (0, d\<lparr>v_idx := 1, v_is_write := (b AND 0x80 \<noteq> 0), v_waddr := push_bit 16 (ucast (b AND 0x7f))\<rparr>)"
  "v_idx d = 1 \<Longrightarrow> vsc_xfer_byte d b = (0, d\<lparr>v_idx := 2, v_waddr := v_waddr d OR push_bit 8 (ucast b)\<rparr>)"
  "v_idx d = 2 \<Longrightarrow> v_is_write d \<Longrightarrow>
     vsc_xfer_byte d b = (0, d\<lparr>v_idx := 3, v_waddr := v_waddr d OR ucast b\<rparr>)"
  "v_idx d = 2 \<Longrightarrow> \<not> v_is_write d \<Longrightarrow>
     vsc_xfer_byte d b = (0, d\<lparr>v_idx := 3, v_waddr := v_waddr d OR ucast b,
        v_rval := vsc_read d (v_waddr d OR ucast b)\<rparr>)"
  by (simp_all add: vsc_xfer_byte_def Let_def vsc_read_def)

lemma xfer_value_out:
  "v_idx d = 3 \<Longrightarrow> \<not> v_is_write d \<Longrightarrow> vsc_xfer_byte d b = (0, d\<lparr>v_idx := 4\<rparr>)"
  "v_idx d = 4 \<Longrightarrow> \<not> v_is_write d \<Longrightarrow> vsc_xfer_byte d b = (ucast (drop_bit 24 (v_rval d) AND 0xFF), d\<lparr>v_idx := 5\<rparr>)"
  "v_idx d = 5 \<Longrightarrow> \<not> v_is_write d \<Longrightarrow> vsc_xfer_byte d b = (ucast (drop_bit 16 (v_rval d) AND 0xFF), d\<lparr>v_idx := 6\<rparr>)"
  "v_idx d = 6 \<Longrightarrow> \<not> v_is_write d \<Longrightarrow> vsc_xfer_byte d b = (ucast (drop_bit 8 (v_rval d) AND 0xFF), d\<lparr>v_idx := 7\<rparr>)"
  "v_idx d = 7 \<Longrightarrow> \<not> v_is_write d \<Longrightarrow> vsc_xfer_byte d b = (ucast (v_rval d AND 0xFF), d\<lparr>v_idx := 8\<rparr>)"
  by (simp_all add: vsc_xfer_byte_def Let_def shamt_def)

definition load_byte :: "u32 \<Rightarrow> nat \<Rightarrow> u8 \<Rightarrow> u32" where
  "load_byte w sh b = (w AND NOT (push_bit sh 0xFF)) OR push_bit sh (ucast b)"

lemma xfer_value_in:
  "v_idx d = 3 \<Longrightarrow> v_is_write d \<Longrightarrow> vsc_xfer_byte d b = (0, d\<lparr>v_idx := 4, v_wval := load_byte (v_wval d) 24 b\<rparr>)"
  "v_idx d = 4 \<Longrightarrow> v_is_write d \<Longrightarrow> vsc_xfer_byte d b = (0, d\<lparr>v_idx := 5, v_wval := load_byte (v_wval d) 16 b\<rparr>)"
  "v_idx d = 5 \<Longrightarrow> v_is_write d \<Longrightarrow> vsc_xfer_byte d b = (0, d\<lparr>v_idx := 6, v_wval := load_byte (v_wval d) 8 b\<rparr>)"
  "v_idx d = 6 \<Longrightarrow> v_is_write d \<Longrightarrow> vsc_xfer_byte d b =
     (0, vsc_commit (d\<lparr>v_idx := 7, v_wval := load_byte (v_wval d) 0 b\<rparr>) (v_waddr d) (load_byte (v_wval d) 0 b))"
  by (simp_all add: vsc_xfer_byte_def Let_def shamt_def load_byte_def)

lemma vsc_commit_fields:
  "v_rx (vsc_commit d a w) = v_rx d"
  by (simp add: vsc_commit_def mii_cmd_def phy_write_def Let_def)

lemma spi_reg_write_is_commit:
  assumes "a < 0x800000"
  shows "\<exists>e. same_switch e d \<and> same_switch (spi_reg_write d a v) (vsc_commit e a v)"
proof -
  note w = waddr_join [OF assms]
  have l: "load_byte (load_byte (load_byte (load_byte 0 24 (byte_of v 3)) 16 (byte_of v 2)) 8 (byte_of v 1)) 0 (byte_of v 0) = v"
    using mask_load [of 0 v] by (simp add: load_byte_def)
  let ?e = "d\<lparr>v_regs := (v_regs d)(0 \<mapsto> 1), v_is_write := True, v_waddr := a, v_rx := [0, 0, 0, 0, 0, 0],
      v_idx := 7, v_wval := v\<rparr>"
  have "spi_reg_write d a v = (vsc_commit ?e a v)\<lparr>v_rx := v_rx (vsc_commit ?e a v) @ [0]\<rparr>"
    using w(2) write_flag [of "byte_of a 2"] l
    by (simp add: spi_reg_write_def spi_start_fields reg_header_def be_bytes32_def xfer_header xfer_value_in
        word_bw_assocs)
  moreover have "same_switch ?e d" by (simp add: same_switch_def)
  ultimately show ?thesis by (intro exI [of _ ?e]) (simp add: same_switch_def)
qed

lemma low_byte_of:
  "(ucast (drop_bit 24 v AND 0xFF) :: u8) = byte_of v 3" "(ucast (drop_bit 16 v AND 0xFF) :: u8) = byte_of v 2"
  "(ucast (drop_bit 8 v AND 0xFF) :: u8) = byte_of v 1" "(ucast (v AND 0xFF) :: u8) = byte_of (v :: u32) 0"
proof -
  have e: "(0xFF :: u32) = mask 8" by (simp add: mask_eq_exp_minus_1)
  show "(ucast (drop_bit 24 v AND 0xFF) :: u8) = byte_of v 3" "(ucast (drop_bit 16 v AND 0xFF) :: u8) = byte_of v 2"
    "(ucast (drop_bit 8 v AND 0xFF) :: u8) = byte_of v 1" "(ucast (v AND 0xFF) :: u8) = byte_of v 0"
    unfolding e byte_of_def by (rule bit_word_eqI, auto simp: bit_simps)+
qed

lemma byte_of_drop:
  "byte_of (drop_bit 24 v) 0 = byte_of v 3" "byte_of (drop_bit 16 v) 0 = byte_of v 2"
  "byte_of (drop_bit 8 v) 0 = byte_of v (Suc 0)"
  by (simp_all add: byte_of_def)

lemmas txdr_0 = txdr [of _ 0, simplified]

lemma replicate_5: "replicate 5 (0 :: u8) = [0, 0, 0, 0, 0]"
  by (simp add: numeral_eq_Suc)

lemma pop_all: "v_rx d = bs \<Longrightarrow> n = length bs \<Longrightarrow> pop_rx n d = map ucast bs"
  by (induction bs arbitrary: d n) (simp_all add: vsc_dev_read_def Let_def)

lemma spi_reg_read_value:
  assumes "a < 0x800000"
  shows "fst (spi_reg_read d a) = map ucast ([0, 0, 0, 0] @ be_bytes32 (vsc_read d a))"
    and "same_switch (snd (spi_reg_read d a)) d"
proof -
  note w = waddr_join [OF assms]
  let ?h = "d\<lparr>v_regs := (v_regs d)(0 \<mapsto> 1), v_wval := 0, v_is_write := False, v_waddr := a, v_rx := [0, 0], v_idx := 3\<rparr>"
  have r: "vsc_read ?h = vsc_read d" by (rule same_switch_read) (simp add: same_switch_def)
  have v: "vsc_read (e\<lparr>v_waddr := x\<rparr>) = vsc_read e" "vsc_read (e\<lparr>v_rx := y\<rparr>) = vsc_read e"
    "vsc_read (e\<lparr>v_idx := z\<rparr>) = vsc_read e" "vsc_read (e\<lparr>v_is_write := b\<rparr>) = vsc_read e"
    "vsc_read (e\<lparr>v_wval := u\<rparr>) = vsc_read e" "vsc_read (e\<lparr>v_regs := m\<rparr>) = vsc_read e" for e x y z b u m
    by (rule same_switch_read, simp add: same_switch_def)+
  let ?d = "clock_bytes (spi_start d) (reg_header False a @ replicate 5 0)"
  have c: "v_rx ?d = [0, 0, 0, 0] @ be_bytes32 (vsc_read d a) \<and> same_switch ?d d"
    using w(1) read_flag [OF w(3)]
    by (simp add: spi_start_fields reg_header_def be_bytes32_def xfer_header xfer_value_out replicate_5
        low_byte_of byte_of_drop txdr_0 word_bw_assocs v same_switch_def)
  then show "same_switch (snd (spi_reg_read d a)) d" by (simp add: spi_reg_read_def Let_def)
  have "pop_rx 8 ?d = map ucast ([0, 0, 0, 0] @ be_bytes32 (vsc_read d a))"
    using c by (intro pop_all) (simp_all add: be_bytes32_def)
  then show "fst (spi_reg_read d a) = map ucast ([0, 0, 0, 0] @ be_bytes32 (vsc_read d a))"
    by (simp add: spi_reg_read_def Let_def)
qed

section \<open>PHY registers over MIIM over SPI\<close>

text \<open>The command word monorail writes to MII_CMD: valid, PHY and register address, data, operation.\<close>

definition mii_word :: "u32 \<Rightarrow> u8 \<Rightarrow> u8 \<Rightarrow> u16 \<Rightarrow> u32" where
  "mii_word opr phy rg v = push_bit 31 1 OR push_bit 25 (ucast phy) OR push_bit 20 (ucast rg) OR
     push_bit 4 (ucast v) OR push_bit 1 opr"

lemma bit_small: "x < 32 \<Longrightarrow> bit (x :: u8) n \<Longrightarrow> n < 5"
proof -
  assume a: "x < 32" "bit x n"
  have "unat x < 2 ^ 5" using a(1) by (simp add: word_less_nat_alt)
  then have "unat (take_bit 5 x) = unat x" by (simp add: unsigned_take_bit_eq take_bit_nat_eq_self)
  then have "x = take_bit 5 x" by (simp add: word_unat_eq_iff)
  with a(2) show ?thesis by (metis bit_take_bit_iff)
qed

lemma bit_opr: "x \<in> {1, 2} \<Longrightarrow> bit (x :: u32) n \<Longrightarrow> n < 2"
  using bit_word_exp [of 1 n, where 'a = 32] by (auto simp: bit_1_iff)

lemma mii_fields:
  assumes "phy < 32" and "rg < 32" and "opr \<in> {1, 2}"
  shows "drop_bit 31 (mii_word opr phy rg v) \<noteq> 0"
    and "(ucast (drop_bit 25 (mii_word opr phy rg v) AND 0x1f) :: u8) = phy"
    and "(ucast (drop_bit 20 (mii_word opr phy rg v) AND 0x1f) :: u8) = rg"
    and "drop_bit 1 (mii_word opr phy rg v) AND 3 = opr"
    and "(ucast (drop_bit 4 (mii_word opr phy rg v) AND 0xffff) :: u16) = v"
proof -
  have m: "(0x1f :: u32) = mask 5" "(3 :: u32) = mask 2" "(0xffff :: u32) = mask 16"
    by (simp_all add: mask_eq_exp_minus_1)
  note bits = bit_small [OF assms(1)] bit_small [OF assms(2)] bit_opr [OF assms(3)]
  have B: "bit (mii_word opr phy rg v) n \<longleftrightarrow> n < 32 \<and> (n = 31 \<or> 25 \<le> n \<and> bit phy (n - 25) \<or>
      20 \<le> n \<and> bit rg (n - 20) \<or> 4 \<le> n \<and> bit v (n - 4) \<or> 1 \<le> n \<and> bit opr (n - 1))" for n
    unfolding mii_word_def bit_or_iff bit_push_bit_iff bit_unsigned_iff bit_1_iff
    by (auto dest: bit_imp_le_length)
  have "bit (drop_bit 31 (mii_word opr phy rg v)) 0"
    unfolding bit_drop_bit_eq comp_def B by simp
  then show "drop_bit 31 (mii_word opr phy rg v) \<noteq> 0" by auto
  show "(ucast (drop_bit 25 (mii_word opr phy rg v) AND 0x1f) :: u8) = phy"
    "(ucast (drop_bit 20 (mii_word opr phy rg v) AND 0x1f) :: u8) = rg"
    "drop_bit 1 (mii_word opr phy rg v) AND 3 = opr"
    "(ucast (drop_bit 4 (mii_word opr phy rg v) AND 0xffff) :: u16) = v"
    by (rule bit_word_eqI, unfold m bit_unsigned_iff bit_and_iff bit_mask_iff bit_drop_bit_eq comp_def B,
        auto dest: bits bit_imp_le_length)+
qed

text \<open>A PHY register the model stores and returns, as opposed to the identity and command ones.\<close>

definition plain_phy_reg :: "u16 \<Rightarrow> u8 \<Rightarrow> bool" where
  "plain_phy_reg page rg = (rg < 31 \<and>
     (page, rg) \<notin> {(0, 0), (0, 2), (0, 3), (1, 23), (16, 18), (16, 30)})"

lemma same_switch_commit:
  "same_switch e d \<Longrightarrow> same_switch (vsc_commit e a v) (vsc_commit d a v)"
  by (simp add: same_switch_def vsc_commit_def mii_cmd_def phy_write_def phy_read_def Let_def)

lemma same_switch_trans: "same_switch d e \<Longrightarrow> same_switch e f \<Longrightarrow> same_switch d f"
  by (simp add: same_switch_def)

lemma spi_write_switch:
  assumes "a < 0x800000" and "same_switch d e"
  shows "same_switch (spi_reg_write d a v) (vsc_commit e a v)"
  using spi_reg_write_is_commit [OF assms(1), of d v] assms(2) same_switch_commit same_switch_trans
  by metis

lemma commit_mii_cmd:
  "vsc_commit d 0x4034 v = (mii_cmd d v)\<lparr>v_plane := (v_plane (mii_cmd d v))(0x4034 \<mapsto> v)\<rparr>"
  by (simp add: vsc_commit_def vsc_stored_def RAM_INIT_REGS_def Let_def)

definition miim_write :: "vsc \<Rightarrow> u8 \<Rightarrow> u8 \<Rightarrow> u16 \<Rightarrow> vsc" where
  "miim_write d phy rg v = spi_reg_write d 0x4034 (mii_word 1 phy rg v)"

definition miim_read :: "vsc \<Rightarrow> u8 \<Rightarrow> u8 \<Rightarrow> u32 list" where
  "miim_read d phy rg = fst (spi_reg_read (spi_reg_write d 0x4034 (mii_word 2 phy rg 0)) 0x4035)"

lemma miim_write_switch:
  assumes "phy < 32" and "rg < 32" and "same_switch d e"
  shows "same_switch (miim_write d phy rg v)
    ((phy_write e phy rg v)\<lparr>v_plane := (v_plane e)(0x4034 \<mapsto> mii_word 1 phy rg v)\<rparr>)"
proof -
  note f = mii_fields [OF assms(1,2), of 1 v, simplified]
  have "same_switch (miim_write d phy rg v) (vsc_commit e 0x4034 (mii_word 1 phy rg v))"
    unfolding miim_write_def by (rule spi_write_switch) (use assms(3) in simp_all)
  moreover have "vsc_commit e 0x4034 (mii_word 1 phy rg v) =
      (phy_write e phy rg v)\<lparr>v_plane := (v_plane e)(0x4034 \<mapsto> mii_word 1 phy rg v)\<rparr>"
    unfolding commit_mii_cmd mii_cmd_def Let_def f(2,3,5) using f(1,4) by (simp add: phy_write_def Let_def)
  ultimately show ?thesis by simp
qed

lemma miim_read_value:
  assumes "phy < 32" and "rg < 32" and "same_switch d e"
  shows "miim_read d phy rg = map ucast ([0, 0, 0, 0] @ be_bytes32 (ucast (phy_read e phy rg)))"
proof -
  note f = mii_fields [OF assms(1,2), of 2 0, simplified]
  let ?e = "vsc_commit e 0x4034 (mii_word 2 phy rg 0)" and ?d = "spi_reg_write d 0x4034 (mii_word 2 phy rg 0)"
  have s: "same_switch ?d ?e" by (rule spi_write_switch) (use assms(3) in simp_all)
  have "v_mii_data ?e = ucast (phy_read e phy rg)"
    unfolding commit_mii_cmd mii_cmd_def Let_def f(2,3) using f(1,4) by simp
  then have "vsc_read ?d 0x4035 = ucast (phy_read e phy rg)"
    using s by (simp add: vsc_read_def same_switch_def)
  then show ?thesis
    unfolding miim_read_def by (subst spi_reg_read_value(1)) simp_all
qed

text \<open>
  C35: A PHY register behind the switch keeps what the driver writes: selecting a page, writing
  a register and reading it back, each over the MIIM controller and each MIIM command a SPI
  register transaction, clocks out the pad and then the written value, for every register the
  PHY does not synthesize.
\<close>

theorem miim_round_trip:
  assumes "phy < 32" and "plain_phy_reg page rg"
  shows "miim_read (miim_write (miim_write d phy 31 page) phy rg v) phy rg =
    map ucast ([0, 0, 0, 0] @ be_bytes32 (ucast v))"
proof -
  have rg: "rg < 32" and n: "rg \<noteq> 31"
    using assms(2) by (auto simp: plain_phy_reg_def word_less_nat_alt)
  let ?p = "(phy_write d phy 31 page)\<lparr>v_plane := (v_plane d)(0x4034 \<mapsto> mii_word 1 phy 31 page)\<rparr>"
  have p: "same_switch (miim_write d phy 31 page) ?p"
    by (rule miim_write_switch) (use assms(1) in \<open>simp_all add: same_switch_def\<close>)
  have q: "same_switch (miim_write (miim_write d phy 31 page) phy rg v)
      ((phy_write ?p phy rg v)\<lparr>v_plane := (v_plane ?p)(0x4034 \<mapsto> mii_word 1 phy rg v)\<rparr>)"
    by (rule miim_write_switch [OF assms(1) rg p])
  have "phy_read ((phy_write ?p phy rg v)\<lparr>v_plane := m\<rparr>) phy rg = v" for m
    using assms(2) n by (auto simp: phy_read_def phy_write_def plain_phy_reg_def Let_def)
  then show ?thesis using miim_read_value [OF assms(1) rg q] by simp
qed

lemma miim_round_trip_witness:
  "miim_read (miim_write (miim_write vsc_new 4 31 3) 4 20 0xBEEF) 4 20 =
     map ucast ([0, 0, 0, 0] @ be_bytes32 (ucast (0xBEEF :: u16)))"
  by (rule miim_round_trip) (simp_all add: plain_phy_reg_def)

end
