(* ===== verification/Fpga.thy ===== *)
theory Fpga
  imports Devices Text
begin

text \<open>
  SPI5 of the sidecar board (\<open>Spi5\<close> of \<open>src/soc.rs\<close>): the mainboard FPGA's register
  protocol, its ignition controller block, the Tofino sequencer and debug port. The
  generation of the chip select comes from the GPIO bank with every write.
\<close>

unbundle bit_operations_syntax

section \<open>State\<close>

type_synonym fpga_regs = "u16 \<rightharpoonup> u8"

record spi5 =
  f_regs :: regmap
  f_rx :: "u8 list"
  f_idx :: u32
  f_op :: u8
  f_addr :: u16
  f_dpos :: u32
  f_xfer_cnt :: u32
  f_last_gen :: u32
  f_fpga :: fpga_regs
  f_dbg_req :: "u8 list"
  f_dbg_resp :: "u8 list"
  f_tofino :: regmap

text \<open>Storing a list of bytes at consecutive addresses.\<close>

primrec put_bytes :: "fpga_regs \<Rightarrow> u16 \<Rightarrow> u8 list \<Rightarrow> fpga_regs" where
  "put_bytes m a [] = m"
| "put_bytes m a (b # bs) = put_bytes (m(a \<mapsto> b)) (a + 1) bs"

section \<open>The ignition topology\<close>

abbreviation (input) NUM_PORTS :: nat where "NUM_PORTS \<equiv> 35"

definition lower :: "string \<Rightarrow> string" where
  "lower = map (\<lambda>c. if 65 \<le> (of_char c :: nat) \<and> (of_char c :: nat) \<le> 90
     then char_of ((of_char c :: nat) + 32) else c)"

definition system_type :: "string \<Rightarrow> u8" where
  "system_type s =
     (let t = lower (trim s) in
      if t = ''gimlet'' then 0x11 else if t = ''sidecar'' then 0x12
      else if t = ''psc'' then 0x13 else if t = ''cosmo'' then 0x04 else 0x11)"

definition ignition_entry :: "string \<Rightarrow> (nat \<times> u8) option" where
  "ignition_entry e =
     (case split_once (CHR '':'') e of
        None \<Rightarrow> None
      | Some (port_s, type_s) \<Rightarrow>
          (case parse_uint 10 255 (trim port_s) of
             None \<Rightarrow> None
           | Some p \<Rightarrow> if p < NUM_PORTS then Some (p, system_type type_s) else None))"

definition seed_port :: "fpga_regs \<times> u64 \<Rightarrow> string \<Rightarrow> fpga_regs \<times> u64" where
  "seed_port s e =
     (case (s, ignition_entry e) of
        ((m, present), Some (p, t)) \<Rightarrow>
          (put_bytes m (0x400 + 0x100 * of_nat p) [0x01, 0x03, t, 0x05, 0x00, 0x00, 0x03, 0x03],
           present OR push_bit p 1)
      | (s, None) \<Rightarrow> s)"

definition seed_ignition :: "string \<Rightarrow> fpga_regs \<Rightarrow> fpga_regs" where
  "seed_ignition spec m =
     (let entries = filter (\<lambda>s. s \<noteq> []) (map trim (split_char (CHR '','') spec));
          (m1, present) = foldl seed_port (m(0x300 \<mapsto> of_nat NUM_PORTS), 0) entries
      in put_bytes m1 0x301 (map (\<lambda>i. byte_of present i) [0..<8]))"

definition fpga_reset :: fpga_regs where
  "fpga_reset =
     (put_bytes (put_bytes Map.empty 0 [0x01, 0xde, 0x5b, 0xae, 0x64, 0x07, 0x47, 0x5e])
        0x100 [0x00, 0x01, 0x00, 0x00, 0x00, 0x00])(0x30 \<mapsto> 0x40, 0x201 \<mapsto> 0x05)"

definition spi5_new :: "string \<Rightarrow> spi5" where
  "spi5_new spec = \<lparr>f_regs = Map.empty, f_rx = [], f_idx = 0, f_op = 0, f_addr = 0, f_dpos = 0,
     f_xfer_cnt = 0, f_last_gen = 0, f_fpga = seed_ignition spec fpga_reset, f_dbg_req = [],
     f_dbg_resp = [], f_tofino = Map.empty\<rparr>"

section \<open>The Tofino behind the FPGA\<close>

definition tofino_debug_request :: "spi5 \<Rightarrow> spi5" where
  "tofino_debug_request d =
     (let q = f_dbg_req d; addr = le32 (q ! 1) (q ! 2) (q ! 3) (q ! 4);
          d1 = d\<lparr>f_dbg_req := []\<rparr>;
          d2 = (if length q \<ge> 5 then
                  (if q ! 0 = 0xA0 then
                     d1\<lparr>f_dbg_resp := f_dbg_resp d1 @ le_bytes32 (reg_get (f_tofino d1) addr)\<rparr>
                   else if q ! 0 = 0x80 \<and> length q \<ge> 9 then
                     d1\<lparr>f_tofino := (f_tofino d1)(addr \<mapsto> le32 (q ! 5) (q ! 6) (q ! 7) (q ! 8))\<rparr>
                   else d1)
                else d1)
      in d2\<lparr>f_fpga := (f_fpga d2)(0x201 \<mapsto> 0x05)\<rparr>)"

definition tofino_seq_ctrl_written :: "fpga_regs \<Rightarrow> fpga_regs" where
  "tofino_seq_ctrl_written m =
     (let ctrl = reg_get m 0x100;
          (state, vid, rail) = (if ctrl AND 2 \<noteq> 0 then (2, 0x88, 3) else (1, 0, 0))
      in put_bytes (m(0x100 \<mapsto> ctrl AND 2, 0x101 \<mapsto> state, 0x10c \<mapsto> vid)) 0x106 (replicate 6 rail))"

section \<open>The SPI exchange\<close>

definition check_cs :: "u32 \<Rightarrow> spi5 \<Rightarrow> spi5" where
  "check_cs gen d =
     (if gen \<noteq> f_last_gen d
      then d\<lparr>f_idx := 0, f_dpos := 0, f_rx := [], f_op := 0, f_addr := 0, f_xfer_cnt := 0, f_last_gen := gen\<rparr>
      else d)"

definition data_addr :: "bool \<Rightarrow> spi5 \<Rightarrow> u16" where
  "data_addr incr d = f_addr d + ucast (if incr then f_dpos d else 0)"

definition next_data :: "spi5 \<Rightarrow> u8 \<times> spi5" where
  "next_data d =
     (let a = data_addr (f_op d \<noteq> 5 \<and> f_op d \<noteq> 6) d;
          d1 = d\<lparr>f_dpos := f_dpos d + 1\<rparr>
      in if a = 0x200 then
           (case f_dbg_resp d1 of [] \<Rightarrow> (0, d1) | b # bs \<Rightarrow> (b, d1\<lparr>f_dbg_resp := bs\<rparr>))
         else (reg_get (f_fpga d1) a, d1))"

definition store_data :: "u8 \<Rightarrow> spi5 \<Rightarrow> spi5" where
  "store_data b d =
     (let a = data_addr (f_op d \<noteq> 5) d;
          d1 = d\<lparr>f_dpos := f_dpos d + 1\<rparr>
      in if a = 0x200 then d1\<lparr>f_dbg_req := f_dbg_req d1 @ [b]\<rparr>
         else
           let cur = reg_get (f_fpga d1) a;
               nv = (if f_op d = 2 then cur OR b else if f_op d = 3 then cur AND NOT b else b);
               d2 = d1\<lparr>f_fpga := (f_fpga d1)(a \<mapsto> nv)\<rparr>;
               d3 = (if a = 0x100 then d2\<lparr>f_fpga := tofino_seq_ctrl_written (f_fpga d2)\<rparr> else d2)
           in if a = 0x201 \<and> nv AND 0x10 \<noteq> 0 then tofino_debug_request d3 else d3)"

definition spi5_xfer :: "spi5 \<Rightarrow> u8 \<Rightarrow> u8 \<times> spi5" where
  "spi5_xfer d0 b =
     (let d = d0\<lparr>f_xfer_cnt := f_xfer_cnt d0 + 1\<rparr> in
      if f_idx d = 0 then (0, d\<lparr>f_op := b, f_idx := 1\<rparr>)
      else if f_idx d = 1 then (0, d\<lparr>f_addr := push_bit 8 (ucast b), f_idx := 2\<rparr>)
      else if f_idx d = 2 then (0, d\<lparr>f_addr := f_addr d OR ucast b, f_idx := 3\<rparr>)
      else if f_op d = 1 \<or> f_op d = 6 then next_data d
      else (0, store_data b d))"

definition spi5_read :: "spi5 \<Rightarrow> u32 \<Rightarrow> u32 \<times> spi5" where
  "spi5_read d off =
     (let w = word_of off in
      if w = 0x14 then
        (spi_sr (f_xfer_cnt d) (reg_get (f_regs d) 0x04 AND 0xFFFF) (f_rx d \<noteq> []), d)
      else if w = 0x30 then
        (case f_rx d of
           b # bs \<Rightarrow> (ucast b, d\<lparr>f_rx := bs\<rparr>)
         | [] \<Rightarrow>
             if f_idx d \<ge> 3 \<and> (f_op d = 1 \<or> f_op d = 6) then
               (let (b, d1) = next_data (d\<lparr>f_xfer_cnt := f_xfer_cnt d + 1\<rparr>) in (ucast b, d1))
             else (0, d))
      else (reg_get (f_regs d) w, d))"

definition spi5_write :: "u32 \<Rightarrow> spi5 \<Rightarrow> u32 \<Rightarrow> u32 \<Rightarrow> spi5" where
  "spi5_write gen d0 off val =
     (let d = check_cs gen d0; w = word_of off in
      if w = 0x20 then
        (let (rx, d1) = spi5_xfer d (ucast val) in d1\<lparr>f_rx := f_rx d1 @ [rx]\<rparr>)
      else if w = 4 then d\<lparr>f_xfer_cnt := 0, f_regs := (f_regs d)(4 \<mapsto> val)\<rparr>
      else d\<lparr>f_regs := (f_regs d)(w \<mapsto> val)\<rparr>)"

section \<open>The driver's commands\<close>

text \<open>
  A command is one chip-select assertion: the header, then data written, or data read by
  clocking dummy bytes and popping the receive FIFO past the header's three bytes.
\<close>

definition clock5 :: "u32 \<Rightarrow> spi5 \<Rightarrow> u8 list \<Rightarrow> spi5" where
  "clock5 gen d bs = foldl (\<lambda>d b. spi5_write gen d 0x20 (ucast b)) d bs"

definition header5 :: "u8 \<Rightarrow> u16 \<Rightarrow> u8 list" where
  "header5 op a = [op, byte_of a 1, byte_of a 0]"

definition fpga_command :: "u32 \<Rightarrow> u8 \<Rightarrow> u16 \<Rightarrow> u8 list \<Rightarrow> spi5 \<Rightarrow> spi5" where
  "fpga_command gen op a bs d = clock5 gen d (header5 op a @ bs)"

definition fpga_answer :: "u32 \<Rightarrow> u8 \<Rightarrow> u16 \<Rightarrow> nat \<Rightarrow> spi5 \<Rightarrow> u8 list" where
  "fpga_answer gen op a n d = drop 3 (f_rx (fpga_command gen op a (replicate n 0) d))"

text \<open>
  A debug-port request: the bytes into the buffer with the address held, then
  \<open>REQUEST_IN_PROGRESS\<close> into the state register; the answer is read out of the buffer.
\<close>

definition debug_request :: "u32 \<Rightarrow> u8 list \<Rightarrow> spi5 \<Rightarrow> spi5" where
  "debug_request gen q d = fpga_command (gen + 1) 2 0x201 [0x10] (fpga_command gen 5 0x200 q d)"

definition tofino_write :: "u32 \<Rightarrow> u32 \<Rightarrow> u32 \<Rightarrow> spi5 \<Rightarrow> spi5" where
  "tofino_write gen a v d = debug_request gen (0x80 # le_bytes32 a @ le_bytes32 v) d"

definition tofino_read :: "u32 \<Rightarrow> u32 \<Rightarrow> spi5 \<Rightarrow> u8 list" where
  "tofino_read gen a d = fpga_answer (gen + 2) 6 0x200 4 (debug_request gen (0xA0 # le_bytes32 a) d)"

section \<open>What a command does\<close>

lemma clock5_append [simp]: "clock5 gen d (xs @ ys) = clock5 gen (clock5 gen d xs) ys"
  by (simp add: clock5_def)

lemma clock5_simps [simp]: "clock5 gen d [] = d"
  "clock5 gen d (b # bs) = clock5 gen (spi5_write gen d 0x20 (ucast b)) bs"
  by (simp_all add: clock5_def)

lemma write_txdr5:
  "spi5_write gen d 0x20 (ucast (b :: u8)) =
     (let (rx, d1) = spi5_xfer (check_cs gen d) b in d1\<lparr>f_rx := f_rx d1 @ [rx]\<rparr>)"
  by (simp add: spi5_write_def)

lemma be16_bytes: "push_bit 8 (ucast (byte_of a (Suc 0))) OR ucast (byte_of a 0) = (a :: u16)"
  using le16_bytes [of a] by (simp add: le16_def or.commute)

lemma clock_header:
  "f_last_gen d \<noteq> gen \<Longrightarrow> clock5 gen d (header5 op a) =
     d\<lparr>f_idx := 3, f_dpos := 0, f_rx := [0, 0, 0], f_op := op, f_addr := a, f_xfer_cnt := 3, f_last_gen := gen\<rparr>"
  by (simp add: header5_def write_txdr5 check_cs_def spi5_xfer_def be16_bytes)

text \<open>The data phases the debug port uses.\<close>

lemma buffer_writes:
  assumes "f_idx d = 3" and "f_op d = 5" and "f_addr d = 0x200" and "f_last_gen d = gen"
  shows "\<exists>rx n m. clock5 gen d bs =
    d\<lparr>f_rx := rx, f_dbg_req := f_dbg_req d @ bs, f_dpos := n, f_xfer_cnt := m\<rparr>"
  using assms
proof (induction bs arbitrary: d)
  case Nil
  have "d = d\<lparr>f_rx := f_rx d, f_dbg_req := f_dbg_req d, f_dpos := f_dpos d, f_xfer_cnt := f_xfer_cnt d\<rparr>" by simp
  then show ?case by (metis append_Nil2 clock5_simps(1))
next
  case (Cons b bs)
  let ?e = "spi5_write gen d 0x20 (ucast b)"
  have e: "?e = d\<lparr>f_xfer_cnt := f_xfer_cnt d + 1, f_dpos := f_dpos d + 1, f_dbg_req := f_dbg_req d @ [b],
      f_rx := f_rx d @ [0]\<rparr>"
    using Cons.prems by (simp add: write_txdr5 check_cs_def spi5_xfer_def store_data_def data_addr_def Let_def)
  have "f_idx ?e = 3" "f_op ?e = 5" "f_addr ?e = 0x200" "f_last_gen ?e = gen" using Cons.prems by (simp_all add: e)
  from Cons.IH [OF this] obtain rx n m where "clock5 gen ?e bs =
      ?e\<lparr>f_rx := rx, f_dbg_req := f_dbg_req ?e @ bs, f_dpos := n, f_xfer_cnt := m\<rparr>" by blast
  then show ?case by (intro exI [of _ rx] exI [of _ n] exI [of _ m]) (simp add: e)
qed

lemma tofino_debug_request_rx [simp]: "f_rx (tofino_debug_request d) = f_rx d"
  by (simp add: tofino_debug_request_def Let_def)

lemma request_bit:
  assumes "f_idx d = 3" and "f_op d = 2" and "f_addr d = 0x201" and "f_dpos d = 0" and "f_last_gen d = gen"
  shows "spi5_write gen d 0x20 0x10 =
    tofino_debug_request (d\<lparr>f_xfer_cnt := f_xfer_cnt d + 1, f_dpos := 1,
      f_fpga := (f_fpga d)(0x201 \<mapsto> reg_get (f_fpga d) 0x201 OR 0x10)\<rparr>)\<lparr>f_rx := f_rx d @ [0]\<rparr>"
proof -
  have "((x :: u8) OR 0x10) AND 0x10 \<noteq> 0" for x by (simp add: word_ao_dist)
  moreover have "spi5_write gen d 0x20 0x10 = (let (rx, d1) = spi5_xfer (check_cs gen d) 0x10 in d1\<lparr>f_rx := f_rx d1 @ [rx]\<rparr>)"
    using write_txdr5 [of gen d "0x10"] by simp
  ultimately show ?thesis
    using assms by (simp add: check_cs_def spi5_xfer_def store_data_def data_addr_def)
qed

lemma debug_request_runs:
  assumes "f_last_gen d \<noteq> gen" and "f_dbg_req d = []"
  shows "\<exists>rx i n m ad. debug_request gen q d =
    tofino_debug_request (d\<lparr>f_dbg_req := q, f_idx := i, f_rx := rx, f_op := 2, f_addr := ad,
      f_last_gen := gen + 1, f_xfer_cnt := m, f_dpos := n, f_fpga := (f_fpga d)(0x201 \<mapsto> reg_get (f_fpga d) 0x201 OR 0x10)\<rparr>)
      \<lparr>f_rx := rx @ [0]\<rparr>"
proof -
  let ?h = "clock5 gen d (header5 5 0x200)"
  have h: "?h = d\<lparr>f_idx := 3, f_dpos := 0, f_rx := [0, 0, 0], f_op := 5, f_addr := 0x200, f_xfer_cnt := 3,
      f_last_gen := gen\<rparr>" by (rule clock_header [OF assms(1)])
  obtain rx n m where b: "clock5 gen ?h q = ?h\<lparr>f_rx := rx, f_dbg_req := q, f_dpos := n, f_xfer_cnt := m\<rparr>"
    using buffer_writes [of ?h gen q] assms(2) by (auto simp: h)
  let ?g = "d\<lparr>f_idx := 3, f_dpos := n, f_rx := rx, f_op := 5, f_addr := 0x200, f_xfer_cnt := m, f_last_gen := gen,
      f_dbg_req := q\<rparr>"
  have g: "clock5 gen d (header5 5 0x200 @ q) = ?g"
    using b by (simp add: h)
  have "clock5 (gen + 1) ?g (header5 2 0x201) = ?g\<lparr>f_idx := 3, f_dpos := 0, f_rx := [0, 0, 0], f_op := 2,
      f_addr := 0x201, f_xfer_cnt := 3, f_last_gen := gen + 1\<rparr>" by (rule clock_header) simp
  then have "debug_request gen q d =
    tofino_debug_request (d\<lparr>f_dbg_req := q, f_idx := 3, f_rx := [0, 0, 0], f_op := 2, f_addr := 0x201,
      f_last_gen := gen + 1, f_xfer_cnt := 4, f_dpos := 1, f_fpga := (f_fpga d)(0x201 \<mapsto> reg_get (f_fpga d) 0x201 OR 0x10)\<rparr>)
      \<lparr>f_rx := [0, 0, 0] @ [0]\<rparr>"
    unfolding debug_request_def fpga_command_def g by (simp add: request_bit)
  then show ?thesis by (intro exI)
qed

lemma tofino_write_effect:
  assumes "f_last_gen d \<noteq> gen" and "f_dbg_req d = []"
  shows "f_tofino (tofino_write gen a v d) = (f_tofino d)(a \<mapsto> v)"
    and "f_dbg_req (tofino_write gen a v d) = []" and "f_dbg_resp (tofino_write gen a v d) = f_dbg_resp d"
    and "f_last_gen (tofino_write gen a v d) = gen + 1"
proof -
  obtain rx i n m ad where r: "tofino_write gen a v d = tofino_debug_request (d\<lparr>f_dbg_req := 0x80 # le_bytes32 a @ le_bytes32 v,
      f_idx := i, f_rx := rx, f_op := 2, f_addr := ad, f_last_gen := gen + 1, f_xfer_cnt := m, f_dpos := n,
      f_fpga := (f_fpga d)(0x201 \<mapsto> reg_get (f_fpga d) 0x201 OR 0x10)\<rparr>)\<lparr>f_rx := rx @ [0]\<rparr>"
    unfolding tofino_write_def using debug_request_runs [OF assms, of "0x80 # le_bytes32 a @ le_bytes32 v"] by blast
  show "f_tofino (tofino_write gen a v d) = (f_tofino d)(a \<mapsto> v)"
    "f_dbg_req (tofino_write gen a v d) = []" "f_dbg_resp (tofino_write gen a v d) = f_dbg_resp d"
    "f_last_gen (tofino_write gen a v d) = gen + 1"
    by (simp_all add: r tofino_debug_request_def Let_def le_bytes32_def le32_bytes)
qed

lemma tofino_request_effect:
  assumes "f_last_gen d \<noteq> gen" and "f_dbg_req d = []"
  shows "f_dbg_resp (debug_request gen (0xA0 # le_bytes32 a) d) = f_dbg_resp d @ le_bytes32 (reg_get (f_tofino d) a)"
    and "f_last_gen (debug_request gen (0xA0 # le_bytes32 a) d) = gen + 1"
proof -
  obtain rx i n m ad where r: "debug_request gen (0xA0 # le_bytes32 a) d = tofino_debug_request (d\<lparr>f_dbg_req := 0xA0 # le_bytes32 a,
      f_idx := i, f_rx := rx, f_op := 2, f_addr := ad, f_last_gen := gen + 1, f_xfer_cnt := m, f_dpos := n,
      f_fpga := (f_fpga d)(0x201 \<mapsto> reg_get (f_fpga d) 0x201 OR 0x10)\<rparr>)\<lparr>f_rx := rx @ [0]\<rparr>"
    using debug_request_runs [OF assms, of "0xA0 # le_bytes32 a"] by blast
  show "f_dbg_resp (debug_request gen (0xA0 # le_bytes32 a) d) = f_dbg_resp d @ le_bytes32 (reg_get (f_tofino d) a)"
    "f_last_gen (debug_request gen (0xA0 # le_bytes32 a) d) = gen + 1"
    unfolding r by (simp_all add: tofino_debug_request_def Let_def le_bytes32_def le32_bytes)
qed

lemma answer_drains:
  assumes "f_last_gen d \<noteq> gen" and "f_dbg_resp d = [b0, b1, b2, b3]"
  shows "fpga_answer gen 6 0x200 4 d = [b0, b1, b2, b3]"
proof -
  have "spi5_write k e 0x20 0 = (let (rx, d1) = spi5_xfer (check_cs k e) 0 in d1\<lparr>f_rx := f_rx d1 @ [rx]\<rparr>)" for k e
    using write_txdr5 [of k e 0] by simp
  moreover have "replicate 4 (0 :: u8) = [0, 0, 0, 0]" by (simp add: numeral_eq_Suc)
  ultimately show ?thesis
    using assms
    by (simp add: fpga_answer_def fpga_command_def clock_header check_cs_def spi5_xfer_def next_data_def data_addr_def Let_def)
qed

text \<open>
  The Tofino debug port behind the FPGA is a register file: after a DirectWrite of \<open>v\<close> to
  \<open>a\<close>, a DirectRead of any register returns its value, \<open>v\<close> for \<open>a\<close> itself, little-endian;
  every byte of both requests goes through the SPI command protocol.
\<close>

theorem tofino_port_round_trip:
  assumes "f_last_gen d \<noteq> gen" and "f_dbg_req d = []" and "f_dbg_resp d = []"
  shows "tofino_read (gen + 2) b (tofino_write gen a v d) =
    le_bytes32 (if b = a then v else reg_get (f_tofino d) b)"
proof -
  note w = tofino_write_effect [OF assms(1,2), of a v]
  have g: "f_last_gen (tofino_write gen a v d) \<noteq> gen + 2" by (simp add: w)
  note q = tofino_request_effect [OF g w(2), of b]
  have "f_last_gen (debug_request (gen + 2) (0xA0 # le_bytes32 b) (tofino_write gen a v d)) \<noteq> gen + 2 + 2"
    by (simp add: q)
  then have "tofino_read (gen + 2) b (tofino_write gen a v d) =
      [byte_of x 0, byte_of x 1, byte_of x 2, byte_of x 3]" if "x = reg_get ((f_tofino d)(a \<mapsto> v)) b" for x
    unfolding tofino_read_def using q w assms(3) that by (intro answer_drains) (simp_all add: le_bytes32_def)
  then show ?thesis by (auto simp: le_bytes32_def)
qed

lemma tofino_port_round_trip_witness:
  "tofino_read (1 + 2) 0x80000 (tofino_write 1 0x80000 0xCAFE (spi5_new [])) =
     le_bytes32 (if (0x80000 :: u32) = 0x80000 then 0xCAFE else reg_get (f_tofino (spi5_new [])) 0x80000)"
  by (rule tofino_port_round_trip) (simp_all add: spi5_new_def)

end
