(* ===== verification/I2c_Bridge.thy ===== *)
theory I2c_Bridge
  imports Text
begin

text \<open>
  The I2C host bridge (\<open>src/i2c_bridge.rs\<close>): the emulator's end, which tees
  observations as text lines and asks a device server for read bytes, and the example
  server's end, which answers queries from a list of overrides. A connection is the number of
  lines the peer still accepts before the pipe breaks, the lines it was sent, and the peer: the
  lines it has sent back once it has those (\<open>None\<close> where the read fails), of which the first
  \<open>br_taken\<close> are read. A line that is not there yet is one the read times out on.
\<close>

unbundle bit_operations_syntax

section \<open>The emulator's end\<close>

datatype bridge_mode = Bridge_Off | Bridge_Sniff | Bridge_Device

record bridge =
  br_mode :: bridge_mode
  br_writable :: bool
  br_readable :: bool
  br_room :: nat
  br_sent :: "string list"
  br_peer :: "string list \<Rightarrow> string option list"
  br_taken :: nat

definition bridge_off :: bridge where
  "bridge_off = \<lparr>br_mode = Bridge_Off, br_writable = False, br_readable = False, br_room = 0,
     br_sent = [], br_peer = (\<lambda>_. []), br_taken = 0\<rparr>"

text \<open>\<open>from_env\<close> after its connection attempts: the device setting wins over the sniffer.\<close>

definition bridge_from_env :: "bridge option \<Rightarrow> bridge option \<Rightarrow> bridge" where
  "bridge_from_env device sniff =
     (case device of
        Some b \<Rightarrow> b\<lparr>br_mode := Bridge_Device, br_writable := True\<rparr>
      | None \<Rightarrow>
          (case sniff of
             Some b \<Rightarrow> b\<lparr>br_mode := Bridge_Sniff, br_writable := True, br_readable := False\<rparr>
           | None \<Rightarrow> bridge_off))"

definition br_active :: "bridge \<Rightarrow> bool" where
  "br_active b = (br_mode b \<noteq> Bridge_Off \<and> br_writable b)"

text \<open>One \<open>writeln!\<close>: whether it succeeds, and the connection after it.\<close>

definition br_put :: "string \<Rightarrow> bridge \<Rightarrow> bool \<times> bridge" where
  "br_put line b =
     (case br_room b of 0 \<Rightarrow> (False, b)
      | Suc n \<Rightarrow> (True, b\<lparr>br_room := n, br_sent := br_sent b @ [line]\<rparr>))"

definition br_send :: "string \<Rightarrow> bridge \<Rightarrow> bridge" where
  "br_send line b =
     (if br_writable b then
        (case br_put line b of (True, b1) \<Rightarrow> b1 | (False, b1) \<Rightarrow> b1\<lparr>br_writable := False\<rparr>)
      else b)"

abbreviation hex8 :: "u8 \<Rightarrow> string" where
  "hex8 v \<equiv> hex_0x04 (unat v)"

definition on_start :: "u8 \<Rightarrow> u8 \<Rightarrow> bool \<Rightarrow> u32 \<Rightarrow> bridge \<Rightarrow> bridge" where
  "on_start bus addr is_read nbytes b =
     (if \<not> br_active b then b
      else case br_mode b of
        Bridge_Sniff \<Rightarrow>
          br_send (''i2c'' @ dec (unat bus) @ '' START addr='' @ hex8 addr @
            (if is_read then '' RD'' else '' WR'') @ '' nbytes='' @ dec (unat nbytes)) b
      | Bridge_Device \<Rightarrow>
          br_send (''S '' @ dec (unat bus) @ '' '' @ hex8 addr @ (if is_read then '' R'' else '' W'')) b
      | Bridge_Off \<Rightarrow> b)"

definition on_write :: "u8 \<Rightarrow> u8 \<Rightarrow> u8 \<Rightarrow> bridge \<Rightarrow> bridge" where
  "on_write bus addr byte b =
     (if \<not> br_active b then b
      else case br_mode b of
        Bridge_Sniff \<Rightarrow>
          br_send (''i2c'' @ dec (unat bus) @ '' WR addr='' @ hex8 addr @ '' <- '' @ hex8 byte) b
      | Bridge_Device \<Rightarrow> br_send (''W '' @ dec (unat bus) @ '' '' @ hex8 addr @ '' '' @ hex8 byte) b
      | Bridge_Off \<Rightarrow> b)"

definition parse_byte :: "string \<Rightarrow> u8 option" where
  "parse_byte s0 =
     (let s = trim s0 in
      map_option of_nat
        (case strip_prefix ''0x'' s of Some h \<Rightarrow> parse_uint 16 255 h | None \<Rightarrow> parse_uint 10 255 s))"

definition read_query :: "u8 \<Rightarrow> u8 \<Rightarrow> u8 \<Rightarrow> u16 \<Rightarrow> string" where
  "read_query bus addr rg idx =
     ''R '' @ dec (unat bus) @ '' '' @ hex8 addr @ '' '' @ hex8 rg @ '' '' @ dec (unat idx)"

text \<open>
  \<open>read_line\<close> at the end of the stream returns an empty line, and fails when the two seconds are
  over: either way there is no answer.
\<close>

definition on_read :: "u8 \<Rightarrow> u8 \<Rightarrow> u8 \<Rightarrow> u16 \<Rightarrow> bridge \<Rightarrow> u8 option \<times> bridge" where
  "on_read bus addr rg idx b =
     (if br_mode b \<noteq> Bridge_Device \<or> \<not> br_writable b \<or> \<not> br_readable b then (None, b)
      else case br_put (read_query bus addr rg idx) b of
        (False, b1) \<Rightarrow> (None, b1)
      | (True, b1) \<Rightarrow>
          (case drop (br_taken b1) (br_peer b1 (br_sent b1)) of
             [] \<Rightarrow> (None, b1)
           | reply # rest \<Rightarrow>
               (case reply of
                  None \<Rightarrow> None
                | Some line \<Rightarrow> (let t = trim line in if t = [] \<or> t = ''-'' then None else parse_byte t),
                b1\<lparr>br_taken := br_taken b1 + 1\<rparr>)))"

definition on_read_served :: "u8 \<Rightarrow> u8 \<Rightarrow> u8 \<Rightarrow> u16 \<Rightarrow> u8 \<Rightarrow> bridge \<Rightarrow> bridge" where
  "on_read_served bus addr rg idx byte b =
     (if br_mode b \<noteq> Bridge_Sniff then b
      else br_send (''i2c'' @ dec (unat bus) @ '' RD addr='' @ hex8 addr @ '' reg='' @ hex8 rg @
             '' idx='' @ dec (unat idx) @ '' -> '' @ hex8 byte) b)"

section \<open>The example device server\<close>

datatype override = Ov_Reg u8 u8 u16 | Ov_Image u8 "u8 list"

definition parse_hex :: "string \<Rightarrow> nat option" where
  "parse_hex s = parse_uint 16 (2 ^ 32 - 1) (trim_0x (trim s))"

text \<open>\<open>parse_override\<close>; \<open>files\<close> is what reading a file gives, if it can be read.\<close>

definition parse_override :: "(string \<Rightarrow> u8 list option) \<Rightarrow> string \<Rightarrow> override option" where
  "parse_override files s =
     (case split_once (CHR ''@'') s of
        Some (addr, file) \<Rightarrow>
          (case parse_hex addr of None \<Rightarrow> None
           | Some a \<Rightarrow> map_option (Ov_Image (of_nat a)) (files (trim file)))
      | None \<Rightarrow>
          (case split_once (CHR ''='') s of None \<Rightarrow> None
           | Some (lhs, val) \<Rightarrow>
               (case split_once (CHR ''/'') lhs of None \<Rightarrow> None
                | Some (addr, rg) \<Rightarrow>
                    (case (parse_hex addr, parse_hex rg, parse_hex val) of
                       (Some a, Some i, Some v) \<Rightarrow> Some (Ov_Reg (of_nat a) (of_nat i) (of_nat v))
                     | _ \<Rightarrow> None))))"

definition override_byte :: "u8 \<Rightarrow> u8 \<Rightarrow> nat \<Rightarrow> override \<Rightarrow> u8 option" where
  "override_byte addr rg idx ov =
     (case ov of
        Ov_Reg a i v \<Rightarrow>
          if a = addr \<and> i = rg then Some (if idx = 0 then ucast (drop_bit 8 v) else ucast v) else None
      | Ov_Image a bs \<Rightarrow>
          if a = addr then
            (let k = ((unat rg + idx) mod 2 ^ 64) mod max (length bs) 1
             in Some (if k < length bs then bs ! k else 0))
          else None)"

fun find_map :: "('a \<Rightarrow> 'b option) \<Rightarrow> 'a list \<Rightarrow> 'b option" where
  "find_map f [] = None"
| "find_map f (x # xs) = (case f x of None \<Rightarrow> find_map f xs | Some y \<Rightarrow> Some y)"

text \<open>One line of the serve loop: \<open>None\<close> where the server sends nothing.\<close>

definition server_reply :: "override list \<Rightarrow> string \<Rightarrow> string option" where
  "server_reply ovs line =
     (let f = split_ws line in
      if f = [] \<or> hd f \<noteq> ''R'' \<or> length f < 5 then None
      else case (parse_hex (f ! 2), parse_hex (f ! 3), parse_uint 10 (2 ^ 64 - 1) (f ! 4)) of
        (Some a, Some i, Some k) \<Rightarrow>
          Some (case find_map (override_byte (of_nat a) (of_nat i) k) ovs of
                  Some b \<Rightarrow> hex8 b
                | None \<Rightarrow> ''-'')
      | _ \<Rightarrow> None)"

section \<open>A query answered\<close>

lemma trim_id: "t \<noteq> [] \<Longrightarrow> \<forall>c \<in> set t. \<not> is_ws c \<Longrightarrow> trim t = t"
  unfolding trim_def by (rule trim_by_id) simp_all

definition token :: "string \<Rightarrow> bool" where
  "token t = (t \<noteq> [] \<and> (\<forall>c \<in> set t. \<not> is_ws c))"

lemma token_print [simp]: "token (dec n)" "token (hex_0x04 n)"
proof -
  show "token (dec n)" using plain_print [of 10 n] by (auto simp: token_def plain_def plain_char_def)
  show "token (hex_0x04 n)"
    using plain_hex_02 [of n] by (auto simp: token_def plain_def plain_char_def hex_0x04_def is_ws_def)
qed

lemma token_R [simp]: "token ''R''"
  by (simp add: token_def is_ws_def)

lemma split_tokens [simp]:
  "token t \<Longrightarrow> split_ws (t @ CHR '' '' # s) = t # split_ws s" "token t \<Longrightarrow> split_ws t = [t]"
  using split_ws_token unfolding token_def by blast+

lemma split_query: "split_ws (read_query bus addr rg idx) = [''R'', dec (unat bus), hex8 addr, hex8 rg, dec (unat idx)]"
  using split_tokens(1) [of "''R''"] by (simp add: read_query_def)

lemma trim_0x_hex: "trim_0x (hex_0x04 n) = hex_02 n"
proof -
  obtain c cs where h: "hex_02 n = c # cs" "c \<noteq> CHR ''x''" "\<forall>d \<in> set cs. d \<noteq> CHR ''x''"
    using plain_hex_02 [of n] by (cases "hex_02 n") (auto simp: plain_def plain_char_def)
  then have "trim_0x (c # cs) = c # cs" by (cases cs) auto
  with h show ?thesis by (simp add: hex_0x04_def)
qed

lemma parse_hex_hex [simp]: "n < 2 ^ 32 \<Longrightarrow> parse_hex (hex_0x04 n) = Some n"
proof -
  assume "n < 2 ^ 32"
  moreover have "trim (hex_0x04 n) = hex_0x04 n"
    using token_print(2) [of n] trim_id unfolding token_def by blast
  ultimately show ?thesis by (simp add: parse_hex_def trim_0x_hex parse_hex_02)
qed

lemma parse_byte_hex [simp]: "parse_byte (hex8 b) = Some b"
proof -
  have "trim (hex8 b) = hex8 b" using token_print(2) [of "unat b"] trim_id unfolding token_def by blast
  moreover have "strip_prefix ''0x'' (hex8 b) = Some (hex_02 (unat b))"
    by (simp add: strip_prefix_def hex_0x04_def)
  moreover have "unat b \<le> 255" using byte_bound [of b] by simp
  ultimately show ?thesis by (simp add: parse_byte_def parse_hex_02)
qed

lemma unat8_small: "unat (b :: u8) < 2 ^ 32"
  using byte_bound [of b] by simp

lemma server_answers:
  "server_reply ovs (read_query bus addr rg idx) =
     Some (case find_map (override_byte addr rg (unat idx)) ovs of Some b \<Rightarrow> hex8 b | None \<Rightarrow> ''-'')"
proof -
  have "unat idx < 2 ^ LENGTH(16)" by (rule unsigned_less)
  then have "unat idx \<le> 2 ^ 64 - 1" by simp
  then have "parse_uint 10 (2 ^ 64 - 1) (dec (unat idx)) = Some (unat idx)" by (rule parse_dec)
  then show ?thesis
    using parse_hex_hex [OF unat8_small, of addr] parse_hex_hex [OF unat8_small, of rg]
    by (simp add: server_reply_def split_query)
qed

section \<open>A connection to the example server\<close>

definition server_peer :: "override list \<Rightarrow> string list \<Rightarrow> string option list" where
  "server_peer ovs sent = map Some (List.map_filter (server_reply ovs) sent)"

text \<open>Connected, and every query so far answered and the answer read.\<close>

definition in_step :: "override list \<Rightarrow> bridge \<Rightarrow> bool" where
  "in_step ovs b \<longleftrightarrow> br_mode b = Bridge_Device \<and> br_writable b \<and> br_readable b \<and>
     br_peer b = server_peer ovs \<and> br_taken b = length (server_peer ovs (br_sent b))"

lemma fresh_connection_in_step:
  "br_readable c \<Longrightarrow> br_sent c = [] \<Longrightarrow> br_taken c = 0 \<Longrightarrow> br_peer c = server_peer ovs \<Longrightarrow>
     in_step ovs (bridge_from_env (Some c) sniff)"
  by (simp add: in_step_def bridge_from_env_def server_peer_def List.map_filter_def)

lemma server_peer_snoc:
  "server_peer ovs (sent @ [line]) =
     server_peer ovs sent @ (case server_reply ovs line of None \<Rightarrow> [] | Some r \<Rightarrow> [Some r])"
  by (simp add: server_peer_def List.map_filter_def split: option.split)

lemma server_ignores:
  assumes "t \<noteq> ''R''" and "token t"
  shows "server_reply ovs (t @ CHR '' '' # s) = None"
  using assms by (simp add: server_reply_def)

lemma send_in_step:
  assumes "in_step ovs b" and "br_room b = Suc n" and "server_reply ovs line = None"
  shows "in_step ovs (br_send line b) \<and> br_room (br_send line b) = n"
  using assms by (simp add: in_step_def br_send_def br_put_def server_peer_snoc)

lemma on_start_in_step:
  assumes "in_step ovs b" and "br_room b = Suc n"
  shows "in_step ovs (on_start bus addr rd k b) \<and> br_room (on_start bus addr rd k b) = n"
proof -
  have "server_reply ovs (''S'' @ CHR '' '' # dec (unat bus) @ '' '' @ hex8 addr @ (if rd then '' R'' else '' W'')) = None"
    by (rule server_ignores) (simp_all add: token_def is_ws_def)
  from send_in_step [OF assms this] assms(1) show ?thesis
    by (simp add: on_start_def in_step_def br_active_def)
qed

lemma on_write_in_step:
  assumes "in_step ovs b" and "br_room b = Suc n"
  shows "in_step ovs (on_write bus addr v b) \<and> br_room (on_write bus addr v b) = n"
proof -
  have "server_reply ovs (''W'' @ CHR '' '' # dec (unat bus) @ '' '' @ hex8 addr @ '' '' @ hex8 v) = None"
    by (rule server_ignores) (simp_all add: token_def is_ws_def)
  from send_in_step [OF assms this] assms(1) show ?thesis
    by (simp add: on_write_def in_step_def br_active_def)
qed

text \<open>The query is sent, answered from the overrides, and its answer is the next line read.\<close>

lemma on_read_in_step:
  assumes "in_step ovs b" and "br_room b = Suc n"
  obtains b1 where "on_read bus addr rg idx b = (find_map (override_byte addr rg (unat idx)) ovs, b1)"
    "in_step ovs b1" "br_room b1 = n"
proof -
  have t: "trim (hex8 v) = hex8 v" for v using token_print(2) [of "unat v"] trim_id unfolding token_def by blast
  have h: "hex8 v \<noteq> [] \<and> hex8 v \<noteq> ''-''" for v by (simp add: hex_0x04_def)
  have m: "trim ''-'' = ''-''" by (rule trim_id) (simp_all add: is_ws_def)
  let ?q = "read_query bus addr rg idx"
  let ?b = "b\<lparr>br_room := n, br_sent := br_sent b @ [?q], br_taken := br_taken b + 1\<rparr>"
  have "on_read bus addr rg idx b = (find_map (override_byte addr rg (unat idx)) ovs, ?b)"
    using assms t h m
    by (cases "find_map (override_byte addr rg (unat idx)) ovs")
      (simp_all add: on_read_def in_step_def br_put_def server_peer_snoc server_answers Let_def)
  moreover have "in_step ovs ?b"
    using assms(1) by (simp add: in_step_def server_peer_snoc server_answers)
  ultimately show ?thesis by (rule that) simp
qed

text \<open>
  A server that is late by one query: the first read times out and gets the built-in model, and
  its answer is then taken for the second query's, whatever that asks.
\<close>

lemma late_reply_answers_next_query:
  assumes "br_mode b = Bridge_Device" "br_writable b" "br_readable b" "br_room b = Suc (Suc n)"
    and "br_sent b = []" "br_taken b = 0"
    and "br_peer b = (\<lambda>sent. if length sent < 2 then [] else [Some ''0x28''])"
  shows "on_read bus addr rg idx b = (None, b\<lparr>br_room := Suc n, br_sent := [read_query bus addr rg idx]\<rparr>) \<and>
    fst (on_read bus' addr' rg' idx' (snd (on_read bus addr rg idx b))) = Some 0x28"
proof -
  have t: "trim ''0x28'' = ''0x28''" by (rule trim_id) (simp_all add: is_ws_def)
  have "parse_byte ''0x28'' = Some 0x28"
    by (simp add: parse_byte_def t strip_prefix_def parse_uint_def digit_val_def)
  then show ?thesis using assms t by (simp add: on_read_def br_put_def)
qed

end
