(* ===== verification/I2c.thy ===== *)
theory I2c
  imports Vpd I2c_Bridge
begin

text \<open>
  The STM32H7 I2C controller with the devices behind it (\<open>I2c\<close> of \<open>src/soc.rs\<close>): the
  CR2/TXDR/RXDR transaction machine, the modelled sensors, the VPD EEPROM, and the hook into
  the host bridge. The float conversions of the sensor environment are parameters:
  \<open>temp_lsb a\<close> is \<open>(temp_c(a) / 0.0078125) as i16 as u16\<close> and \<open>temp_int a\<close> is
  \<open>temp_c(a) as i16 as u16\<close>.
\<close>

unbundle bit_operations_syntax

record sensors =
  temp_lsb :: "u8 \<Rightarrow> u16"
  temp_int :: "u8 \<Rightarrow> u16"

record i2c =
  i_regs :: regmap
  i_ev_irq :: u16
  i_active :: bool
  i_addr :: u8
  i_reg_ptr :: u8
  i_read_idx :: u16
  i_writing :: bool
  i_wrote_ptr :: bool
  i_eeprom :: "u8 list"
  i_bus :: u8
  i_nack_all :: bool

definition i2c_new :: "u16 \<Rightarrow> u8 list \<Rightarrow> u8 \<Rightarrow> bool \<Rightarrow> i2c" where
  "i2c_new ev_irq eeprom bus sidecar =
     \<lparr>i_regs = Map.empty, i_ev_irq = ev_irq, i_active = False, i_addr = 0, i_reg_ptr = 0,
      i_read_idx = 0, i_writing = False, i_wrote_ptr = False, i_eeprom = eeprom, i_bus = bus,
      i_nack_all = (sidecar \<and> bus = 2)\<rparr>"

definition device_reg :: "sensors \<Rightarrow> u8 \<Rightarrow> u8 \<Rightarrow> u16 option" where
  "device_reg S addr rg =
     (if 0x48 \<le> addr \<and> addr \<le> 0x4a then
        Some (if rg = 0x0f then 0x0117 else if rg = 0 then temp_lsb S addr
              else if rg = 1 then 0x0220 else 0)
      else if 0x18 \<le> addr \<and> addr \<le> 0x1f then
        Some (if rg = 7 then 0x2200
              else if rg = 5 then signed_drop_bit 3 (temp_lsb S addr) AND 0x1fff else 0)
      else if addr = 0x4c then
        Some (if rg = 0xFE then 0x5500 else if rg = 0 \<or> rg = 1 then push_bit 8 (temp_int S addr) else 0)
      else None)"

definition eeprom_index :: "u8 \<Rightarrow> u8 \<Rightarrow> u16 \<Rightarrow> nat" where
  "eeprom_index addr rg idx =
     unat (((push_bit 8 (ucast addr AND 3) OR ucast rg) + idx) AND 0x3FF)"

definition i2c_rxdr :: "sensors \<Rightarrow> i2c \<Rightarrow> bridge \<Rightarrow> u8 \<times> i2c \<times> bridge" where
  "i2c_rxdr S d b =
     (let (answer, b1) = on_read (i_bus d) (i_addr d) (i_reg_ptr d) (i_read_idx d) b;
          d1 = d\<lparr>i_read_idx := i_read_idx d + 1\<rparr> in
      case answer of
        Some v \<Rightarrow> (v, d1, b1)
      | None \<Rightarrow>
          (let byte =
             (if 0x50 \<le> i_addr d \<and> i_addr d \<le> 0x53
              then i_eeprom d ! eeprom_index (i_addr d) (i_reg_ptr d) (i_read_idx d)
              else
                let v = (case device_reg S (i_addr d) (i_reg_ptr d) of None \<Rightarrow> 0 | Some v \<Rightarrow> v)
                in ucast (if i_read_idx d = 0 then drop_bit 8 v AND 0xFF else v AND 0xFF))
           in (byte, d1,
               on_read_served (i_bus d) (i_addr d) (i_reg_ptr d) (i_read_idx d) byte b1)))"

definition i2c_read :: "sensors \<Rightarrow> i2c \<Rightarrow> bridge \<Rightarrow> u32 \<Rightarrow> u32 \<times> i2c \<times> bridge" where
  "i2c_read S d b off =
     (let w = word_of off in
      if w = 0x18 then
        (if i_nack_all d \<and> i_active d then push_bit 4 1 OR push_bit 5 1
         else push_bit 0 1 OR push_bit 1 1 OR push_bit 2 1 OR push_bit 6 1, d, b)
      else if w = 0x24 then
        (let (v, d1, b1) = i2c_rxdr S d b in (ucast v, d1, b1))
      else (reg_get (i_regs d) w, d, b))"

definition i2c_txdr :: "i2c \<Rightarrow> bridge \<Rightarrow> u8 \<Rightarrow> i2c \<times> bridge" where
  "i2c_txdr d b byte =
     (if i_writing d \<and> \<not> i_wrote_ptr d then d\<lparr>i_reg_ptr := byte, i_wrote_ptr := True\<rparr> else d,
      on_write (i_bus d) (i_addr d) byte b)"

definition i2c_start :: "i2c \<Rightarrow> u32 \<Rightarrow> i2c" where
  "i2c_start d val =
     (let d1 = d\<lparr>i_active := True, i_addr := ucast (drop_bit 1 val AND 0x7F)\<rparr>
      in if bit_set val 10 then d1\<lparr>i_read_idx := 0, i_writing := False\<rparr>
         else d1\<lparr>i_writing := True, i_wrote_ptr := False\<rparr>)"

definition i2c_write :: "i2c \<Rightarrow> bridge \<Rightarrow> u32 \<Rightarrow> u32 \<Rightarrow> i2c \<times> bridge" where
  "i2c_write d b off val =
     (let w = word_of off in
      if w = 0x28 then i2c_txdr d b (ucast (val AND 0xFF))
      else if w = 4 then
        (let (d1, b1) =
               (if bit_set val 13
                then (i2c_start d val,
                      on_start (i_bus d) (i_addr (i2c_start d val)) (bit_set val 10)
                        (drop_bit 16 val AND 0xFF) b)
                else (d, b));
             d2 = (if bit_set val 14 then d1\<lparr>i_active := False\<rparr> else d1)
         in (d2\<lparr>i_regs := (i_regs d2)(4 \<mapsto> val AND NOT (push_bit 13 1 OR push_bit 14 1))\<rparr>, b1))
      else (d\<lparr>i_regs := (i_regs d)(w \<mapsto> val)\<rparr>, b))"

definition i2c_take_irq :: "i2c \<Rightarrow> u16 option \<times> i2c" where
  "i2c_take_irq d = (if i_active d then Some (i_ev_irq d) else None, d)"

section \<open>The driver's transfers\<close>

text \<open>CR2 for a transfer: START, address, direction, byte count.\<close>

definition cr2_start :: "u8 \<Rightarrow> bool \<Rightarrow> u32 \<Rightarrow> u32" where
  "cr2_start addr rd n =
     push_bit 16 n OR push_bit 13 1 OR (if rd then push_bit 10 1 else 0) OR push_bit 1 (ucast addr)"

primrec read_bytes :: "sensors \<Rightarrow> nat \<Rightarrow> i2c \<Rightarrow> bridge \<Rightarrow> u32 list \<times> i2c \<times> bridge" where
  "read_bytes S 0 d b = ([], d, b)"
| "read_bytes S (Suc n) d b =
     (let (v, d1, b1) = i2c_read S d b 0x24; (vs, d2, b2) = read_bytes S n d1 b1 in (v # vs, d2, b2))"

definition read_device :: "sensors \<Rightarrow> u8 \<Rightarrow> u8 \<Rightarrow> nat \<Rightarrow> i2c \<Rightarrow> bridge \<Rightarrow> u32 list" where
  "read_device S addr rg n d b =
     (let (d1, b1) = i2c_write d b 4 (cr2_start addr False 1);
          (d2, b2) = i2c_write d1 b1 0x28 (ucast rg);
          (d3, b3) = i2c_write d2 b2 4 (cr2_start addr True (of_nat n AND 0xFF))
      in fst (read_bytes S n d3 b3))"

lemma cr2_fields:
  assumes "addr < 0x80"
  shows "bit (cr2_start addr rd n) 13" and "bit (cr2_start addr rd n) 10 = rd"
    and "(ucast (drop_bit 1 (cr2_start addr rd n) AND 0x7F) :: u8) = addr"
proof -
  have "unat addr < 2 ^ 7" using assms by (simp add: word_less_nat_alt)
  then have "unat (take_bit 7 addr) = unat addr" by (simp add: unsigned_take_bit_eq take_bit_nat_eq_self)
  then have a: "take_bit 7 addr = addr" by (simp add: word_unat_eq_iff)
  have s: "bit addr i \<Longrightarrow> i < 7" for i by (metis a bit_take_bit_iff)
  have B: "bit (cr2_start addr rd n) i \<longleftrightarrow> i < 32 \<and> (16 \<le> i \<and> bit n (i - 16) \<or> i = 13 \<or> rd \<and> i = 10 \<or>
      1 \<le> i \<and> bit addr (i - 1))" for i
  proof -
    have t: "bit (if rd then push_bit 10 1 else (0 :: u32)) i \<longleftrightarrow> rd \<and> i = 10"
      by (cases rd) (simp_all only: if_True if_False bit_pow2, auto)
    show ?thesis
      unfolding cr2_start_def bit_or_iff t bit_push_bit_iff bit_unsigned_iff bit_1_iff
      by (auto dest: bit_imp_le_length)
  qed
  show "bit (cr2_start addr rd n) 13" "bit (cr2_start addr rd n) 10 = rd"
    unfolding B using s by fastforce+
  have m: "(0x7F :: u32) = mask 7" by (simp add: mask_eq_exp_minus_1)
  show "(ucast (drop_bit 1 (cr2_start addr rd n) AND 0x7F) :: u8) = addr"
    by (rule bit_word_eqI, unfold m bit_unsigned_iff bit_and_iff bit_mask_iff bit_drop_bit_eq comp_def B)
      (auto dest: s)
qed

lemma start_write:
  assumes "addr < 0x80"
  shows "fst (i2c_write d b 4 (cr2_start addr rd n)) =
    (let d1 = d\<lparr>i_active := \<not> bit (cr2_start addr rd n) 14, i_addr := addr\<rparr>;
         d2 = (if rd then d1\<lparr>i_read_idx := 0, i_writing := False\<rparr> else d1\<lparr>i_writing := True, i_wrote_ptr := False\<rparr>)
     in d2\<lparr>i_regs := (i_regs d)(4 \<mapsto> cr2_start addr rd n AND NOT (push_bit 13 1 OR push_bit 14 1))\<rparr>)"
  using cr2_fields [OF assms, of rd n]
  by (simp add: i2c_write_def i2c_start_def Let_def split_def)

section \<open>Reading the EEPROM\<close>

lemma on_read_off [simp]: "br_mode b \<noteq> Bridge_Device \<Longrightarrow> on_read bus addr rg idx b = (None, b)"
  by (simp add: on_read_def)

lemma i2c_read_rxdr: "i2c_read S d b 0x24 = (let (v, d1, b1) = i2c_rxdr S d b in (ucast v, d1, b1))"
  by (simp add: i2c_read_def)

lemma on_read_served_off [simp]: "br_mode b = Bridge_Off \<Longrightarrow> on_read_served bus addr rg idx v b = b"
  by (simp add: on_read_served_def)

lemma read_bytes_eeprom:
  assumes "br_mode b = Bridge_Off" and "0x50 \<le> i_addr d" and "i_addr d \<le> 0x53"
  shows "fst (read_bytes S n d b) =
    map (\<lambda>i. ucast (i_eeprom d ! eeprom_index (i_addr d) (i_reg_ptr d) (i_read_idx d + of_nat i))) [0..<n]"
  using assms
proof (induction n arbitrary: d)
  case (Suc n)
  have "fst (read_bytes S n (d\<lparr>i_read_idx := i_read_idx d + 1\<rparr>) b) =
      map (\<lambda>i. ucast (i_eeprom d ! eeprom_index (i_addr d) (i_reg_ptr d) (i_read_idx d + of_nat (Suc i)))) [0..<n]"
    using Suc.IH [of "d\<lparr>i_read_idx := i_read_idx d + 1\<rparr>"] Suc.prems by (simp add: add_ac)
  then show ?case
    using Suc.prems
    by (simp add: i2c_read_rxdr i2c_rxdr_def Let_def split_def upt_rec [of 0] map_Suc_upt [symmetric] comp_def
        del: upt_Suc)
qed simp

lemma eeprom_index_value:
  assumes "0x50 \<le> addr" and "addr \<le> 0x53" and "i < 2 ^ 16"
  shows "eeprom_index addr rg (of_nat i) = (unat (addr - 0x50) * 256 + unat rg + i) mod 1024"
proof -
  have low: "addr AND 3 = addr - 0x50"
  proof -
    have "unat addr \<in> {80, 81, 82, 83}" using assms(1,2) by (auto simp: word_le_nat_alt)
    then have "addr \<in> {0x50, 0x51, 0x52, 0x53}" by (auto simp: word_unat_eq_iff)
    then show ?thesis by auto
  qed
  have k: "unat (addr - 0x50) < 4" using assms(1,2) by (simp add: word_le_nat_alt unat_sub)
  have m: "(0x3FF :: u16) = mask 10" by (simp add: mask_eq_exp_minus_1)
  have "ucast addr AND (3 :: u16) = ucast (addr AND 3)"
    by (rule bit_word_eqI) (auto simp: bit_simps dest: bit_imp_le_length)
  moreover have "n < 8" if "bit rg n" for n using bit_imp_le_length [OF that] by simp
  ultimately have "push_bit 8 (ucast addr AND 3) OR ucast rg = push_bit 8 (ucast (addr - 0x50)) + (ucast rg :: u16)"
    unfolding low by (subst disjunctive_add_eq_or) (fastforce intro!: bit_word_eqI simp: bit_simps)+
  then have e: "eeprom_index addr rg (of_nat i) =
      unat (take_bit 10 (push_bit 8 (ucast (addr - 0x50)) + ucast rg + of_nat i :: u16))"
    unfolding eeprom_index_def m take_bit_eq_mask by simp
  have u: "push_bit 8 (ucast (addr - 0x50)) + ucast rg + of_nat i =
      (of_nat (unat (addr - 0x50) * 256 + unat rg + i) :: u16)"
    by (simp add: push_bit_eq_mult mult.commute)
  have "unat (take_bit 10 (of_nat j :: u16)) = j mod 1024" for j
  proof -
    have "unat (take_bit 10 (of_nat j :: u16)) = take_bit 10 (unat (of_nat j :: u16))"
      by (rule unsigned_take_bit_eq)
    also have "\<dots> = j mod 1024" by (simp add: take_bit_eq_mod unat_of_nat mod_mod_cancel)
    finally show ?thesis .
  qed
  then show ?thesis unfolding e u .
qed

text \<open>
  The VPD EEPROM reads sequentially over I2C: with the host bridge off, pointing at offset
  \<open>256 * k + rg\<close> (the upper bits in the device address) and reading \<open>n\<close> bytes returns the
  image from there on, wrapping at its 1024 bytes, whatever was going on before.
\<close>

theorem eeprom_reads_sequentially:
  assumes "br_mode b = Bridge_Off" and "k < 4" and "n \<le> 2 ^ 16"
  shows "read_device S (0x50 + of_nat k) rg n d b =
    map (\<lambda>i. ucast (i_eeprom d ! ((256 * k + unat rg + i) mod 1024))) [0..<n]"
proof -
  let ?a = "0x50 + of_nat k :: u8"
  have u: "unat (of_nat k :: u8) = k" using assms(2) by (simp add: unat_of_nat)
  have a: "0x50 \<le> ?a" "?a \<le> 0x53" "?a < 0x80" "?a - 0x50 = of_nat k"
    using assms(2) u by (auto simp: word_le_nat_alt word_less_nat_alt unat_word_ariths)
  let ?d1 = "fst (i2c_write d b 4 (cr2_start ?a False 1))"
  let ?d2 = "fst (i2c_write ?d1 b 0x28 (ucast rg))"
  let ?d3 = "fst (i2c_write ?d2 b 4 (cr2_start ?a True (of_nat n AND 0xFF)))"
  have off: "snd (i2c_write e b off v) = b" for e off v
    using assms(1) by (simp add: i2c_write_def i2c_txdr_def on_write_def on_start_def br_active_def Let_def split_def)
  have low: "(ucast ((ucast rg :: u32) AND 0xFF) :: u8) = rg"
  proof -
    have e: "(0xFF :: u32) = mask 8" by (simp add: mask_eq_exp_minus_1)
    show ?thesis unfolding e by (rule bit_word_eqI) (auto simp: bit_simps)
  qed
  have d1: "i_eeprom ?d1 = i_eeprom d \<and> i_writing ?d1 \<and> \<not> i_wrote_ptr ?d1"
    by (simp add: start_write [OF a(3)] Let_def)
  then have d2: "i_eeprom ?d2 = i_eeprom d \<and> i_reg_ptr ?d2 = rg"
    by (simp add: i2c_write_def i2c_txdr_def low)
  then have d3: "i_eeprom ?d3 = i_eeprom d \<and> i_reg_ptr ?d3 = rg \<and> i_addr ?d3 = ?a \<and> i_read_idx ?d3 = 0"
    by (simp add: start_write [OF a(3)] Let_def)
  have "read_device S ?a rg n d b = fst (read_bytes S n ?d3 b)"
    by (simp add: read_device_def split_def Let_def off)
  also have "\<dots> = map (\<lambda>i. ucast (i_eeprom d ! eeprom_index ?a rg (of_nat i))) [0..<n]"
    using read_bytes_eeprom [OF assms(1), of ?d3 S n] d3 a(1,2) by simp
  also have "\<dots> = map (\<lambda>i. ucast (i_eeprom d ! ((256 * k + unat rg + i) mod 1024))) [0..<n]"
    using assms(3) eeprom_index_value [OF a(1,2)] u a(4) by (simp add: mult.commute)
  finally show ?thesis .
qed

text \<open>A sidecar's own VPD, its first chunk header read back.\<close>

definition sidecar_vpd :: "u8 list" where
  "sidecar_vpd = build_vpd_eeprom \<lparr>vc_sidecar = True, vc_index = 0, vc_serial = None, vc_part = None, vc_rev = None\<rparr>"

lemma eeprom_reads_sequentially_witness:
  "read_device \<lparr>temp_lsb = (\<lambda>_. 0), temp_int = (\<lambda>_. 0)\<rparr> (0x50 + of_nat 3) 0xFF 3 (i2c_new 95 sidecar_vpd 4 True) bridge_off =
     map (\<lambda>i. ucast (i_eeprom (i2c_new 95 sidecar_vpd 4 True) ! ((256 * 3 + unat (0xFF :: u8) + i) mod 1024))) [0..<3]"
  by (rule eeprom_reads_sequentially) (simp_all add: bridge_off_def)

section \<open>A read delegated to the device server\<close>

text \<open>The byte the controller's own model serves for a register at an index.\<close>

definition builtin_byte :: "sensors \<Rightarrow> i2c \<Rightarrow> u8 \<Rightarrow> u8 \<Rightarrow> nat \<Rightarrow> u8" where
  "builtin_byte S d addr rg i =
     (if 0x50 \<le> addr \<and> addr \<le> 0x53 then i_eeprom d ! ((unat (addr - 0x50) * 256 + unat rg + i) mod 1024)
      else (case device_reg S addr rg of
              None \<Rightarrow> 0 | Some v \<Rightarrow> ucast (if i = 0 then drop_bit 8 v AND 0xFF else v AND 0xFF)))"

definition served_byte :: "override list \<Rightarrow> sensors \<Rightarrow> i2c \<Rightarrow> u8 \<Rightarrow> u8 \<Rightarrow> nat \<Rightarrow> u8" where
  "served_byte ovs S d addr rg i =
     (case find_map (override_byte addr rg i) ovs of Some v \<Rightarrow> v | None \<Rightarrow> builtin_byte S d addr rg i)"

lemma rxdr_in_step:
  assumes "in_step ovs b" and "br_room b = Suc n" and "i_read_idx d = of_nat i" and "i < 2 ^ 16"
  obtains b1 where
    "i2c_rxdr S d b =
       (served_byte ovs S d (i_addr d) (i_reg_ptr d) i, d\<lparr>i_read_idx := of_nat (Suc i)\<rparr>, b1)"
    "in_step ovs b1" "br_room b1 = n"
proof -
  have u: "unat (of_nat i :: u16) = i" using assms(4) by (simp add: unat_of_nat)
  have z: "of_nat i = (0 :: u16) \<longleftrightarrow> i = 0"
  proof
    assume "of_nat i = (0 :: u16)"
    then have "unat (of_nat i :: u16) = 0" by (simp only: unat_0)
    with u show "i = 0" by simp
  qed simp
  obtain b1 where r: "on_read (i_bus d) (i_addr d) (i_reg_ptr d) (i_read_idx d) b =
      (find_map (override_byte (i_addr d) (i_reg_ptr d) i) ovs, b1)" "in_step ovs b1" "br_room b1 = n"
    using on_read_in_step [OF assms(1,2)] assms(3) u by metis
  have "br_mode b1 = Bridge_Device" using r(2) by (simp add: in_step_def)
  then have s: "on_read_served bus addr rg idx v b1 = b1" for bus addr rg idx v
    by (simp add: on_read_served_def)
  have model: "(if 0x50 \<le> i_addr d \<and> i_addr d \<le> 0x53
      then i_eeprom d ! eeprom_index (i_addr d) (i_reg_ptr d) (i_read_idx d)
      else let v = (case device_reg S (i_addr d) (i_reg_ptr d) of None \<Rightarrow> 0 | Some v \<Rightarrow> v)
           in ucast (if i_read_idx d = 0 then drop_bit 8 v AND 0xFF else v AND 0xFF)) =
      builtin_byte S d (i_addr d) (i_reg_ptr d) i"
  proof (cases "0x50 \<le> i_addr d \<and> i_addr d \<le> 0x53")
    case True
    then show ?thesis using eeprom_index_value [of "i_addr d" i "i_reg_ptr d"] assms(3,4) by (simp add: builtin_byte_def)
  next
    case False
    show ?thesis unfolding builtin_byte_def if_not_P [OF False] assms(3) z
      by (cases "device_reg S (i_addr d) (i_reg_ptr d)") (simp_all add: Let_def)
  qed
  have nx: "i_read_idx d + 1 = of_nat (Suc i)" by (simp add: assms(3))
  have "i2c_rxdr S d b =
      (served_byte ovs S d (i_addr d) (i_reg_ptr d) i, d\<lparr>i_read_idx := of_nat (Suc i)\<rparr>, b1)"
  proof (cases "find_map (override_byte (i_addr d) (i_reg_ptr d) i) ovs")
    case None
    then show ?thesis unfolding i2c_rxdr_def r(1) model nx by (simp add: s served_byte_def Let_def)
  next
    case (Some v)
    then show ?thesis unfolding i2c_rxdr_def r(1) nx by (simp add: served_byte_def Let_def)
  qed
  with r(2,3) show ?thesis by (intro that)
qed

lemma read_bytes_in_step:
  assumes "in_step ovs b" and "n \<le> br_room b" and "i_read_idx d = of_nat i" and "i + n \<le> 2 ^ 16"
  shows "fst (read_bytes S n d b) =
    map (\<lambda>j. ucast (served_byte ovs S d (i_addr d) (i_reg_ptr d) (i + j))) [0..<n]"
  using assms
proof (induction n arbitrary: d b i)
  case (Suc n)
  obtain m where m: "br_room b = Suc m" "n \<le> m" using Suc.prems(2) by (cases "br_room b") auto
  let ?d = "d\<lparr>i_read_idx := of_nat (Suc i)\<rparr>"
  have "i < 2 ^ 16" using Suc.prems(4) by simp
  then obtain b1 where r: "i2c_rxdr S d b = (served_byte ovs S d (i_addr d) (i_reg_ptr d) i, ?d, b1)"
      "in_step ovs b1" "br_room b1 = m"
    using rxdr_in_step [OF Suc.prems(1) m(1) Suc.prems(3)] by metis
  have "fst (read_bytes S n ?d b1) =
      map (\<lambda>j. ucast (served_byte ovs S ?d (i_addr ?d) (i_reg_ptr ?d) (Suc i + j))) [0..<n]"
    by (rule Suc.IH) (use r m(2) Suc.prems(4) in simp_all)
  moreover have "served_byte ovs S ?d a g k = served_byte ovs S d a g k" for a g k
    by (simp add: served_byte_def builtin_byte_def cong: if_cong option.case_cong)
  ultimately show ?case
    by (simp add: i2c_read_rxdr r(1) split_def upt_rec [of 0] map_Suc_upt [symmetric] comp_def del: upt_Suc)
qed simp

text \<open>
  C37: A device server injects what its overrides say. In device mode, connected to a server with any
  list of overrides, a driver's read of a device register over the emulated controller (register
  pointer written, repeated start, \<open>n\<close> bytes read) returns for each byte the first matching
  override's byte, the high byte of a register first, and the built-in model's byte if none
  matches. The server answers the very lines it is sent: the read queries carry the address, the
  register and the byte's index through their text encoding and the answers come back through
  theirs, while the start and write lines in between get none.
\<close>

theorem delegated_read:
  assumes "in_step ovs b" and "addr < 0x80" and "n + 3 \<le> br_room b" and "n \<le> 2 ^ 16"
  shows "read_device S addr rg n d b = map (\<lambda>i. ucast (served_byte ovs S d addr rg i)) [0..<n]"
proof -
  obtain m where room: "br_room b = Suc (Suc (Suc m))" "n \<le> m"
    using assms(3) that [of "br_room b - 3"] by simp
  let ?w1 = "i2c_write d b 4 (cr2_start addr False 1)"
  let ?w2 = "i2c_write (fst ?w1) (snd ?w1) 0x28 (ucast rg)"
  let ?w3 = "i2c_write (fst ?w2) (snd ?w2) 4 (cr2_start addr True (of_nat n AND 0xFF))"
  have start: "in_step ovs (snd (i2c_write e c 4 (cr2_start addr rd k))) \<and>
      br_room (snd (i2c_write e c 4 (cr2_start addr rd k))) = j"
    if "in_step ovs c" "br_room c = Suc j" for e c rd k j
    using on_start_in_step [OF that] cr2_fields(1) [OF assms(2), of rd k]
    by (simp add: i2c_write_def Let_def split_def)
  have b1: "in_step ovs (snd ?w1)" "br_room (snd ?w1) = Suc (Suc m)"
    using start [OF assms(1) room(1)] by simp_all
  have low: "(ucast ((ucast rg :: u32) AND 0xFF) :: u8) = rg"
  proof -
    have e: "(0xFF :: u32) = mask 8" by (simp add: mask_eq_exp_minus_1)
    show ?thesis unfolding e by (rule bit_word_eqI) (auto simp: bit_simps)
  qed
  have b2: "in_step ovs (snd ?w2)" "br_room (snd ?w2) = Suc m"
    using on_write_in_step [OF b1] by (simp_all add: i2c_write_def i2c_txdr_def)
  have b3: "in_step ovs (snd ?w3)" "br_room (snd ?w3) = m" using start [OF b2] by simp_all
  have d1: "i_eeprom (fst ?w1) = i_eeprom d \<and> i_writing (fst ?w1) \<and> \<not> i_wrote_ptr (fst ?w1)"
    by (simp add: start_write [OF assms(2)] Let_def)
  then have d2: "i_eeprom (fst ?w2) = i_eeprom d \<and> i_reg_ptr (fst ?w2) = rg"
    by (simp add: i2c_write_def i2c_txdr_def low)
  then have d3: "i_eeprom (fst ?w3) = i_eeprom d \<and> i_reg_ptr (fst ?w3) = rg \<and> i_addr (fst ?w3) = addr \<and>
      i_read_idx (fst ?w3) = 0"
    by (simp add: start_write [OF assms(2)] Let_def)
  have "read_device S addr rg n d b = fst (read_bytes S n (fst ?w3) (snd ?w3))"
    by (simp add: read_device_def split_def Let_def)
  also have "\<dots> = map (\<lambda>i. ucast (served_byte ovs S (fst ?w3) addr rg i)) [0..<n]"
    using read_bytes_in_step [OF b3(1), of n "fst ?w3" 0 S] b3(2) room(2) d3 assms(4) by simp
  also have "\<dots> = map (\<lambda>i. ucast (served_byte ovs S d addr rg i)) [0..<n]"
  proof -
    have e: "i_eeprom (fst ?w3) = i_eeprom d" using d3 by blast
    show ?thesis unfolding served_byte_def builtin_byte_def e ..
  qed
  finally show ?thesis .
qed

text \<open>The override \<open>0x48/0x00=0x2800\<close>, both bytes read.\<close>

definition device_link :: bridge where
  "device_link = \<lparr>br_mode = Bridge_Device, br_writable = True, br_readable = True, br_room = 5, br_sent = [],
     br_peer = server_peer [Ov_Reg 0x48 0 0x2800], br_taken = 0\<rparr>"

lemma delegated_read_witness:
  "read_device \<lparr>temp_lsb = (\<lambda>_. 0), temp_int = (\<lambda>_. 0)\<rparr> 0x48 0 2 (i2c_new 31 [] 1 False) device_link = [0x28, 0]"
proof -
  let ?S = "\<lparr>temp_lsb = (\<lambda>_. 0), temp_int = (\<lambda>_. 0)\<rparr>" and ?d = "i2c_new 31 [] 1 False"
    and ?ovs = "[Ov_Reg 0x48 0 0x2800]"
  have "in_step ?ovs device_link"
    by (simp add: in_step_def device_link_def server_peer_def List.map_filter_def)
  then have "read_device ?S 0x48 0 2 ?d device_link = map (\<lambda>i. ucast (served_byte ?ovs ?S ?d 0x48 0 i)) [0..<2]"
    by (rule delegated_read) (simp_all add: device_link_def)
  also have "\<dots> = [0x28, 0]" by (simp add: served_byte_def override_byte_def upt_rec)
  finally show ?thesis .
qed

section \<open>Two instances, one serial\<close>

text \<open>
  The default serial of instance 10 is twelve characters, one more than the field holds:
  truncated, it is instance 1's. Inventory keys on the serial.
\<close>

theorem vpd_serial_collision:
  "vpd_serial \<lparr>vc_sidecar = False, vc_index = 10, vc_serial = None, vc_part = None, vc_rev = None\<rparr> =
   vpd_serial \<lparr>vc_sidecar = False, vc_index = 1, vc_serial = None, vc_part = None, vc_rev = None\<rparr>"
proof -
  have d: "dec 10 = ''10''" "dec (Suc 0) = ''1''"
    by (simp_all add: print_uint.simps digit_char_def char_of_def bit_Suc_0_iff)
  show ?thesis unfolding vpd_serial_def vpd_ascii_field_def by (simp add: d)
qed

end
