(* ===== verification/Sprot.thy ===== *)
theory Sprot
  imports Devices
begin

text \<open>
  The SPI link between the service processor and the root of trust (\<open>src/sprot.rs\<close>), and
  the GPIO bank of the SP that drives its chip select (\<open>GpioBank\<close> of \<open>src/soc.rs\<close>).
  \<open>link\<close> is the mutex-guarded \<open>SprotLink\<close>. Every register access runs with the mutex
  held, so the accesses of the two threads are atomic steps, except where the SP waits on a
  condition variable: there the other thread may act, and what it does at the k-th wait is
  the k-th entry of a \<open>schedule\<close>. Condition variables, trace output and its counters are
  left out.
\<close>

unbundle bit_operations_syntax

section \<open>The wires\<close>

abbreviation (input) SPROT_FIFO_BYTES :: nat where "SPROT_FIFO_BYTES \<equiv> 16"
abbreviation (input) ROT_IRQ_EXTI_BIT :: u32 where "ROT_IRQ_EXTI_BIT \<equiv> 8"
abbreviation (input) STALL_BUDGET_ITERS :: nat where "STALL_BUDGET_ITERS \<equiv> 400"

record link =
  mosi :: "u8 list"
  miso :: "u8 list"
  l_cs :: bool
  rot_irq :: bool
  l_ssa :: bool
  l_ssd :: bool
  sot_pending :: bool
  sp_rot_irq_pending :: bool
  request_in_flight :: bool
  sp_reset_release :: bool
  jtag_detect :: bool
  sp_reset_pint :: bool
  jtag_pint :: bool
  rot_live :: bool
  l_rx_frames :: u64
  l_tx_frames :: u64
  sp_txdr :: u64

definition link_default :: link where
  "link_default = \<lparr>mosi = [], miso = [], l_cs = False, rot_irq = False, l_ssa = False,
     l_ssd = False, sot_pending = False, sp_rot_irq_pending = False, request_in_flight = False,
     sp_reset_release = False, jtag_detect = False, sp_reset_pint = False, jtag_pint = False,
     rot_live = False, l_rx_frames = 0, l_tx_frames = 0, sp_txdr = 0\<rparr>"

text \<open>
  \<open>wait_sp\<close> gives up the mutex for at most \<open>WAIT_STEP_MS\<close>; \<open>paced\<close> is the loop
  \<open>while cond && budget > 0 { lk = wait_sp(lk); budget -= 1 }\<close>.
\<close>

type_synonym schedule = "nat \<Rightarrow> link \<Rightarrow> link"

fun paced :: "(link \<Rightarrow> bool) \<Rightarrow> nat \<Rightarrow> schedule \<Rightarrow> link \<Rightarrow> link \<times> schedule" where
  "paced P 0 peer l = (l, peer)"
| "paced P (Suc n) peer l =
     (if P l then paced P n (\<lambda>k. peer (Suc k)) (peer 0 l) else (l, peer))"

text \<open>\<open>VecDeque::pop_front().unwrap_or(0)\<close>.\<close>

definition pop_front :: "u8 list \<Rightarrow> u8 \<times> u8 list" where
  "pop_front q = (case q of [] \<Rightarrow> (0, []) | b # bs \<Rightarrow> (b, bs))"

section \<open>SP side: the SPI4 master\<close>

record spi_master =
  sm_tsize :: u32
  sm_sent :: u32
  sm_rx :: "u8 list"
  sm_spe :: bool

definition spi_master_new :: spi_master where
  "spi_master_new = \<lparr>sm_tsize = 0, sm_sent = 0, sm_rx = [], sm_spe = False\<rparr>"

definition spi_master_sr :: "spi_master \<Rightarrow> u32" where
  "spi_master_sr d =
     (2 OR (if sm_rx d \<noteq> [] then 1 else 0) OR
      (if length (sm_rx d) \<ge> 4 then push_bit 15 1
       else push_bit 13 (of_nat (length (sm_rx d)) AND 3)) OR
      (if sm_tsize d \<noteq> 0 \<and> sm_sent d \<ge> sm_tsize d then push_bit 3 1 OR push_bit 12 1 else 0))"

definition spi_master_read :: "spi_master \<Rightarrow> u32 \<Rightarrow> u32 \<times> spi_master" where
  "spi_master_read d off =
     (let w = word_of off in
      if w = 0x14 then (spi_master_sr d, d)
      else if w = 0x30 then
        (let (b, rest) = pop_front (sm_rx d) in (ucast b, d\<lparr>sm_rx := rest\<rparr>))
      else (0, d))"

text \<open>Clocking one byte: pace on the RoT when it is live, then one byte each way.\<close>

definition clock_paced :: "schedule \<Rightarrow> link \<Rightarrow> link \<times> schedule" where
  "clock_paced peer l =
     (if rot_live l then
        (let (l1, peer1) = paced (\<lambda>l. rot_irq l \<and> l_cs l \<and> miso l = []) STALL_BUDGET_ITERS peer l
         in paced (\<lambda>l. \<not> rot_irq l \<and> length (mosi l) \<ge> SPROT_FIFO_BYTES) STALL_BUDGET_ITERS peer1 l1)
      else (l, peer))"

definition clock_byte :: "u8 \<Rightarrow> link \<Rightarrow> u8 \<times> link" where
  "clock_byte b l =
     (let l1 = (if length (mosi l) < SPROT_FIFO_BYTES then l\<lparr>mosi := mosi l @ [b]\<rparr> else l);
          (inb, rest) = pop_front (miso l1)
      in (inb, l1\<lparr>sp_txdr := sp_txdr l1 + 1, miso := rest\<rparr>))"

definition spi_master_write ::
    "spi_master \<Rightarrow> link \<Rightarrow> schedule \<Rightarrow> u32 \<Rightarrow> u32 \<Rightarrow> spi_master \<times> link \<times> schedule" where
  "spi_master_write d l peer off val =
     (let w = word_of off in
      if w = 0 then
        (let spe = bit_set val 0;
             d1 = (if spe \<and> \<not> sm_spe d then d\<lparr>sm_sent := 0, sm_rx := []\<rparr> else d)
         in (d1\<lparr>sm_spe := spe\<rparr>, l, peer))
      else if w = 4 then (d\<lparr>sm_tsize := val AND 0xFFFF\<rparr>, l, peer)
      else if w = 0x20 then
        (let (l1, peer1) = clock_paced peer l;
             (inb, l2) = clock_byte (ucast (val AND 0xFF)) l1
         in (d\<lparr>sm_rx := sm_rx d @ [inb], sm_sent := sm_sent d + 1\<rparr>, l2, peer1))
      else (d, l, peer))"

section \<open>RoT side: the FLEXCOMM8 SPI slave\<close>

definition rot_slave_read :: "link \<Rightarrow> u32 \<Rightarrow> u32 \<times> link" where
  "rot_slave_read l off =
     (let w = word_of off in
      if w = 0x408 \<or> w = 0x428 then
        ((if l_ssa l then push_bit 4 1 else 0) OR (if l_ssd l then push_bit 5 1 else 0), l)
      else if w = 0xE04 then
        ((if length (miso l) < SPROT_FIFO_BYTES then push_bit 5 1 else 0) OR
         (if length (mosi l) \<ge> 2 then push_bit 6 1 else 0), l)
      else if w = 0xE30 then
        (let (hi, q1) = pop_front (mosi l);
             (lo, q2) = pop_front q1;
             sot = (if sot_pending l then push_bit 20 1 else 0)
         in (push_bit 8 (ucast hi) OR ucast lo OR sot,
             l\<lparr>request_in_flight := True, l_rx_frames := l_rx_frames l + 1, mosi := q2,
               sot_pending := False\<rparr>))
      else (0, l))"

definition rot_slave_write :: "link \<Rightarrow> u32 \<Rightarrow> u32 \<Rightarrow> link" where
  "rot_slave_write l off val =
     (let w = word_of off in
      if w = 0x408 then
        (let l1 = (if bit_set val 4 then l\<lparr>l_ssa := False\<rparr> else l)
         in if bit_set val 5 then l1\<lparr>l_ssd := False\<rparr> else l1)
      else if w = 0xE00 then
        (let l1 = (if bit_set val 16 then l\<lparr>miso := []\<rparr> else l)
         in if bit_set val 17 then l1\<lparr>mosi := []\<rparr> else l1)
      else if w = 0xE20 then
        (let frame = (ucast (val AND 0xFFFF) :: u16)
         in l\<lparr>l_tx_frames := l_tx_frames l + 1,
              miso := miso l @ [ucast (drop_bit 8 frame), ucast (frame AND 0xFF)]\<rparr>)
      else l)"

section \<open>RoT side: the GPIO block\<close>

record lpc_gpio =
  g_p0 :: u32
  g_reset_asserted :: bool

definition lpc_gpio_new :: lpc_gpio where
  "lpc_gpio_new = \<lparr>g_p0 = 0xFFFFFFFF, g_reset_asserted = False\<rparr>"

definition refresh :: "lpc_gpio \<Rightarrow> link \<Rightarrow> lpc_gpio \<times> link" where
  "refresh g l =
     (let asserted = (drop_bit 18 (g_p0 g) AND 1 = 0);
          reset_asserted = (drop_bit 13 (g_p0 g) AND 1 = 0);
          reset_released = (g_reset_asserted g \<and> \<not> reset_asserted);
          l1 = (if reset_released then l\<lparr>sp_reset_release := True\<rparr> else l);
          l2 = (if asserted then l1\<lparr>request_in_flight := False\<rparr> else l1)
      in (g\<lparr>g_reset_asserted := reset_asserted\<rparr>, l2\<lparr>rot_irq := asserted\<rparr>))"

definition lpc_gpio_read :: "lpc_gpio \<Rightarrow> link \<Rightarrow> u32 \<Rightarrow> u32" where
  "lpc_gpio_read g l off =
     (let w = word_of off in
      if w = 0x2100 then
        (if jtag_detect l then g_p0 g AND NOT (push_bit 20 1) else g_p0 g OR push_bit 20 1)
      else if w = 0x2104 then (if l_cs l then 0 else push_bit 1 1)
      else 0)"

definition lpc_gpio_pins :: "lpc_gpio \<Rightarrow> u32 \<Rightarrow> u32 \<Rightarrow> u32 option" where
  "lpc_gpio_pins g off val =
     (let w = word_of off in
      if w = 0x2100 then Some val
      else if w = 0x2200 then Some (g_p0 g OR val)
      else if w = 0x2280 then Some (g_p0 g AND NOT val)
      else if w = 0x2300 then Some (g_p0 g XOR val)
      else if w < 0x20 then
        (let pin = unat (w AND 0x1F) in
         Some (if val AND 0xFF \<noteq> 0 then g_p0 g OR push_bit pin 1 else g_p0 g AND NOT (push_bit pin 1)))
      else if 0x1000 \<le> w \<and> w < 0x1080 then
        (let pin = unat ((w - 0x1000) div 4) in
         Some (if val \<noteq> 0 then g_p0 g OR push_bit pin 1 else g_p0 g AND NOT (push_bit pin 1)))
      else None)"

definition lpc_gpio_write :: "lpc_gpio \<Rightarrow> link \<Rightarrow> u32 \<Rightarrow> u32 \<Rightarrow> lpc_gpio \<times> link" where
  "lpc_gpio_write g l off val =
     (case lpc_gpio_pins g off val of
        None \<Rightarrow> (g, l)
      | Some p \<Rightarrow> refresh (g\<lparr>g_p0 := p\<rparr>) l)"

section \<open>SP side: EXTI\<close>

definition exti_read :: "regmap \<Rightarrow> link \<Rightarrow> u32 \<Rightarrow> u32" where
  "exti_read m l off =
     (let w = word_of off in
      if w = 0x88 then
        (reg_get m w AND NOT ROT_IRQ_EXTI_BIT) OR (if sp_rot_irq_pending l then ROT_IRQ_EXTI_BIT else 0)
      else reg_get m w)"

definition exti_write :: "regmap \<Rightarrow> link \<Rightarrow> u32 \<Rightarrow> u32 \<Rightarrow> regmap \<times> link" where
  "exti_write m l off val =
     (let w = word_of off in
      if w = 0x88 then
        (m, if val AND ROT_IRQ_EXTI_BIT \<noteq> 0 then l\<lparr>sp_rot_irq_pending := False\<rparr> else l)
      else (m(w \<mapsto> val), l))"

section \<open>The stuck-link watchdog\<close>

text \<open>Times in seconds; \<open>watchdog_tick\<close> also says whether the stuck line is logged.\<close>

abbreviation (input) WATCHDOG_FIRST :: nat where "WATCHDOG_FIRST \<equiv> 5"
abbreviation (input) WATCHDOG_REPEAT :: nat where "WATCHDOG_REPEAT \<equiv> 60"

record watchdog =
  wd_counters :: "u64 \<times> u64 \<times> u64"
  wd_since :: nat
  wd_next_log :: nat

definition watchdog_new :: "nat \<Rightarrow> watchdog" where
  "watchdog_new now = \<lparr>wd_counters = (0, 0, 0), wd_since = now, wd_next_log = WATCHDOG_FIRST\<rparr>"

definition link_busy :: "link \<Rightarrow> bool" where
  "link_busy l = (l_ssa l \<or> l_ssd l \<or> rot_irq l \<or> request_in_flight l)"

definition watchdog_tick :: "link \<Rightarrow> nat \<Rightarrow> watchdog \<Rightarrow> bool \<times> watchdog" where
  "watchdog_tick l now wd =
     (let counters = (l_rx_frames l, l_tx_frames l, sp_txdr l);
          stuck = now - wd_since wd in
      if \<not> link_busy l \<or> counters \<noteq> wd_counters wd then
        (False, \<lparr>wd_counters = counters, wd_since = now, wd_next_log = WATCHDOG_FIRST\<rparr>)
      else if stuck \<ge> wd_next_log wd then
        (True, wd\<lparr>wd_next_log := stuck + WATCHDOG_REPEAT\<rparr>)
      else (False, wd))"

section \<open>SP side: the GPIO bank\<close>

text \<open>
  The bank shares the SPI2 chip select and the SPI5 chip-select generation with the SPI
  models and, when the bridge is on (\<open>Some\<close>), the link with the RoT.
\<close>

record gpio =
  gp_regs :: regmap
  gp_cs :: u8
  gp_spi5_gen :: u32
  gp_prev_pj6_low :: bool
  gp_sidecar :: bool

definition gpio_new :: "bool \<Rightarrow> gpio" where
  "gpio_new sidecar = \<lparr>gp_regs = Map.empty, gp_cs = 0, gp_spi5_gen = 0, gp_prev_pj6_low = False,
     gp_sidecar = sidecar\<rparr>"

definition update_cs :: "gpio \<Rightarrow> gpio" where
  "update_cs g =
     (let pb = reg_get (gp_regs g) 0x414;
          pi = reg_get (gp_regs g) 0x2014;
          pj = reg_get (gp_regs g) 0x2414;
          pj6_low = (\<not> bit_set pj 6)
      in g\<lparr>gp_cs := (if \<not> bit_set pb 5 then 1 else if \<not> bit_set pi 0 then 2 else 0),
           gp_spi5_gen := (if pj6_low \<and> \<not> gp_prev_pj6_low g then gp_spi5_gen g + 1 else gp_spi5_gen g),
           gp_prev_pj6_low := pj6_low\<rparr>)"

definition gpio_idr :: "gpio \<Rightarrow> link option \<Rightarrow> u32 \<Rightarrow> u32" where
  "gpio_idr g lk port =
     (let odr = reg_get (gp_regs g) (port * 0x400 + 0x14) in
      if port = 4 then
        (let asserted = (case lk of None \<Rightarrow> False | Some l \<Rightarrow> rot_irq l)
         in (odr AND NOT (push_bit 3 1)) OR (if asserted then 0 else push_bit 3 1))
      else if gp_sidecar g then
        (if port = 2 then push_bit 7 1
         else if port = 5 then odr OR push_bit 12 1
         else if port = 9 then push_bit 15 1 OR push_bit 13 1
         else odr)
      else if port = 2 then push_bit 6 3
      else if port = 6 then 2
      else odr)"

definition gpio_read :: "gpio \<Rightarrow> link option \<Rightarrow> u32 \<Rightarrow> u32" where
  "gpio_read g lk off =
     (if off AND 0x3FF AND NOT 3 = 0x10 then gpio_idr g lk (off div 0x400)
      else reg_get (gp_regs g) (word_of off))"

text \<open>A write to port E: the chip-select edge seen by the link.\<close>

definition drive_cs :: "bool \<Rightarrow> schedule \<Rightarrow> link \<Rightarrow> link \<times> schedule" where
  "drive_cs new_cs peer l =
     (if new_cs \<noteq> l_cs l then
        (if new_cs then
           (let (l1, peer1) =
                  (if rot_live l then
                     (let (l1, peer1) = paced (\<lambda>l. l_ssa l \<or> l_ssd l) STALL_BUDGET_ITERS peer l
                      in (l1\<lparr>mosi := []\<rparr>, peer1))
                   else (l, peer))
            in (l1\<lparr>l_ssa := True, sot_pending := True, l_cs := new_cs\<rparr>, peer1))
         else (l\<lparr>l_ssd := True, l_cs := new_cs\<rparr>, peer))
      else (l\<lparr>l_cs := new_cs\<rparr>, peer))"

definition gpio_store :: "gpio \<Rightarrow> u32 \<Rightarrow> u32 \<Rightarrow> gpio" where
  "gpio_store g off val =
     (if off AND 0x3FF AND NOT 3 = 0x18 then
        (let k = off div 0x400 * 0x400 + 0x14
         in g\<lparr>gp_regs := (gp_regs g)(k \<mapsto>
                (reg_get (gp_regs g) k OR (val AND 0xFFFF)) AND NOT (drop_bit 16 val))\<rparr>)
      else g\<lparr>gp_regs := (gp_regs g)(word_of off \<mapsto> val)\<rparr>)"

definition gpio_write ::
    "gpio \<Rightarrow> link option \<Rightarrow> schedule \<Rightarrow> u32 \<Rightarrow> u32 \<Rightarrow> gpio \<times> link option \<times> schedule" where
  "gpio_write g lk peer off val =
     (let port = off div 0x400;
          g1 = gpio_store g off val;
          (lk1, peer1) =
            (case lk of
               Some l \<Rightarrow>
                 if port = 4 then
                   (let new_cs = (drop_bit 4 (reg_get (gp_regs g1) 0x1014) AND 1 = 0);
                        (l1, p1) = drive_cs new_cs peer l
                    in (Some l1, p1))
                 else (lk, peer)
             | None \<Rightarrow> (lk, peer));
          g2 = (if port = 1 \<or> port = 8 \<or> port = 9 then update_cs g1 else g1)
      in (g2, lk1, peer1))"

end
