(* ===== verification/RotSwd_Port.thy ===== *)
theory RotSwd_Port
  imports Prelude
begin

text \<open>
  The RoT's end of the internal SWD link (\<open>src/rotswd.rs\<close>): a FLEXCOMM5 SPI block that
  decodes the raw SWD frames the RoT clocks out into ADIv5 transactions, queues them on the
  shared link, and clocks acknowledgement and data back. Waking the other thread and the
  traces are left out.
\<close>

unbundle bit_operations_syntax

section \<open>State\<close>

record swd_req =
  sr_ap :: bool
  sr_rnw :: bool
  sr_a :: u8
  sr_wdata :: u32

record swd_link =
  sw_req :: "swd_req list"
  sw_resp :: "u32 option"

datatype swd_phase = SwdIdle | ReadData | WriteData u64 nat bool u8

record rot_swd =
  sw_rx :: "u16 list"
  sw_phase :: swd_phase

definition rot_swd_new :: rot_swd where
  "rot_swd_new = \<lparr>sw_rx = [], sw_phase = SwdIdle\<rparr>"

abbreviation (input) SWD_STAT :: u32 where "SWD_STAT \<equiv> 0x408"
abbreviation (input) SWD_FIFOSTAT :: u32 where "SWD_FIFOSTAT \<equiv> 0xE04"
abbreviation (input) SWD_FIFOWR :: u32 where "SWD_FIFOWR \<equiv> 0xE20"
abbreviation (input) SWD_FIFORD :: u32 where "SWD_FIFORD \<equiv> 0xE30"
abbreviation (input) ACK_OK :: u16 where "ACK_OK \<equiv> 4"

section \<open>Read data\<close>

definition swd_parity :: "u32 \<Rightarrow> u16" where
  "swd_parity d = of_nat (count_ones d) AND 1"

definition read_frames :: "u32 \<Rightarrow> u16 list" where
  "read_frames d =
     [ucast (word_reverse (byte_of d 0)), ucast (word_reverse (byte_of d 1)),
      ucast (word_reverse (byte_of d 2)), push_bit 1 (ucast (word_reverse (byte_of d 3))) OR swd_parity d]"

definition maybe_supply :: "rot_swd \<Rightarrow> swd_link \<Rightarrow> rot_swd \<times> swd_link" where
  "maybe_supply s l =
     (if sw_phase s \<noteq> ReadData \<or> sw_rx s \<noteq> [] then (s, l)
      else case sw_resp l of
        None \<Rightarrow> (s, l)
      | Some d \<Rightarrow> (\<lparr>sw_rx = read_frames d, sw_phase = SwdIdle\<rparr>, l\<lparr>sw_resp := None\<rparr>))"

section \<open>Frames from the RoT\<close>

definition is_request :: "nat \<Rightarrow> u16 \<Rightarrow> bool" where
  "is_request len data = (len = 8 \<and> data AND 0x83 = 0x81)"

definition request_addr :: "u16 \<Rightarrow> u8" where
  "request_addr data = ucast (push_bit 2 (drop_bit 4 data AND 1) OR push_bit 3 (drop_bit 3 data AND 1))"

definition on_request :: "rot_swd \<Rightarrow> swd_link \<Rightarrow> u16 \<Rightarrow> rot_swd \<times> swd_link" where
  "on_request s l data =
     (let ap = (drop_bit 6 data AND 1 \<noteq> 0); rnw = (drop_bit 5 data AND 1 \<noteq> 0); a = request_addr data;
          s1 = s\<lparr>sw_rx := sw_rx s @ [ACK_OK]\<rparr> in
      if rnw then
        (s1\<lparr>sw_phase := ReadData\<rparr>,
         l\<lparr>sw_req := sw_req l @ [\<lparr>sr_ap = ap, sr_rnw = True, sr_a = a, sr_wdata = 0\<rparr>]\<rparr>)
      else (s1\<lparr>sw_phase := WriteData 0 0 ap a\<rparr>, l))"

definition on_data :: "rot_swd \<Rightarrow> swd_link \<Rightarrow> u64 \<Rightarrow> nat \<Rightarrow> bool \<Rightarrow> u8 \<Rightarrow> nat \<Rightarrow> u16 \<Rightarrow> rot_swd \<times> swd_link" where
  "on_data s l acc0 bits0 ap a len data =
     (if len = 4 then (s, l)
      else
        (let acc = push_bit len acc0 OR (ucast data AND mask len); bits = bits0 + len in
         if 34 \<le> bits then
           (let w = word_reverse (ucast (drop_bit 1 acc) :: u32) in
            (s\<lparr>sw_phase := SwdIdle\<rparr>,
             l\<lparr>sw_req := sw_req l @ [\<lparr>sr_ap = ap, sr_rnw = False, sr_a = a, sr_wdata = w\<rparr>]\<rparr>))
         else (s\<lparr>sw_phase := WriteData acc bits ap a\<rparr>, l)))"

definition swd_frame :: "rot_swd \<Rightarrow> swd_link \<Rightarrow> nat \<Rightarrow> u16 \<Rightarrow> rot_swd \<times> swd_link" where
  "swd_frame s l len data = (case sw_phase s of
     SwdIdle \<Rightarrow> if is_request len data then on_request s l data else (s, l)
   | ReadData \<Rightarrow> (s, l)
   | WriteData acc bits ap a \<Rightarrow> on_data s l acc bits ap a len data)"

definition fifowr :: "rot_swd \<Rightarrow> swd_link \<Rightarrow> u32 \<Rightarrow> rot_swd \<times> swd_link" where
  "fifowr s l val = swd_frame s l (unat (drop_bit 24 val AND 0xF) + 1) (ucast (val AND 0xFFFF))"

section \<open>The register interface\<close>

definition rot_swd_read :: "rot_swd \<Rightarrow> swd_link \<Rightarrow> u32 \<Rightarrow> u32 \<times> rot_swd \<times> swd_link" where
  "rot_swd_read s l off =
     (let w = off AND NOT 3 in
      if w = SWD_STAT then (push_bit 8 1, s, l)
      else if w = SWD_FIFOSTAT then
        (let (s1, l1) = maybe_supply s l in
         (push_bit 5 1 OR (if sw_rx s1 = [] then 0 else push_bit 6 1), s1, l1))
      else if w = SWD_FIFORD then
        (let (s1, l1) = maybe_supply s l in
         case sw_rx s1 of [] \<Rightarrow> (0, s1, l1) | x # xs \<Rightarrow> (ucast x, s1\<lparr>sw_rx := xs\<rparr>, l1))
      else (0, s, l))"

definition rot_swd_write :: "rot_swd \<Rightarrow> swd_link \<Rightarrow> u32 \<Rightarrow> u32 \<Rightarrow> rot_swd \<times> swd_link" where
  "rot_swd_write s l off val = (if off AND NOT 3 = SWD_FIFOWR then fifowr s l val else (s, l))"

end
