(* ===== verification/Puf.thy ===== *)
theory Puf
  imports Prelude
begin

text \<open>
  The LPC55 PUF key store of \<open>src/puf.rs\<close>: GENERATEKEY streams a keycode out of CODEOUTPUT,
  GETKEY takes one back through CODEINPUT and streams the device seed out of KEYOUTPUT. The
  seed (\<open>src/identity.rs\<close>) is part of the state; the debug traces are left out.
\<close>

unbundle bit_operations_syntax

section \<open>State and registers\<close>

record puf =
  keyindex :: u32
  keysize :: u32
  idxblk_l :: u32
  puf_busy :: bool
  puf_success :: bool
  puf_error :: bool
  puf_seed :: "u8 list"
  codeout :: "u32 list"
  codein_left :: nat
  keyout :: "u32 list"
  puf_regs :: "u32 \<rightharpoonup> u32"

definition puf_new :: "u8 list \<Rightarrow> puf" where
  "puf_new uds = \<lparr>keyindex = 0, keysize = 0, idxblk_l = 0, puf_busy = False, puf_success = False,
     puf_error = False, puf_seed = uds, codeout = [], codein_left = 0, keyout = [], puf_regs = Map.empty\<rparr>"

abbreviation (input) PUF_CTRL :: u32 where "PUF_CTRL \<equiv> 0x00"
abbreviation (input) PUF_KEYINDEX :: u32 where "PUF_KEYINDEX \<equiv> 0x04"
abbreviation (input) PUF_KEYSIZE :: u32 where "PUF_KEYSIZE \<equiv> 0x08"
abbreviation (input) PUF_STAT :: u32 where "PUF_STAT \<equiv> 0x20"
abbreviation (input) PUF_ALLOW :: u32 where "PUF_ALLOW \<equiv> 0x28"
abbreviation (input) PUF_KEYINPUT :: u32 where "PUF_KEYINPUT \<equiv> 0x40"
abbreviation (input) PUF_CODEINPUT :: u32 where "PUF_CODEINPUT \<equiv> 0x44"
abbreviation (input) PUF_CODEOUTPUT :: u32 where "PUF_CODEOUTPUT \<equiv> 0x48"
abbreviation (input) PUF_KEYOUTPUT :: u32 where "PUF_KEYOUTPUT \<equiv> 0x64"
abbreviation (input) PUF_IFSTAT :: u32 where "PUF_IFSTAT \<equiv> 0xDC"
abbreviation (input) PUF_IDXBLK_L :: u32 where "PUF_IDXBLK_L \<equiv> 0x20C"

definition key_bytes :: "puf \<Rightarrow> nat" where
  "key_bytes p = unat (keysize p) * 8"

definition keycode_words :: "puf \<Rightarrow> nat" where
  "keycode_words p = (20 + (key_bytes p + 31) div 32 * 32) div 4"

definition puf_stat :: "puf \<Rightarrow> u32" where
  "puf_stat p = b2w (puf_busy p) OR push_bit 1 (b2w (puf_success p)) OR push_bit 2 (b2w (puf_error p))
     OR push_bit 5 (b2w (keyout p \<noteq> [])) OR push_bit 6 (b2w (0 < codein_left p))
     OR push_bit 7 (b2w (codeout p \<noteq> []))"

section \<open>Commands\<close>

definition keycode :: "puf \<Rightarrow> u32 list" where
  "keycode p = push_bit 8 (keyindex p AND 0xf) # map (\<lambda>i. 0xC0DE0000 OR of_nat i) [1..<keycode_words p]"

definition start_generate :: "puf \<Rightarrow> puf" where
  "start_generate p = p\<lparr>puf_success := False, puf_error := False, codeout := keycode p, puf_busy := True\<rparr>"

definition start_getkey :: "puf \<Rightarrow> puf" where
  "start_getkey p = p\<lparr>puf_success := False, puf_error := False, codein_left := keycode_words p,
     keyout := [], puf_busy := True\<rparr>"

definition pop_codeout :: "puf \<Rightarrow> u32 \<times> puf" where
  "pop_codeout p =
     (let (v, p1) = (case codeout p of [] \<Rightarrow> (0, p) | x # xs \<Rightarrow> (x, p\<lparr>codeout := xs\<rparr>)) in
      (v, if codeout p1 = [] then p1\<lparr>puf_busy := False, puf_success := True\<rparr> else p1))"

definition seed_words :: "puf \<Rightarrow> u32 list" where
  "seed_words p = map (\<lambda>i. le32 (puf_seed p ! (4 * i)) (puf_seed p ! (4 * i + 1)) (puf_seed p ! (4 * i + 2)) (puf_seed p ! (4 * i + 3)))
     [0..<min (key_bytes p) (length (puf_seed p)) div 4]"

definition consume_codein :: "puf \<Rightarrow> puf" where
  "consume_codein p =
     (if 0 < codein_left p then
        (let p1 = p\<lparr>codein_left := codein_left p - 1\<rparr> in
         if codein_left p1 = 0 then p1\<lparr>keyout := keyout p1 @ seed_words p1\<rparr> else p1)
      else p)"

definition pop_keyout :: "puf \<Rightarrow> u32 \<times> puf" where
  "pop_keyout p =
     (let (v, p1) = (case keyout p of [] \<Rightarrow> (0, p) | x # xs \<Rightarrow> (x, p\<lparr>keyout := xs\<rparr>)) in
      (v, if keyout p1 = [] \<and> codein_left p1 = 0 then p1\<lparr>puf_busy := False, puf_success := True\<rparr> else p1))"

section \<open>The register interface\<close>

definition puf_read :: "puf \<Rightarrow> u32 \<Rightarrow> u32 \<times> puf" where
  "puf_read p off =
     (if off = PUF_STAT then (puf_stat p, p)
      else if off = PUF_ALLOW then (0x0F, p)
      else if off = PUF_CODEOUTPUT then pop_codeout p
      else if off = PUF_KEYOUTPUT then pop_keyout p
      else if off = PUF_IFSTAT then (0, p)
      else if off = PUF_IDXBLK_L then (idxblk_l p, p)
      else if off = PUF_KEYINDEX then (keyindex p, p)
      else if off = PUF_KEYSIZE then (keysize p, p)
      else (reg_get (puf_regs p) off, p))"

definition puf_write :: "puf \<Rightarrow> u32 \<Rightarrow> u32 \<Rightarrow> puf" where
  "puf_write p off val =
     (if off = PUF_CTRL then
        (if val AND 8 \<noteq> 0 then start_generate p else if val AND 0x40 \<noteq> 0 then start_getkey p else p)
      else if off = PUF_KEYINDEX then p\<lparr>keyindex := val\<rparr>
      else if off = PUF_KEYSIZE then p\<lparr>keysize := val AND 0x3F\<rparr>
      else if off = PUF_CODEINPUT then consume_codein p
      else if off = PUF_IDXBLK_L then p\<lparr>idxblk_l := val\<rparr>
      else if off = PUF_KEYINPUT then p
      else p\<lparr>puf_regs := (puf_regs p)(off \<mapsto> val)\<rparr>)"

section \<open>The driver's handshakes\<close>

fun read_reg_n :: "puf \<Rightarrow> u32 \<Rightarrow> nat \<Rightarrow> u32 list \<times> puf" where
  "read_reg_n p off 0 = ([], p)"
| "read_reg_n p off (Suc n) =
     (let (v, p1) = puf_read p off; (vs, p2) = read_reg_n p1 off n in (v # vs, p2))"

fun feed_code :: "puf \<Rightarrow> u32 list \<Rightarrow> puf" where
  "feed_code p [] = p"
| "feed_code p (w # ws) = feed_code (puf_write p PUF_CODEINPUT w) ws"

lemma read_codeout:
  "n < length (codeout p) \<Longrightarrow>
     read_reg_n p PUF_CODEOUTPUT n = (take n (codeout p), p\<lparr>codeout := drop n (codeout p)\<rparr>)"
proof (induction n arbitrary: p)
  case (Suc n)
  then obtain x xs where x: "codeout p = x # xs" by (cases "codeout p") auto
  with Suc.prems have "xs \<noteq> []" by auto
  with x Suc.IH [of "p\<lparr>codeout := xs\<rparr>"] Suc.prems show ?case
    by (simp add: puf_read_def pop_codeout_def)
qed simp

lemma read_keyout:
  "n < length (keyout p) \<Longrightarrow>
     read_reg_n p PUF_KEYOUTPUT n = (take n (keyout p), p\<lparr>keyout := drop n (keyout p)\<rparr>)"
proof (induction n arbitrary: p)
  case (Suc n)
  then obtain x xs where x: "keyout p = x # xs" by (cases "keyout p") auto
  with Suc.prems have "xs \<noteq> []" by auto
  with x Suc.IH [of "p\<lparr>keyout := xs\<rparr>"] Suc.prems show ?case
    by (simp add: puf_read_def pop_keyout_def)
qed simp

lemma read_reg_n_Suc_end:
  "read_reg_n p off (Suc n) = (let (vs, p1) = read_reg_n p off n; (v, p2) = puf_read p1 off in (vs @ [v], p2))"
  by (induction n arbitrary: p) (simp_all add: Let_def split_def)

lemma feed_code_short:
  "length ws < codein_left p \<Longrightarrow> feed_code p ws = p\<lparr>codein_left := codein_left p - length ws\<rparr>"
proof (induction ws arbitrary: p)
  case (Cons w ws)
  then show ?case by (simp add: puf_write_def consume_codein_def)
qed simp

lemma feed_code_append: "feed_code p (ws @ vs) = feed_code (feed_code p ws) vs"
  by (induction ws arbitrary: p) simp_all

lemma feed_code_all:
  assumes "length ws = codein_left p" and "0 < codein_left p"
  shows "feed_code p ws = p\<lparr>codein_left := 0, keyout := keyout p @ seed_words p\<rparr>"
proof -
  from assms obtain vs v where ws: "ws = vs @ [v]" by (metis length_0_conv less_not_refl rev_exhaust)
  with assms(1) have "length vs < codein_left p" "codein_left p - length vs = 1" by auto
  then have "feed_code p vs = p\<lparr>codein_left := 1\<rparr>" using feed_code_short by metis
  then show ?thesis by (simp add: ws feed_code_append puf_write_def consume_codein_def seed_words_def key_bytes_def)
qed

text \<open>
  The key derivation handshake delivers the device seed: after GETKEY, the engine asks for
  exactly the keycode's words, then streams the seed's words for the requested key length,
  little endian, staying busy until the last one is read, and then reports success.
\<close>

theorem puf_getkey_streams_seed:
  fixes p :: puf
  defines "p1 \<equiv> puf_write p PUF_CTRL 0x40"
  assumes "length (puf_seed p) = 32" and "0 < key_bytes p" and "length ws = keycode_words p" and "k < keycode_words p"
    and "n = min (key_bytes p) 32 div 4" and "j < n"
  shows "bit (puf_stat (feed_code p1 (take k ws))) 0 \<and> bit (puf_stat (feed_code p1 (take k ws))) 6 \<and>
    fst (read_reg_n (feed_code p1 ws) PUF_KEYOUTPUT n) = seed_words p \<and>
    bit (puf_stat (snd (read_reg_n (feed_code p1 ws) PUF_KEYOUTPUT j))) 0 \<and>
    puf_stat (snd (read_reg_n (feed_code p1 ws) PUF_KEYOUTPUT n)) AND 0x67 = 2"
proof -
  let ?m = "keycode_words p"
  have m: "0 < ?m" by (simp add: keycode_words_def)
  have p1: "p1 = start_getkey p" by (simp add: p1_def puf_write_def)
  then have c: "codein_left p1 = ?m" "puf_busy p1" "keyout p1 = []" "seed_words p1 = seed_words p"
    by (simp_all add: start_getkey_def seed_words_def key_bytes_def)
  have short: "feed_code p1 (take k ws) = p1\<lparr>codein_left := ?m - k\<rparr>"
    using feed_code_short [of "take k ws" p1] assms(4,5) c(1) by simp
  define q where "q = feed_code p1 ws"
  have q: "q = p1\<lparr>codein_left := 0, keyout := seed_words p\<rparr>"
    unfolding q_def using feed_code_all [of ws p1] assms(4) m c by simp
  have l: "length (keyout q) = n" using assms(2,6) by (simp add: q seed_words_def)
  have rd: "read_reg_n q PUF_KEYOUTPUT i = (take i (keyout q), q\<lparr>keyout := drop i (keyout q)\<rparr>)" if "i < n" for i
    using read_keyout that l by blast
  obtain n' where n: "n = Suc n'" using assms(7) by (cases n) auto
  have d: "drop n' (keyout q) = [keyout q ! n']" using l n by (simp add: Cons_nth_drop_Suc [symmetric])
  have t: "take n' (keyout q) @ [keyout q ! n'] = keyout q" using d l n append_take_drop_id [of n' "keyout q"] by simp
  have fin: "read_reg_n q PUF_KEYOUTPUT n =
      (keyout q, q\<lparr>keyout := [], puf_busy := False, puf_success := True\<rparr>)"
    unfolding n read_reg_n_Suc_end using rd [of n'] n d t q by (simp add: puf_read_def pop_keyout_def)
  have e: "\<not> puf_error q" by (simp add: q p1 start_getkey_def)
  have st: "puf_stat (q\<lparr>keyout := [], puf_busy := False, puf_success := True\<rparr>) AND 0x67 = 2"
    using q e by (cases "codeout p1 = []") (simp_all add: puf_stat_def)
  show ?thesis
    unfolding q_def [symmetric] short fin using rd [of j] assms(5,7) l c(2) st
    by (simp add: puf_stat_def bit_or_iff bit_push_bit_iff q del: push_bit_and)
qed

definition demo_puf :: puf where
  "demo_puf = (puf_new (map of_nat [0..<32]))\<lparr>keysize := 4\<rparr>"

theorem puf_getkey_streams_seed_witness:
  "fst (read_reg_n (feed_code (puf_write demo_puf PUF_CTRL 0x40) (replicate 13 0)) PUF_KEYOUTPUT 8) ! 0 = 0x03020100"
proof -
  have k: "key_bytes demo_puf = 32" "keycode_words demo_puf = 13"
    by (simp_all add: key_bytes_def keycode_words_def demo_puf_def)
  have "fst (read_reg_n (feed_code (puf_write demo_puf PUF_CTRL 0x40) (replicate 13 0)) PUF_KEYOUTPUT 8) = seed_words demo_puf"
    using puf_getkey_streams_seed [of demo_puf "replicate 13 0" 3 8 5] k
    by (simp add: demo_puf_def puf_new_def)
  moreover have "seed_words demo_puf ! 0 = 0x03020100"
    using k(1) by (simp add: seed_words_def demo_puf_def puf_new_def le32_def)
  ultimately show ?thesis by simp
qed

text \<open>
  GENERATEKEY streams a keycode of the architected length for the key size, carrying the
  key index in bits 8 to 11 of its first word; the engine is busy until the last word is
  read, then reports success.
\<close>

theorem puf_generate_streams_keycode:
  fixes p :: puf
  defines "p1 \<equiv> puf_write p PUF_CTRL 8" and "n \<equiv> keycode_words p"
  shows "n = 5 + 8 * ((unat (keysize p) + 3) div 4) \<and>
    fst (read_reg_n p1 PUF_CODEOUTPUT n) = keycode p \<and> length (keycode p) = n \<and>
    drop_bit 8 (hd (keycode p)) AND 0xf = keyindex p AND 0xf \<and>
    (\<forall>j < n. bit (puf_stat (snd (read_reg_n p1 PUF_CODEOUTPUT j))) 0) \<and>
    puf_stat (snd (read_reg_n p1 PUF_CODEOUTPUT n)) AND 0x87 = 2"
proof -
  have n5: "n = 5 + 8 * ((unat (keysize p) + 3) div 4)"
  proof -
    have "(unat (keysize p) * 8 + 31) div 32 = (unat (keysize p) + 3) div 4"
      by presburger
    then show ?thesis by (simp add: n_def keycode_words_def key_bytes_def)
  qed
  have p1: "p1 = start_generate p" by (simp add: p1_def puf_write_def)
  then have c: "codeout p1 = keycode p" "puf_busy p1" "\<not> puf_error p1" by (simp_all add: start_generate_def)
  have l: "length (keycode p) = n" using n5 by (simp add: keycode_def n_def)
  have rd: "read_reg_n p1 PUF_CODEOUTPUT i = (take i (keycode p), p1\<lparr>codeout := drop i (keycode p)\<rparr>)"
    if "i < n" for i using read_codeout [of i p1] that l c(1) by simp
  obtain n' where n: "n = Suc n'" using n5 by (cases n) auto
  have d: "drop n' (keycode p) = [keycode p ! n']" using l n by (simp add: Cons_nth_drop_Suc [symmetric])
  have t: "take n' (keycode p) @ [keycode p ! n'] = keycode p"
    using d l n append_take_drop_id [of n' "keycode p"] by simp
  have fin: "read_reg_n p1 PUF_CODEOUTPUT n =
      (keycode p, p1\<lparr>codeout := [], puf_busy := False, puf_success := True\<rparr>)"
    unfolding n read_reg_n_Suc_end using rd [of n'] n d t by (simp add: puf_read_def pop_codeout_def)
  have m: "(0xf :: u32) = mask 4" by (simp add: mask_eq_exp_minus_1)
  have idx: "drop_bit 8 (hd (keycode p)) AND 0xf = keyindex p AND 0xf"
    unfolding keycode_def list.sel m
    by (rule bit_word_eqI) (auto simp only: bit_drop_bit_eq comp_def bit_and_iff bit_push_bit_iff bit_mask_iff, auto)
  have st: "puf_stat (p1\<lparr>codeout := [], puf_busy := False, puf_success := True\<rparr>) AND 0x87 = 2"
    using c(3) by (cases "keyout p1 = []"; cases "0 < codein_left p1") (simp_all add: puf_stat_def)
  show ?thesis
    using n5 l idx st fin rd c(2)
    by (auto simp: puf_stat_def bit_or_iff bit_push_bit_iff simp del: push_bit_and)
qed

theorem puf_generate_streams_keycode_witness:
  "puf_stat (snd (read_reg_n (puf_write demo_puf PUF_CTRL 8) PUF_CODEOUTPUT (keycode_words demo_puf))) AND 0x87 = 2"
  using puf_generate_streams_keycode [of demo_puf] by blast

end
