(* ===== verification/Soc.thy ===== *)
theory Soc
  imports Devices Soc_Ctl Qspi Vsc7448 Fpga I2c Sprot RotSwd_Port Puf
begin

text \<open>
  The devices on the bus as one type: the trait object \<open>Box<dyn Mmio>\<close> of \<open>src/mem.rs\<close>
  is a constructor per modelled peripheral, and \<open>read\<close>, \<open>write\<close> and \<open>take_irq\<close>
  dispatch on it, threading the state the devices share: the cells and handles several Rust
  objects hold (\<open>Rc\<close>, \<open>Arc\<close>) are fields of the \<open>soc\<close> record.
\<close>

section \<open>Shared state\<close>

text \<open>
  Beyond the UART queues and the SPI2 chip select: the SPI5 chip-select generation, the link to
  the other core with what that core does while this one waits on it, the SWD link, and the I2C
  bridge's connection.
\<close>

record soc = shared +
  sh_spi5_gen :: u32
  sh_link :: "link option"
  sh_peer :: schedule
  sh_swd :: "swd_link option"
  sh_bridge :: bridge

definition soc_new :: soc where
  "soc_new = \<lparr>uart_tx = [], uart_rx = [], spi2_cs = 0, sh_spi5_gen = 0, sh_link = None,
     sh_peer = (\<lambda>_. id), sh_swd = None, sh_bridge = bridge_off\<rparr>"

text \<open>A device that holds the link or the SWD link exists only while it is enabled.\<close>

definition the_link :: "soc \<Rightarrow> link" where
  "the_link sh = (case sh_link sh of None \<Rightarrow> link_default | Some l \<Rightarrow> l)"

definition the_swd :: "soc \<Rightarrow> swd_link" where
  "the_swd sh = (case sh_swd sh of None \<Rightarrow> \<lparr>sw_req = [], sw_resp = None\<rparr> | Some l \<Rightarrow> l)"

section \<open>Devices\<close>

datatype device =
    Dev_Rcc regarray
  | Dev_Pwr regarray
  | Dev_Scs regarray
  | Dev_Tim16 tim16
  | Dev_Spi4 spi4
  | Dev_Spi2 spi2
  | Dev_Hash hash
  | Dev_Rng rng
  | Dev_Qspi qspi
  | Dev_Syscfg regmap
  | Dev_Uid "u8 list"
  | Dev_Uart7 regmap
  | Dev_RegFile regmap
  | Dev_HashCrypt hashcrypt
  | Dev_Vsc7448 vsc
  | Dev_Spi5 spi5
  | Dev_Gpio gpio
  | Dev_I2c sensors i2c
  | Dev_SpiMaster spi_master
  | Dev_SpExti regmap
  | Dev_RotSpiSlave
  | Dev_LpcGpio lpc_gpio
  | Dev_RotSwdSpi rot_swd
  | Dev_Puf puf

primrec dev_read :: "device \<Rightarrow> soc \<Rightarrow> u32 \<Rightarrow> u32 \<times> device \<times> soc" where
  "dev_read (Dev_Rcc r) sh off = (rcc_read r off, Dev_Rcc r, sh)"
| "dev_read (Dev_Pwr r) sh off = (pwr_read r off, Dev_Pwr r, sh)"
| "dev_read (Dev_Scs r) sh off = (scs_read r off, Dev_Scs r, sh)"
| "dev_read (Dev_Tim16 d) sh off = (tim16_read d off, Dev_Tim16 d, sh)"
| "dev_read (Dev_Spi4 d) sh off = (case spi4_read d off of (v, d') \<Rightarrow> (v, Dev_Spi4 d', sh))"
| "dev_read (Dev_Spi2 d) sh off = (case spi2_read d off of (v, d') \<Rightarrow> (v, Dev_Spi2 d', sh))"
| "dev_read (Dev_Hash d) sh off = (hash_read d off, Dev_Hash d, sh)"
| "dev_read (Dev_Rng d) sh off = (case rng_read d off of (v, d') \<Rightarrow> (v, Dev_Rng d', sh))"
| "dev_read (Dev_Qspi d) sh off = (case qspi_read d off of (v, d') \<Rightarrow> (v, Dev_Qspi d', sh))"
| "dev_read (Dev_Syscfg m) sh off = (syscfg_read m off, Dev_Syscfg m, sh)"
| "dev_read (Dev_Uid i) sh off = (uid_read i off, Dev_Uid i, sh)"
| "dev_read (Dev_Uart7 m) sh off = (case uart7_read sh m off of (v, sh') \<Rightarrow> (v, Dev_Uart7 m, sh'))"
| "dev_read (Dev_RegFile m) sh off = (regfile_read m off, Dev_RegFile m, sh)"
| "dev_read (Dev_HashCrypt d) sh off = (hashcrypt_read d off, Dev_HashCrypt d, sh)"
| "dev_read (Dev_Vsc7448 d) sh off = (case vsc_dev_read d off of (v, d') \<Rightarrow> (v, Dev_Vsc7448 d', sh))"
| "dev_read (Dev_Spi5 d) sh off = (case spi5_read d off of (v, d') \<Rightarrow> (v, Dev_Spi5 d', sh))"
| "dev_read (Dev_Gpio g) sh off = (gpio_read g (sh_link sh) off, Dev_Gpio g, sh)"
| "dev_read (Dev_I2c S d) sh off =
     (case i2c_read S d (sh_bridge sh) off of (v, d', b') \<Rightarrow> (v, Dev_I2c S d', sh\<lparr>sh_bridge := b'\<rparr>))"
| "dev_read (Dev_SpiMaster d) sh off = (case spi_master_read d off of (v, d') \<Rightarrow> (v, Dev_SpiMaster d', sh))"
| "dev_read (Dev_SpExti m) sh off = (exti_read m (the_link sh) off, Dev_SpExti m, sh)"
| "dev_read Dev_RotSpiSlave sh off =
     (case rot_slave_read (the_link sh) off of (v, l) \<Rightarrow> (v, Dev_RotSpiSlave, sh\<lparr>sh_link := Some l\<rparr>))"
| "dev_read (Dev_LpcGpio g) sh off = (lpc_gpio_read g (the_link sh) off, Dev_LpcGpio g, sh)"
| "dev_read (Dev_RotSwdSpi d) sh off =
     (case rot_swd_read d (the_swd sh) off of (v, d', l) \<Rightarrow> (v, Dev_RotSwdSpi d', sh\<lparr>sh_swd := Some l\<rparr>))"
| "dev_read (Dev_Puf p) sh off = (case puf_read p off of (v, p') \<Rightarrow> (v, Dev_Puf p', sh))"

primrec dev_write :: "device \<Rightarrow> soc \<Rightarrow> u32 \<Rightarrow> u32 \<Rightarrow> device \<times> soc" where
  "dev_write (Dev_Rcc r) sh off v = (Dev_Rcc (rcc_write r off v), sh)"
| "dev_write (Dev_Pwr r) sh off v = (Dev_Pwr (pwr_write r off v), sh)"
| "dev_write (Dev_Scs r) sh off v = (Dev_Scs (scs_write r off v), sh)"
| "dev_write (Dev_Tim16 d) sh off v = (Dev_Tim16 (tim16_write d off v), sh)"
| "dev_write (Dev_Spi4 d) sh off v = (Dev_Spi4 (spi4_write d off v), sh)"
| "dev_write (Dev_Spi2 d) sh off v = (Dev_Spi2 (spi2_write sh d off v), sh)"
| "dev_write (Dev_Hash d) sh off v = (Dev_Hash (hash_write d off v), sh)"
| "dev_write (Dev_Rng d) sh off v = (Dev_Rng (rng_write d off v), sh)"
| "dev_write (Dev_Qspi d) sh off v = (Dev_Qspi (qspi_write d off v), sh)"
| "dev_write (Dev_Syscfg m) sh off v = (Dev_Syscfg (syscfg_write m off v), sh)"
| "dev_write (Dev_Uid i) sh off v = (Dev_Uid i, sh)"
| "dev_write (Dev_Uart7 m) sh off v = (case uart7_write sh m off v of (m', sh') \<Rightarrow> (Dev_Uart7 m', sh'))"
| "dev_write (Dev_RegFile m) sh off v = (Dev_RegFile (regfile_write m off v), sh)"
| "dev_write (Dev_HashCrypt d) sh off v = (Dev_HashCrypt (hashcrypt_write d off v), sh)"
| "dev_write (Dev_Vsc7448 d) sh off v = (Dev_Vsc7448 (vsc_dev_write d off v), sh)"
| "dev_write (Dev_Spi5 d) sh off v = (Dev_Spi5 (spi5_write (sh_spi5_gen sh) d off v), sh)"
| "dev_write (Dev_Gpio g) sh off v =
     (case gpio_write (g\<lparr>gp_cs := spi2_cs sh, gp_spi5_gen := sh_spi5_gen sh\<rparr>) (sh_link sh) (sh_peer sh) off v of
        (g', l, peer) \<Rightarrow>
          (Dev_Gpio g', sh\<lparr>spi2_cs := gp_cs g', sh_spi5_gen := gp_spi5_gen g', sh_link := l, sh_peer := peer\<rparr>))"
| "dev_write (Dev_I2c S d) sh off v =
     (case i2c_write d (sh_bridge sh) off v of (d', b') \<Rightarrow> (Dev_I2c S d', sh\<lparr>sh_bridge := b'\<rparr>))"
| "dev_write (Dev_SpiMaster d) sh off v =
     (case spi_master_write d (the_link sh) (sh_peer sh) off v of
        (d', l, peer) \<Rightarrow> (Dev_SpiMaster d', sh\<lparr>sh_link := Some l, sh_peer := peer\<rparr>))"
| "dev_write (Dev_SpExti m) sh off v =
     (case exti_write m (the_link sh) off v of (m', l) \<Rightarrow> (Dev_SpExti m', sh\<lparr>sh_link := Some l\<rparr>))"
| "dev_write Dev_RotSpiSlave sh off v =
     (Dev_RotSpiSlave, sh\<lparr>sh_link := Some (rot_slave_write (the_link sh) off v)\<rparr>)"
| "dev_write (Dev_LpcGpio g) sh off v =
     (case lpc_gpio_write g (the_link sh) off v of (g', l) \<Rightarrow> (Dev_LpcGpio g', sh\<lparr>sh_link := Some l\<rparr>))"
| "dev_write (Dev_RotSwdSpi d) sh off v =
     (case rot_swd_write d (the_swd sh) off v of (d', l) \<Rightarrow> (Dev_RotSwdSpi d', sh\<lparr>sh_swd := Some l\<rparr>))"
| "dev_write (Dev_Puf p) sh off v = (Dev_Puf (puf_write p off v), sh)"

definition dev_take_irq :: "device \<Rightarrow> u16 option \<times> device" where
  "dev_take_irq d =
     (case d of
        Dev_Tim16 t \<Rightarrow> (case tim16_take_irq t of (i, t') \<Rightarrow> (i, Dev_Tim16 t'))
      | Dev_Hash h \<Rightarrow> (case hash_take_irq h of (i, h') \<Rightarrow> (i, Dev_Hash h'))
      | Dev_I2c S t \<Rightarrow> (case i2c_take_irq t of (i, t') \<Rightarrow> (i, Dev_I2c S t'))
      | _ \<Rightarrow> (None, d))"

end
