(* ===== verification/Bus.thy ===== *)
theory Bus
  imports Flash RotFlash Romapi Soc
begin

text \<open>
  Physical memory and MMIO dispatch (\<open>src/mem.rs\<close>): RAM regions, the device list, the
  flash models of both cores, the NVIC registers, PendSV, the Ethernet DMA and TIM5,
  behind \<open>read8/16/32\<close> and \<open>write8/16/32\<close>. Every access returns the new bus.
  \<open>bus_panicked\<close> records a slice out of range, which stops the emulator. Logging
  (\<open>log_unmapped\<close>, \<open>watch\<close>, \<open>cur_pc\<close>) has no effect on the state and is left out.
\<close>

unbundle bit_operations_syntax

section \<open>Address map constants\<close>

abbreviation (input) SCB_ICSR :: u32 where "SCB_ICSR \<equiv> 0xE000ED04"
abbreviation (input) SCB_VTOR :: u32 where "SCB_VTOR \<equiv> 0xE000ED08"
abbreviation (input) SCB_AIRCR :: u32 where "SCB_AIRCR \<equiv> 0xE000ED0C"
abbreviation (input) SYST_CSR :: u32 where "SYST_CSR \<equiv> 0xE000E010"
abbreviation (input) SYST_RVR :: u32 where "SYST_RVR \<equiv> 0xE000E014"
abbreviation (input) SYST_CVR :: u32 where "SYST_CVR \<equiv> 0xE000E018"
abbreviation (input) SECURE_ALIAS_BIT :: u32 where "SECURE_ALIAS_BIT \<equiv> 0x10000000"
abbreviation (input) FLASH_WIN_LO :: u32 where "FLASH_WIN_LO \<equiv> 0x08000000"
abbreviation (input) FLASH_WIN_HI :: u32 where "FLASH_WIN_HI \<equiv> 0x08200000"
abbreviation (input) FLASH_REG_LO :: u32 where "FLASH_REG_LO \<equiv> 0x52002000"
abbreviation (input) FLASH_REG_HI :: u32 where "FLASH_REG_HI \<equiv> 0x52004000"
abbreviation (input) ROT_WIN_HI :: u32 where "ROT_WIN_HI \<equiv> 0x00100000"
abbreviation (input) ROT_REG_LO :: u32 where "ROT_REG_LO \<equiv> 0x40034000"
abbreviation (input) ROT_REG_HI :: u32 where "ROT_REG_HI \<equiv> 0x40035000"
abbreviation (input) NVIC_LO :: u32 where "NVIC_LO \<equiv> 0xE000E100"
abbreviation (input) NVIC_HI :: u32 where "NVIC_HI \<equiv> 0xE000E500"
abbreviation (input) ETH_BASE :: u32 where "ETH_BASE \<equiv> 0x40028000"
abbreviation (input) ETH_END :: u32 where "ETH_END \<equiv> 0x4002A000"
abbreviation (input) MACMDIOAR :: u32 where "MACMDIOAR \<equiv> 0x0200"
abbreviation (input) MACMDIODR :: u32 where "MACMDIODR \<equiv> 0x0204"
abbreviation (input) DMAMR :: u32 where "DMAMR \<equiv> 0x1000"
abbreviation (input) DMAISR :: u32 where "DMAISR \<equiv> 0x1008"
abbreviation (input) DMACTXDLAR :: u32 where "DMACTXDLAR \<equiv> 0x1114"
abbreviation (input) DMACRXDLAR :: u32 where "DMACRXDLAR \<equiv> 0x111C"
abbreviation (input) DMACTXDTPR :: u32 where "DMACTXDTPR \<equiv> 0x1120"
abbreviation (input) DMACTXRLR :: u32 where "DMACTXRLR \<equiv> 0x112C"
abbreviation (input) DMACRXRLR :: u32 where "DMACRXRLR \<equiv> 0x1130"
abbreviation (input) DMACSR :: u32 where "DMACSR \<equiv> 0x1160"
abbreviation (input) BUFSZ :: nat where "BUFSZ \<equiv> 1536"
abbreviation (input) TIM5_BASE :: u32 where "TIM5_BASE \<equiv> 0x40000C00"
abbreviation (input) TIM5_END :: u32 where "TIM5_END \<equiv> 0x40001000"
abbreviation (input) TIM5_CNT :: u32 where "TIM5_CNT \<equiv> 0x40000C24"
abbreviation (input) TIM5_EGR :: u32 where "TIM5_EGR \<equiv> 0x40000C14"
abbreviation (input) ETH_IRQ :: nat where "ETH_IRQ \<equiv> 61"
abbreviation (input) UART7_IRQ :: nat where "UART7_IRQ \<equiv> 82"
abbreviation (input) FLASH_IRQ :: nat where "FLASH_IRQ \<equiv> 4"

definition in_range :: "u32 \<Rightarrow> u32 \<Rightarrow> u32 \<Rightarrow> bool" where
  "in_range lo hi a = (lo \<le> a \<and> a < hi)"

section \<open>State\<close>

record ram =
  ram_base :: u32
  ram_len :: u32
  ram_data :: bytes

record dev_slot =
  dv_base :: u32
  dv_size :: u32
  dv_dev :: device

record eth_dma =
  eth_regs :: "u32 \<rightharpoonup> u32"
  rx_next :: u32
  tx_frames :: "u8 list list"
  eth_irq :: bool
  pending_vid :: "u16 option"
  mdio_page :: u16

record bus =
  rams :: "ram list"
  devs :: "dev_slot list"
  shared_io :: soc
  unmapped_reads :: u64
  unmapped_writes :: u64
  cur_cyc :: u64
  mmio_hit :: bool
  dev_touched :: bool
  bus_rec :: bool
  bus_writes :: "(u32 \<times> u32 \<times> nat) list"
  nvic_en :: "nat \<Rightarrow> u32"
  nvic_pend :: "nat \<Rightarrow> u32"
  nvic_prio :: "nat \<Rightarrow> u8"
  pend_pendsv :: bool
  eth :: eth_dma
  tim5_base :: u64
  tim5_regs :: "nat \<Rightarrow> u32"
  reset_pending :: bool
  sp_flash :: "flash option"
  rotfl :: "rot_flash option"
  rom_enabled :: bool
  secure_alias :: bool
  bus_panicked :: bool

definition eth_default :: eth_dma where
  "eth_default = \<lparr>eth_regs = Map.empty, rx_next = 0, tx_frames = [], eth_irq = False,
     pending_vid = None, mdio_page = 0\<rparr>"

definition bus_new :: bus where
  "bus_new = \<lparr>rams = [], devs = [], shared_io = soc_new,
     unmapped_reads = 0, unmapped_writes = 0, cur_cyc = 0, mmio_hit = False, dev_touched = False,
     bus_rec = False, bus_writes = [], nvic_en = (\<lambda>_. 0), nvic_pend = (\<lambda>_. 0),
     nvic_prio = (\<lambda>_. 0), pend_pendsv = False, eth = eth_default, tim5_base = 0,
     tim5_regs = (\<lambda>_. 0), reset_pending = False, sp_flash = None, rotfl = None,
     rom_enabled = False, secure_alias = False, bus_panicked = False\<rparr>"

definition add_ram :: "bus \<Rightarrow> u32 \<Rightarrow> u32 \<Rightarrow> bus" where
  "add_ram b base size' =
     b\<lparr>rams := rams b @ [\<lparr>ram_base = base, ram_len = size', ram_data = (\<lambda>_. 0)\<rparr>]\<rparr>"

definition add_device :: "bus \<Rightarrow> u32 \<Rightarrow> u32 \<Rightarrow> device \<Rightarrow> bus" where
  "add_device b base size' d =
     b\<lparr>devs := devs b @ [\<lparr>dv_base = base, dv_size = size', dv_dev = d\<rparr>]\<rparr>"

definition install_memory :: "bus \<Rightarrow> bus" where
  "install_memory b =
     add_ram (add_ram (add_ram (add_ram (add_ram (add_ram b
       0x00000000 0x00010000) 0x20000000 0x00020000) 0x24000000 0x00080000)
       0x30000000 0x00048000) 0x38000000 0x00010000) 0x38800000 0x00001000"

section \<open>Secure aliases\<close>

definition fold_addr :: "bus \<Rightarrow> u32 \<Rightarrow> u32" where
  "fold_addr b addr =
     (if \<not> secure_alias b then addr
      else if in_range 0x10000000 0x10100000 addr \<or> in_range 0x30000000 0x30080000 addr
      then addr AND NOT SECURE_ALIAS_BIT
      else addr)"

section \<open>Finding the RAM region or the device of an address\<close>

fun ram_find :: "nat \<Rightarrow> ram list \<Rightarrow> u32 \<Rightarrow> u32 \<Rightarrow> (nat \<times> nat) option" where
  "ram_find i [] addr len = None"
| "ram_find i (r # rs) addr len =
     (if ram_base r \<le> addr \<and> addr + len \<le> ram_base r + ram_len r
      then Some (i, unat (addr - ram_base r))
      else ram_find (Suc i) rs addr len)"

definition ram_for :: "bus \<Rightarrow> u32 \<Rightarrow> u32 \<Rightarrow> (nat \<times> nat) option" where
  "ram_for b addr len = ram_find 0 (rams b) addr len"

fun dev_find :: "nat \<Rightarrow> dev_slot list \<Rightarrow> u32 \<Rightarrow> (nat \<times> u32) option" where
  "dev_find i [] addr = None"
| "dev_find i (d # ds) addr =
     (if dv_base d \<le> addr \<and> addr < dv_base d + dv_size d then Some (i, addr - dv_base d)
      else dev_find (Suc i) ds addr)"

definition dev_for :: "bus \<Rightarrow> u32 \<Rightarrow> (nat \<times> u32) option" where
  "dev_for b addr = dev_find 0 (devs b) addr"

text \<open>
  Slicing \<open>n\<close> bytes at \<open>off\<close> out of region \<open>i\<close>, and copying bytes into it: out of the
  region's bounds the Rust slice panics.
\<close>

definition ram_in_bounds :: "bus \<Rightarrow> nat \<Rightarrow> nat \<Rightarrow> nat \<Rightarrow> bool" where
  "ram_in_bounds b i off n = (off + n \<le> unat (ram_len (rams b ! i)))"

definition ram_get :: "bus \<Rightarrow> nat \<Rightarrow> nat \<Rightarrow> nat \<Rightarrow> u8 list \<times> bus" where
  "ram_get b i off n =
     (if ram_in_bounds b i off n then (slice (ram_data (rams b ! i)) off n, b)
      else (replicate n 0, b\<lparr>bus_panicked := True\<rparr>))"

definition ram_put :: "bus \<Rightarrow> nat \<Rightarrow> nat \<Rightarrow> u8 list \<Rightarrow> bus" where
  "ram_put b i off bs =
     (if ram_in_bounds b i off (length bs)
      then b\<lparr>rams := (rams b)[i := (rams b ! i)\<lparr>ram_data := blit (ram_data (rams b ! i)) off bs\<rparr>]\<rparr>
      else b\<lparr>bus_panicked := True\<rparr>)"

definition device_read :: "bus \<Rightarrow> nat \<Rightarrow> u32 \<Rightarrow> u32 \<times> bus" where
  "device_read b i off =
     (let s = devs b ! i; (v, d, sh) = dev_read (dv_dev s) (shared_io b) (off AND NOT 3)
      in (v, b\<lparr>mmio_hit := True, dev_touched := True, shared_io := sh,
               devs := (devs b)[i := s\<lparr>dv_dev := d\<rparr>]\<rparr>))"

definition device_write :: "bus \<Rightarrow> nat \<Rightarrow> u32 \<Rightarrow> u32 \<Rightarrow> bus" where
  "device_write b i off val =
     (let s = devs b ! i; (d, sh) = dev_write (dv_dev s) (shared_io b) (off AND NOT 3) val
      in b\<lparr>mmio_hit := True, dev_touched := True, shared_io := sh,
           devs := (devs b)[i := s\<lparr>dv_dev := d\<rparr>]\<rparr>)"

section \<open>The NVIC registers\<close>

definition nvic_read :: "bus \<Rightarrow> u32 \<Rightarrow> u32 option" where
  "nvic_read b a =
     (if 0xE000E100 \<le> a \<and> a \<le> 0xE000E11C then Some (nvic_en b (unat (a - 0xE000E100) div 4))
      else if 0xE000E180 \<le> a \<and> a \<le> 0xE000E19C then Some (nvic_en b (unat (a - 0xE000E180) div 4))
      else if 0xE000E200 \<le> a \<and> a \<le> 0xE000E21C then Some (nvic_pend b (unat (a - 0xE000E200) div 4))
      else if 0xE000E280 \<le> a \<and> a \<le> 0xE000E29C then Some (nvic_pend b (unat (a - 0xE000E280) div 4))
      else if 0xE000E300 \<le> a \<and> a \<le> 0xE000E31C then Some 0
      else if 0xE000E400 \<le> a \<and> a \<le> 0xE000E4EF then
        let i = unat (a - 0xE000E400)
        in Some (le32 (nvic_prio b i) (nvic_prio b (i + 1)) (nvic_prio b (i + 2)) (nvic_prio b (i + 3)))
      else None)"

definition nvic_write :: "bus \<Rightarrow> u32 \<Rightarrow> u32 \<Rightarrow> bus option" where
  "nvic_write b a val =
     (let upd = (\<lambda>f lo g. let i = unat (a - lo) div 4 in f(i := g (f i))) in
      if 0xE000E100 \<le> a \<and> a \<le> 0xE000E11C then
        Some (b\<lparr>nvic_en := upd (nvic_en b) 0xE000E100 (\<lambda>w. w OR val)\<rparr>)
      else if 0xE000E180 \<le> a \<and> a \<le> 0xE000E19C then
        Some (b\<lparr>nvic_en := upd (nvic_en b) 0xE000E180 (\<lambda>w. w AND NOT val)\<rparr>)
      else if 0xE000E200 \<le> a \<and> a \<le> 0xE000E21C then
        Some (b\<lparr>nvic_pend := upd (nvic_pend b) 0xE000E200 (\<lambda>w. w OR val)\<rparr>)
      else if 0xE000E280 \<le> a \<and> a \<le> 0xE000E29C then
        Some (b\<lparr>nvic_pend := upd (nvic_pend b) 0xE000E280 (\<lambda>w. w AND NOT val)\<rparr>)
      else if 0xE000E400 \<le> a \<and> a \<le> 0xE000E4EF then
        let i = unat (a - 0xE000E400)
        in Some (b\<lparr>nvic_prio := (nvic_prio b)(i := byte_of val 0, i + 1 := byte_of val 1,
                                 i + 2 := byte_of val 2, i + 3 := byte_of val 3)\<rparr>)
      else None)"

definition pend_irq :: "bus \<Rightarrow> nat \<Rightarrow> bus" where
  "pend_irq b irq =
     (if 256 \<le> irq then b\<lparr>bus_panicked := True\<rparr> else b)\<lparr>nvic_pend := (nvic_pend b)(irq div 32 := nvic_pend b (irq div 32) OR push_bit (irq mod 32) 1)\<rparr>"

definition clear_pending :: "bus \<Rightarrow> nat \<Rightarrow> bus" where
  "clear_pending b irq =
     b\<lparr>nvic_pend := (nvic_pend b)
         (irq div 32 := nvic_pend b (irq div 32) AND NOT (push_bit (irq mod 32) 1))\<rparr>"

definition irq_enabled :: "bus \<Rightarrow> nat \<Rightarrow> bool" where
  "irq_enabled b irq = bit_set (nvic_en b (irq div 32)) (irq mod 32)"

definition irq_prio :: "bus \<Rightarrow> nat \<Rightarrow> u8" where
  "irq_prio b irq = nvic_prio b irq"

text \<open>The scan of \<open>next_irq\<close> from word \<open>i\<close>, \<open>n\<close> words to go.\<close>

fun next_irq_from :: "bus \<Rightarrow> nat \<Rightarrow> nat \<Rightarrow> nat option" where
  "next_irq_from b i 0 = None"
| "next_irq_from b i (Suc n) =
     (let active = nvic_en b i AND nvic_pend b i in
      if active \<noteq> 0 then Some (i * 32 + trailing_zeros active)
      else next_irq_from b (Suc i) n)"

definition next_irq :: "bus \<Rightarrow> nat option" where
  "next_irq b = next_irq_from b 0 8"

definition take_pendsv :: "bus \<Rightarrow> bool \<times> bus" where
  "take_pendsv b = (pend_pendsv b, b\<lparr>pend_pendsv := False\<rparr>)"


section \<open>The Ethernet registers\<close>

definition eth_reg :: "bus \<Rightarrow> u32 \<Rightarrow> u32" where
  "eth_reg b off = reg_get (eth_regs (eth b)) (off AND NOT 3)"

definition eth_set :: "bus \<Rightarrow> u32 \<Rightarrow> u32 \<Rightarrow> bus" where
  "eth_set b k v = b\<lparr>eth := (eth b)\<lparr>eth_regs := (eth_regs (eth b))(k \<mapsto> v)\<rparr>\<rparr>"

definition eth_read :: "bus \<Rightarrow> u32 \<Rightarrow> u32" where
  "eth_read b off =
     (let v = eth_reg b off; w = off AND NOT 3 in
      if w = DMAMR then v AND NOT 1 else if w = MACMDIOAR then v AND NOT 1 else v)"

definition phy_read :: "bus \<Rightarrow> u16 \<Rightarrow> u8 \<Rightarrow> u16" where
  "phy_read b page reg =
     (let stored = (\<lambda>k. (ucast (reg_get (eth_regs (eth b)) k) :: u16)) in
      if page = 0 \<and> reg = 0 then stored 0x10000 AND NOT 0x8000
      else if page = 0 \<and> reg = 2 then 0x0007
      else if page = 0 \<and> reg = 3 then 0x04E2
      else if page = 1 \<and> reg = 23 then 0
      else if page = 1 \<and> reg = 25 then 0x29E8
      else if page = 16 \<and> reg = 18 then stored (0x10000 OR push_bit 8 16 OR 18) AND 0x3FFF
      else if page = 16 \<and> reg = 30 then 1
      else stored (0x10000 OR push_bit 8 (ucast page) OR ucast reg))"

text \<open>The MDIO transaction of a MACMDIOAR write with MB set.\<close>

definition mdio_op :: "bus \<Rightarrow> u32 \<Rightarrow> bus" where
  "mdio_op b val =
     (let goc = drop_bit 2 val AND 3; rda = (ucast (drop_bit 16 val AND 0x1F) :: u8);
          b1 = (if goc = 3 then eth_set b MACMDIODR (ucast (phy_read b (mdio_page (eth b)) rda))
                else if goc = 1 then
                  let data = (ucast (eth_reg b MACMDIODR) :: u16)
                  in if rda = 31 then b\<lparr>eth := (eth b)\<lparr>mdio_page := data\<rparr>\<rparr>
                     else eth_set b (0x10000 OR push_bit 8 (ucast (mdio_page (eth b))) OR ucast rda)
                            (ucast data)
                else b)
      in eth_set b1 MACMDIOAR (val AND NOT 1))"

text \<open>
  \<open>kick\<close> is the transmit walk that a write of the TX tail pointer starts. The walk
  itself writes memory, so the two are tied together by fuel below.
\<close>

definition eth_write_gen :: "(bus \<Rightarrow> bus) \<Rightarrow> bus \<Rightarrow> u32 \<Rightarrow> u32 \<Rightarrow> bus" where
  "eth_write_gen kick b off0 val =
     (let off = off0 AND NOT 3 in
      if off = MACMDIOAR \<and> val AND 1 \<noteq> 0 then mdio_op b val
      else
        let b1 = (if off = DMACSR then eth_set b DMACSR (eth_reg b DMACSR AND NOT val)
                  else eth_set b off val)
        in if off = DMACTXDTPR \<and> \<not> bus_rec b1 then kick b1 else b1)"

section \<open>Reads\<close>

definition unmapped_read :: "bus \<Rightarrow> bus" where
  "unmapped_read b = b\<lparr>unmapped_reads := unmapped_reads b + 1\<rparr>"

text \<open>\<open>read32\<close> past the memory windows: RAM, TIM5, devices, nothing.\<close>

definition read32_tail :: "bus \<Rightarrow> u32 \<Rightarrow> u32 \<times> bus" where
  "read32_tail b addr =
     (case ram_for b addr 4 of
        Some (i, off) \<Rightarrow>
          (case ram_get b i off 4 of (d, b1) \<Rightarrow> (le32 (d ! 0) (d ! 1) (d ! 2) (d ! 3), b1))
      | None \<Rightarrow>
          if in_range TIM5_BASE TIM5_END addr then
            (if addr AND NOT 3 = TIM5_CNT then ucast (cur_cyc b - tim5_base b)
             else tim5_regs b (unat ((addr AND NOT 3) - TIM5_BASE) div 4), b\<lparr>mmio_hit := True\<rparr>)
          else case dev_for b addr of
                 Some (i, off) \<Rightarrow> device_read b i off
               | None \<Rightarrow> (0, unmapped_read b))"

text \<open>Behind the flash windows: the system registers and the Ethernet block.\<close>

definition read32_sys :: "bus \<Rightarrow> u32 \<Rightarrow> u32 \<times> bus" where
  "read32_sys b addr =
     (case (if rom_enabled b then rom_read32 (addr AND NOT 3) else None) of
        Some v \<Rightarrow> (v, b)
      | None \<Rightarrow>
        (case (if in_range NVIC_LO NVIC_HI addr then nvic_read b (addr AND NOT 3) else None) of
           Some v \<Rightarrow> (v, b\<lparr>mmio_hit := True\<rparr>)
         | None \<Rightarrow>
           if addr AND NOT 3 = SCB_ICSR then (push_bit 28 (b2w (pend_pendsv b)), b\<lparr>mmio_hit := True\<rparr>)
           else if in_range ETH_BASE ETH_END addr then
             (eth_read b (addr - ETH_BASE), b\<lparr>mmio_hit := True\<rparr>)
           else read32_tail b addr))"

definition read32_rot :: "bus \<Rightarrow> u32 \<Rightarrow> u32 \<times> bus" where
  "read32_rot b addr =
     (case rotfl b of
        None \<Rightarrow> read32_sys b addr
      | Some f \<Rightarrow>
          if in_range 0 ROT_WIN_HI addr then (rot_read_mem32 f addr, b)
          else if in_range ROT_REG_LO ROT_REG_HI addr
          then (rot_reg_read f ((addr AND NOT 3) - ROT_REG_LO), b\<lparr>mmio_hit := True\<rparr>)
          else read32_sys b addr)"

definition read32 :: "bus \<Rightarrow> u32 \<Rightarrow> u32 \<times> bus" where
  "read32 b addr0 =
     (let addr = fold_addr b addr0 in
      case sp_flash b of
        None \<Rightarrow> read32_rot b addr
      | Some f \<Rightarrow>
          if in_range FLASH_WIN_LO FLASH_WIN_HI addr then (read_mem32 f addr, b)
          else if in_range FLASH_REG_LO FLASH_REG_HI addr
          then (reg_read f ((addr AND NOT 3) - FLASH_REG_LO), b\<lparr>mmio_hit := True\<rparr>)
          else read32_rot b addr)"

text \<open>What a narrow access takes straight from a flash window, if it falls in one.\<close>

definition flash_window :: "bus \<Rightarrow> u32 \<Rightarrow> (flash + rot_flash) option" where
  "flash_window b addr =
     (case sp_flash b of
        Some f \<Rightarrow> if in_range FLASH_WIN_LO FLASH_WIN_HI addr then Some (Inl f)
                  else (case rotfl b of
                          Some g \<Rightarrow> if in_range 0 ROT_WIN_HI addr then Some (Inr g) else None
                        | None \<Rightarrow> None)
      | None \<Rightarrow> (case rotfl b of
                  Some g \<Rightarrow> if in_range 0 ROT_WIN_HI addr then Some (Inr g) else None
                | None \<Rightarrow> None))"

definition read16 :: "bus \<Rightarrow> u32 \<Rightarrow> u16 \<times> bus" where
  "read16 b addr0 =
     (let addr = fold_addr b addr0 in
      case flash_window b addr of
        Some (Inl f) \<Rightarrow> (read_mem16 f addr, b)
      | Some (Inr g) \<Rightarrow> (rot_read_mem16 g addr, b)
      | None \<Rightarrow>
        (case ram_for b addr 2 of
           Some (i, off) \<Rightarrow> (case ram_get b i off 2 of (d, b1) \<Rightarrow> (le16 (d ! 0) (d ! 1), b1))
         | None \<Rightarrow> (case read32 b (addr AND NOT 3) of (w, b1) \<Rightarrow>
                      (ucast (drop_bit (8 * unat (addr AND 2)) w), b1))))"

definition read8 :: "bus \<Rightarrow> u32 \<Rightarrow> u8 \<times> bus" where
  "read8 b addr0 =
     (let addr = fold_addr b addr0 in
      case flash_window b addr of
        Some (Inl f) \<Rightarrow> (read_mem8 f addr, b)
      | Some (Inr g) \<Rightarrow> (rot_read_mem8 g addr, b)
      | None \<Rightarrow>
        (case ram_for b addr 1 of
           Some (i, off) \<Rightarrow> (case ram_get b i off 1 of (d, b1) \<Rightarrow> (d ! 0, b1))
         | None \<Rightarrow> (case read32 b (addr AND NOT 3) of (w, b1) \<Rightarrow>
                      (ucast (drop_bit (8 * unat (addr AND 3)) w), b1))))"

section \<open>Writes\<close>

definition rec_write :: "bus \<Rightarrow> u32 \<Rightarrow> u32 \<Rightarrow> nat \<Rightarrow> bus" where
  "rec_write b addr val n =
     (if bus_rec b \<and> ram_for b addr (of_nat n) \<noteq> None
      then b\<lparr>bus_writes := bus_writes b @ [(addr, val, n)]\<rparr> else b)"

definition tim5_write :: "bus \<Rightarrow> u32 \<Rightarrow> u32 \<Rightarrow> bus" where
  "tim5_write b addr val =
     (let a = addr AND NOT 3; b1 = b\<lparr>mmio_hit := True\<rparr> in
      if a = TIM5_CNT then b1\<lparr>tim5_base := cur_cyc b1 - ucast val\<rparr>
      else if a = TIM5_EGR then (if val AND 1 \<noteq> 0 then b1\<lparr>tim5_base := cur_cyc b1\<rparr> else b1)
      else b1\<lparr>tim5_regs := (tim5_regs b1)(unat (a - TIM5_BASE) div 4 := val)\<rparr>)"

definition write32_tail :: "bus \<Rightarrow> u32 \<Rightarrow> u32 \<Rightarrow> bus" where
  "write32_tail b0 addr val =
     (let b = rec_write b0 addr val 4 in
      case ram_for b addr 4 of
        Some (i, off) \<Rightarrow> ram_put b i off (le_bytes32 val)
      | None \<Rightarrow>
          if in_range TIM5_BASE TIM5_END addr then tim5_write b addr val
          else case dev_for b addr of
                 Some (i, off) \<Rightarrow> device_write b i off val
               | None \<Rightarrow> b\<lparr>unmapped_writes := unmapped_writes b + 1\<rparr>)"

definition write32_sys :: "(bus \<Rightarrow> bus) \<Rightarrow> bus \<Rightarrow> u32 \<Rightarrow> u32 \<Rightarrow> bus" where
  "write32_sys kick b addr val =
     (case (if in_range NVIC_LO NVIC_HI addr then nvic_write b (addr AND NOT 3) val else None) of
        Some b1 \<Rightarrow> b1\<lparr>mmio_hit := True\<rparr>
      | None \<Rightarrow>
        if addr AND NOT 3 = SCB_ICSR then
          let b1 = (if bit_set val 28 then b\<lparr>pend_pendsv := True\<rparr> else b);
              b2 = (if bit_set val 27 then b1\<lparr>pend_pendsv := False\<rparr> else b1)
          in b2\<lparr>mmio_hit := True\<rparr>
        else
          let b1 = (if addr AND NOT 3 = SCB_AIRCR \<and> val AND 0xFFFF0000 = 0x05FA0000 \<and> bit_set val 2
                    then b\<lparr>reset_pending := True\<rparr> else b)
          in if in_range ETH_BASE ETH_END addr
             then eth_write_gen kick (b1\<lparr>mmio_hit := True\<rparr>) (addr - ETH_BASE) val
             else write32_tail b1 addr val)"

definition write32_rot :: "(bus \<Rightarrow> bus) \<Rightarrow> bus \<Rightarrow> u32 \<Rightarrow> u32 \<Rightarrow> bus" where
  "write32_rot kick b addr val =
     (case rotfl b of
        None \<Rightarrow> write32_sys kick b addr val
      | Some f \<Rightarrow>
          if in_range 0 ROT_WIN_HI addr then b\<lparr>rotfl := Some (rot_write_mem f addr val 4)\<rparr>
          else if in_range ROT_REG_LO ROT_REG_HI addr
          then b\<lparr>mmio_hit := True,
                 rotfl := Some (rot_reg_write f ((addr AND NOT 3) - ROT_REG_LO) val)\<rparr>
          else write32_sys kick b addr val)"

definition write32_gen :: "(bus \<Rightarrow> bus) \<Rightarrow> bus \<Rightarrow> u32 \<Rightarrow> u32 \<Rightarrow> bus" where
  "write32_gen kick b addr0 val =
     (let addr = fold_addr b addr0 in
      case sp_flash b of
        None \<Rightarrow> write32_rot kick b addr val
      | Some f \<Rightarrow>
          if in_range FLASH_WIN_LO FLASH_WIN_HI addr
          then b\<lparr>sp_flash := Some (write_mem f addr val 4)\<rparr>
          else if in_range FLASH_REG_LO FLASH_REG_HI addr
          then b\<lparr>mmio_hit := True,
                 sp_flash := Some (reg_write f ((addr AND NOT 3) - FLASH_REG_LO) val)\<rparr>
          else write32_rot kick b addr val)"

section \<open>The transmit walk\<close>

text \<open>\<open>read8\<close> of \<open>n\<close> consecutive addresses.\<close>

fun read_bytes8 :: "bus \<Rightarrow> u32 \<Rightarrow> nat \<Rightarrow> u8 list \<times> bus" where
  "read_bytes8 b a 0 = ([], b)"
| "read_bytes8 b a (Suc n) =
     (let (v, b1) = read8 b a; (vs, b2) = read_bytes8 b1 (a + 1) n in (v # vs, b2))"

definition vlan_tag :: "u16 \<Rightarrow> u8 list" where
  "vlan_tag vid = [0x81, 0x00, ucast (drop_bit 8 vid), ucast vid]"

definition insert_vlan :: "u16 option \<Rightarrow> u8 list \<Rightarrow> u8 list" where
  "insert_vlan vid frame =
     (case vid of
        None \<Rightarrow> frame
      | Some v \<Rightarrow> if 12 \<le> length frame then take 12 frame @ vlan_tag v @ drop 12 frame else frame)"

text \<open>One descriptor of the ring: the new bus, and whether a frame went out.\<close>

definition tx_desc :: "(bus \<Rightarrow> bus) \<Rightarrow> u32 \<Rightarrow> bus \<Rightarrow> bus \<times> bool" where
  "tx_desc kick d b =
     (let (tdes3, b1) = read32 b (d + 12) in
      if \<not> bit_set tdes3 31 then (b1, False)
      else
        let b2 = write32_gen kick b1 (d + 12) (tdes3 AND NOT (push_bit 31 1)) in
        if bit_set tdes3 30 then
          (if bit_set tdes3 16
           then b2\<lparr>eth := (eth b2)\<lparr>pending_vid := Some (ucast (tdes3 AND 0xFFF))\<rparr>\<rparr> else b2, False)
        else
          let (buf, b3) = read32 b2 d;
              (l, b4) = read32 b3 (d + 8);
              (frame, b5) = read_bytes8 b4 buf (min (unat (l AND 0x3FFF)) BUFSZ);
              f = insert_vlan (pending_vid (eth b5)) frame
          in (b5\<lparr>eth := (eth b5)\<lparr>pending_vid := None, tx_frames := tx_frames (eth b5) @ [f]\<rparr>\<rparr>, True))"

fun tx_walk_from :: "(bus \<Rightarrow> bus) \<Rightarrow> u32 \<Rightarrow> nat \<Rightarrow> bus \<Rightarrow> bus \<times> bool" where
  "tx_walk_from kick d 0 b = (b, False)"
| "tx_walk_from kick d (Suc n) b =
     (let (b1, s1) = tx_desc kick d b; (b2, s2) = tx_walk_from kick (d + 16) n b1 in (b2, s1 \<or> s2))"

definition tx_walk_gen :: "(bus \<Rightarrow> bus) \<Rightarrow> bus \<Rightarrow> bus" where
  "tx_walk_gen kick b =
     (let base = eth_reg b DMACTXDLAR;
          ring_len = unat (eth_reg b DMACTXRLR AND 0xFFFF) + 1;
          (b1, sent) = tx_walk_from kick base ring_len b
      in if sent then
           let b2 = eth_set b1 DMACSR (eth_reg b1 DMACSR OR 1 OR push_bit 15 1);
               b3 = eth_set b2 DMAISR (eth_reg b2 DMAISR OR 1)
           in b3\<lparr>eth := (eth b3)\<lparr>eth_irq := True\<rparr>\<rparr>
         else b1)"

text \<open>
  Nested walks: a descriptor may lie over the tail pointer register itself, whose
  write-back then starts a walk inside the walk. Two levels are all there is (theorem
  \<open>tx_walk_depth\<close>); running out of fuel would count as a stack overflow.
\<close>

fun tx_walk :: "nat \<Rightarrow> bus \<Rightarrow> bus" where
  "tx_walk 0 b = b\<lparr>bus_panicked := True\<rparr>"
| "tx_walk (Suc n) b = tx_walk_gen (tx_walk n) b"

definition write32 :: "bus \<Rightarrow> u32 \<Rightarrow> u32 \<Rightarrow> bus" where
  "write32 = write32_gen (tx_walk 2)"

definition write16 :: "bus \<Rightarrow> u32 \<Rightarrow> u16 \<Rightarrow> bus" where
  "write16 b0 addr0 val =
     (let addr = fold_addr b0 addr0; b = rec_write b0 addr (ucast val) 2 in
      case ram_for b addr 2 of
        Some (i, off) \<Rightarrow> ram_put b i off (le_bytes16 val)
      | None \<Rightarrow>
          let sh = 8 * unat (addr AND 2); (w, b1) = read32 b (addr AND NOT 3)
          in write32 b1 (addr AND NOT 3) ((w AND NOT (push_bit sh 0xFFFF)) OR push_bit sh (ucast val)))"

definition write8 :: "bus \<Rightarrow> u32 \<Rightarrow> u8 \<Rightarrow> bus" where
  "write8 b0 addr0 val =
     (let addr = fold_addr b0 addr0; b = rec_write b0 addr (ucast val) 1 in
      case ram_for b addr 1 of
        Some (i, off) \<Rightarrow> ram_put b i off [val]
      | None \<Rightarrow>
          let sh = 8 * unat (addr AND 3); (w, b1) = read32 b (addr AND NOT 3)
          in write32 b1 (addr AND NOT 3) ((w AND NOT (push_bit sh 0xFF)) OR push_bit sh (ucast val)))"


section \<open>Receiving frames\<close>

definition rx_desc :: "bus \<Rightarrow> u32" where
  "rx_desc b = eth_reg b DMACRXDLAR + rx_next (eth b) * 16"

definition eth_rx_has_space :: "bus \<Rightarrow> bool \<times> bus" where
  "eth_rx_has_space b =
     (if eth_reg b DMACRXDLAR = 0 then (False, b)
      else case read32 b (rx_desc b + 12) of (v, b1) \<Rightarrow> (bit_set v 31, b1))"

definition be16 :: "u8 \<Rightarrow> u8 \<Rightarrow> u16" where
  "be16 hi lo = le16 lo hi"

text \<open>The 802.1Q tag of a wire frame: its VLAN id and the frame without the tag.\<close>

definition strip_vlan :: "u8 list \<Rightarrow> u16 \<times> u8 list" where
  "strip_vlan frame =
     (if 16 \<le> length frame \<and> be16 (frame ! 12) (frame ! 13) = 0x8100
      then (be16 (frame ! 14) (frame ! 15) AND 0xFFF, take 12 frame @ drop 16 frame)
      else (0, frame))"

fun write_bytes8 :: "bus \<Rightarrow> u32 \<Rightarrow> u8 list \<Rightarrow> bus" where
  "write_bytes8 b a [] = b"
| "write_bytes8 b a (v # vs) = write_bytes8 (write8 b a v) (a + 1) vs"

definition eth_rx_inject :: "bus \<Rightarrow> u8 list \<Rightarrow> bool \<times> bus" where
  "eth_rx_inject b frame =
     (if eth_reg b DMACRXDLAR = 0 then (False, b)
      else
        let ring_len = (eth_reg b DMACRXRLR AND 0xFFFF) + 1;
            d = rx_desc b;
            (rdes3, b1) = read32 b (d + 12)
        in if \<not> bit_set rdes3 31 then (False, b1)
           else
             let (vid, data) = strip_vlan frame;
                 (buf, b2) = read32 b1 d;
                 len = min (length data) BUFSZ;
                 b3 = write_bytes8 b2 buf (take len data);
                 wb = push_bit 29 1 OR push_bit 28 1 OR push_bit 25 1 OR (of_nat len AND 0x7FFF);
                 b4 = write32 b3 d (ucast vid);
                 b5 = write32 b4 (d + 12) wb;
                 b6 = b5\<lparr>eth := (eth b5)\<lparr>rx_next := (rx_next (eth b5) + 1) mod ring_len\<rparr>\<rparr>;
                 b7 = eth_set b6 DMACSR (eth_reg b6 DMACSR OR push_bit 6 1 OR push_bit 15 1);
                 b8 = eth_set b7 DMAISR (eth_reg b7 DMAISR OR 1)
             in (True, b8\<lparr>eth := (eth b8)\<lparr>eth_irq := True\<rparr>\<rparr>))"

text \<open>
  The host's side of the pumps (the \<open>HostIo\<close> trait of \<open>src/host.rs\<close>): what it has
  received and what it holds for the processor.
\<close>

record host =
  host_eth_out :: "u8 list list"
  host_eth_in :: "u8 list list"
  host_uart_out :: "u8 list"
  host_uart_in :: "u8 list"

definition eth_take_tx :: "bus \<Rightarrow> u8 list list \<times> bus" where
  "eth_take_tx b = (tx_frames (eth b), b\<lparr>eth := (eth b)\<lparr>tx_frames := []\<rparr>\<rparr>)"

fun deliver :: "bus \<Rightarrow> u8 list list \<Rightarrow> bus \<times> u8 list list" where
  "deliver b [] = (snd (eth_rx_has_space b), [])"
| "deliver b (f # fs) =
     (let (space, b1) = eth_rx_has_space b in
      if space then deliver (snd (eth_rx_inject b1 f)) fs else (b1, f # fs))"

definition pump_eth :: "bus \<Rightarrow> host \<Rightarrow> bus \<times> host" where
  "pump_eth b h =
     (let (fs, b1) = eth_take_tx b; (b2, rest) = deliver b1 (host_eth_in h)
      in (b2, h\<lparr>host_eth_out := host_eth_out h @ fs, host_eth_in := rest\<rparr>))"

definition pump_uart :: "bus \<Rightarrow> host \<Rightarrow> bus \<times> host" where
  "pump_uart b h =
     (b\<lparr>shared_io := (shared_io b)\<lparr>uart_tx := [], uart_rx := uart_rx (shared_io b) @ host_uart_in h\<rparr>\<rparr>,
      h\<lparr>host_uart_out := host_uart_out h @ uart_tx (shared_io b), host_uart_in := []\<rparr>)"

section \<open>Interrupt collection\<close>

text \<open>
  The device poll: every device is asked, the first eight answers are kept (a ninth is
  taken from its device and lost).
\<close>

fun poll_devs :: "dev_slot list \<Rightarrow> u16 list \<Rightarrow> dev_slot list \<times> u16 list" where
  "poll_devs [] raised = ([], raised)"
| "poll_devs (s # ss) raised =
     (let (irq, d) = dev_take_irq (dv_dev s);
          raised1 = (case irq of Some i \<Rightarrow> if length raised < 8 then raised @ [i] else raised
                     | None \<Rightarrow> raised);
          (ss1, raised2) = poll_devs ss raised1
      in (s\<lparr>dv_dev := d\<rparr> # ss1, raised2))"

definition collect_devices :: "bus \<Rightarrow> bus" where
  "collect_devices b =
     (if dev_touched b then
        let (ds, raised) = poll_devs (devs b) []
        in foldl (\<lambda>b i. pend_irq b (unat i)) (b\<lparr>dev_touched := False, devs := ds\<rparr>) raised
      else b)"

text \<open>The events the bus itself keeps: Ethernet, flash erase, a waiting UART byte.\<close>

definition collect_bus_irqs :: "bus \<Rightarrow> bus" where
  "collect_bus_irqs b1 =
     (let b2 = (if eth_irq (eth b1)
                then pend_irq (b1\<lparr>eth := (eth b1)\<lparr>eth_irq := False\<rparr>\<rparr>) ETH_IRQ else b1);
          b3 = (case sp_flash b2 of
                  Some f \<Rightarrow> (case take_erase_irq f of
                              (raise, f1) \<Rightarrow>
                                let b' = b2\<lparr>sp_flash := Some f1\<rparr>
                                in if raise then pend_irq b' FLASH_IRQ else b')
                | None \<Rightarrow> b2)
      in if uart_rx (shared_io b3) \<noteq> [] then pend_irq b3 UART7_IRQ else b3)"

definition collect_irqs :: "bus \<Rightarrow> bus" where
  "collect_irqs b = collect_bus_irqs (collect_devices b)"

definition any_pending_irq :: "bus \<Rightarrow> bool \<times> bus" where
  "any_pending_irq b =
     (let b1 = collect_irqs b in (next_irq b1 \<noteq> None \<or> pend_pendsv b1, b1))"

section \<open>Reset and loading\<close>

definition reset_exception_sources :: "bus \<Rightarrow> bus" where
  "reset_exception_sources b =
     write32 (write32 (write32
       (b\<lparr>nvic_en := (\<lambda>_. 0), nvic_pend := (\<lambda>_. 0), pend_pendsv := False\<rparr>)
       SYST_CSR 0) SYST_RVR 0) SYST_CVR 0"

definition flash_reset_latch :: "bus \<Rightarrow> bus" where
  "flash_reset_latch b =
     (case sp_flash b of Some f \<Rightarrow> b\<lparr>sp_flash := Some (reset_latch f)\<rparr> | None \<Rightarrow> b)"

definition load_rot_bootleby :: "bus \<Rightarrow> u8 list \<Rightarrow> bus" where
  "load_rot_bootleby b bs =
     (case rotfl b of Some f \<Rightarrow> b\<lparr>rotfl := Some (rot_load_image_at f 0 bs)\<rparr> | None \<Rightarrow> b)"

definition bus_load :: "bus \<Rightarrow> u32 \<Rightarrow> u8 list \<Rightarrow> bus outcome" where
  "bus_load b addr bs =
     (let into_ram = (case ram_for b addr (of_nat (length bs)) of
                        Some (i, off) \<Rightarrow> Ok (ram_put b i off bs) | None \<Rightarrow> Err b);
          into_rot = (case rotfl b of
                        Some g \<Rightarrow> if in_range 0 ROT_WIN_HI addr
                                  then Ok (b\<lparr>rotfl := Some (rot_load_image_at g addr bs)\<rparr>) else into_ram
                      | None \<Rightarrow> into_ram)
      in case sp_flash b of
           Some f \<Rightarrow> if in_range FLASH_WIN_LO FLASH_WIN_HI addr
                     then Ok (b\<lparr>sp_flash := Some (load_image_at f addr bs)\<rparr>) else into_rot
         | None \<Rightarrow> into_rot)"

end
