(* ===== verification/Word_Memory.thy ===== *)
theory Word_Memory
  imports Prelude
begin

text \<open>
  The memory interface the processor's stack code is verified against: aligned-or-not
  32-bit words that read back what was last written, for addresses the memory accepts
  (\<open>ok\<close>). \<open>store_words\<close> and \<open>load_words\<close> are the block transfers of the exception
  frame, PUSH/POP and STM/LDM; their lemmas are proved once, in the locale.
\<close>

definition words_apart :: "u32 \<Rightarrow> u32 \<Rightarrow> bool" where
  "words_apart a c = (unat a + 4 \<le> unat c \<or> unat c + 4 \<le> unat a)"

fun store_words :: "('s \<Rightarrow> u32 \<Rightarrow> u32 \<Rightarrow> 's) \<Rightarrow> 's \<Rightarrow> u32 \<Rightarrow> u32 list \<Rightarrow> 's" where
  "store_words wr s a [] = s"
| "store_words wr s a (v # vs) = store_words wr (wr s a v) (a + 4) vs"

fun load_words :: "('s \<Rightarrow> u32 \<Rightarrow> u32) \<Rightarrow> 's \<Rightarrow> u32 \<Rightarrow> nat \<Rightarrow> u32 list" where
  "load_words rd s a 0 = []"
| "load_words rd s a (Suc n) = rd s a # load_words rd s (a + 4) n"

definition block_ok :: "('s \<Rightarrow> u32 \<Rightarrow> bool) \<Rightarrow> 's \<Rightarrow> u32 \<Rightarrow> nat \<Rightarrow> bool" where
  "block_ok ok s a n = ((\<forall>k < n. ok s (a + 4 * of_nat k)) \<and> unat a + 4 * n \<le> 2 ^ 32)"

lemma length_load_words [simp]: "length (load_words rd s a n) = n"
  by (induction n arbitrary: a) simp_all

lemma block_ok_0 [simp]: "block_ok ok s a 0"
  by (simp add: block_ok_def less_imp_le unsigned_less [where 'b = 32, simplified])

lemma unat_step:
  fixes a :: u32
  assumes "unat a + 4 * n \<le> 2 ^ 32" and "k < n"
  shows "unat (a + 4 * of_nat k) = unat a + 4 * k"
proof -
  have k: "unat (4 * of_nat k :: u32) = 4 * k"
    using assms unat_of_nat32 [of "4 * k"] by simp
  show ?thesis using assms k by (subst unat_add_lem [THEN iffD1]) simp_all
qed

lemma block_ok_Suc:
  "block_ok ok s a (Suc n) \<Longrightarrow> ok s a \<and> (n = 0 \<or> (block_ok ok s (a + 4) n \<and> unat (a + 4) = unat a + 4))"
proof -
  assume b: "block_ok ok s a (Suc n)"
  then have ok0: "ok s a" by (auto simp: block_ok_def dest: spec [of _ 0])
  show ?thesis
  proof (cases n)
    case (Suc m)
    from b have "unat (a + 4 * of_nat 1) = unat a + 4 * 1"
      by (intro unat_step [of a "Suc n"]) (auto simp: block_ok_def Suc)
    then have u: "unat (a + 4) = unat a + 4" by simp
    have "ok s (a + 4 + 4 * of_nat k)" if "k < n" for k
    proof -
      have "ok s (a + 4 * of_nat (Suc k))" using b that unfolding block_ok_def by blast
      then show ?thesis by (simp add: algebra_simps)
    qed
    with u b ok0 show ?thesis by (auto simp: block_ok_def)
  qed (use ok0 in simp)
qed

locale word_memory =
  fixes ok :: "'s \<Rightarrow> u32 \<Rightarrow> bool"
    and rd :: "'s \<Rightarrow> u32 \<Rightarrow> u32"
    and wr :: "'s \<Rightarrow> u32 \<Rightarrow> u32 \<Rightarrow> 's"
  assumes ok_wr: "ok s a \<Longrightarrow> ok (wr s a v) c = ok s c"
    and rd_same: "ok s a \<Longrightarrow> rd (wr s a v) a = v"
    and rd_other: "ok s a \<Longrightarrow> ok s c \<Longrightarrow> words_apart a c \<Longrightarrow> rd (wr s a v) c = rd s c"
begin

lemma block_ok_wr: "ok s a \<Longrightarrow> block_ok ok (wr s a v) c n = block_ok ok s c n"
  by (simp add: block_ok_def ok_wr)

lemma store_ok: "block_ok ok s a (length vs) \<Longrightarrow> ok (store_words wr s a vs) c = ok s c"
proof (induction vs arbitrary: s a)
  case (Cons v vs)
  from block_ok_Suc [of ok s a "length vs"] Cons.prems
  have "ok s a" "vs = [] \<or> block_ok ok s (a + 4) (length vs)" by auto
  with Cons.IH [of "wr s a v" "a + 4"] show ?case by (auto simp: ok_wr block_ok_wr)
qed simp

lemma store_other:
  "block_ok ok s a (length vs) \<Longrightarrow> ok s c \<Longrightarrow>
     unat c + 4 \<le> unat a \<or> unat a + 4 * length vs \<le> unat c \<Longrightarrow>
     rd (store_words wr s a vs) c = rd s c"
proof (induction vs arbitrary: s a)
  case (Cons v vs)
  from block_ok_Suc [of ok s a "length vs"] Cons.prems(1)
  have B: "ok s a" "vs = [] \<or> (block_ok ok s (a + 4) (length vs) \<and> unat (a + 4) = unat a + 4)" by auto
  have "words_apart a c" using Cons.prems(3) by (auto simp: words_apart_def)
  with B(1) Cons.prems(2) have r: "rd (wr s a v) c = rd s c" by (intro rd_other)
  show ?case
  proof (cases "vs = []")
    case False
    with B have "rd (store_words wr (wr s a v) (a + 4) vs) c = rd (wr s a v) c"
      using Cons.prems(2,3) by (intro Cons.IH) (auto simp: block_ok_wr ok_wr)
    with r show ?thesis by simp
  qed (use r in simp)
qed simp

lemma load_store: "block_ok ok s a (length vs) \<Longrightarrow> load_words rd (store_words wr s a vs) a (length vs) = vs"
proof (induction vs arbitrary: s a)
  case (Cons v vs)
  from block_ok_Suc [of ok s a "length vs"] Cons.prems
  have B: "ok s a" "vs = [] \<or> (block_ok ok s (a + 4) (length vs) \<and> unat (a + 4) = unat a + 4)" by auto
  show ?case
  proof (cases "vs = []")
    case True
    with B show ?thesis by (simp add: rd_same)
  next
    case False
    with B have "rd (store_words wr (wr s a v) (a + 4) vs) a = rd (wr s a v) a"
      by (intro store_other) (auto simp: block_ok_wr ok_wr)
    with B(1) have "rd (store_words wr (wr s a v) (a + 4) vs) a = v" by (simp add: rd_same)
    moreover have "load_words rd (store_words wr (wr s a v) (a + 4) vs) (a + 4) (length vs) = vs"
      using B False by (intro Cons.IH) (auto simp: block_ok_wr)
    ultimately show ?thesis by simp
  qed
qed simp

lemma load_frame:
  "block_ok ok s a (length vs) \<Longrightarrow> block_ok ok s c n \<Longrightarrow>
     unat c + 4 * n \<le> unat a \<or> unat a + 4 * length vs \<le> unat c \<Longrightarrow>
     load_words rd (store_words wr s a vs) c n = load_words rd s c n"
proof (induction n arbitrary: c)
  case (Suc n)
  from block_ok_Suc [OF Suc.prems(2)]
  have B: "ok s c" "n = 0 \<or> (block_ok ok s (c + 4) n \<and> unat (c + 4) = unat c + 4)" by auto
  have "rd (store_words wr s a vs) c = rd s c"
    using Suc.prems(1,3) B(1) by (intro store_other) auto
  moreover have "load_words rd (store_words wr s a vs) (c + 4) n = load_words rd s (c + 4) n"
    using B(2) Suc.prems(1,3) by (cases "n = 0") (auto intro!: Suc.IH)
  ultimately show ?case by simp
qed simp

end

end
