(* ===== verification/Bus_Ram.thy ===== *)
theory Bus_Ram
  imports Bus Word_Memory
begin

text \<open>
  RAM behind the bus. \<open>ram_ok b a n\<close> says an \<open>n\<close>-byte access at \<open>a\<close> lands inside a RAM
  region and is claimed by nothing the bus checks earlier (secure alias, flash windows,
  boot ROM, NVIC, ICSR, Ethernet). The locale \<open>word_memory\<close> is what the processor's
  stack code relies on: word reads return the last word written; the bus is its model.
\<close>

unbundle bit_operations_syntax

section \<open>Accesses that reach RAM\<close>

definition intercepted :: "bus \<Rightarrow> u32 \<Rightarrow> bool" where
  "intercepted b a =
     ((sp_flash b \<noteq> None \<and> (in_range FLASH_WIN_LO FLASH_WIN_HI a \<or> in_range FLASH_REG_LO FLASH_REG_HI a)) \<or>
      (rotfl b \<noteq> None \<and> (in_range 0 ROT_WIN_HI a \<or> in_range ROT_REG_LO ROT_REG_HI a)) \<or>
      (rom_enabled b \<and> rom_read32 (a AND NOT 3) \<noteq> None) \<or>
      in_range NVIC_LO NVIC_HI a \<or> a AND NOT 3 = SCB_ICSR \<or> a AND NOT 3 = SCB_AIRCR \<or>
      in_range ETH_BASE ETH_END a)"

definition ram_ok :: "bus \<Rightarrow> u32 \<Rightarrow> nat \<Rightarrow> bool" where
  "ram_ok b a n =
     (fold_addr b a = a \<and> \<not> intercepted b a \<and>
      (case ram_for b a (of_nat n) of Some (i, off) \<Rightarrow> ram_in_bounds b i off n | None \<Rightarrow> False))"

definition ram_word :: "bus \<Rightarrow> u32 \<Rightarrow> u32" where
  "ram_word b a =
     (case ram_for b a 4 of Some (i, off) \<Rightarrow> get32 (ram_data (rams b ! i)) off | None \<Rightarrow> 0)"

definition ram_store :: "bus \<Rightarrow> u32 \<Rightarrow> u32 \<Rightarrow> u8 list \<Rightarrow> bus" where
  "ram_store b a v bs =
     (let b1 = rec_write b a v (length bs) in
      case ram_for b a (of_nat (length bs)) of
        Some (i, off) \<Rightarrow> ram_put b1 i off bs | None \<Rightarrow> b1)"

lemma ram_find_bound: "ram_find k rs a n = Some (i, off) \<Longrightarrow> k \<le> i \<and> i < k + length rs \<and>
    off = unat (a - ram_base (rs ! (i - k)))"
proof (induction k rs a n rule: ram_find.induct)
  case (2 k r rs a n)
  show ?case
  proof (cases "ram_base r \<le> a \<and> a + n \<le> ram_base r + ram_len r")
    case True
    with "2.prems" show ?thesis by auto
  next
    case False
    with "2.prems" have "ram_find (Suc k) rs a n = Some (i, off)" by auto
    with "2.IH" [OF False] show ?thesis by (auto simp: nth_Cons')
  qed
qed simp

lemma ram_find_base:
  "ram_find k rs a n = Some (i, off) \<Longrightarrow> ram_base (rs ! (i - k)) \<le> a"
proof (induction k rs a n rule: ram_find.induct)
  case (2 k r rs a n)
  show ?case
  proof (cases "ram_base r \<le> a \<and> a + n \<le> ram_base r + ram_len r")
    case True
    with "2.prems" show ?thesis by auto
  next
    case False
    with "2.prems" have f: "ram_find (Suc k) rs a n = Some (i, off)" by auto
    then have "Suc k \<le> i" using ram_find_bound by blast
    then show ?thesis using "2.IH" [OF False f] by (auto simp: nth_Cons')
  qed
qed simp

text \<open>Where an access lands depends on the regions' bounds alone.\<close>

lemma ram_find_cong:
  "map ram_base rs = map ram_base rs' \<Longrightarrow> map ram_len rs = map ram_len rs' \<Longrightarrow>
     ram_find k rs a n = ram_find k rs' a n"
proof (induction rs arbitrary: rs' k)
  case (Cons r rs)
  then show ?case by (cases rs') auto
qed simp

lemma map_update_same: "f y = f (xs ! i) \<Longrightarrow> map f (xs[i := y]) = map f xs"
  by (cases "i < length xs") (auto simp: map_update list_update_same_conv list_update_beyond)

lemma map_bounds_put [simp]:
  "map ram_base (rams (ram_put b i off bs)) = map ram_base (rams b)"
  "map ram_len (rams (ram_put b i off bs)) = map ram_len (rams b)"
  by (simp_all add: ram_put_def map_update_same)

lemma ram_for_cong:
  "map ram_base (rams b) = map ram_base (rams b') \<Longrightarrow> map ram_len (rams b) = map ram_len (rams b') \<Longrightarrow>
     ram_for b a n = ram_for b' a n"
  unfolding ram_for_def by (rule ram_find_cong)

lemma ram_put_frame [simp]:
  "sp_flash (ram_put b i off bs) = sp_flash b" "rotfl (ram_put b i off bs) = rotfl b"
  "rom_enabled (ram_put b i off bs) = rom_enabled b" "secure_alias (ram_put b i off bs) = secure_alias b"
  "bus_rec (ram_put b i off bs) = bus_rec b"
  "devs (ram_put b i off bs) = devs b" "eth (ram_put b i off bs) = eth b"
  "nvic_en (ram_put b i off bs) = nvic_en b" "nvic_pend (ram_put b i off bs) = nvic_pend b"
  "nvic_prio (ram_put b i off bs) = nvic_prio b" "pend_pendsv (ram_put b i off bs) = pend_pendsv b"
  "length (rams (ram_put b i off bs)) = length (rams b)"
  by (simp_all add: ram_put_def)

lemma rec_write_frame [simp]:
  "rams (rec_write b a v n) = rams b" "sp_flash (rec_write b a v n) = sp_flash b"
  "rotfl (rec_write b a v n) = rotfl b" "rom_enabled (rec_write b a v n) = rom_enabled b"
  "secure_alias (rec_write b a v n) = secure_alias b" "devs (rec_write b a v n) = devs b"
  "eth (rec_write b a v n) = eth b" "nvic_en (rec_write b a v n) = nvic_en b"
  "nvic_pend (rec_write b a v n) = nvic_pend b" "nvic_prio (rec_write b a v n) = nvic_prio b"
  "pend_pendsv (rec_write b a v n) = pend_pendsv b" "bus_panicked (rec_write b a v n) = bus_panicked b"
  by (simp_all add: rec_write_def)

lemma ram_for_rec_write [simp]: "ram_for (rec_write b a v n) c m = ram_for b c m"
  by (simp add: ram_for_def)

lemma ram_for_put [simp]: "ram_for (ram_put b i off bs) a n = ram_for b a n"
  by (rule ram_for_cong) simp_all

lemma ram_for_store [simp]: "ram_for (ram_store b a v bs) c m = ram_for b c m"
  by (auto simp: ram_store_def Let_def split: option.split)

lemma ram_store_frame [simp]:
  "sp_flash (ram_store b a v bs) = sp_flash b" "rotfl (ram_store b a v bs) = rotfl b"
  "rom_enabled (ram_store b a v bs) = rom_enabled b" "secure_alias (ram_store b a v bs) = secure_alias b"
  "devs (ram_store b a v bs) = devs b" "eth (ram_store b a v bs) = eth b"
  "nvic_en (ram_store b a v bs) = nvic_en b" "nvic_pend (ram_store b a v bs) = nvic_pend b"
  "nvic_prio (ram_store b a v bs) = nvic_prio b" "pend_pendsv (ram_store b a v bs) = pend_pendsv b"
  "map ram_len (rams (ram_store b a v bs)) = map ram_len (rams b)"
  by (auto simp: ram_store_def Let_def split: option.split)

lemma ram_len_nth: "map ram_len (rams b) = map ram_len (rams b') \<Longrightarrow> i < length (rams b) \<Longrightarrow>
    ram_len (rams b ! i) = ram_len (rams b' ! i)"
  by (metis length_map nth_map)

lemma ram_ok_store [simp]: "ram_ok (ram_store b a v bs) c n = ram_ok b c n"
proof -
  have "ram_in_bounds (ram_store b a v bs) i off n = ram_in_bounds b i off n"
    if "ram_for b c (of_nat n) = Some (i, off)" for i off
  proof -
    have "i < length (rams b)" using that ram_find_bound unfolding ram_for_def by fastforce
    then have "ram_len (rams (ram_store b a v bs) ! i) = ram_len (rams b ! i)"
      using ram_len_nth [of b "ram_store b a v bs" i] by simp
    then show ?thesis by (simp add: ram_in_bounds_def)
  qed
  then show ?thesis
    by (auto simp: ram_ok_def intercepted_def fold_addr_def split: option.split)
qed

lemma ram_okE:
  assumes "ram_ok b a n"
  obtains i off where "ram_for b a (of_nat n) = Some (i, off)" "ram_in_bounds b i off n"
    "fold_addr b a = a" "\<not> intercepted b a"
  using assms by (auto simp: ram_ok_def split: option.splits)

lemma read32_not_intercepted:
  assumes "\<not> intercepted b a" and "fold_addr b a = a"
  shows "read32 b a = read32_tail b a"
proof -
  have "read32_sys b a = read32_tail b a"
    using assms(1) by (simp add: intercepted_def read32_sys_def split: option.split)
  then have "read32_rot b a = read32_tail b a"
    using assms(1) by (cases "rotfl b") (simp_all add: intercepted_def read32_rot_def)
  then show ?thesis
    using assms by (cases "sp_flash b") (simp_all add: intercepted_def read32_def)
qed

lemma write32_not_intercepted:
  assumes "\<not> intercepted b a" and "fold_addr b a = a"
  shows "write32_gen k b a v = write32_tail b a v"
proof -
  have "write32_sys k b a v = write32_tail b a v"
    using assms(1) by (simp add: intercepted_def write32_sys_def)
  then have "write32_rot k b a v = write32_tail b a v"
    using assms(1) by (cases "rotfl b") (simp_all add: intercepted_def write32_rot_def)
  then show ?thesis
    using assms by (cases "sp_flash b") (simp_all add: intercepted_def write32_gen_def)
qed

lemma read32_ram: "ram_ok b a 4 \<Longrightarrow> read32 b a = (ram_word b a, b)"
  by (elim ram_okE)
    (simp add: read32_not_intercepted read32_tail_def ram_get_def ram_word_def get32_def slice_4)

lemma write32_gen_ram: "ram_ok b a 4 \<Longrightarrow> write32_gen k b a v = ram_store b a v (le_bytes32 v)"
  by (elim ram_okE) (simp add: write32_not_intercepted write32_tail_def ram_store_def Let_def)

lemma write32_ram: "ram_ok b a 4 \<Longrightarrow> write32 b a v = ram_store b a v (le_bytes32 v)"
  by (simp add: write32_def write32_gen_ram)

lemma flash_window_ram: "\<not> intercepted b a \<Longrightarrow> flash_window b a = None"
  by (auto simp: flash_window_def intercepted_def split: option.splits)

lemma read16_ram:
  "ram_ok b a 2 \<Longrightarrow> read16 b a =
     (case ram_for b a 2 of Some (i, off) \<Rightarrow> get16 (ram_data (rams b ! i)) off | None \<Rightarrow> 0, b)"
  by (elim ram_okE) (simp add: read16_def flash_window_ram ram_get_def get16_def slice_2 Let_def)

lemma read8_ram:
  "ram_ok b a 1 \<Longrightarrow> read8 b a =
     (case ram_for b a 1 of Some (i, off) \<Rightarrow> ram_data (rams b ! i) off | None \<Rightarrow> 0, b)"
  by (elim ram_okE) (simp add: read8_def flash_window_ram ram_get_def slice_def Let_def)

lemma write16_ram: "ram_ok b a 2 \<Longrightarrow> write16 b a v = ram_store b a (ucast v) (le_bytes16 v)"
  by (elim ram_okE) (simp add: write16_def ram_store_def Let_def)

lemma write8_ram: "ram_ok b a 1 \<Longrightarrow> write8 b a v = ram_store b a (ucast v) [v]"
  by (elim ram_okE) (simp add: write8_def ram_store_def Let_def)

section \<open>Reads after writes\<close>

lemma ram_data_store:
  assumes "ram_for b a (of_nat (length bs)) = Some (i, off)" and "ram_in_bounds b i off (length bs)"
    and "j < length (rams b)"
  shows "ram_data (rams (ram_store b a v bs) ! j) =
    (if j = i then blit (ram_data (rams b ! i)) off bs else ram_data (rams b ! j))"
  using assms by (simp add: ram_store_def ram_put_def ram_in_bounds_def nth_list_update)

lemma ram_word_same:
  assumes "ram_ok b a 4"
  shows "ram_word (ram_store b a v (le_bytes32 v)) a = v"
proof -
  from assms obtain i off where r: "ram_for b a 4 = Some (i, off)" "ram_in_bounds b i off 4"
    by (auto simp: ram_ok_def split: option.splits)
  then have "i < length (rams b)" using ram_find_bound unfolding ram_for_def by fastforce
  then show ?thesis using r ram_data_store [of b a "le_bytes32 v" i off i v]
    by (simp add: ram_word_def get32_blit)
qed

lemma ram_word_other:
  assumes "ram_ok b a 4" and "ram_ok b c 4" and "words_apart a c"
  shows "ram_word (ram_store b a v (le_bytes32 v)) c = ram_word b c"
proof -
  from assms(1) obtain i off where r: "ram_for b a 4 = Some (i, off)" "ram_in_bounds b i off 4"
    by (auto simp: ram_ok_def split: option.splits)
  from assms(2) obtain j off' where s: "ram_for b c 4 = Some (j, off')" "ram_in_bounds b j off' 4"
    by (auto simp: ram_ok_def split: option.splits)
  have i: "i < length (rams b)" "off = unat (a - ram_base (rams b ! i))" "ram_base (rams b ! i) \<le> a"
    using r(1) ram_find_bound ram_find_base unfolding ram_for_def by fastforce+
  have j: "j < length (rams b)" "off' = unat (c - ram_base (rams b ! j))" "ram_base (rams b ! j) \<le> c"
    using s(1) ram_find_bound ram_find_base unfolding ram_for_def by fastforce+
  have "off + 4 \<le> off' \<or> off' + 4 \<le> off" if "i = j"
    using assms(3) i j that by (auto simp: words_apart_def unat_sub word_le_nat_alt)
  then show ?thesis
    using s ram_data_store [of b a "le_bytes32 v" i off j v] r i(1) j(1)
    by (auto simp: ram_word_def get32_blit_other)
qed


interpretation ram: word_memory "\<lambda>b a. ram_ok b a 4" "\<lambda>b a. fst (read32 b a)" write32
  by unfold_locales (simp_all add: write32_ram read32_ram ram_word_same ram_word_other)

end
