(* ===== verification/Bus_Eth.thy ===== *)
theory Bus_Eth
  imports Bus_Ram
begin

text \<open>
  The Ethernet side of the bus: nested transmit walks stop after two levels, the VLAN
  tag survives the trip through the DMA, and what a received frame leaves in the ring.
\<close>

unbundle bit_operations_syntax

section \<open>Nested walks\<close>

text \<open>The tail pointer register holds no OWN bit; an address that is that register.\<close>

definition clean :: "bus \<Rightarrow> bool" where
  "clean b = (\<not> bit (eth_reg b DMACTXDTPR) 31)"

definition hits_dtpr :: "bus \<Rightarrow> u32 \<Rightarrow> bool" where
  "hits_dtpr b a =
     (let x = fold_addr b a in in_range ETH_BASE ETH_END x \<and> (x - ETH_BASE) AND NOT 3 = DMACTXDTPR)"



lemma hits_dtpr_cases:
  assumes "hits_dtpr b a"
  shows "fold_addr b a = 0x40029120 \<or> fold_addr b a = 0x40029121 \<or> fold_addr b a = 0x40029122 \<or>
         fold_addr b a = 0x40029123"
proof -
  have "(fold_addr b a - ETH_BASE) AND NOT 3 = DMACTXDTPR"
    using assms by (simp add: hits_dtpr_def Let_def)
  from and_not_3_cases [OF this] show ?thesis by (auto simp: algebra_simps)
qed

text \<open>Reads leave the Ethernet state and the routing of addresses alone.\<close>

definition same_routes :: "bus \<Rightarrow> bus \<Rightarrow> bool" where
  "same_routes b b' = (eth b' = eth b \<and> sp_flash b' = sp_flash b \<and> rotfl b' = rotfl b \<and>
     rom_enabled b' = rom_enabled b \<and> secure_alias b' = secure_alias b)"

lemma same_routes_refl [simp]: "same_routes b b"
  by (simp add: same_routes_def)

lemma same_routes_trans: "same_routes a b \<Longrightarrow> same_routes b c \<Longrightarrow> same_routes a c"
  by (simp add: same_routes_def)

lemma same_routes_read32_tail: "same_routes b (snd (read32_tail b a))"
  by (auto simp: read32_tail_def same_routes_def ram_get_def device_read_def unmapped_read_def Let_def
      split: option.split prod.split)

lemma same_routes_hit: "same_routes b (b\<lparr>mmio_hit := True\<rparr>)"
  by (simp add: same_routes_def)

lemma same_routes_read32: "same_routes b (snd (read32 b a))"
proof -
  have s: "same_routes b (snd (read32_sys b x))" for x
    using same_routes_read32_tail [of b x] same_routes_hit [of b]
    by (auto simp: read32_sys_def split: option.split)
  have r: "same_routes b (snd (read32_rot b x))" for x
    using s [of x] same_routes_hit [of b] by (auto simp: read32_rot_def split: option.split)
  show ?thesis
    using r [of "fold_addr b a"] same_routes_hit [of b]
    by (auto simp: read32_def Let_def split: option.split)
qed

lemma same_routes_read8: "same_routes b (snd (read8 b a))"
  using same_routes_read32 [of b "fold_addr b a AND NOT 3"]
  by (auto simp: read8_def ram_get_def same_routes_def Let_def split: option.split sum.split prod.split)

lemma same_routes_read_bytes8: "same_routes b (snd (read_bytes8 b a n))"
proof (induction n arbitrary: b a)
  case (Suc n)
  have "same_routes (snd (read8 b a)) (snd (read_bytes8 (snd (read8 b a)) (a + 1) n))" by (rule Suc.IH)
  with same_routes_read8 [of b a] show ?case
    by (auto simp: Let_def split_def elim: same_routes_trans)
qed simp

lemma clean_same: "same_routes b b' \<Longrightarrow> clean b' = clean b"
  by (simp add: same_routes_def clean_def eth_reg_def)

lemma hits_same: "same_routes b b' \<Longrightarrow> hits_dtpr b' a = hits_dtpr b a"
  by (simp add: same_routes_def hits_dtpr_def fold_addr_def)

lemma read32_dtpr:
  assumes "hits_dtpr b a"
  shows "fst (read32 b a) = eth_reg b DMACTXDTPR"
  using hits_dtpr_cases [OF assms]
  by (elim disjE)
    (simp_all add: read32_def read32_rot_def read32_sys_def in_range_def rom_read32_def eth_read_def
      eth_reg_def split: option.split)

text \<open>The register writes that leave the tail pointer's OWN bit as it is.\<close>

lemma eth_reg_set: "eth_reg (eth_set b k v) off = (if off AND NOT 3 = k then v else eth_reg b off)"
  by (simp add: eth_reg_def eth_set_def)

lemma clean_eth_set: "k \<noteq> DMACTXDTPR \<Longrightarrow> clean (eth_set b k v) = clean b"
  by (simp add: clean_def eth_reg_set)

lemma phy_key_neq: "(0x10000 OR x OR y :: u32) = 0x1120 \<longleftrightarrow> False"
proof -
  have "bit (0x10000 OR x OR y :: u32) 16" by (simp add: bit_simps)
  moreover have "\<not> bit (0x1120 :: u32) 16" by simp
  ultimately show ?thesis by auto
qed

lemma clean_mdio_op: "clean (mdio_op b v) = clean b"
proof -
  have "clean (b\<lparr>eth := (eth b)\<lparr>mdio_page := p\<rparr>\<rparr>) = clean b" for p
    by (simp add: clean_def eth_reg_def)
  then show ?thesis
    by (simp add: mdio_op_def Let_def clean_eth_set phy_key_neq)
qed

definition agree_clean :: "(bus \<Rightarrow> bus) \<Rightarrow> (bus \<Rightarrow> bus) \<Rightarrow> bool" where
  "agree_clean k k' = (\<forall>b. clean b \<longrightarrow> k b = k' b)"

lemma clean_dtpr_set: "\<not> bit v 31 \<Longrightarrow> clean (eth_set b DMACTXDTPR v)"
  by (simp add: clean_def eth_reg_set)

lemma eth_write_agree:
  assumes "agree_clean k k'" and "\<not> bit v 31"
  shows "eth_write_gen k b off v = eth_write_gen k' b off v"
  using assms clean_dtpr_set [of v b] by (auto simp: eth_write_gen_def agree_clean_def Let_def)

lemma write32_agree:
  assumes "agree_clean k k'" and "\<not> bit v 31"
  shows "write32_gen k b a v = write32_gen k' b a v"
proof -
  have s: "write32_sys k b x v = write32_sys k' b x v" for x
    using eth_write_agree [OF assms] by (simp add: write32_sys_def Let_def split: option.split)
  have r: "write32_rot k b x v = write32_rot k' b x v" for x
    using s by (simp add: write32_rot_def split: option.split)
  show ?thesis using r by (simp add: write32_gen_def Let_def split: option.split)
qed

lemma eth_write_no_kick:
  assumes "off AND NOT 3 \<noteq> DMACTXDTPR"
  shows "eth_write_gen k b off v = eth_write_gen k' b off v"
    and "clean (eth_write_gen k b off v) = clean b"
  using assms by (auto simp: eth_write_gen_def Let_def clean_mdio_op clean_eth_set)

lemma clean_cong: "eth b' = eth b \<Longrightarrow> clean b' = clean b"
  by (simp add: clean_def eth_reg_def)

lemma clean_upd [simp]:
  "clean (b\<lparr>mmio_hit := h\<rparr>) = clean b" "clean (b\<lparr>reset_pending := h\<rparr>) = clean b"
  "clean (b\<lparr>pend_pendsv := h\<rparr>) = clean b" "clean (b\<lparr>sp_flash := f\<rparr>) = clean b"
  "clean (b\<lparr>rotfl := g\<rparr>) = clean b"
  by (simp_all add: clean_def eth_reg_def)

lemma eth_write32_tail [simp]: "eth (write32_tail b a v) = eth b"
  by (auto simp: write32_tail_def tim5_write_def device_write_def Let_def split: option.split prod.split)

lemma clean_write32_tail [simp]: "clean (write32_tail b a v) = clean b"
  by (rule clean_cong) simp

lemma eth_nvic_write: "nvic_write b a v = Some b' \<Longrightarrow> eth b' = eth b"
  by (auto simp: nvic_write_def Let_def split: if_splits)

lemma write32_no_kick:
  assumes "\<not> hits_dtpr b a"
  shows "write32_gen k b a v = write32_gen k' b a v" and "clean (write32_gen k b a v) = clean b"
proof -
  let ?x = "fold_addr b a"
  have out: "in_range ETH_BASE ETH_END ?x \<Longrightarrow> (?x - ETH_BASE) AND NOT 3 \<noteq> DMACTXDTPR"
    using assms by (simp add: hits_dtpr_def Let_def)
  have s1: "write32_sys k b ?x v = write32_sys k' b ?x v"
    using eth_write_no_kick(1) [OF out, of k _ v k'] by (simp add: write32_sys_def Let_def split: option.split)
  have s2: "clean (write32_sys k b ?x v) = clean b"
    using eth_write_no_kick(2) [OF out, of k _ v]
    by (auto simp: write32_sys_def Let_def dest!: eth_nvic_write clean_cong split: option.split)
  show "write32_gen k b a v = write32_gen k' b a v"
    using s1 by (simp add: write32_gen_def write32_rot_def Let_def split: option.split)
  show "clean (write32_gen k b a v) = clean b"
    using s2 by (simp add: write32_gen_def write32_rot_def Let_def split: option.split)
qed


text \<open>One descriptor, the ring and the walk, inside a clean state and outside.\<close>

lemma tx_desc_clean:
  assumes "clean b"
  shows "tx_desc k d b = tx_desc k' d b" and "clean (fst (tx_desc k d b))"
proof -
  define t b1 where "t = fst (read32 b (d + 12))" and "b1 = snd (read32 b (d + 12))"
  have rd: "read32 b (d + 12) = (t, b1)" by (simp add: t_def b1_def)
  have sr: "same_routes b b1" unfolding b1_def by (rule same_routes_read32)
  have cl: "clean b1" using assms clean_same [OF sr] by simp
  have nh: "\<not> hits_dtpr b1 (d + 12)" if "bit t 31"
    using that assms read32_dtpr [of b "d + 12"] hits_same [OF sr] by (auto simp: t_def clean_def)
  let ?v = "t AND NOT (push_bit 31 1)"
  have w: "write32_gen k b1 (d + 12) ?v = write32_gen k' b1 (d + 12) ?v" if "bit t 31"
    using write32_no_kick(1) [OF nh [OF that]] .
  then show "tx_desc k d b = tx_desc k' d b"
    by (simp add: tx_desc_def rd split_def Let_def)
  define b2 where "b2 = write32_gen k b1 (d + 12) ?v"
  have c2: "clean b2" if "bit t 31"
    using write32_no_kick(2) [OF nh [OF that]] cl by (simp add: b2_def)
  define b3 b4 b5 where "b3 = snd (read32 b2 d)" and "b4 = snd (read32 b3 (d + 8))"
    and "b5 = snd (read_bytes8 b4 (fst (read32 b2 d)) (min (unat (fst (read32 b3 (d + 8)) AND 0x3FFF)) BUFSZ))"
  have "same_routes b2 b5"
    unfolding b5_def b4_def b3_def
    by (meson same_routes_read32 same_routes_read_bytes8 same_routes_trans)
  then have c5: "clean b5" if "bit t 31" using clean_same c2 [OF that] by blast
  have e: "clean (c\<lparr>eth := (eth c)\<lparr>pending_vid := p, tx_frames := f\<rparr>\<rparr>) = clean c"
    "clean (c\<lparr>eth := (eth c)\<lparr>pending_vid := p\<rparr>\<rparr>) = clean c" for c p f
    by (simp_all add: clean_def eth_reg_def)
  show "clean (fst (tx_desc k d b))"
    unfolding tx_desc_def rd split_def Let_def fst_conv snd_conv b2_def [symmetric] b3_def [symmetric]
      b4_def [symmetric] b5_def [symmetric]
    using cl c2 c5 by (simp add: e)
qed

lemma tx_walk_from_clean: "clean b \<Longrightarrow> tx_walk_from k d n b = tx_walk_from k' d n b"
proof (induction n arbitrary: d b)
  case (Suc n)
  have "tx_walk_from k (d + 16) n (fst (tx_desc k d b)) = tx_walk_from k' (d + 16) n (fst (tx_desc k d b))"
    by (rule Suc.IH) (rule tx_desc_clean(2) [OF Suc.prems])
  with tx_desc_clean(1) [OF Suc.prems, of k d k'] show ?case by (simp add: split_def Let_def)
qed simp

lemma tx_walk_gen_clean: "agree_clean (tx_walk_gen k) (tx_walk_gen k')"
  unfolding agree_clean_def using tx_walk_from_clean [of _ k _ _ k'] by (simp add: tx_walk_gen_def Let_def)

lemma tx_desc_agree: "agree_clean k k' \<Longrightarrow> tx_desc k d b = tx_desc k' d b"
  using write32_agree [of k k'] by (simp add: tx_desc_def split_def Let_def bit_simps)

lemma tx_walk_from_agree: "agree_clean k k' \<Longrightarrow> tx_walk_from k d n b = tx_walk_from k' d n b"
  by (induction n arbitrary: d b) (simp_all add: tx_desc_agree)

lemma tx_walk_gen_agree: "agree_clean k k' \<Longrightarrow> tx_walk_gen k b = tx_walk_gen k' b"
  using tx_walk_from_agree [of k k'] by (simp add: tx_walk_gen_def)

section \<open>Properties\<close>

text \<open>
  C29: The transmit engine terminates without deep recursion: a descriptor ring laid over
  the DMA's own tail-pointer register starts one walk inside the walk and no more. What
  a third level would do never matters, so two levels are the value of the recursion
  with any larger fuel.
\<close>

theorem tx_walk_depth:
  "tx_walk_gen (tx_walk_gen k) b = tx_walk 2 b \<and> tx_walk (n + 2) b = tx_walk 2 b"
proof -
  have f: "tx_walk (Suc m) = tx_walk_gen (tx_walk m)" for m by (rule ext) simp
  have two: "tx_walk_gen (tx_walk_gen k) b = tx_walk 2 b" for k
    unfolding numeral_2_eq_2 f by (rule tx_walk_gen_agree [OF tx_walk_gen_clean])
  from two [of k] two [of "tx_walk n"] show ?thesis by (simp add: f)
qed


lemma length_tag: "length (vlan_tag vid) = 4"
  by (simp add: vlan_tag_def)

text \<open>
  The VLAN id survives the trip through the DMA: the tag that the transmit engine
  inserts for a context descriptor is the one the receive engine strips, giving back the
  same twelve-bit id and the untagged frame.
\<close>

theorem vlan_round_trip:
  fixes vid :: u16
  assumes "12 \<le> length frame" and "vid AND 0xFFF = vid"
  shows "strip_vlan (insert_vlan (Some vid) frame) = (vid, frame)"
proof -
  have l: "length (take 12 frame) = 12" using assms(1) by simp
  have n: "(take 12 frame @ vlan_tag vid @ drop 12 frame) ! (12 + i) = vlan_tag vid ! i" if "i < 4" for i
    using that l nth_append_length_plus [of "take 12 frame" "vlan_tag vid @ drop 12 frame" i]
    by (simp add: nth_append length_tag)
  have tag: "be16 (vlan_tag vid ! 0) (vlan_tag vid ! 1) = 0x8100"
    by (simp add: vlan_tag_def be16_def le16_def)
  have id: "be16 (vlan_tag vid ! 2) (vlan_tag vid ! 3) = vid"
    by (simp add: vlan_tag_def be16_def, rule bit_word_eqI) (auto simp: bit_le16 bit_simps)
  have "drop 16 (take 12 frame @ vlan_tag vid @ drop 12 frame) = drop 12 frame"
    using l by (simp add: vlan_tag_def)
  moreover have "take 12 (take 12 frame @ vlan_tag vid @ drop 12 frame) = take 12 frame" using l by simp
  moreover have "16 \<le> length (take 12 frame @ vlan_tag vid @ drop 12 frame)"
    using assms(1) by (simp add: vlan_tag_def)
  ultimately show ?thesis
    using assms n [of 0] n [of 1] n [of 2] n [of 3] tag id
    by (simp add: insert_vlan_def strip_vlan_def)
qed

theorem vlan_round_trip_witness:
  "strip_vlan (insert_vlan (Some 0x301) (replicate 14 7)) = (0x301, replicate 14 7)"
  by (rule vlan_round_trip) simp_all

end
