(* ===== verification/Bus_Props.thy ===== *)
theory Bus_Props
  imports Bus_Ram
begin

text \<open>
  What the bus promises the processor: RAM reads back what was written and stores touch
  nothing else, the secure aliases are the same memory, the interrupt controller hands
  out the lowest enabled pending interrupt, and no raised interrupt is lost in collection.
\<close>

unbundle bit_operations_syntax

section \<open>Secure aliases\<close>

lemma fold_idem_range:
  assumes "in_range 0x10000000 0x10100000 a \<or> in_range 0x30000000 0x30080000 a"
  shows "a AND NOT SECURE_ALIAS_BIT = a - SECURE_ALIAS_BIT"
proof -
  have "bit a 28"
  proof -
    have "unat a div 2 ^ 28 = 1 \<or> unat a div 2 ^ 28 = 3"
      using assms by (auto simp: in_range_def word_le_nat_alt word_less_nat_alt)
    then have "bit (unat a) 28" by (auto simp: bit_iff_odd)
    then show ?thesis by (simp add: bit_unsigned_iff)
  qed
  moreover have e: "SECURE_ALIAS_BIT = 2 ^ 28" by simp
  ultimately have o: "a AND SECURE_ALIAS_BIT = SECURE_ALIAS_BIT"
    unfolding e by (intro bit_word_eqI) (auto simp only: bit_and_iff bit_word_exp)
  have "(a AND NOT SECURE_ALIAS_BIT) + (a AND SECURE_ALIAS_BIT) = a" by (rule and_not_add_and)
  with o show ?thesis by (simp add: algebra_simps)
qed


lemma fold_addr_eq:
  assumes "secure_alias b"
  shows "fold_addr b a = (if in_range 0x10000000 0x10100000 a \<or> in_range 0x30000000 0x30080000 a
    then a - SECURE_ALIAS_BIT else a)"
  using assms fold_idem_range [of a] by (simp add: fold_addr_def)

lemma fold_idem: "fold_addr b (fold_addr b a) = fold_addr b a"
proof (cases "secure_alias b \<and> (in_range 0x10000000 0x10100000 a \<or> in_range 0x30000000 0x30080000 a)")
  case True
  then have e: "fold_addr b a = a - SECURE_ALIAS_BIT" by (simp add: fold_addr_eq)
  have "\<not> in_range 0x10000000 0x10100000 (a - SECURE_ALIAS_BIT) \<and>
        \<not> in_range 0x30000000 0x30080000 (a - SECURE_ALIAS_BIT)"
    using True by (auto simp: in_range_def word_le_nat_alt word_less_nat_alt unat_sub_if')
  with True show ?thesis unfolding e by (simp add: fold_addr_eq)
next
  case False
  then show ?thesis by (auto simp: fold_addr_def)
qed

section \<open>The interrupt controller\<close>

lemma takeWhile_first:
  assumes "m < n" and "P m" and "\<And>j. j < m \<Longrightarrow> \<not> P j"
  shows "length (takeWhile (\<lambda>i. \<not> P i) [0..<n]) = m"
proof -
  have "[0..<n] = [0..<m] @ m # [Suc m..<n]"
    using assms(1) by (metis less_imp_add_positive upt_add_eq_append upt_rec add.commute le0 plus_nat.add_0)
  moreover have "takeWhile (\<lambda>i. \<not> P i) ([0..<m] @ m # [Suc m..<n]) = [0..<m]"
    using assms by (subst takeWhile_append2) auto
  ultimately show ?thesis by simp
qed

lemma trailing_zeros_least:
  assumes "w \<noteq> 0"
  shows "bit w (trailing_zeros w) \<and> trailing_zeros w < 32 \<and> (\<forall>j < trailing_zeros w. \<not> bit w j)"
proof -
  from assms obtain n where "bit w n" by (metis bit_word_eqI bit_0_eq bot_apply bot_bool_def)
  define m where "m = (LEAST n. bit w n)"
  have m: "bit w m" unfolding m_def using \<open>bit w n\<close> by (rule LeastI)
  have l: "\<not> bit w j" if "j < m" for j using that unfolding m_def by (rule not_less_Least)
  have "m < 32" using m by (auto dest: bit_imp_le_length)
  then have "trailing_zeros w = m"
    unfolding trailing_zeros_def using m l by (intro takeWhile_first) auto
  with m l \<open>m < 32\<close> show ?thesis by simp
qed

definition irq_active :: "bus \<Rightarrow> nat \<Rightarrow> bool" where
  "irq_active b n = (n < 256 \<and> bit (nvic_en b (n div 32)) (n mod 32) \<and> bit (nvic_pend b (n div 32)) (n mod 32))"

lemma next_irq_from_Some:
  "next_irq_from b i k = Some n \<Longrightarrow>
     \<exists>j. i \<le> j \<and> j < i + k \<and> n div 32 = j \<and> bit (nvic_en b j AND nvic_pend b j) (n mod 32) \<and>
         (\<forall>m. i * 32 \<le> m \<and> m < n \<longrightarrow> \<not> bit (nvic_en b (m div 32) AND nvic_pend b (m div 32)) (m mod 32))"
proof (induction b i k rule: next_irq_from.induct)
  case (2 b i k)
  let ?w = "nvic_en b i AND nvic_pend b i"
  show ?case
  proof (cases "?w = 0")
    case False
    with "2.prems" have n: "n = i * 32 + trailing_zeros ?w" by (simp add: Let_def)
    note t = trailing_zeros_least [OF False]
    have d: "n div 32 = i" "n mod 32 = trailing_zeros ?w" using t unfolding n by auto
    have "\<not> bit (nvic_en b (m div 32) AND nvic_pend b (m div 32)) (m mod 32)"
      if "i * 32 \<le> m" "m < n" for m
    proof -
      have "m div 32 = i" using that d(1) by (metis div_le_mono le_antisym less_imp_le_nat
            nonzero_mult_div_cancel_right zero_neq_numeral)
      moreover have "m mod 32 < trailing_zeros ?w"
        using that n \<open>m div 32 = i\<close> by (metis add_less_cancel_left mult_div_mod_eq mult.commute)
      ultimately show ?thesis using t by auto
    qed
    with d t show ?thesis by auto
  next
    case True
    with "2.prems" have "next_irq_from b (Suc i) k = Some n" by (simp add: Let_def)
    from "2.IH" [OF refl _ this] True obtain j where j: "Suc i \<le> j" "j < Suc i + k" "n div 32 = j"
      "bit (nvic_en b j AND nvic_pend b j) (n mod 32)"
      "\<forall>m. Suc i * 32 \<le> m \<and> m < n \<longrightarrow> \<not> bit (nvic_en b (m div 32) AND nvic_pend b (m div 32)) (m mod 32)"
      by auto
    have "\<not> bit (nvic_en b (m div 32) AND nvic_pend b (m div 32)) (m mod 32)" if "i * 32 \<le> m" "m < n" for m
    proof (cases "Suc i * 32 \<le> m")
      case False
      with that have "m div 32 = i" by (intro div_nat_eqI) auto
      with True show ?thesis by simp
    qed (use that j(5) in blast)
    with j show ?thesis by (intro exI [of _ j]) auto
  qed
qed simp

lemma next_irq_from_None:
  "next_irq_from b i k = None \<longleftrightarrow> (\<forall>j. i \<le> j \<and> j < i + k \<longrightarrow> nvic_en b j AND nvic_pend b j = 0)"
proof (induction b i k rule: next_irq_from.induct)
  case (2 b i k)
  show ?case
  proof (cases "nvic_en b i AND nvic_pend b i = 0")
    case True
    with "2.IH" [OF refl] have "next_irq_from b i (Suc k) = None \<longleftrightarrow>
        (\<forall>j. Suc i \<le> j \<and> j < Suc i + k \<longrightarrow> nvic_en b j AND nvic_pend b j = 0)" by (simp add: Let_def)
    also have "\<dots> \<longleftrightarrow> (\<forall>j. i \<le> j \<and> j < i + Suc k \<longrightarrow> nvic_en b j AND nvic_pend b j = 0)"
      using True by (metis Suc_le_eq add_Suc_shift le_neq_implies_less less_or_eq_imp_le)
    finally show ?thesis .
  next
    case False
    then show ?thesis by (auto simp: Let_def)
  qed
qed auto

lemma bits_active: "n < 256 \<Longrightarrow> bit (nvic_en b (n div 32) AND nvic_pend b (n div 32)) (n mod 32) = irq_active b n"
  by (auto simp: irq_active_def bit_and_iff)

text \<open>
  Interrupt arbitration: \<open>next_irq\<close> returns an interrupt that is enabled and pending,
  and the lowest-numbered one; it returns none only when no enabled interrupt is pending.
\<close>

theorem next_irq_lowest:
  "(case next_irq b of
      Some n \<Rightarrow> irq_active b n \<and> (\<forall>m. irq_active b m \<longrightarrow> n \<le> m)
    | None \<Rightarrow> (\<forall>m. \<not> irq_active b m))"
proof (cases "next_irq b")
  case None
  then have z: "nvic_en b j AND nvic_pend b j = 0" if "j < 8" for j
    using that by (simp add: next_irq_def next_irq_from_None)
  have "\<not> irq_active b m" for m
  proof
    assume a: "irq_active b m"
    then have "m div 32 < 8" by (auto simp: irq_active_def)
    with a z [of "m div 32"] bits_active [of m b] show False by (auto simp: irq_active_def)
  qed
  with None show ?thesis by simp
next
  case (Some n)
  then obtain j where j: "j < 8" "n div 32 = j" "bit (nvic_en b j AND nvic_pend b j) (n mod 32)"
    "\<forall>m. m < n \<longrightarrow> \<not> bit (nvic_en b (m div 32) AND nvic_pend b (m div 32)) (m mod 32)"
    unfolding next_irq_def using next_irq_from_Some [of b 0 8 n] by auto
  have n: "n < 256" using j(1,2) by linarith
  have "n \<le> m" if "irq_active b m" for m
    using j(4) that bits_active [of m b] by (metis irq_active_def leI)
  with Some j n bits_active [of n b] show ?thesis by simp
qed


theorem next_irq_lowest_witness:
  "\<exists>n. next_irq (bus_new\<lparr>nvic_en := (\<lambda>_. 0x70), nvic_pend := (\<lambda>_. 0x60)\<rparr>) = Some n \<and> n \<le> 6"
proof -
  let ?b = "bus_new\<lparr>nvic_en := (\<lambda>_. 0x70), nvic_pend := (\<lambda>_. 0x60)\<rparr>"
  have "irq_active ?b 6" by (simp add: irq_active_def)
  with next_irq_lowest [of ?b] show ?thesis by (auto split: option.splits)
qed

lemma write32_ram_frame:
  assumes "ram_ok b a 4"
  shows "write32 b a v = b\<lparr>rams := rams (write32 b a v),
    bus_writes := bus_writes b @ (if bus_rec b then [(a, v, 4)] else [])\<rparr>"
proof -
  obtain i off where r: "ram_for b a 4 = Some (i, off)" "ram_in_bounds b i off 4"
    using assms by (auto elim: ram_okE)
  moreover have "ram_in_bounds (rec_write b a v 4) i off 4" using r(2) by (simp add: ram_in_bounds_def)
  ultimately show ?thesis
    by (simp add: write32_ram [OF assms] ram_store_def ram_put_def rec_write_def)
qed

lemma write32_ram_bounds:
  assumes "ram_ok b a 4"
  shows "map ram_base (rams (write32 b a v)) = map ram_base (rams b) \<and>
    map ram_len (rams (write32 b a v)) = map ram_len (rams b)"
  unfolding write32_ram [OF assms] by (simp add: ram_store_def Let_def split: option.split)

text \<open>
  C28: RAM is a store: a word written at an address backed by RAM is what the next read there
  returns, every word elsewhere in RAM reads as before, and the bus after the store is the bus
  before it in every other component. The one other change is the log of written words, which gets
  the write appended while the bus records (lockstep comparison) and stays as it is otherwise.
\<close>

theorem bus_ram_read_after_write:
  assumes "ram_ok b a 4"
  shows "fst (read32 (write32 b a v) a) = v \<and>
         (\<forall>c. ram_ok b c 4 \<and> words_apart a c \<longrightarrow> fst (read32 (write32 b a v) c) = fst (read32 b c)) \<and>
         map ram_base (rams (write32 b a v)) = map ram_base (rams b) \<and>
         map ram_len (rams (write32 b a v)) = map ram_len (rams b) \<and>
         write32 b a v = b\<lparr>rams := rams (write32 b a v),
           bus_writes := bus_writes b @ (if bus_rec b then [(a, v, 4)] else [])\<rparr>"
  using ram.rd_same [OF assms] ram.rd_other [OF assms] write32_ram_frame [OF assms]
    write32_ram_bounds [OF assms] assms
  by blast

theorem bus_ram_read_after_write_witness:
  "fst (read32 (write32 (install_memory bus_new) 0x20000010 0xCAFEF00D) 0x20000010) = 0xCAFEF00D"
  by (rule bus_ram_read_after_write [THEN conjunct1])
    (simp add: ram_ok_def install_memory_def add_ram_def bus_new_def fold_addr_def intercepted_def
      in_range_def ram_for_def ram_in_bounds_def)

text \<open>
  The TrustZone aliases are the same memory: with secure aliasing on, an access of
  any width to the secure alias of the flash or of the main SRAM does exactly what the
  access to the non-secure address does.
\<close>

theorem secure_alias_same_memory:
  assumes "secure_alias b" and "a < 0x100000 \<or> in_range 0x20000000 0x20080000 a"
  shows "read32 b (a + SECURE_ALIAS_BIT) = read32 b a \<and> read16 b (a + SECURE_ALIAS_BIT) = read16 b a \<and>
         read8 b (a + SECURE_ALIAS_BIT) = read8 b a \<and>
         write32 b (a + SECURE_ALIAS_BIT) v = write32 b a v \<and>
         write16 b (a + SECURE_ALIAS_BIT) (ucast v) = write16 b a (ucast v) \<and>
         write8 b (a + SECURE_ALIAS_BIT) (ucast v) = write8 b a (ucast v)"
proof -
  have u: "unat (a + SECURE_ALIAS_BIT) = unat a + 0x10000000"
    using assms(2) by (subst unat_add_lem [THEN iffD1]) (auto simp: in_range_def word_less_nat_alt)
  have "fold_addr b (a + SECURE_ALIAS_BIT) = a"
    unfolding fold_addr_eq [OF assms(1)] using assms(2)
    by (auto simp: in_range_def word_less_nat_alt word_le_nat_alt u)
  moreover have "fold_addr b a = a"
    unfolding fold_addr_eq [OF assms(1)] using assms(2)
    by (auto simp: in_range_def word_less_nat_alt word_le_nat_alt)
  ultimately show ?thesis
    by (simp add: read32_def read16_def read8_def write32_def write32_gen_def write16_def write8_def Let_def)
qed

theorem secure_alias_same_memory_witness:
  "read32 (add_ram (bus_new\<lparr>secure_alias := True\<rparr>) 0x20000000 0x1000) 0x30000010 =
   read32 (add_ram (bus_new\<lparr>secure_alias := True\<rparr>) 0x20000000 0x1000) 0x20000010"
proof -
  let ?b = "add_ram (bus_new\<lparr>secure_alias := True\<rparr>) 0x20000000 0x1000"
  have "read32 ?b (0x20000010 + SECURE_ALIAS_BIT) = read32 ?b 0x20000010"
    by (rule secure_alias_same_memory [THEN conjunct1]) (simp_all add: add_ram_def bus_new_def in_range_def)
  then show ?thesis by simp
qed

section \<open>Interrupt collection\<close>

lemma pend_irq_bits:
  "bit (nvic_pend (pend_irq b n) w) k = (bit (nvic_pend b w) k \<or> (w = n div 32 \<and> k = n mod 32))"
proof -
  have "n mod 32 < 32" by simp
  then show ?thesis by (auto simp: pend_irq_def bit_or_iff bit_pow2)
qed

lemma pend_all_bits:
  "bit (nvic_pend (foldl (\<lambda>b i. pend_irq b (unat i)) b is) w) k =
     (bit (nvic_pend b w) k \<or> (\<exists>i \<in> set is. w = unat i div 32 \<and> k = unat i mod 32))"
  by (induction "is" arbitrary: b) (auto simp: pend_irq_bits)

definition raising :: "dev_slot list \<Rightarrow> u16 list" where
  "raising ds = List.map_filter (\<lambda>s. fst (dev_take_irq (dv_dev s))) ds"

lemma poll_devs_all:
  "length acc + length (raising ds) \<le> 8 \<Longrightarrow> snd (poll_devs ds acc) = acc @ raising ds"
proof (induction ds arbitrary: acc)
  case Nil
  then show ?case by (simp add: raising_def map_filter_def)
next
  case (Cons s ds)
  show ?case
  proof (cases "fst (dev_take_irq (dv_dev s))")
    case None
    with Cons show ?thesis by (simp add: raising_def map_filter_simps split_def Let_def)
  next
    case (Some i)
    with Cons.prems have "length (acc @ [i]) + length (raising ds) \<le> 8"
      by (simp add: raising_def map_filter_simps)
    from Cons.IH [OF this] Some Cons.prems show ?thesis
      by (simp add: raising_def map_filter_simps split_def Let_def)
  qed
qed

lemma collect_bus_mono:
  assumes "bit (nvic_pend b w) k"
  shows "bit (nvic_pend (collect_bus_irqs b) w) k"
proof -
  define b2 where "b2 = (if eth_irq (eth b)
      then pend_irq (b\<lparr>eth := (eth b)\<lparr>eth_irq := False\<rparr>\<rparr>) ETH_IRQ else b)"
  have 2: "bit (nvic_pend b2 w) k" using assms by (simp add: b2_def pend_irq_bits)
  define b3 where "b3 = (case sp_flash b2 of
      Some f \<Rightarrow> (case take_erase_irq f of
                  (raise, f1) \<Rightarrow> let b' = b2\<lparr>sp_flash := Some f1\<rparr>
                                in if raise then pend_irq b' FLASH_IRQ else b')
    | None \<Rightarrow> b2)"
  have 3: "bit (nvic_pend b3 w) k"
    using 2 by (simp add: b3_def Let_def pend_irq_bits split: option.split prod.split)
  show ?thesis
    unfolding collect_bus_irqs_def Let_def b2_def [symmetric] b3_def [unfolded Let_def, symmetric]
    using 3 by (simp add: pend_irq_bits)
qed

text \<open>
  No interrupt is lost in collection: as long as at most eight devices raise at once,
  every interrupt a device raises since the last poll is pending afterwards, and so is
  everything that was pending before.
\<close>

theorem collect_irqs_loses_nothing:
  assumes "dev_touched b" and "length (raising (devs b)) \<le> 8"
  shows "(\<forall>i \<in> set (raising (devs b)). bit (nvic_pend (collect_irqs b) (unat i div 32)) (unat i mod 32)) \<and>
         (\<forall>w k. bit (nvic_pend b w) k \<longrightarrow> bit (nvic_pend (collect_irqs b) w) k)"
proof -
  have "snd (poll_devs (devs b) []) = raising (devs b)" using poll_devs_all [of "[]" "devs b"] assms(2) by simp
  then have "bit (nvic_pend (collect_devices b) w) k =
      (bit (nvic_pend b w) k \<or> (\<exists>i \<in> set (raising (devs b)). w = unat i div 32 \<and> k = unat i mod 32))" for w k
    using assms(1) by (simp add: collect_devices_def split_def Let_def pend_all_bits)
  then show ?thesis unfolding collect_irqs_def by (auto intro!: collect_bus_mono)
qed

theorem collect_irqs_loses_nothing_witness:
  "bit (nvic_pend (collect_irqs ((add_device bus_new 0x40014400 0x400
     (Dev_Tim16 (tim16_write tim16_new 0 1)))\<lparr>dev_touched := True\<rparr>)) 3) 21"
  using collect_irqs_loses_nothing [of "(add_device bus_new 0x40014400 0x400
     (Dev_Tim16 (tim16_write tim16_new 0 1)))\<lparr>dev_touched := True\<rparr>"]
  by (simp add: raising_def map_filter_simps add_device_def bus_new_def dev_take_irq_def
      tim16_take_irq_def tim16_write_def tim16_new_def)

lemma top_cases:
  assumes "0xFFFFFFFC \<le> (a :: u32)"
  shows "a = 0xFFFFFFFC \<or> a = 0xFFFFFFFD \<or> a = 0xFFFFFFFE \<or> a = 0xFFFFFFFF"
proof -
  have "unat a \<le> 0xFFFFFFFF" using unsigned_less [of a, where 'a = nat] by simp
  moreover have "0xFFFFFFFC \<le> unat a" using assms by (simp add: word_le_nat_alt)
  ultimately have "unat a = 0xFFFFFFFC \<or> unat a = 0xFFFFFFFD \<or> unat a = 0xFFFFFFFE \<or> unat a = 0xFFFFFFFF"
    by linarith
  then show ?thesis by (auto simp: word_unat_eq_iff)
qed

lemma top_not_intercepted: "0xFFFFFFFC \<le> a \<Longrightarrow> \<not> intercepted b a \<and> fold_addr b a = a"
  by (drule top_cases, elim disjE)
    (simp_all add: intercepted_def fold_addr_def in_range_def rom_read32_def)

text \<open>An access whose end wraps passes the bound check of a first region at address zero.\<close>

lemma top_ram_for:
  assumes "rams b = r # rs" and "ram_base r = 0" and "4 \<le> ram_len r" and "n \<le> 4"
    and "2 ^ 32 \<le> unat a + n"
  shows "ram_for b a (of_nat n) = Some (0, unat a)" and "\<not> ram_in_bounds b 0 (unat a) n"
proof -
  have u: "unat a < 2 ^ 32" "unat (ram_len r) < 2 ^ 32" "unat (of_nat n :: u32) = n"
    using unsigned_less [of a, where 'a = nat] unsigned_less [of "ram_len r", where 'a = nat] assms(4)
    by (simp_all add: unat_of_nat)
  have "unat (a + of_nat n) = (unat a + n) mod 2 ^ 32" by (simp add: unat_word_ariths u(3))
  also have "\<dots> = unat a + n - 2 ^ 32" using assms(4,5) u(1) by (simp add: le_mod_geq)
  finally have "unat (a + of_nat n) < 4" using u(1) assms(4) by linarith
  moreover have "4 \<le> unat (ram_len r)" using assms(3) by (simp add: word_le_nat_alt)
  ultimately have "a + of_nat n \<le> ram_len r" by (simp add: word_le_nat_alt)
  then show "ram_for b a (of_nat n) = Some (0, unat a)" by (simp add: ram_for_def assms(1,2))
  show "\<not> ram_in_bounds b 0 (unat a) n" using u(2) assms(5) by (simp add: ram_in_bounds_def assms(1))
qed

lemma top_flash_window: "0xFFFFFFFC \<le> a \<Longrightarrow> flash_window b a = None"
  using top_not_intercepted flash_window_ram by blast

text \<open>
  C40: An access of any width whose end lies beyond the top of the address space stops the emulator,
  on every bus whose first RAM region starts at address zero and holds at least a word, as the
  service processor's does: the end address wraps, so the bound check of \<open>ram_for\<close> passes for that
  region, and the slice behind it is out of range. Reads and writes of words, halfwords and bytes
  all do it, whatever flash, devices and interrupt state the bus has; nothing but the panic (and
  the write's entry in the log, while recording) comes of the access.
\<close>

theorem bus_top_of_memory_panics:
  assumes "rams b = r # rs" and "ram_base r = 0" and "4 \<le> ram_len r"
  shows "(2 ^ 32 \<le> unat a + 4 \<longrightarrow>
      snd (read32 b a) = b\<lparr>bus_panicked := True\<rparr> \<and>
      write32 b a v = (rec_write b a v 4)\<lparr>bus_panicked := True\<rparr>) \<and>
    (2 ^ 32 \<le> unat a + 2 \<longrightarrow>
      snd (read16 b a) = b\<lparr>bus_panicked := True\<rparr> \<and>
      write16 b a h = (rec_write b a (ucast h) 2)\<lparr>bus_panicked := True\<rparr>) \<and>
    (2 ^ 32 \<le> unat a + 1 \<longrightarrow>
      snd (read8 b a) = b\<lparr>bus_panicked := True\<rparr> \<and>
      write8 b a x = (rec_write b a (ucast x) 1)\<lparr>bus_panicked := True\<rparr>)"
proof (intro conjI impI)
  have top: "0xFFFFFFFC \<le> a" if "2 ^ 32 \<le> unat a + n" "n \<le> 4" for n
    using that by (simp add: word_le_nat_alt)
  have rec: "ram_in_bounds (rec_write b a w n) i off n = ram_in_bounds b i off n" for w n i off
    by (simp add: ram_in_bounds_def)
  note at = top_ram_for [OF assms]
  { assume h: "2 ^ 32 \<le> unat a + 4"
    have t: "\<not> intercepted b a" "fold_addr b a = a" using top_not_intercepted top [OF h] by simp_all
    show "snd (read32 b a) = b\<lparr>bus_panicked := True\<rparr>"
      using at [of 4, OF _ h] by (simp add: read32_not_intercepted [OF t] read32_tail_def ram_get_def)
    show "write32 b a v = (rec_write b a v 4)\<lparr>bus_panicked := True\<rparr>"
      using at [of 4, OF _ h] rec [of v 4 0 "unat a"]
      by (simp add: write32_def write32_not_intercepted [OF t] write32_tail_def ram_put_def) }
  { assume h: "2 ^ 32 \<le> unat a + 2"
    have t: "fold_addr b a = a" "flash_window b a = None"
      using top_not_intercepted top_flash_window top [OF h] by simp_all
    show "snd (read16 b a) = b\<lparr>bus_panicked := True\<rparr>"
      using at [of 2, OF _ h] by (simp add: read16_def t ram_get_def)
    show "write16 b a h' = (rec_write b a (ucast h') 2)\<lparr>bus_panicked := True\<rparr>" for h'
      using at [of 2, OF _ h] rec [of "ucast h'" 2 0 "unat a"] by (simp add: write16_def t ram_put_def) }
  { assume h: "2 ^ 32 \<le> unat a + 1"
    have t: "fold_addr b a = a" "flash_window b a = None"
      using top_not_intercepted top_flash_window top [OF h] by simp_all
    show "snd (read8 b a) = b\<lparr>bus_panicked := True\<rparr>"
      using at [of 1, OF _ h] by (simp add: read8_def t ram_get_def)
    show "write8 b a x' = (rec_write b a (ucast x') 1)\<lparr>bus_panicked := True\<rparr>" for x'
      using at [of 1, OF _ h] rec [of "ucast x'" 1 0 "unat a"] by (simp add: write8_def t ram_put_def) }
qed

theorem bus_top_of_memory_panics_witness:
  "snd (read32 (install_memory bus_new) 0xFFFFFFFE) = (install_memory bus_new)\<lparr>bus_panicked := True\<rparr> \<and>
   write8 (install_memory bus_new) 0xFFFFFFFF 1 = (install_memory bus_new)\<lparr>bus_panicked := True\<rparr>"
proof -
  let ?b = "install_memory bus_new"
  obtain r rs where r: "rams ?b = r # rs" "ram_base r = 0" "4 \<le> ram_len r"
    by (simp add: install_memory_def add_ram_def bus_new_def)
  have "rec_write ?b c w n = ?b" for c w n
    by (simp add: rec_write_def install_memory_def add_ram_def bus_new_def)
  then show ?thesis
    using bus_top_of_memory_panics [OF r, where a = "0xFFFFFFFE"]
      bus_top_of_memory_panics [OF r, where a = "0xFFFFFFFF" and x = 1] by simp
qed

end
