(* ===== verification/Cpu_State.thy ===== *)
theory Cpu_State
  imports Bus_Ram
begin

text \<open>
  The processor core's state (\<open>Cpu\<close> in \<open>src/cpu.rs\<close>), its condition codes, the packed
  status registers, the banked stack pointers and the debugger's register view. Fields
  that only feed logging or disassembly are left out. The instruction type is the part
  of the \<open>yaxpeax-arm\<close> decoder's output the interpreter looks at; the decoder itself is
  a function of the environment.
\<close>

unbundle bit_operations_syntax

section \<open>Decoded instructions\<close>

datatype cond = AL | EQ | NE | HS | LO | MI | PL | VS | VC | HI | LS | GE | LT | GT | LE

datatype shift_style = LSL | LSR | ASR | ROR | RRX

datatype reg_shift = RegImm nat shift_style nat | RegReg nat shift_style nat

datatype operand =
    Reg nat
  | RegWBack nat bool
  | RegList u16
  | Imm32 u32
  | Imm12 u16
  | RegShift reg_shift
  | RegDeref nat
  | RegDerefPreindexOffset nat u16 bool bool
  | RegDerefPostindexOffset nat u16 bool bool
  | RegDerefPreindexReg nat nat bool bool
  | RegDerefPreindexRegShift nat reg_shift bool bool
  | Ror nat
  | Nothing
  | OtherOperand

datatype operands = Ops (op0: operand) (op1: operand) (op2: operand) (op3: operand)

text \<open>
  \<open>Opcode\<close>, grouped by the arms of \<open>execute\<close>. The data-processing opcodes carry the
  \<open>Alu\<close> operation they select; any opcode the interpreter has no arm for is \<open>Op_Other\<close>.
\<close>

datatype alu = Add | Adc | Sub | Sbc | Rsb | And | Orr | Orn | Eor | Bic

datatype hint_op = Op_NOP | Op_DSB | Op_DMB | Op_ISB | Op_YIELD | Op_WFE | Op_WFI | Op_IT

datatype move_op = Op_MOV | Op_MOVT | Op_MVN | Op_CMP | Op_CMN | Op_TST | Op_TEQ

datatype ext_op =
    Op_UXTB | Op_UXTH | Op_SXTB | Op_SXTH | Op_UXTAB | Op_UXTAH | Op_SXTAB | Op_SXTAH
  | Op_UXTB16 | Op_SXTB16 | Op_UXTAB16 | Op_SXTAB16

datatype mul_op =
    Op_MUL | Op_MLA | Op_MLS | Op_UMULL | Op_SMULL | Op_UMLAL | Op_SMLAL | Op_UMAAL
  | Op_UDIV | Op_SDIV | Op_SMLA bool bool

datatype bit_op =
    Op_CLZ | Op_REV | Op_REV16 | Op_RBIT | Op_REVSH
  | Op_BFI | Op_BFC | Op_UBFX | Op_SBFX | Op_PKHBT | Op_PKHTB

datatype mem_op =
    Op_LDR | Op_LDRB | Op_LDRH | Op_LDRSB | Op_LDRSH | Op_STR | Op_STRB | Op_STRH
  | Op_LDRD | Op_STRD | Op_STRBT | Op_STRHT | Op_STRT
  | Op_LDRBT | Op_LDRHT | Op_LDRT | Op_LDRSBT | Op_LDRSHT
  | Op_PUSH | Op_POP | Op_STM | Op_LDM

datatype excl_op =
    Op_LDREX | Op_LDREXB | Op_LDREXH | Op_STREX | Op_STREXB | Op_STREXH
  | Op_V8M \<comment> \<open>LDA, STL, LDAEX, STLEX and their B and H forms: one arm\<close>

datatype branch_op = Op_CBZ | Op_CBNZ | Op_B | Op_BL | Op_BLX | Op_BX | Op_TBB | Op_TBH

datatype sys_op = Op_MRS | Op_MSR | Op_CPS bool | Op_SVC | Op_UDF | Op_BKPT

datatype opcode =
    Hint hint_op | Move move_op | Op_Alu alu | Op_Shift shift_style | Ext ext_op | Mul mul_op
  | Bits bit_op | Mem mem_op | Excl excl_op | Branch branch_op | Sys sys_op | Op_Other

record insn =
  i_opcode :: opcode
  i_ops :: operands
  i_cond :: cond
  i_s :: bool

text \<open>\<open>Decoded\<close>: the raw word, the encoded length and the instruction, if it decodes.\<close>

record decoded =
  d_raw :: u32
  d_len :: u32
  d_inst :: "insn option"

section \<open>State\<close>

datatype cpu_mode = Thread | Handler

datatype rom_call = RomIdle | RomSettling nat u32 bool

record cpu =
  r :: "nat \<Rightarrow> u32"
  pc :: u32
  nf :: bool
  zf :: bool
  cf :: bool
  vf :: bool
  qf :: bool
  mode :: cpu_mode
  control :: u32
  primask :: bool
  basepri :: u32
  faultmask :: bool
  ipsr :: u32
  msp :: u32
  psp :: u32
  sp_is_psp :: bool
  itstate :: u8
  s_regs :: "nat \<Rightarrow> u32"
  fpscr :: u32
  cur_insn :: u32
  cycles :: u64
  entered_task :: bool
  bad_ret_dumps :: u32
  last_vfp :: bool
  last_it :: bool
  last_sys :: bool
  cur_in_it :: bool
  cur_setflags :: bool
  systick :: u32
  wfi_throttle :: bool
  idle_skip :: u32
  tick_events :: u64
  sp_tick_credit :: u32
  tick_frozen :: bool
  halted :: bool
  debug_en :: bool
  bkpt_hit :: bool
  rom_traps :: bool
  rom_call :: rom_call
  dcache :: "u32 \<rightharpoonup> decoded"
  flash_cache :: "u32 \<times> u32"
  syst_csr :: u32
  syst_rvr :: u32
  code_ranges :: "(u32 \<times> u32) list"
  vtor_fallback :: u32
  wfi_idle :: bool

abbreviation (input) SP :: nat where "SP \<equiv> 13"
abbreviation (input) LR :: nat where "LR \<equiv> 14"
abbreviation (input) ITCM_HI :: u32 where "ITCM_HI \<equiv> 0x10000"

definition cpu_new :: cpu where
  "cpu_new = \<lparr>r = (\<lambda>_. 0), pc = 0, nf = False, zf = False, cf = False, vf = False, qf = False,
     mode = Thread, control = 0, primask = False, basepri = 0, faultmask = False, ipsr = 0,
     msp = 0, psp = 0, sp_is_psp = False, itstate = 0, s_regs = (\<lambda>_. 0), fpscr = 0,
     cur_insn = 0, cycles = 0, entered_task = False, bad_ret_dumps = 0, last_vfp = False,
     last_it = False, last_sys = False, cur_in_it = False, cur_setflags = False, systick = 0,
     wfi_throttle = False, idle_skip = 0, tick_events = 0, sp_tick_credit = 0,
     tick_frozen = False, halted = False, debug_en = False, bkpt_hit = False, rom_traps = False,
     rom_call = RomIdle, dcache = Map.empty, flash_cache = (0x08000000, 0x0A000000),
     syst_csr = 0, syst_rvr = 1, code_ranges = [(0, ITCM_HI), (0x08000000, 0x08200000)],
     vtor_fallback = 0x08000000, wfi_idle = False\<rparr>"

type_synonym machine = "cpu \<times> bus"

section \<open>Registers and status words\<close>

definition set_r :: "cpu \<Rightarrow> nat \<Rightarrow> u32 \<Rightarrow> cpu" where
  "set_r c i v = c\<lparr>r := (r c)(i := v)\<rparr>"

definition set_s :: "cpu \<Rightarrow> nat \<Rightarrow> u32 \<Rightarrow> cpu" where
  "set_s c i v = c\<lparr>s_regs := (s_regs c)(i := v)\<rparr>"

definition read_reg :: "cpu \<Rightarrow> nat \<Rightarrow> u32" where
  "read_reg c i = (if i = 15 then cur_insn c + 4 else r c i)"

definition write_reg :: "cpu \<Rightarrow> nat \<Rightarrow> u32 \<Rightarrow> cpu" where
  "write_reg c i v = (if i = 15 then c\<lparr>pc := v AND NOT 1\<rparr> else set_r c i v)"

definition apsr :: "cpu \<Rightarrow> u32" where
  "apsr c = push_bit 31 (b2w (nf c)) OR push_bit 30 (b2w (zf c)) OR push_bit 29 (b2w (cf c))
     OR push_bit 28 (b2w (vf c)) OR push_bit 27 (b2w (qf c))"

definition xpsr :: "cpu \<Rightarrow> u32" where
  "xpsr c = apsr c OR (ipsr c AND 0x1ff) OR push_bit 24 1"

definition current_msp :: "cpu \<Rightarrow> u32" where
  "current_msp c = (if sp_is_psp c then msp c else r c SP)"

definition current_psp :: "cpu \<Rightarrow> u32" where
  "current_psp c = (if sp_is_psp c then r c SP else psp c)"

text \<open>\<open>build_xpsr\<close> packs ITSTATE into EPSR; \<open>itstate_from_xpsr\<close> is its inverse.\<close>

definition build_xpsr :: "cpu \<Rightarrow> u32" where
  "build_xpsr c =
     (let it_hi = ucast (drop_bit 2 (itstate c) AND 0x3F); it_lo = ucast (itstate c AND 0x3) in
      push_bit 31 (b2w (nf c)) OR push_bit 30 (b2w (zf c)) OR push_bit 29 (b2w (cf c))
      OR push_bit 28 (b2w (vf c)) OR push_bit 27 (b2w (qf c)) OR push_bit 25 it_lo
      OR push_bit 24 1 OR push_bit 10 it_hi OR (ipsr c AND 0x1ff))"

definition itstate_from_xpsr :: "u32 \<Rightarrow> u8" where
  "itstate_from_xpsr x = ucast (push_bit 2 (drop_bit 10 x AND 0x3F) OR (drop_bit 25 x AND 0x3))"

definition set_xpsr_flags :: "cpu \<Rightarrow> u32 \<Rightarrow> cpu" where
  "set_xpsr_flags c x = c\<lparr>nf := bit_set x 31, zf := bit_set x 30, cf := bit_set x 29,
     vf := bit_set x 28, qf := bit_set x 27\<rparr>"

definition set_control :: "cpu \<Rightarrow> u32 \<Rightarrow> cpu" where
  "set_control c0 v =
     (let was_psp = sp_is_psp c0; c = c0\<lparr>control := v AND 7\<rparr>;
          now_psp = (mode c = Thread \<and> control c AND 2 \<noteq> 0) in
      if was_psp \<noteq> now_psp then
        (let c1 = (if was_psp then c\<lparr>psp := r c SP\<rparr> else c\<lparr>msp := r c SP\<rparr>) in
         (set_r c1 SP (if now_psp then psp c1 else msp c1))\<lparr>sp_is_psp := now_psp\<rparr>)
      else c)"

definition set_msp :: "cpu \<Rightarrow> u32 \<Rightarrow> cpu" where
  "set_msp c v = (let c1 = c\<lparr>msp := v\<rparr> in if \<not> sp_is_psp c1 then set_r c1 SP v else c1)"

definition set_psp :: "cpu \<Rightarrow> u32 \<Rightarrow> cpu" where
  "set_psp c v = (let c1 = c\<lparr>psp := v\<rparr> in if sp_is_psp c1 then set_r c1 SP v else c1)"

section \<open>The debugger's register file\<close>

definition gdb_reg :: "cpu \<Rightarrow> nat \<Rightarrow> u32" where
  "gdb_reg c n =
     (if n \<le> 12 then r c n
      else if n = 13 then r c SP
      else if n = 14 then r c LR
      else if n = 15 then pc c
      else if n = 16 then xpsr c
      else if n = 17 then current_msp c
      else if n = 18 then current_psp c
      else if n = 20 then
        b2w (primask c) OR push_bit 8 (basepri c) OR push_bit 16 (b2w (faultmask c)) OR push_bit 24 (control c)
      else if n = 33 then fpscr c
      else if 64 \<le> n \<and> n \<le> 95 then s_regs c (n - 64)
      else 0)"

definition set_gdb_reg :: "cpu \<Rightarrow> nat \<Rightarrow> u32 \<Rightarrow> cpu" where
  "set_gdb_reg c n v =
     (if n \<le> 12 then set_r c n v
      else if n = 13 then set_r c SP v
      else if n = 14 then set_r c LR v
      else if n = 15 then c\<lparr>pc := v AND NOT 1\<rparr>
      else if n = 16 then (set_xpsr_flags c v)\<lparr>ipsr := v AND 0x1ff\<rparr>
      else if n = 17 then set_msp c v
      else if n = 18 then set_psp c v
      else if n = 20 then
        set_control (c\<lparr>primask := v AND 1 \<noteq> 0, basepri := drop_bit 8 v AND 0xff,
          faultmask := drop_bit 16 v AND 1 \<noteq> 0\<rparr>) (drop_bit 24 v)
      else if n = 33 then c\<lparr>fpscr := v\<rparr>
      else if 64 \<le> n \<and> n \<le> 95 then set_s c (n - 64) v
      else c)"

section \<open>Configuration, decode cache, reset\<close>

definition set_flash_cache :: "cpu \<Rightarrow> u32 \<times> u32 \<Rightarrow> cpu" where
  "set_flash_cache c w = c\<lparr>flash_cache := w\<rparr>"

definition set_code_ranges :: "cpu \<Rightarrow> (u32 \<times> u32) list \<Rightarrow> cpu" where
  "set_code_ranges c ws = c\<lparr>code_ranges := ws\<rparr>"

definition set_vtor_fallback :: "cpu \<Rightarrow> u32 \<Rightarrow> cpu" where
  "set_vtor_fallback c b = c\<lparr>vtor_fallback := b\<rparr>"

definition is_code :: "cpu \<Rightarrow> u32 \<Rightarrow> bool" where
  "is_code c a = (\<exists>(lo, hi) \<in> set (code_ranges c). lo \<le> a \<and> a < hi)"

definition invalidate_decode :: "cpu \<Rightarrow> u32 \<Rightarrow> cpu" where
  "invalidate_decode c a = c\<lparr>dcache := (dcache c)(a - 2 := None, a := None, a + 2 := None)\<rparr>"

definition flush_decode_cache :: "cpu \<Rightarrow> cpu" where
  "flush_decode_cache c = c\<lparr>dcache := Map.empty\<rparr>"

definition cpu_reset :: "cpu \<Rightarrow> u32 \<Rightarrow> u32 \<Rightarrow> cpu" where
  "cpu_reset c sp a = (set_r (c\<lparr>msp := sp\<rparr>) SP sp)\<lparr>sp_is_psp := False, pc := a, mode := Thread\<rparr>"

definition reset_for_reboot :: "cpu \<Rightarrow> u32 \<Rightarrow> u32 \<Rightarrow> cpu" where
  "reset_for_reboot c sp a = (cpu_reset c sp a)\<lparr>control := 0, primask := False, basepri := 0,
     faultmask := False, ipsr := 0, itstate := 0, psp := 0, nf := False, zf := False, cf := False,
     vf := False, qf := False, systick := 0, syst_csr := 0, syst_rvr := 0, halted := False,
     bkpt_hit := False\<rparr>"

end
