(* ===== verification/Cpu_Alu.thy ===== *)
theory Cpu_Alu
  imports Cpu_State "HOL-Library.Signed_Division"
begin

text \<open>
  The data-processing half of the interpreter: the barrel shifter, operand evaluation,
  condition codes and flags, and the arms of \<open>execute\<close> that touch registers and flags
  only (\<open>src/cpu.rs\<close>). A method returning \<open>Result<(), ()>\<close> is a \<open>cpu outcome\<close>, whose
  \<open>Err\<close> keeps what had been written before the error. Shifts by a \<open>u32\<close> amount keep
  its low five bits, as a release build does.
\<close>

unbundle bit_operations_syntax

definition shl32 :: "u32 \<Rightarrow> u32 \<Rightarrow> u32" where
  "shl32 v n = push_bit (unat (n AND 31)) v"

definition shr32 :: "u32 \<Rightarrow> u32 \<Rightarrow> u32" where
  "shr32 v n = drop_bit (unat (n AND 31)) v"

section \<open>Operands\<close>

primrec reg :: "operand \<Rightarrow> nat option" where
  "reg (Reg n) = Some n"
| "reg (RegWBack _ _) = None"
| "reg (RegList _) = None"
| "reg (Imm32 _) = None"
| "reg (Imm12 _) = None"
| "reg (RegShift _) = None"
| "reg (RegDeref _) = None"
| "reg (RegDerefPreindexOffset _ _ _ _) = None"
| "reg (RegDerefPostindexOffset _ _ _ _) = None"
| "reg (RegDerefPreindexReg _ _ _ _) = None"
| "reg (RegDerefPreindexRegShift _ _ _ _) = None"
| "reg (Ror _) = None"
| "reg Nothing = None"
| "reg OtherOperand = None"

definition imm_val :: "operand \<Rightarrow> u32 option" where
  "imm_val x = (case x of Imm32 i \<Rightarrow> Some i | Imm12 i \<Rightarrow> Some (ucast i) | _ \<Rightarrow> None)"

definition reglist :: "operand \<Rightarrow> u16 option" where
  "reglist x = (case x of RegList m \<Rightarrow> Some m | _ \<Rightarrow> None)"

definition regwback :: "operand \<Rightarrow> (nat \<times> bool) option" where
  "regwback x = (case x of RegWBack n wb \<Rightarrow> Some (n, wb) | _ \<Rightarrow> None)"

definition ror_amount :: "operands \<Rightarrow> nat" where
  "ror_amount ops =
     (case List.map_filter (\<lambda>x. case x of Ror n \<Rightarrow> Some n | _ \<Rightarrow> None) [op0 ops, op1 ops, op2 ops, op3 ops]
      of [] \<Rightarrow> 0 | n # _ \<Rightarrow> n)"

section \<open>The barrel shifter\<close>

definition shift_c :: "u32 \<Rightarrow> shift_style \<Rightarrow> nat \<Rightarrow> bool \<Rightarrow> u32 \<times> bool" where
  "shift_c v style amt cin =
     (if style = RRX then (push_bit 31 (b2w cin) OR drop_bit 1 v, v AND 1 \<noteq> 0)
      else if amt = 0 then (v, cin)
      else case style of
        LSL \<Rightarrow> if amt < 32 then (push_bit amt v, drop_bit (32 - amt) v AND 1 \<noteq> 0)
               else if amt = 32 then (0, v AND 1 \<noteq> 0) else (0, False)
      | LSR \<Rightarrow> if amt < 32 then (drop_bit amt v, drop_bit (amt - 1) v AND 1 \<noteq> 0)
               else if amt = 32 then (0, drop_bit 31 v AND 1 \<noteq> 0) else (0, False)
      | ASR \<Rightarrow> if amt < 32 then (signed_drop_bit amt v, drop_bit (amt - 1) v AND 1 \<noteq> 0)
               else (signed_drop_bit 31 v, drop_bit 31 v AND 1 \<noteq> 0)
      | ROR \<Rightarrow> (let a = amt mod 32 in
                if a = 0 then (v, drop_bit 31 v AND 1 \<noteq> 0)
                else let x = word_rotr a v in (x, drop_bit 31 x AND 1 \<noteq> 0))
      | RRX \<Rightarrow> (v, cin))"

definition do_shift :: "u32 \<Rightarrow> shift_style \<Rightarrow> nat \<Rightarrow> bool \<Rightarrow> u32" where
  "do_shift v style amt cin = fst (shift_c v style amt cin)"

definition shifted :: "cpu \<Rightarrow> (nat \<Rightarrow> u32) \<Rightarrow> reg_shift \<Rightarrow> u32" where
  "shifted c rf rs = (case rs of
     RegImm n style amt \<Rightarrow> do_shift (rf n) style amt (cf c)
   | RegReg n style m \<Rightarrow> do_shift (rf n) style (unat (rf m AND 0xff)) (cf c))"

definition opval :: "cpu \<Rightarrow> operand \<Rightarrow> u32 option" where
  "opval c x = (case x of
     Reg n \<Rightarrow> Some (read_reg c n)
   | Imm32 i \<Rightarrow> Some i
   | Imm12 i \<Rightarrow> Some (ucast i)
   | RegShift rs \<Rightarrow> Some (shifted c (read_reg c) rs)
   | _ \<Rightarrow> None)"

section \<open>Conditions and flags\<close>

definition cond_holds :: "cpu \<Rightarrow> cond \<Rightarrow> bool" where
  "cond_holds c cc = (case cc of
     AL \<Rightarrow> True | EQ \<Rightarrow> zf c | NE \<Rightarrow> \<not> zf c | HS \<Rightarrow> cf c | LO \<Rightarrow> \<not> cf c
   | MI \<Rightarrow> nf c | PL \<Rightarrow> \<not> nf c | VS \<Rightarrow> vf c | VC \<Rightarrow> \<not> vf c
   | HI \<Rightarrow> cf c \<and> \<not> zf c | LS \<Rightarrow> \<not> cf c \<or> zf c
   | GE \<Rightarrow> nf c = vf c | LT \<Rightarrow> nf c \<noteq> vf c
   | GT \<Rightarrow> \<not> zf c \<and> nf c = vf c | LE \<Rightarrow> zf c \<or> nf c \<noteq> vf c)"

definition cond_from_bits :: "u8 \<Rightarrow> cond" where
  "cond_from_bits b =
     (let n = unat (b AND 0xF); cs = [EQ, NE, HS, LO, MI, PL, VS, VC, HI, LS, GE, LT, GT, LE] in
      if n < 14 then cs ! n else AL)"

definition set_nz :: "cpu \<Rightarrow> u32 \<Rightarrow> cpu" where
  "set_nz c v = c\<lparr>nf := (sint v < 0), zf := (v = 0)\<rparr>"

definition set_cv :: "cpu \<Rightarrow> bool \<Rightarrow> bool \<Rightarrow> cpu" where
  "set_cv c cy ov = c\<lparr>cf := cy, vf := ov\<rparr>"

text \<open>\<open>overflowing_add\<close> and \<open>overflowing_sub\<close>: the wrapped result and the carry or borrow.\<close>

definition overflowing_add :: "u32 \<Rightarrow> u32 \<Rightarrow> u32 \<times> bool" where
  "overflowing_add a b = (a + b, 2 ^ 32 \<le> unat a + unat b)"

definition overflowing_sub :: "u32 \<Rightarrow> u32 \<Rightarrow> u32 \<times> bool" where
  "overflowing_sub a b = (a - b, a < b)"

definition flags_add :: "cpu \<Rightarrow> u32 \<Rightarrow> u32 \<Rightarrow> cpu" where
  "flags_add c a b = (let (res, carry) = overflowing_add a b in
     set_cv (set_nz c res) carry (drop_bit 31 ((a XOR NOT b) AND (a XOR res)) AND 1 \<noteq> 0))"

definition flags_sub :: "cpu \<Rightarrow> u32 \<Rightarrow> u32 \<Rightarrow> cpu" where
  "flags_sub c a b = (let (res, borrow) = overflowing_sub a b in
     set_cv (set_nz c res) (\<not> borrow) (drop_bit 31 ((a XOR b) AND (a XOR res)) AND 1 \<noteq> 0))"

text \<open>The flags of \<open>a + b + cin\<close>, as the ADC and SBC arms of \<open>alu\<close> compute them.\<close>

definition flags_carry :: "cpu \<Rightarrow> u32 \<Rightarrow> u32 \<Rightarrow> u32 \<Rightarrow> cpu" where
  "flags_carry c a b cin = (let (r1, c1) = overflowing_add a b; (r2, c2) = overflowing_add r1 cin in
     set_cv (set_nz c r2) (c1 \<or> c2) (drop_bit 31 ((a XOR NOT b) AND (a XOR r2)) AND 1 \<noteq> 0))"

section \<open>alu, shift_op, extend, extend16\<close>

definition alu_result :: "alu \<Rightarrow> u32 \<Rightarrow> u32 \<Rightarrow> u32 \<Rightarrow> u32" where
  "alu_result op a b cin = (case op of
     Add \<Rightarrow> a + b | Sub \<Rightarrow> a - b | Rsb \<Rightarrow> b - a | Adc \<Rightarrow> a + b + cin | Sbc \<Rightarrow> a - b - (1 - cin)
   | And \<Rightarrow> a AND b | Orr \<Rightarrow> a OR b | Orn \<Rightarrow> a OR NOT b | Eor \<Rightarrow> a XOR b | Bic \<Rightarrow> a AND NOT b)"

definition alu_flags :: "cpu \<Rightarrow> alu \<Rightarrow> u32 \<Rightarrow> u32 \<Rightarrow> u32 \<Rightarrow> u32 \<Rightarrow> cpu" where
  "alu_flags c op a b cin res = (case op of
     Add \<Rightarrow> flags_add c a b | Adc \<Rightarrow> flags_carry c a b cin
   | Sub \<Rightarrow> flags_sub c a b | Rsb \<Rightarrow> flags_sub c b a
   | Sbc \<Rightarrow> flags_carry c a (NOT b) cin
   | _ \<Rightarrow> set_nz c res)"

definition alu_operands :: "cpu \<Rightarrow> operands \<Rightarrow> (nat \<times> u32 \<times> u32) option" where
  "alu_operands c ops = (case reg (op0 ops) of None \<Rightarrow> None | Some rd \<Rightarrow>
     if op2 ops = Nothing then
       (case opval c (op1 ops) of None \<Rightarrow> None | Some b \<Rightarrow> Some (rd, read_reg c rd, b))
     else (case reg (op1 ops) of None \<Rightarrow> None | Some rn \<Rightarrow>
       (case opval c (op2 ops) of None \<Rightarrow> None | Some b \<Rightarrow>
         Some (rd, if rn = 15 then read_reg c 15 AND NOT 3 else read_reg c rn, b))))"

definition alu_exec :: "cpu \<Rightarrow> operands \<Rightarrow> alu \<Rightarrow> cpu outcome" where
  "alu_exec c ops op = need (alu_operands c ops) c (\<lambda>(rd, a, b).
     let cin = b2w (cf c); res = alu_result op a b cin; c1 = write_reg c rd res in
     Ok (if cur_setflags c1 then alu_flags c1 op a b cin res else c1))"

definition shift_op :: "cpu \<Rightarrow> operands \<Rightarrow> shift_style \<Rightarrow> cpu outcome" where
  "shift_op c ops style = need (reg (op0 ops)) c (\<lambda>rd.
     let go = (\<lambda>rm amt.
       let (res, carry) = shift_c rm style (unat (amt AND 0xff)) (cf c); c1 = write_reg c rd res in
       Ok (if cur_setflags c1 then (set_nz c1 res)\<lparr>cf := carry\<rparr> else c1)) in
     if op2 ops = Nothing then need (opval c (op1 ops)) c (\<lambda>amt. go (read_reg c rd) amt)
     else need (reg (op1 ops)) c (\<lambda>rm. need (opval c (op2 ops)) c (\<lambda>amt. go (read_reg c rm) amt)))"

text \<open>The accumulator and source operand of the plain and the A forms of the extends.\<close>

definition ext_acc :: "cpu \<Rightarrow> operands \<Rightarrow> bool \<Rightarrow> (u32 \<times> operand) option" where
  "ext_acc c ops add =
     (if add then (case reg (op1 ops) of None \<Rightarrow> None | Some rn \<Rightarrow> Some (read_reg c rn, op2 ops))
      else Some (0, op1 ops))"

definition extend :: "cpu \<Rightarrow> operands \<Rightarrow> nat \<Rightarrow> bool \<Rightarrow> bool \<Rightarrow> cpu outcome" where
  "extend c ops bits sg add = need (reg (op0 ops)) c (\<lambda>rd. need (ext_acc c ops add) c (\<lambda>(acc, rm_op).
     let rot = ror_amount ops in need (opval c rm_op) c (\<lambda>v0.
     let v = (if rot \<noteq> 0 then word_rotr rot v0 else v0);
         masked = v AND (push_bit bits 1 - 1);
         m = push_bit (bits - 1) 1;
         x = (if sg then (masked XOR m) - m else masked) in
     Ok (write_reg c rd (acc + x)))))"

definition extend16 :: "cpu \<Rightarrow> operands \<Rightarrow> bool \<Rightarrow> bool \<Rightarrow> cpu outcome" where
  "extend16 c ops sg add = need (reg (op0 ops)) c (\<lambda>rd. need (ext_acc c ops add) c (\<lambda>(acc, rm_op).
     let rot = ror_amount ops in need (opval c rm_op) c (\<lambda>v0.
     let v = (if rot \<noteq> 0 then word_rotr rot v0 else v0);
         ext = (\<lambda>b. if sg then sext8 b AND 0xFFFF else b AND 0xFF);
         lo = (ext (v AND 0xFF) + (acc AND 0xFFFF)) AND 0xFFFF;
         hi = (ext (drop_bit 16 v AND 0xFF) + (drop_bit 16 acc AND 0xFFFF)) AND 0xFFFF in
     Ok (write_reg c rd (push_bit 16 hi OR lo)))))"

definition exec_ext :: "cpu \<Rightarrow> ext_op \<Rightarrow> operands \<Rightarrow> cpu outcome" where
  "exec_ext c op ops = (case op of
     Op_UXTB \<Rightarrow> extend c ops 8 False False | Op_UXTH \<Rightarrow> extend c ops 16 False False
   | Op_SXTB \<Rightarrow> extend c ops 8 True False | Op_SXTH \<Rightarrow> extend c ops 16 True False
   | Op_UXTAB \<Rightarrow> extend c ops 8 False True | Op_UXTAH \<Rightarrow> extend c ops 16 False True
   | Op_SXTAB \<Rightarrow> extend c ops 8 True True | Op_SXTAH \<Rightarrow> extend c ops 16 True True
   | Op_UXTB16 \<Rightarrow> extend16 c ops False False | Op_SXTB16 \<Rightarrow> extend16 c ops True False
   | Op_UXTAB16 \<Rightarrow> extend16 c ops False True | Op_SXTAB16 \<Rightarrow> extend16 c ops True True)"

section \<open>Moves and compares\<close>

definition exec_cmp :: "cpu \<Rightarrow> move_op \<Rightarrow> operands \<Rightarrow> cpu outcome" where
  "exec_cmp c op ops = need (reg (op0 ops)) c (\<lambda>rn. need (opval c (op1 ops)) c (\<lambda>b.
     let a = read_reg c rn in
     Ok (case op of
         Op_CMP \<Rightarrow> flags_sub c a b
       | Op_CMN \<Rightarrow> flags_add c a b
       | Op_TST \<Rightarrow> set_nz c (a AND b)
       | Op_TEQ \<Rightarrow> set_nz c (a XOR b)
       | _ \<Rightarrow> c)))"

definition exec_move :: "cpu \<Rightarrow> move_op \<Rightarrow> operands \<Rightarrow> bool \<Rightarrow> cpu outcome" where
  "exec_move c op ops s = (case op of
     Op_MOV \<Rightarrow> need (reg (op0 ops)) c (\<lambda>rd. need (opval c (op1 ops)) c (\<lambda>v.
       let c1 = write_reg c rd v in Ok (if s then set_nz c1 v else c1)))
   | Op_MOVT \<Rightarrow> need (reg (op0 ops)) c (\<lambda>rd. need (opval c (op1 ops)) c (\<lambda>imm16.
       Ok (write_reg c rd ((read_reg c rd AND 0xffff) OR push_bit 16 imm16))))
   | Op_MVN \<Rightarrow> need (reg (op0 ops)) c (\<lambda>rd. need (opval c (op1 ops)) c (\<lambda>v.
       let c1 = write_reg c rd (NOT v) in Ok (if s then set_nz c1 (NOT v) else c1)))
   | _ \<Rightarrow> exec_cmp c op ops)"

definition exec_rrx :: "cpu \<Rightarrow> operands \<Rightarrow> cpu outcome" where
  "exec_rrx c ops = need (reg (op0 ops)) c (\<lambda>rd. need (reg (op1 ops)) c (\<lambda>rm.
     let v = read_reg c rm; res = push_bit 31 (b2w (cf c)) OR drop_bit 1 v; c1 = write_reg c rd res in
     Ok (if cur_setflags c1 then (set_nz c1 res)\<lparr>cf := v AND 1 \<noteq> 0\<rparr> else c1)))"

section \<open>Multiply and divide\<close>

text \<open>The result is written one register at a time, so a bad second destination keeps the first.\<close>

definition write_op :: "cpu \<Rightarrow> operand \<Rightarrow> u32 \<Rightarrow> cpu outcome" where
  "write_op c x v = need (reg x) c (\<lambda>rd. Ok (write_reg c rd v))"

definition write_pair :: "cpu \<Rightarrow> operands \<Rightarrow> u64 \<Rightarrow> cpu outcome" where
  "write_pair c ops p = need (reg (op0 ops)) c (\<lambda>lo.
     write_op (write_reg c lo (ucast p)) (op1 ops) (ucast (drop_bit 32 p)))"

definition get2 :: "cpu \<Rightarrow> operand \<Rightarrow> operand \<Rightarrow> (u32 \<times> u32) option" where
  "get2 c x y = (case reg x of None \<Rightarrow> None | Some n \<Rightarrow>
     (case reg y of None \<Rightarrow> None | Some m \<Rightarrow> Some (read_reg c n, read_reg c m)))"

definition get3 :: "cpu \<Rightarrow> operand \<Rightarrow> operand \<Rightarrow> operand \<Rightarrow> (u32 \<times> u32 \<times> u32) option" where
  "get3 c x y z = (case get2 c x y of None \<Rightarrow> None | Some (a, b) \<Rightarrow>
     (case reg z of None \<Rightarrow> None | Some k \<Rightarrow> Some (a, b, read_reg c k)))"

definition half_sel :: "u32 \<Rightarrow> bool \<Rightarrow> u32" where
  "half_sel v tp = sext16 (if tp then drop_bit 16 v else v)"

definition acc64 :: "u32 \<Rightarrow> u32 \<Rightarrow> u64" where
  "acc64 hi lo = push_bit 32 (ucast hi) OR ucast lo"

definition exec_mul :: "cpu \<Rightarrow> mul_op \<Rightarrow> operands \<Rightarrow> bool \<Rightarrow> cpu outcome" where
  "exec_mul c op ops s =
     (let long = (\<lambda>f. need (get2 c (op2 ops) (op3 ops)) c (\<lambda>(a, b). write_pair c ops (f a b)));
          longacc = (\<lambda>f. need (get2 c (op2 ops) (op3 ops)) c (\<lambda>(a, b).
            need (get2 c (op1 ops) (op0 ops)) c (\<lambda>(hi, lo). write_pair c ops (f a b hi lo)))) in
     case op of
     Op_MUL \<Rightarrow> need (get2 c (op1 ops) (op2 ops)) c (\<lambda>(a, b). need (reg (op0 ops)) c (\<lambda>rd.
       let c1 = write_reg c rd (a * b) in Ok (if s then set_nz c1 (a * b) else c1)))
   | Op_MLA \<Rightarrow> need (get3 c (op1 ops) (op2 ops) (op3 ops)) c (\<lambda>(a, b, k). write_op c (op0 ops) (a * b + k))
   | Op_MLS \<Rightarrow> need (get3 c (op1 ops) (op2 ops) (op3 ops)) c (\<lambda>(a, b, k). write_op c (op0 ops) (k - a * b))
   | Op_UMULL \<Rightarrow> long (\<lambda>a b. ucast a * ucast b)
   | Op_SMULL \<Rightarrow> long (\<lambda>a b. scast a * scast b)
   | Op_UMLAL \<Rightarrow> longacc (\<lambda>a b hi lo. acc64 hi lo + ucast a * ucast b)
   | Op_SMLAL \<Rightarrow> longacc (\<lambda>a b hi lo. acc64 hi lo + scast a * scast b)
   | Op_UMAAL \<Rightarrow> need (get2 c (op2 ops) (op3 ops)) c (\<lambda>(a, b).
       need (get2 c (op0 ops) (op1 ops)) c (\<lambda>(lo, hi).
       write_pair c ops (ucast a * ucast b + ucast lo + ucast hi)))
   | Op_UDIV \<Rightarrow> need (get2 c (op1 ops) (op2 ops)) c (\<lambda>(a, b).
       write_op c (op0 ops) (if b = 0 then 0 else a div b))
   | Op_SDIV \<Rightarrow> need (get2 c (op1 ops) (op2 ops)) c (\<lambda>(a, b).
       write_op c (op0 ops) (if b = 0 then 0 else word_of_int (sint a sdiv sint b)))
   | Op_SMLA n_top m_top \<Rightarrow> need (get3 c (op1 ops) (op2 ops) (op3 ops)) c (\<lambda>(a, b, k).
       write_op c (op0 ops) (half_sel a n_top * half_sel b m_top + k)))"

section \<open>Bit fields and bit counting\<close>

definition bfx_lsb_msb :: "u32 \<Rightarrow> u32 \<times> u32" where
  "bfx_lsb_msb raw = (let hw2 = drop_bit 16 raw in
     (push_bit 2 (drop_bit 12 hw2 AND 7) OR (drop_bit 6 hw2 AND 3), hw2 AND 0x1F))"

definition field_mask :: "u32 \<Rightarrow> u32" where
  "field_mask width = (if 32 \<le> width then 0xFFFFFFFF else shl32 1 width - 1)"

definition bf_mask :: "u32 \<Rightarrow> u32" where
  "bf_mask raw = (let (lsb, msb) = bfx_lsb_msb raw; width = (if lsb \<le> msb then msb - lsb else 0) + 1 in
     if 32 \<le> width then 0xFFFFFFFF else shl32 (shl32 1 width - 1) lsb)"

definition exec_bits :: "cpu \<Rightarrow> bit_op \<Rightarrow> operands \<Rightarrow> u32 \<Rightarrow> cpu outcome" where
  "exec_bits c op ops raw =
     (let unary = (\<lambda>f. need (reg (op1 ops)) c (\<lambda>rm. write_op c (op0 ops) (f (read_reg c rm))));
          pkh = (let rn = unat (raw AND 0xF); hw2 = drop_bit 16 raw; rd = unat (drop_bit 8 hw2 AND 0xF);
             rm = unat (hw2 AND 0xF);
             shift = push_bit 2 (drop_bit 12 hw2 AND 7) OR (drop_bit 6 hw2 AND 3);
             vn = read_reg c rn; vm = read_reg c rm in
             if drop_bit 5 hw2 AND 1 = 0 then
               Ok (write_reg c rd ((vn AND 0xFFFF) OR (shl32 vm (shift AND 31) AND 0xFFFF0000)))
             else
               (let amt = (if shift = 0 then 32 else shift) in
                Ok (write_reg c rd ((vn AND 0xFFFF0000) OR
                  (signed_drop_bit (unat (if amt \<le> 31 then amt else 31)) vm AND 0xFFFF))))) in
     case op of
     Op_CLZ \<Rightarrow> unary leading_zeros
   | Op_REV \<Rightarrow> unary swap_bytes
   | Op_REV16 \<Rightarrow> unary (\<lambda>v. push_bit 8 (v AND 0xff) OR (drop_bit 8 v AND 0xff)
        OR push_bit 8 (v AND 0xff0000) OR (drop_bit 8 v AND 0xff0000))
   | Op_RBIT \<Rightarrow> unary word_reverse
   | Op_REVSH \<Rightarrow> unary (\<lambda>v. sext16 (push_bit 8 (v AND 0xff) OR (drop_bit 8 v AND 0xff)))
   | Op_BFI \<Rightarrow> need (reg (op0 ops)) c (\<lambda>rd. need (reg (op1 ops)) c (\<lambda>rn.
       let m = bf_mask raw; cur = read_reg c rd in
       Ok (write_reg c rd ((cur AND NOT m) OR (shl32 (read_reg c rn) (fst (bfx_lsb_msb raw)) AND m)))))
   | Op_BFC \<Rightarrow> need (reg (op0 ops)) c (\<lambda>rd.
       Ok (write_reg c rd (read_reg c rd AND NOT (bf_mask raw))))
   | Op_UBFX \<Rightarrow> need (reg (op1 ops)) c (\<lambda>rn. need (imm_val (op2 ops)) c (\<lambda>lsb.
       need (imm_val (op3 ops)) c (\<lambda>width.
       write_op c (op0 ops) (shr32 (read_reg c rn) lsb AND field_mask width))))
   | Op_SBFX \<Rightarrow> need (reg (op1 ops)) c (\<lambda>rn. need (imm_val (op2 ops)) c (\<lambda>lsb.
       need (imm_val (op3 ops)) c (\<lambda>width.
       let shifted = shr32 (read_reg c rn) lsb in
       write_op c (op0 ops)
         (if 32 \<le> width then shifted
          else let m = shl32 1 (width - 1) in ((shifted AND (shl32 1 width - 1)) XOR m) - m))))
   | Op_PKHBT \<Rightarrow> pkh
   | Op_PKHTB \<Rightarrow> pkh)"

section \<open>Branch targets\<close>

definition thumb_branch_target :: "u32 \<Rightarrow> u32 \<Rightarrow> u32 \<Rightarrow> u32" where
  "thumb_branch_target raw a len =
     (let hw1 = raw AND 0xFFFF in
      if len = 2 then
        (if hw1 AND 0xF000 = 0xD000 then a + 4 + push_bit 1 (sext8 (hw1 AND 0xFF))
         else a + 4 + push_bit 1 (signed_drop_bit 21 (push_bit 21 (hw1 AND 0x7FF))))
      else
        (let hw2 = drop_bit 16 raw AND 0xFFFF; s = drop_bit 10 hw1 AND 1; j1 = drop_bit 13 hw2 AND 1;
             j2 = drop_bit 11 hw2 AND 1; imm11 = hw2 AND 0x7FF in
         if drop_bit 12 hw2 AND 1 = 1 then
           (let i1 = 1 - (j1 XOR s); i2 = 1 - (j2 XOR s); imm10 = hw1 AND 0x3FF;
                off = push_bit 24 s OR push_bit 23 i1 OR push_bit 22 i2 OR push_bit 12 imm10 OR push_bit 1 imm11 in
            a + 4 + signed_drop_bit 7 (push_bit 7 off))
         else
           (let imm6 = hw1 AND 0x3F;
                off = push_bit 20 s OR push_bit 19 j2 OR push_bit 18 j1 OR push_bit 12 imm6 OR push_bit 1 imm11 in
            a + 4 + signed_drop_bit 11 (push_bit 11 off))))"

definition cbz_target :: "u32 \<Rightarrow> u32 \<Rightarrow> u32" where
  "cbz_target raw a =
     (let hw1 = raw AND 0xFFFF; imm5 = drop_bit 3 hw1 AND 0x1F; i = drop_bit 9 hw1 AND 1 in
      a + 4 + push_bit 1 (push_bit 5 i OR imm5))"

section \<open>The IT block\<close>

definition it_advance :: "cpu \<Rightarrow> cpu" where
  "it_advance c = (if itstate c AND 7 = 0 then c\<lparr>itstate := 0\<rparr>
     else c\<lparr>itstate := (itstate c AND 0xE0) OR (push_bit 1 (itstate c) AND 0x1F)\<rparr>)"

end
