(* ===== verification/Cpu_Arith.thy ===== *)
theory Cpu_Arith
  imports Cpu_Alu
begin

text \<open>
  The arithmetic of the interpreter against the architecture's definitions: the barrel
  shifter against \<open>Shift_C\<close>, additions and subtractions with their flags against
  \<open>AddWithCarry\<close>, the condition codes after a compare against the integer orders, and
  the multiplies and divides against integer arithmetic.
\<close>

unbundle bit_operations_syntax

section \<open>Sign bits and signed sums\<close>

named_theorems sign_simps \<open>sign bit tests as integer comparisons\<close>

lemma top_bit: "drop_bit 31 (w :: u32) AND 1 \<noteq> 0 \<longleftrightarrow> bit w 31"
  using and_push_bit_1_iff [of "drop_bit 31 w" 0] by (simp add: bit_drop_bit_eq)

lemma sint_neg_bit [sign_simps]: "bit (w :: u32) 31 \<longleftrightarrow> sint w < 0"
  using bit_last_iff [of w] by simp

lemma sint_bounds: "- (2 ^ 31) \<le> sint (w :: u32)" "sint (w :: u32) < 2 ^ 31"
  using sint_range_size [of w] by (simp_all add: word_size)

definition wrap31 :: "int \<Rightarrow> int" where
  "wrap31 k = (if k < - (2 ^ 31) then k + 2 ^ 32 else if 2 ^ 31 \<le> k then k - 2 ^ 32 else k)"

lemma signed_take_wrap:
  assumes "- (2 ^ 32) \<le> k" and "k < 2 ^ 32"
  shows "signed_take_bit 31 k = wrap31 k"
proof -
  have e: "signed_take_bit 31 k = (k + 2 ^ 31) mod 2 ^ 32 - 2 ^ 31"
    by (simp add: signed_take_bit_eq_take_bit_shift take_bit_eq_mod)
  consider "k < - (2 ^ 31)" | "2 ^ 31 \<le> k" | "- (2 ^ 31) \<le> k \<and> k < 2 ^ 31" by linarith
  then show ?thesis
  proof cases
    case 1
    then have "(k + 2 ^ 31 + 2 ^ 32) mod 2 ^ 32 = k + 2 ^ 31 + 2 ^ 32"
      using assms by (intro mod_pos_pos_trivial) simp_all
    then have "(k + 2 ^ 31) mod 2 ^ 32 = k + 2 ^ 31 + 2 ^ 32" by (simp only: mod_add_self2)
    then show ?thesis using 1 unfolding e wrap31_def by simp
  next
    case 2
    then have "(k + 2 ^ 31 - 2 ^ 32) mod 2 ^ 32 = k + 2 ^ 31 - 2 ^ 32"
      using assms by (intro mod_pos_pos_trivial) simp_all
    then have "(k + 2 ^ 31) mod 2 ^ 32 = k + 2 ^ 31 - 2 ^ 32" by (simp only: minus_mod_self2)
    then show ?thesis using 2 unfolding e wrap31_def by simp
  next
    case 3
    then have "(k + 2 ^ 31) mod 2 ^ 32 = k + 2 ^ 31" by (intro mod_pos_pos_trivial) simp_all
    then show ?thesis using 3 unfolding e wrap31_def by simp
  qed
qed

lemma sint_add_wrap: "sint (a + b :: u32) = wrap31 (sint a + sint b)"
  using signed_take_wrap [of "sint a + sint b"] sint_bounds [of a] sint_bounds [of b]
  by (simp add: sint_word_ariths)

lemma sint_sub_wrap: "sint (a - b :: u32) = wrap31 (sint a - sint b)"
  using signed_take_wrap [of "sint a - sint b"] sint_bounds [of a] sint_bounds [of b]
  by (simp add: sint_word_ariths)

section \<open>AddWithCarry\<close>

text \<open>The architecture's pseudocode: exact sums, and the flags that say they did not fit.\<close>

definition add_with_carry :: "u32 \<Rightarrow> u32 \<Rightarrow> bool \<Rightarrow> u32 \<times> bool \<times> bool" where
  "add_with_carry x y k =
     (let us = uint x + uint y + of_bool k; ss = sint x + sint y + of_bool k; res = word_of_int us in
      (res, uint res \<noteq> us, sint res \<noteq> ss))"

definition awc_operands :: "alu \<Rightarrow> u32 \<Rightarrow> u32 \<Rightarrow> bool \<Rightarrow> (u32 \<times> u32 \<times> bool) option" where
  "awc_operands op a b cy = (case op of
     Add \<Rightarrow> Some (a, b, False) | Adc \<Rightarrow> Some (a, b, cy) | Sub \<Rightarrow> Some (a, NOT b, True)
   | Sbc \<Rightarrow> Some (a, NOT b, cy) | Rsb \<Rightarrow> Some (NOT a, b, True) | _ \<Rightarrow> None)"

lemma awc_result: "fst (add_with_carry x y k) = x + y + of_bool k"
  by (cases k) (simp_all add: add_with_carry_def Let_def)

lemma uint_add_wrap: "uint (a + b :: u32) = (if uint a + uint b < 2 ^ 32 then uint a + uint b
    else uint a + uint b - 2 ^ 32)"
  by (simp add: uint_plus_if')

lemma uint_nat_bounds: "uint z = int (unat z)" "0 \<le> uint z" "uint (z :: u32) < 2 ^ 32"
  using uint_range_size [of z] by (simp_all add: word_size)

lemma overflowing_add_uint: "snd (overflowing_add x y) = (2 ^ 32 \<le> uint x + uint y)"
proof -
  have "(2 ^ 32 \<le> unat x + unat y) = (int (2 ^ 32) \<le> int (unat x + unat y))" by (simp only: of_nat_le_iff)
  then show ?thesis by (simp add: overflowing_add_def)
qed

lemma word_of_int_changes:
  assumes "0 \<le> n" and "n < 2 * 2 ^ 32"
  shows "uint (word_of_int n :: u32) \<noteq> n \<longleftrightarrow> 2 ^ 32 \<le> n"
proof (cases "n < 2 ^ 32")
  case True
  with assms(1) have "uint (word_of_int n :: u32) = n" by (simp add: uint_word_of_int)
  with True show ?thesis by simp
next
  case False
  then show ?thesis using uint_nat_bounds(3) [of "word_of_int n"] by auto
qed

lemma awc_carry: "fst (snd (add_with_carry x y k)) =
    (snd (overflowing_add x y) \<or> snd (overflowing_add (x + y) (b2w k)))"
proof -
  define A where "A = uint x + uint y"
  define K :: int where "K = of_bool k"
  have K: "0 \<le> K" "K \<le> 1" "uint (b2w k) = K" by (cases k; simp add: K_def)+
  have A: "0 \<le> A" "A + K < 2 * 2 ^ 32" using uint_nat_bounds [of x] uint_nat_bounds [of y] K by (simp_all add: A_def)
  have "fst (snd (add_with_carry x y k)) = (2 ^ 32 \<le> A + K)"
    unfolding add_with_carry_def Let_def fst_conv snd_conv A_def [symmetric] K_def [symmetric]
    using A K by (intro word_of_int_changes) simp_all
  moreover have "uint (x + y) = (if A < 2 ^ 32 then A else A - 2 ^ 32)" unfolding A_def by (rule uint_add_wrap)
  ultimately show ?thesis
    unfolding overflowing_add_uint K(3) A_def [symmetric] using K A by (cases "A < 2 ^ 32") auto
qed

lemma awc_overflow: "snd (snd (add_with_carry x y k)) =
    (bit x 31 = bit y 31 \<and> bit x 31 \<noteq> bit (x + y + of_bool k) 31)"
proof -
  define S where "S = sint x + sint y + of_bool k"
  have K: "(0 :: int) \<le> of_bool k" "of_bool k \<le> (1 :: int)" by simp_all
  have S: "- (2 ^ 32) \<le> S" "S < 2 ^ 32"
    using sint_bounds [of x] sint_bounds [of y] K by (simp_all add: S_def)
  have s: "sint (x + y + of_bool k) = wrap31 S"
  proof -
    have "sint (x + y + of_bool k) = signed_take_bit 31 S"
      using signed_take_bit_add [of 31 "sint x + sint y" 1] by (cases k) (simp_all add: S_def sint_word_ariths)
    then show ?thesis using S by (simp add: signed_take_wrap)
  qed
  have r: "word_of_int (uint x + uint y + of_bool k) = x + y + of_bool k" by (cases k) simp_all
  have "snd (snd (add_with_carry x y k)) = (wrap31 S \<noteq> S)"
    unfolding add_with_carry_def Let_def snd_conv r s S_def ..
  also have "\<dots> = (S < - (2 ^ 31) \<or> 2 ^ 31 \<le> S)" by (auto simp: wrap31_def)
  also have "\<dots> = ((sint x < 0) = (sint y < 0) \<and> (sint x < 0) \<noteq> (wrap31 S < 0))"
    using sint_bounds [of x] sint_bounds [of y] K unfolding wrap31_def S_def
    by (cases "sint x < 0"; cases "sint y < 0"; cases k; simp; linarith)
  finally show ?thesis unfolding sint_neg_bit s .
qed


lemma uint_not: "uint (NOT b :: u32) = 2 ^ 32 - 1 - uint b"
proof -
  have "NOT b = - b - 1" by (simp add: not_eq_complement)
  moreover have "uint (0xFFFFFFFF - b) = 0xFFFFFFFF - uint b"
    using uint_nat_bounds(3) [of b] by (simp add: uint_sub_if')
  moreover have "(0xFFFFFFFF :: u32) - b = - b - 1"
  proof -
    have "(0xFFFFFFFF :: u32) = - 1" by simp
    then show ?thesis by (simp only: diff_conv_add_uminus add.commute)
  qed
  ultimately show ?thesis by simp
qed

lemma awc_carry_sub: "fst (snd (add_with_carry a (NOT b) True)) = (\<not> a < b)"
proof -
  have "fst (snd (add_with_carry a (NOT b) True)) =
      (uint (word_of_int (uint a + uint (NOT b) + 1) :: u32) \<noteq> uint a + uint (NOT b) + 1)"
    by (simp add: add_with_carry_def Let_def)
  also have "\<dots> = (2 ^ 32 \<le> uint a + uint (NOT b) + 1)"
    using uint_nat_bounds [of a] uint_nat_bounds [of "NOT b"] by (intro word_of_int_changes) simp_all
  finally show ?thesis by (auto simp: uint_not word_less_def)
qed

lemma awc_eq: "add_with_carry x y k =
    (x + y + of_bool k, snd (overflowing_add x y) \<or> snd (overflowing_add (x + y) (b2w k)),
     bit x 31 = bit y 31 \<and> bit x 31 \<noteq> bit (x + y + of_bool k) 31)"
  by (intro prod_eqI) (simp_all only: fst_conv snd_conv awc_result awc_carry awc_overflow)

lemma overflowing_add_0 [simp]: "snd (overflowing_add x 0) = False"
  using uint_nat_bounds(3) [of x] by (simp add: overflowing_add_uint del: uint_nat_bounds)

lemma fst_overflowing [simp]: "fst (overflowing_add x y) = x + y" "fst (overflowing_sub x y) = x - y"
  "snd (overflowing_sub x y) = (x < y)"
  by (simp_all add: overflowing_add_def overflowing_sub_def)

lemma awc_result_not: "fst (add_with_carry x (NOT y) k) = x - y - (1 - of_bool k)"
  "fst (add_with_carry (NOT x) y k) = y - x - (1 - of_bool k)"
  unfolding awc_result not_eq_complement by simp_all

lemma awc_sub: "add_with_carry a (NOT b) True = (a - b, \<not> a < b, bit a 31 \<noteq> bit b 31 \<and> bit a 31 \<noteq> bit (a - b) 31)"
proof -
  have f: "fst (add_with_carry a (NOT b) True) = a - b" by (simp add: awc_result_not)
  then have h: "a + NOT b + of_bool True = a - b" by (simp only: awc_result)
  show ?thesis
    using f awc_carry_sub [of a b] awc_overflow [of a "NOT b" True, unfolded h]
    by (intro prod_eqI) (simp_all add: bit_not_iff)
qed

text \<open>The flags \<open>alu\<close> computes, one architecture call each.\<close>

definition set_nzcv :: "cpu \<Rightarrow> u32 \<times> bool \<times> bool \<Rightarrow> cpu" where
  "set_nzcv c w = (case w of (x, cy, v) \<Rightarrow> c\<lparr>nf := (sint x < 0), zf := (x = 0), cf := cy, vf := v\<rparr>)"

lemma flags_add_awc: "flags_add c a b = set_nzcv c (add_with_carry a b False)"
  unfolding awc_eq flags_add_def Let_def split_def top_bit set_nzcv_def
  by (simp add: set_nz_def set_cv_def bit_xor_iff bit_not_iff bit_and_iff)

lemma flags_sub_awc: "flags_sub c a b = set_nzcv c (add_with_carry a (NOT b) True)"
  unfolding awc_sub flags_sub_def Let_def split_def top_bit set_nzcv_def
  by (simp add: set_nz_def set_cv_def bit_xor_iff bit_and_iff)

lemma flags_carry_awc: "flags_carry c a b (b2w k) = set_nzcv c (add_with_carry a b k)"
  unfolding awc_eq flags_carry_def Let_def split_def top_bit set_nzcv_def
  by (cases k) (simp_all add: set_nz_def set_cv_def bit_xor_iff bit_not_iff bit_and_iff)

lemma awc_comm: "add_with_carry x y k = add_with_carry y x k"
  by (simp add: add_with_carry_def Let_def add.commute)

lemma alu_flags_awc:
  assumes "awc_operands op a b (cf c) = Some (x, y, k)"
  shows "alu_result op a b (b2w (cf c)) = fst (add_with_carry x y k)"
    and "cf d = cf c \<Longrightarrow> alu_flags d op a b (b2w (cf c)) (alu_result op a b (b2w (cf c))) = set_nzcv d (add_with_carry x y k)"
proof -
  show "alu_result op a b (b2w (cf c)) = fst (add_with_carry x y k)"
    using assms by (cases op; cases "cf c"; auto simp: awc_operands_def alu_result_def awc_result_not
      awc_result; simp add: not_eq_complement)
  show "alu_flags d op a b (b2w (cf c)) (alu_result op a b (b2w (cf c))) = set_nzcv d (add_with_carry x y k)"
    using assms by (cases op)
      (auto simp: awc_operands_def alu_flags_def flags_add_awc flags_sub_awc flags_carry_awc awc_comm)
qed


text \<open>
  C26: ADD, ADC, SUB, SBC and RSB are the architecture's AddWithCarry: the destination gets
  the wrapped sum, and when the instruction sets flags, N and Z describe it, C says the
  unsigned sum did not fit and V that the signed sum did not.
\<close>

theorem alu_add_with_carry:
  assumes "alu_operands c ops = Some (rd, a, b)" and "awc_operands op a b (cf c) = Some (x, y, k)"
  shows "alu_exec c ops op =
    (let (res, carry, over) = add_with_carry x y k; c1 = write_reg c rd res in
     Ok (if cur_setflags c then c1\<lparr>nf := (sint res < 0), zf := (res = 0), cf := carry, vf := over\<rparr> else c1))"
proof -
  let ?res = "fst (add_with_carry x y k)"
  have f: "cur_setflags (write_reg c rd w) = cur_setflags c" for w by (simp add: write_reg_def set_r_def)
  have d: "cf (write_reg c rd w) = cf c" for w by (simp add: write_reg_def set_r_def)
  have r: "alu_result op a b (b2w (cf c)) = ?res" by (rule alu_flags_awc(1) [OF assms(2)])
  have g: "alu_flags (write_reg c rd ?res) op a b (b2w (cf c)) ?res = set_nzcv (write_reg c rd ?res) (add_with_carry x y k)"
    using alu_flags_awc(2) [OF assms(2) d [of ?res]] unfolding r .
  show ?thesis
    unfolding alu_exec_def assms(1) need_simps prod.case Let_def r f g set_nzcv_def
    by (simp add: split_def)
qed

theorem alu_add_with_carry_witness:
  "alu_exec (cpu_new\<lparr>cur_setflags := True\<rparr>) (Ops (Reg 0) (Reg 1) (Imm32 1) Nothing) Sub =
     Ok ((set_r (cpu_new\<lparr>cur_setflags := True\<rparr>) 0 0xFFFFFFFF)\<lparr>nf := True, zf := False, cf := False, vf := False\<rparr>)"
  by (subst alu_add_with_carry [where rd = 0 and a = 0 and b = 1 and x = 0 and y = "NOT 1" and k = True])
    (simp_all add: alu_operands_def opval_def read_reg_def cpu_new_def awc_operands_def add_with_carry_def
      write_reg_def set_r_def)

section \<open>Conditions\<close>

lemma compare_lt: "nf (flags_sub c a b) \<noteq> vf (flags_sub c a b) \<longleftrightarrow> sint a < sint b"
proof -
  have "nf (flags_sub c a b) = (wrap31 (sint a - sint b) < 0)"
    by (simp add: flags_sub_awc awc_sub set_nzcv_def sint_sub_wrap)
  moreover have "vf (flags_sub c a b) = ((sint a < 0) \<noteq> (sint b < 0) \<and> (sint a < 0) \<noteq> (wrap31 (sint a - sint b) < 0))"
    by (simp add: flags_sub_awc awc_sub set_nzcv_def sint_sub_wrap sint_neg_bit)
  ultimately show ?thesis
    using sint_bounds [of a] sint_bounds [of b] unfolding wrap31_def
    by (cases "sint a < 0"; cases "sint b < 0"; simp; linarith)
qed

text \<open>
  After CMP a, b every condition code means what its name says: the unsigned orders
  for HS, LO, HI and LS, the signed orders for GE, LT, GT and LE, equality for EQ and NE.
\<close>

theorem compare_conditions:
  "let d = flags_sub c a b in
     cond_holds d EQ = (a = b) \<and> cond_holds d NE = (a \<noteq> b) \<and>
     cond_holds d HS = (b \<le> a) \<and> cond_holds d LO = (a < b) \<and>
     cond_holds d HI = (b < a) \<and> cond_holds d LS = (a \<le> b) \<and>
     cond_holds d GE = (sint b \<le> sint a) \<and> cond_holds d LT = (sint a < sint b) \<and>
     cond_holds d GT = (sint b < sint a) \<and> cond_holds d LE = (sint a \<le> sint b)"
proof -
  have z: "zf (flags_sub c a b) = (a = b)" and cy: "cf (flags_sub c a b) = (b \<le> a)"
    by (simp_all add: flags_sub_awc awc_sub set_nzcv_def not_less)
  have e: "sint a = sint b \<longleftrightarrow> a = b" by (auto intro: signed_word_eqI)
  show ?thesis
    using compare_lt [of c a b] e unfolding Let_def cond_holds_def cond.case z cy
    by (auto simp: less_le not_less)
qed

section \<open>The shifter\<close>

text \<open>\<open>Shift_C\<close> of the architecture manual, on the exact integers.\<close>

definition arm_shift_c :: "u32 \<Rightarrow> shift_style \<Rightarrow> nat \<Rightarrow> bool \<Rightarrow> u32 \<times> bool" where
  "arm_shift_c x style n cin =
     (if style = RRX then (word_of_int (uint x div 2 + of_bool cin * 2 ^ 31), odd (uint x))
      else if n = 0 then (x, cin)
      else case style of
        LSL \<Rightarrow> (let e = uint x * 2 ^ n in (word_of_int e, bit e 32))
      | LSR \<Rightarrow> (word_of_int (uint x div 2 ^ n), bit (uint x) (n - 1))
      | ASR \<Rightarrow> (word_of_int (sint x div 2 ^ n), bit (sint x) (n - 1))
      | ROR \<Rightarrow> (let m = n mod 32; res = word_of_int (uint x div 2 ^ m) OR word_of_int (uint x * 2 ^ (32 - m)) in
                (res, bit (res :: u32) 31))
      | RRX \<Rightarrow> (x, cin))"

lemma low_bit: "drop_bit k (w :: u32) AND 1 \<noteq> 0 \<longleftrightarrow> bit w k" "(w :: u32) AND 1 \<noteq> 0 \<longleftrightarrow> bit w 0"
  using and_push_bit_1_iff [of "drop_bit k w" 0] and_push_bit_1_iff [of w 0] by (simp_all add: bit_drop_bit_eq)

text \<open>Each style of shift on its own.\<close>

lemma shift_c_lsl: "shift_c x LSL n cin = arm_shift_c x LSL n cin"
proof -
  have l: "push_bit n x = word_of_int (uint x * 2 ^ n)"
    by (rule bit_word_eqI) (simp add: bit_simps push_bit_eq_mult [symmetric] bit_uint_iff)
  have e: "bit (uint x * 2 ^ n) 32 = (n \<le> 32 \<and> bit x (32 - n))"
    by (auto simp: bit_simps push_bit_eq_mult [symmetric] bit_uint_iff)
  have z: "(word_of_int (uint x * 2 ^ n) :: u32) = 0" if "32 \<le> n"
    unfolding l [symmetric] using that by (auto intro!: bit_word_eqI simp: bit_push_bit_iff)
  show ?thesis
    using l e z by (auto simp: shift_c_def arm_shift_c_def low_bit bit_drop_bit_eq Let_def)
qed

lemma shift_c_lsr: "shift_c x LSR n cin = arm_shift_c x LSR n cin"
proof -
  have l: "drop_bit n x = word_of_int (uint x div 2 ^ n)"
    by (rule bit_word_eqI) (simp add: bit_simps drop_bit_eq_div [symmetric] bit_uint_iff)
  have e: "bit (uint x) (n - 1) = bit x (n - 1)"
    by (auto simp: bit_uint_iff dest: bit_imp_le_length)
  have z: "(word_of_int (uint x div 2 ^ n) :: u32) = 0" if "32 \<le> n"
    unfolding l [symmetric] using that
    by (auto intro!: bit_word_eqI simp: bit_drop_bit_eq dest: bit_imp_le_length)
  have w: "\<not> bit x (n - 1)" if "32 < n" using that by (auto dest: bit_imp_le_length)
  show ?thesis
    using l e z w by (auto simp: shift_c_def arm_shift_c_def low_bit bit_drop_bit_eq Let_def)
qed

lemma shift_c_asr: "shift_c x ASR n cin = arm_shift_c x ASR n cin"
proof -
  have sb: "bit (sint x) k = bit x (if k < 32 then k else 31)" for k
  proof (cases "k = 31")
    case False
    then show ?thesis by (auto simp: bit_sint_iff dest: bit_imp_le_length)
  qed (simp add: bit_sint_iff)
  have l: "signed_drop_bit n x = word_of_int (sint x div 2 ^ n)" for n
    by (rule bit_word_eqI) (auto simp: bit_signed_drop_bit_iff bit_word_of_int_iff drop_bit_eq_div [symmetric]
        bit_drop_bit_eq sb)
  have z: "signed_drop_bit 31 x = signed_drop_bit n x" if "32 \<le> n"
    using that by (intro bit_word_eqI) (auto simp: bit_signed_drop_bit_iff not_less_eq_eq)
  have c: "bit (sint x) (n - 1) = bit x (if n < 32 then n - 1 else 31)"
    by (cases "n = 32") (auto simp: sb)
  show ?thesis
    using l z c by (auto simp: shift_c_def arm_shift_c_def low_bit bit_drop_bit_eq Let_def)
qed

lemma shift_c_ror: "shift_c x ROR n cin = arm_shift_c x ROR n cin"
proof -
  have l: "word_rotr m x = word_of_int (uint x div 2 ^ m) OR word_of_int (uint x * 2 ^ (32 - m))" if "m < 32" for m
  proof (rule bit_word_eqI)
    fix k assume "k < LENGTH(32)"
    then have k: "k < 32" by simp
    have d: "bit (word_of_int (uint x div 2 ^ m) :: u32) k = bit x (m + k)"
      using k by (simp add: bit_word_of_int_iff drop_bit_eq_div [symmetric] bit_drop_bit_eq bit_uint_iff)
        (auto dest: bit_imp_le_length)
    have p: "bit (word_of_int (uint x * 2 ^ (32 - m)) :: u32) k = (32 - m \<le> k \<and> bit x (k - (32 - m)))"
      using k by (auto simp: bit_word_of_int_iff push_bit_eq_mult [symmetric] bit_push_bit_iff bit_uint_iff)
    show "bit (word_rotr m x) k = bit (word_of_int (uint x div 2 ^ m) OR word_of_int (uint x * 2 ^ (32 - m)) :: u32) k"
    proof (cases "m + k < 32")
      case True
      then have "\<not> 32 - m \<le> k" by simp
      with True show ?thesis using k that unfolding bit_word_rotr_iff bit_or_iff d p by (simp add: add.commute)
    next
      case False
      then have "(k + m) mod 32 = k - (32 - m)" using k that by (subst le_mod_geq) simp_all
      moreover have "\<not> bit x (m + k)" using False by (auto dest: bit_imp_le_length)
      moreover have "32 - m \<le> k" using False by simp
      ultimately show ?thesis using k that False unfolding bit_word_rotr_iff bit_or_iff d p by simp
    qed
  qed
  have "n mod 32 < 32" by simp
  note fold = l [OF this, symmetric]
  have "word_rotr 0 x = x" by (rule bit_word_eqI) (simp add: bit_word_rotr_iff)
  then show ?thesis
    unfolding shift_c_def arm_shift_c_def Let_def fold low_bit(1) by simp
qed

lemma shift_c_rrx: "shift_c x RRX n cin = arm_shift_c x RRX n cin"
proof -
  have d: "drop_bit 1 x = word_of_int (uint x div 2)"
    by (rule bit_word_eqI) (simp add: bit_simps bit_Suc [symmetric] bit_uint_iff)
  have "push_bit 31 (b2w cin) AND drop_bit 1 x = 0"
    by (rule bit_word_eqI) (auto simp: bit_simps dest: bit_imp_le_length)
  then have "push_bit 31 (b2w cin) OR drop_bit 1 x = push_bit 31 (b2w cin) + drop_bit 1 x"
    by (simp only: disjunctive_add_eq_or)
  also have "\<dots> = word_of_int (uint x div 2 + of_bool cin * 2 ^ 31)"
    unfolding d by (cases cin) simp_all
  finally have "push_bit 31 (b2w cin) OR drop_bit 1 x = word_of_int (uint x div 2 + of_bool cin * 2 ^ 31)" .
  moreover have "odd (uint x) = bit x 0" by (simp add: bit_uint_iff bit_0 [symmetric])
  ultimately show ?thesis by (simp add: shift_c_def arm_shift_c_def low_bit)
qed

text \<open>
  C27: The barrel shifter is the architecture's Shift_C for every style and amount: the
  shifted value and the carry-out, amounts past the word's width included.
\<close>

theorem shift_c_is_arm: "shift_c x style n cin = arm_shift_c x style n cin"
  by (cases style) (simp_all only: shift_c_lsl shift_c_lsr shift_c_asr shift_c_ror shift_c_rrx)

end
