(* ===== verification/Cpu_Exc.thy ===== *)
theory Cpu_Exc
  imports Cpu_Alu
begin

text \<open>
  The M-profile system level of \<open>src/cpu.rs\<close>: the special registers MRS and MSR reach,
  exception entry and return, the SysTick timer and interrupt delivery. The traces that
  an environment variable switches on are left out; the crash detector's frame dump is
  not, because it reads eighteen words through the bus.
\<close>

unbundle bit_operations_syntax

abbreviation (input) SCB_VTOR :: u32 where "SCB_VTOR \<equiv> 0xE000ED08"

section \<open>Special registers\<close>

definition read_special :: "cpu \<Rightarrow> u32 \<Rightarrow> u32" where
  "read_special c sysm =
     (if sysm \<le> 3 then build_xpsr c
      else if sysm = 5 then ipsr c
      else if sysm = 8 then msp c
      else if sysm = 9 then psp c
      else if sysm = 16 then b2w (primask c)
      else if sysm = 17 \<or> sysm = 18 then basepri c
      else if sysm = 19 then b2w (faultmask c)
      else if sysm = 20 then control c
      else 0)"

definition write_special :: "cpu \<Rightarrow> u32 \<Rightarrow> u32 \<Rightarrow> cpu" where
  "write_special c sysm v =
     (if sysm \<le> 3 then set_xpsr_flags c v
      else if sysm = 8 then set_msp c v
      else if sysm = 9 then set_psp c v
      else if sysm = 16 then c\<lparr>primask := v AND 1 \<noteq> 0\<rparr>
      else if sysm = 17 \<or> sysm = 18 then c\<lparr>basepri := v AND 0xff\<rparr>
      else if sysm = 19 then c\<lparr>faultmask := v AND 1 \<noteq> 0\<rparr>
      else if sysm = 20 then set_control c v
      else c)"

section \<open>Exception entry\<close>

definition basic_frame :: "cpu \<Rightarrow> u32 list" where
  "basic_frame c = [r c 0, r c 1, r c 2, r c 3, r c 12, r c LR, pc c, build_xpsr c]"

definition fp_frame :: "cpu \<Rightarrow> u32 list" where
  "fp_frame c = map (s_regs c) [0..<16] @ [fpscr c, 0]"

definition fp_active :: "cpu \<Rightarrow> bool" where
  "fp_active c = (control c AND 4 \<noteq> 0)"

definition frame_words :: "cpu \<Rightarrow> u32 list" where
  "frame_words c = basic_frame c @ (if fp_active c then fp_frame c else [])"

definition frame_base :: "cpu \<Rightarrow> u32" where
  "frame_base c = r c SP - 4 * (if fp_active c then 26 else 8)"

definition exc_return_code :: "cpu \<Rightarrow> u32" where
  "exc_return_code c =
     (let exc_base = (case mode c of Handler \<Rightarrow> 0xFFFFFFF1
                      | Thread \<Rightarrow> if sp_is_psp c then 0xFFFFFFFD else 0xFFFFFFF9) in
      if fp_active c then exc_base AND NOT 0x10 else exc_base)"

definition to_handler :: "cpu \<Rightarrow> u32 \<Rightarrow> u32 \<Rightarrow> cpu" where
  "to_handler c vecnum exc =
     (let c1 = (if sp_is_psp c then (set_r (c\<lparr>psp := r c SP\<rparr>) SP (msp c))\<lparr>sp_is_psp := False\<rparr>
                else c\<lparr>msp := r c SP\<rparr>) in
      set_r (c1\<lparr>mode := Handler, ipsr := vecnum\<rparr>) LR exc)"

definition exception_entry :: "cpu \<Rightarrow> bus \<Rightarrow> u32 \<Rightarrow> machine" where
  "exception_entry c b vecnum =
     (let b1 = store_words write32 b (frame_base c) (frame_words c);
          c1 = to_handler (set_r c SP (frame_base c)) vecnum (exc_return_code c);
          (v, b2) = read32 b1 SCB_VTOR;
          vtor = v AND NOT 0x7f;
          base = (if vtor = 0 then vtor_fallback c1 else vtor);
          (target, b3) = read32 b2 (base + vecnum * 4) in
      (c1\<lparr>pc := target AND NOT 1, itstate := 0\<rparr>, b3))"

section \<open>Exception return\<close>

fun read_words :: "bus \<Rightarrow> u32 \<Rightarrow> nat \<Rightarrow> u32 list \<times> bus" where
  "read_words b a 0 = ([], b)"
| "read_words b a (Suc n) = (let (w, b1) = read32 b a; (ws, b2) = read_words b1 (a + 4) n in (w # ws, b2))"

text \<open>The return code's fields, and the crash detector's look at a PC outside the code ranges.\<close>

definition exc_return_psp :: "u32 \<Rightarrow> bool" where "exc_return_psp exc = (exc AND 4 \<noteq> 0)"
definition exc_to_thread :: "u32 \<Rightarrow> bool" where "exc_to_thread exc = (exc AND 8 \<noteq> 0)"
definition exc_extended :: "u32 \<Rightarrow> bool" where "exc_extended exc = (exc AND 0x10 = 0)"

definition crash_check :: "cpu \<Rightarrow> bus \<Rightarrow> u32 \<Rightarrow> u32 \<Rightarrow> machine" where
  "crash_check c b ret base =
     (if \<not> is_code c ret \<and> bad_ret_dumps c < 6
      then (c\<lparr>bad_ret_dumps := bad_ret_dumps c + 1\<rparr>, snd (read_words b (base - 8) 18))
      else (c, b))"

definition restore_fp :: "cpu \<Rightarrow> u32 list \<Rightarrow> cpu" where
  "restore_fp c ws = c\<lparr>s_regs := (\<lambda>i. if i < 16 then ws ! i else s_regs c i), fpscr := ws ! 16\<rparr>"

definition restore_basic :: "cpu \<Rightarrow> u32 list \<Rightarrow> cpu" where
  "restore_basic c ws =
     (let c1 = c\<lparr>r := (r c)(0 := ws ! 0, 1 := ws ! 1, 2 := ws ! 2, 3 := ws ! 3, 12 := ws ! 4, LR := ws ! 5),
                pc := ws ! 6 AND NOT 1\<rparr> in
      (set_xpsr_flags c1 (ws ! 7))\<lparr>itstate := itstate_from_xpsr (ws ! 7), ipsr := ws ! 7 AND 0x1ff\<rparr>)"

definition restore_mode :: "cpu \<Rightarrow> u32 \<Rightarrow> u32 \<Rightarrow> cpu" where
  "restore_mode c exc sp =
     (let c1 = c\<lparr>control := (if exc_extended exc then control c OR 4 else control c AND NOT 4),
                 mode := (if exc_to_thread exc then Thread else Handler)\<rparr>;
          c2 = (if exc_to_thread exc
                then c1\<lparr>control := (if exc_return_psp exc then control c1 OR 2 else control c1 AND NOT 2)\<rparr>
                else c1);
          c3 = (if exc_return_psp exc then c2\<lparr>psp := sp\<rparr> else c2\<lparr>msp := sp\<rparr>);
          c4 = c3\<lparr>sp_is_psp := (mode c3 = Thread \<and> control c3 AND 2 \<noteq> 0)\<rparr>;
          c5 = set_r c4 SP (if sp_is_psp c4 then psp c4 else msp c4) in
      if mode c5 = Thread \<and> control c5 AND 1 \<noteq> 0 \<and> \<not> entered_task c5
      then c5\<lparr>entered_task := True\<rparr> else c5)"

definition exception_return :: "cpu \<Rightarrow> bus \<Rightarrow> u32 \<Rightarrow> machine" where
  "exception_return c b exc =
     (let base = (if exc_return_psp exc then psp c else msp c);
          (ws, b1) = read_words b base 8;
          (c1, b2) = crash_check c b1 (ws ! 6) base;
          (c2, b3) = (if exc_extended exc
                      then (let (fs, b3) = read_words b2 (base + 0x20) 17 in (restore_fp c1 fs, b3))
                      else (c1, b2));
          sp = (if exc_extended exc then base + 0x20 + 72 else base + 0x20) in
      (restore_mode (restore_basic c2 ws) exc sp, b3))"

section \<open>SysTick\<close>

definition tick_divisor :: "cpu \<Rightarrow> u32 option" where
  "tick_divisor c = (if 1000 \<le> syst_rvr c then Some (syst_rvr c + 1) else None)"

definition tick_refresh :: "cpu \<Rightarrow> bus \<Rightarrow> machine" where
  "tick_refresh c b =
     (if cycles c AND 0xFF = 0 then
        (let (csr, b1) = read32 b SYST_CSR; (rvr, b2) = read32 b1 SYST_RVR in
         (c\<lparr>syst_csr := csr, syst_rvr := (if 1 \<le> rvr then rvr else 1)\<rparr>, b2))
      else (c, b))"

definition maybe_tick :: "cpu \<Rightarrow> bus \<Rightarrow> machine" where
  "maybe_tick c0 b0 =
     (let (c, b) = tick_refresh c0 b0 in
      if syst_csr c AND 1 = 0 then (c, b)
      else if tick_frozen c \<and> systick c \<noteq> 1 then (c, b)
      else
        (let n = (if systick c = 0 then syst_rvr c else systick c) - 1 in
         if n \<noteq> 0 then (c\<lparr>systick := n\<rparr>, b)
         else
           (let c1 = c\<lparr>systick := syst_rvr c, tick_events := tick_events c + 1\<rparr> in
            if syst_csr c1 AND 2 \<noteq> 0 \<and> mode c1 = Thread \<and> \<not> primask c1
            then exception_entry c1 b 15 else (c1, b))))"

section \<open>Interrupt delivery\<close>

definition maybe_pendsv :: "cpu \<Rightarrow> bus \<Rightarrow> machine" where
  "maybe_pendsv c b = (let (p, b1) = take_pendsv b in if p then exception_entry c b1 14 else (c, b1))"

definition maybe_interrupt :: "cpu \<Rightarrow> bus \<Rightarrow> machine" where
  "maybe_interrupt c b0 =
     (let b = collect_irqs b0 in
      if mode c \<noteq> Thread \<or> primask c \<or> faultmask c then (c, b)
      else case next_irq b of
        Some irq \<Rightarrow>
          if basepri c = 0 \<or> ucast (irq_prio b irq) < basepri c
          then exception_entry c (clear_pending b irq) (16 + of_nat irq)
          else maybe_pendsv c b
      | None \<Rightarrow> maybe_pendsv c b)"

end
