(* ===== verification/Cpu_Mem.thy ===== *)
theory Cpu_Mem
  imports Cpu_Exc
begin

text \<open>
  Loads and stores of \<open>src/cpu.rs\<close>: the effective address from a decoded operand or from
  the raw 32-bit encoding, with its writeback; single, double and multiple transfers; the
  exclusive and the ARMv8-M acquire/release forms. Loading an EXC_RETURN value into PC
  performs the exception return.
\<close>

unbundle bit_operations_syntax

section \<open>Effective addresses\<close>

definition mem_base :: "cpu \<Rightarrow> nat \<Rightarrow> u32" where
  "mem_base c n = (if n = 15 then (cur_insn c + 4) AND NOT 3 else r c n)"

definition index_addr :: "u32 \<Rightarrow> u32 \<Rightarrow> bool \<Rightarrow> u32" where
  "index_addr base off add = (if add then base + off else base - off)"

definition pre_index :: "cpu \<Rightarrow> nat \<Rightarrow> u32 \<Rightarrow> bool \<Rightarrow> bool \<Rightarrow> u32 \<times> cpu" where
  "pre_index c n off add wback =
     (let ea = index_addr (mem_base c n) off add in
      (ea, if wback \<and> n \<noteq> 15 then set_r c n ea else c))"

definition mem_addr :: "cpu \<Rightarrow> operand \<Rightarrow> (u32 \<times> cpu) option" where
  "mem_addr c x = (case x of
     RegDeref n \<Rightarrow> Some (r c n, c)
   | RegDerefPreindexOffset n off add wback \<Rightarrow> Some (pre_index c n (ucast off) add wback)
   | RegDerefPostindexOffset n off add wback \<Rightarrow>
       Some (r c n, set_r c n (index_addr (r c n) (ucast off) add))
   | RegDerefPreindexReg n m add wback \<Rightarrow> Some (pre_index c n (r c m) add wback)
   | RegDerefPreindexRegShift n rs add wback \<Rightarrow> Some (pre_index c n (shifted c (r c) rs) add wback)
   | _ \<Rightarrow> None)"

definition mem_addr32 :: "cpu \<Rightarrow> u32 \<Rightarrow> u32 \<times> cpu" where
  "mem_addr32 c raw =
     (let hw1 = raw AND 0xFFFF; hw2 = drop_bit 16 raw AND 0xFFFF; rn = unat (hw1 AND 0xF) in
      if rn = 15 then
        (let base = (cur_insn c + 4) AND NOT 3; imm12 = hw2 AND 0xFFF in
         (if drop_bit 7 hw1 AND 1 = 1 then base + imm12 else base - imm12, c))
      else
        (let base = r c rn in
         if drop_bit 7 hw1 AND 1 = 1 then (base + (hw2 AND 0xFFF), c)
         else if drop_bit 11 hw2 AND 1 = 1 then
           (let imm8 = hw2 AND 0xFF; p = drop_bit 10 hw2 AND 1; u = drop_bit 9 hw2 AND 1;
                w = drop_bit 8 hw2 AND 1;
                off_addr = (if u = 1 then base + imm8 else base - imm8);
                a = (if p = 1 then off_addr else base) in
            (a, if w = 1 \<or> p = 0 then set_r c rn off_addr else c))
         else
           (base + push_bit (unat (drop_bit 4 hw2 AND 3)) (r c (unat (hw2 AND 0xF))), c)))"

text \<open>The address of a single load or store: raw encoding when 32-bit, operand when 16-bit.\<close>

definition access_addr :: "cpu \<Rightarrow> operand \<Rightarrow> u32 \<Rightarrow> u32 \<Rightarrow> (u32 \<times> cpu) option" where
  "access_addr c x raw len = (if len = 4 then Some (mem_addr32 c raw) else mem_addr c x)"

section \<open>Sized accesses\<close>

datatype size = Byte | Half | Word

definition read_sized :: "bus \<Rightarrow> size \<Rightarrow> u32 \<Rightarrow> u32 \<times> bus" where
  "read_sized b sz a = (case sz of
     Byte \<Rightarrow> (let (v, b1) = read8 b a in (ucast v, b1))
   | Half \<Rightarrow> (let (v, b1) = read16 b a in (ucast v, b1))
   | Word \<Rightarrow> read32 b a)"

definition write_sized :: "bus \<Rightarrow> size \<Rightarrow> u32 \<Rightarrow> u32 \<Rightarrow> bus" where
  "write_sized b sz a v = (case sz of
     Byte \<Rightarrow> write8 b a (ucast v) | Half \<Rightarrow> write16 b a (ucast v) | Word \<Rightarrow> write32 b a v)"

definition sign_extend :: "size \<Rightarrow> bool \<Rightarrow> u32 \<Rightarrow> u32" where
  "sign_extend sz sg v =
     (if sg then (case sz of Byte \<Rightarrow> sext8 v | Half \<Rightarrow> sext16 v | Word \<Rightarrow> v) else v)"

definition is_exc_return :: "u32 \<Rightarrow> bool" where
  "is_exc_return v = (v AND 0xff000000 = 0xff000000)"

text \<open>A value loaded into PC: an exception return, or a branch with bit 0 cleared.\<close>

definition load_pc :: "cpu \<Rightarrow> bus \<Rightarrow> u32 \<Rightarrow> machine" where
  "load_pc c b v = (if is_exc_return v then exception_return c b v else (c\<lparr>pc := v AND NOT 1\<rparr>, b))"

definition load :: "cpu \<Rightarrow> bus \<Rightarrow> operands \<Rightarrow> size \<Rightarrow> bool \<Rightarrow> u32 \<Rightarrow> u32 \<Rightarrow> machine outcome" where
  "load c b ops sz sg raw len = need (reg (op0 ops)) (c, b) (\<lambda>rt.
     need (access_addr c (op1 ops) raw len) (c, b) (\<lambda>(a, c1).
     let (rv, b1) = read_sized b sz a; v = sign_extend sz sg rv in
     Ok (if rt = 15 then load_pc c1 b1 v else (write_reg c1 rt v, b1))))"

definition store :: "cpu \<Rightarrow> bus \<Rightarrow> operands \<Rightarrow> size \<Rightarrow> u32 \<Rightarrow> u32 \<Rightarrow> machine outcome" where
  "store c b ops sz raw len = need (reg (op0 ops)) (c, b) (\<lambda>rt.
     need (access_addr c (op1 ops) raw len) (c, b) (\<lambda>(a, c1).
     Ok (c1, write_sized b sz a (read_reg c1 rt))))"

definition load_double :: "cpu \<Rightarrow> bus \<Rightarrow> operands \<Rightarrow> machine outcome" where
  "load_double c b ops = need (reg (op0 ops)) (c, b) (\<lambda>rt. need (reg (op1 ops)) (c, b) (\<lambda>rt2.
     need (mem_addr c (op2 ops)) (c, b) (\<lambda>(a, c1).
     let (x, b1) = read32 b a; (y, b2) = read32 b1 (a + 4) in
     Ok (write_reg (write_reg c1 rt x) rt2 y, b2))))"

definition store_double :: "cpu \<Rightarrow> bus \<Rightarrow> operands \<Rightarrow> machine outcome" where
  "store_double c b ops = need (reg (op0 ops)) (c, b) (\<lambda>rt. need (reg (op1 ops)) (c, b) (\<lambda>rt2.
     need (mem_addr c (op2 ops)) (c, b) (\<lambda>(a, c1).
     Ok (c1, write32 (write32 b a (read_reg c1 rt)) (a + 4) (read_reg c1 rt2)))))"

section \<open>Block transfers\<close>

text \<open>The transfer loop over R0 to R15; a loaded PC is kept for after the writeback.\<close>

fun bt_loop :: "nat list \<Rightarrow> u16 \<Rightarrow> bool \<Rightarrow> u32 \<Rightarrow> u32 option \<Rightarrow> cpu \<Rightarrow> bus \<Rightarrow> u32 option \<times> cpu \<times> bus" where
  "bt_loop [] m st a pcv c b = (pcv, c, b)"
| "bt_loop (i # is) m st a pcv c b =
     (if \<not> bit m i then bt_loop is m st a pcv c b
      else if st then bt_loop is m st (a + 4) pcv c (write32 b a (read_reg c i))
      else (let (v, b1) = read32 b a in
            if i = 15 then bt_loop is m st (a + 4) (Some v) c b1
            else bt_loop is m st (a + 4) pcv (set_r c i v) b1))"

definition block_start :: "u32 \<Rightarrow> u32 \<Rightarrow> bool \<Rightarrow> bool \<Rightarrow> u32" where
  "block_start base count add pre =
     (if add then (if pre then base + 4 else base)
      else if pre then base - 4 * count else base - 4 * count + 4)"

definition block_transfer ::
  "cpu \<Rightarrow> bus \<Rightarrow> nat \<Rightarrow> bool \<Rightarrow> u16 \<Rightarrow> bool \<Rightarrow> bool \<Rightarrow> bool \<Rightarrow> machine" where
  "block_transfer c b rn wback m add pre st =
     (let count = of_nat (count_ones m); base = r c rn;
          (pcv, c1, b1) = bt_loop [0..<16] m st (block_start base count add pre) None c b;
          c2 = (if wback then set_r c1 rn (if add then base + 4 * count else base - 4 * count) else c1) in
      case pcv of None \<Rightarrow> (c2, b1) | Some v \<Rightarrow> load_pc c2 b1 v)"

definition stmdb_regs :: "cpu \<Rightarrow> bus \<Rightarrow> nat \<Rightarrow> u16 \<Rightarrow> bool \<Rightarrow> machine" where
  "stmdb_regs c b rn m wback = block_transfer c b rn wback m False True True"

definition ldmia_regs :: "cpu \<Rightarrow> bus \<Rightarrow> nat \<Rightarrow> u16 \<Rightarrow> bool \<Rightarrow> machine" where
  "ldmia_regs c b rn m wback = block_transfer c b rn wback m True False False"

definition ldm_stm_mode :: "u32 \<Rightarrow> u32 \<Rightarrow> bool \<times> bool" where
  "ldm_stm_mode raw len =
     (if len = 2 then (True, False) else (drop_bit 7 raw AND 1 \<noteq> 0, drop_bit 8 raw AND 1 \<noteq> 0))"

definition ldm_stm :: "cpu \<Rightarrow> bus \<Rightarrow> operands \<Rightarrow> u32 \<Rightarrow> u32 \<Rightarrow> bool \<Rightarrow> machine outcome" where
  "ldm_stm c b ops raw len st = need (regwback (op0 ops)) (c, b) (\<lambda>(rn, wb).
     need (reglist (op1 ops)) (c, b) (\<lambda>m.
     let (add, pre) = ldm_stm_mode raw len in Ok (block_transfer c b rn wb m add pre st)))"

definition exec_mem :: "cpu \<Rightarrow> bus \<Rightarrow> mem_op \<Rightarrow> operands \<Rightarrow> u32 \<Rightarrow> u32 \<Rightarrow> machine outcome" where
  "exec_mem c b op ops raw len =
     (let ld = (\<lambda>sz sg. load c b ops sz sg raw len); st = (\<lambda>sz. store c b ops sz raw len) in
      case op of
     Op_LDR \<Rightarrow> ld Word False | Op_LDRB \<Rightarrow> ld Byte False | Op_LDRH \<Rightarrow> ld Half False
   | Op_LDRSB \<Rightarrow> ld Byte True | Op_LDRSH \<Rightarrow> ld Half True
   | Op_STR \<Rightarrow> st Word | Op_STRB \<Rightarrow> st Byte | Op_STRH \<Rightarrow> st Half
   | Op_LDRD \<Rightarrow> load_double c b ops | Op_STRD \<Rightarrow> store_double c b ops
   | Op_STRBT \<Rightarrow> st Byte | Op_STRHT \<Rightarrow> st Half | Op_STRT \<Rightarrow> st Word
   | Op_LDRBT \<Rightarrow> ld Byte False | Op_LDRHT \<Rightarrow> ld Half False | Op_LDRT \<Rightarrow> ld Word False
   | Op_LDRSBT \<Rightarrow> ld Byte True | Op_LDRSHT \<Rightarrow> ld Half True
   | Op_PUSH \<Rightarrow> need (reglist (op0 ops)) (c, b) (\<lambda>m. Ok (stmdb_regs c b SP m True))
   | Op_POP \<Rightarrow> need (reglist (op0 ops)) (c, b) (\<lambda>m. Ok (ldmia_regs c b SP m True))
   | Op_STM \<Rightarrow> ldm_stm c b ops raw len True
   | Op_LDM \<Rightarrow> ldm_stm c b ops raw len False)"

section \<open>Exclusive and acquire/release accesses\<close>

definition try_v8m :: "cpu \<Rightarrow> bus \<Rightarrow> u32 \<Rightarrow> u32 \<Rightarrow> bool \<times> machine" where
  "try_v8m c b raw a =
     (let hw1 = raw AND 0xFFFF; hw2 = drop_bit 16 raw AND 0xFFFF; sel = drop_bit 4 hw2 AND 0xF;
          kind = (if sel = 0x8 then Some (Byte, False) else if sel = 0x9 then Some (Half, False)
                  else if sel = 0xA then Some (Word, False) else if sel = 0xC then Some (Byte, True)
                  else if sel = 0xD then Some (Half, True) else if sel = 0xE then Some (Word, True)
                  else None) in
      if hw1 AND 0xFFE0 \<noteq> 0xE8C0 \<or> drop_bit 8 hw2 AND 0xF \<noteq> 0xF then (False, c, b)
      else case kind of
        None \<Rightarrow> (False, c, b)
      | Some (sz, exclusive) \<Rightarrow>
          (let rn = unat (hw1 AND 0xF); rt = unat (drop_bit 12 hw2 AND 0xF); ea = r c rn;
               (c1, b1) =
                 (if hw1 AND 0x10 \<noteq> 0 then (let (v, b1) = read_sized b sz ea in (set_r c rt v, b1))
                  else (if exclusive then set_r c (unat (hw2 AND 0xF)) 0 else c,
                        write_sized b sz ea (r c rt))) in
           (True, c1\<lparr>pc := a + 4\<rparr>, b1)))"

definition exec_excl :: "cpu \<Rightarrow> bus \<Rightarrow> excl_op \<Rightarrow> operands \<Rightarrow> u32 \<Rightarrow> u32 \<Rightarrow> machine outcome" where
  "exec_excl c b op ops raw a =
     (let ldrex = (\<lambda>sz. need (mem_addr c (op1 ops)) (c, b) (\<lambda>(ea, c1).
            let (v, b1) = read_sized b sz ea in
            need (reg (op0 ops)) (c1, b1) (\<lambda>rt. Ok (write_reg c1 rt v, b1))));
          strex = (\<lambda>sz. need (mem_addr c (op2 ops)) (c, b) (\<lambda>(ea, c1).
            need (reg (op1 ops)) (c1, b) (\<lambda>rt.
            let b1 = write_sized b sz ea (read_reg c1 rt) in
            need (reg (op0 ops)) (c1, b1) (\<lambda>rd. Ok (write_reg c1 rd 0, b1))))) in
      case op of
     Op_LDREX \<Rightarrow> ldrex Word | Op_LDREXB \<Rightarrow> ldrex Byte | Op_LDREXH \<Rightarrow> ldrex Half
   | Op_STREX \<Rightarrow> strex Word | Op_STREXB \<Rightarrow> strex Byte | Op_STREXH \<Rightarrow> strex Half
   | Op_V8M \<Rightarrow> (let (ok, m) = try_v8m c b raw a in if ok then Ok m else Err m))"

end
