(* ===== verification/Cpu_Stack.thy ===== *)
theory Cpu_Stack
  imports Cpu_Exc
begin

text \<open>
  Stack frames in RAM: reads leave RAM alone, a block of words written to RAM reads back,
  and what exception entry pushes is what exception return restores. The block lemmas are
  those of the interpretation \<open>ram\<close> of \<open>word_memory\<close>.
\<close>

unbundle bit_operations_syntax

section \<open>Reads leave RAM alone\<close>

definition same_ram :: "bus \<Rightarrow> bus \<Rightarrow> bool" where
  "same_ram b b' = (rams b' = rams b \<and> secure_alias b' = secure_alias b \<and> rom_enabled b' = rom_enabled b \<and>
     (sp_flash b' = None) = (sp_flash b = None) \<and> (rotfl b' = None) = (rotfl b = None))"

abbreviation stack_ok :: "bus \<Rightarrow> u32 \<Rightarrow> nat \<Rightarrow> bool" where
  "stack_ok \<equiv> block_ok (\<lambda>b a. ram_ok b a 4)"

abbreviation ram_words :: "bus \<Rightarrow> u32 \<Rightarrow> nat \<Rightarrow> u32 list" where
  "ram_words \<equiv> load_words (\<lambda>b a. fst (read32 b a))"

lemma same_ram_refl [simp]: "same_ram b b"
  by (simp add: same_ram_def)

lemma same_ram_trans [trans]: "same_ram a b \<Longrightarrow> same_ram b c \<Longrightarrow> same_ram a c"
  by (auto simp: same_ram_def)

lemma same_ram_device_read: "same_ram b (snd (device_read b i off))"
  by (simp add: same_ram_def device_read_def Let_def split_def)

lemma same_ram_read32_tail: "same_ram b (snd (read32_tail b a))"
  using same_ram_device_read [of b]
  by (auto simp: read32_tail_def ram_get_def unmapped_read_def split: option.split)
    (auto simp: same_ram_def)

lemma same_ram_read32: "same_ram b (snd (read32 b a))"
proof -
  have s: "same_ram b (snd (read32_sys b x))" for x
    using same_ram_read32_tail [of b x]
    by (auto simp: read32_sys_def split: option.split) (auto simp: same_ram_def)
  then have r: "same_ram b (snd (read32_rot b x))" for x
    by (auto simp: read32_rot_def split: option.split) (auto simp: same_ram_def)
  then show ?thesis
    by (auto simp: read32_def Let_def split: option.split) (auto simp: same_ram_def)
qed

lemma ram_ok_same: "same_ram b b' \<Longrightarrow> ram_ok b' a n = ram_ok b a n"
  by (auto simp: same_ram_def ram_ok_def intercepted_def fold_addr_def ram_for_def ram_in_bounds_def
      split: option.split)

lemma ram_word_same_ram: "same_ram b b' \<Longrightarrow> ram_word b' a = ram_word b a"
  by (auto simp: same_ram_def ram_word_def ram_for_def split: option.split)

lemma stack_ok_same: "same_ram b b' \<Longrightarrow> stack_ok b' a n = stack_ok b a n"
  by (simp add: block_ok_def ram_ok_same)

lemma ram_words_same: "same_ram b b' \<Longrightarrow> stack_ok b a n \<Longrightarrow> ram_words b' a n = ram_words b a n"
proof (induction n arbitrary: a)
  case (Suc n)
  from block_ok_Suc [OF Suc.prems(2)]
  have B: "ram_ok b a 4" "n = 0 \<or> stack_ok b (a + 4) n" by auto
  have w: "fst (read32 b' a) = fst (read32 b a)"
    using B(1) Suc.prems(1) by (simp add: read32_ram ram_ok_same ram_word_same_ram)
  show ?case
  proof (cases "n = 0")
    case False
    with B(2) Suc.IH [OF Suc.prems(1)] w show ?thesis by simp
  qed (use w in simp)
qed simp

lemma read_words_ram: "stack_ok b a n \<Longrightarrow> read_words b a n = (ram_words b a n, b)"
proof (induction n arbitrary: a)
  case (Suc n)
  from block_ok_Suc [OF Suc.prems] have "ram_ok b a 4" "n = 0 \<or> stack_ok b (a + 4) n" by auto
  with Suc.IH [of "a + 4"] show ?case by (cases n) (auto simp: read32_ram)
qed simp

lemma same_ram_read_words: "same_ram b (snd (read_words b a n))"
proof (induction n arbitrary: b a)
  case (Suc n)
  have "same_ram b (snd (read32 b a))" by (rule same_ram_read32)
  also have "same_ram \<dots> (snd (read_words (snd (read32 b a)) (a + 4) n))" by (rule Suc.IH)
  finally show ?case by (simp add: split_def Let_def)
qed simp

lemma same_ram_crash_check: "same_ram b (snd (crash_check c b p a))"
  by (simp add: crash_check_def same_ram_read_words)

lemma block_ok_take: "block_ok ok s a (m + n) \<Longrightarrow> block_ok ok s a m"
  by (auto simp: block_ok_def)

lemma block_ok_drop: "block_ok ok s a (m + Suc n) \<Longrightarrow> block_ok ok s (a + 4 * of_nat m) (Suc n)"
proof -
  assume b: "block_ok ok s a (m + Suc n)"
  then have u: "unat (a + 4 * of_nat m) = unat a + 4 * m"
    by (intro unat_step [of a "m + Suc n"]) (auto simp: block_ok_def)
  have "ok s (a + 4 * of_nat m + 4 * of_nat k)" if "k < Suc n" for k
  proof -
    have "m + k < m + Suc n" using that by simp
    then have "ok s (a + 4 * of_nat (m + k))" using b unfolding block_ok_def by blast
    then show ?thesis by (simp add: algebra_simps)
  qed
  with u b show ?thesis by (auto simp: block_ok_def)
qed

lemma load_words_add:
  "load_words rd s a (m + n) = load_words rd s a m @ load_words rd s (a + 4 * of_nat m) n"
  by (induction m arbitrary: a) (simp_all add: algebra_simps)


section \<open>The packed status word\<close>

lemma low_bits:
  fixes x :: u32 and y :: u8
  shows "x AND 0x1ff = take_bit 9 x" "x AND 0x3F = take_bit 6 x" "x AND 0x3 = take_bit 2 x"
    "y AND 0x3F = take_bit 6 y" "y AND 0x3 = take_bit 2 y"
  by (simp_all add: take_bit_eq_mask mask_eq_exp_minus_1)

lemma bit_flag: "bit (push_bit k (b2w f)) n \<longleftrightarrow> n = k \<and> f \<and> k < 32"
  by (auto simp: bit_push_bit_iff)

lemma bit_one_at: "bit (push_bit k (1 :: u32)) n \<longleftrightarrow> n = k \<and> k < 32"
  unfolding bit_pow2 by auto

lemma bit_it_lo: "bit (push_bit 25 (ucast (take_bit 2 (i :: u8)) :: u32)) n \<longleftrightarrow> (n = 25 \<or> n = 26) \<and> bit i (n - 25)"
  by (auto simp: bit_push_bit_iff bit_ucast_iff bit_take_bit_iff)

lemma bit_it_hi: "bit (push_bit 10 (ucast (take_bit 6 (drop_bit 2 (i :: u8))) :: u32)) n \<longleftrightarrow>
    10 \<le> n \<and> n < 16 \<and> bit i (n - 8)"
proof -
  have "2 + (n - 10) = n - 8" if "10 \<le> n" using that by simp
  then show ?thesis by (auto simp: bit_push_bit_iff bit_ucast_iff bit_take_bit_iff bit_drop_bit_eq)
qed

lemma bit_build_xpsr:
  "bit (build_xpsr c) n \<longleftrightarrow>
     (n = 31 \<and> nf c \<or> n = 30 \<and> zf c \<or> n = 29 \<and> cf c \<or> n = 28 \<and> vf c \<or> n = 27 \<and> qf c \<or>
      (n = 25 \<or> n = 26) \<and> bit (itstate c) (n - 25) \<or> n = 24 \<or>
      10 \<le> n \<and> n < 16 \<and> bit (itstate c) (n - 8) \<or> n < 9 \<and> bit (ipsr c) n)"
  unfolding build_xpsr_def low_bits Let_def bit_or_iff bit_flag bit_one_at bit_it_lo bit_it_hi bit_take_bit_iff
  by simp

lemma itstate_xpsr: "itstate_from_xpsr (build_xpsr c) = itstate c"
proof (rule bit_word_eqI)
  fix n assume "n < LENGTH(8)"
  then have n: "n < 8" by simp
  have "bit (itstate_from_xpsr (build_xpsr c)) n \<longleftrightarrow>
      2 \<le> n \<and> bit (build_xpsr c) (n + 8) \<or> n < 2 \<and> bit (build_xpsr c) (n + 25)"
    using n unfolding itstate_from_xpsr_def low_bits
    by (auto simp: bit_simps add.commute)
  also have "\<dots> \<longleftrightarrow> bit (itstate c) n" using n by (auto simp: bit_build_xpsr)
  finally show "bit (itstate_from_xpsr (build_xpsr c)) n = bit (itstate c) n" .
qed

lemma ipsr_xpsr: "build_xpsr c AND 0x1ff = ipsr c AND 0x1ff"
  unfolding low_bits by (rule bit_word_eqI) (auto simp: bit_take_bit_iff bit_build_xpsr)

lemma flags_xpsr:
  "set_xpsr_flags d (build_xpsr c) = d\<lparr>nf := nf c, zf := zf c, cf := cf c, vf := vf c, qf := qf c\<rparr>"
  by (simp add: set_xpsr_flags_def bit_build_xpsr)


section \<open>Entry and return\<close>

text \<open>Which stack pointer is live follows from the mode and CONTROL.SPSEL.\<close>

definition sp_consistent :: "cpu \<Rightarrow> bool" where
  "sp_consistent c = (sp_is_psp c = (mode c = Thread \<and> control c AND 2 \<noteq> 0))"

lemma length_frame_words: "length (frame_words c) = (if fp_active c then 26 else 8)"
  by (simp add: frame_words_def basic_frame_def fp_frame_def)

lemma set_r_sel [simp]:
  "r (set_r c i v) j = (if j = i then v else r c j)" "mode (set_r c i v) = mode c"
  "control (set_r c i v) = control c" "sp_is_psp (set_r c i v) = sp_is_psp c"
  "msp (set_r c i v) = msp c" "psp (set_r c i v) = psp c" "pc (set_r c i v) = pc c"
  "ipsr (set_r c i v) = ipsr c" "itstate (set_r c i v) = itstate c" "nf (set_r c i v) = nf c"
  "zf (set_r c i v) = zf c" "cf (set_r c i v) = cf c" "vf (set_r c i v) = vf c" "qf (set_r c i v) = qf c"
  "s_regs (set_r c i v) = s_regs c" "fpscr (set_r c i v) = fpscr c"
  "entered_task (set_r c i v) = entered_task c" "primask (set_r c i v) = primask c"
  "basepri (set_r c i v) = basepri c" "faultmask (set_r c i v) = faultmask c"
  by (simp_all add: set_r_def)

lemma entry_bus:
  fixes vec :: u32 and b :: bus and c :: cpu
  assumes "stack_ok b (frame_base c) (length (frame_words c))"
  defines "b' \<equiv> snd (exception_entry c b vec)"
  shows "same_ram (store_words write32 b (frame_base c) (frame_words c)) b'"
proof -
  define b1 where "b1 = store_words write32 b (frame_base c) (frame_words c)"
  have "same_ram b1 (snd (read32 b1 SCB_VTOR))" by (rule same_ram_read32)
  also have "same_ram \<dots> b'"
    unfolding b'_def exception_entry_def Let_def split_def b1_def snd_conv by (rule same_ram_read32)
  finally show ?thesis unfolding b1_def .
qed

lemma entry_frame:
  fixes vec a :: u32 and b :: bus and c :: cpu and n :: nat
  assumes "stack_ok b (frame_base c) (length (frame_words c))"
  defines "b' \<equiv> snd (exception_entry c b vec)"
  shows "ram_words b' (frame_base c) (length (frame_words c)) = frame_words c"
    and "stack_ok b' a n = stack_ok b a n"
proof -
  let ?b1 = "store_words write32 b (frame_base c) (frame_words c)"
  have s: "same_ram ?b1 b'" unfolding b'_def by (rule entry_bus [OF assms(1)])
  have k: "stack_ok ?b1 x m = stack_ok b x m" for x m
    using ram.store_ok [OF assms(1)] by (simp add: block_ok_def)
  show "stack_ok b' a n = stack_ok b a n" using stack_ok_same [OF s] k by simp
  show "ram_words b' (frame_base c) (length (frame_words c)) = frame_words c"
    using ram_words_same [OF s] k assms(1) ram.load_store [OF assms(1)] by simp
qed

lemma entry_cpu:
  assumes "exception_entry c b vec = (c1, b1)"
  shows "mode c1 = Handler" "ipsr c1 = vec" "itstate c1 = 0" "\<not> sp_is_psp c1"
    "r c1 LR = exc_return_code c" "pc c1 AND 1 = 0" "control c1 = control c"
    "(if sp_is_psp c then psp c1 = frame_base c \<and> r c1 SP = msp c
      else msp c1 = frame_base c \<and> r c1 SP = frame_base c)"
proof -
  have m: "(- 2 :: u32) = NOT 1" by simp
  have e: "(x AND - 2) AND 1 = 0" for x :: u32
    unfolding m by (rule bit_word_eqI) (auto simp: bit_and_iff bit_not_iff bit_1_iff)
  have c1: "c1 = fst (exception_entry c b vec)" using assms by simp
  show "mode c1 = Handler" "ipsr c1 = vec" "itstate c1 = 0" "\<not> sp_is_psp c1"
    "r c1 LR = exc_return_code c" "control c1 = control c"
    "(if sp_is_psp c then psp c1 = frame_base c \<and> r c1 SP = msp c
      else msp c1 = frame_base c \<and> r c1 SP = frame_base c)"
    unfolding c1 exception_entry_def Let_def split_def to_handler_def
    by (cases "sp_is_psp c"; simp)+
  have "pc (fst (exception_entry c b vec)) AND 1 = 0"
    unfolding exception_entry_def Let_def split_def by (simp add: e)
  with assms show "pc c1 AND 1 = 0" by simp
qed

lemma exc_code_fields:
  "exc_return_psp (exc_return_code c) = (mode c = Thread \<and> sp_is_psp c)"
  "exc_to_thread (exc_return_code c) = (mode c = Thread)"
  "exc_extended (exc_return_code c) = fp_active c"
  by (cases "mode c"; simp add: exc_return_code_def exc_return_psp_def exc_to_thread_def exc_extended_def)+


text \<open>What a return reads: the same words whatever it reads first.\<close>

lemma return_words:
  assumes "stack_ok b base (8 + Suc n)"
  shows "fst (read_words b base 8) = ram_words b base 8"
    and "snd (read_words b base 8) = b"
    and "same_ram b b' \<Longrightarrow> fst (read_words b' (base + 0x20) (Suc n)) = ram_words b (base + 0x20) (Suc n)"
proof -
  have 8: "stack_ok b base 8" using block_ok_take [OF assms] .
  show "fst (read_words b base 8) = ram_words b base 8" "snd (read_words b base 8) = b"
    using read_words_ram [OF 8] by simp_all
  have r: "stack_ok b (base + 0x20) (Suc n)" using block_ok_drop [OF assms] by simp
  assume s: "same_ram b b'"
  from r have "stack_ok b' (base + 0x20) (Suc n)" by (simp only: stack_ok_same [OF s])
  from read_words_ram [OF this] ram_words_same [OF s r]
  show "fst (read_words b' (base + 0x20) (Suc n)) = ram_words b (base + 0x20) (Suc n)"
    by (simp only: fst_conv)
qed

definition restored :: "cpu \<Rightarrow> u32 list \<Rightarrow> u32 list \<Rightarrow> u32 \<Rightarrow> u32 \<Rightarrow> cpu" where
  "restored c ws fs exc sp =
     restore_mode (restore_basic (if exc_extended exc then restore_fp c fs else c) ws) exc sp"

definition dumped :: "cpu \<Rightarrow> cpu set" where
  "dumped c = {c, c\<lparr>bad_ret_dumps := bad_ret_dumps c + 1\<rparr>}"

lemma crash_check_cpu: "fst (crash_check c b p a) \<in> dumped c"
  by (simp add: crash_check_def dumped_def)

lemma exception_return_restored:
  fixes exc :: u32 and c :: cpu
  defines "base \<equiv> (if exc_return_psp exc then psp c else msp c)"
  assumes "stack_ok b base (if exc_extended exc then 26 else 8)"
  shows "\<exists>d \<in> dumped c. fst (exception_return c b exc) =
    restored d (ram_words b base 8) (ram_words b (base + 0x20) 17) exc
      (if exc_extended exc then base + 0x20 + 72 else base + 0x20)"
proof -
  let ?p = "ram_words b base 8 ! 6"
  have 8: "stack_ok b base 8"
    using assms(2) block_ok_take [of _ b base 8 18] by (cases "exc_extended exc") auto
  have r8: "read_words b base 8 = (ram_words b base 8, b)" by (rule read_words_ram [OF 8])
  let ?d = "fst (crash_check c b ?p base)"
  have s: "same_ram b (snd (crash_check c b ?p base))" by (rule same_ram_crash_check)
  show ?thesis
  proof (cases "exc_extended exc")
    case True
    with assms(2) have "stack_ok b base (8 + Suc 17)" by simp
    then have "stack_ok b base (8 + Suc 16)" by (auto simp: block_ok_def)
    from return_words(3) [OF this s]
    have "fst (read_words (snd (crash_check c b ?p base)) (base + 0x20) 17) = ram_words b (base + 0x20) 17"
      by simp
    with True r8 show ?thesis
      unfolding exception_return_def base_def [symmetric] restored_def Let_def split_def
      by (intro bexI [of _ ?d] crash_check_cpu) simp
  next
    case False
    with r8 show ?thesis
      unfolding exception_return_def base_def [symmetric] restored_def Let_def split_def
      by (intro bexI [of _ ?d] crash_check_cpu) simp
  qed
qed


section \<open>Round trip\<close>

text \<open>The interrupted context, as far as the architecture gives it back.\<close>

definition same_context :: "cpu \<Rightarrow> cpu \<Rightarrow> bool" where
  "same_context c d =
     ((\<forall>i \<in> {0, 1, 2, 3, 12, SP, LR}. r d i = r c i) \<and> pc d = pc c \<and>
      nf d = nf c \<and> zf d = zf c \<and> cf d = cf c \<and> vf d = vf c \<and> qf d = qf c \<and>
      itstate d = itstate c \<and> ipsr d = ipsr c \<and> mode d = mode c \<and> sp_is_psp d = sp_is_psp c \<and>
      control d = control c \<and>
      (\<forall>i < 16. fp_active c \<longrightarrow> s_regs d i = s_regs c i) \<and> (fp_active c \<longrightarrow> fpscr d = fpscr c))"

lemma control_restored:
  fixes k :: u32
  shows "(if k AND 4 \<noteq> 0 then k OR 4 else k AND NOT 4) = k" (is ?A)
    and "(if k AND 2 \<noteq> 0 then k OR 2 else k AND NOT 2) = k" (is ?B)
proof -
  have g: "(if bit k n then k OR 2 ^ n else k AND NOT (2 ^ n)) = k" if "n < 32" for n
    using that by (auto intro!: bit_word_eqI simp: bit_or_iff bit_and_iff bit_not_iff)
  have b: "k AND 2 ^ n \<noteq> 0 \<longleftrightarrow> bit k n" for n
    using and_push_bit_1_iff [of k n] by (simp add: push_bit_eq_mult)
  have n: "(2 :: u32) ^ 2 = 4" "(2 :: u32) ^ 1 = 2" by simp_all
  show ?A unfolding b [of 2, unfolded n] by (rule g [of 2, unfolded n]) simp
  show ?B unfolding b [of 1, unfolded n] by (rule g [of 1, unfolded n]) simp
qed

lemma restore_mode_context:
  fixes sp :: u32
  assumes "sp_consistent c" and "control d = control c"
  defines "e \<equiv> restore_mode d (exc_return_code c) sp"
  shows "mode e = mode c" "control e = control c" "sp_is_psp e = sp_is_psp c" "r e SP = sp"
    "\<And>i. i \<noteq> SP \<Longrightarrow> r e i = r d i" "pc e = pc d" "nf e = nf d" "zf e = zf d" "cf e = cf d"
    "vf e = vf d" "qf e = qf d" "itstate e = itstate d" "ipsr e = ipsr d" "s_regs e = s_regs d"
    "fpscr e = fpscr d"
proof -
  have f: "(if fp_active c then control c OR 4 else control c AND NOT 4) = control c"
    unfolding fp_active_def by (rule control_restored)
  have p: "(if sp_is_psp c then control c OR 2 else control c AND NOT 2) = control c" if "mode c = Thread"
    using assms(1) that control_restored(2) [of "control c"] by (simp only: sp_consistent_def simp_thms)
  note u = restore_mode_def exc_code_fields Let_def assms(2) f
  note sc = assms(1) [unfolded sp_consistent_def]
  show "mode e = mode c" "control e = control c" "sp_is_psp e = sp_is_psp c" "r e SP = sp"
    "\<And>i. i \<noteq> SP \<Longrightarrow> r e i = r d i" "pc e = pc d" "nf e = nf d" "zf e = zf d" "cf e = cf d"
    "vf e = vf d" "qf e = qf d" "itstate e = itstate d" "ipsr e = ipsr d" "s_regs e = s_regs d"
    "fpscr e = fpscr d"
    using p sc unfolding e_def u by (cases "mode c"; cases "sp_is_psp c"; simp)+
qed


lemma frame_split:
  assumes "ram_words b a (length (frame_words c)) = frame_words c"
  shows "ram_words b a 8 = basic_frame c"
    and "fp_active c \<Longrightarrow> ram_words b (a + 0x20) 17 = map (s_regs c) [0..<16] @ [fpscr c]"
proof -
  have l: "length (basic_frame c) = 8" by (simp add: basic_frame_def)
  show "ram_words b a 8 = basic_frame c"
  proof (cases "fp_active c")
    case True
    with assms have "ram_words b a (8 + 18) = basic_frame c @ fp_frame c"
      by (simp add: length_frame_words) (simp add: frame_words_def)
    then show ?thesis unfolding load_words_add using l by (simp add: append_eq_append_conv)
  next
    case False
    with assms show ?thesis by (simp add: length_frame_words) (simp add: frame_words_def)
  qed
  assume fp: "fp_active c"
  with assms have "ram_words b a (8 + (17 + 1)) = basic_frame c @ fp_frame c"
    by (simp add: length_frame_words) (simp add: frame_words_def)
  then have "ram_words b (a + 0x20) (17 + 1) = fp_frame c"
    unfolding load_words_add [of _ _ _ 8] using l by (simp add: append_eq_append_conv)
  then show "ram_words b (a + 0x20) 17 = map (s_regs c) [0..<16] @ [fpscr c]"
    unfolding load_words_add [of _ _ _ 17] fp_frame_def by (simp add: append_eq_append_conv)
qed

lemma even_pc: "(x :: u32) AND 1 = 0 \<Longrightarrow> x AND NOT 1 = x"
  using and_not_add_and [of x 1] by simp

lemma restore_basic_sel:
  fixes d :: cpu
  assumes "pc c AND 1 = 0" and "ipsr c AND 0x1ff = ipsr c"
  defines "e \<equiv> restore_basic d (basic_frame c)"
  shows "i \<in> {0, 1, 2, 3, 12, LR} \<Longrightarrow> r e i = r c i" "pc e = pc c" "nf e = nf c" "zf e = zf c"
    "cf e = cf c" "vf e = vf c" "qf e = qf c" "itstate e = itstate c" "ipsr e = ipsr c"
    "control e = control d" "s_regs e = s_regs d" "fpscr e = fpscr d"
proof -
  have x: "basic_frame c ! 7 = build_xpsr c" "basic_frame c ! 6 = pc c"
    by (simp_all add: basic_frame_def)
  have p: "pc c AND NOT 1 = pc c" using assms(1) by (rule even_pc)
  show "i \<in> {0, 1, 2, 3, 12, LR} \<Longrightarrow> r e i = r c i"
    unfolding e_def restore_basic_def x flags_xpsr Let_def by (auto simp: basic_frame_def)
  show "pc e = pc c" "nf e = nf c" "zf e = zf c" "cf e = cf c" "vf e = vf c" "qf e = qf c"
    "itstate e = itstate c" "ipsr e = ipsr c"
    "control e = control d" "s_regs e = s_regs d" "fpscr e = fpscr d"
    unfolding e_def restore_basic_def x flags_xpsr itstate_xpsr ipsr_xpsr p assms(2) Let_def by simp_all
qed

text \<open>
  C4: Exception entry and exception return are inverse: whatever the handler does, if it
  leaves CONTROL, the interrupted stack pointer and the stacked frame alone, returning
  through the EXC_RETURN code that entry left in LR gives back R0-R3, R12, LR, SP, PC, the
  flags, the IT state, the exception number, the mode and the live stack pointer, and with
  floating point active also S0-S15 and FPSCR.
\<close>

theorem exception_round_trip:
  assumes "sp_consistent c" and "pc c AND 1 = 0" and "ipsr c AND 0x1ff = ipsr c"
    and "stack_ok b (frame_base c) (length (frame_words c))"
    and "exception_entry c b vec = (c1, b1)"
    and "control c' = control c1"
    and "(if sp_is_psp c then psp c' = psp c1 else msp c' = msp c1)"
    and "stack_ok b' (frame_base c) (length (frame_words c))"
    and "ram_words b' (frame_base c) (length (frame_words c)) = ram_words b1 (frame_base c) (length (frame_words c))"
  shows "same_context c (fst (exception_return c' b' (r c1 LR)))"
proof -
  let ?exc = "exc_return_code c" and ?base = "frame_base c"
  have b1: "b1 = snd (exception_entry c b vec)" using assms(5) by simp
  have w: "ram_words b' ?base (length (frame_words c)) = frame_words c"
    using assms(9) entry_frame(1) [OF assms(4), of vec] unfolding b1 by simp
  note en = entry_cpu [OF assms(5)]
  have ps: "exc_return_psp ?exc = sp_is_psp c"
    using assms(1) by (auto simp: exc_code_fields sp_consistent_def)
  have base: "(if exc_return_psp ?exc then psp c' else msp c') = ?base"
    using en(8) assms(7) unfolding ps by (cases "sp_is_psp c") simp_all
  have "stack_ok b' ?base (if exc_extended ?exc then 26 else 8)"
    using assms(8) unfolding length_frame_words exc_code_fields .
  then obtain d where d: "d \<in> dumped c'" and ret: "fst (exception_return c' b' ?exc) =
      restored d (ram_words b' ?base 8) (ram_words b' (?base + 0x20) 17) ?exc
        (if exc_extended ?exc then ?base + 0x20 + 72 else ?base + 0x20)"
    using exception_return_restored [of b' ?exc c'] unfolding base by blast
  define f where "f = (if fp_active c then restore_fp d (map (s_regs c) [0..<16] @ [fpscr c]) else d)"
  have sp: "(if fp_active c then ?base + 0x20 + 72 else ?base + 0x20) = r c SP"
    by (simp add: frame_base_def)
  have e: "fst (exception_return c' b' ?exc) = restore_mode (restore_basic f (basic_frame c)) ?exc (r c SP)"
    unfolding ret restored_def exc_code_fields sp frame_split(1) [OF w] f_def using frame_split(2) [OF w] by simp
  have "control d = control c" using d assms(6) en(7) by (auto simp: dumped_def)
  then have "control f = control c" by (simp add: f_def restore_fp_def)
  then have k: "control (restore_basic f (basic_frame c)) = control c"
    using restore_basic_sel(10) [OF assms(2,3)] by simp
  note m = restore_mode_context [OF assms(1) k, where sp = "r c SP"] and s = restore_basic_sel [OF assms(2,3), where d = f]
  have fp: "fp_active c \<Longrightarrow> i < 16 \<Longrightarrow> s_regs f i = s_regs c i" "fp_active c \<Longrightarrow> fpscr f = fpscr c" for i
    by (simp_all add: f_def restore_fp_def nth_append)
  show ?thesis
    unfolding en(5) same_context_def e using m s fp by simp
qed


text \<open>A bus with one RAM region, for the concrete instances below.\<close>

definition demo_bus :: bus where
  "demo_bus = add_ram bus_new 0x20000000 0x1000"

lemma demo_ram_ok: "0x20000000 \<le> a \<Longrightarrow> a < 0x20000ff0 \<Longrightarrow> ram_ok demo_bus a 4"
proof -
  assume a: "0x20000000 \<le> a" "a < 0x20000ff0"
  have u: "unat (a + 4) = unat a + 4"
    using a(2) by (subst unat_add_lem [THEN iffD1]) (auto simp: word_less_nat_alt)
  have "a + 4 \<le> 0x20001000" using a u by (simp add: word_le_nat_alt word_less_nat_alt)
  moreover have "unat (a - 0x20000000) + 4 \<le> 0x1000"
    using a by (simp add: unat_sub word_le_nat_alt word_less_nat_alt)
  moreover have "a AND NOT 3 \<noteq> SCB_ICSR \<and> a AND NOT 3 \<noteq> SCB_AIRCR"
    using a word_and_le2 [of a "NOT 3"] and_not_3_cases [of a] by (auto simp: word_less_nat_alt word_le_nat_alt)
  ultimately show ?thesis
    using a by (auto simp: ram_ok_def demo_bus_def add_ram_def bus_new_def fold_addr_def intercepted_def
        in_range_def ram_for_def ram_in_bounds_def word_less_nat_alt word_le_nat_alt)
qed

lemma demo_stack_ok:
  assumes "\<And>k. k < n \<Longrightarrow> 0x20000000 \<le> unat a + 4 * k \<and> unat a + 4 * k < 0x20000ff0"
    and "unat a + 4 * n \<le> 2 ^ 32"
  shows "stack_ok demo_bus a n"
proof -
  have "ram_ok demo_bus (a + 4 * of_nat k) 4" if "k < n" for k
  proof (rule demo_ram_ok)
    have "unat (a + 4 * of_nat k) = unat a + 4 * k" by (rule unat_step [OF assms(2) that])
    then show "0x20000000 \<le> a + 4 * of_nat k" "a + 4 * of_nat k < 0x20000ff0"
      using assms(1) [OF that] by (simp_all add: word_le_nat_alt word_less_nat_alt)
  qed
  then show ?thesis using assms(2) by (simp add: block_ok_def)
qed

definition demo_cpu :: cpu where
  "demo_cpu = cpu_new\<lparr>r := (\<lambda>i. of_nat (i * 3))(SP := 0x20000800), pc := 0x08000200, zf := True,
     control := 4, itstate := 0x35, s_regs := (\<lambda>i. of_nat i + 7), fpscr := 0x60000000\<rparr>"

theorem exception_round_trip_witness:
  "same_context demo_cpu (fst (exception_return (fst (exception_entry demo_cpu demo_bus 15))
     (snd (exception_entry demo_cpu demo_bus 15)) (r (fst (exception_entry demo_cpu demo_bus 15)) LR)))"
proof -
  let ?n = "length (frame_words demo_cpu)"
  have f: "fp_active demo_cpu" by (simp add: fp_active_def demo_cpu_def)
  have b: "frame_base demo_cpu = 0x20000798" using f by (simp add: frame_base_def) (simp add: demo_cpu_def)
  have k: "stack_ok demo_bus (frame_base demo_cpu) ?n"
    unfolding length_frame_words b using f by (intro demo_stack_ok) auto
  show ?thesis
    by (rule exception_round_trip [where b = demo_bus and vec = 15])
      (use k entry_frame(2) [OF k, where vec = 15] in
        \<open>simp_all add: sp_consistent_def demo_cpu_def cpu_new_def\<close>)
qed

end
