(* ===== verification/Cpu_Block.thy ===== *)
theory Cpu_Block
  imports Cpu_Mem Cpu_Stack
begin

text \<open>
  Load and store multiple. The transfer loop is the block store and block load of
  \<open>word_memory\<close> over the registers the mask selects, in ascending order, so PUSH and POP
  inherit the locale's read-back laws.
\<close>

unbundle bit_operations_syntax

lemma bt_store:
  "bt_loop is m True a pcv c b = (pcv, c, store_words write32 b a (map (read_reg c) (filter (bit m) is)))"
  by (induction "is" arbitrary: a b) simp_all

text \<open>A load writes the registers other than PC; \<open>f\<close> gives the word meant for each register.\<close>

definition loaded :: "(nat \<Rightarrow> u32) \<Rightarrow> nat list \<Rightarrow> cpu \<Rightarrow> cpu" where
  "loaded f is c = c\<lparr>r := (\<lambda>i. if i \<in> set is \<and> i \<noteq> 15 then f i else r c i)\<rparr>"

lemma loaded_Nil [simp]: "loaded f [] c = c"
  by (simp add: loaded_def)

lemma loaded_Cons: "loaded f (i # is) c = loaded f is (if i = 15 then c else set_r c i (f i))"
proof -
  have "(\<lambda>j. if j \<in> set (i # is) \<and> j \<noteq> 15 then f j else r c j) =
    (\<lambda>j. if j \<in> set is \<and> j \<noteq> 15 then f j else r (if i = 15 then c else set_r c i (f i)) j)"
    by (auto simp: fun_eq_iff set_r_def)
  then show ?thesis unfolding loaded_def by (cases "i = 15") (simp_all add: set_r_def)
qed

lemma bt_load:
  assumes "stack_ok b a (length (filter (bit m) is))"
    and "ram_words b a (length (filter (bit m) is)) = map f (filter (bit m) is)"
  shows "bt_loop is m False a pcv c b =
    (if 15 \<in> set (filter (bit m) is) then Some (f 15) else pcv, loaded f (filter (bit m) is) c, b)"
  using assms
proof (induction "is" arbitrary: a c pcv)
  case (Cons i "is")
  show ?case
  proof (cases "bit m i")
    case False
    with Cons show ?thesis by simp
  next
    case True
    let ?n = "length (filter (bit m) is)"
    from Cons.prems(1) True have k: "stack_ok b a (Suc ?n)" by simp
    from block_ok_Suc [OF k] have B: "ram_ok b a 4" "?n = 0 \<or> stack_ok b (a + 4) ?n" by auto
    from Cons.prems(2) True have w: "fst (read32 b a) = f i"
      "ram_words b (a + 4) ?n = map f (filter (bit m) is)" by simp_all
    have rd: "read32 b a = (f i, b)" using w(1) read32_ram [OF B(1)] by simp
    have k2: "stack_ok b (a + 4) ?n" using B(2) by (cases "?n = 0") simp_all
    show ?thesis
      using True Cons.IH [OF k2 w(2)] by (simp add: rd loaded_Cons)
  qed
qed simp

text \<open>
  C5: PUSH and POP are inverse: whatever runs in between, if it gives the stack pointer and
  the pushed words back, POP of the same register list restores every listed register and
  the stack pointer, and leaves every other register and the memory alone.
\<close>

theorem push_pop_round_trip:
  assumes "\<not> bit m 13" and "\<not> bit m 15"
    and "stack_ok b (r c SP - 4 * of_nat (count_ones m)) (count_ones m)"
    and "exec_mem c b Op_PUSH (Ops (RegList m) y z w) raw len = Ok (c1, b1)"
    and "r c' SP = r c1 SP" and "stack_ok b' (r c1 SP) (count_ones m)"
    and "ram_words b' (r c1 SP) (count_ones m) = ram_words b1 (r c1 SP) (count_ones m)"
    and "exec_mem c' b' Op_POP (Ops (RegList m) y z w) raw len = Ok (c2, b2)"
  shows "(\<forall>i < 16. bit m i \<longrightarrow> r c2 i = r c i) \<and> r c2 SP = r c SP \<and>
         (\<forall>i. \<not> bit m i \<and> i \<noteq> SP \<longrightarrow> r c2 i = r c' i) \<and> b2 = b'"
proof -
  let ?n = "count_ones m" and ?f = "filter (bit m) [0..<16]"
  have n: "?n = length ?f" by (simp add: count_ones_def)
  have f15: "15 \<notin> set ?f" "13 \<notin> set ?f" using assms(1,2) by auto
  let ?a = "r c SP - 4 * of_nat ?n"
  have push: "b1 = store_words write32 b ?a (map (read_reg c) ?f)" "r c1 SP = ?a"
    using assms(4) by (auto simp: exec_mem_def reglist_def stmdb_regs_def block_transfer_def block_start_def bt_store
        Let_def)
  have w: "ram_words b' ?a (length ?f) = map (read_reg c) ?f"
    using assms(7) ram.load_store [of b ?a "map (read_reg c) ?f"] assms(3) unfolding push(2) n
    by (simp add: push(1)[unfolded n])
  have "bt_loop [0..<16] m False ?a None c' b' = (None, loaded (read_reg c) ?f c', b')"
    using bt_load [OF _ w, of None c'] assms(6) f15 unfolding push(2) n by simp
  then have pop: "c2 = set_r (loaded (read_reg c) ?f c') SP (?a + 4 * of_nat ?n)" "b2 = b'"
    using assms(5,8) unfolding push(2)
    by (auto simp: exec_mem_def reglist_def ldmia_regs_def block_transfer_def block_start_def Let_def)
  have "r c2 SP = r c SP" unfolding pop by simp
  moreover have "r c2 i = r c i" if "i < 16" "bit m i" for i
  proof -
    have "i \<noteq> 13" "i \<noteq> 15" using that assms(1,2) by auto
    then show ?thesis using that unfolding pop by (simp add: loaded_def read_reg_def)
  qed
  moreover have "r c2 i = r c' i" if "\<not> bit m i" "i \<noteq> SP" for i
    using that unfolding pop by (simp add: loaded_def)
  ultimately show ?thesis using pop(2) by blast
qed

text \<open>PUSH \<open>{r4, r5}\<close>, then r4 is overwritten, then POP \<open>{r4, r5}\<close>.\<close>

definition pushed :: machine where
  "pushed = stmdb_regs demo_cpu demo_bus SP 0x30 True"

definition popped :: machine where
  "popped = ldmia_regs (set_r (fst pushed) 4 99) (snd pushed) SP 0x30 True"

lemma count_r45: "count_ones (0x30 :: u16) = 2"
  by (simp add: count_ones_def upt_rec)

lemma pushed_eq:
  "pushed = (set_r demo_cpu SP 0x200007f8, store_words write32 demo_bus 0x200007f8 [12, 15])"
  by (simp add: pushed_def stmdb_regs_def block_transfer_def block_start_def bt_store Let_def count_r45
      demo_cpu_def upt_rec read_reg_def)

lemma pushed_stack: "stack_ok demo_bus 0x200007f8 2" "stack_ok (snd pushed) 0x200007f8 2"
proof -
  show k: "stack_ok demo_bus 0x200007f8 2" by (intro demo_stack_ok) auto
  then have "ram_ok (snd pushed) a 4 = ram_ok demo_bus a 4" for a
    unfolding pushed_eq snd_conv by (intro ram.store_ok) (simp add: numeral_2_eq_2)
  with k show "stack_ok (snd pushed) 0x200007f8 2" by (simp add: block_ok_def)
qed

theorem push_pop_round_trip_witness:
  "r (fst pushed) SP = 0x200007f8 \<and> r (fst popped) 4 = 12 \<and> r (fst popped) SP = 0x20000800 \<and>
   r (fst popped) 6 = 18"
proof -
  have sp: "r demo_cpu SP - 8 = 0x200007f8" by (simp add: demo_cpu_def)
  have p: "r (fst pushed) SP = 0x200007f8" by (simp add: pushed_eq)
  have "(\<forall>i < 16. bit (0x30 :: u16) i \<longrightarrow> r (fst popped) i = r demo_cpu i) \<and>
      r (fst popped) SP = r demo_cpu SP \<and>
      (\<forall>i. \<not> bit (0x30 :: u16) i \<and> i \<noteq> SP \<longrightarrow> r (fst popped) i = r (set_r (fst pushed) 4 99) i) \<and>
      snd popped = snd pushed"
  proof (rule push_pop_round_trip)
    show "exec_mem demo_cpu demo_bus Op_PUSH (Ops (RegList 0x30) Nothing Nothing Nothing) 0 2 =
        Ok (fst pushed, snd pushed)"
      by (simp add: exec_mem_def reglist_def pushed_def)
    show "exec_mem (set_r (fst pushed) 4 99) (snd pushed) Op_POP
        (Ops (RegList 0x30) Nothing Nothing Nothing) 0 2 = Ok (fst popped, snd popped)"
      by (simp add: exec_mem_def reglist_def popped_def)
  qed (use pushed_stack sp p in \<open>simp_all add: count_r45\<close>)
  then have "r (fst popped) 4 = r demo_cpu 4 \<and> r (fst popped) SP = r demo_cpu SP \<and>
      r (fst popped) 6 = r (set_r (fst pushed) 4 99) 6" by simp
  then show ?thesis unfolding pushed_eq by (simp add: demo_cpu_def)
qed

end
