(* ===== verification/Cpu_Vfp.thy ===== *)
theory Cpu_Vfp
  imports Cpu_Mem
begin

text \<open>
  The floating-point half of \<open>src/cpu.rs\<close>, executed from the raw word: register loads and
  stores, moves between the register files, and data processing. IEEE arithmetic and the
  integer conversions are the host's (\<open>fpu\<close>, a parameter); sign, absolute value and
  comparison are worked out on the bit patterns.
\<close>

unbundle bit_operations_syntax

record fpu =
  fadd :: "u32 \<Rightarrow> u32 \<Rightarrow> u32"
  fsub :: "u32 \<Rightarrow> u32 \<Rightarrow> u32"
  fmul :: "u32 \<Rightarrow> u32 \<Rightarrow> u32"
  fdiv :: "u32 \<Rightarrow> u32 \<Rightarrow> u32"
  fsqrt :: "u32 \<Rightarrow> u32"
  f_of_i32 :: "u32 \<Rightarrow> u32"
  f_of_u32 :: "u32 \<Rightarrow> u32"
  f_to_i32 :: "u32 \<Rightarrow> u32"
  f_to_u32 :: "u32 \<Rightarrow> u32"
  dadd :: "u64 \<Rightarrow> u64 \<Rightarrow> u64"
  dsub :: "u64 \<Rightarrow> u64 \<Rightarrow> u64"
  dmul :: "u64 \<Rightarrow> u64 \<Rightarrow> u64"
  ddiv :: "u64 \<Rightarrow> u64 \<Rightarrow> u64"

section \<open>Bit patterns\<close>

definition fneg :: "u32 \<Rightarrow> u32" where "fneg x = x XOR 0x80000000"
definition fabs :: "u32 \<Rightarrow> u32" where "fabs x = x AND 0x7FFFFFFF"
definition dneg :: "u64 \<Rightarrow> u64" where "dneg x = x XOR 0x8000000000000000"
definition dabs :: "u64 \<Rightarrow> u64" where "dabs x = x AND 0x7FFFFFFFFFFFFFFF"

definition fnan :: "u32 \<Rightarrow> bool" where "fnan x = (0x7F800000 < fabs x)"

text \<open>IEEE order of two numbers that are not NaN: sign and magnitude, the two zeros equal.\<close>

definition fkey :: "u32 \<Rightarrow> int" where
  "fkey x = (if bit x 31 then - uint (fabs x) else uint (fabs x))"

definition feq :: "u32 \<Rightarrow> u32 \<Rightarrow> bool" where
  "feq a b = (\<not> fnan a \<and> \<not> fnan b \<and> fkey a = fkey b)"

definition flt :: "u32 \<Rightarrow> u32 \<Rightarrow> bool" where
  "flt a b = (\<not> fnan a \<and> \<not> fnan b \<and> fkey a < fkey b)"

definition fp_compare :: "cpu \<Rightarrow> u32 \<Rightarrow> u32 \<Rightarrow> cpu" where
  "fp_compare c a b =
     (let (n, z, cy, v) =
        (if fnan a \<or> fnan b then (False, False, True, True)
         else if feq a b then (False, True, True, False)
         else if flt a b then (True, False, False, False)
         else (False, False, True, False)) in
      c\<lparr>fpscr := (fpscr c AND 0x0FFFFFFF) OR push_bit 31 (b2w n) OR push_bit 30 (b2w z)
         OR push_bit 29 (b2w cy) OR push_bit 28 (b2w v)\<rparr>)"

definition vfp_expand_imm32 :: "u32 \<Rightarrow> u32" where
  "vfp_expand_imm32 imm8 =
     (let sign = drop_bit 7 imm8 AND 1; b6 = drop_bit 6 imm8 AND 1;
          ex = push_bit 7 (1 - b6) OR push_bit 2 (if b6 = 1 then 0x1F else 0) OR (drop_bit 4 imm8 AND 3);
          frac = push_bit 19 (imm8 AND 0xF) in
      push_bit 31 sign OR push_bit 23 ex OR frac)"

section \<open>Data processing\<close>

definition get_d :: "cpu \<Rightarrow> nat \<Rightarrow> u64" where
  "get_d c i = ucast (s_regs c i) OR push_bit 32 (ucast (s_regs c (i + 1)))"

definition set_d :: "cpu \<Rightarrow> nat \<Rightarrow> u64 \<Rightarrow> cpu" where
  "set_d c i v = set_s (set_s c i (ucast v)) (i + 1) (ucast (drop_bit 32 v))"

definition d_index :: "u32 \<Rightarrow> u32 \<Rightarrow> nat" where
  "d_index x b = unat ((push_bit 4 b OR x) AND 15) * 2"

definition s_index :: "u32 \<Rightarrow> u32 \<Rightarrow> nat" where
  "s_index x b = unat ((push_bit 1 x OR b) AND 31)"

text \<open>The fields of a data-processing word.\<close>

record vfp_fields =
  v_d :: u32
  v_opc1 :: u32
  v_vn :: u32
  v_b23 :: u32
  v_vd :: u32
  v_n :: u32
  v_op :: u32
  v_m :: u32
  v_vm :: u32

definition vfp_fields :: "u32 \<Rightarrow> u32 \<Rightarrow> vfp_fields" where
  "vfp_fields hw1 hw2 = \<lparr>v_d = drop_bit 6 hw1 AND 1, v_opc1 = drop_bit 4 hw1 AND 3, v_vn = hw1 AND 0xF,
     v_b23 = drop_bit 7 hw1 AND 1, v_vd = drop_bit 12 hw2 AND 0xF, v_n = drop_bit 7 hw2 AND 1,
     v_op = drop_bit 6 hw2 AND 1, v_m = drop_bit 5 hw2 AND 1, v_vm = hw2 AND 0xF\<rparr>"

definition vfp_double :: "fpu \<Rightarrow> cpu \<Rightarrow> vfp_fields \<Rightarrow> cpu" where
  "vfp_double F c w =
     (let dd = d_index (v_vd w) (v_d w); dn = d_index (v_vn w) (v_n w); dm = d_index (v_vm w) (v_m w);
          a = get_d c dn; b = get_d c dm; op = v_op w in
      if v_b23 w = 0 then
        set_d c dd
          (if v_opc1 w = 0 then
             (if op = 0 then dadd F (get_d c dd) (dmul F a b) else dsub F (get_d c dd) (dmul F a b))
           else if v_opc1 w = 2 then (if op = 0 then dmul F a b else dneg (dmul F a b))
           else if v_opc1 w = 3 then (if op = 0 then dadd F a b else dsub F a b)
           else a)
      else if v_opc1 w = 0 then set_d c dd (ddiv F a b)
      else if v_opc1 w = 3 \<and> v_vn w = 0 then set_d c dd (if op = 0 then get_d c dm else dabs (get_d c dm))
      else c)"

definition vfp_single_arith :: "fpu \<Rightarrow> u32 \<Rightarrow> u32 \<Rightarrow> u32 \<Rightarrow> u32 \<Rightarrow> u32 \<Rightarrow> u32" where
  "vfp_single_arith F opc1 op acc a b =
     (if opc1 = 0 then (if op = 0 then fadd F acc (fmul F a b) else fsub F acc (fmul F a b))
      else if opc1 = 1 then
        (if op = 0 then fsub F (fmul F a b) acc else fsub F (fneg (fmul F a b)) acc)
      else if opc1 = 2 then (if op = 0 then fmul F a b else fneg (fmul F a b))
      else if op = 0 then fadd F a b else fsub F a b)"

definition vfp_single_ext :: "fpu \<Rightarrow> cpu \<Rightarrow> vfp_fields \<Rightarrow> nat \<Rightarrow> nat \<Rightarrow> cpu" where
  "vfp_single_ext F c w sd sm =
     (let m = s_regs c sm; op = v_op w; vn = v_vn w in
      if vn = 0 then set_s c sd (if op = 0 then m else fabs m)
      else if vn = 1 then set_s c sd (if op = 0 then fneg m else fsqrt F m)
      else if vn = 4 \<or> vn = 5 then fp_compare c (s_regs c sd) (if vn AND 1 = 1 then 0 else m)
      else if vn = 8 then set_s c sd (if op = 1 then f_of_i32 F m else f_of_u32 F m)
      else if vn = 12 \<or> vn = 13 then set_s c sd (if vn AND 1 = 1 then f_to_i32 F m else f_to_u32 F m)
      else c)"

definition vfp_single :: "fpu \<Rightarrow> cpu \<Rightarrow> u32 \<Rightarrow> u32 \<Rightarrow> vfp_fields \<Rightarrow> cpu" where
  "vfp_single F c hw1 hw2 w =
     (let sd = s_index (v_vd w) (v_d w); sn = s_index (v_vn w) (v_n w); sm = s_index (v_vm w) (v_m w);
          a = s_regs c sn; b = s_regs c sm in
      if v_b23 w = 0 then set_s c sd (vfp_single_arith F (v_opc1 w) (v_op w) (s_regs c sd) a b)
      else if v_opc1 w = 0 then set_s c sd (fdiv F a b)
      else if v_opc1 w = 3 then
        (if hw2 AND 0xF0 = 0 then set_s c sd (vfp_expand_imm32 (push_bit 4 (hw1 AND 0xF) OR (hw2 AND 0xF)))
         else vfp_single_ext F c w sd sm)
      else c)"

definition exec_vfp_dp :: "fpu \<Rightarrow> cpu \<Rightarrow> u32 \<Rightarrow> u32 \<Rightarrow> cpu" where
  "exec_vfp_dp F c hw1 hw2 =
     (let coproc_fp = (hw2 AND 0x0E00 = 0x0A00); rt = unat (drop_bit 12 hw2 AND 0xF) in
      if hw1 = 0xEEF1 \<and> coproc_fp \<and> hw2 AND 0x00F0 = 0x0010 then
        (if rt = 15 then c\<lparr>nf := bit_set (fpscr c) 31, zf := bit_set (fpscr c) 30,
           cf := bit_set (fpscr c) 29, vf := bit_set (fpscr c) 28\<rparr>
         else set_r c rt (fpscr c))
      else if hw1 = 0xEEE1 \<and> coproc_fp then c\<lparr>fpscr := r c rt\<rparr>
      else if hw1 AND 0xFFE0 = 0xEE00 \<and> hw2 AND 0x0F7F = 0x0A10 then
        (let sn = unat (push_bit 1 (hw1 AND 0xF) OR (drop_bit 7 hw2 AND 1)) in
         if drop_bit 4 hw1 AND 1 = 1 then set_r c rt (s_regs c sn) else set_s c sn (r c rt))
      else
        (let w = vfp_fields hw1 hw2 in
         if drop_bit 8 hw2 AND 1 = 1 then vfp_double F c w else vfp_single F c hw1 hw2 w))"

section \<open>Loads and stores\<close>

definition vls_single :: "bool \<Rightarrow> nat \<Rightarrow> u32 \<Rightarrow> machine \<Rightarrow> machine" where
  "vls_single l i a m = (case m of (c, b) \<Rightarrow>
     if l then (let (v, b1) = read32 b a in (set_s c (i mod 32) v, b1))
     else (c, write32 b a (s_regs c (i mod 32))))"

definition vls_double :: "bool \<Rightarrow> nat \<Rightarrow> u32 \<Rightarrow> machine \<Rightarrow> machine" where
  "vls_double l i a m = (case m of (c, b) \<Rightarrow> let k = (i mod 16) * 2 in
     if l then
       (let (v, b1) = read32 b a; (u, b2) = read32 b1 (a + 4) in (set_s (set_s c k v) (k + 1) u, b2))
     else (c, write32 (write32 b a (s_regs c k)) (a + 4) (s_regs c (k + 1))))"

fun vls_list :: "bool \<Rightarrow> bool \<Rightarrow> nat \<Rightarrow> nat \<Rightarrow> u32 \<Rightarrow> machine \<Rightarrow> machine" where
  "vls_list single l i 0 a m = m"
| "vls_list single l i (Suc n) a m =
     vls_list single l (i + 1) n (a + (if single then 4 else 8))
       (if single then vls_single l i a m else vls_double l i a m)"

definition vfp_load_store :: "cpu \<Rightarrow> bus \<Rightarrow> u32 \<Rightarrow> u32 \<Rightarrow> machine" where
  "vfp_load_store c b hw1 hw2 =
     (let p = drop_bit 8 hw1 AND 1; u = drop_bit 7 hw1 AND 1; d = drop_bit 6 hw1 AND 1;
          w = drop_bit 5 hw1 AND 1; l = (drop_bit 4 hw1 AND 1 = 1); rn = unat (hw1 AND 0xF);
          vd = drop_bit 12 hw2 AND 0xF; single = (drop_bit 8 hw2 AND 1 = 0); imm8 = hw2 AND 0xFF;
          first = unat (if single then push_bit 1 vd OR d else push_bit 4 d OR vd) in
      if p = 1 \<and> w = 0 then
        (let base = (if rn = 15 then (cur_insn c + 4) AND NOT 3 else r c rn); off = push_bit 2 imm8;
             a = (if u = 1 then base + off else base - off) in
         if single then vls_single l first a (c, b) else vls_double l first a (c, b))
      else
        (let count = (if single then imm8 else imm8 div 2); stride = (if single then 4 else 8);
             total = stride * count; base = r c rn;
             (c1, b1) = vls_list single l first (unat count) (if u = 1 then base else base - total) (c, b) in
         (if w = 1 then set_r c1 rn (if u = 1 then base + total else base - total) else c1, b1)))"

definition fp_mark :: "cpu \<Rightarrow> cpu" where
  "fp_mark c = c\<lparr>last_vfp := True, control := control c OR 4\<rparr>"

definition try_vfp :: "fpu \<Rightarrow> cpu \<Rightarrow> bus \<Rightarrow> u32 \<Rightarrow> u32 \<Rightarrow> bool \<times> machine" where
  "try_vfp F c b raw a =
     (let hw1 = raw AND 0xFFFF; hw2 = drop_bit 16 raw AND 0xFFFF in
      if drop_bit 9 hw1 \<noteq> 0x76 then
        (if hw1 AND 0xFF00 = 0xEE00 \<and> hw2 AND 0x0E00 = 0x0A00
         then (True, (exec_vfp_dp F (fp_mark c) hw1 hw2)\<lparr>pc := a + 4\<rparr>, b)
         else (False, c, b))
      else (let (c1, b1) = vfp_load_store (fp_mark c) b hw1 hw2 in (True, c1\<lparr>pc := a + 4\<rparr>, b1)))"

end
