(* ===== verification/Cpu_Step.thy ===== *)
theory Cpu_Step
  imports Cpu_Vfp
begin

text \<open>
  The interpreter proper (\<open>execute\<close>, \<open>fetch_decode\<close>, \<open>step\<close> of \<open>src/cpu.rs\<close>) and the
  boot-ROM service it enters at a trap address (\<open>rom_dispatch\<close>, \<open>verify_slot\<close> of
  \<open>src/romapi.rs\<close>). Outside code is the environment \<open>env\<close>: the instruction decoder, the
  floating-point unit, the NXP page parsers and the image verifier.
\<close>

unbundle bit_operations_syntax

record env =
  decode :: "u32 \<Rightarrow> (insn \<times> u32) option"
  fpu_of :: fpu
  cfpa_version :: "u8 list \<Rightarrow> u32"
  cmpa_parses :: "u8 list \<Rightarrow> bool"
  cfpa_parses :: "u8 list \<Rightarrow> bool"
  verify_image :: "u8 list \<Rightarrow> u8 list \<Rightarrow> u8 list \<Rightarrow> bool"

datatype trap = Trap_Decode u32 | Trap_Unimplemented u32 u32

section \<open>Boot-ROM calls\<close>

abbreviation (input) SKBOOT_SUCCESS :: u32 where "SKBOOT_SUCCESS \<equiv> 0x5ac3c35a"
abbreviation (input) SKBOOT_FAIL :: u32 where "SKBOOT_FAIL \<equiv> 0xc35ac35a"
abbreviation (input) SECURE_TRACKER_VERIFIED :: u32 where "SECURE_TRACKER_VERIFIED \<equiv> 0x55aacc33"
abbreviation (input) SECURE_FALSE :: u32 where "SECURE_FALSE \<equiv> 0x5aa55aa5"
abbreviation (input) SETTLE_STEPS :: nat where "SETTLE_STEPS \<equiv> 1024"

definition verify_slot :: "env \<Rightarrow> bus \<Rightarrow> u32 \<Rightarrow> bool" where
  "verify_slot E b start0 = (case rotfl b of
     None \<Rightarrow> False
   | Some f \<Rightarrow>
       (let start = start0 AND NOT SECURE_ALIAS_BIT;
            hdr_len = unat (rot_read_mem32 f (start + 0x20));
            len = (if 0x100 \<le> hdr_len \<and> hdr_len \<le> SIZE then hdr_len else SIZE);
            cmpa = cmpa_bytes f; cfpa = active_cfpa_bytes (cfpa_version E) f in
        cmpa_parses E cmpa \<and> cfpa_parses E cfpa \<and> verify_image E (rot_slice f start len) cmpa cfpa))"

definition rom_dispatch :: "env \<Rightarrow> cpu \<Rightarrow> bus \<Rightarrow> machine" where
  "rom_dispatch E c b =
     (if pc c \<noteq> AUTH_TRAP then (c\<lparr>pc := r c LR AND NOT 1\<rparr>, b)
      else case rom_call c of
        RomIdle \<Rightarrow> (c\<lparr>rom_call := RomSettling SETTLE_STEPS (r c 1) (verify_slot E b (r c 0))\<rparr>, b)
      | RomSettling left ptr ok \<Rightarrow>
          if 0 < left then (c\<lparr>rom_call := RomSettling (left - 1) ptr ok\<rparr>, b)
          else
            (let c1 = set_r (c\<lparr>rom_call := RomIdle\<rparr>) 0 (if ok then SKBOOT_SUCCESS else SKBOOT_FAIL) in
             (c1\<lparr>pc := r c LR AND NOT 1\<rparr>,
              write32 b ptr (if ok then SECURE_TRACKER_VERIFIED else SECURE_FALSE))))"

section \<open>Hints, branches, system instructions\<close>

definition wfi_throttled :: "cpu \<Rightarrow> cpu" where
  "wfi_throttled c =
     (if 0 < sp_tick_credit c then c\<lparr>sp_tick_credit := sp_tick_credit c - 1, systick := 1\<rparr>
      else if tick_frozen c then c\<lparr>idle_skip := 1\<rparr>
      else c\<lparr>idle_skip := systick c, systick := 1\<rparr>)"

definition exec_wfi :: "cpu \<Rightarrow> bus \<Rightarrow> machine" where
  "exec_wfi c b =
     (let (p, b1) = any_pending_irq b; c1 = (if \<not> p then c\<lparr>wfi_idle := True\<rparr> else c) in
      if wfi_throttle c1 \<and> 1 < systick c1 then
        (let (p2, b2) = any_pending_irq b1 in (if \<not> p2 then wfi_throttled c1 else c1, b2))
      else (c1, b1))"

definition exec_hint :: "cpu \<Rightarrow> bus \<Rightarrow> hint_op \<Rightarrow> operands \<Rightarrow> machine outcome" where
  "exec_hint c b op ops = (case op of
     Op_WFI \<Rightarrow> Ok (exec_wfi c b)
   | Op_IT \<Rightarrow> need (imm_val (op0 ops)) (c, b) (\<lambda>fc. need (imm_val (op1 ops)) (c, b) (\<lambda>m.
       Ok (c\<lparr>itstate := push_bit 4 (ucast fc AND 0xF) OR (ucast m AND 0xF)\<rparr>, b)))
   | _ \<Rightarrow> Ok (c, b))"

definition table_regs :: "operand \<Rightarrow> (nat \<times> nat) option" where
  "table_regs x = (case x of
     RegDerefPreindexReg n m _ _ \<Rightarrow> Some (n, m)
   | RegDerefPreindexRegShift n rs _ _ \<Rightarrow>
       (case rs of RegImm m _ _ \<Rightarrow> Some (n, m) | RegReg _ _ _ \<Rightarrow> None)
   | _ \<Rightarrow> None)"

definition table_branch :: "cpu \<Rightarrow> bus \<Rightarrow> operands \<Rightarrow> bool \<Rightarrow> machine outcome" where
  "table_branch c b ops half = need (table_regs (op0 ops)) (c, b) (\<lambda>(rn, rm).
     let base = (if rn = 15 then cur_insn c + 4 else r c rn); idx = r c rm;
         (off, b1) = (if half then read_sized b Half (base + push_bit 1 idx)
                      else read_sized b Byte (base + idx)) in
     Ok (c\<lparr>pc := cur_insn c + 4 + push_bit 1 off\<rparr>, b1))"

definition exec_branch ::
  "cpu \<Rightarrow> bus \<Rightarrow> branch_op \<Rightarrow> operands \<Rightarrow> cond \<Rightarrow> u32 \<Rightarrow> u32 \<Rightarrow> u32 \<Rightarrow> machine outcome" where
  "exec_branch c b op ops cc a len raw = (case op of
     Op_CBZ \<Rightarrow> need (reg (op0 ops)) (c, b) (\<lambda>rn.
       Ok (if read_reg c rn = 0 then c\<lparr>pc := cbz_target raw a\<rparr> else c, b))
   | Op_CBNZ \<Rightarrow> need (reg (op0 ops)) (c, b) (\<lambda>rn.
       Ok (if read_reg c rn \<noteq> 0 then c\<lparr>pc := cbz_target raw a\<rparr> else c, b))
   | Op_B \<Rightarrow> Ok (if cond_holds c cc then c\<lparr>pc := thumb_branch_target raw a len\<rparr> else c, b)
   | Op_BL \<Rightarrow> Ok ((set_r c LR ((a + len) OR 1))\<lparr>pc := thumb_branch_target raw a len\<rparr>, b)
   | Op_BLX \<Rightarrow> need (reg (op0 ops)) (c, b) (\<lambda>rm. let t = read_reg c rm in
       Ok ((set_r c LR ((a + len) OR 1))\<lparr>pc := t AND NOT 1\<rparr>, b))
   | Op_BX \<Rightarrow> need (reg (op0 ops)) (c, b) (\<lambda>rm. Ok (load_pc c b (read_reg c rm)))
   | Op_TBB \<Rightarrow> table_branch c b ops False
   | Op_TBH \<Rightarrow> table_branch c b ops True)"

definition exec_sys :: "cpu \<Rightarrow> bus \<Rightarrow> sys_op \<Rightarrow> u32 \<Rightarrow> u32 \<Rightarrow> machine outcome" where
  "exec_sys c b op a raw =
     (let c1 = c\<lparr>last_sys := True\<rparr>; sysm = drop_bit 16 raw AND 0xFF in
      case op of
     Op_MRS \<Rightarrow> Ok (write_reg c1 (unat (drop_bit 24 raw AND 0xF)) (read_special c1 sysm), b)
   | Op_MSR \<Rightarrow> Ok (write_special c1 sysm (read_reg c1 (unat (raw AND 0xF))), b)
   | Op_CPS disable \<Rightarrow> Ok (c1\<lparr>primask := disable\<rparr>, b)
   | Op_SVC \<Rightarrow> Ok (exception_entry c b 11)
   | Op_UDF \<Rightarrow> Err (c, b)
   | Op_BKPT \<Rightarrow> if debug_en c then Ok (c\<lparr>pc := a, halted := True, bkpt_hit := True\<rparr>, b) else Err (c, b))"

section \<open>execute\<close>

definition with_bus :: "cpu outcome \<Rightarrow> bus \<Rightarrow> machine outcome" where
  "with_bus x b = (case x of Ok c \<Rightarrow> Ok (c, b) | Err c \<Rightarrow> Err (c, b))"

definition execute :: "insn \<Rightarrow> u32 \<Rightarrow> u32 \<Rightarrow> u32 \<Rightarrow> cpu \<Rightarrow> bus \<Rightarrow> machine outcome" where
  "execute i a len raw c0 b =
     (let ops = i_ops i; s = (i_s i \<and> \<not> (cur_in_it c0 \<and> len = 2)); c = c0\<lparr>cur_setflags := s\<rparr> in
      case i_opcode i of
     Hint op \<Rightarrow> exec_hint c b op ops
   | Move op \<Rightarrow> with_bus (exec_move c op ops s) b
   | Op_Alu op \<Rightarrow> with_bus (alu_exec c ops op) b
   | Op_Shift style \<Rightarrow> with_bus (if style = RRX then exec_rrx c ops else shift_op c ops style) b
   | Ext op \<Rightarrow> with_bus (exec_ext c op ops) b
   | Mul op \<Rightarrow> with_bus (exec_mul c op ops s) b
   | Bits op \<Rightarrow> with_bus (exec_bits c op ops raw) b
   | Mem op \<Rightarrow> exec_mem c b op ops raw len
   | Excl op \<Rightarrow> exec_excl c b op ops raw a
   | Branch op \<Rightarrow> exec_branch c b op ops (i_cond i) a len raw
   | Sys op \<Rightarrow> exec_sys c b op a raw
   | Op_Other \<Rightarrow> Err (c, b))"

section \<open>Fetch and step\<close>

definition fetch_decode :: "env \<Rightarrow> bus \<Rightarrow> u32 \<Rightarrow> decoded \<times> bus" where
  "fetch_decode E b a =
     (let (lo, b1) = read16 b a; (hi, b2) = read16 b1 (a + 2);
          raw = le32 (byte_of lo 0) (byte_of lo 1) (byte_of hi 0) (byte_of hi 1) in
      (case decode E raw of
         Some (i, len) \<Rightarrow> \<lparr>d_raw = raw, d_len = len, d_inst = Some i\<rparr>
       | None \<Rightarrow> \<lparr>d_raw = raw, d_len = 4, d_inst = None\<rparr>, b2))"

definition cacheable :: "cpu \<Rightarrow> u32 \<Rightarrow> bool" where
  "cacheable c a =
     ((fst (flash_cache c) \<le> a \<and> a < snd (flash_cache c)) \<or> (debug_en c \<and> a < ITCM_HI))"

definition fetch :: "env \<Rightarrow> cpu \<Rightarrow> bus \<Rightarrow> u32 \<Rightarrow> decoded \<times> machine" where
  "fetch E c b a =
     (if cacheable c a then
        (case dcache c a of
           Some d \<Rightarrow> (d, c, b)
         | None \<Rightarrow> (let (d, b1) = fetch_decode E b a in (d, c\<lparr>dcache := (dcache c)(a \<mapsto> d)\<rparr>, b1)))
      else (let (d, b1) = fetch_decode E b a in (d, c, b1)))"

definition is_it :: "decoded \<Rightarrow> bool" where
  "is_it d = (case d_inst d of Some i \<Rightarrow> i_opcode i = Hint Op_IT | None \<Rightarrow> False)"

text \<open>The instruction itself, once fetched; \<open>go\<close> says its condition holds.\<close>

definition run_insn :: "env \<Rightarrow> decoded \<Rightarrow> u32 \<Rightarrow> bool \<Rightarrow> cpu \<Rightarrow> bus \<Rightarrow> trap option \<times> machine" where
  "run_insn E d a go c b = (case d_inst d of
     Some i \<Rightarrow>
       (let c1 = c\<lparr>pc := a + d_len d\<rparr> in
        if go then
          (case execute i a (d_len d) (d_raw d) c1 b of
             Ok m \<Rightarrow> (None, m) | Err m \<Rightarrow> (Some (Trap_Unimplemented a (d_raw d)), m))
        else (None, c1, b))
   | None \<Rightarrow>
       if go then
         (let (ok, m) = try_v8m c b (d_raw d) a in
          if ok then (None, m)
          else (let (ok2, m2) = try_vfp (fpu_of E) (fst m) (snd m) (d_raw d) a in
                (if ok2 then None else Some (Trap_Decode a), m2)))
       else (None, c\<lparr>pc := a + 4\<rparr>, b))"

definition in_it_block :: "cpu \<Rightarrow> bool" where
  "in_it_block c = (itstate c AND 0xF \<noteq> 0)"

definition step :: "env \<Rightarrow> cpu \<Rightarrow> bus \<Rightarrow> trap option \<times> machine" where
  "step E c0 b0 =
     (let a = pc c0 in
      if rom_traps c0 \<and> is_trap a then
        (None, rom_dispatch E (c0\<lparr>cur_insn := a, cycles := cycles c0 + 1\<rparr>) (b0\<lparr>cur_cyc := cycles c0\<rparr>))
      else
        (let (d, c, b) = fetch E (c0\<lparr>cur_insn := a, last_vfp := False, last_sys := False\<rparr>)
                           (b0\<lparr>cur_cyc := cycles c0\<rparr>) a;
             in_it = in_it_block c;
             go = (in_it \<and> \<not> is_it d \<longrightarrow> cond_holds c (cond_from_bits (drop_bit 4 (itstate c) AND 0xF)));
             (t, c1, b1) = run_insn E d a go
               (c\<lparr>cur_in_it := in_it, last_it := (in_it \<or> is_it d), cycles := cycles c + 1\<rparr>) b in
         (t, if in_it \<and> \<not> is_it d then it_advance c1 else c1, b1)))"

end
