(* ===== verification/Cpu_Inv.thy ===== *)
theory Cpu_Inv
  imports Cpu_Step Cpu_Stack Bus_Props
begin

text \<open>
  Well-formedness of the processor state: PC is even, IPSR fits its field, and the live stack
  pointer is the one mode and CONTROL select. Every operation of the interpreter keeps it, so
  it holds in every state the machine reaches.
\<close>

unbundle bit_operations_syntax

section \<open>What data operations keep\<close>

definition even_pc_of :: "cpu \<Rightarrow> bool" where
  "even_pc_of c = (pc c AND 1 = 0 \<and> cur_insn c AND 1 = 0)"

definition cached_even :: "cpu \<Rightarrow> bool" where
  "cached_even c = (\<forall>a d. dcache c a = Some d \<longrightarrow> d_len d AND 1 = 0)"

definition cpu_ok :: "cpu \<Rightarrow> bool" where
  "cpu_ok c = (even_pc_of c \<and> ipsr c AND 0x1ff = ipsr c \<and> sp_consistent c \<and> cached_even c)"

text \<open>Most operations touch registers, flags and PC, but nothing of mode and stack selection.\<close>

definition keeps :: "cpu \<Rightarrow> cpu \<Rightarrow> bool" where
  "keeps c d = (mode d = mode c \<and> sp_is_psp d = sp_is_psp c \<and> control d AND 2 = control c AND 2 \<and>
     ipsr d = ipsr c \<and> dcache d = dcache c \<and> (even_pc_of c \<longrightarrow> even_pc_of d))"

named_theorems keeps_intros \<open>operations that keep mode, stack selection and an even PC\<close>

lemma keeps_refl [keeps_intros]: "keeps c c"
  by (simp add: keeps_def)

lemma keeps_trans: "keeps a b \<Longrightarrow> keeps b c \<Longrightarrow> keeps a c"
  by (simp add: keeps_def)

lemma keeps_ok: "keeps c d \<Longrightarrow> cpu_ok c \<Longrightarrow> cpu_ok d"
  by (simp add: keeps_def cpu_ok_def sp_consistent_def cached_even_def)

lemma and_not_1_and_1 [simp]: "(v AND NOT 1) AND 1 = (0 :: u32)"
  by (simp add: word_bw_assocs)

lemma keeps_set_r [keeps_intros]: "keeps c d \<Longrightarrow> keeps c (set_r d i v)"
  by (simp add: keeps_def set_r_def even_pc_of_def)

lemma keeps_set_s [keeps_intros]: "keeps c d \<Longrightarrow> keeps c (set_s d i v)"
  by (simp add: keeps_def set_s_def even_pc_of_def)

lemma keeps_write_reg [keeps_intros]: "keeps c d \<Longrightarrow> keeps c (write_reg d i v)"
  by (simp add: write_reg_def keeps_set_r) (simp add: keeps_def even_pc_of_def word_bw_assocs)

lemma keeps_flags [keeps_intros]:
  "keeps c d \<Longrightarrow> keeps c (set_nz d v)" "keeps c d \<Longrightarrow> keeps c (set_cv d cy ov)"
  "keeps c d \<Longrightarrow> keeps c (flags_add d x y)" "keeps c d \<Longrightarrow> keeps c (flags_sub d x y)"
  "keeps c d \<Longrightarrow> keeps c (flags_carry d x y z)" "keeps c d \<Longrightarrow> keeps c (d\<lparr>cf := cy\<rparr>)"
  "keeps c d \<Longrightarrow> keeps c (d\<lparr>fpscr := x\<rparr>)"
  by (simp_all add: keeps_def set_nz_def set_cv_def flags_add_def flags_sub_def flags_carry_def
      even_pc_of_def split_def Let_def)

lemma keeps_need [keeps_intros]:
  "keeps c d \<Longrightarrow> (\<And>v. x = Some v \<Longrightarrow> keeps c (state_of (k v))) \<Longrightarrow> keeps c (state_of (need x d k))"
  by (cases x) simp_all

lemma keeps_if [keeps_intros]:
  "(p \<Longrightarrow> keeps c x) \<Longrightarrow> (\<not> p \<Longrightarrow> keeps c y) \<Longrightarrow> keeps c (if p then x else y)"
  by simp

lemma keeps_Ok [keeps_intros]: "keeps c d \<Longrightarrow> keeps c (state_of (Ok d))" "keeps c d \<Longrightarrow> keeps c (state_of (Err d))"
  by simp_all

lemma keeps_if_state [keeps_intros]:
  "(p \<Longrightarrow> keeps c (state_of x)) \<Longrightarrow> (\<not> p \<Longrightarrow> keeps c (state_of y)) \<Longrightarrow> keeps c (state_of (if p then x else y))"
  by simp

lemma keeps_alu_flags [keeps_intros]: "keeps c d \<Longrightarrow> keeps c (alu_flags d op x y z w)"
  by (cases op) (simp_all add: alu_flags_def keeps_intros)

lemma keeps_alu_exec: "keeps c (state_of (alu_exec c ops op))"
  unfolding alu_exec_def Let_def split_def by (intro keeps_intros)

lemma keeps_shift_op: "keeps c (state_of (shift_op c ops style))"
  unfolding shift_op_def Let_def split_def by (intro keeps_intros)

lemma keeps_exec_rrx: "keeps c (state_of (exec_rrx c ops))"
  unfolding exec_rrx_def Let_def split_def by (intro keeps_intros)

lemma keeps_exec_ext: "keeps c (state_of (exec_ext c op ops))"
  by (cases op) (auto simp: exec_ext_def Cpu_Alu.extend_def extend16_def Let_def split_def intro!: keeps_intros)

lemma keeps_exec_move: "keeps c (state_of (exec_move c op ops s))"
  by (cases op) (auto simp: exec_move_def exec_cmp_def Let_def intro!: keeps_intros)

lemma keeps_write_op [keeps_intros]: "keeps c d \<Longrightarrow> keeps c (state_of (write_op d x v))"
  unfolding write_op_def by (intro keeps_intros)

lemma keeps_write_pair [keeps_intros]: "keeps c d \<Longrightarrow> keeps c (state_of (write_pair d ops p))"
  unfolding write_pair_def by (intro keeps_intros)

lemma keeps_exec_mul: "keeps c (state_of (exec_mul c op ops s))"
  by (cases op) (auto simp: exec_mul_def Let_def split_def intro!: keeps_intros)

lemma keeps_exec_bits: "keeps c (state_of (exec_bits c op ops raw))"
  by (cases op) (auto simp: exec_bits_def Let_def intro!: keeps_intros)

lemma keeps_it_advance: "keeps c (it_advance c)"
  by (simp add: it_advance_def keeps_def even_pc_of_def)

section \<open>Loads, stores and exceptions\<close>

lemma ok_write_reg: "cpu_ok c \<Longrightarrow> cpu_ok (write_reg c i v)"
  using keeps_ok [OF keeps_write_reg [OF keeps_refl]] .

lemma ok_set_r: "cpu_ok c \<Longrightarrow> cpu_ok (set_r c i v)"
  using keeps_ok [OF keeps_set_r [OF keeps_refl]] .

text \<open>The same for operations on the processor and the bus together.\<close>

definition keeps_m :: "cpu \<Rightarrow> machine \<Rightarrow> bool" where
  "keeps_m c m = keeps c (fst m)"

definition ok_m :: "machine \<Rightarrow> bool" where
  "ok_m m = cpu_ok (fst m)"

lemma keeps_m_ok: "keeps_m c m \<Longrightarrow> cpu_ok c \<Longrightarrow> ok_m m"
  unfolding keeps_m_def ok_m_def by (rule keeps_ok)

lemma keeps_m_pair [keeps_intros]: "keeps c d \<Longrightarrow> keeps_m c (d, b)"
  by (simp add: keeps_m_def)

lemma ok_m_pair: "cpu_ok d \<Longrightarrow> ok_m (d, b)"
  by (simp add: ok_m_def)

lemma ok_need:
  "ok_m m \<Longrightarrow> (\<And>v. x = Some v \<Longrightarrow> ok_m (state_of (k v))) \<Longrightarrow> ok_m (state_of (need x m k))"
  by (cases x) simp_all

lemma sp_consistent_restore_mode: "sp_consistent (restore_mode c exc sp)"
  by (simp add: restore_mode_def sp_consistent_def Let_def set_r_def)

lemma restore_mode_fields [simp]:
  "pc (restore_mode c exc sp) = pc c" "cur_insn (restore_mode c exc sp) = cur_insn c"
  "ipsr (restore_mode c exc sp) = ipsr c" "dcache (restore_mode c exc sp) = dcache c"
  by (simp_all add: restore_mode_def Let_def set_r_def)

lemma restore_basic_fields [simp]:
  "pc (restore_basic c ws) = ws ! 6 AND NOT 1" "cur_insn (restore_basic c ws) = cur_insn c"
  "ipsr (restore_basic c ws) = ws ! 7 AND 0x1ff" "dcache (restore_basic c ws) = dcache c"
  by (simp_all add: restore_basic_def Let_def set_xpsr_flags_def)

lemma cur_insn_return: "cur_insn (fst (crash_check c b p a)) = cur_insn c" "cur_insn (restore_fp c ws) = cur_insn c"
  "dcache (fst (crash_check c b p a)) = dcache c" "dcache (restore_fp c ws) = dcache c"
  by (simp_all add: crash_check_def restore_fp_def)

lemma exception_return_ok: "cur_insn c AND 1 = 0 \<Longrightarrow> cached_even c \<Longrightarrow> ok_m (exception_return c b exc)"
  by (simp add: exception_return_def ok_m_def cpu_ok_def even_pc_of_def Let_def split_def
      sp_consistent_restore_mode cur_insn_return cached_even_def word_bw_assocs)

lemma exception_entry_ok:
  "cur_insn c AND 1 = 0 \<Longrightarrow> cached_even c \<Longrightarrow> v AND 0x1ff = v \<Longrightarrow> ok_m (exception_entry c b v)"
  by (simp add: exception_entry_def ok_m_def cpu_ok_def even_pc_of_def Let_def split_def sp_consistent_def
      to_handler_def set_r_def cached_even_def word_bw_assocs)

lemma load_pc_ok: "cpu_ok c \<Longrightarrow> ok_m (load_pc c b v)"
  using exception_return_ok [of c b v]
  by (auto simp: load_pc_def ok_m_def cpu_ok_def even_pc_of_def sp_consistent_def cached_even_def word_bw_assocs)

lemma pre_index_keeps: "keeps c (snd (pre_index c n off add wb))"
  unfolding pre_index_def Let_def snd_conv by (intro keeps_intros)

lemma mem_addr_keeps: "mem_addr c x = Some (a, c1) \<Longrightarrow> keeps c c1"
  using pre_index_keeps by (auto simp: mem_addr_def keeps_intros split: operand.splits; metis snd_conv)

lemma mem_addr32_keeps: "keeps c (snd (mem_addr32 c raw))"
  unfolding mem_addr32_def Let_def by (auto intro!: keeps_intros)

lemma access_addr_keeps: "access_addr c x raw len = Some (a, c1) \<Longrightarrow> keeps c c1"
  using mem_addr_keeps mem_addr32_keeps [of c raw] by (auto simp: access_addr_def split: if_splits)

lemma load_ok: "cpu_ok c \<Longrightarrow> ok_m (state_of (load c b ops sz sg raw len))"
proof -
  assume ok: "cpu_ok c"
  note k = keeps_ok [OF _ ok]
  show ?thesis
    unfolding load_def Let_def split_def
    by (intro ok_need ok_m_pair; simp add: ok)
      (auto dest!: access_addr_keeps intro!: ok_m_pair load_pc_ok ok_write_reg intro: k)
qed

lemma store_step_ok: "cpu_ok c \<Longrightarrow> ok_m (state_of (store c b ops sz raw len))"
proof -
  assume ok: "cpu_ok c"
  note k = keeps_ok [OF _ ok]
  show ?thesis
    unfolding store_def Let_def split_def
    by (intro ok_need ok_m_pair; simp add: ok)
      (auto dest!: access_addr_keeps intro!: ok_m_pair load_pc_ok ok_write_reg intro: k)
qed

lemma load_double_ok: "cpu_ok c \<Longrightarrow> ok_m (state_of (load_double c b ops))"
proof -
  assume ok: "cpu_ok c"
  note k = keeps_ok [OF _ ok]
  show ?thesis
    unfolding load_double_def Let_def split_def
    by (intro ok_need ok_m_pair; simp add: ok)
      (auto dest!: mem_addr_keeps intro!: ok_m_pair load_pc_ok ok_write_reg intro: k)
qed

lemma store_double_ok: "cpu_ok c \<Longrightarrow> ok_m (state_of (store_double c b ops))"
proof -
  assume ok: "cpu_ok c"
  note k = keeps_ok [OF _ ok]
  show ?thesis
    unfolding store_double_def Let_def split_def
    by (intro ok_need ok_m_pair; simp add: ok)
      (auto dest!: mem_addr_keeps intro!: ok_m_pair load_pc_ok ok_write_reg intro: k)
qed

lemma bt_loop_keeps: "keeps c0 c \<Longrightarrow> keeps c0 (fst (snd (bt_loop is m st a pcv c b)))"
proof (induction "is" arbitrary: st a pcv c b)
  case (Cons i "is")
  note IH = Cons.IH [OF Cons.prems] Cons.IH [OF keeps_set_r [OF Cons.prems]]
  show ?case
    by (cases "bit m i"; cases st; cases "i = 15") (simp_all add: IH Let_def split_def)
qed simp

lemma block_transfer_ok: "cpu_ok c \<Longrightarrow> ok_m (block_transfer c b rn wb m add pre st)"
proof -
  assume ok: "cpu_ok c"
  obtain pcv c1 b1 where t: "bt_loop [0..<16] m st (block_start (r c rn) (of_nat (count_ones m)) add pre) None c b =
      (pcv, c1, b1)" by (rule prod_cases3)
  have "keeps c (fst (snd (bt_loop [0..<16] m st (block_start (r c rn) (of_nat (count_ones m)) add pre) None c b)))"
    by (rule bt_loop_keeps [OF keeps_refl])
  then have "keeps c c1" unfolding t by simp
  then have "cpu_ok (if wb then set_r c1 rn v else c1)" for v using ok keeps_ok ok_set_r by simp
  then show ?thesis
    unfolding block_transfer_def Let_def t by (auto split: option.split intro: ok_m_pair load_pc_ok)
qed

lemma exec_mem_ok: "cpu_ok c \<Longrightarrow> ok_m (state_of (exec_mem c b op ops raw len))"
  by (cases op) (auto simp: exec_mem_def load_ok store_step_ok load_double_ok store_double_ok ldm_stm_def stmdb_regs_def
      ldmia_regs_def Let_def split_def intro!: ok_need ok_m_pair block_transfer_ok)

section \<open>Every instruction\<close>

lemma even_iff: "(x AND 1 = 0) = even (x :: u32)"
  by (simp add: and_one_eq even_iff_mod_2_eq_zero)

lemma even_push: "0 < n \<Longrightarrow> even (push_bit n x :: u32)"
  by (cases n) (simp_all add: push_bit_eq_mult)

lemma keeps_pc: "keeps c d \<Longrightarrow> a AND 1 = 0 \<Longrightarrow> keeps c (d\<lparr>pc := a\<rparr>)"
  by (simp add: keeps_def even_pc_of_def)

lemma ok_pc: "cpu_ok c \<Longrightarrow> a AND 1 = 0 \<Longrightarrow> cpu_ok (c\<lparr>pc := a\<rparr>)"
  using keeps_ok [OF keeps_pc [OF keeps_refl]] .

lemma even_plus4: "a AND 1 = 0 \<Longrightarrow> (a + 4) AND 1 = (0 :: u32)"
  by (simp add: even_iff)

lemma try_v8m_keeps: "a AND 1 = 0 \<Longrightarrow> keeps c (fst (snd (try_v8m c b raw a)))"
proof -
  assume a: "a AND 1 = 0"
  note k = keeps_pc [OF _ even_plus4 [OF a]]
  show ?thesis
    unfolding try_v8m_def Let_def split_def
    by (auto simp: split_def intro!: k keeps_intros split: option.split)
qed

lemma exec_excl_ok: "cpu_ok c \<Longrightarrow> a AND 1 = 0 \<Longrightarrow> ok_m (state_of (exec_excl c b op ops raw a))"
proof -
  assume ok: "cpu_ok c" and a: "a AND 1 = 0"
  note k = keeps_ok [OF _ ok]
  have v: "cpu_ok (fst (snd (try_v8m c b raw a)))" by (rule k [OF try_v8m_keeps [OF a]])
  show ?thesis
  proof (cases "op = Op_V8M")
    case True
    then show ?thesis using v by (simp add: exec_excl_def split_def Let_def ok_m_def)
  next
    case False
    then show ?thesis
      unfolding exec_excl_def Let_def split_def
      by (cases op) (auto simp: ok dest!: mem_addr_keeps intro!: ok_need ok_m_pair ok_write_reg intro: k)
  qed
qed

lemma fp_mark_keeps: "keeps c (fp_mark c)"
proof -
  have "(4 :: u32) AND 2 = 0" by simp
  then show ?thesis by (simp add: fp_mark_def keeps_def even_pc_of_def word_ao_dist)
qed

lemma vfp_dp_keeps: "keeps c d \<Longrightarrow> keeps c (exec_vfp_dp F d hw1 hw2)"
proof -
  assume k: "keeps c d"
  have f: "keeps c (d\<lparr>nf := n, zf := z, cf := y, vf := v\<rparr>)" for n z y v
    using k by (simp add: keeps_def even_pc_of_def)
  have cmp: "keeps c (fp_compare d x y)" for x y
    using k by (simp add: fp_compare_def keeps_flags Let_def split_def)
  have dbl: "keeps c (vfp_double F d w)" for w
    unfolding vfp_double_def Let_def set_d_def by (intro keeps_intros k)
  have sgl: "keeps c (vfp_single F d hw1 hw2 w)" for w
    unfolding vfp_single_def vfp_single_ext_def Let_def by (intro keeps_intros k cmp)
  show ?thesis
    unfolding exec_vfp_dp_def Let_def by (intro keeps_intros k f dbl sgl)
qed

lemma vls_keeps: "keeps c (fst m) \<Longrightarrow> keeps c (fst (vls_list single l i n a m))"
proof (induction n arbitrary: i a m)
  case (Suc n)
  have "keeps c (fst (vls_single l i a m))" "keeps c (fst (vls_double l i a m))"
    using Suc.prems by (cases m; simp add: vls_single_def vls_double_def split_def Let_def keeps_set_s)+
  then show ?case using Suc.IH by simp
qed simp

lemma vfp_load_store_keeps: "keeps c d \<Longrightarrow> keeps c (fst (vfp_load_store d b hw1 hw2))"
proof -
  assume k: "keeps c d"
  have s: "keeps c (fst (vls_single l i a (d, b)))" "keeps c (fst (vls_double l i a (d, b)))" for l i a
    using k by (simp_all add: vls_single_def vls_double_def split_def Let_def keeps_set_s)
  have l: "keeps c (fst (vls_list single l i n a (d, b)))" for single l i n a
    by (rule vls_keeps) (use k in simp)
  show ?thesis
    unfolding vfp_load_store_def Let_def split_def by (simp add: s l keeps_set_r)
qed

lemma try_vfp_keeps: "a AND 1 = 0 \<Longrightarrow> keeps c (fst (snd (try_vfp F c b raw a)))"
  unfolding try_vfp_def Let_def split_def
  by (simp add: keeps_refl keeps_pc even_plus4 vfp_dp_keeps vfp_load_store_keeps fp_mark_keeps)

text \<open>Branch targets are even.\<close>

lemma even_signed_shift:
  fixes off :: u32
  assumes "even off" and "k < 32"
  shows "even (signed_drop_bit k (push_bit k off))"
proof -
  have "bit (signed_drop_bit k (push_bit k off)) 0 = bit off 0"
    using assms(2) by (simp add: bit_signed_drop_bit_iff bit_push_bit_iff)
  then show ?thesis using assms(1) by (simp add: bit_0)
qed

lemma even_intros:
  "even x \<Longrightarrow> even y \<Longrightarrow> even (x + y :: u32)" "even x \<Longrightarrow> even y \<Longrightarrow> even (x OR y :: u32)"
  "(p \<Longrightarrow> even x) \<Longrightarrow> (\<not> p \<Longrightarrow> even y) \<Longrightarrow> even (if p then x else y :: u32)" "even (4 :: u32)"
  by (simp_all add: even_or_iff)

lemma thumb_target_even: "a AND 1 = 0 \<Longrightarrow> thumb_branch_target raw a len AND 1 = 0"
  unfolding even_iff thumb_branch_target_def Let_def
  by (intro even_intros even_signed_shift even_push) simp_all

lemma cbz_target_even: "a AND 1 = 0 \<Longrightarrow> cbz_target raw a AND 1 = 0"
  unfolding even_iff cbz_target_def Let_def by (intro even_intros even_push) simp_all

lemma table_branch_ok: "cpu_ok c \<Longrightarrow> ok_m (state_of (table_branch c b ops half))"
proof -
  assume ok: "cpu_ok c"
  then have "even (cur_insn c)" by (simp add: cpu_ok_def even_pc_of_def even_iff)
  then have "(cur_insn c + 4 + push_bit 1 off) AND 1 = 0" for off
    unfolding even_iff by (intro even_intros even_push) simp_all
  then show ?thesis
    unfolding table_branch_def Let_def split_def by (intro ok_need) (auto simp: ok intro!: ok_m_pair ok_pc)
qed

lemma exec_branch_ok:
  "cpu_ok c \<Longrightarrow> a AND 1 = 0 \<Longrightarrow> ok_m (state_of (exec_branch c b op ops cc a len raw))"
  by (cases op) (auto simp: exec_branch_def Let_def thumb_target_even cbz_target_even word_bw_assocs
      intro!: ok_need ok_m_pair ok_pc ok_set_r load_pc_ok table_branch_ok)

lemma set_control_ok: "cpu_ok c \<Longrightarrow> cpu_ok (set_control c v)"
proof -
  have "v AND 7 AND 2 = v AND 2" for v :: u32 by (simp add: word_bw_assocs)
  then show "cpu_ok c \<Longrightarrow> cpu_ok (set_control c v)"
    by (auto simp: set_control_def Let_def cpu_ok_def even_pc_of_def sp_consistent_def cached_even_def set_r_def)
qed

lemma write_special_ok: "cpu_ok c \<Longrightarrow> cpu_ok (write_special c sysm v)"
  using set_control_ok [of c v]
  by (auto simp: write_special_def set_xpsr_flags_def set_msp_def set_psp_def Let_def cpu_ok_def even_pc_of_def
      sp_consistent_def cached_even_def set_r_def)

lemma exec_sys_ok: "cpu_ok c \<Longrightarrow> a AND 1 = 0 \<Longrightarrow> ok_m (state_of (exec_sys c b op a raw))"
proof -
  assume ok: "cpu_ok c" and a: "a AND 1 = 0"
  have s: "cpu_ok (c\<lparr>last_sys := True\<rparr>)" "cpu_ok (c\<lparr>last_sys := True, primask := p\<rparr>)"
    "cpu_ok (c\<lparr>pc := a, halted := True, bkpt_hit := True\<rparr>)" for p
    using ok a by (simp_all add: cpu_ok_def even_pc_of_def sp_consistent_def cached_even_def)
  have e: "ok_m (exception_entry c b 11)"
    using ok by (intro exception_entry_ok) (simp_all add: cpu_ok_def even_pc_of_def)
  show ?thesis
    using e s ok by (cases op) (auto simp: exec_sys_def Let_def intro!: ok_m_pair ok_write_reg write_special_ok)
qed

lemma exec_wfi_keeps: "keeps c (fst (exec_wfi c b))"
  by (simp add: exec_wfi_def wfi_throttled_def keeps_def even_pc_of_def Let_def split_def)

lemma exec_hint_ok: "cpu_ok c \<Longrightarrow> ok_m (state_of (exec_hint c b op ops))"
proof -
  assume ok: "cpu_ok c"
  have i: "cpu_ok (c\<lparr>itstate := v\<rparr>)" for v
    using ok by (simp add: cpu_ok_def even_pc_of_def sp_consistent_def cached_even_def)
  show ?thesis
    using keeps_ok [OF exec_wfi_keeps ok, of b]
    by (cases op) (auto simp: exec_hint_def ok i ok_m_def [of "exec_wfi c b"] intro!: ok_need ok_m_pair)
qed

lemma with_bus_ok: "keeps c (state_of x) \<Longrightarrow> cpu_ok c \<Longrightarrow> ok_m (state_of (with_bus x b))"
  using keeps_ok by (cases x) (auto simp: with_bus_def ok_m_def)

lemma execute_ok: "cpu_ok c \<Longrightarrow> a AND 1 = 0 \<Longrightarrow> ok_m (state_of (execute i a len raw c b))"
proof -
  assume ok0: "cpu_ok c" and a: "a AND 1 = 0"
  define s where "s = (i_s i \<and> \<not> (cur_in_it c \<and> len = 2))"
  define d where "d = c\<lparr>cur_setflags := s\<rparr>"
  have ok: "cpu_ok d" using ok0 by (simp add: d_def cpu_ok_def even_pc_of_def sp_consistent_def cached_even_def)
  note dp = with_bus_ok [OF _ ok]
  show ?thesis
    unfolding execute_def Let_def s_def [symmetric] d_def [symmetric]
    by (cases "i_opcode i")
      (auto simp: exec_hint_ok [OF ok] exec_mem_ok [OF ok] exec_excl_ok [OF ok a] exec_branch_ok [OF ok a]
        exec_sys_ok [OF ok a] ok
        intro!: dp keeps_exec_move keeps_alu_exec keeps_exec_rrx keeps_shift_op keeps_exec_ext
          keeps_exec_mul keeps_exec_bits ok_m_pair)
qed

section \<open>The step and what surrounds it\<close>

definition even_lengths :: "env \<Rightarrow> bool" where
  "even_lengths E = (\<forall>raw i len. decode E raw = Some (i, len) \<longrightarrow> len AND 1 = 0)"

lemma fetch_decode_even: "even_lengths E \<Longrightarrow> d_len (fst (fetch_decode E b a)) AND 1 = 0"
  by (auto simp: fetch_decode_def even_lengths_def Let_def split_def split: option.split)

lemma fetch_ok:
  assumes "even_lengths E" and "cpu_ok c"
  shows "d_len (fst (fetch E c b a)) AND 1 = 0" and "cpu_ok (fst (snd (fetch E c b a)))"
  using assms fetch_decode_even [OF assms(1), of b a]
  by (auto simp: fetch_def cpu_ok_def even_pc_of_def sp_consistent_def cached_even_def Let_def split_def
      split: option.split)

lemma run_insn_ok:
  assumes "cpu_ok c" and "a AND 1 = 0" and "d_len d AND 1 = 0"
  shows "ok_m (snd (run_insn E d a go c b))"
proof -
  have n: "(a + d_len d) AND 1 = 0" using assms(2,3) unfolding even_iff by simp
  note k = keeps_ok [OF _ assms(1)]
  have v: "cpu_ok (fst (snd (try_v8m c b (d_raw d) a)))" by (rule k [OF try_v8m_keeps [OF assms(2)]])
  have f: "cpu_ok (fst (snd (try_vfp F x y raw a)))" if "cpu_ok x" for F x y raw
    by (rule keeps_ok [OF try_vfp_keeps [OF assms(2)] that])
  have e: "ok_m (state_of (execute i a (d_len d) (d_raw d) (c\<lparr>pc := a + d_len d\<rparr>) b))" for i
    by (rule execute_ok [OF ok_pc [OF assms(1) n] assms(2)])
  show ?thesis
  proof (cases "d_inst d")
    case None
    then show ?thesis
      using v f [OF v] ok_pc [OF assms(1) even_plus4 [OF assms(2)]]
      by (simp add: run_insn_def Let_def split_def ok_m_def)
  next
    case (Some i)
    then show ?thesis
      using e [of i] ok_pc [OF assms(1) n]
      by (auto simp: run_insn_def Let_def ok_m_def split: outcome.split)
  qed
qed

lemma rom_dispatch_ok: "cpu_ok c \<Longrightarrow> ok_m (rom_dispatch E c b)"
  by (auto simp: rom_dispatch_def ok_m_def cpu_ok_def even_pc_of_def sp_consistent_def cached_even_def set_r_def
      Let_def word_bw_assocs split: rom_call.split)

lemma step_ok:
  assumes "even_lengths E" and "cpu_ok c"
  shows "ok_m (snd (step E c b))"
proof -
  let ?a = "pc c" and ?b = "b\<lparr>cur_cyc := cycles c\<rparr>"
  let ?c = "c\<lparr>cur_insn := ?a, last_vfp := False, last_sys := False\<rparr>"
  have a: "?a AND 1 = 0" using assms(2) by (simp add: cpu_ok_def even_pc_of_def)
  have upd: "cpu_ok (d\<lparr>cur_in_it := x, last_it := y, cycles := z\<rparr>)" if "cpu_ok d" for d x y z
    using that by (simp add: cpu_ok_def even_pc_of_def sp_consistent_def cached_even_def)
  have c: "cpu_ok ?c" "cpu_ok (c\<lparr>cur_insn := ?a, cycles := cycles c + 1\<rparr>)"
    using assms(2) by (simp_all add: cpu_ok_def even_pc_of_def sp_consistent_def cached_even_def)
  obtain d c1 b1 where f: "fetch E ?c ?b ?a = (d, c1, b1)" by (rule prod_cases3)
  have d: "d_len d AND 1 = 0" "cpu_ok c1" using fetch_ok [OF assms(1) c(1), of ?b ?a] f by simp_all
  have r: "ok_m (snd (run_insn E d ?a go (c1\<lparr>cur_in_it := x, last_it := y, cycles := z\<rparr>) b1))" for go x y z
    by (rule run_insn_ok [OF upd [OF d(2)] a d(1)])
  show ?thesis
  proof (cases "rom_traps c \<and> is_trap ?a")
    case True
    then show ?thesis using rom_dispatch_ok [OF c(2)] by (simp add: step_def Let_def)
  next
    case False
    then show ?thesis
      using r keeps_ok [OF keeps_it_advance]
      by (simp only: step_def Let_def if_False f split_def fst_conv snd_conv ok_m_def) simp
  qed
qed

lemma maybe_tick_ok: "cpu_ok c \<Longrightarrow> ok_m (maybe_tick c b)"
proof -
  assume ok: "cpu_ok c"
  obtain d b1 where t: "tick_refresh c b = (d, b1)" by (rule prod.exhaust)
  then have d: "cpu_ok d"
    using ok by (auto simp: tick_refresh_def Let_def split_def cpu_ok_def even_pc_of_def sp_consistent_def
        cached_even_def split: if_splits)
  have u: "cpu_ok (d\<lparr>systick := x\<rparr>)" "cpu_ok (d\<lparr>systick := x, tick_events := y\<rparr>)" for x y
    using d by (simp_all add: cpu_ok_def even_pc_of_def sp_consistent_def cached_even_def)
  have e: "ok_m (exception_entry (d\<lparr>systick := x, tick_events := y\<rparr>) b1 15)" for x y
    using u(2) [of y x] by (intro exception_entry_ok) (simp_all add: cpu_ok_def even_pc_of_def cached_even_def)
  show ?thesis
    unfolding maybe_tick_def t by (auto simp: Let_def d u ok_m_pair intro!: e)
qed

lemma next_irq_bound: "next_irq b = Some i \<Longrightarrow> i < 256"
  using next_irq_from_Some [of b 0 8 i] by (auto simp: next_irq_def)

lemma vector_number: "i < 256 \<Longrightarrow> (16 + of_nat i) AND 0x1ff = (16 + of_nat i :: u32)"
proof -
  assume i: "i < 256"
  have m: "(0x1ff :: u32) = mask 9" by (simp add: mask_eq_exp_minus_1)
  have u: "unat (16 + of_nat i :: u32) = 16 + i"
    using i by (subst unat_add_lem [THEN iffD1]) (simp_all add: unat_of_nat32)
  have "unat (take_bit 9 (16 + of_nat i :: u32)) = unat (16 + of_nat i :: u32)"
    using i unfolding unsigned_take_bit_eq u by (simp add: take_bit_eq_mod)
  then show ?thesis unfolding m take_bit_eq_mask [symmetric] word_unat_eq_iff .
qed

lemma maybe_interrupt_ok: "cpu_ok c \<Longrightarrow> ok_m (maybe_interrupt c b)"
proof -
  assume ok: "cpu_ok c"
  then have e: "ok_m (exception_entry c x v)" if "v AND 0x1ff = v" for x v
    using that by (intro exception_entry_ok) (simp_all add: cpu_ok_def even_pc_of_def)
  have p: "ok_m (maybe_pendsv c x)" for x
    using e by (simp add: maybe_pendsv_def split_def Let_def ok_m_pair ok)
  show ?thesis
    unfolding maybe_interrupt_def Let_def
    by (auto simp: ok p ok_m_pair dest!: next_irq_bound intro!: e vector_number split: option.split)
qed

lemma set_gdb_reg_ok: "cpu_ok c \<Longrightarrow> cpu_ok (set_gdb_reg c n v)"
proof -
  assume ok: "cpu_ok c"
  have u: "cpu_ok (c\<lparr>primask := p, basepri := q, faultmask := w\<rparr>)" "cpu_ok (c\<lparr>fpscr := y\<rparr>)"
    "cpu_ok ((set_xpsr_flags c v)\<lparr>ipsr := v AND 0x1ff\<rparr>)" "cpu_ok (set_s c k v)" "cpu_ok (set_msp c v)"
    "cpu_ok (set_psp c v)" for p q w y k
    using ok by (simp_all add: cpu_ok_def even_pc_of_def sp_consistent_def cached_even_def set_xpsr_flags_def
        set_s_def set_msp_def set_psp_def set_r_def Let_def word_bw_assocs)
  show ?thesis
    unfolding set_gdb_reg_def by (simp add: ok u ok_set_r ok_pc set_control_ok word_bw_assocs)
qed

lemma reboot_ok: "cpu_ok c \<Longrightarrow> a AND 1 = 0 \<Longrightarrow> cpu_ok (reset_for_reboot c sp a)"
  by (simp add: reset_for_reboot_def cpu_reset_def set_r_def cpu_ok_def even_pc_of_def sp_consistent_def cached_even_def)

section \<open>Reachable states\<close>

text \<open>
  What can happen to the machine: an instruction, a SysTick, an interrupt, a debugger's
  register write, a reboot to an even address, dropping decode-cache entries, and anything at
  all on the bus (devices, the host, the other core).
\<close>

inductive machine_step :: "env \<Rightarrow> machine \<Rightarrow> machine \<Rightarrow> bool" for E :: env where
  insn: "machine_step E (c, b) (snd (step E c b))"
| tick: "machine_step E (c, b) (maybe_tick c b)"
| interrupt: "machine_step E (c, b) (maybe_interrupt c b)"
| debugger: "machine_step E (c, b) (set_gdb_reg c n v, b)"
| reboot: "a AND 1 = 0 \<Longrightarrow> machine_step E (c, b) (reset_for_reboot c sp a, b)"
| invalidate: "machine_step E (c, b) (invalidate_decode c a, b)"
| flush: "machine_step E (c, b) (flush_decode_cache c, b)"
| outside: "machine_step E (c, b) (c, b')"

inductive_cases machine_stepE: "machine_step E m m'"

inductive reachable :: "env \<Rightarrow> machine \<Rightarrow> machine \<Rightarrow> bool" for E :: env and m :: machine where
  start: "reachable E m m"
| then_step: "reachable E m m' \<Longrightarrow> machine_step E m' m'' \<Longrightarrow> reachable E m m''"

lemma machine_step_ok: "machine_step E m m' \<Longrightarrow> even_lengths E \<Longrightarrow> ok_m m \<Longrightarrow> ok_m m'"
proof (induction rule: machine_step.induct)
  case (invalidate c b a)
  then show ?case
    by (auto simp: ok_m_def cpu_ok_def even_pc_of_def sp_consistent_def cached_even_def invalidate_decode_def)
next
  case (flush c b)
  then show ?case
    by (auto simp: ok_m_def cpu_ok_def even_pc_of_def sp_consistent_def cached_even_def flush_decode_cache_def)
qed (auto simp: ok_m_def intro: step_ok [unfolded ok_m_def] maybe_tick_ok [unfolded ok_m_def]
    maybe_interrupt_ok [unfolded ok_m_def] set_gdb_reg_ok reboot_ok)

text \<open>
  C7: In every state the machine reaches from a well-formed one, by instructions, ticks,
  interrupts, debugger writes, reboots and whatever happens on the bus, PC is even, IPSR is a
  nine-bit exception number, and the stack pointer in use is PSP exactly in thread mode with
  CONTROL.SPSEL set: the conditions the exception frame round trip needs.
\<close>

theorem reachable_well_formed:
  assumes "reachable E (c0, b0) (c, b)" and "even_lengths E" and "cpu_ok c0"
  shows "pc c AND 1 = 0 \<and> ipsr c AND 0x1ff = ipsr c \<and>
    (sp_is_psp c = (mode c = Thread \<and> control c AND 2 \<noteq> 0))"
proof -
  have "ok_m (c, b)"
    using assms(1,2,3) machine_step_ok
    by (induction "(c, b)" arbitrary: c b rule: reachable.induct) (auto simp: ok_m_def)
  then show ?thesis by (simp add: ok_m_def cpu_ok_def even_pc_of_def sp_consistent_def)
qed

text \<open>A part that decodes BX LR and nothing else: one instruction, then an interrupt poll.\<close>

definition bx_lr :: env where
  "bx_lr = \<lparr>decode = (\<lambda>raw. if raw AND 0xffff = 0x4770
       then Some (\<lparr>i_opcode = Branch Op_BX, i_ops = Ops (Reg LR) Nothing Nothing Nothing, i_cond = AL, i_s = False\<rparr>, 2)
       else None),
     fpu_of = \<lparr>fadd = (\<lambda>_ _. 0), fsub = (\<lambda>_ _. 0), fmul = (\<lambda>_ _. 0), fdiv = (\<lambda>_ _. 0), fsqrt = id,
       f_of_i32 = id, f_of_u32 = id, f_to_i32 = id, f_to_u32 = id,
       dadd = (\<lambda>_ _. 0), dsub = (\<lambda>_ _. 0), dmul = (\<lambda>_ _. 0), ddiv = (\<lambda>_ _. 0)\<rparr>,
     cfpa_version = (\<lambda>_. 0), cmpa_parses = (\<lambda>_. False), cfpa_parses = (\<lambda>_. False),
     verify_image = (\<lambda>_ _ _. False)\<rparr>"

definition after_two :: machine where
  "after_two = (let (c, b) = snd (step bx_lr cpu_new bus_new) in maybe_interrupt c b)"

lemma reachable_well_formed_witness:
  "pc (fst after_two) AND 1 = 0 \<and> ipsr (fst after_two) AND 0x1ff = ipsr (fst after_two) \<and>
     (sp_is_psp (fst after_two) = (mode (fst after_two) = Thread \<and> control (fst after_two) AND 2 \<noteq> 0))"
proof (rule reachable_well_formed)
  obtain c b where s: "snd (step bx_lr cpu_new bus_new) = (c, b)" by (cases "snd (step bx_lr cpu_new bus_new)")
  have "reachable bx_lr (cpu_new, bus_new) (c, b)"
    using then_step [OF start insn [of bx_lr cpu_new bus_new]] s by simp
  then have "reachable bx_lr (cpu_new, bus_new) (maybe_interrupt c b)"
    by (rule then_step) (rule interrupt)
  then show "reachable bx_lr (cpu_new, bus_new) (fst after_two, snd after_two)"
    by (simp add: after_two_def s)
  show "even_lengths bx_lr" by (simp add: even_lengths_def bx_lr_def)
  show "cpu_ok cpu_new"
    by (simp add: cpu_ok_def cpu_new_def even_pc_of_def sp_consistent_def cached_even_def)
qed

end
