(* ===== verification/Debugport.thy ===== *)
theory Debugport
  imports Cpu_Step Cpu_Stack
begin

text \<open>
  The emulated debug port of \<open>src/debugport.rs\<close>: the ADIv5 SW-DP with one MEM-AP, and the
  CoreDebug registers behind it. A transfer carries its register address, direction and data;
  AP reads are pipelined through \<open>posted\<close>. The lines the port logs are left out.
\<close>

unbundle bit_operations_syntax

section \<open>Constants\<close>

abbreviation (input) DPIDR :: u32 where "DPIDR \<equiv> 0x6BA02477"
abbreviation (input) AP_IDR :: u32 where "AP_IDR \<equiv> 0x84770001"
abbreviation (input) DFSR :: u32 where "DFSR \<equiv> 0xE000ED30"
abbreviation (input) DHCSR :: u32 where "DHCSR \<equiv> 0xE000EDF0"
abbreviation (input) DCRSR :: u32 where "DCRSR \<equiv> 0xE000EDF4"
abbreviation (input) DCRDR :: u32 where "DCRDR \<equiv> 0xE000EDF8"
abbreviation (input) DEMCR :: u32 where "DEMCR \<equiv> 0xE000EDFC"
abbreviation (input) DFSR_HALTED :: u32 where "DFSR_HALTED \<equiv> 1"
abbreviation (input) DFSR_BKPT :: u32 where "DFSR_BKPT \<equiv> 2"
abbreviation (input) DFSR_VCATCH :: u32 where "DFSR_VCATCH \<equiv> 8"
abbreviation (input) DBGKEY :: u32 where "DBGKEY \<equiv> 0xA05F"
abbreviation (input) S_REGRDY :: u32 where "S_REGRDY \<equiv> 0x10000"
abbreviation (input) S_HALT :: u32 where "S_HALT \<equiv> 0x20000"
abbreviation (input) S_RESET_ST :: u32 where "S_RESET_ST \<equiv> 0x2000000"
abbreviation (input) AIRCR :: u32 where "AIRCR \<equiv> 0xE000ED0C"
abbreviation (input) VECTOR_TABLE :: u32 where "VECTOR_TABLE \<equiv> 0x08000000"

section \<open>State\<close>

record swdp =
  select :: u32
  ctrl_stat :: u32
  posted :: u32
  csw :: u32
  tar :: u32
  dcrdr :: u32
  demcr :: u32
  dhcsr_ctrl :: u32
  reset_sticky :: bool
  vcatch_halt :: bool
  step_request :: bool

definition swdp_new :: swdp where
  "swdp_new = \<lparr>select = 0, ctrl_stat = 0, posted = 0, csw = 0, tar = 0, dcrdr = 0, demcr = 0,
     dhcsr_ctrl = 0, reset_sticky = False, vcatch_halt = False, step_request = False\<rparr>"

text \<open>The port together with the core it debugs. The answer is read data or a bare acknowledgement.\<close>

type_synonym target = "swdp \<times> cpu \<times> bus"

section \<open>The debug port registers\<close>

definition dp_transfer :: "swdp \<Rightarrow> bool \<Rightarrow> u8 \<Rightarrow> u32 \<Rightarrow> u32 option \<times> swdp" where
  "dp_transfer d rnw a wdata =
     (let x = a AND 0x0C in
      if rnw then
        (if x = 0 then (Some DPIDR, d)
         else if x = 4 then
           (let v = ctrl_stat d;
                v1 = (if bit_set v 28 then v OR push_bit 29 1 else v);
                v2 = (if bit_set v1 30 then v1 OR push_bit 31 1 else v1) in (Some v2, d))
         else if x = 8 then (Some 0, d)
         else (Some (posted d), d))
      else
        (None, if x = 4 then d\<lparr>ctrl_stat := wdata\<rparr> else if x = 8 then d\<lparr>select := wdata\<rparr> else d))"

section \<open>Reset and halt control\<close>

definition honor_vector_catch :: "swdp \<Rightarrow> cpu \<Rightarrow> bool \<times> swdp \<times> cpu" where
  "honor_vector_catch d c =
     (if demcr d AND 1 \<noteq> 0 then (True, d\<lparr>vcatch_halt := True, reset_sticky := True\<rparr>, c\<lparr>halted := True\<rparr>)
      else (False, d, c))"

definition do_reset :: "swdp \<Rightarrow> cpu \<Rightarrow> bus \<Rightarrow> target" where
  "do_reset d c b =
     (let (sp, b1) = read32 b VECTOR_TABLE; (v, b2) = read32 b1 (VECTOR_TABLE + 4);
          c1 = reset_for_reboot c sp (v AND NOT 1);
          b3 = reset_exception_sources b2;
          (_, d1, c2) = honor_vector_catch (d\<lparr>reset_sticky := True\<rparr>) c1 in
      (d1, c2, b3))"

definition pin_reset :: "swdp \<Rightarrow> cpu \<Rightarrow> bus \<Rightarrow> target" where
  "pin_reset d c b = do_reset d c b"

definition write_dhcsr :: "swdp \<Rightarrow> cpu \<Rightarrow> u32 \<Rightarrow> swdp \<times> cpu" where
  "write_dhcsr d c val =
     (if drop_bit 16 val \<noteq> DBGKEY then (d, c)
      else
        (let d1 = d\<lparr>dhcsr_ctrl := val AND 0xB\<rparr>; c1 = c\<lparr>debug_en := (val AND 1 \<noteq> 0)\<rparr> in
         if \<not> debug_en c1 then
           (d1\<lparr>vcatch_halt := False, step_request := False\<rparr>, c1\<lparr>halted := False, bkpt_hit := False\<rparr>)
         else if val AND 2 \<noteq> 0 then (d1\<lparr>step_request := False\<rparr>, c1\<lparr>halted := True\<rparr>)
         else (d1\<lparr>vcatch_halt := False, step_request := (val AND 4 \<noteq> 0)\<rparr>,
               c1\<lparr>halted := False, bkpt_hit := False\<rparr>)))"

definition write_dcrsr :: "swdp \<Rightarrow> cpu \<Rightarrow> u32 \<Rightarrow> swdp \<times> cpu" where
  "write_dcrsr d c val =
     (let regsel = unat (val AND 0x7F) in
      if bit_set val 16 then (d, set_gdb_reg c regsel (dcrdr d))
      else (d\<lparr>dcrdr := gdb_reg c regsel\<rparr>, c))"

section \<open>Word accesses\<close>

definition dfsr :: "swdp \<Rightarrow> cpu \<Rightarrow> u32" where
  "dfsr d c = (if bkpt_hit c then DFSR_BKPT else if vcatch_halt d \<and> halted c then DFSR_VCATCH
     else if halted c then DFSR_HALTED else 0)"

definition mem_read_word :: "swdp \<Rightarrow> cpu \<Rightarrow> bus \<Rightarrow> u32 \<Rightarrow> u32 \<times> swdp \<times> bus" where
  "mem_read_word d c b a =
     (if a = DHCSR then
        (let v = dhcsr_ctrl d OR S_REGRDY; v1 = (if halted c then v OR S_HALT else v) in
         if reset_sticky d then (v1 OR S_RESET_ST, d\<lparr>reset_sticky := False\<rparr>, b) else (v1, d, b))
      else if a = DCRDR then (dcrdr d, d, b)
      else if a = DEMCR then (demcr d, d, b)
      else if a = DCRSR then (0, d, b)
      else if a = DFSR then (dfsr d c, d, b)
      else (let (v, b1) = read32 b a in (v, d, b1)))"

definition mem_write_word :: "swdp \<Rightarrow> cpu \<Rightarrow> bus \<Rightarrow> u32 \<Rightarrow> u32 \<Rightarrow> target" where
  "mem_write_word d c b a val =
     (if a = DHCSR then (let (d1, c1) = write_dhcsr d c val in (d1, c1, b))
      else if a = DCRSR then (let (d1, c1) = write_dcrsr d c val in (d1, c1, b))
      else if a = DCRDR then (d\<lparr>dcrdr := val\<rparr>, c, b)
      else if a = DEMCR then (d\<lparr>demcr := val\<rparr>, c, b)
      else if a = DFSR then (d, c, b)
      else if a = AIRCR then
        (if val AND 0xFFFF0000 = 0x05FA0000 \<and> bit_set val 2 then do_reset d c b else (d, c, b))
      else (d, c, write32 b a val))"

section \<open>The access port\<close>

definition access_size :: "swdp \<Rightarrow> nat" where
  "access_size d = 2 ^ min (unat (csw d AND 7)) 2"

definition auto_inc :: "swdp \<Rightarrow> swdp" where
  "auto_inc d = (if drop_bit 4 (csw d) AND 3 = 1 then d\<lparr>tar := tar d + of_nat (access_size d)\<rparr> else d)"

definition drw_read :: "swdp \<Rightarrow> cpu \<Rightarrow> bus \<Rightarrow> u32 \<times> swdp \<times> bus" where
  "drw_read d c b =
     (let (v, d1, b1) =
        (if access_size d = 1 then
           (let (x, b1) = read8 b (tar d) in (push_bit (8 * unat (tar d AND 3)) (ucast x), d, b1))
         else if access_size d = 2 then
           (let (x, b1) = read16 b (tar d) in (push_bit (8 * unat (tar d AND 2)) (ucast x), d, b1))
         else mem_read_word d c b (tar d)) in
      (v, auto_inc d1, b1))"

definition drw_write :: "swdp \<Rightarrow> cpu \<Rightarrow> bus \<Rightarrow> u32 \<Rightarrow> target" where
  "drw_write d c b wdata =
     (let a = tar d;
          (d1, c1, b1) =
        (if access_size d = 1 then (d, c, write8 b a (ucast (drop_bit (8 * unat (a AND 3)) wdata)))
         else if access_size d = 2 then (d, c, write16 b a (ucast (drop_bit (8 * unat (a AND 2)) wdata)))
         else mem_write_word d c b a wdata) in
      (auto_inc d1, if a < ITCM_HI then invalidate_decode c1 a else c1, b1))"

definition ap_offset :: "u32 \<Rightarrow> u8 \<Rightarrow> u32" where
  "ap_offset sel a = push_bit 4 (drop_bit 4 sel AND 0xF) OR (ucast a AND 0x0C)"

definition ap_transfer :: "target \<Rightarrow> bool \<Rightarrow> u8 \<Rightarrow> u32 \<Rightarrow> u32 option \<times> target" where
  "ap_transfer s rnw a wdata =
     (case s of (d, c, b) \<Rightarrow>
      (let ap_reg = ap_offset (select d) a in
       if rnw then
         (let (v, d1, b1) =
            (if ap_reg = 0 then (csw d, d, b)
             else if ap_reg = 4 then (tar d, d, b)
             else if ap_reg = 0x0C then drw_read d c b
             else if ap_reg = 0xFC then (AP_IDR, d, b)
             else (0, d, b)) in
          (Some (posted d), d1\<lparr>posted := v\<rparr>, c, b1))
       else
         (None, if ap_reg = 0 then (d\<lparr>csw := wdata\<rparr>, c, b)
                else if ap_reg = 4 then (d\<lparr>tar := wdata\<rparr>, c, b)
                else if ap_reg = 0x0C then drw_write d c b wdata
                else (d, c, b))))"

definition transfer :: "target \<Rightarrow> bool \<Rightarrow> bool \<Rightarrow> u8 \<Rightarrow> u32 \<Rightarrow> u32 option \<times> target" where
  "transfer s ap rnw a wdata =
     (if ap then ap_transfer s rnw a wdata
      else (case s of (d, c, b) \<Rightarrow> let (v, d1) = dp_transfer d rnw a wdata in (v, d1, c, b)))"

end
