(* ===== verification/Debug_Props.thy ===== *)
theory Debug_Props
  imports Debugport
begin

text \<open>
  The debug port at work: register access through DCRSR and DCRDR, block transfers through
  the auto-incrementing data register, the reset catch, and the coherence of the decode
  cache with the code a debugger writes.
\<close>

unbundle bit_operations_syntax

section \<open>Registers\<close>

text \<open>What a register gives back of a written value: the bits it keeps.\<close>

definition reg_readback :: "nat \<Rightarrow> u32 \<Rightarrow> u32" where
  "reg_readback n v =
     (if n \<le> 14 \<or> n = 17 \<or> n = 18 \<or> n = 33 \<or> (64 \<le> n \<and> n \<le> 95) then v
      else if n = 15 then v AND NOT 1
      else if n = 16 then (v AND 0xF80001FF) OR 0x01000000
      else if n = 20 then v AND 0x0701FF01
      else 0)"

lemma b2w_nonzero_bit: "b2w (v AND 1 \<noteq> 0) = v AND 1"
  by (simp add: b2w_def and_one_eq odd_iff_mod_2_eq_one)

lemma xpsr_readback:
  "xpsr ((set_xpsr_flags c v)\<lparr>ipsr := v AND 0x1ff\<rparr>) = (v AND 0xF80001FF) OR 0x01000000"
proof (rule bit_word_eqI)
  fix n assume n: "n < LENGTH(32)"
  have lit: "(0xF80001FF :: u32) = push_bit 27 0x1F OR 0x1FF" "(0x01000000 :: u32) = push_bit 24 1"
    "(0x1FF :: u32) = mask 9" "(0x1F :: u32) = mask 5"
    by (simp_all add: mask_eq_exp_minus_1)
  consider "n < 9" | "9 \<le> n" "n < 24" | "n = 24" | "n = 25" | "n = 26" | "n = 27" | "n = 28"
    | "n = 29" | "n = 30" | "n = 31"
    using n by (simp, arith)
  then show "bit (xpsr ((set_xpsr_flags c v)\<lparr>ipsr := v AND 0x1ff\<rparr>)) n =
        bit ((v AND 0xF80001FF) OR 0x01000000) n"
    unfolding xpsr_def apsr_def lit(1,2) lit(3,4)
    by cases (auto simp: set_xpsr_flags_def bit_or_iff bit_and_iff bit_push_bit_iff bit_mask_iff bit_1_iff)
qed

lemma faultmask_bit: "b2w (drop_bit 16 (v :: u32) AND 1 \<noteq> 0) = drop_bit 16 v AND 1"
  by (rule b2w_nonzero_bit)

lemma control_set_control [simp]: "control (set_control c v) = v AND 7"
  by (simp add: set_control_def Let_def)

lemma masks_set_control [simp]:
  "primask (set_control c v) = primask c" "basepri (set_control c v) = basepri c"
  "faultmask (set_control c v) = faultmask c"
  by (simp_all add: set_control_def Let_def set_r_def)

lemma masks_readback:
  fixes v :: u32
  shows "(v AND 1) OR push_bit 8 (drop_bit 8 v AND 0xff) OR push_bit 16 (drop_bit 16 v AND 1) OR
    push_bit 24 (drop_bit 24 v AND 7) = v AND 0x0701FF01"
proof (rule bit_word_eqI)
  fix n assume n: "n < LENGTH(32)"
  have lit: "(0x0701FF01 :: u32) = push_bit 24 (mask 3) OR push_bit 16 (mask 1) OR push_bit 8 (mask 8) OR mask 1"
    "(0xff :: u32) = mask 8" "(7 :: u32) = mask 3"
    by (simp_all add: mask_eq_exp_minus_1)
  have one: "x AND 1 = x AND mask 1" for x :: u32 by simp
  consider "n < 8" | "8 \<le> n" "n < 16" | "n = 16" | "16 < n" "n < 24" | "24 \<le> n" by arith
  then show "bit ((v AND 1) OR push_bit 8 (drop_bit 8 v AND 0xff) OR push_bit 16 (drop_bit 16 v AND 1) OR
      push_bit 24 (drop_bit 24 v AND 7)) n = bit (v AND 0x0701FF01) n"
    unfolding lit one bit_or_iff bit_and_iff bit_push_bit_iff bit_mask_iff bit_drop_bit_eq using n
    by cases auto
qed

lemma gdb_reg_set: "gdb_reg (set_gdb_reg c n v) n = reg_readback n v"
proof -
  consider "n \<le> 14" | "n = 15" | "n = 16" | "n = 17" | "n = 18" | "n = 20" | "n = 33"
    | "64 \<le> n \<and> n \<le> 95"
    | "\<not> n \<le> 14" "n \<notin> {15, 16, 17, 18, 20, 33}" "\<not> (64 \<le> n \<and> n \<le> 95)" by auto
  then show ?thesis
  proof cases
    case 1
    then have "n \<le> 12 \<or> n = 13 \<or> n = 14" by arith
    then show ?thesis by (auto simp: gdb_reg_def set_gdb_reg_def reg_readback_def set_r_def)
  next
    case 3
    then show ?thesis by (simp add: gdb_reg_def set_gdb_reg_def reg_readback_def xpsr_readback)
  next
    case 6
    then show ?thesis
      unfolding gdb_reg_def set_gdb_reg_def reg_readback_def
      by (simp add: b2w_nonzero_bit masks_readback [symmetric] del: push_bit_and)
  qed (auto simp: gdb_reg_def set_gdb_reg_def reg_readback_def set_s_def set_r_def set_msp_def set_psp_def
      current_msp_def current_psp_def Let_def)
qed

definition dcrsr_write :: "target \<Rightarrow> u32 \<Rightarrow> u32 \<Rightarrow> target" where
  "dcrsr_write s n v = (case s of (d, c, b) \<Rightarrow>
     (case mem_write_word d c b DCRDR v of (d1, c1, b1) \<Rightarrow>
        mem_write_word d1 c1 b1 DCRSR (n OR push_bit 16 1)))"

definition dcrsr_read :: "target \<Rightarrow> u32 \<Rightarrow> u32" where
  "dcrsr_read s n = (case s of (d, c, b) \<Rightarrow>
     (case mem_write_word d c b DCRSR n of (d1, c1, b1) \<Rightarrow> fst (mem_read_word d1 c1 b1 DCRDR)))"

text \<open>
  A register written through DCRDR and DCRSR reads back through them: all of it for R0-R14,
  MSP, PSP, FPSCR and S0-S31, the even part for PC, the flags and exception number with the T
  bit set for xPSR, the implemented bits for the PRIMASK/BASEPRI/FAULTMASK/CONTROL word, and
  zero for a selector that names no register.
\<close>

theorem dcrsr_round_trip:
  "n < 128 \<Longrightarrow> dcrsr_read (dcrsr_write s n v) n = reg_readback (unat n) v"
proof -
  assume n: "n < 128"
  have lit: "(0x7F :: u32) = mask 7" by (simp add: mask_eq_exp_minus_1)
  have "unat (take_bit 7 n) = unat n"
    using n unfolding unsigned_take_bit_eq by (simp add: take_bit_eq_mod word_less_nat_alt)
  then have t: "take_bit 7 n = n" unfolding word_unat_eq_iff .
  then have k: "n AND 0x7F = n" unfolding lit by (simp add: take_bit_eq_mask)
  have b: "bit n i \<longleftrightarrow> i < 7 \<and> bit n i" for i
    using bit_take_bit_iff [of 7 n i] unfolding t .
  have hi: "\<not> bit n 16" using b [of 16] by simp
  have k2: "(n OR push_bit 16 1) AND 0x7F = n"
    unfolding word_ao_dist k by simp
  show ?thesis
    using k k2 hi by (cases s)
      (simp add: dcrsr_write_def dcrsr_read_def mem_write_word_def mem_read_word_def write_dcrsr_def gdb_reg_set
        bit_or_iff bit_push_bit_iff Let_def del: push_bit_of_1)
qed

theorem dcrsr_round_trip_witness:
  "dcrsr_read (dcrsr_write (swdp_new, demo_cpu, demo_bus) 15 0x20000011) 15 = 0x20000010"
  using dcrsr_round_trip [of 15 "(swdp_new, demo_cpu, demo_bus)" "0x20000011"]
  by (simp add: reg_readback_def)

section \<open>Block transfers\<close>

text \<open>The driver's loops over the data register: \<open>n\<close> writes, or \<open>n\<close> pipelined reads.\<close>

fun drw_writes :: "target \<Rightarrow> u32 list \<Rightarrow> target" where
  "drw_writes s [] = s"
| "drw_writes s (w # ws) = drw_writes (snd (transfer s True False 0xC w)) ws"

fun drw_reads :: "target \<Rightarrow> nat \<Rightarrow> u32 option list \<times> target" where
  "drw_reads s 0 = ([], s)"
| "drw_reads s (Suc n) =
     (let (v, s1) = transfer s True True 0xC 0; (vs, s2) = drw_reads s1 n in (v # vs, s2))"

definition set_tar :: "target \<Rightarrow> u32 \<Rightarrow> target" where
  "set_tar s a = snd (transfer s True False 4 a)"

definition read_rdbuff :: "target \<Rightarrow> u32 option" where
  "read_rdbuff s = fst (transfer s False True 0xC 0)"

definition word_mode :: "swdp \<Rightarrow> bool" where
  "word_mode d = (csw d AND 7 = 2 \<and> drop_bit 4 (csw d) AND 3 = 1 \<and> drop_bit 4 (select d) AND 0xF = 0)"

lemma ap_offset_bank0: "word_mode d \<Longrightarrow> ap_offset (select d) a = ucast a AND 0x0C"
  unfolding word_mode_def ap_offset_def by (elim conjE) (simp only:, simp)

definition plain_addr :: "u32 \<Rightarrow> bool" where
  "plain_addr a = (a \<notin> {DHCSR, DCRSR, DCRDR, DEMCR, DFSR, AIRCR})"

definition plain_block :: "bus \<Rightarrow> u32 \<Rightarrow> nat \<Rightarrow> bool" where
  "plain_block b a n = (stack_ok b a n \<and> unat a + 4 * n \<le> 0xE0000000)"

lemma plain_block_addr: "plain_block b a (Suc n) \<Longrightarrow> plain_addr a"
  by (auto simp: plain_block_def plain_addr_def)

lemma plain_block_Suc:
  assumes "plain_block b a (Suc n)"
  shows "ram_ok b a 4" "plain_addr a" "n = 0 \<or> plain_block b (a + 4) n"
  using plain_block_addr [OF assms] assms block_ok_Suc [of "\<lambda>b a. ram_ok b a 4" b a n]
  by (auto simp: plain_block_def)

lemma access_size_word [simp]: "word_mode d \<Longrightarrow> access_size d = 4"
  by (simp add: word_mode_def access_size_def)

lemma auto_inc_word [simp]: "word_mode d \<Longrightarrow> auto_inc d = d\<lparr>tar := tar d + 4\<rparr>"
  by (simp add: auto_inc_def) (simp add: word_mode_def)

lemma word_mode_frame [simp]:
  "word_mode (d\<lparr>tar := a\<rparr>) = word_mode d" "word_mode (d\<lparr>posted := v\<rparr>) = word_mode d"
  by (simp_all add: word_mode_def)

lemma drw_write_word:
  assumes "word_mode d" and "plain_addr (tar d)"
  shows "\<exists>c1. transfer (d, c, b) True False 0xC w = (None, d\<lparr>tar := tar d + 4\<rparr>, c1, write32 b (tar d) w)"
  using assms
  by (simp add: transfer_def ap_transfer_def drw_write_def mem_write_word_def plain_addr_def ap_offset_bank0 Let_def)

lemma drw_read_word:
  assumes "word_mode d" and "plain_addr (tar d)" and "ram_ok b (tar d) 4"
  shows "transfer (d, c, b) True True 0xC x =
    (Some (posted d), d\<lparr>tar := tar d + 4, posted := fst (read32 b (tar d))\<rparr>, c, b)"
  using assms read32_ram [OF assms(3)]
  by (simp add: transfer_def ap_transfer_def drw_read_def mem_read_word_def plain_addr_def ap_offset_bank0)

lemma drw_writes_block:
  "word_mode d \<Longrightarrow> plain_block b (tar d) (length ws) \<Longrightarrow>
     \<exists>c1. drw_writes (d, c, b) ws =
       (d\<lparr>tar := tar d + 4 * of_nat (length ws)\<rparr>, c1, store_words write32 b (tar d) ws)"
proof (induction ws arbitrary: d c b)
  case (Cons w ws)
  note p = plain_block_Suc [OF Cons.prems(2) [unfolded list.size add_Suc_right add_0_right]]
  obtain c1 where t: "transfer (d, c, b) True False 0xC w =
      (None, d\<lparr>tar := tar d + 4\<rparr>, c1, write32 b (tar d) w)"
    using drw_write_word [OF Cons.prems(1) p(2)] by blast
  have "ws = [] \<or> plain_block (write32 b (tar d) w) (tar d + 4) (length ws)"
    using p(1,3) by (auto simp: plain_block_def ram.block_ok_wr)
  then show ?case
    using Cons.IH [of "d\<lparr>tar := tar d + 4\<rparr>" "write32 b (tar d) w" c1] Cons.prems(1) t
    by (auto simp: algebra_simps)
qed simp

lemma drw_reads_block:
  "word_mode d \<Longrightarrow> plain_block b (tar d) n \<Longrightarrow>
     drw_reads (d, c, b) n =
       (map Some (butlast (posted d # ram_words b (tar d) n)),
        d\<lparr>tar := tar d + 4 * of_nat n, posted := last (posted d # ram_words b (tar d) n)\<rparr>, c, b)"
proof (induction n arbitrary: d)
  case (Suc n)
  note p = plain_block_Suc [OF Suc.prems(2)]
  have t: "transfer (d, c, b) True True 0xC 0 =
      (Some (posted d), d\<lparr>tar := tar d + 4, posted := fst (read32 b (tar d))\<rparr>, c, b)"
    using drw_read_word [OF Suc.prems(1) p(2,1)] .
  show ?case
    using p(3) Suc.IH [of "d\<lparr>tar := tar d + 4, posted := fst (read32 b (tar d))\<rparr>"] Suc.prems(1) t
    by (cases "n = 0") (auto simp: algebra_simps)
qed simp

text \<open>
  C25: A block of words written to RAM through the auto-incrementing data register reads back
  through it: after TAR is set again, the pipelined reads return one stale word followed by
  the block, whose final word comes out of RDBUFF; the memory is what the word stores make
  of it.
\<close>

theorem swd_block_round_trip:
  assumes "word_mode d" and "plain_block b a (length ws)" and "ws \<noteq> []"
    and "drw_writes (set_tar (d, c, b) a) ws = (d1, c1, b1)"
    and "drw_reads (set_tar (d1, c1, b1) a) (length ws) = (vs, s2)"
  shows "vs @ [read_rdbuff s2] = Some (posted d) # map Some ws \<and>
         b1 = store_words write32 b a ws \<and> snd (snd s2) = b1"
proof -
  have tar: "set_tar (d', c', b') a = (d'\<lparr>tar := a\<rparr>, c', b')" if "word_mode d'" for d' c' b'
    using that by (simp add: set_tar_def transfer_def ap_transfer_def ap_offset_bank0)
  have w: "d1 = d\<lparr>tar := a + 4 * of_nat (length ws)\<rparr>" "b1 = store_words write32 b a ws"
    using assms(4) drw_writes_block [of "d\<lparr>tar := a\<rparr>" b ws c] assms(1,2) by (auto simp: tar)
  have k: "plain_block b1 a (length ws)"
    using assms(2) ram.store_ok [of b a ws] unfolding w by (simp add: plain_block_def block_ok_def)
  have l: "ram_words b1 a (length ws) = ws"
    unfolding w by (rule ram.load_store) (use assms(2) in \<open>simp add: plain_block_def\<close>)
  have "drw_reads (set_tar (d1, c1, b1) a) (length ws) = (map Some (butlast (posted d # ws)),
      d1\<lparr>tar := a + 4 * of_nat (length ws), posted := last (posted d # ws)\<rparr>, c1, b1)"
    using drw_reads_block [of "d1\<lparr>tar := a\<rparr>" b1 "length ws" c1] assms(1) k unfolding w(1)
    by (simp add: tar l)
  then have "vs = map Some (butlast (posted d # ws))"
    "s2 = (d1\<lparr>tar := a + 4 * of_nat (length ws), posted := last (posted d # ws)\<rparr>, c1, b1)"
    using assms(5) by simp_all
  moreover have "map Some (butlast (posted d # ws)) @ [Some (last (posted d # ws))] = Some (posted d) # map Some ws"
    by (metis append_butlast_last_id list.simps(9) list.simps(3) map_append list.simps(8))
  ultimately show ?thesis
    using w by (simp add: read_rdbuff_def transfer_def dp_transfer_def)
qed

definition demo_port :: swdp where
  "demo_port = swdp_new\<lparr>csw := 0x12\<rparr>"

definition demo_written :: target where
  "demo_written = drw_writes (set_tar (demo_port, demo_cpu, demo_bus) 0x20000100) [1, 2, 3]"

definition demo_read :: "u32 option list \<times> target" where
  "demo_read = drw_reads (set_tar demo_written 0x20000100) 3"

theorem swd_block_round_trip_witness:
  "fst demo_read @ [read_rdbuff (snd demo_read)] = [Some 0, Some 1, Some 2, Some 3]"
proof -
  obtain d1 c1 b1 where e: "demo_written = (d1, c1, b1)" by (rule prod_cases3)
  obtain vs s2 where f: "demo_read = (vs, s2)" by (rule prod.exhaust)
  have w: "word_mode demo_port" by (simp add: word_mode_def demo_port_def swdp_new_def)
  have k: "plain_block demo_bus 0x20000100 (length [1, 2, 3 :: u32])"
    unfolding plain_block_def by (intro conjI demo_stack_ok) auto
  have p: "posted demo_port = 0" by (simp add: demo_port_def swdp_new_def)
  have "vs @ [read_rdbuff s2] = Some (posted demo_port) # map Some [1, 2, 3]"
    using swd_block_round_trip [OF w k _ e [unfolded demo_written_def]] f [unfolded demo_read_def e]
    by (simp add: numeral_3_eq_3)
  then show ?thesis by (simp add: f p)
qed

section \<open>The decode cache\<close>

text \<open>Memory an instruction can be cached from: RAM or a flash window, read without side effects.\<close>

definition code_half :: "bus \<Rightarrow> u32 \<Rightarrow> bool" where
  "code_half b a = (ram_ok b a 2 \<or> flash_window b (fold_addr b a) \<noteq> None)"

definition cache_ok :: "env \<Rightarrow> cpu \<Rightarrow> bus \<Rightarrow> bool" where
  "cache_ok E c b = (\<forall>a d. dcache c a = Some d \<longrightarrow>
     even (unat a) \<and> code_half b a \<and> code_half b (a + 2) \<and> d = fst (fetch_decode E b a))"

lemma read16_code: "code_half b a \<Longrightarrow> snd (read16 b a) = b"
proof (cases "ram_ok b a 2")
  case False
  moreover assume "code_half b a"
  ultimately show ?thesis
    by (auto simp: code_half_def read16_def Let_def split: option.split sum.split)
qed (simp add: read16_ram)

lemma fetch_decode_code:
  assumes "code_half b a" and "code_half b (a + 2)"
  shows "fetch_decode E b a =
    (let raw = le32 (byte_of (fst (read16 b a)) 0) (byte_of (fst (read16 b a)) 1)
                    (byte_of (fst (read16 b (a + 2))) 0) (byte_of (fst (read16 b (a + 2))) 1) in
     (case decode E raw of Some (i, len) \<Rightarrow> \<lparr>d_raw = raw, d_len = len, d_inst = Some i\<rparr>
      | None \<Rightarrow> \<lparr>d_raw = raw, d_len = 4, d_inst = None\<rparr>, b))"
proof -
  obtain x where x: "read16 b a = (x, b)" using read16_code [OF assms(1)] by (metis prod.collapse)
  obtain y where y: "read16 b (a + 2) = (y, b)" using read16_code [OF assms(2)] by (metis prod.collapse)
  show ?thesis by (simp add: fetch_decode_def x y Let_def)
qed

lemma fetch_cached:
  "cache_ok E c b \<Longrightarrow> fst (fetch E c b a) = fst (fetch_decode E b a)"
  by (auto simp: fetch_def cache_ok_def Let_def split_def split: option.split)

text \<open>A store to RAM leaves every halfword it does not touch.\<close>

lemma get16_other:
  assumes "ram_ok b a (length bs)" and "ram_ok b c 2"
    and "unat a + length bs \<le> unat c \<or> unat c + 2 \<le> unat a"
  shows "fst (read16 (ram_store b a v bs) c) = fst (read16 b c)"
proof -
  from assms(1) obtain i off where r: "ram_for b a (of_nat (length bs)) = Some (i, off)"
      "ram_in_bounds b i off (length bs)"
    by (auto simp: ram_ok_def split: option.splits)
  from assms(2) obtain j off' where s: "ram_for b c 2 = Some (j, off')" "ram_in_bounds b j off' 2"
    by (auto simp: ram_ok_def split: option.splits)
  have i: "i < length (rams b)" "off = unat (a - ram_base (rams b ! i))" "ram_base (rams b ! i) \<le> a"
    using r(1) ram_find_bound ram_find_base unfolding ram_for_def by fastforce+
  have j: "j < length (rams b)" "off' = unat (c - ram_base (rams b ! j))" "ram_base (rams b ! j) \<le> c"
    using s(1) ram_find_bound ram_find_base unfolding ram_for_def by fastforce+
  have "off' + 2 \<le> off \<or> off + length bs \<le> off'" if "i = j"
    using assms(3) i j that by (auto simp: unat_sub word_le_nat_alt)
  then have "get16 (ram_data (rams (ram_store b a v bs) ! j)) off' = get16 (ram_data (rams b ! j)) off'"
    using ram_data_store [OF r j(1), of v] get16_blit_other [of off' off bs] by auto
  then show ?thesis
    using read16_ram [of "ram_store b a v bs" c] read16_ram [OF assms(2)] assms(2) s by simp
qed

lemma flash_window_store [simp]: "flash_window (ram_store b a v bs) c = flash_window b c"
  by (simp add: flash_window_def split: option.split)

lemma fold_addr_store [simp]: "fold_addr (ram_store b a v bs) c = fold_addr b c"
  by (simp add: fold_addr_def)

lemma code_half_store [simp]: "code_half (ram_store b a v bs) c = code_half b c"
  by (simp add: code_half_def)

lemma read16_other:
  assumes "ram_ok b a (length bs)" and "code_half b c"
    and "unat a + length bs \<le> unat c \<or> unat c + 2 \<le> unat a"
  shows "fst (read16 (ram_store b a v bs) c) = fst (read16 b c)"
proof (cases "ram_ok b c 2")
  case False
  with assms(2) show ?thesis
    by (auto simp: code_half_def read16_def Let_def split: option.split sum.split)
qed (rule get16_other [OF assms(1) _ assms(3)])

text \<open>Halfwords on even addresses, away from the two a store of up to four bytes touches.\<close>

lemma even_away:
  fixes a h :: u32
  assumes "even (unat a)" and "even (unat h)" and "h \<noteq> a" and "h \<noteq> a + 2"
    and "n \<le> 4" and "unat a + 2 < 2 ^ 32"
  shows "unat a + n \<le> unat h \<or> unat h + 2 \<le> unat a"
proof -
  have "unat (a + 2) = unat a + 2" using assms(6) by (subst unat_add_lem [THEN iffD1]) simp_all
  moreover have "unat h \<noteq> unat a" "unat h \<noteq> unat (a + 2)"
    using assms(3,4) by (simp_all add: word_unat_eq_iff)
  ultimately show ?thesis using assms(1,2,5) by (elim evenE) arith
qed

lemma even_add2: "even (unat (h :: u32)) \<Longrightarrow> even (unat (h + 2))"
  by (simp add: unat_word_ariths dvd_mod_iff)

lemma store_coherent:
  assumes "cache_ok E c b" and "ram_ok b a (length bs)" and "length bs \<le> 4"
    and "even (unat a)" and "a < ITCM_HI"
  shows "cache_ok E (invalidate_decode c a) (ram_store b a v bs)"
proof -
  have a2: "unat a + 2 < 2 ^ 32" using assms(5) by (simp add: word_less_nat_alt)
  have keep: "fetch_decode E (ram_store b a v bs) k = (fst (fetch_decode E b k), ram_store b a v bs)"
    if k: "k \<noteq> a - 2" "k \<noteq> a" "k \<noteq> a + 2" "even (unat k)" "code_half b k" "code_half b (k + 2)" for k
  proof -
    have "k + 2 \<noteq> a" using k(1) by auto
    moreover have "k + 2 \<noteq> a + 2" using k(2) by simp
    ultimately have "fst (read16 (ram_store b a v bs) k) = fst (read16 b k)"
      "fst (read16 (ram_store b a v bs) (k + 2)) = fst (read16 b (k + 2))"
      using k even_add2 [OF k(4)] by (intro read16_other even_away assms a2; simp)+
    then show ?thesis using k(5,6) by (simp add: fetch_decode_code Let_def)
  qed
  show ?thesis
    unfolding cache_ok_def
  proof (intro allI impI)
    fix k d
    assume "dcache (invalidate_decode c a) k = Some d"
    then have n: "k \<noteq> a - 2" "k \<noteq> a" "k \<noteq> a + 2" "dcache c k = Some d"
      by (auto simp: invalidate_decode_def split: if_splits)
    with assms(1) have "even (unat k)" "code_half b k" "code_half b (k + 2)" "d = fst (fetch_decode E b k)"
      by (auto simp: cache_ok_def)
    with keep [of k] n show "even (unat k) \<and> code_half (ram_store b a v bs) k \<and>
        code_half (ram_store b a v bs) (k + 2) \<and> d = fst (fetch_decode E (ram_store b a v bs) k)"
      by simp
  qed
qed

lemma drw_write_ram:
  assumes "tar d < ITCM_HI" and "ram_ok b (tar d) (access_size d)"
  shows "\<exists>v bs. length bs = access_size d \<and>
    drw_write d c b w = (auto_inc d, invalidate_decode c (tar d), ram_store b (tar d) v bs)"
proof -
  have "unat (csw d AND 7) = 0 \<or> unat (csw d AND 7) = 1 \<or> 2 \<le> unat (csw d AND 7)" by arith
  then consider "access_size d = 1" | "access_size d = 2" | "access_size d = 4"
    by (auto simp: access_size_def min_def)
  then show ?thesis
  proof cases
    case 1
    let ?x = "ucast (drop_bit (8 * unat (tar d AND 3)) w) :: u8"
    show ?thesis using assms 1
      by (intro exI [of _ "ucast ?x"] exI [of _ "[?x]"]) (simp add: drw_write_def Let_def write8_ram)
  next
    case 2
    let ?x = "ucast (drop_bit (8 * unat (tar d AND 2)) w) :: u16"
    show ?thesis using assms 2
      by (intro exI [of _ "ucast ?x"] exI [of _ "le_bytes16 ?x"]) (simp add: drw_write_def Let_def write16_ram)
  next
    case 3
    then show ?thesis using assms
      by (intro exI [of _ w] exI [of _ "le_bytes32 w"])
        (auto simp: drw_write_def mem_write_word_def Let_def write32_ram)
  qed
qed

text \<open>
  Code injected over the debug port is what runs: a write of any width to an even ITCM
  address keeps the decode cache consistent with memory, so the next fetch of any address
  gives the instruction that is now there.
\<close>

theorem injected_code_is_fetched:
  assumes "cache_ok E c b" and "tar d < ITCM_HI" and "even (unat (tar d))"
    and "ram_ok b (tar d) (access_size d)" and "drw_write d c b w = (d1, c1, b1)"
  shows "cache_ok E c1 b1 \<and> fst (fetch E c1 b1 a) = fst (fetch_decode E b1 a)"
proof -
  obtain v bs where "length bs = access_size d" "c1 = invalidate_decode c (tar d)"
      "b1 = ram_store b (tar d) v bs"
    using drw_write_ram [OF assms(2,4), of c w] assms(5) by auto
  moreover have "access_size d \<le> 2 ^ 2" unfolding access_size_def by (rule power_increasing) simp_all
  ultimately have "cache_ok E c1 b1" using store_coherent [OF assms(1)] assms by simp
  then show ?thesis using fetch_cached by blast
qed

text \<open>An ITCM of zeros, the word at 0x100 cached; then bytes are written beside and into it.\<close>

definition itcm_bus :: bus where
  "itcm_bus = add_ram bus_new 0 0x10000"

definition zero_fpu :: fpu where
  "zero_fpu = \<lparr>fadd = (\<lambda>_ _. 0), fsub = (\<lambda>_ _. 0), fmul = (\<lambda>_ _. 0), fdiv = (\<lambda>_ _. 0), fsqrt = id,
     f_of_i32 = id, f_of_u32 = id, f_to_i32 = id, f_to_u32 = id,
     dadd = (\<lambda>_ _. 0), dsub = (\<lambda>_ _. 0), dmul = (\<lambda>_ _. 0), ddiv = (\<lambda>_ _. 0)\<rparr>"

definition no_decode :: env where
  "no_decode = \<lparr>decode = (\<lambda>_. None), fpu_of = zero_fpu, cfpa_version = (\<lambda>_. 0),
     cmpa_parses = (\<lambda>_. False), cfpa_parses = (\<lambda>_. False), verify_image = (\<lambda>_ _ _. False)\<rparr>"

definition cached_cpu :: cpu where
  "cached_cpu = cpu_new\<lparr>debug_en := True,
     dcache := [0x100 \<mapsto> \<lparr>d_raw = 0, d_len = 4, d_inst = None\<rparr>]\<rparr>"

lemma itcm_ok: "ram_ok itcm_bus 0x100 1" "ram_ok itcm_bus 0x101 1" "ram_ok itcm_bus 0x100 2" "ram_ok itcm_bus 0x102 2"
  by (simp_all add: ram_ok_def itcm_bus_def add_ram_def bus_new_def fold_addr_def intercepted_def
      in_range_def ram_for_def ram_in_bounds_def)

lemma itcm_cache_ok: "cache_ok no_decode cached_cpu itcm_bus"
  using itcm_ok
  by (simp add: cache_ok_def cached_cpu_def code_half_def fetch_decode_code Let_def read16_ram)
    (simp add: itcm_bus_def add_ram_def bus_new_def ram_for_def get16_def le16_def no_decode_def
      le32_def byte_of_def)

theorem injected_code_is_fetched_witness:
  "cache_ok no_decode (fst (snd (drw_write (swdp_new\<lparr>tar := 0x100\<rparr>) cached_cpu itcm_bus 0xFF)))
     (snd (snd (drw_write (swdp_new\<lparr>tar := 0x100\<rparr>) cached_cpu itcm_bus 0xFF)))"
  using injected_code_is_fetched [OF itcm_cache_ok, of "swdp_new\<lparr>tar := 0x100\<rparr>"
      "0xFF" "fst (drw_write (swdp_new\<lparr>tar := 0x100\<rparr>) cached_cpu itcm_bus 0xFF)"
      "fst (snd (drw_write (swdp_new\<lparr>tar := 0x100\<rparr>) cached_cpu itcm_bus 0xFF))"
      "snd (snd (drw_write (swdp_new\<lparr>tar := 0x100\<rparr>) cached_cpu itcm_bus 0xFF))"] itcm_ok(1)
  by (simp add: access_size_def swdp_new_def)

text \<open>
  A byte written to an odd ITCM address escapes the invalidation, which drops the entries
  at the address and two bytes around it, all odd: the cached decode of the instruction that
  contains the byte survives, and the core runs the old instruction.
\<close>

theorem odd_byte_write_stays_stale:
  "\<exists>E c b d. cache_ok E c b \<and> tar d = 0x101 \<and>
     (case drw_write d c b 0xFF00 of (d1, c1, b1) \<Rightarrow>
        fst (fetch E c1 b1 0x100) \<noteq> fst (fetch_decode E b1 0x100))"
proof (intro exI conjI)
  let ?d = "swdp_new\<lparr>tar := 0x101\<rparr>" and ?b = "ram_store itcm_bus 0x101 0xFF [0xFF]"
  show "cache_ok no_decode cached_cpu itcm_bus" by (rule itcm_cache_ok)
  show "tar ?d = 0x101" by simp
  have w: "drw_write ?d cached_cpu itcm_bus 0xFF00 = (?d, invalidate_decode cached_cpu 0x101, ?b)"
    using itcm_ok(2) by (simp add: drw_write_def access_size_def swdp_new_def auto_inc_def write8_ram)
  have c: "dcache (invalidate_decode cached_cpu 0x101) 0x100 = Some \<lparr>d_raw = 0, d_len = 4, d_inst = None\<rparr>"
    by (simp add: invalidate_decode_def cached_cpu_def)
  have k: "cacheable (invalidate_decode cached_cpu 0x101) 0x100"
    by (simp add: cacheable_def invalidate_decode_def cached_cpu_def)
  have f: "d_raw (fst (fetch_decode no_decode ?b 0x100)) \<noteq> 0"
    using itcm_ok(3,4)
    by (simp add: code_half_def fetch_decode_code Let_def read16_ram no_decode_def)
      (simp add: ram_store_def itcm_bus_def add_ram_def bus_new_def ram_for_def ram_put_def ram_in_bounds_def
        rec_write_def blit_def get16_def le16_def le32_def byte_of_def)
  then show "case drw_write ?d cached_cpu itcm_bus 0xFF00 of (d1, c1, b1) \<Rightarrow>
      fst (fetch no_decode c1 b1 0x100) \<noteq> fst (fetch_decode no_decode b1 0x100)"
    unfolding w using c k by (auto simp: fetch_def dest: arg_cong [where f = d_raw])
qed

section \<open>Reset and halt\<close>

lemma nvic_write32_tail:
  "nvic_en (write32_tail b a v) = nvic_en b \<and> nvic_pend (write32_tail b a v) = nvic_pend b"
  by (simp add: write32_tail_def Let_def tim5_write_def device_write_def split_def split: option.split)

lemma nvic_write32:
  assumes "\<not> in_range NVIC_LO NVIC_HI a" and "\<not> in_range ETH_BASE ETH_END a" and "fold_addr b a = a"
  shows "nvic_en (write32 b a v) = nvic_en b \<and> nvic_pend (write32 b a v) = nvic_pend b"
proof -
  have s: "nvic_en (write32_sys k b a v) = nvic_en b \<and> nvic_pend (write32_sys k b a v) = nvic_pend b" for k
    using assms(1,2) nvic_write32_tail [of b a v] nvic_write32_tail [of "b\<lparr>reset_pending := True\<rparr>" a v]
    by (simp add: write32_sys_def Let_def)
  then show ?thesis using assms(3)
    by (simp add: write32_def write32_gen_def write32_rot_def split: option.split)
qed

lemma next_irq_none: "nvic_pend b = (\<lambda>_. 0) \<Longrightarrow> next_irq_from b i n = None"
  by (induction n arbitrary: i) (simp_all add: Let_def)

lemma reset_clears_irqs: "next_irq (reset_exception_sources b) = None"
proof -
  have n: "nvic_pend (write32 x a v) = nvic_pend x" if "a \<in> {SYST_CSR, SYST_RVR, SYST_CVR}" for x a v
    using that nvic_write32 [of a x v] by (auto simp: in_range_def fold_addr_def)
  have "nvic_pend (reset_exception_sources b) = (\<lambda>_. 0)"
    by (simp add: reset_exception_sources_def n)
  then show ?thesis by (simp add: next_irq_def next_irq_none)
qed

lemma honor_eq:
  "honor_vector_catch d c = (demcr d AND 1 \<noteq> 0,
     if demcr d AND 1 = 0 then d else d\<lparr>reset_sticky := True, vcatch_halt := True\<rparr>,
     c\<lparr>halted := (halted c \<or> demcr d AND 1 \<noteq> 0)\<rparr>)"
  by (simp add: honor_vector_catch_def)

lemma reboot_runs: "\<not> halted (reset_for_reboot c sp a)"
  by (simp add: reset_for_reboot_def)

text \<open>
  A reset over the debug port (SYSRESETREQ or the reset pin) boots the core from the
  vector table in thread mode on the main stack with nothing masked, in an IT block or
  pending; with the vector catch armed it is halted there and DFSR says so, otherwise it
  runs; and DHCSR reports the reset exactly once.
\<close>

theorem reset_catch:
  assumes "do_reset d c b = (d1, c1, b1)" and "dhcsr_ctrl d AND 0xB = dhcsr_ctrl d"
  shows "pc c1 = fst (read32 (snd (read32 b VECTOR_TABLE)) (VECTOR_TABLE + 4)) AND NOT 1 \<and>
    r c1 SP = fst (read32 b VECTOR_TABLE) \<and> mode c1 = Thread \<and> \<not> sp_is_psp c1 \<and>
    \<not> primask c1 \<and> \<not> faultmask c1 \<and> basepri c1 = 0 \<and> itstate c1 = 0 \<and> next_irq b1 = None \<and>
    halted c1 = (demcr d AND 1 \<noteq> 0) \<and> dfsr d1 c1 = (if demcr d AND 1 \<noteq> 0 then DFSR_VCATCH else 0) \<and>
    (case mem_read_word d1 c1 b1 DHCSR of (v1, d2, b2) \<Rightarrow>
       bit v1 25 \<and> bit v1 17 = halted c1 \<and> \<not> bit (fst (mem_read_word d2 c1 b2 DHCSR)) 25)"
proof -
  have lit: "(0xB :: u32) = mask 2 OR push_bit 3 1" "S_REGRDY = push_bit 16 1" "S_HALT = push_bit 17 1"
    "S_RESET_ST = push_bit 25 1"
    by (simp_all add: mask_eq_exp_minus_1)
  have "bit (dhcsr_ctrl d AND 0xB) i \<Longrightarrow> i < 4" for i
    unfolding lit(1) bit_and_iff bit_or_iff bit_mask_iff bit_push_bit_iff bit_1_iff by auto
  then have k: "bit (dhcsr_ctrl d) i \<Longrightarrow> i < 4" for i unfolding assms(2) .
  have r25: "\<not> bit (dhcsr_ctrl d) 25" "\<not> bit (dhcsr_ctrl d) 17" using k by fastforce+
  let ?c = "reset_for_reboot c (fst (read32 b VECTOR_TABLE))
    (fst (read32 (snd (read32 b VECTOR_TABLE)) (VECTOR_TABLE + 4)) AND NOT 1)"
  have e: "b1 = reset_exception_sources (snd (read32 (snd (read32 b VECTOR_TABLE)) (VECTOR_TABLE + 4)))"
    "d1 = (if demcr d AND 1 = 0 then d\<lparr>reset_sticky := True\<rparr>
       else d\<lparr>reset_sticky := True, vcatch_halt := True\<rparr>)"
    "c1 = ?c\<lparr>halted := (demcr d AND 1 \<noteq> 0)\<rparr>"
    using assms(1) unfolding do_reset_def honor_eq split_def Let_def by (auto simp: reboot_runs)
  have c: "pc ?c = fst (read32 (snd (read32 b VECTOR_TABLE)) (VECTOR_TABLE + 4)) AND NOT 1"
    "r ?c SP = fst (read32 b VECTOR_TABLE)" "mode ?c = Thread" "\<not> sp_is_psp ?c" "\<not> primask ?c"
    "\<not> faultmask ?c" "basepri ?c = 0" "itstate ?c = 0" "\<not> bkpt_hit ?c"
    by (simp_all add: reset_for_reboot_def cpu_reset_def set_r_def)
  have h: "halted c1 = (demcr d AND 1 \<noteq> 0)" "reset_sticky d1" "dhcsr_ctrl d1 = dhcsr_ctrl d" by (simp_all add: e)
  have "dfsr d1 c1 = (if demcr d AND 1 \<noteq> 0 then DFSR_VCATCH else 0)"
    using c by (simp add: e dfsr_def)
  moreover have "case mem_read_word d1 c1 b1 DHCSR of (v1, d2, b2) \<Rightarrow>
       bit v1 25 \<and> bit v1 17 = halted c1 \<and> \<not> bit (fst (mem_read_word d2 c1 b2 DHCSR)) 25"
    using r25 h(2) unfolding mem_read_word_def lit(2,3,4)
    by (simp add: h(3) bit_or_iff bit_push_bit_iff bit_1_iff Let_def del: push_bit_of_1)
  ultimately show ?thesis
    using c reset_clears_irqs h(1) by (simp add: e)
qed

theorem reset_catch_witness:
  "case do_reset (swdp_new\<lparr>demcr := 1\<rparr>) demo_cpu demo_bus of (d1, c1, b1) \<Rightarrow>
     halted c1 \<and> dfsr d1 c1 = DFSR_VCATCH \<and> itstate c1 = 0"
  using reset_catch [of "swdp_new\<lparr>demcr := 1\<rparr>" demo_cpu demo_bus
      "fst (do_reset (swdp_new\<lparr>demcr := 1\<rparr>) demo_cpu demo_bus)"
      "fst (snd (do_reset (swdp_new\<lparr>demcr := 1\<rparr>) demo_cpu demo_bus))"
      "snd (snd (do_reset (swdp_new\<lparr>demcr := 1\<rparr>) demo_cpu demo_bus))"]
  by (simp add: swdp_new_def split_def)

text \<open>
  The catch flag outlives the catch: a later reset with the catch disarmed leaves it set, and
  a plain halt request is then reported as a vector catch.
\<close>

lemma stale_vector_catch:
  assumes "vcatch_halt d" and "demcr d AND 1 = 0"
  shows "case do_reset d c b of (d1, c1, b1) \<Rightarrow>
    (case write_dhcsr d1 c1 0xA05F0003 of (d2, c2) \<Rightarrow> \<not> halted c1 \<and> dfsr d2 c2 = DFSR_VCATCH)"
  using assms
  by (simp add: do_reset_def honor_vector_catch_def split_def Let_def write_dhcsr_def dfsr_def
      reset_for_reboot_def cpu_reset_def set_r_def)

end
