(* ===== verification/RotSwd.thy ===== *)
theory RotSwd
  imports Debugport RotSwd_Port
begin

text \<open>
  The RoT's SWD transactions against the SP's debug port: \<open>swd_drain\<close> is the serve loop's
  side of the link (\<open>src/gdb.rs\<close>), which runs the transactions \<open>RotSwd_Port\<close> queued. The
  theorems follow a write and a read from the RoT's frames to the port and back.
\<close>

unbundle bit_operations_syntax

section \<open>The serve loop's side\<close>

fun run_reqs :: "swd_req list \<Rightarrow> u32 option \<Rightarrow> target \<Rightarrow> u32 option \<times> target" where
  "run_reqs [] d t = (d, t)"
| "run_reqs (q # qs) d t =
     (let (v, t1) = transfer t (sr_ap q) (sr_rnw q) (sr_a q) (sr_wdata q) in
      run_reqs qs (case v of Some x \<Rightarrow> Some x | None \<Rightarrow> d) t1)"

definition swd_drain :: "swd_link \<Rightarrow> target \<Rightarrow> swd_link \<times> target" where
  "swd_drain l t = (let (d, t1) = run_reqs (sw_req l) (sw_resp l) t in (\<lparr>sw_req = [], sw_resp = d\<rparr>, t1))"

section \<open>Frames as bits\<close>

text \<open>A frame's bits as they go over the wire, most significant first.\<close>

definition wire_bits :: "nat \<Rightarrow> 'a::len word \<Rightarrow> bool list" where
  "wire_bits n w = map (bit w) (rev [0..<n])"

lemma length_wire_bits [simp]: "length (wire_bits n w) = n"
  by (simp add: wire_bits_def)

lemma nth_wire_bits: "i < n \<Longrightarrow> wire_bits n w ! i = bit w (n - 1 - i)"
  by (simp add: wire_bits_def rev_nth)

lemma wire_bits_append:
  fixes acc :: u64 and data :: u16
  assumes "n + len \<le> 64"
  shows "wire_bits (n + len) (push_bit len acc OR (ucast data AND mask len)) = wire_bits n acc @ wire_bits len data"
proof (rule nth_equalityI)
  fix i assume i: "i < length (wire_bits (n + len) (push_bit len acc OR (ucast data AND mask len)))"
  show "wire_bits (n + len) (push_bit len acc OR (ucast data AND mask len)) ! i =
      (wire_bits n acc @ wire_bits len data) ! i"
  proof (cases "i < n")
    case True
    then have e: "n + len - Suc i - len = n - Suc i" "len \<le> n + len - Suc i" "n + len - Suc i < 64"
      "\<not> n + len - Suc i < len"
      using assms by simp_all
    show ?thesis using True i assms
      by (simp add: nth_append nth_wire_bits bit_simps e)
  next
    case False
    then have e: "len - 1 - (i - n) = n + len - 1 - i" "n + len - 1 - i < len" using i by simp_all
    show ?thesis using False i assms e
      by (auto simp: nth_append nth_wire_bits bit_simps dest: bit_imp_le_length)
  qed
qed simp

fun swd_frames :: "rot_swd \<Rightarrow> swd_link \<Rightarrow> (nat \<times> u16) list \<Rightarrow> rot_swd \<times> swd_link" where
  "swd_frames s l [] = (s, l)"
| "swd_frames s l ((n, x) # fs) = (let (s1, l1) = swd_frame s l n x in swd_frames s1 l1 fs)"

text \<open>The bits the frames carry; four-bit frames only clock the acknowledgement.\<close>

definition payload :: "(nat \<times> u16) list \<Rightarrow> bool list" where
  "payload fs = concat (map (\<lambda>(n, x). if n = 4 then [] else wire_bits n x) fs)"

lemma payload_Cons: "payload ((n, x) # fs) = (if n = 4 then [] else wire_bits n x) @ payload fs"
  by (simp add: payload_def)

lemma data_word:
  fixes acc :: u64 and w :: u32
  assumes "wire_bits 34 acc = t # map (bit w) [0..<32] @ [p]"
  shows "word_reverse (ucast (drop_bit 1 acc)) = w"
proof (rule bit_word_eqI)
  fix i assume i: "i < LENGTH(32)"
  then have i32: "i < 32" by simp
  have "wire_bits 34 acc ! Suc i = bit w i"
    unfolding assms using i by (simp add: nth_append)
  moreover have "wire_bits 34 acc ! Suc i = bit acc (34 - 1 - Suc i)"
    by (rule nth_wire_bits) (use i in simp)
  ultimately have "bit acc (34 - 1 - Suc i) = bit w i" by simp
  moreover have "34 - 1 - Suc i = Suc (32 - Suc i)" "32 - Suc i < 32" using i by simp_all
  ultimately show "bit (word_reverse (ucast (drop_bit 1 acc)) :: u32) i = bit w i"
    using i by (simp add: bit_simps)
qed

lemma swd_frames_write:
  assumes "sw_phase s = WriteData acc n ap a" and "n < 34"
    and "\<forall>(m, x) \<in> set fs. 0 < m \<and> m \<le> 16"
    and "wire_bits n acc @ payload fs = t # map (bit w) [0..<32] @ [p]"
    and "fs \<noteq> [] \<longrightarrow> fst (last fs) \<noteq> 4"
  shows "swd_frames s l fs =
    (s\<lparr>sw_phase := SwdIdle\<rparr>, l\<lparr>sw_req := sw_req l @ [\<lparr>sr_ap = ap, sr_rnw = False, sr_a = a, sr_wdata = w\<rparr>]\<rparr>)"
  using assms
proof (induction fs arbitrary: s acc n)
  case Nil
  then have "length (wire_bits n acc) = 34" by (simp add: payload_def)
  with Nil show ?case by simp
next
  case (Cons f fs)
  obtain m x where f: "f = (m, x)" by (cases f)
  show ?case
  proof (cases "m = 4")
    case True
    with Cons.prems f have "fs \<noteq> []" by auto
    then have "fst (last fs) \<noteq> 4" using Cons.prems(5) by simp
    with Cons.IH [OF Cons.prems(1,2)] Cons.prems True show ?thesis
      by (simp add: f swd_frame_def on_data_def payload_Cons)
  next
    case False
    let ?acc = "push_bit m acc OR (ucast x AND mask m)"
    have m: "0 < m" "m \<le> 16" using Cons.prems(3) by (auto simp: f)
    have b: "wire_bits (n + m) ?acc @ payload fs = t # map (bit w) [0..<32] @ [p]"
      using Cons.prems(2,4) m False wire_bits_append [of n m acc x] by (simp add: f payload_Cons)
    show ?thesis
    proof (cases "34 \<le> n + m")
      case True
      have l: "length (wire_bits (n + m) ?acc @ payload fs) = 34" unfolding b by simp
      then have k: "n + m = 34" "length (payload fs) = 0"
        using True unfolding length_append length_wire_bits by linarith+
      have "fs = []"
      proof (rule ccontr)
        assume ne: "fs \<noteq> []"
        with Cons.prems(3,5) have "last fs \<in> set fs" "fst (last fs) \<noteq> 4" "0 < fst (last fs)"
          by (force dest: last_in_set)+
        moreover have "concat (map (\<lambda>(n, x). if n = 4 then [] else wire_bits n x) fs) = []"
          using k(2) unfolding payload_def length_0_conv .
        ultimately show False by (auto simp: split_beta wire_bits_def dest!: bspec)
      qed
      moreover have "word_reverse (ucast (drop_bit 1 ?acc)) = w"
        using b k by (intro data_word) simp
      ultimately show ?thesis
        using Cons.prems(1) False k(1) by (simp add: f swd_frame_def on_data_def Let_def)
    next
      case short: False
      have "fs \<noteq> [] \<longrightarrow> fst (last fs) \<noteq> 4" using Cons.prems(5) by auto
      then show ?thesis
        using Cons.IH [of "s\<lparr>sw_phase := WriteData ?acc (n + m) ap a\<rparr>" ?acc "n + m"] Cons.prems(1,3) b short False
        by (simp add: f swd_frame_def on_data_def Let_def)
    qed
  qed
qed

lemma transfer_write_none [simp]: "fst (transfer t ap False a w) = None"
  by (cases t) (simp add: transfer_def ap_transfer_def dp_transfer_def Let_def split_def)

lemma run_reqs_append:
  "run_reqs (qs @ rs) d t = (let (d1, t1) = run_reqs qs d t in run_reqs rs d1 t1)"
  by (induction qs arbitrary: d t) (simp_all add: Let_def split_def)

text \<open>
  C10: A write transaction the RoT clocks out over SWD reaches the SP's debug port as the
  write it encodes: a request frame, then turnaround, the 32 data bits least significant
  first and parity, however they are cut into frames of up to 16 bits and wherever the
  acknowledgement frames fall; the serve loop's drain runs exactly that transfer, after
  those queued before it.
\<close>

theorem swd_write_reaches_port:
  assumes "sw_phase s = SwdIdle" and "is_request 8 data" and "\<not> bit data 5"
    and "\<forall>(m, x) \<in> set fs. 0 < m \<and> m \<le> 16" and "fst (last fs) \<noteq> 4"
    and "payload fs = t # map (bit w) [0..<32] @ [p]"
    and "swd_frames s l ((8, data) # fs) = (s1, l1)"
  shows "sw_phase s1 = SwdIdle \<and> sw_rx s1 = sw_rx s @ [ACK_OK] \<and>
    snd (swd_drain l1 tg) = snd (transfer (snd (swd_drain l tg)) (bit data 6) False (request_addr data) w)"
proof -
  have b: "(drop_bit k data AND 1 \<noteq> 0) = bit data k" for k
    by (simp add: and_one_eq odd_iff_mod_2_eq_one [symmetric] bit_iff_odd_drop_bit)
  let ?s = "s\<lparr>sw_rx := sw_rx s @ [ACK_OK], sw_phase := WriteData 0 0 (bit data 6) (request_addr data)\<rparr>"
  have "swd_frame s l 8 data = (?s, l)"
    using assms(1-3) by (simp add: swd_frame_def on_request_def b Let_def)
  moreover have "swd_frames ?s l fs = (?s\<lparr>sw_phase := SwdIdle\<rparr>,
      l\<lparr>sw_req := sw_req l @ [\<lparr>sr_ap = bit data 6, sr_rnw = False, sr_a = request_addr data, sr_wdata = w\<rparr>]\<rparr>)"
    using assms(4-6) by (intro swd_frames_write [where n = 0 and acc = 0 and t = t and p = p])
      (simp_all add: wire_bits_def)
  ultimately show ?thesis
    using assms(7) by (auto simp: swd_drain_def run_reqs_append split_def Let_def)
qed

text \<open>A DRW write of 0xCAFEF00D to the access port, in frames of 16, 10 and 8 bits after the acknowledgement.\<close>

definition drw_frames :: "(nat \<times> u16) list" where
  "drw_frames = [(4, 0), (16, 0xD807), (10, 0x2FE), (8, 0xA6)]"

lemma drw_payload: "payload drw_frames = True # map (bit (0xCAFEF00D :: u32)) [0..<32] @ [False]"
  by (simp add: payload_def drw_frames_def wire_bits_def upt_rec)

theorem swd_write_reaches_port_witness:
  "snd (swd_drain (snd (swd_frames rot_swd_new \<lparr>sw_req = [], sw_resp = None\<rparr> ((8, 0xD9) # drw_frames)))
     (swdp_new, cpu_new, bus_new)) =
   snd (transfer (swdp_new, cpu_new, bus_new) True False 0xC 0xCAFEF00D)"
proof -
  have a: "request_addr 0xD9 = 0xC" by (simp add: request_addr_def)
  show ?thesis
    using swd_write_reaches_port [of rot_swd_new "0xD9" drw_frames True "0xCAFEF00D" False "\<lparr>sw_req = [], sw_resp = None\<rparr>"
        "fst (swd_frames rot_swd_new \<lparr>sw_req = [], sw_resp = None\<rparr> ((8, 0xD9) # drw_frames))"
        "snd (swd_frames rot_swd_new \<lparr>sw_req = [], sw_resp = None\<rparr> ((8, 0xD9) # drw_frames))"
        "(swdp_new, cpu_new, bus_new)"]
    by (simp add: rot_swd_new_def is_request_def a drw_payload) (simp add: drw_frames_def swd_drain_def)
qed

section \<open>Reading back\<close>

text \<open>What the RoT makes of four read-data frames: bytes un-reversed, parity checked.\<close>

definition decode_frames :: "u32 list \<Rightarrow> u32 option" where
  "decode_frames fs = (case fs of
     [f0, f1, f2, f3] \<Rightarrow>
       (let rb = (\<lambda>f. word_reverse (ucast f :: u8)); d = le32 (rb f0) (rb f1) (rb f2) (rb (drop_bit 1 f3)) in
        if odd (count_ones d) = bit f3 0 then Some d else None)
   | _ \<Rightarrow> None)"

fun fiford_reads :: "rot_swd \<Rightarrow> swd_link \<Rightarrow> nat \<Rightarrow> u32 list \<times> rot_swd \<times> swd_link" where
  "fiford_reads s l 0 = ([], s, l)"
| "fiford_reads s l (Suc n) =
     (let (v, s1, l1) = rot_swd_read s l SWD_FIFORD; (vs, s2, l2) = fiford_reads s1 l1 n in (v # vs, s2, l2))"

lemma decode_read_frames: "decode_frames (map ucast (read_frames d)) = Some d"
proof -
  have u: "ucast (ucast (ucast (x :: u8) :: u16) :: u32) = x" for x
    by (rule bit_word_eqI) (auto simp: bit_simps)
  have p0: "bit (swd_parity d) 0 = odd (count_ones d)"
    unfolding swd_parity_def bit_and_iff by (simp add: bit_0)
  have par: "bit (ucast (push_bit 1 (ucast x :: u16) OR swd_parity d) :: u32) 0 = odd (count_ones d)" for x :: u8
    unfolding bit_ucast_iff bit_or_iff bit_push_bit_iff p0 by simp
  have p1: "\<not> bit (swd_parity d) (Suc n)" for n
    by (simp add: swd_parity_def bit_simps)
  have hi: "ucast (drop_bit 1 (ucast (push_bit 1 (ucast x :: u16) OR swd_parity d) :: u32)) = x" for x :: u8
    by (rule bit_word_eqI)
      (auto simp only: bit_ucast_iff bit_drop_bit_eq comp_def bit_or_iff bit_push_bit_iff, auto simp: p1)
  show ?thesis
    by (simp add: decode_frames_def read_frames_def Let_def par [simplified] hi [simplified] u le32_bytes)
qed

lemma transfer_read_some: "\<exists>d. fst (transfer t ap True a w) = Some d"
  by (cases t) (auto simp: transfer_def ap_transfer_def dp_transfer_def Let_def split_def)

text \<open>
  A read transaction returns the debug port's answer: after the request frame and the
  serve loop's drain, the RoT pops the OK acknowledgement and four data frames that decode,
  with matching parity, to exactly the word the port's transfer gave; the device is idle
  again with empty queues.
\<close>

theorem swd_read_returns_port_data:
  assumes "sw_phase s = SwdIdle" and "sw_rx s = []" and "is_request 8 data" and "bit data 5"
    and "swd_frame s l 8 data = (s1, l1)" and "swd_drain l1 tg = (l2, tg2)"
    and "fiford_reads s1 l2 5 = (vs, s2, l3)"
  shows "hd vs = 4 \<and>
    decode_frames (tl vs) = fst (transfer (snd (swd_drain l tg)) (bit data 6) True (request_addr data) 0) \<and>
    tg2 = snd (transfer (snd (swd_drain l tg)) (bit data 6) True (request_addr data) 0) \<and>
    s2 = \<lparr>sw_rx = [], sw_phase = SwdIdle\<rparr> \<and> l3 = \<lparr>sw_req = [], sw_resp = None\<rparr>"
proof -
  have b: "(drop_bit k data AND 1 \<noteq> 0) = bit data k" for k
    by (simp add: and_one_eq odd_iff_mod_2_eq_one [symmetric] bit_iff_odd_drop_bit)
  let ?t = "transfer (snd (swd_drain l tg)) (bit data 6) True (request_addr data) 0"
  obtain d where d: "fst ?t = Some d" using transfer_read_some by blast
  have s1: "s1 = s\<lparr>sw_rx := [ACK_OK], sw_phase := ReadData\<rparr>" "sw_req l1 = sw_req l @
      [\<lparr>sr_ap = bit data 6, sr_rnw = True, sr_a = request_addr data, sr_wdata = 0\<rparr>]" "sw_resp l1 = sw_resp l"
    using assms(1-5) by (auto simp: swd_frame_def on_request_def b Let_def)
  have l2: "l2 = \<lparr>sw_req = [], sw_resp = Some d\<rparr>" "tg2 = snd ?t"
    using assms(6) d s1(2,3) by (auto simp: swd_drain_def run_reqs_append split_def Let_def)
  have five: "5 = Suc (Suc (Suc (Suc (Suc 0))))" by simp
  have "fiford_reads s1 l2 5 = (4 # map ucast (read_frames d), \<lparr>sw_rx = [], sw_phase = SwdIdle\<rparr>, \<lparr>sw_req = [], sw_resp = None\<rparr>)"
    unfolding s1(1) l2(1)
    unfolding five by (simp add: rot_swd_read_def maybe_supply_def read_frames_def Let_def)
  then show ?thesis
    using assms(7) d l2(2) decode_read_frames [of d] by auto
qed

text \<open>Reading DPIDR: the request byte is 0xA5.\<close>

definition dpidr_link :: swd_link where
  "dpidr_link = snd (swd_frame rot_swd_new \<lparr>sw_req = [], sw_resp = None\<rparr> 8 0xA5)"

definition dpidr_reads :: "target \<Rightarrow> u32 list" where
  "dpidr_reads tg = fst (fiford_reads (fst (swd_frame rot_swd_new \<lparr>sw_req = [], sw_resp = None\<rparr> 8 0xA5))
     (fst (swd_drain dpidr_link tg)) 5)"

theorem swd_read_returns_port_data_witness:
  "decode_frames (tl (dpidr_reads (swdp_new, cpu_new, bus_new))) = Some DPIDR"
proof -
  let ?tg = "(swdp_new, cpu_new, bus_new)"
  have "fst (transfer (snd (swd_drain \<lparr>sw_req = [], sw_resp = None\<rparr> ?tg)) (bit (0xA5 :: u16) 6) True (request_addr 0xA5) 0)
      = Some DPIDR"
    by (simp add: swd_drain_def transfer_def dp_transfer_def request_addr_def)
  then show ?thesis
    using swd_read_returns_port_data [of rot_swd_new "0xA5" "\<lparr>sw_req = [], sw_resp = None\<rparr>"
        "fst (swd_frame rot_swd_new \<lparr>sw_req = [], sw_resp = None\<rparr> 8 0xA5)" dpidr_link ?tg
        "fst (swd_drain dpidr_link ?tg)" "snd (swd_drain dpidr_link ?tg)" "dpidr_reads ?tg"
        "fst (snd (fiford_reads (fst (swd_frame rot_swd_new \<lparr>sw_req = [], sw_resp = None\<rparr> 8 0xA5))
           (fst (swd_drain dpidr_link ?tg)) 5))"
        "snd (snd (fiford_reads (fst (swd_frame rot_swd_new \<lparr>sw_req = [], sw_resp = None\<rparr> 8 0xA5))
           (fst (swd_drain dpidr_link ?tg)) 5))"]
    by (simp add: rot_swd_new_def is_request_def dpidr_link_def dpidr_reads_def)
qed

end
