(* ===== verification/Glasgow.thy ===== *)
theory Glasgow
  imports Debugport
begin

text \<open>
  The Glasgow applet server of \<open>src/glasgow.rs\<close>: COBS framing, the demultiplexing of frames
  into the two endpoints, the Root and Swd command streams, and the run engine between them.
  The socket is represented by the chunks it delivers; the reset warning is left out.
\<close>

unbundle bit_operations_syntax

section \<open>COBS\<close>

text \<open>The encoder: the output so far, the index of the open block's code byte, its code.\<close>

definition cobs_byte :: "u8 \<Rightarrow> u8 list \<times> nat \<times> u8 \<Rightarrow> u8 list \<times> nat \<times> u8" where
  "cobs_byte b st = (case st of (out, code_idx, code) \<Rightarrow>
     (if b \<noteq> 0 then
        (if code + 1 = 0xFF then ((out @ [b])[code_idx := code + 1] @ [0], length out + 1, 1)
         else (out @ [b], code_idx, code + 1))
      else (out[code_idx := code] @ [0], length out, 1)))"

definition cobs_encode :: "u8 list \<Rightarrow> u8 list" where
  "cobs_encode data =
     (case fold cobs_byte data ([0], 0, 1) of (out, code_idx, code) \<Rightarrow> out[code_idx := code])"

function cobs_decode :: "u8 list \<Rightarrow> u8 list option" where
  "cobs_decode [] = Some []"
| "cobs_decode (code # rest) =
     (if code = 0 then None
      else
        (let n = unat code - 1; tail = drop n rest in
         if length rest < n then None
         else (case cobs_decode tail of
                 None \<Rightarrow> None
               | Some d \<Rightarrow> Some (take n rest @ (if code < 0xFF \<and> tail \<noteq> [] then [0] else []) @ d))))"
  by pat_completeness auto
termination by (relation "measure length") auto

definition cobs_frame :: "u8 \<Rightarrow> u8 list \<Rightarrow> u8 list" where
  "cobs_frame tgt data = cobs_encode (tgt # data) @ [0]"

section \<open>Demultiplexing\<close>

abbreviation (input) TGT_ROOT :: u8 where "TGT_ROOT \<equiv> 0"
abbreviation (input) TGT_SWD :: u8 where "TGT_SWD \<equiv> 1"

text \<open>What one frame adds to the two endpoints' input.\<close>

definition accept_frame :: "u8 list \<Rightarrow> u8 list \<times> u8 list \<Rightarrow> u8 list \<times> u8 list" where
  "accept_frame payload io = (case io of (root_in, swd_in) \<Rightarrow>
     (if payload = [] then io
      else case cobs_decode payload of
        Some (tgt # data) \<Rightarrow>
          (if tgt = TGT_ROOT then (root_in @ data, swd_in)
           else if tgt = TGT_SWD then (root_in, swd_in @ data) else io)
      | _ \<Rightarrow> io))"

function demux :: "u8 list \<Rightarrow> u8 list \<times> u8 list \<Rightarrow> u8 list \<times> u8 list \<times> u8 list" where
  "demux raw io =
     (if 0 \<notin> set raw then (raw, io)
      else demux (tl (dropWhile (\<lambda>b. b \<noteq> 0) raw)) (accept_frame (takeWhile (\<lambda>b. b \<noteq> 0) raw) io))"
  by pat_completeness auto
termination
proof (relation "measure (\<lambda>(raw, io). length raw)")
  fix raw :: "u8 list" and io :: "u8 list \<times> u8 list"
  assume "\<not> 0 \<notin> set raw"
  then have "dropWhile (\<lambda>b. b \<noteq> 0) raw \<noteq> []" by (simp add: dropWhile_eq_Nil_conv)
  then have "length (tl (dropWhile (\<lambda>b. b \<noteq> 0) raw)) < length (dropWhile (\<lambda>b. b \<noteq> 0) raw)"
    by (cases "dropWhile (\<lambda>b. b \<noteq> 0) raw") simp_all
  also have "\<dots> \<le> length raw" by (rule length_dropWhile_le)
  finally show "((tl (dropWhile (\<lambda>b. b \<noteq> 0) raw), accept_frame (takeWhile (\<lambda>b. b \<noteq> 0) raw) io), raw, io)
      \<in> measure (\<lambda>(raw, io). length raw)" by simp
qed simp

declare demux.simps [simp del]

section \<open>The Root endpoint\<close>

definition IDENTIFIER :: "u8 list" where
  "IDENTIFIER = [0x70, 0x72, 0x6F, 0x62, 0x65, 0x2D, 0x72, 0x73, 0x2C, 0x76, 0x30, 0x31]"

fun process_root :: "u8 list \<Rightarrow> u8 list \<times> u8 list" where
  "process_root [] = ([], [])"
| "process_root (x # xs) =
     (if x = 0x00 then (case process_root xs of (l, o1) \<Rightarrow> (l, IDENTIFIER @ o1))
      else if x = 0x10 then (case process_root xs of (l, o1) \<Rightarrow> (l, le_bytes32 48000000 @ o1))
      else if x = 0x11 then (case process_root xs of (l, o1) \<Rightarrow> (l, le_bytes16 0 @ o1))
      else if x = 0x12 then
        (case xs of _ # _ # ys \<Rightarrow> process_root ys | _ \<Rightarrow> (x # xs, []))
      else process_root xs)"

section \<open>The Swd endpoint\<close>

definition swd_reply :: "u32 option \<Rightarrow> u8 list" where
  "swd_reply v = (case v of Some d \<Rightarrow> 0x01 # le_bytes32 d | None \<Rightarrow> [0x11])"

definition swd_command :: "u8 \<Rightarrow> u32 \<Rightarrow> target \<Rightarrow> u8 list \<times> target" where
  "swd_command cmd wdata t =
     (let (v, t1) = transfer t (cmd AND 1 \<noteq> 0) (drop_bit 1 cmd AND 1 \<noteq> 0) (cmd AND 0x0C) wdata in
      (swd_reply v, t1))"

fun process_swd :: "u8 list \<Rightarrow> target \<Rightarrow> u8 list \<times> u8 list \<times> target" where
  "process_swd [] t = ([], [], t)"
| "process_swd (cmd # xs) t =
     (if cmd AND 0x20 \<noteq> 0 then
        (case xs of _ # _ # _ # _ # ys \<Rightarrow> process_swd ys t | _ \<Rightarrow> (cmd # xs, [], t))
      else if drop_bit 1 cmd AND 1 \<noteq> 0 then
        (case swd_command cmd 0 t of (o1, t1) \<Rightarrow>
          (case process_swd xs t1 of (l, o2, t2) \<Rightarrow> (l, o1 @ o2, t2)))
      else
        (case xs of b0 # b1 # b2 # b3 # ys \<Rightarrow>
           (case swd_command cmd (le32 b0 b1 b2 b3) t of (o1, t1) \<Rightarrow>
             (case process_swd ys t1 of (l, o2, t2) \<Rightarrow> (l, o1 @ o2, t2)))
         | _ \<Rightarrow> (cmd # xs, [], t)))"

section \<open>The server\<close>

record server =
  sv_raw :: "u8 list"
  root_in :: "u8 list"
  swd_in :: "u8 list"
  pending_out :: "u8 list"

definition server_new :: server where
  "server_new = \<lparr>sv_raw = [], root_in = [], swd_in = [], pending_out = []\<rparr>"

text \<open>One pass of the serve loop over the bytes that arrived, up to the run engine.\<close>

definition poll :: "u8 list \<Rightarrow> server \<times> target \<Rightarrow> server \<times> target" where
  "poll chunk st = (case st of (s, t) \<Rightarrow>
     (let (raw, ri, si) = demux (sv_raw s @ chunk) (root_in s, swd_in s);
          (ri1, ro) = process_root ri; (si1, so, t1) = process_swd si t in
      (\<lparr>sv_raw = raw, root_in = ri1, swd_in = si1,
        pending_out = pending_out s @ (if ro = [] then [] else cobs_frame TGT_ROOT ro)
                        @ (if so = [] then [] else cobs_frame TGT_SWD so)\<rparr>, t1)))"

text \<open>The run engine: one instruction on a step request, else a batch while the core runs.\<close>

fun run_batch :: "env \<Rightarrow> nat \<Rightarrow> cpu \<Rightarrow> bus \<Rightarrow> machine" where
  "run_batch E 0 c b = (c, b)"
| "run_batch E (Suc n) c b =
     (case step E c b of
        (Some _, m) \<Rightarrow> m
      | (None, c1, b1) \<Rightarrow>
          if halted c1 then (c1, b1)
          else
            (let (c2, b2) = maybe_tick c1 b1; (c3, b3) = maybe_interrupt c2 b2 in
             if 0 < idle_skip c3 then (c3\<lparr>idle_skip := 0\<rparr>, b3) else run_batch E n c3 b3))"

definition run_engine :: "env \<Rightarrow> target \<Rightarrow> target" where
  "run_engine E t = (case t of (d, c, b) \<Rightarrow>
     (if step_request d then
        (let (_, c1, b1) = step E c b; (c2, b2) = maybe_tick c1 b1; (c3, b3) = maybe_interrupt c2 b2 in
         (d\<lparr>step_request := False\<rparr>, c3\<lparr>halted := True\<rparr>, b3))
      else if \<not> halted c then (let (c1, b1) = run_batch E 50000 c b in (d, c1, b1))
      else (d, c, b)))"

text \<open>A pass of the serve loop: the bytes that arrived, then the run engine.\<close>

definition serve_pass :: "env \<Rightarrow> u8 list \<Rightarrow> server \<times> target \<Rightarrow> server \<times> target" where
  "serve_pass E chunk st = (case poll chunk st of (s, t) \<Rightarrow> (s, run_engine E t))"

end
