(* ===== verification/Glasgow_Props.thy ===== *)
theory Glasgow_Props
  imports Glasgow
begin

text \<open>
  The applet server's guarantees: the COBS codec is a round trip without delimiter bytes,
  the demultiplexer recovers every framed payload, and a session runs the transfers the client
  sent, each in the pass that completes it, with the run engine between the passes.
\<close>

unbundle bit_operations_syntax

section \<open>The encoder by blocks\<close>

text \<open>\<open>cur\<close> is the open block's data; a block closes at a zero or at 254 bytes.\<close>

definition code_of :: "u8 list \<Rightarrow> u8" where
  "code_of cur = of_nat (length cur + 1)"

fun cobs_blocks :: "u8 list \<Rightarrow> u8 list \<Rightarrow> u8 list" where
  "cobs_blocks cur [] = code_of cur # cur"
| "cobs_blocks cur (b # bs) =
     (if b = 0 then code_of cur # cur @ cobs_blocks [] bs
      else if length cur = 253 then 0xFF # cur @ [b] @ cobs_blocks [] bs
      else cobs_blocks (cur @ [b]) bs)"

lemma unat_code: "length cur < 254 \<Longrightarrow> unat (code_of cur) = length cur + 1"
  unfolding code_of_def by (subst unat_of_nat) simp

lemma code_ff: "length cur < 254 \<Longrightarrow> code_of cur + 1 = 0xFF \<longleftrightarrow> length cur = 253"
proof -
  assume l: "length cur < 254"
  then have "unat (code_of cur + 1) = length cur + 2"
    using unat_code [OF l] by (subst unat_add_lem [THEN iffD1]) simp_all
  then show ?thesis by (auto simp: word_unat_eq_iff)
qed

lemma cobs_loop:
  "length cur < 254 \<Longrightarrow>
     (case fold cobs_byte bs (pre @ 0 # cur, length pre, code_of cur) of (out, i, code) \<Rightarrow> out[i := code]) =
     pre @ cobs_blocks cur bs"
proof (induction bs arbitrary: pre cur)
  case (Cons b bs)
  have nil: "code_of [] = 1" by (simp add: code_of_def)
  consider "b = 0" | "b \<noteq> 0" "length cur = 253" | "b \<noteq> 0" "length cur < 253" using Cons.prems by linarith
  then show ?case
  proof cases
    case 1
    then have "fold cobs_byte (b # bs) (pre @ 0 # cur, length pre, code_of cur) =
        fold cobs_byte bs ((pre @ code_of cur # cur) @ 0 # [], length (pre @ code_of cur # cur), code_of [])"
      by (simp add: cobs_byte_def nil)
    then show ?thesis using Cons.IH [of "[]" "pre @ code_of cur # cur"] 1 by simp
  next
    case 2
    then have f: "code_of cur + 1 = 0xFF" using code_ff Cons.prems by blast
    with 2 have "fold cobs_byte (b # bs) (pre @ 0 # cur, length pre, code_of cur) =
        fold cobs_byte bs ((pre @ 0xFF # cur @ [b]) @ 0 # [], length (pre @ 0xFF # cur @ [b]), code_of [])"
      by (simp add: cobs_byte_def nil add.commute)
    then show ?thesis using Cons.IH [of "[]" "pre @ 0xFF # cur @ [b]"] 2 by simp
  next
    case 3
    then have "code_of cur \<noteq> 0xFE" using code_ff [of cur] by auto
    moreover have "code_of cur + 1 = code_of (cur @ [b])" by (simp add: code_of_def)
    ultimately have "fold cobs_byte (b # bs) (pre @ 0 # cur, length pre, code_of cur) =
        fold cobs_byte bs (pre @ 0 # (cur @ [b]), length pre, code_of (cur @ [b]))"
      using 3 by (simp add: cobs_byte_def)
    then show ?thesis using Cons.IH [of "cur @ [b]" pre] 3 by simp
  qed
qed simp

lemma cobs_encode_blocks: "cobs_encode data = cobs_blocks [] data"
  using cobs_loop [of "[]" data "[]"] by (simp add: cobs_encode_def code_of_def)

lemma cobs_blocks_Cons: "cobs_blocks cur bs \<noteq> []"
  by (induction cur bs rule: cobs_blocks.induct) simp_all

lemma cobs_decode_block:
  assumes "length blk < 254" and "cobs_decode rest = Some d"
  shows "cobs_decode (code_of blk # blk @ rest) = Some (blk @ (if rest \<noteq> [] then [0] else []) @ d)"
proof -
  have u: "unat (code_of blk) = length blk + 1" by (rule unat_code [OF assms(1)])
  then have "code_of blk \<noteq> 0" "code_of blk < 0xFF"
    using assms(1) by (auto simp: word_less_nat_alt word_unat_eq_iff)
  then show ?thesis using assms(2) u by simp
qed

lemma cobs_decode_full:
  assumes "length blk = 254" and "cobs_decode rest = Some d"
  shows "cobs_decode (0xFF # blk @ rest) = Some (blk @ d)"
  using assms by simp

lemma cobs_decode_blocks: "length cur < 254 \<Longrightarrow> cobs_decode (cobs_blocks cur bs) = Some (cur @ bs)"
proof (induction cur bs rule: cobs_blocks.induct)
  case (1 cur)
  then show ?case using cobs_decode_block [of cur "[]" "[]"] by simp
next
  case (2 cur b bs)
  consider "b = 0" | "b \<noteq> 0" "length cur = 253" | "b \<noteq> 0" "length cur < 253" using 2 by linarith
  then show ?case
  proof cases
    case 1
    then show ?thesis
      using 2 cobs_decode_block [of cur "cobs_blocks [] bs" bs] cobs_blocks_Cons by (simp del: cobs_decode.simps)
  next
    case 2
    then show ?thesis
      using "2.IH"(2) cobs_decode_full [of "cur @ [b]" "cobs_blocks [] bs" bs] by (simp del: cobs_decode.simps)
  next
    case 3
    then show ?thesis using "2.IH"(3) by simp
  qed
qed

lemma cobs_blocks_nonzero: "length cur < 254 \<Longrightarrow> 0 \<notin> set cur \<Longrightarrow> 0 \<notin> set (cobs_blocks cur bs)"
proof (induction cur bs rule: cobs_blocks.induct)
  case (1 cur)
  with unat_code [of cur] show ?case by auto
next
  case (2 cur b bs)
  with unat_code [of cur] show ?case by (auto simp: not_less_less_Suc_eq)
qed

text \<open>
  COBS is a faithful, delimiter-free encoding: decoding gives back any byte string, and
  no encoded byte is zero.
\<close>

theorem cobs_round_trip: "cobs_decode (cobs_encode data) = Some data \<and> 0 \<notin> set (cobs_encode data)"
  using cobs_decode_blocks [of "[]" data] cobs_blocks_nonzero [of "[]" data] by (simp add: cobs_encode_blocks)

section \<open>Demultiplexing\<close>

lemma takeWhile_stop: "0 \<in> set xs \<Longrightarrow> takeWhile (\<lambda>b. b \<noteq> (0 :: u8)) (xs @ ys) = takeWhile (\<lambda>b. b \<noteq> 0) xs"
  by (induction xs) auto

lemma dropWhile_stop: "0 \<in> set xs \<Longrightarrow> dropWhile (\<lambda>b. b \<noteq> (0 :: u8)) (xs @ ys) = dropWhile (\<lambda>b. b \<noteq> 0) xs @ ys"
  by (induction xs) auto

lemma demux_append: "demux (raw @ ys) io = (let (l, io1) = demux raw io in demux (l @ ys) io1)"
proof (induction raw io rule: demux.induct)
  case (1 raw io)
  show ?case
  proof (cases "0 \<in> set raw")
    case True
    then have "dropWhile (\<lambda>b. b \<noteq> 0) raw \<noteq> []" by (simp add: dropWhile_eq_Nil_conv)
    then show ?thesis
      using 1 True demux.simps [of raw io] demux.simps [of "raw @ ys" io]
      by (simp add: takeWhile_stop dropWhile_stop)
  next
    case False
    then show ?thesis by (simp add: demux.simps [of raw])
  qed
qed

lemma accept_frame_add:
  "accept_frame f (ri, si) = (case accept_frame f ([], []) of (x, y) \<Rightarrow> (ri @ x, si @ y))"
  by (simp add: accept_frame_def split: option.split list.split)

lemma demux_shorter: "0 \<in> set raw \<Longrightarrow> length (tl (dropWhile (\<lambda>b. b \<noteq> (0 :: u8)) raw)) < length raw"
proof -
  assume "0 \<in> set raw"
  then have "dropWhile (\<lambda>b. b \<noteq> 0) raw \<noteq> []" by (simp add: dropWhile_eq_Nil_conv)
  then show ?thesis using length_dropWhile_le [of "\<lambda>b. b \<noteq> 0" raw]
    by (cases "dropWhile (\<lambda>b. b \<noteq> 0) raw") auto
qed

lemma demux_add:
  "demux raw (ri, si) = (case demux raw ([], []) of (l, x, y) \<Rightarrow> (l, ri @ x, si @ y))"
proof (induction raw arbitrary: ri si rule: measure_induct_rule [of length])
  case (less raw)
  show ?case
  proof (cases "0 \<in> set raw")
    case True
    let ?f = "takeWhile (\<lambda>b. b \<noteq> 0) raw" and ?t = "tl (dropWhile (\<lambda>b. b \<noteq> 0) raw)"
    obtain x y where a: "accept_frame ?f ([], []) = (x, y)" by (rule prod.exhaust)
    have e: "demux raw (ri, si) = demux ?t (ri @ x, si @ y)" "demux raw ([], []) = demux ?t (x, y)"
      using True a accept_frame_add [of ?f ri si] by (simp_all add: demux.simps [of raw])
    show ?thesis
      unfolding e less [OF demux_shorter [OF True], of "ri @ x"] less [OF demux_shorter [OF True], of x]
      by (simp split: prod.split)
  qed (simp add: demux.simps [of raw])
qed

lemma demux_none: "demux [] io = ([], io)"
  by (simp add: demux.simps)

lemma demux_frame:
  "demux (cobs_frame tgt data @ rest) (ri, si) =
     demux rest (if tgt = TGT_ROOT then (ri @ data, si) else if tgt = TGT_SWD then (ri, si @ data) else (ri, si))"
proof -
  have z: "0 \<notin> set (cobs_encode (tgt # data))" "cobs_decode (cobs_encode (tgt # data)) = Some (tgt # data)"
    using cobs_decode_blocks [of "[]" "tgt # data"] cobs_blocks_nonzero [of "[]" "tgt # data"]
    by (simp_all only: cobs_encode_blocks list.set list.size append_Nil, simp_all)
  have ne: "cobs_encode (tgt # data) \<noteq> []" unfolding cobs_encode_blocks by (rule cobs_blocks_Cons)
  have t: "takeWhile (\<lambda>b. b \<noteq> 0) (cobs_frame tgt data @ rest) = cobs_encode (tgt # data)"
    "dropWhile (\<lambda>b. b \<noteq> 0) (cobs_frame tgt data @ rest) = 0 # rest"
    using z(1) unfolding cobs_frame_def append_assoc
    by (subst takeWhile_append2 dropWhile_append2; auto)+
  have "0 \<in> set (cobs_frame tgt data @ rest)" by (simp add: cobs_frame_def)
  then show ?thesis
    using z(2) ne demux.simps [of "cobs_frame tgt data @ rest" "(ri, si)"]
    unfolding t by (simp add: accept_frame_def)
qed

section \<open>Command streams\<close>

lemma process_swd_short:
  "length xs < 4 \<Longrightarrow> cmd AND 0x20 \<noteq> 0 \<or> drop_bit 1 cmd AND 1 = 0 \<Longrightarrow> process_swd (cmd # xs) t = (cmd # xs, [], t)"
  by (auto split: list.split)

section \<open>Chunks\<close>

text \<open>What the client can tell: the buffered input, the target, and the replies it decodes.\<close>

definition replies :: "server \<Rightarrow> u8 list \<times> u8 list \<times> u8 list" where
  "replies s = demux (pending_out s) ([], [])"

definition observed :: "server \<times> target \<Rightarrow> (u8 list \<times> u8 list \<times> u8 list) \<times> target \<times> (u8 list \<times> u8 list \<times> u8 list)" where
  "observed st = (case st of (s, t) \<Rightarrow> ((sv_raw s, root_in s, swd_in s), t, replies s))"

lemma replies_frames:
  "demux out ([], []) = ([], x, y) \<Longrightarrow>
     demux (out @ (if ro = [] then [] else cobs_frame TGT_ROOT ro) @ (if so = [] then [] else cobs_frame TGT_SWD so))
       ([], []) = ([], x @ ro, y @ so)"
  using demux_frame [of TGT_ROOT ro "if so = [] then [] else cobs_frame TGT_SWD so" x y]
    demux_frame [of TGT_SWD so "[]"] demux_frame [of TGT_ROOT ro "[]" x y]
  by (cases "ro = []"; cases "so = []") (simp_all add: demux_append [of out] demux_none)

lemma observed_poll:
  assumes "demux (sv_raw s @ chunk) (root_in s, swd_in s) = (raw, ri, si)"
    and "process_root ri = (ri1, ro)" and "process_swd si t = (si1, so, t1)" and "replies s = ([], x, y)"
  shows "observed (poll chunk (s, t)) = ((raw, ri1, si1), t1, [], x @ ro, y @ so)"
  using assms replies_frames [of "pending_out s" x y ro so] by (simp add: poll_def observed_def replies_def)

lemma observedD:
  "observed (s, t) = ((raw, ri, si), t', q) \<Longrightarrow>
     sv_raw s = raw \<and> root_in s = ri \<and> swd_in s = si \<and> t = t' \<and> replies s = q"
  by (simp add: observed_def)

section \<open>A debug session\<close>

text \<open>A transfer as the client sends it, and the transfers run in order.\<close>

definition cmd_byte :: "bool \<Rightarrow> bool \<Rightarrow> u8 \<Rightarrow> u8" where
  "cmd_byte ap rnw a = (if ap then 1 else 0) OR (if rnw then 2 else 0) OR (a AND 0x0C)"

definition transfer_bytes :: "bool \<times> bool \<times> u8 \<times> u32 \<Rightarrow> u8 list" where
  "transfer_bytes q = (case q of (ap, rnw, a, w) \<Rightarrow>
     cmd_byte ap rnw a # (if rnw then [] else le_bytes32 w))"

fun run_transfers :: "(bool \<times> bool \<times> u8 \<times> u32) list \<Rightarrow> target \<Rightarrow> u8 list \<times> target" where
  "run_transfers [] t = ([], t)"
| "run_transfers ((ap, rnw, a, w) # qs) t =
     (let (v, t1) = transfer t ap rnw (a AND 0x0C) (if rnw then 0 else w); (o2, t2) = run_transfers qs t1 in
      (swd_reply v @ o2, t2))"

lemma cmd_fields:
  "(cmd_byte ap rnw a AND 1 \<noteq> 0) = ap" "(drop_bit 1 (cmd_byte ap rnw a) AND 1 \<noteq> 0) = rnw"
  "cmd_byte ap rnw a AND 0x0C = a AND 0x0C" "cmd_byte ap rnw a AND 0x20 = 0"
proof -
  have b: "(x AND 1 \<noteq> 0) = bit x 0" "(drop_bit 1 x AND 1 \<noteq> 0) = bit x 1" for x :: u8
    by (simp_all add: and_one_eq odd_iff_mod_2_eq_one [symmetric] bit_0 bit_iff_odd_drop_bit)
  have k: "\<not> bit (0x0C :: u8) 0" "\<not> bit (0x0C :: u8) 1" by simp_all
  show "(cmd_byte ap rnw a AND 1 \<noteq> 0) = ap"
    unfolding b(1) cmd_byte_def bit_or_iff bit_and_iff using k by simp
  have "bit (cmd_byte ap rnw a) 1 = rnw"
    unfolding cmd_byte_def bit_or_iff bit_and_iff using k by (simp add: bit_1_iff)
  then show "(drop_bit 1 (cmd_byte ap rnw a) AND 1 \<noteq> 0) = rnw" unfolding b(2) .
  show "cmd_byte ap rnw a AND 0x0C = a AND 0x0C" "cmd_byte ap rnw a AND 0x20 = 0"
    by (cases ap; cases rnw; simp add: cmd_byte_def word_ao_dist word_bw_assocs)+
qed

lemma process_transfer:
  "process_swd (transfer_bytes (ap, rnw, a, w) @ rest) t =
     (let (v, t1) = transfer t ap rnw (a AND 0x0C) (if rnw then 0 else w); (l, o2, t2) = process_swd rest t1 in
      (l, swd_reply v @ o2, t2))"
  using cmd_fields [of ap rnw a]
  by (cases rnw) (simp_all add: transfer_bytes_def swd_command_def le_bytes32_def le32_bytes split_def Let_def)

text \<open>How many transfers the first \<open>n\<close> bytes of the commands complete.\<close>

fun completed :: "(bool \<times> bool \<times> u8 \<times> u32) list \<Rightarrow> nat \<Rightarrow> nat" where
  "completed [] n = 0"
| "completed (q # qs) n =
     (let k = length (transfer_bytes q) in if k \<le> n then Suc (completed qs (n - k)) else 0)"

lemma completed_append:
  "completed (seg @ rest) (length (concat (map transfer_bytes seg)) + n) = length seg + completed rest n"
  by (induction seg) (simp_all add: Let_def)

text \<open>
  Input that ends within a transfer: the transfers before it are executed and its bytes stay
  buffered.
\<close>

definition partial_input :: "u8 list \<Rightarrow> (bool \<times> bool \<times> u8 \<times> u32) list \<Rightarrow> bool" where
  "partial_input l qs \<longleftrightarrow> (case qs of [] \<Rightarrow> l = [] | q # _ \<Rightarrow> length l < length (transfer_bytes q))"

lemma process_swd_partial:
  assumes "partial_input l qs" and "l @ ys = concat (map transfer_bytes qs)"
  shows "process_swd l t = (l, [], t)"
proof (cases l)
  case (Cons c xs)
  with assms obtain ap rnw a w qs' where qs: "qs = (ap, rnw, a, w) # qs'"
    by (cases qs) (auto simp: partial_input_def)
  then have len: "length xs + 1 < length (transfer_bytes (ap, rnw, a, w))"
    and c: "c = cmd_byte ap rnw a"
    using assms Cons by (auto simp: partial_input_def transfer_bytes_def)
  then have "\<not> rnw" "length xs < 4" by (cases rnw; simp add: transfer_bytes_def le_bytes32_def)+
  then show ?thesis using process_swd_short [of xs c t] cmd_fields(2) [of ap rnw a] Cons c by simp
qed simp

lemma process_prefix:
  "xs @ ys = concat (map transfer_bytes qs) \<Longrightarrow>
     \<exists>seg rest l. qs = seg @ rest \<and> xs = concat (map transfer_bytes seg) @ l \<and> partial_input l rest \<and>
       (\<forall>t. process_swd xs t = (l, run_transfers seg t))"
proof (induction qs arbitrary: xs)
  case Nil
  then show ?case by (intro exI [of _ "[]"]) (simp add: partial_input_def)
next
  case (Cons q qs)
  show ?case
  proof (cases "length (transfer_bytes q) \<le> length xs")
    case True
    define xs' where "xs' = drop (length (transfer_bytes q)) xs"
    have "transfer_bytes q @ concat (map transfer_bytes qs) = xs @ ys" using Cons.prems by simp
    with True have "transfer_bytes q = take (length (transfer_bytes q)) xs"
      and xs2: "xs' @ ys = concat (map transfer_bytes qs)"
      by (simp_all add: append_eq_append_conv_if xs'_def)
    then have xs1: "xs = transfer_bytes q @ xs'" by (metis append_take_drop_id xs'_def)
    obtain seg rest l where i: "qs = seg @ rest" "xs' = concat (map transfer_bytes seg) @ l"
        "partial_input l rest" "\<And>t. process_swd xs' t = (l, run_transfers seg t)"
      using Cons.IH [OF xs2] by blast
    obtain ap rnw a w where q: "q = (ap, rnw, a, w)" by (cases q)
    have "process_swd xs t = (l, run_transfers (q # seg) t)" for t
      by (simp add: xs1 q process_transfer i(4) split_def Let_def)
    with i show ?thesis by (intro exI [of _ "q # seg"] exI [of _ rest] exI [of _ l]) (simp add: xs1)
  next
    case False
    then have p: "partial_input xs (q # qs)" by (simp add: partial_input_def)
    show ?thesis
      using p process_swd_partial [OF p Cons.prems]
      by (intro exI [of _ "[]"] exI [of _ "q # qs"] exI [of _ xs]) simp
  qed
qed

text \<open>
  The session as the target sees it: the transfers a pass completed, then the run engine, pass after
  pass. An idle engine (no step asked for, the core halted) leaves the target alone.
\<close>

fun run_session :: "env \<Rightarrow> (bool \<times> bool \<times> u8 \<times> u32) list list \<Rightarrow> target \<Rightarrow> u8 list \<times> target" where
  "run_session E [] t = ([], t)"
| "run_session E (seg # segs) t =
     (let (o1, t1) = run_transfers seg t; (o2, t2) = run_session E segs (run_engine E t1) in (o1 @ o2, t2))"

definition engine_idle :: "target \<Rightarrow> bool" where
  "engine_idle t = (case t of (d, c, b) \<Rightarrow> \<not> step_request d \<and> halted c)"

lemma run_engine_idle: "engine_idle t \<Longrightarrow> run_engine E t = t"
  by (auto simp: engine_idle_def run_engine_def split: prod.split)

lemma run_transfers_append:
  "run_transfers (xs @ ys) t =
     (let (o1, t1) = run_transfers xs t; (o2, t2) = run_transfers ys t1 in (o1 @ o2, t2))"
proof (induction xs arbitrary: t)
  case (Cons q xs)
  obtain ap rnw a w where q: "q = (ap, rnw, a, w)" by (cases q)
  obtain v t1 where v: "transfer t ap rnw (a AND 0x0C) (if rnw then 0 else w) = (v, t1)" by (rule prod.exhaust)
  show ?case using Cons.IH [of t1] by (simp add: q v split_def Let_def)
qed simp

lemma run_session_idle:
  "\<forall>n. engine_idle (snd (run_transfers (take n (concat segs)) t)) \<Longrightarrow>
     run_session E segs t = run_transfers (concat segs) t"
proof (induction segs arbitrary: t)
  case (Cons seg segs)
  obtain o1 t1 where r: "run_transfers seg t = (o1, t1)" by (rule prod.exhaust)
  have later: "engine_idle (snd (run_transfers (take n (concat segs)) t1))" for n
    using spec [OF Cons.prems, of "length seg + n"] by (simp add: run_transfers_append r split_def Let_def)
  then have "run_engine E t1 = t1" using later [of 0] by (simp add: run_engine_idle)
  then show ?case using Cons.IH [of t1] later by (simp add: run_transfers_append r)
qed simp

lemma demux_parts: "demux (concat (map (cobs_frame TGT_SWD) parts)) (ri, si) = ([], ri, si @ concat parts)"
  by (induction parts arbitrary: si) (simp_all add: demux_none demux_frame)

lemma demux_rest: "0 \<notin> set (fst (demux raw io))"
  by (induction raw io rule: demux.induct) (subst demux.simps, simp)

text \<open>The bytes of the debug endpoint that the chunks' complete frames hold.\<close>

definition swd_arrived :: "u8 list list \<Rightarrow> u8 list" where
  "swd_arrived cs = snd (snd (demux (concat cs) ([], [])))"

text \<open>One pass: the transfers it completes are run and answered, the rest stays buffered.\<close>

lemma pass_step:
  assumes "demux (sv_raw s @ c @ later) ([], swd_in s) = ([], [], concat (map transfer_bytes qs))"
    and "root_in s = []" and "replies s = ([], [], o0)"
  obtains raw l seg rest o1 t1 s1 where
    "qs = seg @ rest" "partial_input l rest" "run_transfers seg t = (o1, t1)"
    "serve_pass E c (s, t) = (s1, run_engine E t1)"
    "sv_raw s1 = raw" "root_in s1 = []" "swd_in s1 = l" "replies s1 = ([], [], o0 @ o1)" "0 \<notin> set raw"
    "demux (sv_raw s @ c) ([], swd_in s) = (raw, [], concat (map transfer_bytes seg) @ l)"
    "demux (raw @ later) ([], l) = ([], [], concat (map transfer_bytes rest))"
proof -
  obtain raw ri si where d: "demux (sv_raw s @ c) ([], swd_in s) = (raw, ri, si)" by (rule prod_cases3)
  obtain l2 u v where d2: "demux (raw @ later) ([], []) = (l2, u, v)" by (rule prod_cases3)
  have add: "demux (raw @ later) (a, b) = (l2, a @ u, b @ v)" for a b
    using demux_add [of "raw @ later" a b] d2 by simp
  have "demux (raw @ later) (ri, si) = ([], [], concat (map transfer_bytes qs))"
    using assms(1) demux_append [of "sv_raw s @ c" later "([], swd_in s)"] d by simp
  then have e: "l2 = []" "ri = []" "u = []" "si @ v = concat (map transfer_bytes qs)" by (simp_all add: add)
  obtain seg rest l where g: "qs = seg @ rest" "si = concat (map transfer_bytes seg) @ l" "partial_input l rest"
      "\<And>t. process_swd si t = (l, run_transfers seg t)"
    using process_prefix [OF e(4)] by blast
  obtain o1 t1 where r: "run_transfers seg t = (o1, t1)" by (rule prod.exhaust)
  have "demux (sv_raw s @ c) (root_in s, swd_in s) = (raw, [], si)" using d e assms(2) by simp
  then have obs: "observed (poll c (s, t)) = ((raw, [], l), t1, [], [] @ [], o0 @ o1)"
    using observed_poll [of s c raw "[]" si "[]" "[]" t l o1 t1 "[]" o0] g(4) r assms(3) by simp
  obtain s1 t2 where p: "poll c (s, t) = (s1, t2)" by (rule prod.exhaust)
  note o = observedD [OF obs [unfolded p]]
  have "0 \<notin> set raw" using demux_rest [of "sv_raw s @ c" "([], swd_in s)"] by (simp add: d)
  moreover have "demux (raw @ later) ([], l) = ([], [], concat (map transfer_bytes rest))"
    using e g by (simp add: add)
  ultimately show ?thesis
    using that [of seg rest l o1 t1 s1 raw] g r d e o p by (simp add: serve_pass_def)
qed

lemma session_run:
  assumes "demux (sv_raw s @ concat cs) ([], swd_in s) = ([], [], concat (map transfer_bytes qs))"
    and "root_in s = []" and "replies s = ([], [], o0)" and "0 \<notin> set (sv_raw s)"
    and "partial_input (swd_in s) qs"
  shows "\<exists>segs o1 t1 s1. fold (serve_pass E) cs (s, t) = (s1, t1) \<and> concat segs = qs \<and>
    length segs = length cs \<and> run_session E segs t = (o1, t1) \<and> replies s1 = ([], [], o0 @ o1) \<and>
    sv_raw s1 = [] \<and> swd_in s1 = [] \<and>
    (\<forall>k. concat (take k segs) =
       take (completed qs (length (snd (snd (demux (sv_raw s @ concat (take k cs)) ([], swd_in s)))))) qs)"
  using assms
proof (induction cs arbitrary: s t qs o0)
  case Nil
  have d: "demux (sv_raw s) ([], swd_in s) = (sv_raw s, [], swd_in s)"
    using Nil.prems(4) by (simp add: demux.simps [of "sv_raw s"])
  then have e: "sv_raw s = []" "swd_in s = concat (map transfer_bytes qs)" using Nil.prems(1) by simp_all
  then have "qs = []" using Nil.prems(5) by (cases qs) (simp_all add: partial_input_def)
  then show ?case using Nil.prems(3) e by simp
next
  case (Cons c cs)
  have d: "demux (sv_raw s @ c @ concat cs) ([], swd_in s) = ([], [], concat (map transfer_bytes qs))"
    using Cons.prems(1) by simp
  obtain raw l seg rest o1 t1 s1 where p:
    "qs = seg @ rest" "partial_input l rest" "run_transfers seg t = (o1, t1)"
    "serve_pass E c (s, t) = (s1, run_engine E t1)"
    "sv_raw s1 = raw" "root_in s1 = []" "swd_in s1 = l" "replies s1 = ([], [], o0 @ o1)" "0 \<notin> set raw"
    "demux (sv_raw s @ c) ([], swd_in s) = (raw, [], concat (map transfer_bytes seg) @ l)"
    "demux (raw @ concat cs) ([], l) = ([], [], concat (map transfer_bytes rest))"
    by (rule pass_step [OF d Cons.prems(2,3), of t E]) (rule that)
  obtain segs o2 t2 s2 where i: "fold (serve_pass E) cs (s1, run_engine E t1) = (s2, t2)" "concat segs = rest"
      "length segs = length cs" "run_session E segs (run_engine E t1) = (o2, t2)"
      "replies s2 = ([], [], (o0 @ o1) @ o2)" "sv_raw s2 = []" "swd_in s2 = []"
    and k: "\<And>k. concat (take k segs) =
      take (completed rest (length (snd (snd (demux (raw @ concat (take k cs)) ([], l)))))) rest"
    using Cons.IH [of s1 rest "o0 @ o1" "run_engine E t1"] p by auto
  have arr: "concat (take k (seg # segs)) =
      take (completed qs (length (snd (snd (demux (sv_raw s @ concat (take k (c # cs))) ([], swd_in s)))))) qs" for k
  proof (cases k)
    case 0
    have "demux (sv_raw s) ([], swd_in s) = (sv_raw s, [], swd_in s)"
      using Cons.prems(4) by (simp add: demux.simps [of "sv_raw s"])
    moreover have "completed qs (length (swd_in s)) = 0"
      using Cons.prems(5) by (cases qs) (simp_all add: partial_input_def)
    ultimately show ?thesis using 0 by simp
  next
    case (Suc j)
    obtain m u w where z: "demux (raw @ concat (take j cs)) ([], []) = (m, u, w)" by (rule prod_cases3)
    have add: "demux (raw @ concat (take j cs)) (a, b) = (m, a @ u, b @ w)" for a b
      using demux_add [of "raw @ concat (take j cs)" a b] z by simp
    have "demux (sv_raw s @ c @ concat (take j cs)) ([], swd_in s) =
        (m, u, (concat (map transfer_bytes seg) @ l) @ w)"
      using demux_append [of "sv_raw s @ c" "concat (take j cs)" "([], swd_in s)"] p(10) by (simp add: add)
    moreover have "completed qs (length (concat (map transfer_bytes seg)) + length (l @ w)) =
        length seg + completed rest (length (l @ w))"
      unfolding p(1) by (rule completed_append)
    ultimately show ?thesis using k [of j] Suc p(1) by (simp add: add add.assoc)
  qed
  have "run_session E (seg # segs) t = (o1 @ o2, t2)" using p(3) i(4) by simp
  with i p(1,4) arr show ?case
    by (intro exI [of _ "seg # segs"] exI [of _ "o1 @ o2"] exI [of _ t2] exI [of _ s2]) simp
qed

text \<open>
  C9: A debug session over the socket executes exactly the transfers the client sent, in order, and
  answers them in order, however the commands are packed into frames and the stream is cut into
  chunks: each transfer runs in the pass of the serve loop in which the frame holding its last byte
  is complete, and after each pass the run engine runs. The replies the client decodes are those of
  the transfers with the engine's runs between them, the target ends where these take it, and
  nothing is left over on either side. Where the core stays halted and no transfer asks for a step
  the engine does nothing, and the session is the transfers in a row: there the cut makes no
  difference. With a running core it decides how far the core is when a transfer reads it.
\<close>

theorem debug_session:
  assumes "concat cs = concat (map (cobs_frame TGT_SWD) parts)"
    and "concat parts = concat (map transfer_bytes qs)"
    and "fold (serve_pass E) cs (server_new, t) = (s1, t1)"
  shows "(\<exists>segs. concat segs = qs \<and> length segs = length cs \<and>
      (\<forall>k. concat (take k segs) = take (completed qs (length (swd_arrived (take k cs)))) qs) \<and>
      run_session E segs t = (snd (snd (replies s1)), t1)) \<and>
    fst (replies s1) = [] \<and> fst (snd (replies s1)) = [] \<and> sv_raw s1 = [] \<and> swd_in s1 = [] \<and>
    ((\<forall>n. engine_idle (snd (run_transfers (take n qs) t))) \<longrightarrow>
      run_transfers qs t = (snd (snd (replies s1)), t1))"
proof -
  have d: "demux (sv_raw server_new @ concat cs) ([], swd_in server_new) =
      ([], [], concat (map transfer_bytes qs))"
    using demux_parts [of parts "[]" "[]"] assms(1,2) by (simp add: server_new_def)
  have r0: "replies server_new = ([], [], [])" by (simp add: replies_def server_new_def demux_none)
  have s0: "root_in server_new = []" "0 \<notin> set (sv_raw server_new)" "partial_input (swd_in server_new) qs"
    by (auto simp: server_new_def partial_input_def transfer_bytes_def split: list.split prod.split)
  obtain segs where i: "concat segs = qs" "length segs = length cs"
      "run_session E segs t = (snd (snd (replies s1)), t1)" "replies s1 = ([], [], snd (snd (replies s1)))"
      "sv_raw s1 = []" "swd_in s1 = []"
      "\<forall>k. concat (take k segs) = take (completed qs (length (swd_arrived (take k cs)))) qs"
    using session_run [OF d s0(1) r0 s0(2,3), of E t] assms(3)
    by (auto simp: swd_arrived_def server_new_def)
  then show ?thesis using run_session_idle [of segs t E] by (metis fst_conv snd_conv)
qed

text \<open>Reading DPIDR of a halted core, the four-byte frame cut in two.\<close>

theorem debug_session_witness:
  "\<forall>E. snd (snd (replies (fst (fold (serve_pass E) [[3, 1], [2, 0]]
     (server_new, swdp_new, cpu_new\<lparr>halted := True\<rparr>, bus_new))))) = 0x01 # le_bytes32 DPIDR"
proof
  fix E
  let ?t = "(swdp_new, cpu_new\<lparr>halted := True\<rparr>, bus_new)" and ?q = "(False, True, 0, 0) :: bool \<times> bool \<times> u8 \<times> u32"
  let ?r = "fold (serve_pass E) [[3, 1], [2, 0]] (server_new, ?t)"
  have f: "concat [[3, 1], [2, 0]] = concat (map (cobs_frame TGT_SWD) [[2]])"
    by (simp add: cobs_frame_def cobs_encode_blocks code_of_def)
  have b: "concat [[2]] = concat (map transfer_bytes [?q])" by (simp add: transfer_bytes_def cmd_byte_def)
  have "transfer ?t False True 0 0 = (Some DPIDR, ?t)" by (simp add: transfer_def dp_transfer_def)
  then have r: "run_transfers [?q] ?t = (0x01 # le_bytes32 DPIDR, ?t)" by (simp add: swd_reply_def)
  have idle: "engine_idle ?t" by (simp add: engine_idle_def swdp_new_def)
  have "\<forall>n. engine_idle (snd (run_transfers (take n [?q]) ?t))"
  proof
    fix n
    show "engine_idle (snd (run_transfers (take n [?q]) ?t))" using r idle by (cases n) simp_all
  qed
  then have "run_transfers [?q] ?t = (snd (snd (replies (fst ?r))), snd ?r)"
    using debug_session [OF f b, of E ?t "fst ?r" "snd ?r"] by simp
  from trans [OF r [symmetric] this] show "snd (snd (replies (fst ?r))) = 0x01 # le_bytes32 DPIDR"
    by (simp only: prod.inject)
qed

end
