(* ===== verification/Sprot_Props.thy ===== *)
theory Sprot_Props
  imports Sprot
begin

text \<open>
  The SPI link delivers: a request that fits the FIFO, clocked while the RoT is away, is read
  complete and in order, the reply comes back through the master's receive FIFO, and with a live RoT pacing
  never drops a byte the RoT makes room for within the stall budget.
\<close>

unbundle bit_operations_syntax

section \<open>Pacing\<close>

text \<open>The link after the first \<open>k\<close> waits of a schedule.\<close>

primrec after_waits :: "schedule \<Rightarrow> nat \<Rightarrow> link \<Rightarrow> link" where
  "after_waits peer 0 l = l"
| "after_waits peer (Suc k) l = after_waits (\<lambda>i. peer (Suc i)) k (peer 0 l)"

lemma paced_stop [simp]: "\<not> P l \<Longrightarrow> paced P n peer l = (l, peer)"
  by (cases n) simp_all

lemma paced_first:
  assumes "k \<le> n" and "\<forall>i < k. P (after_waits peer i l)" and "\<not> P (after_waits peer k l)"
  shows "paced P n peer l = (after_waits peer k l, \<lambda>i. peer (k + i))"
  using assms
proof (induction k arbitrary: n peer l)
  case (Suc k)
  then obtain m where n: "n = Suc m" "k \<le> m" by (cases n) auto
  have "P l" using Suc.prems(2) by auto
  moreover have "\<forall>i < k. P (after_waits (\<lambda>i. peer (Suc i)) i (peer 0 l))"
    using Suc.prems(2) by auto
  ultimately show ?case using Suc.IH [of m "\<lambda>i. peer (Suc i)" "peer 0 l"] Suc.prems(3) n by simp
qed simp

lemma least_stop:
  assumes "\<not> P (after_waits peer k l)" and "k \<le> n"
  obtains j where "j \<le> k" "paced P n peer l = (after_waits peer j l, \<lambda>i. peer (j + i))"
    "\<not> P (after_waits peer j l)"
proof -
  let ?Q = "\<lambda>j. \<not> P (after_waits peer j l)"
  have j: "?Q (LEAST j. ?Q j)" using assms(1) by (rule LeastI)
  have "(LEAST j. ?Q j) \<le> k" using assms(1) by (rule Least_le)
  moreover have "\<forall>i < (LEAST j. ?Q j). P (after_waits peer i l)" using not_less_Least by blast
  ultimately show ?thesis using that [OF _ paced_first [of _ n P] j] j assms(2) by auto
qed

section \<open>Clocking bytes\<close>

primrec clock_all :: "spi_master \<Rightarrow> link \<Rightarrow> schedule \<Rightarrow> u8 list \<Rightarrow> spi_master \<times> link \<times> schedule" where
  "clock_all d l peer [] = (d, l, peer)"
| "clock_all d l peer (b # bs) =
     (let (d1, l1, peer1) = spi_master_write d l peer 0x20 (ucast b) in clock_all d1 l1 peer1 bs)"

primrec rot_read_frames :: "nat \<Rightarrow> link \<Rightarrow> u32 list \<times> link" where
  "rot_read_frames 0 l = ([], l)"
| "rot_read_frames (Suc n) l =
     (let (f, l1) = rot_slave_read l 0xE30; (fs, l2) = rot_read_frames n l1 in (f # fs, l2))"

text \<open>No wait: the FIFO has room (or a reply is in progress with data queued).\<close>

definition no_stall :: "link \<Rightarrow> bool" where
  "no_stall l = (\<not> rot_live l \<or>
     (if rot_irq l then l_cs l \<longrightarrow> miso l \<noteq> [] else length (mosi l) < SPROT_FIFO_BYTES))"

lemma clock_paced_id: "no_stall l \<Longrightarrow> clock_paced peer l = (l, peer)"
  by (auto simp: no_stall_def clock_paced_def split: if_splits)

lemma ucast_byte [simp]: "(ucast ((ucast (b :: u8) :: u32) AND 0xFF) :: u8) = b"
proof -
  have e: "(0xFF :: u32) = mask 8" by (simp add: mask_eq_exp_minus_1)
  show ?thesis unfolding e by (rule bit_word_eqI) (auto simp: bit_simps)
qed

lemma write_txdr:
  "no_stall l \<Longrightarrow> spi_master_write d l peer 0x20 (ucast (b :: u8)) =
     (d\<lparr>sm_rx := sm_rx d @ [fst (pop_front (miso l))], sm_sent := sm_sent d + 1\<rparr>,
      l\<lparr>mosi := (if length (mosi l) < SPROT_FIFO_BYTES then mosi l @ [b] else mosi l),
        miso := snd (pop_front (miso l)), sp_txdr := sp_txdr l + 1\<rparr>, peer)"
  by (simp add: spi_master_write_def clock_paced_id clock_byte_def split_def Let_def)

lemma snd_pop_front [simp]: "snd (pop_front q) = tl q"
  by (cases q) (simp_all add: pop_front_def)

lemma pop_front_Cons [simp]: "pop_front (b # q) = (b, q)"
  by (simp add: pop_front_def)

lemma clock_request:
  assumes "\<not> rot_irq l" and "length (mosi l) + length bs \<le> SPROT_FIFO_BYTES"
  shows "snd (clock_all d l peer bs) =
    (l\<lparr>mosi := mosi l @ bs, miso := drop (length bs) (miso l),
       sp_txdr := sp_txdr l + of_nat (length bs)\<rparr>, peer)"
  using assms
proof (induction bs arbitrary: d l)
  case (Cons b bs)
  then have "no_stall l" by (simp add: no_stall_def)
  with Cons show ?case by (simp add: write_txdr drop_Suc add_ac)
qed simp

section \<open>A request delivered\<close>

fun frames_of :: "u8 list \<Rightarrow> u32 list" where
  "frames_of (hi # lo # bs) = (push_bit 8 (ucast hi) OR ucast lo) # frames_of bs"
| "frames_of _ = []"

lemma rot_read_fiford:
  "rot_slave_read l 0xE30 =
     (push_bit 8 (ucast (fst (pop_front (mosi l)))) OR ucast (fst (pop_front (tl (mosi l)))) OR
        (if sot_pending l then push_bit 20 1 else 0),
      l\<lparr>request_in_flight := True, l_rx_frames := l_rx_frames l + 1, mosi := tl (tl (mosi l)),
        sot_pending := False\<rparr>)"
  by (simp add: rot_slave_read_def split_def Let_def)

lemma rot_reads_rest:
  "\<not> sot_pending l \<Longrightarrow> mosi l = bs \<Longrightarrow> length bs = 2 * n \<Longrightarrow>
     fst (rot_read_frames n l) = frames_of bs \<and> mosi (snd (rot_read_frames n l)) = []"
proof (induction n arbitrary: l bs)
  case (Suc n)
  then obtain hi lo cs where bs: "bs = hi # lo # cs" "length cs = 2 * n"
    by (cases bs; cases "tl bs") auto
  have "fst (rot_read_frames n (snd (rot_slave_read l 0xE30))) = frames_of cs \<and>
      mosi (snd (rot_read_frames n (snd (rot_slave_read l 0xE30)))) = []"
    by (rule Suc.IH) (simp_all add: rot_read_fiford Suc.prems(2) bs)
  then show ?case using Suc.prems bs by (simp add: rot_read_fiford split_def)
qed simp

text \<open>Frame words carry the SOT mark in bit 20 of the first.\<close>

definition mark_sot :: "u32 list \<Rightarrow> u32 list" where
  "mark_sot fs = (case fs of [] \<Rightarrow> [] | f # fs \<Rightarrow> (f OR push_bit 20 1) # fs)"

lemma rot_reads_request:
  assumes "sot_pending l" and "mosi l = bs" and "length bs = 2 * n"
  shows "fst (rot_read_frames n l) = mark_sot (frames_of bs) \<and> mosi (snd (rot_read_frames n l)) = []"
proof (cases n)
  case 0
  then show ?thesis using assms by (simp add: mark_sot_def)
next
  case (Suc m)
  then obtain hi lo cs where bs: "bs = hi # lo # cs" "length cs = 2 * m"
    using assms(3) by (cases bs; cases "tl bs") auto
  have "fst (rot_read_frames m (snd (rot_slave_read l 0xE30))) = frames_of cs \<and>
      mosi (snd (rot_read_frames m (snd (rot_slave_read l 0xE30)))) = []"
    by (rule rot_reads_rest) (simp_all add: rot_read_fiford assms bs)
  then show ?thesis using assms bs Suc by (simp add: rot_read_fiford split_def mark_sot_def word_bw_assocs)
qed

text \<open>The chip-select pin is PE4, driven through BSRR of port E.\<close>

lemma pin_low_iff: "drop_bit k w AND 1 = (0 :: u32) \<longleftrightarrow> \<not> bit w k"
proof -
  have "drop_bit k w AND push_bit 0 1 \<noteq> 0 \<longleftrightarrow> bit (drop_bit k w) 0" by (rule and_push_bit_1_iff)
  then show ?thesis unfolding bit_drop_bit_eq comp_def by (auto simp del: bit_0)
qed

lemma gpio_cs_low:
  "gpio_write g (Some l) peer 0x1018 0x00100000 =
     (gpio_store g 0x1018 0x00100000, Some (fst (drive_cs True peer l)), snd (drive_cs True peer l))"
proof -
  have b: "drop_bit 4 ((v OR (0x00100000 AND 0xFFFF)) AND NOT (drop_bit 16 0x00100000)) AND 1 = (0 :: u32)" for v
    unfolding pin_low_iff bit_and_iff bit_or_iff bit_not_iff by simp
  show ?thesis using b by (simp add: gpio_write_def gpio_store_def split_def Let_def)
qed

lemma gpio_cs_high:
  "gpio_write g (Some l) peer 0x1018 0x10 =
     (gpio_store g 0x1018 0x10, Some (fst (drive_cs False peer l)), snd (drive_cs False peer l))"
proof -
  have b: "drop_bit 4 ((v OR (0x10 AND 0xFFFF)) AND NOT (drop_bit 16 0x10)) AND 1 \<noteq> (0 :: u32)" for v
    unfolding pin_low_iff bit_and_iff bit_or_iff bit_not_iff by simp
  show ?thesis using b by (simp add: gpio_write_def gpio_store_def split_def Let_def)
qed

lemma drive_cs_release: "l_cs l \<Longrightarrow> drive_cs False peer l = (l\<lparr>l_ssd := True, l_cs := False\<rparr>, peer)"
  by (simp add: drive_cs_def)

text \<open>A whole SP transaction: assert, clock, deassert, with no RoT step in between.\<close>

definition sp_request :: "gpio \<Rightarrow> spi_master \<Rightarrow> link \<Rightarrow> schedule \<Rightarrow> u8 list \<Rightarrow> link" where
  "sp_request g d l peer bs =
     (let (g1, lk1, p1) = gpio_write g (Some l) peer 0x1018 0x00100000;
          (d1, l2, p2) = clock_all d (the lk1) p1 bs;
          (g2, lk3, p3) = gpio_write g1 (Some l2) p2 0x1018 0x10
      in the lk3)"


text \<open>
  C32: On an idle link, a request of at most eight frames (sixteen bytes, what the FIFO holds)
  reaches the RoT whole and in order however late the RoT looks: the SP selects, clocks every byte
  and deselects before the RoT runs; the RoT then finds slave-select assertion and deassertion
  latched, and its FIFO reads return the frames, the start-of-transfer mark on the first and on no
  other. Idle means that nothing is queued, the chip is not selected, no edge is latched and ROT_IRQ
  is not asserted.
\<close>

theorem request_survives_delay:
  assumes "length bs = 2 * n" and "n \<le> 8" and "mosi l = []" and "\<not> rot_irq l"
    and "\<not> l_cs l" and "\<not> l_ssa l" and "\<not> l_ssd l"
  shows "fst (rot_slave_read (sp_request g d l peer bs) 0x408) = 0x30 \<and>
    fst (rot_read_frames n (sp_request g d l peer bs)) = mark_sot (frames_of bs) \<and>
    mosi (snd (rot_read_frames n (sp_request g d l peer bs))) = []"
proof -
  let ?l1 = "l\<lparr>mosi := [], l_ssa := True, sot_pending := True, l_cs := True\<rparr>"
  have a: "drive_cs True peer l = (?l1, peer)"
    using assms(3,5,6,7) by (simp add: drive_cs_def split_def)
  have c: "snd (clock_all d ?l1 peer bs) =
      (?l1\<lparr>mosi := bs, miso := drop (length bs) (miso l), sp_txdr := sp_txdr l + of_nat (length bs)\<rparr>, peer)"
    using clock_request [of ?l1 bs d peer] assms(1,2,4) by simp
  have r: "sp_request g d l peer bs = ?l1\<lparr>mosi := bs, miso := drop (length bs) (miso l),
      sp_txdr := sp_txdr l + of_nat (length bs), l_ssd := True, l_cs := False\<rparr>"
    using c by (simp add: sp_request_def gpio_cs_low gpio_cs_high a split_def Let_def drive_cs_release)
  have "fst (rot_slave_read (sp_request g d l peer bs) 0x408) = 0x30"
    unfolding r by (simp add: rot_slave_read_def Let_def)
  then show ?thesis
    using rot_reads_request [of "sp_request g d l peer bs" bs n] assms(1) by (simp add: r)
qed

lemma request_survives_delay_witness:
  "fst (rot_slave_read (sp_request (gpio_new False) spi_master_new (link_default\<lparr>rot_live := True\<rparr>)
      (\<lambda>_. id) [1, 2, 3, 4]) 0x408) = 0x30 \<and>
   fst (rot_read_frames 2 (sp_request (gpio_new False) spi_master_new (link_default\<lparr>rot_live := True\<rparr>)
      (\<lambda>_. id) [1, 2, 3, 4])) = mark_sot (frames_of [1, 2, 3, 4]) \<and>
   mosi (snd (rot_read_frames 2 (sp_request (gpio_new False) spi_master_new
      (link_default\<lparr>rot_live := True\<rparr>) (\<lambda>_. id) [1, 2, 3, 4]))) = []"
  by (rule request_survives_delay) (simp_all add: link_default_def)

section \<open>A reply delivered\<close>

definition rot_reply :: "lpc_gpio \<Rightarrow> link \<Rightarrow> u16 list \<Rightarrow> link" where
  "rot_reply g l fs =
     snd (lpc_gpio_write g (foldl (\<lambda>l f. rot_slave_write l 0xE20 (ucast f)) l fs) 0x2280 (push_bit 18 1))"

definition wire_bytes :: "u16 list \<Rightarrow> u8 list" where
  "wire_bytes fs = concat (map (\<lambda>f. [ucast (drop_bit 8 f), ucast f]) fs)"

primrec drain_rx :: "nat \<Rightarrow> spi_master \<Rightarrow> u32 list" where
  "drain_rx 0 d = []"
| "drain_rx (Suc n) d = (let (v, d1) = spi_master_read d 0x30 in v # drain_rx n d1)"

lemma ucast_frame [simp]: "(ucast ((ucast (f :: u16) :: u32) AND 0xFFFF) :: u16) = f"
proof -
  have e: "(0xFFFF :: u32) = mask 16" by (simp add: mask_eq_exp_minus_1)
  show ?thesis unfolding e by (rule bit_word_eqI) (auto simp: bit_simps)
qed

lemma ucast_low [simp]: "(ucast ((f :: u16) AND 0xFF) :: u8) = ucast f"
proof -
  have e: "(0xFF :: u16) = mask 8" by (simp add: mask_eq_exp_minus_1)
  show ?thesis unfolding e by (rule bit_word_eqI) (auto simp: bit_simps)
qed

lemma rot_fifowr:
  "rot_slave_write l 0xE20 (ucast (f :: u16)) =
     l\<lparr>l_tx_frames := l_tx_frames l + 1, miso := miso l @ [ucast (drop_bit 8 f), ucast f]\<rparr>"
  by (simp add: rot_slave_write_def Let_def)

lemma rot_queue_frames:
  "foldl (\<lambda>l f. rot_slave_write l 0xE20 (ucast f)) l fs =
     l\<lparr>l_tx_frames := l_tx_frames l + of_nat (length fs), miso := miso l @ wire_bytes fs\<rparr>"
  by (induction fs arbitrary: l)
    (simp_all add: rot_fifowr wire_bytes_def add_ac)

lemma clock_reply:
  assumes "rot_irq l" and "length bs \<le> length (miso l)"
  shows "fst (clock_all d l peer bs) = d\<lparr>sm_rx := sm_rx d @ take (length bs) (miso l),
      sm_sent := sm_sent d + of_nat (length bs)\<rparr>"
  using assms
proof (induction bs arbitrary: d l)
  case (Cons b bs)
  then obtain m ms where m: "miso l = m # ms" by (cases "miso l") auto
  then have "no_stall l" using Cons.prems by (simp add: no_stall_def)
  with Cons m show ?case by (simp add: write_txdr add_ac)
qed simp

lemma drain_all: "sm_rx d = bs \<Longrightarrow> drain_rx (length bs) d = map ucast bs"
  by (induction bs arbitrary: d) (simp_all add: spi_master_read_def Let_def)

text \<open>
  C33: A reply of any length reaches the SP: the RoT queues frames and asserts ROT_IRQ; the SP,
  clocking that many dummy bytes with the chip selected, finds in its receive FIFO exactly the
  frames' bytes, upper byte first, and end-of-transfer raised when TSIZE says so.
\<close>

theorem reply_reaches_master:
  assumes "miso l = []" and "length dummy = 2 * length fs"
    and "sm_rx d = []" and "sm_sent d = 0" and "sm_tsize d = of_nat (length dummy)"
    and "fs \<noteq> []" and "length dummy < 2 ^ 16"
  shows "drain_rx (length dummy) (fst (clock_all d (rot_reply g l fs) peer dummy)) =
      map ucast (wire_bytes fs) \<and>
    bit (fst (spi_master_read (fst (clock_all d (rot_reply g l fs) peer dummy)) 0x14)) 3"
proof -
  let ?l = "rot_reply g l fs"
  have irq: "rot_irq ?l"
  proof -
    have "drop_bit 18 (g_p0 g AND NOT (push_bit 18 1)) AND 1 = (0 :: u32)"
      unfolding pin_low_iff bit_and_iff bit_not_iff bit_push_bit_iff by simp
    then show ?thesis
      by (simp add: rot_reply_def lpc_gpio_write_def lpc_gpio_pins_def refresh_def Let_def)
  qed
  have m: "miso ?l = wire_bytes fs"
    using assms(1)
    by (simp add: rot_reply_def rot_queue_frames lpc_gpio_write_def lpc_gpio_pins_def refresh_def Let_def)
  have len: "length (wire_bytes fs) = length dummy"
    using assms(2) by (simp add: wire_bytes_def length_concat comp_def sum_list_triv)
  have c: "fst (clock_all d ?l peer dummy) = d\<lparr>sm_rx := wire_bytes fs, sm_sent := of_nat (length dummy)\<rparr>"
    using clock_reply [OF irq, of dummy d peer] m len assms(3,4) by simp
  have drained: "drain_rx (length dummy) (fst (clock_all d ?l peer dummy)) = map ucast (wire_bytes fs)"
    using drain_all [of "fst (clock_all d ?l peer dummy)" "wire_bytes fs"] len by (simp add: c)
  have "unat (of_nat (length dummy) :: u32) = length dummy"
    by (rule unat_of_nat32) (use assms(7) in simp)
  then have "(of_nat (length dummy) :: u32) \<noteq> 0" using assms(2,6) by auto
  then have "bit (fst (spi_master_read (fst (clock_all d ?l peer dummy)) 0x14)) 3"
    using assms(5) by (simp add: c spi_master_read_def spi_master_sr_def bit_or_iff bit_push_bit_iff Let_def)
  with drained show ?thesis by blast
qed

lemma reply_reaches_master_witness:
  "drain_rx (length [0, 0 :: u8, 0, 0])
       (fst (clock_all (spi_master_new\<lparr>sm_tsize := 4\<rparr>) (rot_reply lpc_gpio_new link_default [0x1234, 0xABCD])
          (\<lambda>_. id) [0, 0, 0, 0])) = map ucast (wire_bytes [0x1234, 0xABCD]) \<and>
   bit (fst (spi_master_read (fst (clock_all (spi_master_new\<lparr>sm_tsize := 4\<rparr>)
          (rot_reply lpc_gpio_new link_default [0x1234, 0xABCD]) (\<lambda>_. id) [0, 0, 0, 0])) 0x14)) 3"
  by (rule reply_reaches_master) (simp_all add: link_default_def spi_master_new_def)

section \<open>Pacing against a live RoT\<close>

definition ready :: "link \<Rightarrow> bool" where
  "ready l = (if rot_irq l then l_cs l \<longrightarrow> miso l \<noteq> [] else length (mosi l) < SPROT_FIFO_BYTES)"

text \<open>
  Pacing neither drops nor invents a byte: when the live RoT makes the link ready (room in
  the request FIFO, or a refilled reply) at some wait within the stall budget, holding ROT_IRQ
  steady until then, the byte the SP writes is queued behind what the RoT left, and a byte it
  receives from a selected, replying RoT is the next queued one.
\<close>

theorem paced_clock_keeps_bytes:
  assumes "rot_live l" and "k \<le> STALL_BUDGET_ITERS" and "ready (after_waits peer k l)"
    and "\<And>i. i \<le> k \<Longrightarrow> rot_irq (after_waits peer i l) = rot_irq l"
    and "spi_master_write d l peer 0x20 (ucast b) = (d', l', peer')"
  shows "\<exists>j \<le> k. \<exists>m. m = after_waits peer j l \<and>
    (\<not> rot_irq l \<longrightarrow> mosi l' = mosi m @ [b] \<and> length (mosi l') \<le> SPROT_FIFO_BYTES) \<and>
    (rot_irq l \<and> l_cs m \<longrightarrow> miso m \<noteq> [] \<and> sm_rx d' = sm_rx d @ [hd (miso m)] \<and> miso l' = tl (miso m))"
proof -
  let ?W = "\<lambda>j. after_waits peer j l"
  let ?A = "\<lambda>l. rot_irq l \<and> l_cs l \<and> miso l = []"
  let ?B = "\<lambda>l. \<not> rot_irq l \<and> length (mosi l) \<ge> SPROT_FIFO_BYTES"
  obtain j where j: "j \<le> k" "clock_paced peer l = (?W j, \<lambda>i. peer (j + i))" "ready (?W j)"
  proof (cases "rot_irq l")
    case True
    then have "\<not> ?A (?W k)" using assms(3,4) by (auto simp: ready_def)
    then obtain j where j: "j \<le> k" "paced ?A STALL_BUDGET_ITERS peer l = (?W j, \<lambda>i. peer (j + i))" "\<not> ?A (?W j)"
      using least_stop [of ?A peer k l] assms(2) by blast
    moreover have "rot_irq (?W j)" using True assms(4) j(1) by simp
    ultimately show ?thesis using assms(1) that by (auto simp: clock_paced_def ready_def)
  next
    case False
    then have "\<not> ?B (?W k)" using assms(3,4) by (auto simp: ready_def)
    then obtain j where j: "j \<le> k" "paced ?B STALL_BUDGET_ITERS peer l = (?W j, \<lambda>i. peer (j + i))" "\<not> ?B (?W j)"
      using least_stop [of ?B peer k l] assms(2) by blast
    moreover have "\<not> rot_irq (?W j)" using False assms(4) j(1) by simp
    ultimately show ?thesis using assms(1) False that by (auto simp: clock_paced_def ready_def)
  qed
  let ?m = "?W j"
  have e: "(d', l') = (d\<lparr>sm_rx := sm_rx d @ [fst (clock_byte b ?m)], sm_sent := sm_sent d + 1\<rparr>, snd (clock_byte b ?m))"
    using assms(5) by (simp add: spi_master_write_def j(2) split_def Let_def)
  have "rot_irq ?m = rot_irq l" using assms(4) j(1) by blast
  then show ?thesis using j(1,3) e
    by (intro exI [of _ j] conjI exI [of _ ?m])
      (auto simp: clock_byte_def ready_def pop_front_def split_def Let_def split: list.split)
qed

text \<open>A full request FIFO and a RoT that reads one frame per wait.\<close>

definition full_link :: link where
  "full_link = link_default\<lparr>rot_live := True, mosi := replicate 16 7\<rparr>"

definition reads_a_frame :: schedule where
  "reads_a_frame = (\<lambda>_ l. snd (rot_slave_read l 0xE30))"

lemma paced_clock_keeps_bytes_witness:
  "case spi_master_write spi_master_new full_link reads_a_frame 0x20 (ucast (9 :: u8)) of (d', l', peer') \<Rightarrow>
     \<exists>j \<le> 1. \<exists>m. m = after_waits reads_a_frame j full_link \<and>
       (\<not> rot_irq full_link \<longrightarrow> mosi l' = mosi m @ [9] \<and> length (mosi l') \<le> 16) \<and>
       (rot_irq full_link \<and> l_cs m \<longrightarrow>
          miso m \<noteq> [] \<and> sm_rx d' = sm_rx spi_master_new @ [hd (miso m)] \<and> miso l' = tl (miso m))"
proof -
  obtain d' l' peer' where w: "spi_master_write spi_master_new full_link reads_a_frame 0x20 (ucast (9 :: u8)) = (d', l', peer')"
    by (rule prod_cases3)
  have irq: "rot_irq (after_waits reads_a_frame i full_link) = rot_irq full_link" if "i \<le> 1" for i
    using that by (cases i) (simp_all add: reads_a_frame_def rot_read_fiford)
  show ?thesis
    unfolding w prod.case
    by (rule paced_clock_keeps_bytes [OF _ _ _ _ w])
      (simp_all add: irq, simp_all add: full_link_def link_default_def reads_a_frame_def ready_def rot_read_fiford)
qed

section \<open>The byte registers of the GPIO block\<close>

text \<open>
  The bus turns a byte write at B[18] into a write of the word at offset 16 with the byte in
  bits 23:16 (\<open>write8\<close>); the block decodes it as pin 16 with a zero low byte. Setting
  pin 18 through its byte register clears pin 16 instead.
\<close>

lemma byte_register_drives_other_pin:
  "g_p0 (fst (lpc_gpio_write g l 16 (push_bit 16 1))) = g_p0 g AND NOT (push_bit 16 1)"
  by (simp add: lpc_gpio_write_def lpc_gpio_pins_def refresh_def Let_def)

end
