(* ===== verification/Boards.thy ===== *)
theory Boards
  imports Bus_Ram
begin

text \<open>
  How the two parts are put together: the SP's peripherals (\<open>install_peripherals\<close> of
  \<open>src/soc.rs\<close>), the RoT's memory and peripherals (\<open>src/lpc55.rs\<close>), and the
  hand-off blobs and tokens \<open>src/main.rs\<close> leaves in RAM before the first instruction.
  \<open>dev_for\<close> takes the first window that contains an address, so the order of installation is
  part of the memory map; the decode theorems say which device answers where.
\<close>

section \<open>What a board is configured with\<close>

text \<open>
  The configuration the constructors read from the environment, and what they load: the board
  profile, the VPD strings, the sensor values, the ignition table of the FPGA, the unique ID,
  the QSPI array as loaded from its file, the hash functions, the PUF seed and the compound
  device identifier.
\<close>

record board =
  bd_sidecar :: bool
  bd_vpd :: vpd_config
  bd_sensors :: sensors
  bd_ignition :: string
  bd_uid :: "u8 list"
  bd_qspi :: qspi
  bd_sha :: "u8 list \<Rightarrow> u8 list"
  bd_compress :: "u32 list \<Rightarrow> u8 list \<Rightarrow> u32 list"
  bd_uds :: "u8 list"
  bd_cdi :: "u32 list"

type_synonym window = "u32 \<times> u32 \<times> device"

definition add_all :: "bus \<Rightarrow> window list \<Rightarrow> bus" where
  "add_all b ws = foldl (\<lambda>b (base, size', d). add_device b base size' d) b ws"

section \<open>The SP's peripherals\<close>

definition i2c_windows :: "board \<Rightarrow> window list" where
  "i2c_windows k =
     map (\<lambda>(base, ev_irq, i).
            (base, 0x400, Dev_I2c (bd_sensors k)
               (i2c_new ev_irq (build_vpd_eeprom (bd_vpd k)) i (bd_sidecar k))))
       [(0x40005400, 31, 1), (0x40005800, 33, 2), (0x40005C00, 72, 3), (0x58001C00, 95, 4)]"

definition sp_windows :: "board \<Rightarrow> bool \<Rightarrow> window list" where
  "sp_windows k linked =
     [(0x58024400, 0x400, Dev_Rcc (\<lambda>_. 0)),
      (0x58024800, 0x400, Dev_Pwr (\<lambda>_. 0)),
      (0xE000E000, 0x1000, Dev_Scs (\<lambda>_. 0)),
      (0x40014400, 0x400, Dev_Tim16 tim16_new),
      (0x40013400, 0x400, if linked then Dev_SpiMaster spi_master_new else Dev_Spi4 spi4_new),
      (0x58020000, 0x3000, Dev_Gpio (gpio_new (bd_sidecar k)))] @
     (if bd_sidecar k
      then [(0x40003800, 0x400, Dev_Vsc7448 vsc_new),
            (0x40003C00, 0x400, Dev_Spi4 spi4_new),
            (0x40015000, 0x400, Dev_Spi5 (spi5_new (bd_ignition k)))]
      else [(0x40003800, 0x400, Dev_Spi2 spi2_new)]) @
     i2c_windows k @
     [(0x48021400, 0x400, Dev_Hash (hash_new (bd_sha k))),
      (0x48021800, 0x400, Dev_Rng rng_new),
      (0x52005000, 0x400, Dev_Qspi (bd_qspi k)),
      (0x58000400, 0x400, Dev_Syscfg Map.empty)] @
     (if linked then [(0x58000000, 0x400, Dev_SpExti Map.empty)] else []) @
     [(0x1FF1E800, 0x10, Dev_Uid (bd_uid k)),
      (0x40007800, 0x400, Dev_Uart7 Map.empty)]"

definition catch_all :: window where
  "catch_all = (0x40000000, 0x20000000, Dev_RegFile Map.empty)"

definition install_peripherals :: "board \<Rightarrow> bus \<Rightarrow> bus" where
  "install_peripherals k b = add_all b (sp_windows k (sh_link (shared_io b) \<noteq> None) @ [catch_all])"

section \<open>The RoT's memory and peripherals\<close>

definition rot_install_memory :: "bus \<Rightarrow> bus" where
  "rot_install_memory b = add_ram (add_ram b 0x20000000 0x00048000) 0x40100000 0x00004000"

definition rot_windows :: "board \<Rightarrow> bool \<Rightarrow> bool \<Rightarrow> window list" where
  "rot_windows k linked swd =
     [(0xE000E000, 0x1000, Dev_Scs (\<lambda>_. 0))] @
     (if linked then [(0x4009F000, 0x1000, Dev_RotSpiSlave),
                      (0x4008C000, 0x4000, Dev_LpcGpio lpc_gpio_new)] else []) @
     (if swd then [(0x40096000, 0x1000, Dev_RotSwdSpi rot_swd_new)] else []) @
     [(0x4003B000, 0x1000, Dev_Puf (puf_new (bd_uds k))),
      (0x400A4000, 0x1000, Dev_HashCrypt (hashcrypt_new (bd_compress k)))]"

definition rot_catch_all :: "window list" where
  "rot_catch_all =
     [(0x40000000, 0x00034000, Dev_RegFile Map.empty),
      (0x40035000, 0x000CB000, Dev_RegFile Map.empty),
      (0x50000000, 0x1000, Dev_RegFile Map.empty)]"

definition rot_seeds :: "board \<Rightarrow> (u32 \<times> u32) list" where
  "rot_seeds k =
     [(0x50000FFC, 1), (0x40000280, 3), (0x40000284, 0), (0x40000380, 0)] @
     map (\<lambda>(i, w). (0x40000900 + of_nat i * 4, w)) (enumerate 0 (bd_cdi k))"

definition rot_install_peripherals :: "board \<Rightarrow> bus \<Rightarrow> bus" where
  "rot_install_peripherals k b =
     foldl (\<lambda>b (a, v). write32 b a v)
       (add_all b (rot_windows k (sh_link (shared_io b) \<noteq> None) (sh_swd (shared_io b) \<noteq> None) @ rot_catch_all))
       (rot_seeds k)"

section \<open>Hand-offs left in RAM\<close>

text \<open>\<open>sha3\<close> is SHA3-256 of the sha3 crate.\<close>

definition page_hash :: "(u8 list \<Rightarrow> u8 list) \<Rightarrow> u8 list \<Rightarrow> u8 list" where
  "page_hash sha3 bs =
     sha3 (bs @ (if length bs mod 512 \<noteq> 0 then replicate (512 - length bs mod 512) 0xFF else []))"

definition bootstate_blob :: "(u8 list \<Rightarrow> u8 list) \<Rightarrow> u8 list \<Rightarrow> u8 list" where
  "bootstate_blob sha3 img =
     (let erased = page_hash sha3 (replicate 512 0xFF) in
      le_bytes32 0 @ ascii ''whatwhatwhat'' @ [0] @
      concat (map (\<lambda>d. d @ [0]) [page_hash sha3 img, erased, erased, erased]))"

definition publish_rot_bootstate :: "(u8 list \<Rightarrow> u8 list) \<Rightarrow> bus \<Rightarrow> u8 list \<Rightarrow> bus" where
  "publish_rot_bootstate sha3 b img = write_bytes8 b 0x40102000 (bootstate_blob sha3 img)"

text \<open>The two files of the DICE directory, \<open>None\<close> where one cannot be read.\<close>

definition publish_dice_handoff :: "bus \<Rightarrow> (u8 list option \<times> u8 list option) option \<Rightarrow> bus" where
  "publish_dice_handoff b dir =
     (let put = (\<lambda>b a f. case f of Some bs \<Rightarrow> write_bytes8 b a bs | None \<Rightarrow> b) in
      case dir of None \<Rightarrow> b
      | Some (certs, leaf) \<Rightarrow> put (put b 0x40100000 certs) 0x40100a00 leaf)"

definition deposit_skip_token :: "bool \<Rightarrow> bus \<Rightarrow> bus" where
  "deposit_skip_token rot_measure b = (if rot_measure then b else write32 b 0x20000000 0x9f38bd71)"

section \<open>Decoding an address\<close>

definition window_has :: "window \<Rightarrow> u32 \<Rightarrow> bool" where
  "window_has w a = (case w of (base, n, _) \<Rightarrow> base \<le> a \<and> a < base + n)"

text \<open>Two windows apart, compared by their bounds.\<close>

fun windows_apart :: "window \<Rightarrow> window \<Rightarrow> bool" where
  "windows_apart (base, n, _) (base', n', _) = (base + n \<le> base' \<or> base' + n' \<le> base)"

fun disjoint_windows :: "window list \<Rightarrow> bool" where
  "disjoint_windows [] = True"
| "disjoint_windows (w # ws) = (list_all (windows_apart w) ws \<and> disjoint_windows ws)"

definition slot_of :: "window \<Rightarrow> dev_slot" where
  "slot_of w = (case w of (base, n, d) \<Rightarrow> \<lparr>dv_base = base, dv_size = n, dv_dev = d\<rparr>)"

lemma add_all_devs: "devs (add_all b ws) = devs b @ map slot_of ws"
  unfolding add_all_def
  by (induction ws arbitrary: b) (auto simp: add_device_def slot_of_def)

lemma add_all_frame [simp]:
  "rams (add_all b ws) = rams b" "shared_io (add_all b ws) = shared_io b"
  "sp_flash (add_all b ws) = sp_flash b" "rotfl (add_all b ws) = rotfl b"
  "rom_enabled (add_all b ws) = rom_enabled b" "secure_alias (add_all b ws) = secure_alias b"
  "bus_rec (add_all b ws) = bus_rec b"
  unfolding add_all_def by (induction ws arbitrary: b) (auto simp: add_device_def)

lemma not_in_both: "windows_apart v w \<Longrightarrow> window_has v a \<Longrightarrow> \<not> window_has w a"
  by (cases v; cases w) (auto simp: window_has_def)

lemma dev_find_miss: "\<not> window_has w a \<Longrightarrow> dev_find k (slot_of w # ds) a = dev_find (Suc k) ds a"
  by (cases w) (auto simp: window_has_def slot_of_def)

text \<open>Among disjoint windows the one that has the address answers, whatever follows them.\<close>

lemma dev_find_disjoint:
  assumes "disjoint_windows ws" and "(base, n, d) \<in> set ws" and "window_has (base, n, d) a"
  shows "\<exists>i < length ws. ws ! i = (base, n, d) \<and>
    dev_find k (map slot_of ws @ rest) a = Some (k + i, a - base)"
  using assms
proof (induction ws arbitrary: k)
  case (Cons w ws)
  show ?case
  proof (cases "w = (base, n, d)")
    case True
    with Cons.prems(3) show ?thesis
      by (intro exI [of _ 0]) (simp add: slot_of_def window_has_def)
  next
    case False
    with Cons.prems have "(base, n, d) \<in> set ws" "\<not> window_has w a"
      using not_in_both [of w "(base, n, d)" a] by (auto simp: list_all_iff)
    then obtain i where "i < length ws" "ws ! i = (base, n, d)"
      "dev_find (Suc k) (map slot_of ws @ rest) a = Some (Suc k + i, a - base)"
      using Cons.IH [of "Suc k"] Cons.prems by auto
    then show ?thesis
      using dev_find_miss [OF \<open>\<not> window_has w a\<close>] by (intro exI [of _ "Suc i"]) simp
  qed
qed simp

lemma sp_windows_disjoint: "disjoint_windows (sp_windows k linked)"
  by (cases "bd_sidecar k"; cases linked) (simp_all add: sp_windows_def i2c_windows_def)

lemma rot_windows_disjoint: "disjoint_windows (rot_windows k linked swd)"
  by (cases linked; cases swd) (simp_all add: rot_windows_def)

section \<open>Which device answers\<close>

definition ram_window :: "ram \<Rightarrow> window" where
  "ram_window r = (ram_base r, ram_len r, Dev_RotSpiSlave)"

lemma ram_find_clear:
  assumes "list_all (\<lambda>r. windows_apart w (ram_window r)) rs" and "window_has w a" and "a < 0xF0000000"
  shows "ram_find k rs a 4 = None"
  using assms(1)
proof (induction rs arbitrary: k)
  case (Cons r rs)
  have "\<not> (ram_base r \<le> a \<and> a + 4 \<le> ram_base r + ram_len r)"
  proof
    assume f: "ram_base r \<le> a \<and> a + 4 \<le> ram_base r + ram_len r"
    have "a < a + 4" using assms(3) by (simp add: word_less_nat_alt unat_word_ariths)
    then have "window_has (ram_window r) a" using f by (auto simp: window_has_def ram_window_def)
    moreover have "windows_apart w (ram_window r)" using Cons.prems by simp
    ultimately show False using not_in_both assms(2) by blast
  qed
  then show ?case using Cons by simp
qed simp

text \<open>The first access to a fresh device: what the bus does with it, read or written.\<close>

definition answers :: "bus \<Rightarrow> u32 \<Rightarrow> u32 \<Rightarrow> device \<Rightarrow> bool" where
  "answers b a base d =
     (\<exists>i < length (devs b). dv_dev (devs b ! i) = d \<and> read32 b a = device_read b i (a - base) \<and>
        (\<forall>v. write32 b a v = device_write b i (a - base) v))"

lemma answersI:
  assumes "disjoint_windows ws" and "devs b = map slot_of ws @ rest" and "(base, n, d) \<in> set ws"
    and "window_has (base, n, d) a" and "\<not> intercepted b a" and "fold_addr b a = a"
    and "ram_for b a 4 = None" and "\<not> in_range TIM5_BASE TIM5_END a" and "\<not> bus_rec b"
  shows "answers b a base d"
proof -
  obtain i where i: "i < length ws" "ws ! i = (base, n, d)" "dev_for b a = Some (i, a - base)"
    using dev_find_disjoint [OF assms(1,3,4), of 0 rest] assms(2) by (auto simp: dev_for_def)
  have "dv_dev (devs b ! i) = d" using i assms(2) by (simp add: nth_append slot_of_def)
  moreover have "read32 b a = device_read b i (a - base)"
    using assms(5-8) i(3) by (simp add: read32_not_intercepted read32_tail_def)
  moreover have "write32 b a v = device_write b i (a - base) v" for v
    using assms(5-9) i(3) by (simp add: write32_def write32_not_intercepted write32_tail_def rec_write_def Let_def)
  ultimately show ?thesis unfolding answers_def using i(1) assms(2) by (intro exI [of _ i]) simp
qed

text \<open>
  The buses \<open>setup\<close> and \<open>build_rot_core\<close> start from: memory, peripherals, and the flash
  model, which the bus looks at first.
\<close>

definition sp_board :: "board \<Rightarrow> link option \<Rightarrow> flash option \<Rightarrow> bus" where
  "sp_board k l f =
     (install_peripherals k (install_memory (bus_new\<lparr>shared_io := soc_new\<lparr>sh_link := l\<rparr>\<rparr>)))\<lparr>sp_flash := f\<rparr>"

lemma sp_windows_bounds:
  "list_all (\<lambda>(base, n, d). (base + n \<le> 0x40000C00 \<or> 0x40001000 \<le> base) \<and> base + n < 0xF0000000)
     (sp_windows k linked)"
  by (cases "bd_sidecar k"; cases linked) (simp_all add: sp_windows_def i2c_windows_def)

lemma sp_windows_clear:
  "list_all (\<lambda>w. list_all (\<lambda>r. windows_apart w (ram_window r)) (rams (install_memory bus_new)))
     (sp_windows k linked)"
  by (cases "bd_sidecar k"; cases linked)
    (simp_all add: sp_windows_def i2c_windows_def install_memory_def add_ram_def bus_new_def ram_window_def)

text \<open>
  The SP's memory map is the one the datasheet gives: whatever the board profile and with
  the RoT link on or off, an address inside a peripheral's window reaches that peripheral's
  model, at its offset, for reads and for writes; no window of the list shadows another, and
  the store-and-return catch-all takes none of them.
\<close>

theorem sp_device_decode:
  assumes "(base, n, d) \<in> set (sp_windows k (l \<noteq> None))" and "base \<le> a" and "a < base + n"
    and "\<not> intercepted (sp_board k l f) a"
  shows "answers (sp_board k l f) a base d"
proof (rule answersI)
  let ?ws = "sp_windows k (l \<noteq> None)"
  show "disjoint_windows ?ws" by (rule sp_windows_disjoint)
  show "devs (sp_board k l f) = map slot_of ?ws @ [slot_of catch_all]"
    by (simp add: sp_board_def install_peripherals_def add_all_devs install_memory_def add_ram_def
        bus_new_def soc_new_def)
  show h: "window_has (base, n, d) a" using assms(2,3) by (simp add: window_has_def)
  show "fold_addr (sp_board k l f) a = a"
    by (simp add: sp_board_def install_peripherals_def fold_addr_def install_memory_def add_ram_def bus_new_def)
  have b: "(base + n \<le> 0x40000C00 \<or> 0x40001000 \<le> base) \<and> base + n < 0xF0000000"
    using sp_windows_bounds assms(1) by (fastforce simp: list_all_iff)
  then show "\<not> in_range TIM5_BASE TIM5_END a" using assms(2,3) by (auto simp: in_range_def)
  have r: "rams (sp_board k l f) = rams (install_memory bus_new)"
    by (simp add: sp_board_def install_peripherals_def install_memory_def add_ram_def)
  show "ram_for (sp_board k l f) a 4 = None"
    unfolding ram_for_def r using sp_windows_clear assms(1,3) b h
    by (intro ram_find_clear [of "(base, n, d)"]) (auto simp: list_all_iff)
  show "\<not> bus_rec (sp_board k l f)"
    by (simp add: sp_board_def install_peripherals_def install_memory_def add_ram_def bus_new_def)
qed (use assms in simp_all)

definition plain_board :: board where
  "plain_board =
     \<lparr>bd_sidecar = False,
      bd_vpd = \<lparr>vc_sidecar = False, vc_index = 0, vc_serial = None, vc_part = None, vc_rev = None\<rparr>,
      bd_sensors = \<lparr>temp_lsb = (\<lambda>_. 0), temp_int = (\<lambda>_. 0)\<rparr>, bd_ignition = [], bd_uid = [],
      bd_qspi = qspi_with_backing None None False (\<lambda>_ _. False), bd_sha = id,
      bd_compress = (\<lambda>s _. s), bd_uds = [], bd_cdi = [1, 2, 3, 4, 5, 6, 7, 8]\<rparr>"

theorem sp_device_decode_witness:
  "answers (sp_board plain_board None None) 0x48021804 0x48021800 (Dev_Rng rng_new)"
  by (rule sp_device_decode [where n = "0x400"])
    (simp_all add: sp_windows_def plain_board_def intercepted_def in_range_def sp_board_def
      install_peripherals_def install_memory_def add_ram_def bus_new_def)

section \<open>The RoT\<close>

definition rot_board :: "board \<Rightarrow> link option \<Rightarrow> swd_link option \<Rightarrow> bus" where
  "rot_board k l s =
     rot_install_peripherals k (rot_install_memory (bus_new\<lparr>shared_io := soc_new\<lparr>sh_link := l, sh_swd := s\<rparr>\<rparr>))"

text \<open>
  The RoT bus with given contents of the two register files the boot seeds, and what an access
  to one of them does.
\<close>

definition rot_regs_bus :: "bus \<Rightarrow> window list \<Rightarrow> regmap \<Rightarrow> regmap \<Rightarrow> bus" where
  "rot_regs_bus b ws lo ns =
     b\<lparr>devs := map slot_of ws @ map slot_of
         [(0x40000000, 0x00034000, Dev_RegFile lo), (0x40035000, 0x000CB000, Dev_RegFile Map.empty),
          (0x50000000, 0x1000, Dev_RegFile ns)]\<rparr>"

definition rot_plain :: "bus \<Rightarrow> bool" where
  "rot_plain b = (sp_flash b = None \<and> \<not> rom_enabled b \<and> \<not> secure_alias b \<and> \<not> bus_rec b \<and>
     map ram_base (rams b) = [0x20000000, 0x40100000] \<and> map ram_len (rams b) = [0x48000, 0x4000])"

definition seeded :: "u32 \<Rightarrow> bool" where
  "seeded a = ((0x40000000 \<le> a \<and> a < 0x40000C00) \<or> (0x50000000 \<le> a \<and> a < 0x50001000))"

lemma rot_windows_above:
  "list_all (\<lambda>(base, n, d). 0x4003B000 \<le> base \<and> \<not> (base \<le> a \<and> a < base + n)) (rot_windows k linked swd)"
  if "seeded a"
proof -
  have "a < 0x40000C00 \<or> 0x50000000 \<le> a \<and> a < 0x50001000" using that by (auto simp: seeded_def)
  then show ?thesis
    by (cases linked; cases swd) (auto simp: rot_windows_def word_le_nat_alt word_less_nat_alt)
qed

lemma dev_find_skip:
  "list_all (\<lambda>(base, n, d). \<not> (base \<le> a \<and> a < base + n)) ws \<Longrightarrow>
     dev_find k (map slot_of ws @ rest) a = dev_find (k + length ws) rest a"
  by (induction ws arbitrary: k) (auto simp: slot_of_def)

lemma dev_for_seeded:
  assumes "seeded a"
  shows "dev_for (rot_regs_bus b (rot_windows k l s) lo ns) a =
    (if a < 0x40000C00 then Some (length (rot_windows k l s), a - 0x40000000)
     else Some (length (rot_windows k l s) + 2, a - 0x50000000))"
proof -
  have "list_all (\<lambda>(base, n, d). \<not> (base \<le> a \<and> a < base + n)) (rot_windows k l s)"
    using rot_windows_above [OF assms, of k l s] by (auto simp: list_all_iff)
  then show ?thesis
    using assms by (simp add: dev_for_def rot_regs_bus_def dev_find_skip slot_of_def seeded_def)
      (auto simp: word_le_nat_alt word_less_nat_alt)
qed

lemma seeded_direct:
  assumes "rot_plain b" and "seeded a"
  shows "fold_addr b a = a" "\<not> intercepted b a" "ram_for b a 4 = None" "\<not> in_range TIM5_BASE TIM5_END a"
proof -
  show "fold_addr b a = a" using assms(1) by (simp add: fold_addr_def rot_plain_def)
  have n: "a AND NOT 3 \<le> a" by (rule word_and_le2)
  have "a < 0x50001000" using assms(2) by (auto simp: seeded_def word_less_nat_alt)
  then have "(a AND NOT 3) < 0x50001000" using n by (rule order.strict_trans1 [rotated])
  then have "a AND NOT 3 \<noteq> SCB_ICSR" "a AND NOT 3 \<noteq> SCB_AIRCR" by auto
  then show "\<not> intercepted b a"
    using assms by (auto simp: intercepted_def rot_plain_def seeded_def in_range_def word_le_nat_alt word_less_nat_alt)
  obtain r1 r2 where "rams b = [r1, r2]" using assms(1) by (auto simp: rot_plain_def map_eq_Cons_conv)
  then show "ram_for b a 4 = None"
    using assms by (auto simp: ram_for_def rot_plain_def seeded_def word_le_nat_alt word_less_nat_alt unat_word_ariths)
  show "\<not> in_range TIM5_BASE TIM5_END a"
    using assms(2) by (auto simp: seeded_def in_range_def word_less_nat_alt word_le_nat_alt)
qed

lemma rot_plain_regs [simp]: "rot_plain (rot_regs_bus b ws lo ns) = rot_plain b"
  by (simp add: rot_plain_def rot_regs_bus_def)

lemma rot_reg_write:
  assumes "rot_plain b" and "seeded a"
  shows "\<exists>b'. rot_plain b' \<and> write32 (rot_regs_bus b (rot_windows k l s) lo ns) a v =
    (if a < 0x40000C00 then rot_regs_bus b' (rot_windows k l s) (lo((a - 0x40000000) AND NOT 3 \<mapsto> v)) ns
     else rot_regs_bus b' (rot_windows k l s) lo (ns((a - 0x50000000) AND NOT 3 \<mapsto> v)))"
proof -
  let ?b = "rot_regs_bus b (rot_windows k l s) lo ns"
  have p: "rot_plain ?b" using assms(1) by simp
  have "\<not> bus_rec ?b" using p by (simp add: rot_plain_def)
  then have "write32 ?b a v = (case dev_for ?b a of Some (i, off) \<Rightarrow> device_write ?b i off v
      | None \<Rightarrow> ?b\<lparr>unmapped_writes := unmapped_writes ?b + 1\<rparr>)"
    using seeded_direct [OF p assms(2)]
    by (simp add: write32_def write32_not_intercepted write32_tail_def rec_write_def Let_def)
  then show ?thesis
    unfolding dev_for_seeded [OF assms(2)] using assms(1)
    by (intro exI [of _ "b\<lparr>mmio_hit := True, dev_touched := True\<rparr>"])
      (auto simp: rot_plain_def device_write_def rot_regs_bus_def nth_append slot_of_def list_update_append
        regfile_write_def Let_def word_bw_assocs)
qed

lemma rot_reg_read:
  assumes "rot_plain b" and "seeded a"
  shows "fst (read32 ((rot_regs_bus b (rot_windows k l s) lo ns)\<lparr>rotfl := f\<rparr>) a) =
    (if a < 0x40000C00 then reg_get lo ((a - 0x40000000) AND NOT 3)
     else reg_get ns ((a - 0x50000000) AND NOT 3))"
proof -
  let ?b = "rot_regs_bus (b\<lparr>rotfl := f\<rparr>) (rot_windows k l s) lo ns"
  have e: "(rot_regs_bus b (rot_windows k l s) lo ns)\<lparr>rotfl := f\<rparr> = ?b"
    by (simp add: rot_regs_bus_def)
  have p: "rot_plain ?b" using assms(1) by (simp add: rot_plain_def rot_regs_bus_def)
  have r: "read32 ?b a = (case dev_for ?b a of
      Some (i, off) \<Rightarrow> device_read ?b i off | None \<Rightarrow> (0, unmapped_read ?b))"
    using seeded_direct [OF p assms(2)] by (simp add: read32_not_intercepted read32_tail_def)
  show ?thesis
    unfolding e r dev_for_seeded [OF assms(2)]
    by (simp add: device_read_def rot_regs_bus_def nth_append slot_of_def regfile_read_def word_bw_assocs Let_def)
qed

text \<open>The register files after a list of seeding writes.\<close>

definition lo_after :: "regmap \<Rightarrow> (u32 \<times> u32) list \<Rightarrow> regmap" where
  "lo_after m seeds =
     foldl (\<lambda>m (a, v). if a < 0x40000C00 then m((a - 0x40000000) AND NOT 3 \<mapsto> v) else m) m seeds"

definition ns_after :: "regmap \<Rightarrow> (u32 \<times> u32) list \<Rightarrow> regmap" where
  "ns_after m seeds =
     foldl (\<lambda>m (a, v). if a < 0x40000C00 then m else m((a - 0x50000000) AND NOT 3 \<mapsto> v)) m seeds"

lemma rot_seeding:
  assumes "rot_plain b" and "list_all (\<lambda>(a, v). seeded a) seeds"
  shows "\<exists>b'. rot_plain b' \<and>
    foldl (\<lambda>b (a, v). write32 b a v) (rot_regs_bus b (rot_windows k l s) lo ns) seeds =
    rot_regs_bus b' (rot_windows k l s) (lo_after lo seeds) (ns_after ns seeds)"
  using assms
proof (induction seeds arbitrary: b lo ns)
  case Nil
  then show ?case by (auto simp: lo_after_def ns_after_def)
next
  case (Cons sv seeds)
  obtain a v where sv: "sv = (a, v)" by (cases sv)
  with Cons.prems(2) have "seeded a" by simp
  then obtain b' where b': "rot_plain b'" "write32 (rot_regs_bus b (rot_windows k l s) lo ns) a v =
      rot_regs_bus b' (rot_windows k l s) (lo_after lo [(a, v)]) (ns_after ns [(a, v)])"
    using rot_reg_write [OF Cons.prems(1), of a k l s lo ns v] by (auto simp: lo_after_def ns_after_def split: if_splits)
  show ?case
    using Cons.IH [OF b'(1), of "lo_after lo [(a, v)]" "ns_after ns [(a, v)]"] Cons.prems(2) b'(2) sv
    by (simp add: lo_after_def ns_after_def)
qed

lemma rot_board_regs:
  assumes "list_all (\<lambda>(a, v). seeded a) (rot_seeds k)"
  shows "\<exists>b. rot_plain b \<and> rot_board k l s = rot_regs_bus b (rot_windows k (l \<noteq> None) (s \<noteq> None))
    (lo_after Map.empty (rot_seeds k)) (ns_after Map.empty (rot_seeds k))"
proof -
  let ?b = "rot_install_memory (bus_new\<lparr>shared_io := soc_new\<lparr>sh_link := l, sh_swd := s\<rparr>\<rparr>)"
  have p: "rot_plain ?b"
    by (simp add: rot_plain_def rot_install_memory_def add_ram_def bus_new_def)
  have "add_all ?b ws = ?b\<lparr>devs := devs ?b @ map slot_of ws\<rparr>" for ws
    unfolding add_all_def by (induction ws rule: rev_induct) (auto simp: add_device_def slot_of_def)
  then have "add_all ?b (rot_windows k (l \<noteq> None) (s \<noteq> None) @ rot_catch_all) =
      rot_regs_bus ?b (rot_windows k (l \<noteq> None) (s \<noteq> None)) Map.empty Map.empty"
    by (simp add: rot_regs_bus_def rot_catch_all_def rot_install_memory_def add_ram_def bus_new_def)
  then show ?thesis
    using rot_seeding [OF p assms, of k "l \<noteq> None" "s \<noteq> None" Map.empty Map.empty]
    by (simp add: rot_board_def rot_install_peripherals_def rot_install_memory_def add_ram_def bus_new_def soc_new_def)
qed

text \<open>
  What the RoT's first instructions rely on: on the freshly built RoT bus, with whatever
  flash model is installed, SYSCON's die ID reports ROM version 1, the main clock selectors
  and divider are those the boot ROM leaves, and the eight words at 0x40000900 are the device
  identifier the DICE code derives its keys from.
\<close>

theorem rot_boot_registers:
  assumes "bd_cdi k = [w0, w1, w2, w3, w4, w5, w6, w7]"
  shows "map (\<lambda>a. fst (read32 ((rot_board k l s)\<lparr>rotfl := f\<rparr>) a))
      [0x50000FFC, 0x40000280, 0x40000284, 0x40000380] = [1, 3, 0, 0] \<and>
    map (\<lambda>i. fst (read32 ((rot_board k l s)\<lparr>rotfl := f\<rparr>) (0x40000900 + 4 * of_nat i))) [0..<8] = bd_cdi k"
proof -
  have e: "rot_seeds k = [(0x50000FFC, 1), (0x40000280, 3), (0x40000284, 0), (0x40000380, 0),
      (0x40000900, w0), (0x40000904, w1), (0x40000908, w2), (0x4000090C, w3),
      (0x40000910, w4), (0x40000914, w5), (0x40000918, w6), (0x4000091C, w7)]"
    by (simp add: rot_seeds_def assms enumerate_eq_zip upt_rec)
  then obtain b where "rot_plain b" "rot_board k l s = rot_regs_bus b (rot_windows k (l \<noteq> None) (s \<noteq> None))
      (lo_after Map.empty (rot_seeds k)) (ns_after Map.empty (rot_seeds k))"
    using rot_board_regs [of k l s] by (auto simp: seeded_def)
  then show ?thesis
    unfolding assms by (simp add: rot_reg_read seeded_def e lo_after_def ns_after_def reg_get_def upt_rec)
qed

theorem rot_boot_registers_witness:
  "map (\<lambda>i. fst (read32 (rot_board plain_board None None) (0x40000900 + 4 * of_nat i))) [0..<8] =
     [1, 2, 3, 4, 5, 6, 7, 8]"
  using rot_boot_registers [where k = plain_board and l = None and s = None
      and f = "rotfl (rot_board plain_board None None)"]
  by (simp add: plain_board_def)

section \<open>The measurement hand-off\<close>

text \<open>The bytes from \<open>a\<close> on are region \<open>i\<close> of RAM, from \<open>off\<close> on.\<close>

definition ram_at :: "bus \<Rightarrow> u32 \<Rightarrow> nat \<Rightarrow> nat \<Rightarrow> nat \<Rightarrow> bool" where
  "ram_at b a i off n =
     (\<forall>j < n. ram_ok b (a + of_nat j) 1 \<and> ram_for b (a + of_nat j) 1 = Some (i, off + j))"

lemma ram_at_Suc:
  "ram_at b a i off (Suc n) \<Longrightarrow>
     ram_ok b a 1 \<and> ram_for b a 1 = Some (i, off) \<and> ram_at b (a + 1) i (off + 1) n"
  unfolding ram_at_def
  by (rule conjI, force, rule conjI, force, intro allI impI) (force dest: spec [of _ "Suc _"] simp: add.assoc)

lemma read_bytes8_ram:
  "ram_at b a i off n \<Longrightarrow> read_bytes8 b a n = (slice (ram_data (rams b ! i)) off n, b)"
proof (induction n arbitrary: a off)
  case (Suc n)
  then show ?case
    using ram_at_Suc [OF Suc.prems] Suc.IH [of "a + 1" "off + 1"]
    by (simp add: read8_ram slice_def upt_rec [of 0 "Suc n"] map_Suc_upt [symmetric] del: upt_Suc)
qed (simp add: slice_def)

lemma blit_Cons: "blit (blit m off [x]) (off + 1) xs = blit m off (x # xs)"
  by (rule ext) (auto simp: blit_def nth_Cons')

lemma write_bytes8_ram:
  assumes "ram_at b a i off (length bs)"
  shows "i < length (rams b) \<or> bs = [] \<Longrightarrow>
    ram_data (rams (write_bytes8 b a bs) ! i) = blit (ram_data (rams b ! i)) off bs"
    and "ram_at (write_bytes8 b a bs) c i' off' m = ram_at b c i' off' m"
proof -
  have "(i < length (rams b) \<or> bs = [] \<longrightarrow>
      ram_data (rams (write_bytes8 b a bs) ! i) = blit (ram_data (rams b ! i)) off bs) \<and>
    ram_at (write_bytes8 b a bs) c i' off' m = ram_at b c i' off' m"
    using assms
  proof (induction bs arbitrary: b a off)
    case (Cons x bs)
    let ?b = "ram_store b a (ucast x) [x]"
    have h: "ram_ok b a 1" "ram_for b a 1 = Some (i, off)" "ram_at b (a + 1) i (off + 1) (length bs)"
      using ram_at_Suc [of b a i off "length bs"] Cons.prems by auto
    have r: "ram_at ?b c' j o' n = ram_at b c' j o' n" for c' j o' n by (simp add: ram_at_def)
    have w: "write8 b a x = ?b" using h(1) by (rule write8_ram)
    have i: "i < length (rams b)" using h(2) ram_find_bound unfolding ram_for_def by fastforce
    have "ram_in_bounds b i off 1" using h(1,2) by (simp add: ram_ok_def)
    then have d: "ram_data (rams ?b ! i) = blit (ram_data (rams b ! i)) off [x]"
      using ram_data_store [of b a "[x]" i off i "ucast x"] h(2) i by simp
    have l: "length (rams ?b) = length (rams b)" using ram_store_frame(11) by (metis length_map)
    show ?case
      using Cons.IH [of ?b "a + 1" "off + 1"] h(3) i by (simp add: r w d l blit_Cons [simplified])
  qed simp
  then show "i < length (rams b) \<or> bs = [] \<Longrightarrow>
      ram_data (rams (write_bytes8 b a bs) ! i) = blit (ram_data (rams b ! i)) off bs"
    and "ram_at (write_bytes8 b a bs) c i' off' m = ram_at b c i' off' m" by auto
qed

lemma slice_blit_apart:
  "off + length bs \<le> o' \<or> o' + n \<le> off \<Longrightarrow> slice (blit m off bs) o' n = slice m o' n"
  by (auto simp: slice_def blit_def)

text \<open>The USB SRAM of the RoT board holds the hand-offs.\<close>

lemma usb_sram:
  assumes "rot_plain b" and "off + n \<le> 0x4000"
  shows "ram_at b (0x40100000 + of_nat off) 1 off n"
proof -
  obtain r1 r2 where r: "rams b = [r1, r2]" "ram_base r1 = 0x20000000" "ram_base r2 = 0x40100000"
    "ram_len r1 = 0x48000" "ram_len r2 = 0x4000"
    using assms(1) by (auto simp: rot_plain_def map_eq_Cons_conv)
  have "ram_ok b (0x40100000 + of_nat m) 1 \<and> ram_for b (0x40100000 + of_nat m) 1 = Some (1, m)" if "m < 0x4000" for m
  proof -
    let ?a = "0x40100000 + of_nat m :: u32"
    have u: "unat ?a = 0x40100000 + m" using that by (simp add: unat_word_ariths unat_of_nat)
    have f: "ram_for b ?a 1 = Some (1, m)"
      using that u r by (simp add: ram_for_def word_le_nat_alt unat_word_ariths unat_of_nat)
    have "?a AND NOT 3 \<le> ?a" by (rule word_and_le2)
    then have "?a AND NOT 3 < 0xE0000000" using u that by (auto simp: word_less_nat_alt word_le_nat_alt)
    then have "?a AND NOT 3 \<noteq> SCB_ICSR" "?a AND NOT 3 \<noteq> SCB_AIRCR" by auto
    then have "\<not> intercepted b ?a"
      using assms(1) u that by (auto simp: intercepted_def rot_plain_def in_range_def word_le_nat_alt word_less_nat_alt)
    then show ?thesis
      using f assms(1) r that by (simp add: ram_ok_def fold_addr_def rot_plain_def ram_in_bounds_def)
  qed
  then show ?thesis
    unfolding ram_at_def using assms(2) by (auto simp: add.assoc simp flip: of_nat_add)
qed

lemma rot_board_plain:
  assumes "length (bd_cdi k) = 8"
  shows "rot_plain ((rot_board k l s)\<lparr>rotfl := f\<rparr>)"
proof -
  have "list_all (\<lambda>(a, v). seeded a) (rot_seeds k)"
    using assms by (auto simp: rot_seeds_def seeded_def list_all_iff in_set_enumerate_eq word_le_nat_alt
        word_less_nat_alt unat_word_ariths unat_of_nat)
  then show ?thesis using rot_board_regs [of k l s] by (auto simp: rot_plain_def rot_regs_bus_def)
qed

lemma length_bootstate: "(\<And>m. length (sha3 m) = 32) \<Longrightarrow> length (bootstate_blob sha3 img) = 149"
  by (simp add: bootstate_blob_def page_hash_def Let_def ascii_def)

text \<open>
  The hand-offs stage0 would leave are in the RoT's USB SRAM when it boots: reading back
  gives the boot-state record with the image's page-padded SHA3-256, and the two DICE blobs,
  none overwriting another as long as each fits its range.
\<close>

theorem handoffs_readable:
  assumes "length (bd_cdi k) = 8" and "\<And>m. length (sha3 m) = 32"
    and "length certs \<le> 0xA00" and "length leaf \<le> 0x1600"
    and "b = publish_dice_handoff (publish_rot_bootstate sha3 ((rot_board k l s)\<lparr>rotfl := f\<rparr>) img)
      (Some (Some certs, Some leaf))"
  shows "fst (read_bytes8 b 0x40100000 (length certs)) = certs \<and>
    fst (read_bytes8 b 0x40100A00 (length leaf)) = leaf \<and>
    fst (read_bytes8 b 0x40102000 149) = bootstate_blob sha3 img"
proof -
  let ?B = "(rot_board k l s)\<lparr>rotfl := f\<rparr>" and ?blob = "bootstate_blob sha3 img"
  let ?b1 = "write_bytes8 ?B 0x40102000 ?blob"
  let ?b2 = "write_bytes8 ?b1 0x40100000 certs"
  note u = usb_sram [OF rot_board_plain [OF assms(1)]]
  have len: "length ?blob = 149" using assms(2) by (rule length_bootstate)
  have b: "b = write_bytes8 ?b2 0x40100A00 leaf"
    by (simp add: assms(5) publish_dice_handoff_def publish_rot_bootstate_def)
  have R0: "ram_at ?B 0x40100000 1 0 n" if "n \<le> 0x4000" for n using u [of "0" n] that by simp
  have R1: "ram_at ?B 0x40100A00 1 0xA00 n" if "n \<le> 0x3600" for n using u [of "0xA00" n] that by simp
  have R2: "ram_at ?B 0x40102000 1 0x2000 n" if "n \<le> 0x2000" for n using u [of "0x2000" n] that by simp
  note r = R0 R1 R2
  have p1: "ram_at ?b1 c i o' n = ram_at ?B c i o' n" for c i o' n
    by (rule write_bytes8_ram(2)) (rule r, simp add: len)
  have p2: "ram_at ?b2 c i o' n = ram_at ?B c i o' n" for c i o' n
    using write_bytes8_ram(2) [where b = ?b1 and a = "0x40100000" and i = 1 and off = 0 and bs = certs]
      r(1) assms(3) p1 by simp
  have p3: "ram_at b c i o' n = ram_at ?B c i o' n" for c i o' n
    unfolding b using write_bytes8_ram(2) [where b = ?b2 and a = "0x40100A00" and i = 1 and off = "0xA00" and bs = leaf]
      r(2) assms(4) p2 by simp
  have i: "1 < length (rams c) \<or> bs = []" if "ram_at c a 1 o' (length bs)" for c a o' and bs :: "u8 list"
  proof (cases bs)
    case (Cons x xs)
    then have "ram_for c a 1 = Some (1, o')" using that ram_at_Suc [of c a 1 o' "length xs"] by simp
    then show ?thesis using ram_find_bound unfolding ram_for_def by fastforce
  qed simp
  have d1: "ram_data (rams ?b1 ! 1) = blit (ram_data (rams ?B ! 1)) 0x2000 ?blob"
    using r(3) [of 149] len i [of ?B "0x40102000" "0x2000" ?blob] by (intro write_bytes8_ram(1)) simp_all
  have d2: "ram_data (rams ?b2 ! 1) = blit (ram_data (rams ?b1 ! 1)) 0 certs"
    using r(1) assms(3) i [of ?b1 "0x40100000" 0 certs] p1 by (intro write_bytes8_ram(1)) simp_all
  have d3: "ram_data (rams b ! 1) = blit (ram_data (rams ?b2 ! 1)) 0xA00 leaf"
    unfolding b using r(2) assms(4) i [of ?b2 "0x40100A00" "0xA00" leaf] p2 by (intro write_bytes8_ram(1)) simp_all
  have s: "fst (read_bytes8 b a n) = slice (ram_data (rams b ! 1)) o' n" if "ram_at ?B a 1 o' n" for a o' n
    using read_bytes8_ram [of b a 1 o' n] that p3 by simp
  have "slice (blit m 0x2000 ?blob) 0x2000 149 = ?blob" for m
    using slice_blit [of m "0x2000" ?blob] len by simp
  then show ?thesis
    using assms(3,4) s [OF r(1)] s [OF r(2)] s [OF r(3)]
    by (simp add: d3 d2 d1 slice_blit slice_blit_apart len del: One_nat_def)
qed

theorem handoffs_readable_witness:
  "fst (read_bytes8 (publish_dice_handoff
     (publish_rot_bootstate (\<lambda>_. replicate 32 7) ((rot_board plain_board None None)\<lparr>rotfl := None\<rparr>) [1, 2, 3])
     (Some (Some [0xAA], Some [0xBB]))) 0x40100A00 (length [0xBB :: u8])) = [0xBB]"
  by (rule handoffs_readable [OF _ _ _ _ refl, THEN conjunct2, THEN conjunct1]) (simp_all add: plain_board_def)

end
