(* ===== verification/Serve.thy ===== *)
theory Serve
  imports Boards RotSwd Cpu_Step
begin

text \<open>
  The serve loop of \<open>src/gdb.rs\<close>: the SP thread's iteration (a burst of instructions, the
  firmware's self-reset, the pumps, the coupling with the RoT core or the shared RoT service,
  the ROT_IRQ edge) and the RoT thread's iteration, with the state they share. An iteration of
  one thread is a step; what the other thread does inside an iteration is the schedule the
  link model takes while it waits. Logging, tracing, profiling, the RAM dump, the watchdog's
  line and how long an idle thread sleeps are left out: they change no state of the machine.
\<close>

unbundle bit_operations_syntax

section \<open>Scheduling decisions\<close>

abbreviation (input) SP_RESET_HALT_ITERS :: u32 where "SP_RESET_HALT_ITERS \<equiv> 1000"
abbreviation (input) CREDIT_CAP :: u32 where "CREDIT_CAP \<equiv> 5000"
abbreviation (input) ENDOSCOPE_BURST :: nat where "ENDOSCOPE_BURST \<equiv> 65536"
abbreviation (input) ENDOSCOPE_SPRINT :: nat where "ENDOSCOPE_SPRINT \<equiv> 20000000"

definition sp_burst_for :: "bool \<Rightarrow> bool \<Rightarrow> bool \<Rightarrow> bool \<Rightarrow> nat \<Rightarrow> nat \<Rightarrow> nat" where
  "sp_burst_for is_halted servicing debugging replying quantum endoscope =
     (if is_halted \<or> servicing then 0 else if debugging then endoscope
      else if replying then 48 else quantum)"

definition endoscope_credit :: "u64 \<Rightarrow> u64 \<Rightarrow> u64 \<Rightarrow> u32 \<Rightarrow> u32 \<times> u64" where
  "endoscope_credit acc d_cycles divisor cap =
     (let total = acc + d_cycles in (ucast (min (total div divisor) (ucast cap)), total mod divisor))"

definition enter_sp_reset_service :: "bool \<Rightarrow> bool \<Rightarrow> bool \<Rightarrow> bool" where
  "enter_sp_reset_service edge is_armed is_halted = (edge \<and> is_armed \<and> \<not> is_halted)"

definition continue_sp_reset_service :: "bool \<Rightarrow> bool \<Rightarrow> bool \<Rightarrow> u32 \<Rightarrow> bool \<times> u32" where
  "continue_sp_reset_service servicing is_halted debugging iters =
     (if \<not> servicing \<or> is_halted \<or> debugging then (False, iters)
      else let n = (if iters = 0 then 0 else iters - 1) in (n \<noteq> 0, n))"

abbreviation (input) JTAG_DETECT_IRQ :: nat where "JTAG_DETECT_IRQ \<equiv> 5"
abbreviation (input) JTAG_DETECT_PINT_REG :: u32 where "JTAG_DETECT_PINT_REG \<equiv> 0x40004020"
abbreviation (input) JTAG_DETECT_PINT_BIT :: u32 where "JTAG_DETECT_PINT_BIT \<equiv> 2"
abbreviation (input) SP_RESET_PINT_BIT :: u32 where "SP_RESET_PINT_BIT \<equiv> 1"

definition inject_jtag_detect :: "bus \<Rightarrow> bool \<times> bus" where
  "inject_jtag_detect b =
     (if \<not> irq_enabled b JTAG_DETECT_IRQ then (False, b)
      else
        (let (cur, b1) = read32 b JTAG_DETECT_PINT_REG;
             b2 = write32 b1 JTAG_DETECT_PINT_REG (cur OR JTAG_DETECT_PINT_BIT)
         in (True, pend_irq b2 JTAG_DETECT_IRQ)))"

section \<open>State\<close>

text \<open>
  \<open>RotShared\<close>: what the two threads publish to each other (the RoT's program counter, for
  the watchdog's line, is left out). \<open>serve_state\<close>: the loop-lifetime variables of
  \<open>serve\<close>. \<open>serve_cfg\<close>: the configuration it reads once.
\<close>

record rot_shared =
  rs_armed :: bool
  rs_ticks :: u64
  rs_endo :: bool
  rs_credit :: u32

definition rot_shared_new :: rot_shared where
  "rot_shared_new = \<lparr>rs_armed = False, rs_ticks = 0, rs_endo = False, rs_credit = 0\<rparr>"

record serve_cfg =
  sc_quantum :: nat
  sc_txbreak :: bool
  sc_sprot_couple :: bool
  sc_endo_couple :: bool
  sc_clock_khz :: u32
  sc_jtag_trigger :: bool
  sc_swd_trigger :: bool

record serve_state =
  ss_servicing :: bool
  ss_iters :: u32
  ss_prev_irq :: bool
  ss_prev_ticks :: u64
  ss_prev_cycles :: u64
  ss_acc :: u64
  ss_jtag_done :: bool
  ss_req_buf :: "u8 list"
  ss_awaiting :: bool

definition serve_new :: "cpu \<Rightarrow> serve_state" where
  "serve_new c = \<lparr>ss_servicing = False, ss_iters = 0, ss_prev_irq = False, ss_prev_ticks = 0,
     ss_prev_cycles = cycles c, ss_acc = 0, ss_jtag_done = False, ss_req_buf = [], ss_awaiting = False\<rparr>"

text \<open>The SP thread's state, and the link as its bus carries it.\<close>

record sp_thread =
  sp_state :: serve_state
  sp_port :: swdp
  sp_cpu :: cpu
  sp_bus :: bus
  sp_host :: host

definition link_of :: "bus \<Rightarrow> link option" where
  "link_of b = sh_link (shared_io b)"

definition map_link :: "(link \<Rightarrow> link) \<Rightarrow> bus \<Rightarrow> bus" where
  "map_link f b = b\<lparr>shared_io := (shared_io b)\<lparr>sh_link := map_option f (link_of b)\<rparr>\<rparr>"

definition link_is :: "(link \<Rightarrow> bool) \<Rightarrow> bus \<Rightarrow> bool" where
  "link_is P b = (case link_of b of None \<Rightarrow> False | Some l \<Rightarrow> P l)"

section \<open>The SP's burst\<close>

definition eth_has_tx :: "bus \<Rightarrow> bool" where
  "eth_has_tx b = (tx_frames (eth b) \<noteq> [])"

fun sp_burst :: "env \<Rightarrow> bool \<Rightarrow> nat \<Rightarrow> cpu \<Rightarrow> bus \<Rightarrow> machine" where
  "sp_burst E txbreak 0 c b = (c, b)"
| "sp_burst E txbreak (Suc n) c b =
     (if halted c then (c, b)
      else case step E c b of
        (Some _, m) \<Rightarrow> m
      | (None, c1, b1) \<Rightarrow>
          if reset_pending b1 then (c1, b1)
          else
            (let (c2, b2) = maybe_tick c1 b1; (c3, b3) = maybe_interrupt c2 b2 in
             if 0 < idle_skip c3 \<or> txbreak \<and> eth_has_tx b3 then (c3, b3)
             else sp_burst E txbreak n c3 b3))"

section \<open>The firmware's self-reset\<close>

definition apply_reset :: "swdp \<Rightarrow> cpu \<Rightarrow> bus \<Rightarrow> target" where
  "apply_reset d c b =
     (let b1 = flash_reset_latch b;
          (sp, b2) = read32 b1 0x08000000; (v, b3) = read32 b2 0x08000004;
          c1 = reset_for_reboot c sp (v AND NOT 1);
          b4 = reset_exception_sources b3;
          (_, d1, c2) = honor_vector_catch d c1
      in (d1, flush_decode_cache c2, b4\<lparr>reset_pending := False\<rparr>))"

text \<open>
  \<open>boot\<close> of \<open>src/main.rs\<close>, the loop without a debug port, resets the same way and then
  stands in for the debugger: it deposits the measurement token again.
\<close>

definition boot_reset :: "bool \<Rightarrow> cpu \<Rightarrow> bus \<Rightarrow> machine" where
  "boot_reset rot_measure c b =
     (let b1 = flash_reset_latch b;
          (sp, b2) = read32 b1 0x08000000; (v, b3) = read32 b2 0x08000004;
          c1 = reset_for_reboot c sp (v AND NOT 1);
          b4 = reset_exception_sources b3
      in (flush_decode_cache c1, (deposit_skip_token rot_measure b4)\<lparr>reset_pending := False\<rparr>))"

section \<open>Coupling with the in-process RoT\<close>

definition sub_sat :: "'a::len word \<Rightarrow> 'a word \<Rightarrow> 'a word" where
  "sub_sat x y = (if y \<le> x then x - y else 0)"

definition add_sat_cap :: "u32 \<Rightarrow> u32 \<Rightarrow> u32" where
  "add_sat_cap x y = (if unat x + unat y \<ge> unat CREDIT_CAP then CREDIT_CAP else x + y)"

text \<open>A self-reset edge goes to the RoT thread, and an armed RoT gets the SP frozen.\<close>

definition hand_over_reset :: "bool \<Rightarrow> bool \<Rightarrow> cpu \<Rightarrow> serve_state \<times> bus \<Rightarrow> serve_state \<times> bus" where
  "hand_over_reset edge is_armed c sb = (case sb of (s, b) \<Rightarrow>
     (if enter_sp_reset_service edge is_armed (halted c)
      then s\<lparr>ss_servicing := True, ss_iters := SP_RESET_HALT_ITERS\<rparr> else s,
      if edge then map_link (\<lambda>l. l\<lparr>sp_reset_pint := True\<rparr>) b else b))"

definition trigger_jtag :: "serve_cfg \<Rightarrow> serve_state \<times> bus \<Rightarrow> serve_state \<times> bus" where
  "trigger_jtag cfg sb = (case sb of (s, b) \<Rightarrow>
     (if sc_jtag_trigger cfg \<and> \<not> ss_jtag_done s
      then (s\<lparr>ss_jtag_done := True\<rparr>, map_link (\<lambda>l. l\<lparr>jtag_pint := True\<rparr>) b) else (s, b)))"

text \<open>Endoscope time the SP has run since the last iteration, as credit for the RoT.\<close>

definition endoscope_couple :: "serve_cfg \<Rightarrow> cpu \<Rightarrow> serve_state \<times> rot_shared \<Rightarrow> serve_state \<times> rot_shared" where
  "endoscope_couple cfg c ss = (case ss of (s, sh) \<Rightarrow>
     (let now = (sc_endo_couple cfg \<and> debug_en c \<and> \<not> halted c);
          d = sub_sat (cycles c) (ss_prev_cycles s);
          s1 = s\<lparr>ss_prev_cycles := cycles c\<rparr>; sh1 = sh\<lparr>rs_endo := now\<rparr>
      in if now then
           (let divisor = (case tick_divisor c of Some v \<Rightarrow> v | None \<Rightarrow> sc_clock_khz cfg);
                (ms, acc) = endoscope_credit (ss_acc s1) d (ucast divisor) CREDIT_CAP
            in (s1\<lparr>ss_acc := acc\<rparr>, if 0 < ms then sh1\<lparr>rs_credit := rs_credit sh1 + ms\<rparr> else sh1))
         else (s1\<lparr>ss_acc := 0\<rparr>, sh1\<lparr>rs_credit := 0\<rparr>)))"

text \<open>The RoT's requests over SWD, then the reset pin it releases.\<close>

definition drain_swd :: "target \<Rightarrow> target" where
  "drain_swd t = (case t of (d, c, b) \<Rightarrow>
     (case sh_swd (shared_io b) of
        None \<Rightarrow> t
      | Some l \<Rightarrow>
          (let (l1, d1, c1, b1) = swd_drain l t
           in (d1, c1, b1\<lparr>shared_io := (shared_io b1)\<lparr>sh_swd := Some l1\<rparr>\<rparr>))))"

definition release_reset :: "target \<Rightarrow> target" where
  "release_reset t = (case t of (d, c, b) \<Rightarrow>
     (if link_is sp_reset_release b
      then pin_reset d c (map_link (\<lambda>l. l\<lparr>sp_reset_release := False\<rparr>) b) else t))"

text \<open>The RoT's elapsed ticks, as credit for the SP's frozen SysTick.\<close>

definition tick_couple :: "serve_cfg \<Rightarrow> bool \<Rightarrow> rot_shared \<Rightarrow> serve_state \<times> cpu \<Rightarrow> serve_state \<times> cpu" where
  "tick_couple cfg in_flight sh sc = (case sc of (s, c) \<Rightarrow>
     (let d = sub_sat (rs_ticks sh) (ss_prev_ticks s);
          s1 = s\<lparr>ss_prev_ticks := rs_ticks sh\<rparr>
      in if sc_sprot_couple cfg \<and> in_flight \<and> \<not> halted c
         then (s1, c\<lparr>sp_tick_credit := add_sat_cap (sp_tick_credit c) (ucast (min d (ucast CREDIT_CAP)))\<rparr>)
         else (s1, c\<lparr>sp_tick_credit := 0\<rparr>)))"

definition rot_couple ::
  "serve_cfg \<Rightarrow> bool \<Rightarrow> sp_thread \<times> rot_shared \<Rightarrow> sp_thread \<times> rot_shared" where
  "rot_couple cfg edge w = (case w of (t, sh) \<Rightarrow>
     (let (s1, b1) = hand_over_reset edge (rs_armed sh) (sp_cpu t) (sp_state t, sp_bus t);
          (s2, b2) = trigger_jtag cfg (s1, b1);
          in_flight = link_is request_in_flight b2;
          b3 = (if link_is l_cs b2 then pend_irq b2 84 else b2);
          c1 = (sp_cpu t)\<lparr>tick_frozen := (sc_sprot_couple cfg \<and> in_flight \<and> \<not> halted (sp_cpu t))\<rparr>;
          (s3, sh1) = endoscope_couple cfg c1 (s2, sh);
          (d1, c2, b4) = release_reset (drain_swd (sp_port t, c1, b3));
          (s4, c3) = tick_couple cfg in_flight sh1 (s3, c2);
          (servicing, iters) = continue_sp_reset_service (ss_servicing s4) (halted c3) (debug_en c3) (ss_iters s4)
      in (t\<lparr>sp_state := s4\<lparr>ss_servicing := servicing, ss_iters := iters\<rparr>, sp_port := d1,
            sp_cpu := c3, sp_bus := b4\<rparr>, sh1)))"

section \<open>Coupling with a shared RoT service\<close>

text \<open>
  Without a RoT core the loop is the SP's link peer: it collects the request the SP clocks out,
  exchanges it with the service when the SP deselects, and offers the reply until the SP
  deselects again. \<open>exchange\<close> is the service's answer (\<open>src/rot_service.rs\<close>, over TCP).
\<close>

definition ipc_couple :: "(u8 list \<Rightarrow> u8 list) \<Rightarrow> serve_state \<times> bus \<Rightarrow> serve_state \<times> bus" where
  "ipc_couple exchange sb = (case sb of (s, b) \<Rightarrow>
     (case link_of b of
        None \<Rightarrow> (s, b)
      | Some l \<Rightarrow>
          (let buf = (if ss_awaiting s then ss_req_buf s else ss_req_buf s @ mosi l);
               l1 = l\<lparr>mosi := []\<rparr> in
           if l_ssd l \<and> \<not> ss_awaiting s \<and> buf \<noteq> [] then
             (s\<lparr>ss_req_buf := [], ss_awaiting := True\<rparr>,
              map_link (\<lambda>_. l1\<lparr>l_ssa := False, l_ssd := False, sot_pending := False,
                miso := exchange buf, rot_irq := True, request_in_flight := False\<rparr>) b)
           else if ss_awaiting s \<and> l_ssd l then
             (s\<lparr>ss_req_buf := buf, ss_awaiting := False\<rparr>,
              map_link (\<lambda>_. l1\<lparr>rot_irq := False, l_ssa := False, l_ssd := False, miso := []\<rparr>) b)
           else (s\<lparr>ss_req_buf := buf\<rparr>, map_link (\<lambda>_. l1) b))))"

section \<open>The ROT_IRQ edge\<close>

definition rot_irq_edge :: "serve_state \<times> bus \<Rightarrow> serve_state \<times> bus" where
  "rot_irq_edge sb = (case sb of (s, b) \<Rightarrow>
     (let now = link_is rot_irq b in
      if now \<noteq> ss_prev_irq s
      then (s\<lparr>ss_prev_irq := now\<rparr>, pend_irq (map_link (\<lambda>l. l\<lparr>sp_rot_irq_pending := True\<rparr>) b) 9)
      else (s, b)))"

section \<open>One iteration of the SP thread\<close>

datatype rot_mode = Rot_Core | Rot_Service "u8 list \<Rightarrow> u8 list" | Rot_None

definition burst_len :: "serve_cfg \<Rightarrow> sp_thread \<Rightarrow> nat" where
  "burst_len cfg t =
     sp_burst_for (halted (sp_cpu t)) (ss_servicing (sp_state t)) (debug_en (sp_cpu t))
       (link_is (\<lambda>l. rot_irq l \<and> l_cs l) (sp_bus t)) (sc_quantum cfg)
       (if sc_endo_couple cfg then ENDOSCOPE_BURST else ENDOSCOPE_SPRINT)"

text \<open>Run, apply a self-reset (whether there was one is the flag), pump the host.\<close>

definition sp_run :: "env \<Rightarrow> serve_cfg \<Rightarrow> sp_thread \<Rightarrow> bool \<times> sp_thread" where
  "sp_run E cfg t =
     (let (c1, b1) = sp_burst E (sc_txbreak cfg) (burst_len cfg t) (sp_cpu t) (sp_bus t);
          edge = reset_pending b1;
          (d2, c2, b2) = (if edge then apply_reset (sp_port t) c1 b1 else (sp_port t, c1, b1));
          (b3, h1) = pump_eth b2 (sp_host t); (b4, h2) = pump_uart b3 h1
      in (edge, t\<lparr>sp_port := d2, sp_cpu := c2, sp_bus := b4, sp_host := h2\<rparr>))"

text \<open>An idle SP collects interrupts before it decides to sleep.\<close>

definition idle_check :: "sp_thread \<Rightarrow> sp_thread" where
  "idle_check t =
     (if 0 < idle_skip (sp_cpu t)
      then t\<lparr>sp_cpu := (sp_cpu t)\<lparr>idle_skip := 0\<rparr>, sp_bus := snd (any_pending_irq (sp_bus t))\<rparr> else t)"

definition sp_iter :: "env \<Rightarrow> serve_cfg \<Rightarrow> rot_mode \<Rightarrow> sp_thread \<times> rot_shared \<Rightarrow> sp_thread \<times> rot_shared" where
  "sp_iter E cfg rot w = (case w of (t, sh) \<Rightarrow>
     (let (edge, t1) = sp_run E cfg t;
          (t2, sh2) =
            (case rot of
               Rot_Core \<Rightarrow> rot_couple cfg edge (t1, sh)
             | Rot_Service exchange \<Rightarrow>
                 (let (s, b) = ipc_couple exchange (sp_state t1, sp_bus t1)
                  in (t1\<lparr>sp_state := s, sp_bus := b\<rparr>, sh))
             | Rot_None \<Rightarrow> (t1, sh));
          (s, b) = rot_irq_edge (sp_state t2, sp_bus t2)
      in (idle_check (t2\<lparr>sp_state := s, sp_bus := b\<rparr>), sh2)))"

text \<open>A debug client on the SP's port: what attaching and leaving do to the link and the core.\<close>

definition probe_attach :: "sp_thread \<Rightarrow> sp_thread" where
  "probe_attach t = t\<lparr>sp_bus := map_link (\<lambda>l. l\<lparr>jtag_detect := True, jtag_pint := True\<rparr>) (sp_bus t)\<rparr>"

definition probe_detach :: "sp_thread \<Rightarrow> sp_thread" where
  "probe_detach t =
     t\<lparr>sp_cpu := (sp_cpu t)\<lparr>halted := False, debug_en := False, bkpt_hit := False\<rparr>,
       sp_bus := map_link (\<lambda>l. l\<lparr>jtag_detect := False\<rparr>) (sp_bus t)\<rparr>"

section \<open>One iteration of the RoT thread\<close>

record rot_thread =
  rt_cpu :: cpu
  rt_bus :: bus
  rt_swd_triggered :: bool

text \<open>
  The edges and levels the SP thread left on the link become interrupts: the reset edge is
  consumed, the JTAG edge only once the firmware takes it, and FLEXCOMM8 is pended while an
  exchange is active.
\<close>

definition rot_exchange_active :: "link \<Rightarrow> bool" where
  "rot_exchange_active l = (l_ssa l \<or> l_cs l \<or> rot_irq l \<or> request_in_flight l)"

definition rot_reset_edge :: "bool \<Rightarrow> rot_thread \<Rightarrow> rot_thread" where
  "rot_reset_edge trigger t =
     (let b = rt_bus t; edge = link_is sp_reset_pint b;
          b1 = map_link (\<lambda>l. l\<lparr>sp_reset_pint := False\<rparr>) b
      in if edge \<or> trigger \<and> \<not> rt_swd_triggered t \<and> irq_enabled b1 4
         then t\<lparr>rt_bus := pend_irq (write32 b1 JTAG_DETECT_PINT_REG SP_RESET_PINT_BIT) 4,
                rt_swd_triggered := True\<rparr>
         else t\<lparr>rt_bus := b1\<rparr>)"

definition rot_jtag_edge :: "bool \<Rightarrow> bus \<Rightarrow> bus" where
  "rot_jtag_edge pending b =
     (if pending
      then (case inject_jtag_detect b of
              (True, b1) \<Rightarrow> map_link (\<lambda>l. l\<lparr>jtag_pint := False\<rparr>) b1 | (False, b1) \<Rightarrow> b1)
      else b)"

definition rot_events :: "bool \<Rightarrow> rot_thread \<times> rot_shared \<Rightarrow> rot_thread \<times> rot_shared" where
  "rot_events trigger w = (case w of (t, sh) \<Rightarrow>
     (let active = link_is rot_exchange_active (rt_bus t);
          jtag = link_is jtag_pint (rt_bus t);
          t1 = rot_reset_edge trigger t;
          b1 = rot_jtag_edge jtag (rt_bus t1);
          b2 = (if active then pend_irq b1 59 else b1)
      in (t1\<lparr>rt_bus := b2\<rparr>, sh\<lparr>rs_armed := irq_enabled b1 4\<rparr>)))"

definition rot_credit :: "cpu \<times> rot_shared \<Rightarrow> cpu \<times> rot_shared" where
  "rot_credit cs = (case cs of (c, sh) \<Rightarrow>
     (let c1 = c\<lparr>tick_frozen := rs_endo sh\<rparr> in
      if rs_endo sh
      then (if 0 < rs_credit sh then c1\<lparr>sp_tick_credit := add_sat_cap (sp_tick_credit c1) (rs_credit sh)\<rparr> else c1,
            sh\<lparr>rs_credit := 0\<rparr>)
      else (c1\<lparr>sp_tick_credit := 0\<rparr>, sh)))"

fun rot_burst :: "env \<Rightarrow> nat \<Rightarrow> cpu \<Rightarrow> bus \<Rightarrow> machine" where
  "rot_burst E 0 c b = (c, b)"
| "rot_burst E (Suc n) c b =
     (case step E c b of
        (Some _, m) \<Rightarrow> m
      | (None, c1, b1) \<Rightarrow>
          (let (c2, b2) = maybe_tick c1 b1; (c3, b3) = maybe_interrupt c2 b2 in
           if 0 < idle_skip c3 then (c3\<lparr>idle_skip := 0\<rparr>, b3) else rot_burst E n c3 b3))"

definition rot_iter :: "env \<Rightarrow> serve_cfg \<Rightarrow> rot_thread \<times> rot_shared \<Rightarrow> rot_thread \<times> rot_shared" where
  "rot_iter E cfg w =
     (let (t1, sh1) = rot_events (sc_swd_trigger cfg) w;
          (c1, sh2) = rot_credit (rt_cpu t1, sh1);
          (c2, b2) = rot_burst E (sc_quantum cfg) c1 (rt_bus t1)
      in (t1\<lparr>rt_cpu := c2, rt_bus := b2\<rparr>, sh2\<lparr>rs_ticks := tick_events c2\<rparr>))"

section \<open>The two threads together\<close>

text \<open>
  Both buses carry the same wires (the mutex-guarded cells of \<open>src/sprot.rs\<close> and
  \<open>src/rotswd.rs\<close>): after a turn of one thread the other sees what it left there.
\<close>

record duo =
  du_sp :: sp_thread
  du_rot :: rot_thread
  du_shared :: rot_shared

definition lend_wires :: "bus \<Rightarrow> bus \<Rightarrow> bus" where
  "lend_wires src dst =
     dst\<lparr>shared_io := (shared_io dst)\<lparr>sh_link := sh_link (shared_io src), sh_swd := sh_swd (shared_io src)\<rparr>\<rparr>"

definition sp_turn :: "env \<Rightarrow> serve_cfg \<Rightarrow> duo \<Rightarrow> duo" where
  "sp_turn E cfg w =
     (let (t, sh) = sp_iter E cfg Rot_Core (du_sp w, du_shared w)
      in w\<lparr>du_sp := t, du_shared := sh,
           du_rot := (du_rot w)\<lparr>rt_bus := lend_wires (sp_bus t) (rt_bus (du_rot w))\<rparr>\<rparr>)"

definition rot_turn :: "env \<Rightarrow> serve_cfg \<Rightarrow> duo \<Rightarrow> duo" where
  "rot_turn E cfg w =
     (let (t, sh) = rot_iter E cfg (du_rot w, du_shared w)
      in w\<lparr>du_rot := t, du_shared := sh,
           du_sp := (du_sp w)\<lparr>sp_bus := lend_wires (rt_bus t) (sp_bus (du_sp w))\<rparr>\<rparr>)"

text \<open>The state before the k-th turn of the SP, the RoT taking \<open>\<sigma> k\<close> turns in between.\<close>

primrec interleaved :: "env \<Rightarrow> env \<Rightarrow> serve_cfg \<Rightarrow> (nat \<Rightarrow> nat) \<Rightarrow> duo \<Rightarrow> nat \<Rightarrow> duo" where
  "interleaved E R cfg \<sigma> w 0 = (rot_turn R cfg ^^ \<sigma> 0) w"
| "interleaved E R cfg \<sigma> w (Suc k) =
     (rot_turn R cfg ^^ \<sigma> (Suc k)) (sp_turn E cfg (interleaved E R cfg \<sigma> w k))"

end
