(* ===== verification/Serve_Props.thy ===== *)
theory Serve_Props
  imports Serve Cpu_Inv Sprot_Props
begin

text \<open>
  What the serve loop guarantees about the two cores: a frozen or halted SP executes nothing, a
  freeze ends, a self-reset reaches the RoT, endoscope time is credited without loss, a request
  clocked in pieces that fit the FIFO is exchanged whole with the shared service, and what a warm reset does to the
  measurement token.
\<close>

unbundle bit_operations_syntax

section \<open>What leaves the instruction count alone\<close>

named_theorems no_insn \<open>operations that execute no instruction\<close>

definition insns :: "target \<Rightarrow> u64" where
  "insns t = (case t of (d, c, b) \<Rightarrow> cycles c)"

lemma insns_pair [simp]: "insns (d, c, b) = cycles c"
  by (simp add: insns_def)

lemma cycles_set_gdb_reg [no_insn]: "cycles (set_gdb_reg c n v) = cycles c"
  by (simp add: set_gdb_reg_def set_r_def set_s_def set_control_def set_psp_def set_msp_def
      set_xpsr_flags_def Let_def)

lemma cycles_reset [no_insn]: "cycles (reset_for_reboot c sp a) = cycles c"
  by (simp add: reset_for_reboot_def cpu_reset_def set_r_def)

lemma cycles_write_dhcsr [no_insn]: "cycles (snd (write_dhcsr d c v)) = cycles c"
  by (simp add: write_dhcsr_def Let_def)

lemma cycles_write_dcrsr [no_insn]: "cycles (snd (write_dcrsr d c v)) = cycles c"
  by (simp add: write_dcrsr_def Let_def no_insn)

lemma insns_do_reset [no_insn]: "insns (do_reset d c b) = cycles c"
  by (simp add: do_reset_def honor_vector_catch_def Let_def split_def no_insn)

lemma insns_mem_write_word [no_insn]: "insns (mem_write_word d c b a v) = cycles c"
  by (simp add: mem_write_word_def split_def Let_def no_insn)

lemma insns_drw_write [no_insn]: "insns (drw_write d c b v) = cycles c"
proof -
  have "cycles (if a < ITCM_HI then invalidate_decode c' a else c') = cycles c'" for a c'
    by (simp add: invalidate_decode_def)
  then show ?thesis
    using insns_mem_write_word [of d c b "tar d" v] by (simp add: drw_write_def Let_def split_def insns_def)
qed

lemma insns_transfer [no_insn]: "insns (snd (transfer t ap rnw a v)) = insns t"
  using insns_drw_write
  by (cases t) (simp add: transfer_def ap_transfer_def split_def Let_def)

lemma insns_run_reqs [no_insn]: "insns (snd (run_reqs qs d t)) = insns t"
  by (induction qs d t rule: run_reqs.induct) (simp_all add: split_def Let_def no_insn)

lemma insns_drain_swd [no_insn]: "insns (drain_swd t) = insns t"
  using insns_run_reqs
  by (cases t) (simp add: drain_swd_def swd_drain_def split_def Let_def insns_def split: option.split)

lemma insns_release_reset [no_insn]: "insns (release_reset t) = insns t"
  by (cases t) (simp add: release_reset_def pin_reset_def no_insn)

lemma cycles_tick_couple [no_insn]: "cycles (snd (tick_couple cfg f sh (s, c))) = cycles c"
  by (simp add: tick_couple_def Let_def)

lemma cycles_rot_couple [no_insn]: "cycles (sp_cpu (fst (rot_couple cfg edge (t, sh)))) = cycles (sp_cpu t)"
  using insns_release_reset insns_drain_swd
  by (simp add: rot_couple_def Let_def split_def cycles_tick_couple [unfolded split_def] insns_def no_insn)

section \<open>A frozen SP\<close>

lemma burst_frozen:
  "ss_servicing (sp_state t) \<or> halted (sp_cpu t) \<Longrightarrow> burst_len cfg t = 0"
  by (auto simp: burst_len_def sp_burst_for_def)

lemma sp_run_frozen:
  assumes "ss_servicing (sp_state t) \<or> halted (sp_cpu t)" and "\<not> reset_pending (sp_bus t)"
  shows "fst (sp_run E cfg t) = False \<and> sp_cpu (snd (sp_run E cfg t)) = sp_cpu t \<and>
    sp_state (snd (sp_run E cfg t)) = sp_state t"
  using assms burst_frozen [OF assms(1), of cfg] by (simp add: sp_run_def split_def Let_def)

lemma idle_check_keeps [simp]:
  "sp_state (idle_check t) = sp_state t" "cycles (sp_cpu (idle_check t)) = cycles (sp_cpu t)"
  by (simp_all add: idle_check_def)

lemma irq_edge_keeps [simp]:
  "ss_servicing (fst (rot_irq_edge (s, b))) = ss_servicing s" "ss_iters (fst (rot_irq_edge (s, b))) = ss_iters s"
  by (simp_all add: rot_irq_edge_def Let_def)

lemma endoscope_couple_keeps [simp]:
  "ss_servicing (fst (endoscope_couple cfg c (s, sh))) = ss_servicing s"
  "ss_iters (fst (endoscope_couple cfg c (s, sh))) = ss_iters s"
  by (simp_all add: endoscope_couple_def Let_def split_def)

lemma tick_couple_keeps [simp]:
  "ss_servicing (fst (tick_couple cfg f sh (s, c))) = ss_servicing s"
  "ss_iters (fst (tick_couple cfg f sh (s, c))) = ss_iters s"
  by (simp_all add: tick_couple_def Let_def)

lemma trigger_jtag_keeps [simp]:
  "ss_servicing (fst (trigger_jtag cfg (s, b))) = ss_servicing s"
  "ss_iters (fst (trigger_jtag cfg (s, b))) = ss_iters s"
  by (simp_all add: trigger_jtag_def)

text \<open>Without a new reset the counter goes down by one, or the freeze is over.\<close>

lemma rot_couple_counts:
  assumes "ss_servicing (sp_state t)" and "0 < ss_iters (sp_state t)"
    and "s' = sp_state (fst (rot_couple cfg False (t, sh)))"
  shows "ss_servicing s' \<Longrightarrow> ss_iters s' = ss_iters (sp_state t) - 1 \<and> 0 < ss_iters (sp_state t) - 1"
  using assms
  by (auto simp: rot_couple_def Let_def split_def hand_over_reset_def enter_sp_reset_service_def
      continue_sp_reset_service_def word_neq_0_conv split: if_splits)

lemma sp_turn_frozen:
  assumes "ss_servicing (sp_state (du_sp w))" and "\<not> reset_pending (sp_bus (du_sp w))"
    and "0 < ss_iters (sp_state (du_sp w))" and "w' = sp_turn E cfg w"
  shows "cycles (sp_cpu (du_sp w')) = cycles (sp_cpu (du_sp w))"
    and "ss_servicing (sp_state (du_sp w')) \<Longrightarrow>
      ss_iters (sp_state (du_sp w')) = ss_iters (sp_state (du_sp w)) - 1 \<and> 0 < ss_iters (sp_state (du_sp w)) - 1"
proof -
  let ?t = "snd (sp_run E cfg (du_sp w))"
  have r: "fst (sp_run E cfg (du_sp w)) = False" "sp_cpu ?t = sp_cpu (du_sp w)" "sp_state ?t = sp_state (du_sp w)"
    using sp_run_frozen [of "du_sp w" E cfg] assms(1,2) by auto
  have i: "sp_iter E cfg Rot_Core (du_sp w, sh) =
      (let (t2, sh2) = rot_couple cfg False (?t, sh); (s, b) = rot_irq_edge (sp_state t2, sp_bus t2)
       in (idle_check (t2\<lparr>sp_state := s, sp_bus := b\<rparr>), sh2))" for sh
    by (simp add: sp_iter_def split_def Let_def r(1))
  show "cycles (sp_cpu (du_sp w')) = cycles (sp_cpu (du_sp w))"
    by (simp add: assms(4) sp_turn_def i split_def Let_def r(2) cycles_rot_couple)
  show "ss_iters (sp_state (du_sp w')) = ss_iters (sp_state (du_sp w)) - 1 \<and> 0 < ss_iters (sp_state (du_sp w)) - 1"
    if "ss_servicing (sp_state (du_sp w'))"
    using that rot_couple_counts [of ?t _ cfg "du_shared w"] assms(1,3)
    by (simp add: assms(4) sp_turn_def i split_def Let_def r(3))
qed

lemma rot_turns_keep [simp]:
  "sp_state (du_sp ((rot_turn R cfg ^^ n) w)) = sp_state (du_sp w)"
  "sp_cpu (du_sp ((rot_turn R cfg ^^ n) w)) = sp_cpu (du_sp w)"
  by (induction n) (simp_all add: rot_turn_def split_def Let_def)

text \<open>
  C22: Freezing the SP at its reset vector ends, and until then the SP executes nothing: however
  many turns the RoT takes in between and whatever it does on the wires, after at most
  \<open>ss_iters\<close> turns of the SP thread (1000 from the start) the freeze is over or the SP has been
  reset once more, and up to there not one instruction has retired.
\<close>

theorem freeze_ends:
  assumes "ss_servicing (sp_state (du_sp w))" and "0 < ss_iters (sp_state (du_sp w))"
    and "W = interleaved E R cfg \<sigma> w"
  shows "\<exists>k \<le> unat (ss_iters (sp_state (du_sp w))).
    (\<not> ss_servicing (sp_state (du_sp (W k))) \<or> reset_pending (sp_bus (du_sp (W k)))) \<and>
    (\<forall>j \<le> k. cycles (sp_cpu (du_sp (W j))) = cycles (sp_cpu (du_sp w)))"
proof (rule ccontr)
  let ?n = "unat (ss_iters (sp_state (du_sp w)))"
  assume "\<not> ?thesis"
  then have no: "ss_servicing (sp_state (du_sp (W k))) \<and> \<not> reset_pending (sp_bus (du_sp (W k)))"
    if "k \<le> ?n" "\<forall>j \<le> k. cycles (sp_cpu (du_sp (W j))) = cycles (sp_cpu (du_sp w))" for k
    using that by blast
  have "(\<forall>j \<le> k. cycles (sp_cpu (du_sp (W j))) = cycles (sp_cpu (du_sp w))) \<and>
    unat (ss_iters (sp_state (du_sp (W k)))) + k = ?n \<and> 0 < ss_iters (sp_state (du_sp (W k)))" if "k \<le> ?n" for k
    using that
  proof (induction k)
    case 0
    then show ?case using assms(2) by (simp add: assms(3))
  next
    case (Suc k)
    let ?w = "W k"
    from Suc have ih: "\<forall>j \<le> k. cycles (sp_cpu (du_sp (W j))) = cycles (sp_cpu (du_sp w))"
      "unat (ss_iters (sp_state (du_sp ?w))) + k = ?n" "0 < ss_iters (sp_state (du_sp ?w))" by auto
    with no [of k] Suc.prems have f: "ss_servicing (sp_state (du_sp ?w))" "\<not> reset_pending (sp_bus (du_sp ?w))" by auto
    note st = sp_turn_frozen [OF f ih(3) refl, of E cfg]
    have c: "\<forall>j \<le> Suc k. cycles (sp_cpu (du_sp (W j))) = cycles (sp_cpu (du_sp w))"
      using ih(1) st(1) by (auto simp: assms(3) le_Suc_eq)
    have "ss_servicing (sp_state (du_sp (sp_turn E cfg ?w)))"
      using no [OF Suc.prems c] by (simp add: assms(3))
    then have "ss_iters (sp_state (du_sp (W (Suc k)))) = ss_iters (sp_state (du_sp ?w)) - 1"
      "0 < ss_iters (sp_state (du_sp (W (Suc k))))"
      using st(2) by (auto simp: assms(3))
    moreover have "0 < unat (ss_iters (sp_state (du_sp ?w)))" using ih(3) by (simp add: unat_gt_0 word_neq_0_conv)
    moreover have "unat (ss_iters (sp_state (du_sp ?w)) - 1) = unat (ss_iters (sp_state (du_sp ?w))) - 1"
      using ih(3) by (intro unat_minus_one) auto
    ultimately show ?case using c ih(2) by auto
  qed
  from this [of ?n] have "unat (ss_iters (sp_state (du_sp (W ?n)))) = 0" "0 < ss_iters (sp_state (du_sp (W ?n)))"
    by auto
  then show False by (simp add: unat_eq_0)
qed

definition plain_thread :: sp_thread where
  "plain_thread = \<lparr>sp_state = serve_new cpu_new, sp_port = swdp_new, sp_cpu = cpu_new, sp_bus = bus_new,
     sp_host = \<lparr>host_eth_out = [], host_eth_in = [], host_uart_out = [], host_uart_in = []\<rparr>\<rparr>"

definition frozen_duo :: duo where
  "frozen_duo =
     \<lparr>du_sp = plain_thread\<lparr>sp_state := (serve_new cpu_new)\<lparr>ss_servicing := True, ss_iters := SP_RESET_HALT_ITERS\<rparr>\<rparr>,
      du_rot = \<lparr>rt_cpu = cpu_new, rt_bus = bus_new, rt_swd_triggered = False\<rparr>,
      du_shared = rot_shared_new\<rparr>"

definition plain_cfg :: serve_cfg where
  "plain_cfg = \<lparr>sc_quantum = 340, sc_txbreak = True, sc_sprot_couple = True, sc_endo_couple = True,
     sc_clock_khz = 64000, sc_jtag_trigger = False, sc_swd_trigger = False\<rparr>"

theorem freeze_ends_witness:
  "\<exists>k \<le> 1000. \<not> ss_servicing (sp_state (du_sp (interleaved bx_lr bx_lr plain_cfg (\<lambda>_. 2) frozen_duo k))) \<or>
     reset_pending (sp_bus (du_sp (interleaved bx_lr bx_lr plain_cfg (\<lambda>_. 2) frozen_duo k)))"
  using freeze_ends [of frozen_duo _ bx_lr bx_lr plain_cfg "\<lambda>_. 2", OF _ _ refl]
  by (simp add: frozen_duo_def plain_thread_def) blast

section \<open>A self-reset reaches the RoT\<close>

text \<open>The PINT register where the RoT's bus has it: in a plain register file.\<close>

definition pint_at :: "bus \<Rightarrow> nat \<Rightarrow> u32 \<Rightarrow> regmap \<Rightarrow> bool" where
  "pint_at b i off m =
     (fold_addr b JTAG_DETECT_PINT_REG = JTAG_DETECT_PINT_REG \<and> \<not> intercepted b JTAG_DETECT_PINT_REG \<and>
      ram_for b JTAG_DETECT_PINT_REG 4 = None \<and> dev_for b JTAG_DETECT_PINT_REG = Some (i, off) \<and>
      i < length (devs b) \<and> dv_dev (devs b ! i) = Dev_RegFile m \<and> \<not> bus_rec b)"

lemma pint_at_frame:
  assumes "rams b' = rams b" "devs b' = devs b" "sp_flash b' = sp_flash b" "rotfl b' = rotfl b"
    "rom_enabled b' = rom_enabled b" "secure_alias b' = secure_alias b" "bus_rec b' = bus_rec b"
  shows "pint_at b' i off m = pint_at b i off m"
  using assms by (simp add: pint_at_def fold_addr_def intercepted_def ram_for_def dev_for_def)

lemma pint_pend [simp]: "pint_at (pend_irq b n) i off m = pint_at b i off m"
  by (rule pint_at_frame) (simp_all add: pend_irq_def)

lemma pint_link [simp]: "pint_at (map_link f b) i off m = pint_at b i off m"
  by (rule pint_at_frame) (simp_all add: map_link_def)

lemma pint_lend [simp]: "pint_at (lend_wires src b) i off m = pint_at b i off m"
  by (rule pint_at_frame) (simp_all add: lend_wires_def)

lemma dev_find_cong:
  "map dv_base ds = map dv_base ds' \<Longrightarrow> map dv_size ds = map dv_size ds' \<Longrightarrow> dev_find k ds a = dev_find k ds' a"
proof (induction ds arbitrary: ds' k)
  case (Cons d ds)
  then show ?case by (cases ds') auto
qed simp

lemma read32_pint:
  assumes "pint_at b i off m"
  shows "fst (read32 b JTAG_DETECT_PINT_REG) = reg_get m (off AND NOT 3)"
    and "\<exists>b'. snd (read32 b JTAG_DETECT_PINT_REG) = b' \<and> pint_at b' i off m \<and> shared_io b' = shared_io b \<and>
      nvic_pend b' = nvic_pend b \<and> nvic_en b' = nvic_en b"
proof -
  have r: "read32 b JTAG_DETECT_PINT_REG = device_read b i off"
    using assms by (simp add: pint_at_def read32_not_intercepted read32_tail_def in_range_def)
  have s: "devs b ! i = (devs b ! i)\<lparr>dv_dev := Dev_RegFile m\<rparr>" using assms by (simp add: pint_at_def)
  show "fst (read32 b JTAG_DETECT_PINT_REG) = reg_get m (off AND NOT 3)"
    unfolding r using assms by (simp add: pint_at_def device_read_def regfile_read_def Let_def word_bw_assocs)
  have u: "(devs b)[i := (devs b ! i)\<lparr>dv_dev := Dev_RegFile m\<rparr>] = devs b"
    by (metis s list_update_id)
  let ?b = "snd (device_read b i off)"
  have d: "?b = b\<lparr>mmio_hit := True, dev_touched := True, shared_io := shared_io b,
      devs := (devs b)[i := (devs b ! i)\<lparr>dv_dev := Dev_RegFile m\<rparr>]\<rparr>"
    using assms by (simp add: pint_at_def device_read_def Let_def)
  have "pint_at ?b i off m"
    using assms pint_at_frame [of ?b b] unfolding d u by simp
  then show "\<exists>b'. snd (read32 b JTAG_DETECT_PINT_REG) = b' \<and> pint_at b' i off m \<and> shared_io b' = shared_io b \<and>
      nvic_pend b' = nvic_pend b \<and> nvic_en b' = nvic_en b"
    unfolding r by (simp add: d)
qed

lemma write32_pint:
  assumes "pint_at b i off m"
  shows "\<exists>b'. write32 b JTAG_DETECT_PINT_REG v = b' \<and> pint_at b' i off (m(off AND NOT 3 \<mapsto> v)) \<and>
    shared_io b' = shared_io b \<and> nvic_pend b' = nvic_pend b \<and> nvic_en b' = nvic_en b"
proof -
  let ?b = "b\<lparr>mmio_hit := True, dev_touched := True,
    devs := (devs b)[i := (devs b ! i)\<lparr>dv_dev := Dev_RegFile (m(off AND NOT 3 \<mapsto> v))\<rparr>]\<rparr>"
  have w: "write32 b JTAG_DETECT_PINT_REG v = ?b"
    using assms by (simp add: pint_at_def write32_def write32_not_intercepted write32_tail_def in_range_def
        rec_write_def device_write_def regfile_write_def Let_def word_bw_assocs)
  have "map dv_base (devs ?b) = map dv_base (devs b)" "map dv_size (devs ?b) = map dv_size (devs b)"
    using assms by (simp_all add: pint_at_def map_update_same)
  then have "dev_for ?b JTAG_DETECT_PINT_REG = dev_for b JTAG_DETECT_PINT_REG"
    unfolding dev_for_def by (rule dev_find_cong)
  then have "pint_at ?b i off (m(off AND NOT 3 \<mapsto> v))"
    using assms by (simp add: pint_at_def fold_addr_def intercepted_def ram_for_def)
  then show ?thesis unfolding w by simp
qed

text \<open>Pending interrupts only accumulate on the way to the RoT's instructions.\<close>

lemma pend_irq_en [simp]: "nvic_en (pend_irq b n) = nvic_en b" "shared_io (pend_irq b n) = shared_io b"
  by (simp_all add: pend_irq_def)

lemma map_link_frame [simp]:
  "nvic_en (map_link f b) = nvic_en b" "nvic_pend (map_link f b) = nvic_pend b"
  "link_is P (map_link f b) = link_is (P \<circ> f) b"
  by (auto simp: map_link_def link_is_def link_of_def split: option.split)

lemma inject_jtag:
  assumes "pint_at b i off m"
  shows "\<exists>b' m'. snd (inject_jtag_detect b) = b' \<and> pint_at b' i off m' \<and> shared_io b' = shared_io b \<and>
    nvic_en b' = nvic_en b \<and> (\<forall>w n. bit (nvic_pend b w) n \<longrightarrow> bit (nvic_pend b' w) n) \<and>
    (bit (reg_get m (off AND NOT 3)) 0 \<longrightarrow> bit (reg_get m' (off AND NOT 3)) 0) \<and>
    (fst (inject_jtag_detect b) \<longrightarrow> irq_enabled b JTAG_DETECT_IRQ)"
proof -
  obtain b1 where b1: "snd (read32 b JTAG_DETECT_PINT_REG) = b1" "pint_at b1 i off m" "shared_io b1 = shared_io b"
    "nvic_pend b1 = nvic_pend b" "nvic_en b1 = nvic_en b"
    using read32_pint(2) [OF assms] by blast
  let ?v = "reg_get m (off AND NOT 3) OR JTAG_DETECT_PINT_BIT"
  obtain b2 where b2: "write32 b1 JTAG_DETECT_PINT_REG ?v = b2" "pint_at b2 i off (m(off AND NOT 3 \<mapsto> ?v))"
    "shared_io b2 = shared_io b1" "nvic_pend b2 = nvic_pend b1" "nvic_en b2 = nvic_en b1"
    using write32_pint [OF b1(2)] by blast
  show ?thesis
  proof (cases "irq_enabled b JTAG_DETECT_IRQ")
    case True
    then have e: "inject_jtag_detect b = (True, pend_irq b2 JTAG_DETECT_IRQ)"
      using b1(1) b2(1) read32_pint(1) [OF assms] by (simp add: inject_jtag_detect_def split_def Let_def)
    show ?thesis
      using b2(2) by (intro exI [of _ "pend_irq b2 JTAG_DETECT_IRQ"] exI [of _ "m(off AND NOT 3 \<mapsto> ?v)"])
        (simp add: e True b2 b1 pend_irq_bits reg_get_def bit_or_iff)
  next
    case False
    then show ?thesis using assms by (intro exI [of _ b] exI [of _ m]) (simp add: inject_jtag_detect_def)
  qed
qed

text \<open>A JTAG edge handled after the reset edge leaves the reset pended and latched.\<close>

lemma jtag_edge_keeps_reset:
  assumes p: "pint_at b i off m" and n: "bit (nvic_pend b 0) 4"
    and l: "link_of b = Some l" and reset: "\<not> sp_reset_pint l" "bit (reg_get m (off AND NOT 3)) 0"
  obtains m' where "pint_at (rot_jtag_edge j b) i off m'" "bit (reg_get m' (off AND NOT 3)) 0"
    "bit (nvic_pend (rot_jtag_edge j b) 0) 4" "\<exists>l. link_of (rot_jtag_edge j b) = Some l \<and> \<not> sp_reset_pint l"
proof (cases j)
  case False
  then show thesis using that [of m] assms by (simp add: rot_jtag_edge_def)
next
  case True
  obtain b5 m5 where b5: "snd (inject_jtag_detect b) = b5" "pint_at b5 i off m5" "shared_io b5 = shared_io b"
    "\<forall>w n. bit (nvic_pend b w) n \<longrightarrow> bit (nvic_pend b5 w) n" "bit (reg_get m5 (off AND NOT 3)) 0"
    using inject_jtag [OF p] reset(2) by auto
  have e: "rot_jtag_edge j b = (if fst (inject_jtag_detect b) then map_link (\<lambda>l. l\<lparr>jtag_pint := False\<rparr>) b5 else b5)"
    using True b5(1) by (cases "inject_jtag_detect b") (auto simp: rot_jtag_edge_def split: bool.split)
  have "link_of b5 = Some l" using b5(3) l by (simp add: link_of_def)
  then have "\<exists>l. link_of (rot_jtag_edge j b) = Some l \<and> \<not> sp_reset_pint l"
    using reset(1) by (simp add: e link_of_def map_link_def)
  moreover have "pint_at (rot_jtag_edge j b) i off m5" using b5(2) by (simp add: e)
  moreover have "bit (nvic_pend (rot_jtag_edge j b) 0) 4" using b5(4) n by (simp add: e)
  ultimately show thesis using that b5(5) by blast
qed

text \<open>
  C23: A self-reset the SP makes is not lost on the RoT: once the SP thread has handed the edge
  over, the RoT thread's next pass has consumed it, latched the edge in its PINT register and
  pended interrupt 4, so that a RoT that has armed SP_RESET takes it before any instruction;
  and if the RoT was armed and the SP not caught, the SP stays frozen meanwhile.
\<close>

theorem self_reset_reaches_rot:
  assumes "link_of b \<noteq> None" and "pint_at (rt_bus rt) i off m"
    and "hand_over_reset True is_armed c (s, b) = (s', b')"
    and "rot_events trig (rt\<lparr>rt_bus := lend_wires b' (rt_bus rt)\<rparr>, sh) = (t1, sh1)"
  shows "(\<exists>l. link_of (rt_bus t1) = Some l \<and> \<not> sp_reset_pint l) \<and>
    bit (fst (read32 (rt_bus t1) JTAG_DETECT_PINT_REG)) 0 \<and> bit (nvic_pend (rt_bus t1) 0) 4 \<and>
    (rs_armed sh1 \<longrightarrow> irq_active (rt_bus t1) 4) \<and>
    ss_servicing s' = (is_armed \<and> \<not> halted c \<or> ss_servicing s)"
proof -
  let ?b0 = "lend_wires b' (rt_bus rt)"
  obtain l where l: "link_of b = Some l" using assms(1) by auto
  have b': "b' = map_link (\<lambda>l. l\<lparr>sp_reset_pint := True\<rparr>) b" and s':
    "ss_servicing s' = (is_armed \<and> \<not> halted c \<or> ss_servicing s)"
    using assms(3) by (auto simp: hand_over_reset_def enter_sp_reset_service_def split: if_splits)
  have l0: "link_of ?b0 = Some (l\<lparr>sp_reset_pint := True\<rparr>)"
    using l by (simp add: b' lend_wires_def map_link_def link_of_def)
  let ?b1 = "map_link (\<lambda>l. l\<lparr>sp_reset_pint := False\<rparr>) ?b0"
  have p1: "pint_at ?b1 i off m" using assms(2) by simp
  obtain b2 where b2: "write32 ?b1 JTAG_DETECT_PINT_REG SP_RESET_PINT_BIT = b2"
    "pint_at b2 i off (m(off AND NOT 3 \<mapsto> SP_RESET_PINT_BIT))" "shared_io b2 = shared_io ?b1"
    "nvic_pend b2 = nvic_pend ?b1" "nvic_en b2 = nvic_en ?b1"
    using write32_pint [OF p1] by blast
  let ?b3 = "pend_irq b2 4"
  have p3: "pint_at ?b3 i off (m(off AND NOT 3 \<mapsto> SP_RESET_PINT_BIT))" using b2(2) by simp
  have n3: "bit (nvic_pend ?b3 0) 4" by (simp add: pend_irq_bits)
  have l3: "link_of ?b3 = Some (l\<lparr>sp_reset_pint := False\<rparr>)"
    using b2(3) l0 by (simp add: link_of_def map_link_def)
  let ?b4 = "rot_jtag_edge (link_is jtag_pint ?b0) ?b3"
  obtain m4 where m4: "pint_at ?b4 i off m4" "bit (reg_get m4 (off AND NOT 3)) 0"
    "bit (nvic_pend ?b4 0) 4" "\<exists>l. link_of ?b4 = Some l \<and> \<not> sp_reset_pint l"
    by (rule jtag_edge_keeps_reset [OF p3 n3 l3]) (simp_all add: reg_get_def)
  have t1: "rt_bus t1 = (if link_is rot_exchange_active ?b0 then pend_irq ?b4 59 else ?b4)"
    and sh1: "rs_armed sh1 = irq_enabled ?b4 4"
    using assms(4) b2(1) l0
    by (auto simp: rot_events_def rot_reset_edge_def Let_def link_is_def split: if_splits)
  have "pint_at (rt_bus t1) i off m4" using m4(1) by (simp add: t1)
  moreover have "bit (nvic_pend (rt_bus t1) 0) 4" using m4(3) by (simp add: t1 pend_irq_bits)
  moreover have "link_of (rt_bus t1) = link_of ?b4" by (simp add: t1 link_of_def)
  moreover have "nvic_en (rt_bus t1) = nvic_en ?b4" by (simp add: t1)
  ultimately show ?thesis
    using m4(2,4) read32_pint(1) [of "rt_bus t1" i off m4] s' sh1
    by (simp add: irq_active_def irq_enabled_def)
qed

text \<open>The built RoT board has the register there.\<close>

lemma rot_board_pint:
  assumes "length (bd_cdi k) = 8"
  shows "\<exists>i off m. pint_at ((rot_board k l s)\<lparr>rotfl := f\<rparr>) i off m"
proof -
  have "list_all (\<lambda>(a, v). seeded a) (rot_seeds k)"
    using assms by (auto simp: rot_seeds_def seeded_def list_all_iff in_set_enumerate_eq word_le_nat_alt
        word_less_nat_alt unat_word_ariths unat_of_nat)
  then obtain b where b: "rot_plain b" "rot_board k l s = rot_regs_bus b (rot_windows k (l \<noteq> None) (s \<noteq> None))
      (lo_after Map.empty (rot_seeds k)) (ns_after Map.empty (rot_seeds k))"
    using rot_board_regs [of k l s] by blast
  let ?b = "rot_regs_bus (b\<lparr>rotfl := f\<rparr>) (rot_windows k (l \<noteq> None) (s \<noteq> None))
      (lo_after Map.empty (rot_seeds k)) (ns_after Map.empty (rot_seeds k))"
  have e: "(rot_board k l s)\<lparr>rotfl := f\<rparr> = ?b" unfolding b(2) by (simp add: rot_regs_bus_def)
  have p: "rot_plain ?b" using b(1) by (simp add: rot_plain_def rot_regs_bus_def)
  obtain r1 r2 where r: "rams ?b = [r1, r2]" using p by (auto simp: rot_plain_def map_eq_Cons_conv)
  have w: "list_all (\<lambda>(base, n, d). \<not> (base \<le> JTAG_DETECT_PINT_REG \<and> JTAG_DETECT_PINT_REG < base + n))
      (rot_windows k q1 q2)" for q1 q2
    by (cases q1; cases q2) (simp_all add: rot_windows_def)
  have "dev_for ?b JTAG_DETECT_PINT_REG = Some (length (rot_windows k (l \<noteq> None) (s \<noteq> None)), 0x4020)"
    using w by (simp add: dev_for_def rot_regs_bus_def dev_find_skip slot_of_def)
  moreover have "ram_for ?b JTAG_DETECT_PINT_REG 4 = None"
    using p r by (auto simp: ram_for_def rot_plain_def)
  moreover have "\<not> intercepted ?b JTAG_DETECT_PINT_REG"
    using p by (auto simp: intercepted_def rot_plain_def in_range_def)
  ultimately have "pint_at ?b (length (rot_windows k (l \<noteq> None) (s \<noteq> None))) 0x4020 (lo_after Map.empty (rot_seeds k))"
    using p by (simp add: pint_at_def fold_addr_def rot_plain_def)
      (simp add: rot_regs_bus_def nth_append slot_of_def)
  then show ?thesis unfolding e by blast
qed

definition linked_bus :: bus where
  "linked_bus = bus_new\<lparr>shared_io := soc_new\<lparr>sh_link := Some link_default\<rparr>\<rparr>"

theorem self_reset_reaches_rot_witness:
  "\<exists>s' b' t1 sh1.
     hand_over_reset True True cpu_new (serve_new cpu_new, linked_bus) = (s', b') \<and>
     rot_events False (\<lparr>rt_cpu = cpu_new, rt_bus = lend_wires b' (rot_board plain_board (Some link_default) None),
       rt_swd_triggered = False\<rparr>, rot_shared_new) = (t1, sh1) \<and>
     bit (nvic_pend (rt_bus t1) 0) 4 \<and> ss_servicing s'"
proof -
  let ?B = "rot_board plain_board (Some link_default) None"
  let ?rt = "\<lparr>rt_cpu = cpu_new, rt_bus = ?B, rt_swd_triggered = False\<rparr>"
  obtain i off m where p: "pint_at (?B\<lparr>rotfl := rotfl ?B\<rparr>) i off m"
    using rot_board_pint [where k = plain_board and l = "Some link_default" and s = None and f = "rotfl ?B"] by (auto simp: plain_board_def)
  obtain s' b' where h: "hand_over_reset True True cpu_new (serve_new cpu_new, linked_bus) = (s', b')"
    by (cases "hand_over_reset True True cpu_new (serve_new cpu_new, linked_bus)")
  obtain t1 sh1 where e: "rot_events False (?rt\<lparr>rt_bus := lend_wires b' (rt_bus ?rt)\<rparr>, rot_shared_new) = (t1, sh1)"
    by (cases "rot_events False (?rt\<lparr>rt_bus := lend_wires b' (rt_bus ?rt)\<rparr>, rot_shared_new)")
  have "bit (nvic_pend (rt_bus t1) 0) 4 \<and> ss_servicing s'"
    using self_reset_reaches_rot [OF _ _ h e, of i off m] p
    by (simp add: linked_bus_def link_of_def cpu_new_def)
  then show ?thesis using h e by auto
qed

text \<open>
  The two edges share the PINT register, but the SP_RESET edge overwrites it: a JTAG_DETECT
  edge latched in an earlier pass and not yet handled is lost when the SP resets itself.
\<close>

theorem reset_edge_drops_jtag:
  assumes "pint_at (rt_bus t) i off m" and "bit (fst (read32 (rt_bus t) JTAG_DETECT_PINT_REG)) 1"
    and "link_is sp_reset_pint (rt_bus t)"
  shows "fst (read32 (rt_bus (rot_reset_edge trig t)) JTAG_DETECT_PINT_REG) = SP_RESET_PINT_BIT"
proof -
  let ?b1 = "map_link (\<lambda>l. l\<lparr>sp_reset_pint := False\<rparr>) (rt_bus t)"
  have "pint_at ?b1 i off m" using assms(1) by simp
  from write32_pint [OF this, of SP_RESET_PINT_BIT]
  have "pint_at (rt_bus (rot_reset_edge trig t)) i off (m(off AND NOT 3 \<mapsto> SP_RESET_PINT_BIT))"
    using assms(3) by (auto simp: rot_reset_edge_def Let_def)
  then show ?thesis using read32_pint(1) by (fastforce simp: reg_get_def)
qed

theorem reset_edge_drops_jtag_witness:
  "let b = map_link (\<lambda>l. l\<lparr>sp_reset_pint := True\<rparr>)
        (write32 (add_device linked_bus 0x40000000 0x34000 (Dev_RegFile Map.empty)) JTAG_DETECT_PINT_REG 2) in
   fst (read32 b JTAG_DETECT_PINT_REG) = 2 \<and>
   fst (read32 (rt_bus (rot_reset_edge False \<lparr>rt_cpu = cpu_new, rt_bus = b, rt_swd_triggered = False\<rparr>))
     JTAG_DETECT_PINT_REG) = 1"
proof -
  let ?b0 = "add_device linked_bus 0x40000000 0x34000 (Dev_RegFile Map.empty)"
  let ?b1 = "write32 ?b0 JTAG_DETECT_PINT_REG 2"
  have "pint_at ?b0 0 0x4020 Map.empty"
    by (simp add: pint_at_def add_device_def linked_bus_def bus_new_def fold_addr_def intercepted_def in_range_def
        ram_for_def dev_for_def)
  then obtain b1 where b1: "?b1 = b1" "pint_at b1 0 0x4020 [0x4020 \<mapsto> 2]" "shared_io b1 = shared_io ?b0"
    using write32_pint [of ?b0 0 "0x4020" Map.empty 2] by auto
  let ?b = "map_link (\<lambda>l. l\<lparr>sp_reset_pint := True\<rparr>) b1"
  have p: "pint_at ?b 0 0x4020 [0x4020 \<mapsto> 2]" using b1(2) by simp
  have v: "fst (read32 ?b JTAG_DETECT_PINT_REG) = 2" using read32_pint(1) [OF p] by (simp add: reg_get_def)
  have "link_is sp_reset_pint ?b"
    using b1(3) by (simp add: link_is_def map_link_def link_of_def add_device_def linked_bus_def bus_new_def)
  then have "fst (read32 (rt_bus (rot_reset_edge False \<lparr>rt_cpu = cpu_new, rt_bus = ?b, rt_swd_triggered = False\<rparr>))
      JTAG_DETECT_PINT_REG) = SP_RESET_PINT_BIT"
    using p v
    by (intro reset_edge_drops_jtag [of "\<lparr>rt_cpu = cpu_new, rt_bus = ?b, rt_swd_triggered = False\<rparr>" 0 "0x4020"]) simp_all
  with v show ?thesis by (simp add: b1(1))
qed

section \<open>Endoscope time\<close>

text \<open>The credits of consecutive iterations, the fraction carried from one to the next.\<close>

fun credits :: "u64 \<Rightarrow> u64 list \<Rightarrow> u64 \<Rightarrow> u32 \<Rightarrow> u32 list \<times> u64" where
  "credits acc [] divisor cap = ([], acc)"
| "credits acc (d # ds) divisor cap =
     (let (ms, acc1) = endoscope_credit acc d divisor cap; (mss, acc2) = credits acc1 ds divisor cap
      in (ms # mss, acc2))"

lemma credit_step:
  assumes "0 < divisor" and "unat acc + unat d < 2 ^ 64"
    and "(unat acc + unat d) div unat divisor \<le> unat cap"
  shows "unat (fst (endoscope_credit acc d divisor cap)) = (unat acc + unat d) div unat divisor"
    and "unat (snd (endoscope_credit acc d divisor cap)) = (unat acc + unat d) mod unat divisor"
proof -
  have t: "unat (acc + d) = unat acc + unat d" using assms(2) by (simp add: unat_word_ariths)
  have q: "unat ((acc + d) div divisor) = (unat acc + unat d) div unat divisor" by (simp add: unat_div t)
  have l: "unat cap < 2 ^ 32" using unsigned_less [of cap] by simp
  have c: "unat (ucast cap :: u64) = unat cap"
    using l by (simp add: unsigned_ucast_eq take_bit_nat_eq_self)
  have "(acc + d) div divisor \<le> ucast cap" using assms(3) by (simp add: word_le_nat_alt q c)
  moreover have "unat (ucast ((acc + d) div divisor) :: u32) = (unat acc + unat d) div unat divisor"
    using assms(3) l by (simp add: unsigned_ucast_eq take_bit_nat_eq_self q)
  ultimately show "unat (fst (endoscope_credit acc d divisor cap)) = (unat acc + unat d) div unat divisor"
    by (simp add: endoscope_credit_def Let_def min_def)
  show "unat (snd (endoscope_credit acc d divisor cap)) = (unat acc + unat d) mod unat divisor"
    by (simp add: endoscope_credit_def Let_def unat_mod t)
qed

text \<open>
  No endoscope time is lost or invented: with bursts of at most 65536 instructions and a
  clock of at least 1000 instructions per millisecond, the milliseconds credited over any run of
  iterations and the fraction still carried account for exactly the instructions retired.
\<close>

theorem endoscope_credit_exact:
  assumes "1000 \<le> divisor" and "acc < divisor" and "\<forall>d \<in> set ds. d \<le> 65536"
    and "length ds < 2 ^ 40" and "divisor < 2 ^ 33"
    and "credits acc ds divisor CREDIT_CAP = (mss, acc')"
  shows "sum_list (map unat mss) * unat divisor + unat acc' = unat acc + sum_list (map unat ds) \<and> acc' < divisor"
  using assms(2,3,6)
proof (induction ds arbitrary: acc mss)
  case (Cons d ds)
  have dv: "1000 \<le> unat divisor" "unat divisor < 2 ^ 33" "unat acc < unat divisor" "unat d \<le> 65536"
    using assms(1,5) Cons.prems by (simp_all add: word_le_nat_alt word_less_nat_alt)
  have lt: "unat acc + unat d < 2 ^ 64" using dv by simp
  have "(unat acc + unat d) div unat divisor \<le> (unat divisor + 65536) div unat divisor"
    using dv by (intro div_le_mono) simp
  also have "\<dots> = 65536 div unat divisor + 1" using dv(1) by (subst div_add_self1) auto
  also have "\<dots> \<le> 65536 div 1000 + 1" using div_le_mono2 [of 1000 "unat divisor" 65536] dv(1) by simp
  finally have cap: "(unat acc + unat d) div unat divisor \<le> unat CREDIT_CAP" by simp
  have pos: "0 < divisor" using dv(1) by (simp add: word_less_nat_alt)
  note st = credit_step [OF pos lt cap]
  obtain ms acc1 where e: "endoscope_credit acc d divisor CREDIT_CAP = (ms, acc1)" by fastforce
  obtain mss1 acc2 where r: "credits acc1 ds divisor CREDIT_CAP = (mss1, acc2)" by fastforce
  have a1: "unat acc1 = (unat acc + unat d) mod unat divisor" "unat ms = (unat acc + unat d) div unat divisor"
    using st e by simp_all
  then have "acc1 < divisor" using pos by (simp add: word_less_nat_alt)
  then have ih: "sum_list (map unat mss1) * unat divisor + unat acc2 = unat acc1 + sum_list (map unat ds)" "acc2 < divisor"
    using Cons.IH [of acc1 mss1] Cons.prems(2) r Cons.prems(3) e by auto
  have "unat ms * unat divisor + unat acc1 = unat acc + unat d"
    by (simp add: a1 mult.commute)
  then show ?case using ih Cons.prems(3) e r by (auto simp: algebra_simps)
qed simp

theorem endoscope_credit_exact_witness:
  "fst (credits 0 [400, 900, 65536] 1000 CREDIT_CAP) = [0, 1, 65] \<and>
   sum_list (map unat (fst (credits 0 [400, 900, 65536] 1000 CREDIT_CAP))) * 1000 +
     unat (snd (credits 0 [400, 900, 65536] 1000 CREDIT_CAP)) = 66836"
proof -
  obtain mss acc' where c: "credits 0 [400, 900, 65536] 1000 CREDIT_CAP = (mss, acc')" by fastforce
  have "mss = [0, 1, 65]" using c by (simp add: endoscope_credit_def Let_def min_def)
  with endoscope_credit_exact [OF _ _ _ _ _ c] c show ?thesis by simp
qed

section \<open>The shared service\<close>

text \<open>
  The SP's side of the link between two passes of the serve loop: it selects and deselects the RoT,
  and clocks bytes through SPI4's data register, where no RoT thread runs (\<open>rot_live\<close> is clear).
\<close>

definition idle_peer :: schedule where
  "idle_peer = (\<lambda>_. id)"

definition sp_drives_cs :: "bool \<Rightarrow> bus \<Rightarrow> bus" where
  "sp_drives_cs cs b = map_link (\<lambda>l. fst (drive_cs cs idle_peer l)) b"

definition sp_clocks :: "u8 list \<Rightarrow> spi_master \<times> bus \<Rightarrow> spi_master \<times> bus" where
  "sp_clocks bs db = (case db of (d, b) \<Rightarrow>
     (case link_of b of
        None \<Rightarrow> db
      | Some l \<Rightarrow> (let (d1, l1, p) = clock_all d l idle_peer bs in (d1, map_link (\<lambda>_. l1) b))))"

text \<open>
  The bytes of a transaction, cut by the passes: the SP clocks a piece, a pass takes what is there,
  and in the last pass the SP deselects after its piece.
\<close>

fun ipc_clocking ::
    "(u8 list \<Rightarrow> u8 list) \<Rightarrow> u8 list list \<Rightarrow> serve_state \<times> spi_master \<times> bus \<Rightarrow> serve_state \<times> spi_master \<times> bus" where
  "ipc_clocking x [] (s, d, b) =
     (let (s1, b1) = ipc_couple x (s, sp_drives_cs False b) in (s1, d, b1))"
| "ipc_clocking x [bs] (s, d, b) =
     (let (d1, b1) = sp_clocks bs (d, b); (s1, b2) = ipc_couple x (s, sp_drives_cs False b1) in (s1, d1, b2))"
| "ipc_clocking x (bs # cs) (s, d, b) =
     (let (d1, b1) = sp_clocks bs (d, b); (s1, b2) = ipc_couple x (s, b1) in ipc_clocking x cs (s1, d1, b2))"

definition ipc_transaction ::
    "(u8 list \<Rightarrow> u8 list) \<Rightarrow> u8 list list \<Rightarrow> serve_state \<times> spi_master \<times> bus \<Rightarrow> serve_state \<times> spi_master \<times> bus" where
  "ipc_transaction x cs st = (case st of (s, d, b) \<Rightarrow> ipc_clocking x cs (s, d, sp_drives_cs True b))"

text \<open>Ready for a request: nothing collected, nothing offered, the chip not selected.\<close>

definition ipc_ready :: "serve_state \<times> bus \<Rightarrow> bool" where
  "ipc_ready sb = (case sb of (s, b) \<Rightarrow> ss_req_buf s = [] \<and> \<not> ss_awaiting s \<and>
     link_is (\<lambda>l. mosi l = [] \<and> \<not> l_ssd l \<and> \<not> l_cs l \<and> \<not> rot_live l) b)"

lemma link_is_Some: "link_is P b \<longleftrightarrow> (\<exists>l. link_of b = Some l \<and> P l)"
  by (auto simp: link_is_def split: option.splits)

lemma link_of_map_link [simp]: "link_of (map_link f b) = map_option f (link_of b)"
  by (simp add: map_link_def link_of_def)

text \<open>What clocking does without a RoT: the FIFO takes what fits, the reply is shifted in.\<close>

definition shifted_in :: "nat \<Rightarrow> u8 list \<Rightarrow> u8 list" where
  "shifted_in n q = take n (q @ replicate n 0)"

lemma shifted_in_0 [simp]: "shifted_in 0 q = []"
  by (simp add: shifted_in_def)

lemma shifted_in_Suc: "shifted_in (Suc n) q = fst (pop_front q) # shifted_in n (tl q)"
  by (cases q) (simp_all add: shifted_in_def pop_front_def replicate_append_same [symmetric])

lemma shifted_in_add: "shifted_in (m + n) q = shifted_in m q @ shifted_in n (drop m q)"
  by (induction m arbitrary: q) (simp_all add: shifted_in_Suc drop_Suc)

lemma clock_all_not_live:
  "\<not> rot_live l \<Longrightarrow> length (mosi l) \<le> SPROT_FIFO_BYTES \<Longrightarrow>
     \<exists>sent txdr. clock_all d l peer bs =
       (d\<lparr>sm_rx := sm_rx d @ shifted_in (length bs) (miso l), sm_sent := sent\<rparr>,
        l\<lparr>mosi := mosi l @ take (SPROT_FIFO_BYTES - length (mosi l)) bs,
          miso := drop (length bs) (miso l), sp_txdr := txdr\<rparr>, peer)"
proof (induction bs arbitrary: d l)
  case Nil
  show ?case by (intro exI [of _ "sm_sent d"] exI [of _ "sp_txdr l"]) simp
next
  case (Cons c bs)
  then have n: "no_stall l" by (simp add: no_stall_def)
  let ?m = "if length (mosi l) < SPROT_FIFO_BYTES then mosi l @ [c] else mosi l"
  let ?d = "d\<lparr>sm_rx := sm_rx d @ [fst (pop_front (miso l))], sm_sent := sm_sent d + 1\<rparr>"
  let ?l = "l\<lparr>mosi := ?m, miso := tl (miso l), sp_txdr := sp_txdr l + 1\<rparr>"
  have "?m @ take (SPROT_FIFO_BYTES - length ?m) bs = mosi l @ take (SPROT_FIFO_BYTES - length (mosi l)) (c # bs)"
    using Cons.prems(2) by (auto simp: take_Cons' Suc_diff_Suc)
  then show ?case
    using Cons.IH [of ?l ?d] Cons.prems
    by (auto simp: write_txdr [OF n] shifted_in_Suc drop_Suc)
qed

lemma sp_clocks_link:
  assumes "link_of b = Some l" and "\<not> rot_live l" and "mosi l = []"
  obtains d1 b1 l1 where "sp_clocks bs (d, b) = (d1, b1)" "link_of b1 = Some l1"
    "sm_rx d1 = sm_rx d @ shifted_in (length bs) (miso l)"
    "mosi l1 = take SPROT_FIFO_BYTES bs" "miso l1 = drop (length bs) (miso l)"
    "rot_live l1 = rot_live l" "l_cs l1 = l_cs l" "l_ssd l1 = l_ssd l" "rot_irq l1 = rot_irq l"
proof -
  obtain sent txdr where c: "clock_all d l idle_peer bs =
      (d\<lparr>sm_rx := sm_rx d @ shifted_in (length bs) (miso l), sm_sent := sent\<rparr>,
       l\<lparr>mosi := take SPROT_FIFO_BYTES bs, miso := drop (length bs) (miso l), sp_txdr := txdr\<rparr>, idle_peer)"
    using clock_all_not_live [of l d idle_peer bs] assms by auto
  then have e: "sp_clocks bs (d, b) =
      (d\<lparr>sm_rx := sm_rx d @ shifted_in (length bs) (miso l), sm_sent := sent\<rparr>,
       map_link (\<lambda>_. l\<lparr>mosi := take SPROT_FIFO_BYTES bs, miso := drop (length bs) (miso l), sp_txdr := txdr\<rparr>) b)"
    by (simp add: sp_clocks_def assms(1))
  show ?thesis using that [OF e] assms(1) by simp
qed

text \<open>One transaction's bytes, the request collected or the reply read.\<close>

lemma ipc_clocking_request:
  assumes "\<not> ss_awaiting s" and "link_of b = Some l" and "\<not> rot_live l" and "mosi l = []"
    and "l_cs l" and "\<not> l_ssd l" and "ss_req_buf s @ concat (map (take SPROT_FIFO_BYTES) cs) \<noteq> []"
    and "ipc_clocking x cs (s, d, b) = (s', d', b')"
  shows "ss_awaiting s' \<and> ss_req_buf s' = [] \<and>
    link_is (\<lambda>l. miso l = x (ss_req_buf s @ concat (map (take SPROT_FIFO_BYTES) cs)) \<and> rot_irq l \<and>
      mosi l = [] \<and> \<not> rot_live l \<and> \<not> l_cs l \<and> \<not> l_ssd l) b'"
  using assms
proof (induction x cs "(s, d, b)" arbitrary: s d b l rule: ipc_clocking.induct)
  case (1 x s d b)
  then show ?case
    by (auto simp: link_is_Some sp_drives_cs_def drive_cs_release ipc_couple_def Let_def)
next
  case (2 x bs s d b)
  obtain d1 b1 l1 where c: "sp_clocks bs (d, b) = (d1, b1)" "link_of b1 = Some l1"
      "mosi l1 = take SPROT_FIFO_BYTES bs" "rot_live l1 = rot_live l" "l_cs l1 = l_cs l"
    using sp_clocks_link [OF 2(2,3,4), of bs d] by metis
  then show ?case
    using 2 by (auto simp: link_is_Some sp_drives_cs_def drive_cs_release ipc_couple_def Let_def)
next
  case (3 x bs c cs s d b)
  obtain d1 b1 l1 where k: "sp_clocks bs (d, b) = (d1, b1)" "link_of b1 = Some l1"
      "mosi l1 = take SPROT_FIFO_BYTES bs" "rot_live l1 = rot_live l" "l_cs l1 = l_cs l" "l_ssd l1 = l_ssd l"
    using sp_clocks_link [OF 3(3,4,5), of bs d] by metis
  let ?s = "s\<lparr>ss_req_buf := ss_req_buf s @ take SPROT_FIFO_BYTES bs\<rparr>" and ?b = "map_link (\<lambda>_. l1\<lparr>mosi := []\<rparr>) b1"
  have e: "ipc_couple x (s, b1) = (?s, ?b)"
    using k 3(2,7) by (simp add: ipc_couple_def Let_def)
  have "ipc_clocking x (c # cs) (?s, d1, ?b) = (s', d', b')" using 3(9) k(1) e by simp
  then show ?case
    using 3(1) [OF k(1) [symmetric] refl e [symmetric] refl, of "l1\<lparr>mosi := []\<rparr>"] 3(2-8) k by simp
qed

lemma ipc_clocking_reply:
  assumes "ss_awaiting s" and "ss_req_buf s = []" and "link_of b = Some l" and "\<not> rot_live l" and "mosi l = []"
    and "l_cs l" and "\<not> l_ssd l" and "ipc_clocking x cs (s, d, b) = (s', d', b')"
  shows "ipc_ready (s', b') \<and> link_is (\<lambda>l. miso l = [] \<and> \<not> rot_irq l) b' \<and>
    sm_rx d' = sm_rx d @ shifted_in (length (concat cs)) (miso l)"
  using assms
proof (induction x cs "(s, d, b)" arbitrary: s d b l rule: ipc_clocking.induct)
  case (1 x s d b)
  then show ?case
    by (auto simp: link_is_Some ipc_ready_def sp_drives_cs_def drive_cs_release ipc_couple_def Let_def)
next
  case (2 x bs s d b)
  obtain d1 b1 l1 where c: "sp_clocks bs (d, b) = (d1, b1)" "link_of b1 = Some l1"
      "sm_rx d1 = sm_rx d @ shifted_in (length bs) (miso l)" "rot_live l1 = rot_live l" "l_cs l1 = l_cs l"
    using sp_clocks_link [OF 2(3,4,5), of bs d] by metis
  then show ?case
    using 2 by (auto simp: link_is_Some ipc_ready_def sp_drives_cs_def drive_cs_release ipc_couple_def Let_def)
next
  case (3 x bs c cs s d b)
  obtain d1 b1 l1 where k: "sp_clocks bs (d, b) = (d1, b1)" "link_of b1 = Some l1"
      "sm_rx d1 = sm_rx d @ shifted_in (length bs) (miso l)" "miso l1 = drop (length bs) (miso l)"
      "rot_live l1 = rot_live l" "l_cs l1 = l_cs l" "l_ssd l1 = l_ssd l"
    using sp_clocks_link [OF 3(4,5,6), of bs d] by metis
  let ?b = "map_link (\<lambda>_. l1\<lparr>mosi := []\<rparr>) b1"
  have e: "ipc_couple x (s, b1) = (s\<lparr>ss_req_buf := []\<rparr>, ?b)"
    using k 3(2,3,8) by (simp add: ipc_couple_def Let_def)
  have "ipc_clocking x (c # cs) (s\<lparr>ss_req_buf := []\<rparr>, d1, ?b) = (s', d', b')" using 3(9) k(1) e by simp
  then show ?case
    using 3(1) [OF k(1) [symmetric] refl e [symmetric] refl, of "l1\<lparr>mosi := []\<rparr>"] 3(2-8) k
    by (simp add: shifted_in_add)
qed

text \<open>
  C24: With a shared RoT service a transaction is exchanged in full: when the SP selects, clocks its
  request through SPI4 in pieces between the passes of the serve loop, and deselects, the service
  gets the pieces in order, of each the first sixteen bytes, which is what the link's FIFO holds
  until the next pass; so it gets the whole request when no piece is longer. Its answer is what the
  SP then reads back over the next transaction, zeros after its end, with ROT_IRQ raised from the
  answer to that transaction's end; and after it, however much of the answer was read, nothing is
  left over and the loop is ready for the next request. Each transaction has one deselection, in
  its last pass.
\<close>

theorem ipc_exchanges_whole:
  assumes "ipc_ready (s0, b0)" and "q = concat (map (take SPROT_FIFO_BYTES) cs)" and "q \<noteq> []"
    and "ipc_transaction x cs (s0, d0, b0) = (s1, d1, b1)"
    and "ipc_transaction x ds (s1, d1\<lparr>sm_rx := []\<rparr>, b1) = (s2, d2, b2)"
  shows "link_is (\<lambda>l. miso l = x q \<and> rot_irq l) b1 \<and>
    sm_rx d2 = take (length (concat ds)) (x q @ replicate (length (concat ds)) 0) \<and>
    ipc_ready (s2, b2) \<and> link_is (\<lambda>l. miso l = [] \<and> \<not> rot_irq l) b2"
proof -
  obtain l where l: "link_of b0 = Some l" "mosi l = []" "\<not> l_ssd l" "\<not> l_cs l" "\<not> rot_live l"
      "ss_req_buf s0 = []" "\<not> ss_awaiting s0"
    using assms(1) by (auto simp: ipc_ready_def link_is_Some)
  have "link_of (sp_drives_cs True b0) = Some (l\<lparr>l_ssa := True, sot_pending := True, l_cs := True\<rparr>)"
    using l by (simp add: sp_drives_cs_def drive_cs_def)
  then have one: "ss_awaiting s1 \<and> ss_req_buf s1 = [] \<and>
      link_is (\<lambda>l. miso l = x q \<and> rot_irq l \<and> mosi l = [] \<and> \<not> rot_live l \<and> \<not> l_cs l \<and> \<not> l_ssd l) b1"
    using ipc_clocking_request [of s0 "sp_drives_cs True b0" _ cs x d0 s1 d1 b1] l assms(2-4)
    by (simp add: ipc_transaction_def)
  then obtain m where m: "link_of b1 = Some m" "miso m = x q" "rot_irq m" "mosi m = []" "\<not> rot_live m"
      "\<not> l_cs m" "\<not> l_ssd m" by (auto simp: link_is_Some)
  have "link_of (sp_drives_cs True b1) = Some (m\<lparr>l_ssa := True, sot_pending := True, l_cs := True\<rparr>)"
    using m by (simp add: sp_drives_cs_def drive_cs_def)
  then have "ipc_ready (s2, b2) \<and> link_is (\<lambda>l. miso l = [] \<and> \<not> rot_irq l) b2 \<and>
      sm_rx d2 = shifted_in (length (concat ds)) (x q)"
    using ipc_clocking_reply [of s1 "sp_drives_cs True b1" _ x ds "d1\<lparr>sm_rx := []\<rparr>" s2 d2 b2] one m assms(5)
    by (simp add: ipc_transaction_def)
  then show ?thesis using m by (simp add: shifted_in_def link_is_Some)
qed

text \<open>Twenty bytes over two passes, sixteen of the eighteen clocked in the first kept.\<close>

theorem ipc_exchanges_whole_witness:
  "sm_rx (fst (snd (ipc_transaction rev [[9]]
     (case ipc_transaction rev [replicate 18 1, [2, 3]] (serve_new cpu_new, spi_master_new, linked_bus) of
        (s1, d1, b1) \<Rightarrow> (s1, d1\<lparr>sm_rx := []\<rparr>, b1))))) = [3]"
proof -
  let ?st = "(serve_new cpu_new, spi_master_new, linked_bus)" and ?cs = "[replicate 18 1, [2, 3]] :: u8 list list"
  obtain s1 d1 b1 where a: "ipc_transaction rev ?cs ?st = (s1, d1, b1)" by (rule prod_cases3)
  obtain s2 d2 b2 where c: "ipc_transaction rev [[9]] (s1, d1\<lparr>sm_rx := []\<rparr>, b1) = (s2, d2, b2)" by (rule prod_cases3)
  have "ipc_ready (serve_new cpu_new, linked_bus)"
    by (simp add: ipc_ready_def serve_new_def linked_bus_def link_is_def link_of_def link_default_def)
  from ipc_exchanges_whole [OF this refl _ a c] have "sm_rx d2 = [3]" by (simp add: eval_nat_numeral)
  with a c show ?thesis by simp
qed

section \<open>The measurement token across a warm reset\<close>

lemma ram_frame:
  assumes "rams b' = rams b" "(sp_flash b' = None) = (sp_flash b = None)" "rotfl b' = rotfl b"
    "rom_enabled b' = rom_enabled b" "secure_alias b' = secure_alias b"
  shows "ram_ok b' a n = ram_ok b a n \<and> ram_word b' a = ram_word b a"
proof -
  have "ram_for b' = ram_for b" "ram_in_bounds b' = ram_in_bounds b" "fold_addr b' a = fold_addr b a"
    "intercepted b' a = intercepted b a"
    using assms by (simp_all add: fun_eq_iff fold_addr_def intercepted_def ram_for_def ram_in_bounds_def)
  then show ?thesis using assms(1) by (simp add: ram_ok_def ram_word_def split: option.split)
qed

text \<open>A word write that does not land in RAM leaves RAM alone.\<close>

definition same_memory :: "bus \<Rightarrow> bus \<Rightarrow> bool" where
  "same_memory b' b = (rams b' = rams b \<and> (sp_flash b' = None) = (sp_flash b = None) \<and> rotfl b' = rotfl b \<and>
     rom_enabled b' = rom_enabled b \<and> secure_alias b' = secure_alias b)"

lemma tail_not_ram:
  assumes "\<not> ram_ok b a 4" and "fold_addr b a = a" and "\<not> intercepted b a"
  shows "same_memory (write32_tail b a v) b"
proof (cases "ram_for b a 4")
  case None
  then show ?thesis
    by (simp add: write32_tail_def rec_write_def tim5_write_def device_write_def same_memory_def Let_def split_def
        split: option.split)
next
  case (Some p)
  obtain i off where p: "p = (i, off)" by (cases p)
  with Some assms have "\<not> ram_in_bounds b i off 4" by (simp add: ram_ok_def)
  then show ?thesis
    using Some p by (simp add: write32_tail_def ram_put_def ram_in_bounds_def same_memory_def Let_def)
qed

lemma write32_systick:
  assumes "ram_ok b c 4" and "words_apart a c" and "a \<in> {SYST_CSR, SYST_RVR, SYST_CVR}"
  shows "ram_ok (write32 b a v) c 4 \<and> ram_word (write32 b a v) c = ram_word b c"
proof -
  have f: "fold_addr b a = a" "\<not> intercepted b a"
    using assms(3) by (elim insertE emptyE; simp add: fold_addr_def in_range_def intercepted_def rom_read32_def)+
  then have w: "write32 b a v = write32_tail b a v" by (simp add: write32_def write32_not_intercepted)
  show ?thesis
  proof (cases "ram_ok b a 4")
    case True
    then show ?thesis using assms(1,2) by (simp add: write32_ram ram_word_other)
  next
    case False
    then have "same_memory (write32_tail b a v) b" using f by (rule tail_not_ram)
    then show ?thesis unfolding w using ram_frame [of "write32_tail b a v" b] assms(1) by (simp add: same_memory_def)
  qed
qed

lemma reset_sources_word:
  assumes "ram_ok b 0x20000000 4"
  shows "ram_ok (reset_exception_sources b) 0x20000000 4 \<and>
    ram_word (reset_exception_sources b) 0x20000000 = ram_word b 0x20000000"
proof -
  let ?b = "b\<lparr>nvic_en := (\<lambda>_. 0), nvic_pend := (\<lambda>_. 0), pend_pendsv := False\<rparr>"
  have "ram_ok ?b 0x20000000 4 \<and> ram_word ?b 0x20000000 = ram_word b 0x20000000"
    using ram_frame [of ?b b "0x20000000" 4] assms by simp
  then show ?thesis
    unfolding reset_exception_sources_def by (simp add: write32_systick words_apart_def)
qed

text \<open>
  C38: The warm-reset paths disagree on the RFD 568 token. The loop without a debug port
  (\<open>boot\<close>) deposits the SKIP token again unless the RoT is to measure; the serve loop leaves
  the word as the firmware left it, whatever the configuration, so without a RoT a firmware
  that has consumed its token finds none after resetting itself.
\<close>

theorem serve_reset_leaves_token:
  assumes "ram_ok b 0x20000000 4" and "sp_flash b = Some f"
  shows "fst (read32 (snd (boot_reset False c b)) 0x20000000) = 0x9f38bd71 \<and>
    fst (read32 (snd (snd (apply_reset d c b))) 0x20000000) = fst (read32 b 0x20000000)"
proof -
  let ?b1 = "flash_reset_latch b"
  have b1: "ram_ok ?b1 0x20000000 4 \<and> ram_word ?b1 0x20000000 = ram_word b 0x20000000"
    using ram_frame [of ?b1 b "0x20000000" 4] assms by (simp add: flash_reset_latch_def)
  have fl: "sp_flash ?b1 = Some (reset_latch f)" "secure_alias ?b1 = secure_alias b"
    using assms(2) by (simp_all add: flash_reset_latch_def)
  have r: "read32 ?b1 0x08000000 = (read_mem32 (reset_latch f) 0x08000000, ?b1)"
    "read32 ?b1 0x08000004 = (read_mem32 (reset_latch f) 0x08000004, ?b1)"
    using fl by (simp_all add: read32_def fold_addr_def in_range_def)
  let ?b2 = "reset_exception_sources ?b1"
  have b2: "ram_ok ?b2 0x20000000 4" "ram_word ?b2 0x20000000 = ram_word b 0x20000000"
    using reset_sources_word [of ?b1] b1 by auto
  have e1: "snd (boot_reset False c b) = (write32 ?b2 0x20000000 0x9f38bd71)\<lparr>reset_pending := False\<rparr>"
    by (simp add: boot_reset_def r Let_def deposit_skip_token_def)
  have e2: "snd (snd (apply_reset d c b)) = ?b2\<lparr>reset_pending := False\<rparr>"
    by (simp add: apply_reset_def r Let_def split_def)
  have w: "fst (read32 (x\<lparr>reset_pending := False\<rparr>) 0x20000000) = ram_word x 0x20000000"
    if "ram_ok x 0x20000000 4" for x
    using ram_frame [of "x\<lparr>reset_pending := False\<rparr>" x "0x20000000" 4] that by (simp add: read32_ram)
  show ?thesis
    using b2 assms(1) by (simp add: e1 e2 w write32_ram ram_word_same read32_ram)
qed

theorem serve_reset_leaves_token_witness:
  "let b = sp_board plain_board None (Some (flash_new [] nv_default False None (\<lambda>_ _. False) False)) in
   fst (read32 (snd (boot_reset False cpu_new b)) 0x20000000) = 0x9f38bd71 \<and>
   fst (read32 (snd (snd (apply_reset swdp_new cpu_new b))) 0x20000000) = fst (read32 b 0x20000000)"
proof -
  let ?f = "flash_new [] nv_default False None (\<lambda>_ _. False) False"
  have "ram_ok (sp_board plain_board None (Some ?f)) 0x20000000 4"
    by (simp add: ram_ok_def sp_board_def install_peripherals_def install_memory_def add_ram_def bus_new_def
        fold_addr_def intercepted_def in_range_def ram_for_def ram_in_bounds_def)
  then show ?thesis unfolding Let_def by (rule serve_reset_leaves_token) (simp add: sp_board_def)
qed

section \<open>A self-reset boots the committed bank\<close>

lemma vector_words:
  "read_mem32 (reset_latch f) 0x08000000 = get32 (fl_mem f) (if committed_swap f then BANK_SIZE else 0)"
  "read_mem32 (reset_latch f) 0x08000004 = get32 (fl_mem f) ((if committed_swap f then BANK_SIZE else 0) + 4)"
  using aperture_read_mem32 [of 0 "reset_latch f"] aperture_read_mem32 [of 4 "reset_latch f"]
  by (simp_all add: aperture_def ap_off_def reset_latch_def get32_def)

text \<open>The SysTick stores of a reset leave the interrupt controller alone.\<close>

lemma systick_nvic:
  assumes "a \<in> {SYST_CSR, SYST_RVR, SYST_CVR}"
  shows "nvic_en (write32 b a v) = nvic_en b \<and> nvic_pend (write32 b a v) = nvic_pend b \<and>
    sp_flash (write32 b a v) = sp_flash b"
proof -
  have "fold_addr b a = a" "\<not> intercepted b a"
    using assms by (elim insertE emptyE; simp add: fold_addr_def in_range_def intercepted_def rom_read32_def)+
  then have w: "write32 b a v = write32_tail b a v" by (simp add: write32_def write32_not_intercepted)
  show ?thesis
    unfolding w by (simp add: write32_tail_def tim5_write_def device_write_def Let_def split_def split: option.split)
qed

lemma reset_sources_irqs:
  "nvic_en (reset_exception_sources b) = (\<lambda>_. 0) \<and> nvic_pend (reset_exception_sources b) = (\<lambda>_. 0) \<and>
   sp_flash (reset_exception_sources b) = sp_flash b"
  unfolding reset_exception_sources_def using systick_nvic by simp

text \<open>
  C19: A firmware self-reset completes an update: the SP restarts with stack pointer and entry
  point from the vector table of the bank the option bytes committed, in thread mode, with no
  interrupt enabled or pending and nothing left of the old image in the decode cache; it stays
  halted there exactly when the debugger armed the vector catch.
\<close>

theorem self_reset_boots_bank:
  assumes "sp_flash b = Some f" and "apply_reset d c b = (d', c', b')"
    and "base = (if committed_swap f then BANK_SIZE else 0)"
  shows "r c' 13 = get32 (fl_mem f) base \<and> pc c' = get32 (fl_mem f) (base + 4) AND NOT 1 \<and>
    mode c' = Thread \<and> \<not> sp_is_psp c' \<and> dcache c' = Map.empty \<and> halted c' = (demcr d AND 1 \<noteq> 0) \<and>
    sp_flash b' = Some (reset_latch f) \<and> \<not> reset_pending b' \<and> (\<forall>n. \<not> irq_enabled b' n) \<and> nvic_pend b' = (\<lambda>_. 0)"
proof -
  let ?b1 = "flash_reset_latch b"
  have fl: "sp_flash ?b1 = Some (reset_latch f)" using assms(1) by (simp add: flash_reset_latch_def)
  have rd: "read32 ?b1 0x08000000 = (read_mem32 (reset_latch f) 0x08000000, ?b1)"
    "read32 ?b1 0x08000004 = (read_mem32 (reset_latch f) 0x08000004, ?b1)"
    using fl by (simp_all add: read32_def fold_addr_def in_range_def)
  show ?thesis
    using assms(2) reset_sources_irqs [of ?b1] fl unfolding assms(3)
    by (auto simp: apply_reset_def rd vector_words honor_vector_catch_def reset_for_reboot_def cpu_reset_def set_r_def
        flush_decode_cache_def irq_enabled_def Let_def split: if_splits)
qed

theorem self_reset_boots_bank_witness:
  "let b = bus_new\<lparr>sp_flash := Some ((flash_new ([]) nv_default False None (\<lambda>_ _. False) False)
        \<lparr>fl_mem := (\<lambda>i. of_nat i)\<rparr>)\<rparr> in
   \<exists>d' c' b'. apply_reset swdp_new cpu_new b = (d', c', b') \<and> r c' 13 = 0x03020100 \<and> pc c' = 0x07060504"
proof -
  let ?f = "(flash_new ([]) nv_default False None (\<lambda>_ _. False) False)\<lparr>fl_mem := (\<lambda>i. of_nat i)\<rparr>"
  let ?b = "bus_new\<lparr>sp_flash := Some ?f\<rparr>"
  obtain d' c' b' where e: "apply_reset swdp_new cpu_new ?b = (d', c', b')" by (metis prod_cases3)
  have "\<not> committed_swap ?f" by (simp add: flash_new_def nv_default_def Let_def)
  then have "r c' 13 = 0x03020100 \<and> pc c' = 0x07060504"
    using self_reset_boots_bank [OF _ e refl, of ?f] by (simp add: get32_def le32_def)
  with e show ?thesis unfolding Let_def by blast
qed

end
