(* ===== verification/Startup.thy ===== *)
theory Startup
  imports Serve
begin

text \<open>
  How a machine is brought up and run (\<open>src/main.rs\<close>, and the pre-boot loops of
  \<open>src/gdb.rs\<close>): the SP from its flash, the RoT from its image or through bootleby, the
  loops that run each to its idle, and the plain run loop with its reset path. Images, files
  and the configuration are arguments; tracing and the differential harness are left out.
\<close>

unbundle bit_operations_syntax

section \<open>The SP\<close>

text \<open>\<open>setup\<close>: the flash model decides which bank the aperture shows.\<close>

definition sp_setup :: "board \<Rightarrow> link option \<Rightarrow> bool \<Rightarrow> bool option \<Rightarrow> flash \<Rightarrow> machine" where
  "sp_setup k l rot_measure swap_override f =
     (let f1 = (case swap_override of Some s \<Rightarrow> force_swap f s | None \<Rightarrow> f);
          (sp, b1) = read32 (sp_board k l (Some f1)) 0x08000000;
          (v, b2) = read32 b1 0x08000004
      in (cpu_reset cpu_new sp (v AND NOT 1), deposit_skip_token rot_measure b2))"

section \<open>The RoT\<close>

abbreviation (input) ROT_IMAGE_A :: u32 where "ROT_IMAGE_A \<equiv> 0x00010000"

text \<open>
  \<open>build_rot_core\<close>: \<open>f\<close> is the seeded flash model, \<open>dice\<close> the files of the DICE
  directory, \<open>rom\<close> whether the boot-ROM API is on, \<open>bootleby\<close> the boot loader to run
  instead of the image.
\<close>

definition rot_core_cpu :: "u32 \<Rightarrow> u32 \<Rightarrow> bool \<Rightarrow> cpu" where
  "rot_core_cpu sp reset_pc rom =
     (set_vtor_fallback (set_code_ranges ((cpu_reset cpu_new sp reset_pc)\<lparr>wfi_throttle := True\<rparr>) [(0, 0x000A0000)]) 0)
       \<lparr>rom_traps := rom\<rparr>"

definition build_rot_core ::
  "board \<Rightarrow> link option \<Rightarrow> swd_link option \<Rightarrow> rot_flash \<Rightarrow> (u8 list \<Rightarrow> u8 list) \<Rightarrow> u8 list \<Rightarrow>
   (u8 list option \<times> u8 list option) option \<Rightarrow> bool \<Rightarrow> u8 list option \<Rightarrow> machine" where
  "build_rot_core k l s f sha3 img dice rom bootleby =
     (let b0 = (rot_board k l s)\<lparr>rotfl := Some f\<rparr>;
          b1 = publish_dice_handoff (publish_rot_bootstate sha3 b0 img) dice;
          (sp, b2) = read32 b1 ROT_IMAGE_A; (v, b3) = read32 b2 (ROT_IMAGE_A + 4);
          c = rot_core_cpu sp (v AND NOT 1) rom;
          b4 = (if rom then b3\<lparr>rom_enabled := True\<rparr> else b3)
      in case bootleby of
           None \<Rightarrow>
             (set_flash_cache c (ROT_IMAGE_A, ROT_IMAGE_A + of_nat (length img)), write32 b4 SCB_VTOR ROT_IMAGE_A)
         | Some bl \<Rightarrow>
             (let b5 = (load_rot_bootleby b4 bl)\<lparr>secure_alias := True, rom_enabled := True\<rparr>;
                  (sp', b6) = read32 b5 0; (v', b7) = read32 b6 4;
                  c1 = cpu_reset (c\<lparr>rom_traps := True\<rparr>) sp' (v' AND NOT 1)
              in (set_flash_cache c1 (SECURE_ALIAS_BIT, SECURE_ALIAS_BIT + of_nat (length bl)),
                  write32 b7 SCB_VTOR 0)))"

section \<open>Pre-boot\<close>

text \<open>The SP runs a number of instructions or to the first trap.\<close>

fun sp_preboot :: "env \<Rightarrow> nat \<Rightarrow> cpu \<Rightarrow> bus \<Rightarrow> machine" where
  "sp_preboot E 0 c b = (c, b)"
| "sp_preboot E (Suc n) c b =
     (case step E c b of
        (Some _, m) \<Rightarrow> m
      | (None, c1, b1) \<Rightarrow>
          (let (c2, b2) = maybe_tick c1 b1; (c3, b3) = maybe_interrupt c2 b2 in sp_preboot E n c3 b3))"

text \<open>
  The RoT runs until it waits for an interrupt, spins on one instruction with no boot-ROM call
  in flight, traps, or has used its budget; which of them is the result's first part.
\<close>

datatype preboot_end = Pb_Budget | Pb_Idle | Pb_Spin | Pb_Trap

fun rot_preboot :: "env \<Rightarrow> nat \<Rightarrow> cpu \<Rightarrow> bus \<Rightarrow> preboot_end \<times> machine" where
  "rot_preboot E 0 c b = (Pb_Budget, c, b)"
| "rot_preboot E (Suc n) c b =
     (case step E (c\<lparr>wfi_idle := False\<rparr>) b of
        (Some _, m) \<Rightarrow> (Pb_Trap, m)
      | (None, c1, b1) \<Rightarrow>
          if wfi_idle c1 then (Pb_Idle, c1, b1)
          else if pc c1 = pc c \<and> rom_call c1 = RomIdle then (Pb_Spin, c1, b1)
          else
            (let (c2, b2) = maybe_tick c1 b1; (c3, b3) = maybe_interrupt c2 b2 in
             if 0 < idle_skip c3 then (Pb_Idle, c3\<lparr>idle_skip := 0\<rparr>, b3) else rot_preboot E n c3 b3))"

section \<open>Run loops\<close>

text \<open>
  \<open>boot\<close>: one pass of its loop, and the loop under an instruction limit (fuel bounds the
  passes when the limit is 0, run for ever). The trap that ended it is the result's first part.
\<close>

definition boot_pass :: "env \<Rightarrow> bool \<Rightarrow> cpu \<times> bus \<times> host \<Rightarrow> trap option \<times> cpu \<times> bus \<times> host" where
  "boot_pass E rot_measure m = (case m of (c, b, h) \<Rightarrow>
     (case step E c (b\<lparr>mmio_hit := False, bus_writes := []\<rparr>) of
        (Some t, c1, b1) \<Rightarrow> (Some t, c1, b1, h)
      | (None, c1, b1) \<Rightarrow>
          (let (c2, b2) = maybe_tick c1 b1; (c3, b3) = maybe_interrupt c2 b2;
               (b4, h1) = (if cycles c3 AND 0xFFF = 0
                           then (let (b', h') = pump_eth b3 h in pump_uart b' h') else (b3, h));
               (c5, b5) = (if reset_pending b4 then boot_reset rot_measure c3 b4 else (c3, b4))
           in (None, c5, b5, h1))))"

fun boot_loop :: "env \<Rightarrow> bool \<Rightarrow> u64 \<Rightarrow> nat \<Rightarrow> cpu \<times> bus \<times> host \<Rightarrow> trap option \<times> cpu \<times> bus \<times> host" where
  "boot_loop E rot_measure limit 0 m = (None, m)"
| "boot_loop E rot_measure limit (Suc n) m =
     (if limit = 0 \<or> cycles (fst m) < limit
      then (case boot_pass E rot_measure m of
              (Some t, m1) \<Rightarrow> (Some t, m1) | (None, m1) \<Rightarrow> boot_loop E rot_measure limit n m1)
      else (None, m))"

text \<open>\<open>cmd_rot\<close>: the RoT alone, counting how often it went idle.\<close>

fun rot_run :: "env \<Rightarrow> nat \<Rightarrow> nat \<Rightarrow> cpu \<Rightarrow> bus \<Rightarrow> bool \<times> nat \<times> machine" where
  "rot_run E 0 hits c b = (False, hits, c, b)"
| "rot_run E (Suc n) hits c b =
     (case step E c b of
        (Some _, m) \<Rightarrow> (True, hits, m)
      | (None, c1, b1) \<Rightarrow>
          (let (c2, b2) = maybe_tick c1 b1; (c3, b3) = maybe_interrupt c2 b2 in
           if 0 < idle_skip c3 then rot_run E n (Suc hits) (c3\<lparr>idle_skip := 0\<rparr>) b3
           else rot_run E n hits c3 b3))"

end
