(* ===== verification/Bridge.thy ===== *)
theory Bridge
  imports Bus_Eth
begin

text \<open>
  The host network bridge (\<open>src/bridge.rs\<close>): the IPv6 neighbour the emulated service
  processor talks to. It learns the processor's addresses per VLAN, answers neighbour
  solicitations and pings, relays UDP between the processor's sockets and the clients of the
  host, and bounds the backlog of frames waiting for the processor.

  Sockets are their entries of the table, what the host delivered is an argument of
  \<open>poll_host\<close>, and datagrams sent are recorded. The order in which a hash map is walked and
  whether a send succeeds are fields of \<open>net_env\<close>. Logging and the round-trip statistics are
  left out; so are opening the sockets and the pseudo-terminal.
\<close>

unbundle bit_operations_syntax

section \<open>Constants and state\<close>

definition ETHERTYPE_IPV6 :: u16 where "ETHERTYPE_IPV6 = 0x86DD"
definition IPPROTO_UDP :: u8 where "IPPROTO_UDP = 17"
definition IPPROTO_ICMPV6 :: u8 where "IPPROTO_ICMPV6 = 58"
definition VLAN_TPID :: u16 where "VLAN_TPID = 0x8100"
definition A4X2_BASE_PORT :: u16 where "A4X2_BASE_PORT = 33300"

text \<open>The per-instance offset of a bridge address: \<open>parse\<close> reads the text after the last colon.\<close>

definition a4x2_offset :: "u16 option \<Rightarrow> u16 option" where
  "a4x2_offset port =
     (case port of None \<Rightarrow> None
      | Some p \<Rightarrow> if A4X2_BASE_PORT \<le> p \<and> (p - A4X2_BASE_PORT) mod 10 = 0 \<and> p - A4X2_BASE_PORT < 1000
                  then Some (p - A4X2_BASE_PORT) else None)"

definition default_vids :: "bool \<Rightarrow> u16 option \<Rightarrow> u16 option \<Rightarrow> u16 \<times> u16" where
  "default_vids sidecar vid0 vid1 =
     ((case vid0 of Some v \<Rightarrow> v | None \<Rightarrow> if sidecar then 0x130 else 0x301),
      (case vid1 of Some v \<Rightarrow> v | None \<Rightarrow> 0x302))"

record sock_addr =
  sa_ip :: string
  sa_port :: u16

record bound_sock =
  bs_vid :: u16
  bs_port :: u16

record net_env =
  map_order :: "u16 list \<Rightarrow> u16 list"
  send_ok :: "nat \<Rightarrow> u8 list \<Rightarrow> sock_addr \<Rightarrow> bool"

record bridge =
  socks :: "bound_sock list"
  sp_by_vid :: "u16 \<rightharpoonup> u8 list \<times> u8 list"
  peer_by_vid :: "u16 \<times> u16 \<rightharpoonup> sock_addr"
  rx :: "(u16 \<times> u8 list) list"
  n_recv :: u64
  n_evict :: u64
  n_pop :: u64
  n_send_err :: u64
  datagrams :: "(nat \<times> u8 list \<times> sock_addr) list"
  host_uart :: bool
  host_uart_txq :: "u8 list"
  host_uart_sent :: "u8 list"

definition my_mac :: "u8 list" where "my_mac = [0x0e, 0, 0, 0, 0, 1]"
definition my_ip :: "u8 list" where
  "my_ip = [0xfe, 0x80, 0, 0, 0, 0, 0, 0, 0, 0, 0, 0, 0, 0, 0, 1]"

definition from_socks :: "bound_sock list \<Rightarrow> bool \<Rightarrow> bridge" where
  "from_socks ss uart =
     \<lparr>socks = ss, sp_by_vid = Map.empty, peer_by_vid = Map.empty, rx = [], n_recv = 0, n_evict = 0,
      n_pop = 0, n_send_err = 0, datagrams = [], host_uart = uart, host_uart_txq = [],
      host_uart_sent = []\<rparr>"

text \<open>
  \<open>Bridge::new\<close> binds, per switch view, the management port and the ereport relay, and once
  the real ereport port; \<open>bind\<close> tells which of the ports could be bound. A view that cannot
  have its management port is an error.
\<close>

definition sock_if :: "bool \<Rightarrow> bound_sock \<Rightarrow> bound_sock list" where
  "sock_if ok s = (if ok then [s] else [])"

definition bridge_new :: "(u16 \<Rightarrow> bool) \<Rightarrow> u16 \<Rightarrow> u16 \<times> u16 \<Rightarrow> bool \<Rightarrow> bridge option" where
  "bridge_new bind base vids uart =
     (let view = (\<lambda>off vid. \<lparr>bs_vid = vid, bs_port = 11111\<rparr> #
                              sock_if (bind (base + off + 11100)) \<lparr>bs_vid = vid, bs_port = 57005\<rparr>)
      in if bind base \<and> bind (base + 1)
         then Some (from_socks (view 0 (fst vids) @ view 1 (snd vids) @
                     sock_if (bind 57005) \<lparr>bs_vid = fst vids, bs_port = 57005\<rparr>) uart)
         else None)"

definition new_well_known :: "(string \<Rightarrow> u16 \<Rightarrow> bool) \<Rightarrow> (string \<times> u16) list \<Rightarrow> u16 list \<Rightarrow> bool \<Rightarrow> bridge" where
  "new_well_known bind views ports uart =
     from_socks (concat (map (\<lambda>(ip, vid). concat (map (\<lambda>p. sock_if (bind ip p) \<lparr>bs_vid = vid, bs_port = p\<rparr>) ports))
                          views)) uart"

section \<open>The Internet checksum\<close>

definition be_bytes16 :: "u16 \<Rightarrow> u8 list" where
  "be_bytes16 v = [ucast (drop_bit 8 v), ucast v]"

fun add_words :: "u32 \<Rightarrow> u8 list \<Rightarrow> u32" where
  "add_words s (a # b # bs) = add_words (s + ucast (be16 a b)) bs"
| "add_words s [a] = s + push_bit 8 (ucast a)"
| "add_words s [] = s"

function fold_sum :: "u32 \<Rightarrow> u32" where
  "fold_sum s = (if drop_bit 16 s \<noteq> 0 then fold_sum ((s AND 0xFFFF) + drop_bit 16 s) else s)"
  by auto

text \<open>The arithmetic of one folding step, which also makes the loop end.\<close>

lemma unat_and_0xFFFF: "unat ((s :: u32) AND 0xFFFF) = unat s mod 65536"
proof -
  have "s AND 0xFFFF = s AND mask 16" by (simp add: mask_eq_exp_minus_1)
  then have "unat (s AND 0xFFFF) = take_bit 16 (unat s)"
    by (simp only: take_bit_eq_mask [symmetric] unsigned_take_bit_eq)
  then show ?thesis by (simp only: take_bit_eq_mod) simp
qed

lemma unat_drop_16: "unat (drop_bit 16 (s :: u32)) = unat s div 65536"
  by (simp only: drop_bit_eq_div unat_div_distrib) simp

lemma fold_step: "unat (((s :: u32) AND 0xFFFF) + drop_bit 16 s) = unat s mod 65536 + unat s div 65536"
proof -
  have "unat s < 2 ^ 32" using unsigned_less [of s] by simp
  then have "unat s mod 65536 + unat s div 65536 < 2 ^ 32" by simp
  then show ?thesis by (simp add: unat_word_ariths(1) unat_and_0xFFFF unat_drop_16)
qed

lemma drop_16_iff: "drop_bit 16 (s :: u32) \<noteq> 0 \<longleftrightarrow> 65536 \<le> unat s"
  using unat_drop_16 [of s] unat_eq_zero [of "drop_bit 16 s"] by (auto simp: div_eq_0_iff)

termination fold_sum
proof (relation "measure unat")
  fix s :: u32
  assume "drop_bit 16 s \<noteq> 0"
  then have "65536 \<le> unat s" by (simp only: drop_16_iff)
  then show "((s AND 0xFFFF) + drop_bit 16 s, s) \<in> measure unat"
    using fold_step [of s] div_mult_mod_eq [of "unat s" 65536] div_greater_zero_iff [of "unat s" 65536]
    by (simp only: in_measure)
qed simp

declare fold_sum.simps [simp del]

definition checksum6 :: "u8 list \<Rightarrow> u8 list \<Rightarrow> u8 \<Rightarrow> u8 list \<Rightarrow> u16" where
  "checksum6 src dst nxt data =
     (let s = fold_sum (add_words (add_words (add_words 0 src) dst + of_nat (length data) + ucast nxt) data);
          ck = NOT (ucast s :: u16)
      in if ck = 0 \<and> nxt = IPPROTO_UDP then 0xFFFF else ck)"

section \<open>Building frames\<close>

definition set16 :: "u8 list \<Rightarrow> nat \<Rightarrow> u16 \<Rightarrow> u8 list" where
  "set16 bs i v = bs[i := ucast (drop_bit 8 v), i + 1 := ucast v]"

definition build_ipv6_from :: "u16 \<Rightarrow> u8 list \<Rightarrow> u8 list \<Rightarrow> u8 \<Rightarrow> u8 \<Rightarrow> u8 list \<Rightarrow> u8 list" where
  "build_ipv6_from vid dst_mac dst_ip nxt hop payload =
     dst_mac @ my_mac @ (if vid \<noteq> 0 then be_bytes16 VLAN_TPID @ be_bytes16 vid else []) @
     be_bytes16 ETHERTYPE_IPV6 @ [0x60, 0, 0, 0] @ be_bytes16 (of_nat (length payload)) @
     [nxt, hop] @ my_ip @ dst_ip @ payload"

definition udp_segment :: "u8 list \<Rightarrow> u16 \<Rightarrow> u16 \<Rightarrow> u8 list \<Rightarrow> u8 list" where
  "udp_segment dst_ip dst_port src_port payload =
     (let udp = be_bytes16 src_port @ be_bytes16 dst_port @ be_bytes16 (of_nat (8 + length payload)) @
                [0, 0] @ payload
      in set16 udp 6 (checksum6 my_ip dst_ip IPPROTO_UDP udp))"

definition build_udp6 :: "u16 \<Rightarrow> u8 list \<Rightarrow> u8 list \<Rightarrow> u16 \<Rightarrow> u16 \<Rightarrow> u8 list \<Rightarrow> u8 list" where
  "build_udp6 vid dst_mac dst_ip dst_port src_port payload =
     build_ipv6_from vid dst_mac dst_ip IPPROTO_UDP 64 (udp_segment dst_ip dst_port src_port payload)"

definition icmp_sum :: "u8 list \<Rightarrow> u8 list \<Rightarrow> u8 list" where
  "icmp_sum dst_ip icmp = set16 icmp 2 (checksum6 my_ip dst_ip IPPROTO_ICMPV6 icmp)"

definition build_neighbor_advert :: "u16 \<Rightarrow> u8 list \<Rightarrow> u8 list \<Rightarrow> u8 list" where
  "build_neighbor_advert vid dst_mac dst_ip =
     build_ipv6_from vid dst_mac dst_ip IPPROTO_ICMPV6 255
       (icmp_sum dst_ip ([136, 0, 0, 0, 0x60, 0, 0, 0] @ my_ip @ [2, 1] @ my_mac))"

definition build_echo_request :: "u16 \<Rightarrow> u8 list \<Rightarrow> u8 list \<Rightarrow> u8 list" where
  "build_echo_request vid dst_mac dst_ip =
     build_ipv6_from vid dst_mac dst_ip IPPROTO_ICMPV6 255
       (icmp_sum dst_ip [128, 0, 0, 0, 0, 1, 0, 1, 0xde, 0xad, 0xbe, 0xef])"

definition build_echo_reply :: "u16 \<Rightarrow> u8 list \<Rightarrow> u8 list \<Rightarrow> u8 list \<Rightarrow> u8 list" where
  "build_echo_reply vid dst_mac dst_ip req =
     build_ipv6_from vid dst_mac dst_ip IPPROTO_ICMPV6 64
       (icmp_sum dst_ip (req[0 := 129, 2 := 0, 3 := 0]))"

section \<open>The backlog\<close>

text \<open>
  The busiest client flow is the last maximum in the order the hash map of counts is walked;
  its oldest frame goes. With only control frames queued the oldest of all goes.
\<close>

fun max_by_count :: "('a \<Rightarrow> nat) \<Rightarrow> 'a list \<Rightarrow> 'a option" where
  "max_by_count c [] = None"
| "max_by_count c (f # fs) =
     (case max_by_count c fs of None \<Rightarrow> Some f | Some g \<Rightarrow> if c f \<le> c g then Some g else Some f)"

fun remove_first :: "('a \<Rightarrow> bool) \<Rightarrow> 'a list \<Rightarrow> 'a list" where
  "remove_first p [] = []"
| "remove_first p (x # xs) = (if p x then xs else x # remove_first p xs)"

definition flow_count :: "(u16 \<times> u8 list) list \<Rightarrow> u16 \<Rightarrow> nat" where
  "flow_count q f = count_list (map fst q) f"

definition busiest :: "net_env \<Rightarrow> (u16 \<times> u8 list) list \<Rightarrow> u16 option" where
  "busiest N q = max_by_count (flow_count q) (filter (\<lambda>f. f \<noteq> 0) (map_order N (remdups (map fst q))))"

definition evict_one :: "net_env \<Rightarrow> (u16 \<times> u8 list) list \<Rightarrow> (u16 \<times> u8 list) list" where
  "evict_one N q =
     (case busiest N q of
        Some v \<Rightarrow> if v \<in> set (map fst q) then remove_first (\<lambda>e. fst e = v) q else tl q
      | None \<Rightarrow> tl q)"

lemma length_remove_first: "x \<in> set xs \<Longrightarrow> p x \<Longrightarrow> length (remove_first p xs) = length xs - 1"
proof (induction xs)
  case (Cons a xs)
  then show ?case by (cases xs) auto
qed simp

lemma length_evict_one: "length (evict_one N q) = length q - 1"
proof -
  have "length (remove_first (\<lambda>e. fst e = v) q) = length q - 1" if v: "v \<in> set (map fst q)" for v
  proof -
    obtain e where "e \<in> set q" "fst e = v" using v by auto
    then show ?thesis by (rule length_remove_first)
  qed
  then show ?thesis by (simp add: evict_one_def split: option.split)
qed

definition RX_BACKLOG_CAP :: nat where "RX_BACKLOG_CAP = 32"

function trim_rx :: "net_env \<Rightarrow> bridge \<Rightarrow> bridge" where
  "trim_rx N b =
     (if RX_BACKLOG_CAP < length (rx b)
      then trim_rx N (b\<lparr>rx := evict_one N (rx b), n_evict := n_evict b + 1\<rparr>) else b)"
  by auto
termination
  by (relation "measure (\<lambda>(N, b). length (rx b))") (auto simp: length_evict_one RX_BACKLOG_CAP_def)

declare trim_rx.simps [simp del]

definition push_rx :: "net_env \<Rightarrow> u16 \<Rightarrow> u8 list \<Rightarrow> bridge \<Rightarrow> bridge" where
  "push_rx N flow frame b = trim_rx N (b\<lparr>rx := rx b @ [(flow, frame)]\<rparr>)"

section \<open>From the processor to the host\<close>

text \<open>\<open>sub_bytes f a b\<close> is the source's \<open>f[a..b]\<close> (in range wherever it is used).\<close>

abbreviation sub_bytes :: "u8 list \<Rightarrow> nat \<Rightarrow> nat \<Rightarrow> u8 list" where
  "sub_bytes f i j \<equiv> take (j - i) (drop i f)"

definition handle_icmp6 :: "net_env \<Rightarrow> u16 \<Rightarrow> u8 list \<Rightarrow> u8 list \<Rightarrow> bridge \<Rightarrow> bridge" where
  "handle_icmp6 N vid src_ip p b =
     (if length p < 4 then b
      else case sp_by_vid b vid of
             None \<Rightarrow> b
           | Some (sp_mac, _) \<Rightarrow>
               if p ! 0 = 135 \<and> 24 \<le> length p then
                 (if sub_bytes p 8 24 = my_ip then push_rx N 0 (build_neighbor_advert vid sp_mac src_ip) b else b)
               else if p ! 0 = 128 then push_rx N 0 (build_echo_reply vid sp_mac src_ip p) b
               else b)"

fun find_sock :: "bound_sock list \<Rightarrow> u16 \<Rightarrow> u16 \<Rightarrow> nat option" where
  "find_sock [] vid port = None"
| "find_sock (s # ss) vid port =
     (if bs_vid s = vid \<and> bs_port s = port then Some 0 else map_option Suc (find_sock ss vid port))"

definition handle_udp_tx :: "net_env \<Rightarrow> u16 \<Rightarrow> u8 list \<Rightarrow> bridge \<Rightarrow> bridge" where
  "handle_udp_tx N vid udp b =
     (if length udp < 8 then b
      else
        let src_port = be16 (udp ! 0) (udp ! 1) in
        case find_sock (socks b) vid src_port of
          None \<Rightarrow> b
        | Some i \<Rightarrow>
            (case peer_by_vid b (vid, src_port) of
               None \<Rightarrow> b
             | Some p \<Rightarrow>
                 let peer = \<lparr>sa_ip = sa_ip p, sa_port = be16 (udp ! 2) (udp ! 3)\<rparr>; payload = drop 8 udp
                 in if send_ok N i payload peer then b\<lparr>datagrams := datagrams b @ [(i, payload, peer)]\<rparr>
                    else b\<lparr>n_send_err := n_send_err b + 1\<rparr>))"

definition learn_sp :: "net_env \<Rightarrow> bool \<Rightarrow> u16 \<Rightarrow> u8 list \<Rightarrow> u8 list \<Rightarrow> bridge \<Rightarrow> bridge" where
  "learn_sp N pingtest vid src_mac src_ip b =
     (if src_ip ! 0 = 0xfe \<and> src_ip ! 1 AND 0xc0 = 0x80 then
        (let b1 = b\<lparr>sp_by_vid := (sp_by_vid b)(vid \<mapsto> (src_mac, src_ip))\<rparr> in
         if sp_by_vid b vid = None then
           (let b2 = push_rx N 0 (build_neighbor_advert vid src_mac src_ip) b1 in
            if pingtest then push_rx N 0 (build_echo_request vid src_mac src_ip) b2 else b2)
         else b1)
      else b)"

definition handle_tx :: "net_env \<Rightarrow> bool \<Rightarrow> u8 list \<Rightarrow> bridge \<Rightarrow> bridge" where
  "handle_tx N pingtest f b =
     (if length f < 18 then b
      else
        let src_mac = sub_bytes f 6 12;
            tagged = be16 (f ! 12) (f ! 13) = VLAN_TPID;
            vid = (if tagged then be16 (f ! 14) (f ! 15) AND 0xFFF else 0);
            eth_off = (if tagged then 18 else 14 :: nat)
        in if be16 (f ! (eth_off - 2)) (f ! (eth_off - 1)) \<noteq> ETHERTYPE_IPV6 \<or> length f < eth_off + 40 then b
           else
             let ip = drop eth_off f in
             if drop_bit 4 (ip ! 0) \<noteq> 6 then b
             else
               let b1 = learn_sp N pingtest vid src_mac (sub_bytes ip 8 24) b; payload = drop 40 ip
               in if ip ! 6 = IPPROTO_ICMPV6 then handle_icmp6 N vid (sub_bytes ip 8 24) payload b1
                  else if ip ! 6 = IPPROTO_UDP then handle_udp_tx N vid payload b1
                  else b1)"

section \<open>From the host to the processor\<close>

text \<open>
  One received datagram: the socket it came on, its sender and its bytes, of which the
  receive buffer keeps the first 2048. The list of a poll is in the order of the sockets,
  each drained in turn.
\<close>

definition relay :: "net_env \<Rightarrow> bound_sock \<times> sock_addr \<times> u8 list \<Rightarrow> bridge \<Rightarrow> bridge" where
  "relay N d b =
     (case d of (s, src, data) \<Rightarrow>
        let b1 = b\<lparr>peer_by_vid := (peer_by_vid b)((bs_vid s, bs_port s) \<mapsto> src)\<rparr> in
        case sp_by_vid b (bs_vid s) of
          None \<Rightarrow> b1
        | Some (sp_mac, sp_ip) \<Rightarrow>
            push_rx N (sa_port src)
              (build_udp6 (bs_vid s) sp_mac sp_ip (bs_port s) (sa_port src) (take 2048 data)) b1)"

definition poll_host :: "net_env \<Rightarrow> (sock_addr \<times> u8 list) list list \<Rightarrow> bridge \<Rightarrow> bridge" where
  "poll_host N inbox b =
     (let got = concat (map (\<lambda>(s, ds). map (\<lambda>d. (s, d)) ds) (zip (socks b) inbox))
      in fold (relay N) got (b\<lparr>n_recv := n_recv b + of_nat (length got)\<rparr>))"

definition bridge_eth_rx :: "bridge \<Rightarrow> u8 list option \<times> bridge" where
  "bridge_eth_rx b =
     (case List.find (\<lambda>e. fst e = 0) (rx b) of
        Some e \<Rightarrow> (Some (snd e), b\<lparr>n_pop := n_pop b + 1, rx := remove_first (\<lambda>e. fst e = 0) (rx b)\<rparr>)
      | None \<Rightarrow> (case rx b of
                  [] \<Rightarrow> (None, b)
                | e # es \<Rightarrow> (Some (snd e), b\<lparr>n_pop := n_pop b + 1, rx := es\<rparr>)))"

section \<open>The host UART\<close>

text \<open>What the channel does with one byte; the list of a flush is used up from the front.\<close>

datatype uart_write = Wrote_1 | Wrote_0 | Would_Block | Write_Err

definition bridge_uart_tx :: "u8 \<Rightarrow> bridge \<Rightarrow> bridge" where
  "bridge_uart_tx v b = b\<lparr>host_uart_txq := host_uart_txq b @ [v]\<rparr>"

fun flush_bytes :: "uart_write list \<Rightarrow> u8 list \<Rightarrow> u8 list \<times> u8 list" where
  "flush_bytes (Wrote_1 # ws) (v # q) = (case flush_bytes ws q of (sent, rest) \<Rightarrow> (v # sent, rest))"
| "flush_bytes (Write_Err # ws) (v # q) = ([], [])"
| "flush_bytes ws q = ([], q)"

definition bridge_uart_flush :: "uart_write list \<Rightarrow> bridge \<Rightarrow> bridge" where
  "bridge_uart_flush ws b =
     (if host_uart b
      then (case flush_bytes ws (host_uart_txq b) of (sent, rest) \<Rightarrow>
              b\<lparr>host_uart_sent := host_uart_sent b @ sent, host_uart_txq := rest\<rparr>)
      else b\<lparr>host_uart_txq := []\<rparr>)"

end
