(* ===== verification/Bridge_Props.thy ===== *)
theory Bridge_Props
  imports Bridge
begin

text \<open>
  Properties of the network bridge: its checksums against the definition of the Internet
  checksum over the natural numbers, the frames it queues as a receiver would check them, the
  backlog bound with its eviction rule, and the relay of a datagram and its answer.
\<close>

unbundle bit_operations_syntax

section \<open>The Internet checksum\<close>

text \<open>The reference: the sum of the big-endian 16-bit words, an odd last byte padded with zero.\<close>

fun sum16 :: "u8 list \<Rightarrow> nat" where
  "sum16 (a # b # bs) = 256 * unat a + unat b + sum16 bs"
| "sum16 [a] = 256 * unat a"
| "sum16 [] = 0"

definition sums_to_zero :: "u8 list \<Rightarrow> u8 list \<Rightarrow> u8 \<Rightarrow> u8 list \<Rightarrow> bool" where
  "sums_to_zero src dst nxt data \<longleftrightarrow>
     (sum16 src + sum16 dst + length data + unat nxt + sum16 data) mod 65535 = 0"

lemma unat_be16: "unat (be16 a b) = 256 * unat a + unat b"
  by (simp add: be16_def unat_le16)

lemma sum16_le: "2 * sum16 bs \<le> 65535 * (length bs + 1)"
proof (induction bs rule: sum16.induct)
  case (1 a b bs)
  then show ?case using byte_bound [of a] byte_bound [of b] by simp
next
  case (2 a)
  then show ?case using byte_bound [of a] by simp
qed simp

lemma unat_ucast_32: "unat (ucast (a :: u8) :: u32) = unat a" "unat (ucast (h :: u16) :: u32) = unat h"
  by (simp_all add: unsigned_ucast_eq take_bit_nat_eq_self unsigned_less [THEN less_trans])

lemma unat_add_words: "unat s + sum16 bs < 2 ^ 32 \<Longrightarrow> unat (add_words s bs) = unat s + sum16 bs"
proof (induction s bs rule: add_words.induct)
  case (1 s a b bs)
  with 1 show ?case by (simp add: unat_word_ariths(1) unat_ucast_32 unat_be16)
next
  case (2 s a)
  have "unat (push_bit 8 (ucast a :: u32)) = 256 * unat a"
    using byte_bound [of a] by (simp add: push_bit_eq_mult unat_word_ariths(2) unat_ucast_32)
  with 2 show ?case by (simp add: unat_word_ariths(1))
qed simp

lemma fold_sum_folds:
  "unat (fold_sum s) < 65536 \<and> unat (fold_sum s) mod 65535 = unat s mod 65535 \<and> (s \<noteq> 0 \<longrightarrow> fold_sum s \<noteq> 0)"
proof (induction s rule: fold_sum.induct)
  case (1 s)
  show ?case
  proof (cases "drop_bit 16 s \<noteq> 0")
    case True
    let ?t = "(s AND 0xFFFF) + drop_bit 16 s"
    have t: "unat ?t = unat s mod 65536 + unat s div 65536" by (rule fold_step)
    have "unat s = 65535 * (unat s div 65536) + unat ?t" using t div_mult_mod_eq [of "unat s" 65536] by simp
    then have m: "unat ?t mod 65535 = unat s mod 65535" by (metis mod_mult_self4)
    have "?t \<noteq> 0" using t True unat_drop_16 [of s] by (metis add_is_0 unat_eq_zero unsigned_0)
    moreover have "fold_sum s = fold_sum ?t" using True by (subst fold_sum.simps) simp
    ultimately show ?thesis using 1 [OF True] m by simp
  next
    case False
    then have "fold_sum s = s" by (subst fold_sum.simps) simp
    then show ?thesis using False drop_16_iff [of s] by simp
  qed
qed

lemma be16_be_bytes [simp]: "be16 (ucast (drop_bit 8 v)) (ucast v) = v"
  by (rule bit_word_eqI) (auto simp: be16_def bit_le16 bit_simps)

lemma sum16_set16:
  "even i \<Longrightarrow> i + 1 < length d \<Longrightarrow> d ! i = 0 \<Longrightarrow> d ! (i + 1) = 0 \<Longrightarrow> sum16 (set16 d i v) = sum16 d + unat v"
proof (induction d arbitrary: i rule: sum16.induct)
  case (1 a b bs)
  have v: "256 * unat (ucast (drop_bit 8 v) :: u8) + unat (ucast v :: u8) = unat v"
    using unat_be16 [of "ucast (drop_bit 8 v)" "ucast v"] by (simp add: be16_be_bytes)
  show ?case
  proof (cases i)
    case 0
    with 1(2-) v show ?thesis by (simp add: set16_def)
  next
    case (Suc j)
    then obtain k where "i = Suc (Suc k)" using 1(2) by (cases j) auto
    with 1 show ?thesis by (simp add: set16_def)
  qed
qed (auto simp: set16_def)

lemma unat_not16: "unat (NOT (w :: u16)) = 65535 - unat w"
proof -
  have "NOT w = 0xFFFF - w" by (simp add: not_eq_complement)
  moreover have "w \<le> 0xFFFF"
    unfolding word_le_nat_alt using unsigned_less [of w, where ?'a = nat] by simp
  ultimately show ?thesis by (simp add: unat_sub)
qed

text \<open>The general fact: a checksum stored over a zero field makes the sum come out.\<close>

lemma checksum6_verifies:
  assumes "length src = 16" "length dst = 16" "length data < 65536" "nxt \<noteq> 0"
    and "even i" "i + 1 < length data" "data ! i = 0" "data ! (i + 1) = 0"
  shows "sums_to_zero src dst nxt (set16 data i (checksum6 src dst nxt data))"
proof -
  let ?p = "sum16 src + sum16 dst + length data + unat nxt"
  let ?w = "add_words (add_words (add_words 0 src) dst + of_nat (length data) + ucast nxt) data"
  let ?s = "fold_sum ?w"
  have b: "sum16 src \<le> 557048" "sum16 dst \<le> 557048" "2 * sum16 data \<le> 65535 * 65536" "unat nxt < 256"
    using sum16_le [of src] sum16_le [of dst] sum16_le [of data] assms(1-3) byte_bound [of nxt] by simp_all
  have h: "unat (add_words (add_words 0 src) dst) = sum16 src + sum16 dst"
    using b by (simp add: unat_add_words)
  have "unat (add_words (add_words 0 src) dst + of_nat (length data) + ucast nxt) = ?p"
    using b assms(3) h by (simp add: unat_word_ariths unat_of_nat unsigned_ucast_eq take_bit_nat_eq_self)
  then have w: "unat ?w = ?p + sum16 data" using b assms(3) by (simp add: unat_add_words)
  have "0 < unat nxt" using assms(4) by (simp add: unat_gt_0)
  then have "?w \<noteq> 0" using w by (metis add_is_0 less_numeral_extra(3) unsigned_0)
  then have s: "unat ?s < 65536" "unat ?s mod 65535 = (?p + sum16 data) mod 65535" "?s \<noteq> 0"
    using fold_sum_folds [of ?w] w by auto
  let ?c = "checksum6 src dst nxt data"
  have n: "unat (NOT (ucast ?s :: u16)) = 65535 - unat ?s"
    using s(1) by (simp add: unat_not16 unsigned_ucast_eq take_bit_nat_eq_self)
  have c: "(unat ?s + unat ?c) mod 65535 = 0"
  proof (cases "NOT (ucast ?s :: u16) = 0 \<and> nxt = IPPROTO_UDP")
    case True
    then have "unat (NOT (ucast ?s :: u16)) = 0" by (metis unsigned_0)
    then have "unat ?s = 65535" using n s(1) by linarith
    moreover have "?c = 0xFFFF" unfolding checksum6_def Let_def by (rule if_P) (rule True)
    ultimately show ?thesis by simp
  next
    case False
    then have "?c = NOT (ucast ?s)" unfolding checksum6_def Let_def by (rule if_not_P)
    then show ?thesis using n s(1) by simp
  qed
  have "(?p + (sum16 data + unat ?c)) mod 65535 = ((?p + sum16 data) mod 65535 + unat ?c) mod 65535"
    by (simp add: mod_simps add.assoc)
  also have "\<dots> = (unat ?s + unat ?c) mod 65535" by (simp add: s(2) [symmetric] mod_simps)
  finally show ?thesis using c sum16_set16 [OF assms(5-8)] by (simp add: sums_to_zero_def set16_def)
qed

section \<open>Frames as their receiver checks them\<close>

definition frame_ip :: "u8 list \<Rightarrow> u8 list" where
  "frame_ip f = drop (if be16 (f ! 12) (f ! 13) = VLAN_TPID then 18 else 14) f"

definition frame_ok :: "u8 list \<Rightarrow> bool" where
  "frame_ok f \<longleftrightarrow>
     (let ip = frame_ip f in
      40 \<le> length ip \<and> drop_bit 4 (ip ! 0) = 6 \<and> unat (be16 (ip ! 4) (ip ! 5)) = length ip - 40 \<and>
      ip ! 6 \<in> {IPPROTO_UDP, IPPROTO_ICMPV6} \<and>
      sums_to_zero (sub_bytes ip 8 24) (sub_bytes ip 24 40) (ip ! 6) (drop 40 ip))"

lemma frame_ip_build:
  assumes "length mac = 6"
  shows "frame_ip (build_ipv6_from vid mac ip nxt hop payload) =
           [0x60, 0, 0, 0] @ be_bytes16 (of_nat (length payload)) @ [nxt, hop] @ my_ip @ ip @ payload"
proof -
  obtain a b c d e g where "mac = [a, b, c, d, e, g]"
    using assms by (auto simp: length_Suc_conv numeral_eq_Suc)
  then show ?thesis
    by (simp add: frame_ip_def build_ipv6_from_def my_mac_def be_bytes16_def VLAN_TPID_def ETHERTYPE_IPV6_def
        be16_def le16_def)
qed

lemma length_set16 [simp]: "length (set16 d i v) = length d"
  by (simp add: set16_def)

lemma frame_ok_build:
  assumes "length mac = 6" "length ip = 16" "length payload < 65536" "nxt \<in> {IPPROTO_UDP, IPPROTO_ICMPV6}"
    and "sums_to_zero my_ip ip nxt payload"
  shows "frame_ok (build_ipv6_from vid mac ip nxt hop payload)"
proof -
  let ?ip = "[0x60, 0, 0, 0] @ be_bytes16 (of_nat (length payload)) @ [nxt, hop] @ my_ip @ ip @ payload"
  have "length ?ip = 40 + length payload" using assms(2) by (simp add: my_ip_def be_bytes16_def)
  moreover have "drop 40 ?ip = payload" "sub_bytes ?ip 8 24 = my_ip" "sub_bytes ?ip 24 40 = ip"
    using assms(2) by (simp_all add: my_ip_def be_bytes16_def)
  moreover have "unat (of_nat (length payload) :: u16) = length payload"
    using assms(3) by (simp add: unat_of_nat)
  ultimately show ?thesis
    using assms(4,5) unfolding frame_ok_def frame_ip_build [OF assms(1)]
    by (simp add: be_bytes16_def be16_be_bytes)
qed

lemma frame_ok_icmp:
  assumes "length mac = 6" "length ip = 16" "length icmp < 65536" "3 < length icmp" "icmp ! 2 = 0" "icmp ! 3 = 0"
  shows "frame_ok (build_ipv6_from vid mac ip IPPROTO_ICMPV6 hop (icmp_sum ip icmp))"
  unfolding icmp_sum_def
proof (rule frame_ok_build [OF assms(1,2)])
  show "sums_to_zero my_ip ip IPPROTO_ICMPV6 (set16 icmp 2 (checksum6 my_ip ip IPPROTO_ICMPV6 icmp))"
    by (rule checksum6_verifies) (use assms in \<open>simp_all add: my_ip_def IPPROTO_ICMPV6_def\<close>)
qed (use assms in simp_all)

lemma frame_ok_udp:
  assumes "length mac = 6" "length ip = 16" "length payload < 65528"
  shows "frame_ok (build_udp6 vid mac ip dp sp payload)"
  using assms unfolding build_udp6_def udp_segment_def Let_def
  by (intro frame_ok_build checksum6_verifies)
    (simp_all add: my_ip_def IPPROTO_UDP_def be_bytes16_def)

lemma frame_ok_control:
  assumes "length mac = 6" "length ip = 16"
  shows "frame_ok (build_neighbor_advert vid mac ip)" "frame_ok (build_echo_request vid mac ip)"
    and "4 \<le> length req \<Longrightarrow> length req < 65536 \<Longrightarrow> frame_ok (build_echo_reply vid mac ip req)"
  unfolding build_neighbor_advert_def build_echo_request_def build_echo_reply_def
  by (intro frame_ok_icmp assms; simp add: my_ip_def my_mac_def)+

section \<open>The backlog\<close>

lemma set_remove_first: "set (remove_first p xs) \<subseteq> set xs"
  by (induction xs) auto

lemma set_evict_one: "set (evict_one N q) \<subseteq> set q"
proof -
  have "set (tl q) \<subseteq> set q" by (cases q) auto
  then show ?thesis by (simp add: evict_one_def set_remove_first split: option.split)
qed

lemma trim_rx_frame:
  "length (rx (trim_rx N b)) \<le> RX_BACKLOG_CAP" "set (rx (trim_rx N b)) \<subseteq> set (rx b)"
  "sp_by_vid (trim_rx N b) = sp_by_vid b" "peer_by_vid (trim_rx N b) = peer_by_vid b"
  "socks (trim_rx N b) = socks b" "datagrams (trim_rx N b) = datagrams b"
proof (induction N b rule: trim_rx.induct)
  case (1 N b)
  note IH = 1
  {
    case 1 show ?case using IH(1) by (subst trim_rx.simps) (simp add: not_less)
  next
    case 2 show ?case using IH(2) set_evict_one [of N "rx b"] by (subst trim_rx.simps) auto
  next
    case 3 show ?case using IH(3) by (subst trim_rx.simps) simp
  next
    case 4 show ?case using IH(4) by (subst trim_rx.simps) simp
  next
    case 5 show ?case using IH(5) by (subst trim_rx.simps) simp
  next
    case 6 show ?case using IH(6) by (subst trim_rx.simps) simp
  }
qed

lemma push_rx_frame:
  "length (rx (push_rx N fl f b)) \<le> RX_BACKLOG_CAP" "set (rx (push_rx N fl f b)) \<subseteq> insert (fl, f) (set (rx b))"
  "sp_by_vid (push_rx N fl f b) = sp_by_vid b" "peer_by_vid (push_rx N fl f b) = peer_by_vid b"
  "socks (push_rx N fl f b) = socks b" "datagrams (push_rx N fl f b) = datagrams b"
  using trim_rx_frame [of N "b\<lparr>rx := rx b @ [(fl, f)]\<rparr>"] by (auto simp: push_rx_def)

lemma push_rx_small: "length (rx b) < 32 \<Longrightarrow> push_rx N fl f b = b\<lparr>rx := rx b @ [(fl, f)]\<rparr>"
  unfolding push_rx_def by (subst trim_rx.simps) (simp add: RX_BACKLOG_CAP_def)

lemma rx_after_push: "fr \<in> set (rx (push_rx N fl f b)) \<Longrightarrow> fr = (fl, f) \<or> fr \<in> set (rx b)"
  using push_rx_frame(2) [of N fl f b] by auto

section \<open>Every frame queued is one its receiver accepts\<close>

definition bridge_inv :: "bridge \<Rightarrow> bool" where
  "bridge_inv b \<longleftrightarrow>
     length (rx b) \<le> RX_BACKLOG_CAP \<and> (\<forall>e \<in> set (rx b). frame_ok (snd e)) \<and>
     (\<forall>vid mac ip. sp_by_vid b vid = Some (mac, ip) \<longrightarrow> length mac = 6 \<and> length ip = 16)"

lemma bridge_inv_push:
  assumes "bridge_inv b" "frame_ok f"
  shows "bridge_inv (push_rx N fl f b)"
  unfolding bridge_inv_def push_rx_frame(3)
proof (intro conjI ballI)
  show "length (rx (push_rx N fl f b)) \<le> RX_BACKLOG_CAP" by (rule push_rx_frame(1))
  show "frame_ok (snd e)" if "e \<in> set (rx (push_rx N fl f b))" for e
    using rx_after_push [OF that] assms by (auto simp: bridge_inv_def)
qed (use assms(1) in \<open>simp add: bridge_inv_def\<close>)

lemma bridge_inv_known: "bridge_inv b \<Longrightarrow> sp_by_vid b vid = Some (mac, ip) \<Longrightarrow> length mac = 6 \<and> length ip = 16"
  by (auto simp: bridge_inv_def)

lemma bridge_inv_icmp:
  assumes "bridge_inv b" "length src_ip = 16" "length p < 65536"
  shows "bridge_inv (handle_icmp6 N vid src_ip p b)"
proof (cases "sp_by_vid b vid")
  case (Some e)
  obtain mac ip where e: "e = (mac, ip)" by force
  then have "length mac = 6" using Some assms(1) by (auto dest: bridge_inv_known)
  then show ?thesis
    using assms Some e by (simp add: handle_icmp6_def bridge_inv_push frame_ok_control)
qed (simp add: handle_icmp6_def assms(1))

lemma bridge_inv_udp_tx: "bridge_inv b \<Longrightarrow> bridge_inv (handle_udp_tx N vid udp b)"
  by (simp add: handle_udp_tx_def bridge_inv_def Let_def split: option.split)

lemma bridge_inv_learn:
  assumes "bridge_inv b" "length src_mac = 6" "length src_ip = 16"
  shows "bridge_inv (learn_sp N ping vid src_mac src_ip b)"
proof -
  have "bridge_inv (b\<lparr>sp_by_vid := (sp_by_vid b)(vid \<mapsto> (src_mac, src_ip))\<rparr>)"
    using assms by (simp add: bridge_inv_def)
  then show ?thesis using assms by (simp add: learn_sp_def Let_def bridge_inv_push frame_ok_control)
qed

lemma bridge_inv_tx:
  assumes "bridge_inv b" "length f < 65536"
  shows "bridge_inv (handle_tx N ping f b)"
  using assms unfolding handle_tx_def Let_def
  by (auto intro!: bridge_inv_udp_tx bridge_inv_icmp bridge_inv_learn)

lemma bridge_inv_relay: "bridge_inv b \<Longrightarrow> bridge_inv (relay N d b)"
proof -
  assume b: "bridge_inv b"
  obtain s src data where d: "d = (s, src, data)" by (cases d)
  let ?b = "b\<lparr>peer_by_vid := (peer_by_vid b)((bs_vid s, bs_port s) \<mapsto> src)\<rparr>"
  have i: "bridge_inv ?b" using b by (simp add: bridge_inv_def)
  show ?thesis
  proof (cases "sp_by_vid b (bs_vid s)")
    case (Some e)
    then obtain mac ip where e: "sp_by_vid b (bs_vid s) = Some (mac, ip)" by (cases e) simp
    then have "frame_ok (build_udp6 (bs_vid s) mac ip (bs_port s) (sa_port src) (take 2048 data))"
      using bridge_inv_known [OF b e] by (intro frame_ok_udp) auto
    then show ?thesis using e i by (simp add: relay_def d bridge_inv_push)
  qed (simp add: relay_def d i)
qed

lemma bridge_inv_poll: "bridge_inv b \<Longrightarrow> bridge_inv (poll_host N inbox b)"
proof -
  assume b: "bridge_inv b"
  have "bridge_inv (fold (relay N) ds c)" if "bridge_inv c" for ds c
    using that by (induction ds arbitrary: c) (simp_all add: bridge_inv_relay)
  moreover have "bridge_inv (b\<lparr>n_recv := k\<rparr>)" for k using b by (simp add: bridge_inv_def)
  ultimately show ?thesis by (simp add: poll_host_def Let_def)
qed

lemma bridge_inv_rx: "bridge_inv b \<Longrightarrow> bridge_inv (snd (bridge_eth_rx b))"
proof -
  assume b: "bridge_inv b"
  have l: "length (remove_first p xs) \<le> length xs" for p and xs :: "(u16 \<times> u8 list) list"
    by (induction xs) auto
  have sub: "bridge_inv (b\<lparr>n_pop := k, rx := q\<rparr>)" if "set q \<subseteq> set (rx b)" "length q \<le> length (rx b)" for k q
    using b that by (auto simp: bridge_inv_def)
  have "bridge_inv (b\<lparr>n_pop := k, rx := remove_first p (rx b)\<rparr>)" for k p
    by (rule sub [OF set_remove_first l])
  moreover have "rx b = e # es \<Longrightarrow> bridge_inv (b\<lparr>n_pop := k, rx := es\<rparr>)" for k e es
    by (rule sub) auto
  ultimately show ?thesis using b by (simp add: bridge_eth_rx_def split: option.split list.split)
qed

datatype bridge_op = Op_tx "u8 list" | Op_poll "(sock_addr \<times> u8 list) list list" | Op_rx

fun bridge_step :: "net_env \<Rightarrow> bool \<Rightarrow> bridge_op \<Rightarrow> bridge \<Rightarrow> bridge" where
  "bridge_step N ping (Op_tx f) b = handle_tx N ping f b"
| "bridge_step N ping (Op_poll inbox) b = poll_host N inbox b"
| "bridge_step N ping Op_rx b = snd (bridge_eth_rx b)"

fun op_small :: "bridge_op \<Rightarrow> bool" where
  "op_small (Op_tx f) = (length f < 65536)"
| "op_small (Op_poll inbox) = True"
| "op_small Op_rx = True"

text \<open>
  C13: Whatever the processor sends (frames up to 64 KiB) and whatever the host delivers, in any
  order of transmits, polls and receives from a fresh bridge, at most 32 frames wait for the
  processor, and each is one its IPv6 stack accepts: version and length fields that match the
  frame, a known next header, and a checksum that comes out over the pseudo-header by the
  definition of the Internet checksum on the natural numbers.
\<close>

theorem bridge_frames_acceptable:
  assumes "\<forall>oper \<in> set ops. op_small oper"
  shows "length (rx (fold (bridge_step N ping) ops (from_socks ss uart))) \<le> 32 \<and>
         (\<forall>e \<in> set (rx (fold (bridge_step N ping) ops (from_socks ss uart))). frame_ok (snd e))"
proof -
  have step: "bridge_inv (bridge_step N ping oper c)" if "bridge_inv c" "op_small oper" for oper c
    using that by (cases oper) (simp_all add: bridge_inv_tx bridge_inv_poll bridge_inv_rx)
  have "bridge_inv (from_socks ss uart)" by (simp add: bridge_inv_def from_socks_def)
  then have "bridge_inv (fold (bridge_step N ping) ops (from_socks ss uart))"
    by (rule fold_invariant [where Q = op_small, rotated]) (simp_all only: assms [rule_format] step)
  then show ?thesis unfolding bridge_inv_def RX_BACKLOG_CAP_def by blast
qed

text \<open>A solicitation for the bridge, on the first view of a gimlet, and what it sets off.\<close>

definition plain_net :: net_env where
  "plain_net = \<lparr>map_order = (\<lambda>fs. fs), send_ok = (\<lambda>i d a. True)\<rparr>"

definition solicit_frame :: "u8 list" where
  "solicit_frame =
     [0x33, 0x33, 0xff, 0, 0, 1, 2, 8, 0x20, 0, 0, 7] @ be_bytes16 VLAN_TPID @ be_bytes16 0x301 @
     be_bytes16 ETHERTYPE_IPV6 @ [0x60, 0, 0, 0, 0, 32, 58, 255] @ [0xfe, 0x80, 0, 0, 0, 0, 0, 0, 0, 0, 0, 0, 0, 0, 0, 9] @
     [0xff, 2, 0, 0, 0, 0, 0, 0, 0, 0, 0, 0, 0, 0, 0, 1] @ [135, 0, 0, 0, 0, 0, 0, 0] @ my_ip @ [1, 1, 2, 8, 0x20, 0, 0, 7]"

theorem bridge_frames_acceptable_witness:
  "rx (fold (bridge_step plain_net True) [Op_tx solicit_frame, Op_rx] (from_socks [] False)) \<noteq> [] \<and>
   frame_ok (snd (hd (rx (fold (bridge_step plain_net True) [Op_tx solicit_frame, Op_rx] (from_socks [] False)))))"
proof -
  have "rx (fold (bridge_step plain_net True) [Op_tx solicit_frame, Op_rx] (from_socks [] False)) \<noteq> []"
    by (simp add: handle_tx_def learn_sp_def handle_icmp6_def push_rx_small from_socks_def solicit_frame_def
        be_bytes16_def VLAN_TPID_def ETHERTYPE_IPV6_def IPPROTO_ICMPV6_def be16_def le16_def my_ip_def
        bridge_eth_rx_def Let_def)
  moreover have "\<forall>oper \<in> set [Op_tx solicit_frame, Op_rx]. op_small oper"
    by (simp add: solicit_frame_def be_bytes16_def my_ip_def)
  ultimately show ?thesis
    using bridge_frames_acceptable [of "[Op_tx solicit_frame, Op_rx]" plain_net True "[]" False] hd_in_set by blast
qed

section \<open>Eviction is fair to the flows\<close>

lemma max_by_count_Some:
  "fs \<noteq> [] \<Longrightarrow> \<exists>v. max_by_count c fs = Some v \<and> v \<in> set fs \<and> (\<forall>f \<in> set fs. c f \<le> c v)"
proof (induction fs)
  case (Cons g gs)
  show ?case
  proof (cases gs)
    case Nil
    then show ?thesis by simp
  next
    case (Cons h hs)
    then obtain v where "max_by_count c gs = Some v" "v \<in> set gs" "\<forall>f \<in> set gs. c f \<le> c v"
      using Cons.IH by auto
    then show ?thesis by (cases "c g \<le> c v") (auto intro: order_trans)
  qed
qed simp

lemma filter_remove_first: "(\<And>x. p x \<Longrightarrow> \<not> r x) \<Longrightarrow> filter r (remove_first p xs) = filter r xs"
  by (induction xs) auto

text \<open>
  When the backlog is full, a new frame costs the oldest frame of a busiest client flow, the
  new frame counted; control frames (flow 0: neighbour advertisements and echoes) are never
  the victims while a client's frame is queued, and stay in their order.
\<close>

theorem full_backlog_evicts_busiest:
  assumes order: "\<And>xs. set (map_order N xs) = set xs"
    and full: "length (rx b) = 32"
    and client: "\<exists>e \<in> set (rx b @ [(flow, frame)]). fst e \<noteq> 0"
  shows "\<exists>v. v \<noteq> 0 \<and>
           (\<forall>f. f \<noteq> 0 \<longrightarrow> flow_count (rx b @ [(flow, frame)]) f \<le> flow_count (rx b @ [(flow, frame)]) v) \<and>
           rx (push_rx N flow frame b) = remove_first (\<lambda>e. fst e = v) (rx b @ [(flow, frame)]) \<and>
           filter (\<lambda>e. fst e = 0) (rx (push_rx N flow frame b)) =
             filter (\<lambda>e. fst e = 0) (rx b @ [(flow, frame)])"
proof -
  let ?q = "rx b @ [(flow, frame)]"
  let ?fs = "filter (\<lambda>f. f \<noteq> 0) (map_order N (remdups (map fst ?q)))"
  have fs: "set ?fs = {f \<in> set (map fst ?q). f \<noteq> 0}" by (auto simp: order)
  then have "?fs \<noteq> []" using client by (metis (mono_tags, lifting) empty_iff empty_set image_eqI list.set_map mem_Collect_eq)
  then obtain v where v: "busiest N ?q = Some v" "v \<in> set ?fs" "\<forall>f \<in> set ?fs. flow_count ?q f \<le> flow_count ?q v"
    using max_by_count_Some [of ?fs "flow_count ?q"] unfolding busiest_def by blast
  have "flow_count ?q f \<le> flow_count ?q v" if "f \<noteq> 0" for f
  proof (cases "f \<in> set (map fst ?q)")
    case True
    then show ?thesis using v(3) fs that by blast
  next
    case False
    then have "flow_count ?q f = 0" unfolding flow_count_def by (rule count_notin)
    then show ?thesis by simp
  qed
  moreover have v0: "v \<noteq> 0" "v \<in> set (map fst ?q)" using v(2) fs by blast+
  then have e: "evict_one N ?q = remove_first (\<lambda>e. fst e = v) ?q" using v(1) by (simp only: evict_one_def) simp
  have "length (evict_one N ?q) = 32" using full by (simp add: length_evict_one)
  then have "rx (push_rx N flow frame b) = evict_one N ?q"
    using full unfolding push_rx_def by (simp add: trim_rx.simps [of N] RX_BACKLOG_CAP_def)
  ultimately show ?thesis using v0(1) e by (intro exI [of _ v]) (simp add: filter_remove_first)
qed

definition busy_bridge :: bridge where
  "busy_bridge = (from_socks [] False)\<lparr>rx := (0, [1]) # replicate 20 (5, [2]) @ replicate 11 (7, [3])\<rparr>"

theorem full_backlog_evicts_busiest_witness:
  "\<exists>v. v \<noteq> 0 \<and>
     rx (push_rx plain_net 7 [4] busy_bridge) = remove_first (\<lambda>e. fst e = v) (rx busy_bridge @ [(7, [4])]) \<and>
     filter (\<lambda>e. fst e = 0) (rx (push_rx plain_net 7 [4] busy_bridge)) = [(0, [1])]"
proof -
  have "length (rx busy_bridge) = 32" by (simp add: busy_bridge_def)
  moreover have "filter (\<lambda>e. fst e = 0) (rx busy_bridge @ [(7, [4])]) = [(0, [1])]"
    by (simp add: busy_bridge_def)
  ultimately show ?thesis
    using full_backlog_evicts_busiest [of plain_net busy_bridge 7 "[4]"] by (auto simp: plain_net_def)
qed

section \<open>The relay\<close>

text \<open>The layout of a tagged UDP datagram over IPv6, in either direction.\<close>

definition udp_frame ::
  "u8 list \<Rightarrow> u8 list \<Rightarrow> u16 \<Rightarrow> u8 list \<Rightarrow> u8 list \<Rightarrow> u16 \<Rightarrow> u16 \<Rightarrow> u8 list \<Rightarrow> u16 \<Rightarrow> u8 list" where
  "udp_frame dst_mac src_mac vid src_ip dst_ip src_port dst_port payload ck =
     dst_mac @ src_mac @ be_bytes16 VLAN_TPID @ be_bytes16 vid @ be_bytes16 ETHERTYPE_IPV6 @ [0x60, 0, 0, 0] @
     be_bytes16 (of_nat (8 + length payload)) @ [IPPROTO_UDP, 64] @ src_ip @ dst_ip @
     be_bytes16 src_port @ be_bytes16 dst_port @ be_bytes16 (of_nat (8 + length payload)) @
     be_bytes16 ck @ payload"

lemma length_6E: "length mac = 6 \<Longrightarrow> \<exists>a b c d e f. mac = [a, b, c, d, e, f]"
  by (auto simp: length_Suc_conv numeral_eq_Suc)

lemma build_udp6_frame:
  "vid \<noteq> 0 \<Longrightarrow> \<exists>ck. build_udp6 vid mac ip dp sp data = udp_frame mac my_mac vid my_ip ip sp dp data ck"
  by (intro exI [of _ "checksum6 my_ip ip IPPROTO_UDP (be_bytes16 sp @ be_bytes16 dp @
        be_bytes16 (of_nat (8 + length data)) @ [0, 0] @ data)"])
    (simp add: build_udp6_def udp_segment_def Let_def build_ipv6_from_def udp_frame_def set16_def be_bytes16_def)

lemma handle_tx_udp:
  assumes "length mac = 6" "length ip = 16" "vid AND 0xFFF = vid"
  shows "handle_tx N ping (udp_frame my_mac mac vid ip my_ip sp dp payload ck) b =
           handle_udp_tx N vid (be_bytes16 sp @ be_bytes16 dp @ be_bytes16 (of_nat (8 + length payload)) @
             be_bytes16 ck @ payload) (learn_sp N ping vid mac ip b)"
proof -
  obtain a1 a2 a3 a4 a5 a6 where m: "mac = [a1, a2, a3, a4, a5, a6]" using length_6E [OF assms(1)] by blast
  have c: "be16 129 33024 = 0x8100" "be16 134 34525 = 0x86DD" by (simp_all add: be16_def le16_def)
  show ?thesis using assms(2,3)
    by (simp add: handle_tx_def udp_frame_def m my_mac_def be_bytes16_def VLAN_TPID_def ETHERTYPE_IPV6_def
        IPPROTO_UDP_def IPPROTO_ICMPV6_def be16_be_bytes Let_def my_ip_def c)
qed

lemma poll_one:
  "j < length ss \<Longrightarrow>
     concat (map (\<lambda>(s, ds). map (\<lambda>d. (s, d)) ds) (zip ss (replicate j [] @ [[d]]))) = [(ss ! j, d)]"
proof (induction j arbitrary: ss)
  case 0
  then show ?case by (cases ss) auto
next
  case (Suc j)
  then show ?case by (cases ss) auto
qed

text \<open>
  C11: A datagram a client sends to a socket of the bridge arrives at the processor as a UDP frame
  of that view: its VLAN, the processor's MAC and address there, the client's port as source
  and the socket's port as destination. What the processor answers to that port, on that VLAN
  and from that socket's port, goes to the client's address and port, with the payload as
  sent; it leaves through the first bound socket of that view and port.
\<close>

theorem relay_round_trip:
  assumes sock: "j < length (socks b)" "socks b ! j = \<lparr>bs_vid = vid, bs_port = port\<rparr>"
      "find_sock (socks b) vid port = Some i"
    and sp: "sp_by_vid b vid = Some (mac, ip)" "length mac = 6" "length ip = 16"
    and vid: "vid \<noteq> 0" "vid AND 0xFFF = vid"
    and idle: "rx b = []" and small: "length data \<le> 2048" and ok: "send_ok N i answer src"
  shows "(\<exists>ck'. fst (bridge_eth_rx (poll_host N (replicate j [] @ [[(src, data)]]) b)) =
                 Some (udp_frame mac my_mac vid my_ip ip (sa_port src) port data ck')) \<and>
         datagrams (handle_tx N ping (udp_frame my_mac mac vid ip my_ip port (sa_port src) answer ck)
           (snd (bridge_eth_rx (poll_host N (replicate j [] @ [[(src, data)]]) b)))) =
           datagrams b @ [(i, answer, src)]"
proof -
  let ?f = "build_udp6 vid mac ip port (sa_port src) data"
  let ?b = "b\<lparr>n_recv := n_recv b + 1, peer_by_vid := (peer_by_vid b)((vid, port) \<mapsto> src)\<rparr>"
  have "poll_host N (replicate j [] @ [[(src, data)]]) b = push_rx N (sa_port src) ?f ?b"
    using sp(1) small by (simp add: poll_host_def Let_def poll_one [OF sock(1)] sock(2) relay_def)
  also have "\<dots> = ?b\<lparr>rx := [(sa_port src, ?f)]\<rparr>" using idle by (simp add: push_rx_small)
  finally have r: "bridge_eth_rx (poll_host N (replicate j [] @ [[(src, data)]]) b) =
      (Some ?f, ?b\<lparr>n_pop := n_pop b + 1, rx := []\<rparr>)"
    by (simp add: bridge_eth_rx_def)
  have "learn_sp N ping vid mac ip (?b\<lparr>n_pop := n_pop b + 1, rx := []\<rparr>) =
      ?b\<lparr>n_pop := n_pop b + 1, rx := []\<rparr>"
    using sp(1) by (simp add: learn_sp_def Let_def map_upd_triv)
  moreover obtain a p where src: "src = \<lparr>sa_ip = a, sa_port = p\<rparr>" by (cases src)
  ultimately have "datagrams (handle_tx N ping (udp_frame my_mac mac vid ip my_ip port (sa_port src) answer ck)
      (snd (bridge_eth_rx (poll_host N (replicate j [] @ [[(src, data)]]) b)))) = datagrams b @ [(i, answer, src)]"
    using sock(3) ok unfolding handle_tx_udp [OF sp(2,3) vid(2)] r
    by (simp add: handle_udp_tx_def be_bytes16_def Let_def src)
  moreover have "\<exists>ck'. fst (bridge_eth_rx (poll_host N (replicate j [] @ [[(src, data)]]) b)) =
      Some (udp_frame mac my_mac vid my_ip ip (sa_port src) port data ck')"
    using build_udp6_frame [OF vid(1)] by (simp add: r)
  ultimately show ?thesis by blast
qed

text \<open>
  The witness is the default socket table when every port can be bound: a client of the real
  ereport port is answered from the offset relay's socket, which has the same view and port.
\<close>

definition default_bridge :: bridge where
  "default_bridge = (the (bridge_new (\<lambda>_. True) 33300 (0x301, 0x302) False))
     \<lparr>sp_by_vid := [0x301 \<mapsto> ([2, 8, 0x20, 0, 0, 7], [0xfe, 0x80, 0, 0, 0, 0, 0, 0, 0, 0, 0, 0, 0, 0, 0, 9])]\<rparr>"

theorem relay_round_trip_witness:
  "length (socks default_bridge) = 5 \<and>
   datagrams (handle_tx plain_net False
     (udp_frame my_mac [2, 8, 0x20, 0, 0, 7] 0x301 [0xfe, 0x80, 0, 0, 0, 0, 0, 0, 0, 0, 0, 0, 0, 0, 0, 9] my_ip
        57005 4000 [1, 2] 0)
     (snd (bridge_eth_rx (poll_host plain_net
        (replicate 4 [] @ [[(\<lparr>sa_ip = ''::1'', sa_port = 4000\<rparr>, [3])]]) default_bridge)))) =
     [(1, [1, 2], \<lparr>sa_ip = ''::1'', sa_port = 4000\<rparr>)]"
proof -
  have k: "socks default_bridge =
      [\<lparr>bs_vid = 0x301, bs_port = 11111\<rparr>, \<lparr>bs_vid = 0x301, bs_port = 57005\<rparr>,
       \<lparr>bs_vid = 0x302, bs_port = 11111\<rparr>, \<lparr>bs_vid = 0x302, bs_port = 57005\<rparr>,
       \<lparr>bs_vid = 0x301, bs_port = 57005\<rparr>]"
    and d: "datagrams default_bridge = []" "rx default_bridge = []"
    and s: "sp_by_vid default_bridge 0x301 =
      Some ([2, 8, 0x20, 0, 0, 7], [0xfe, 0x80, 0, 0, 0, 0, 0, 0, 0, 0, 0, 0, 0, 0, 0, 9])"
    by (simp_all add: default_bridge_def bridge_new_def from_socks_def sock_if_def)
  show ?thesis
    using relay_round_trip [where j = 4 and b = default_bridge and vid = "0x301" and port = 57005 and i = 1
        and N = plain_net and src = "\<lparr>sa_ip = ''::1'', sa_port = 4000\<rparr>" and data = "[3]" and ping = False
        and answer = "[1, 2]" and ck = 0, OF _ _ _ s] d
    by (simp add: k plain_net_def)
qed

end
