(* ===== verification/Identity.thy ===== *)
theory Identity
  imports Vpd
begin

text \<open>
  The identity of an emulated instance (\<open>src/identity.rs\<close>): every identity field is derived
  from one master seed, the seed comes from the command line, the identity file or fresh
  randomness, and its source is kept in the identity file. SHA3-256 is the parameter \<open>H\<close>; a
  file is its text, \<open>None\<close> when it cannot be read, and the text is ASCII.
\<close>

unbundle bit_operations_syntax

section \<open>The fields\<close>

record identity =
  id_sp_uid :: "u8 list"
  id_rot_uuid :: "u8 list"
  id_dice_cdi :: "u8 list"
  id_puf_uds :: "u8 list"
  id_mac :: "u8 list"

definition derive :: "(u8 list \<Rightarrow> u8 list) \<Rightarrow> u8 list \<Rightarrow> string \<Rightarrow> nat \<Rightarrow> u8 list" where
  "derive H master tag n = take n (H (master @ ascii tag))"

definition words_to_le_bytes :: "u32 list \<Rightarrow> u8 list" where
  "words_to_le_bytes ws = concat (map le_bytes32 ws)"

definition shape_uuid :: "u8 list \<Rightarrow> u8 list" where
  "shape_uuid u = u[6 := (u ! 6 AND 0x0f) OR 0x30, 8 := (u ! 8 AND 0x3f) OR 0x80]"

definition shape_mac :: "u8 list \<Rightarrow> u8 list" where
  "shape_mac m = m[0 := (m ! 0 OR 0x02) AND NOT 0x01]"

definition from_master :: "(u8 list \<Rightarrow> u8 list) \<Rightarrow> u8 list \<Rightarrow> identity" where
  "from_master H master =
     \<lparr>id_sp_uid = derive H master ''sp-emu/stm32h753-uid'' 12,
      id_rot_uuid = shape_uuid (derive H master ''sp-emu/lpc55-device-uuid'' 16),
      id_dice_cdi = derive H master ''sp-emu/lpc55-dice-cdi'' 32,
      id_puf_uds = derive H master ''sp-emu/lpc55-puf-uds'' 32,
      id_mac = shape_mac (derive H master ''sp-emu/vpd-mac-base'' 6)\<rparr>"

definition LEGACY_MASTER :: "u8 list" where
  "LEGACY_MASTER = ascii ''sp-emu-legacy-identity-master-v1''"

definition LEGACY_SP_UID_WORDS :: "u32 list" where
  "LEGACY_SP_UID_WORDS = [0x53504D45, 0x2D454D55, 0x00000001]"

definition LEGACY_DICE_CDI_WORDS :: "u32 list" where
  "LEGACY_DICE_CDI_WORDS =
     [0xc0ded1ce, 0x0badf00d, 0x12345678, 0x9abcdef0, 0x0f1e2d3c, 0x4b5a6978, 0x8796a5b4, 0xc3d2e1f0]"

definition LEGACY_PUF_UDS :: "u8 list" where
  "LEGACY_PUF_UDS =
     [0x53, 0x50, 0x2d, 0x45, 0x4d, 0x55, 0x2d, 0x50, 0x55, 0x46, 0x2d, 0x64,
      0x69, 0x63, 0x65, 0x2d, 0x73, 0x65, 0x65, 0x64, 0x2d, 0x76, 0x31, 0x2e,
      0x30, 0x2e, 0x30, 0x2d, 0x21, 0x21, 0x21, 0x21]"

definition legacy :: "(u8 list \<Rightarrow> u8 list) \<Rightarrow> identity" where
  "legacy H = (from_master H LEGACY_MASTER)
     \<lparr>id_sp_uid := words_to_le_bytes LEGACY_SP_UID_WORDS,
      id_dice_cdi := words_to_le_bytes LEGACY_DICE_CDI_WORDS, id_puf_uds := LEGACY_PUF_UDS\<rparr>"

definition dice_cdi_words :: "identity \<Rightarrow> u32 list" where
  "dice_cdi_words i =
     map (\<lambda>k. le32 (id_dice_cdi i ! (k * 4)) (id_dice_cdi i ! (k * 4 + 1)) (id_dice_cdi i ! (k * 4 + 2))
                (id_dice_cdi i ! (k * 4 + 3))) [0..<8]"

section \<open>Seed sources\<close>

definition ascii_lower :: "char \<Rightarrow> char" where
  "ascii_lower c = (let n = of_char c :: nat in if 65 \<le> n \<and> n \<le> 90 then char_of (n + 32) else c)"

text \<open>At most sixteen characters, then \<open>u64::from_str_radix\<close>.\<close>

definition parse_hex_u64 :: "string \<Rightarrow> nat option" where
  "parse_hex_u64 hex =
     (if hex = [] \<or> 16 < length hex then None else parse_uint 16 (2 ^ 64 - 1) hex)"

definition le_bytes64 :: "nat \<Rightarrow> u8 list" where
  "le_bytes64 n = map (\<lambda>i. of_nat (n div 256 ^ i)) [0..<8]"

definition hex_prefix :: "string \<Rightarrow> string option" where
  "hex_prefix s = (case strip_prefix ''0x'' s of Some t \<Rightarrow> Some t | None \<Rightarrow> strip_prefix ''0X'' s)"

definition identity_from_source :: "(u8 list \<Rightarrow> u8 list) \<Rightarrow> string \<Rightarrow> identity option" where
  "identity_from_source H source =
     (let s = trim source in
      if map ascii_lower s = ''legacy'' then Some (legacy H)
      else case hex_prefix s of
             Some hex \<Rightarrow> map_option (\<lambda>n. from_master H (H (le_bytes64 n))) (parse_hex_u64 hex)
           | None \<Rightarrow> Some (from_master H (H (ascii s))))"

section \<open>The identity file\<close>

fun first_seed :: "string list \<Rightarrow> string option" where
  "first_seed [] = None"
| "first_seed (l # ls) =
     (case strip_prefix ''seed'' (trim l) of
        None \<Rightarrow> first_seed ls
      | Some v \<Rightarrow>
          (let w = trim (dropWhile (\<lambda>c. c = CHR '' '' \<or> c = CHR ''='') v) in
           if w \<noteq> [] then Some w else first_seed ls))"

definition load_source :: "string option \<Rightarrow> string option" where
  "load_source file = (case file of None \<Rightarrow> None | Some t \<Rightarrow> first_seed (text_lines t))"

definition save_source :: "string \<Rightarrow> string" where
  "save_source source =
     ''# sp-emu per-instance identity (see src/identity.rs)'' @ CHR 0x0A #
     ''# Delete this file to mint a new identity, or pass --seed to set one.'' @ CHR 0x0A #
     ''# Sources: `legacy`, a 0x-prefixed hex u64, or any string.'' @ CHR 0x0A #
     ''seed = '' @ source @ [CHR 0x0A]"

definition hex_016 :: "nat \<Rightarrow> string" where
  "hex_016 n = (let s = print_uint 16 n in replicate (16 - length s) CHR ''0'' @ s)"

text \<open>Eight bytes of the system's randomness, little-endian, or none.\<close>

definition random_source :: "nat option \<Rightarrow> string" where
  "random_source r = (case r of Some n \<Rightarrow> ''0x'' @ hex_016 n | None \<Rightarrow> ''legacy'')"

text \<open>
  \<open>init\<close>: the identity (none when the seed is refused) and the identity file after it. What a
  write leaves in the file is the parameter \<open>fs_write\<close>: the text, or anything else when it fails,
  which is reported and nothing more.
\<close>

definition init_identity ::
  "(u8 list \<Rightarrow> u8 list) \<Rightarrow> (string option \<Rightarrow> string \<Rightarrow> string option) \<Rightarrow> string option \<Rightarrow> nat option \<Rightarrow>
     string option \<Rightarrow> identity option \<times> string option" where
  "init_identity H fs_write seed_arg rnd file =
     (case seed_arg of
        Some s \<Rightarrow> (identity_from_source H s, fs_write file (save_source s))
      | None \<Rightarrow>
          (case load_source file of
             Some s \<Rightarrow> (identity_from_source H s, file)
           | None \<Rightarrow>
               (identity_from_source H (random_source rnd), fs_write file (save_source (random_source rnd)))))"

section \<open>Properties\<close>

text \<open>\<open>trim\<close> cuts the white space off both ends and nothing else.\<close>

lemma trim_wrap:
  assumes "\<forall>c \<in> set w1. is_ws c" "\<forall>c \<in> set w2. is_ws c" "core \<noteq> []" "\<not> is_ws (hd core)" "\<not> is_ws (last core)"
  shows "trim (w1 @ core @ w2) = core"
proof -
  have "dropWhile is_ws (w1 @ core @ w2) = core @ w2"
    using assms(1,3,4) by (simp add: dropWhile_hd)
  moreover have "dropWhile is_ws (rev w2 @ rev core) = rev core"
    using assms(2,3,5) by (subst dropWhile_append2) (auto intro: dropWhile_hd simp: hd_rev)
  ultimately show ?thesis by (simp add: trim_def trim_by_def)
qed

lemma trim_core:
  assumes "trim s \<noteq> []"
  obtains w1 w2 where "s = w1 @ trim s @ w2" "\<forall>c \<in> set w1. is_ws c" "\<forall>c \<in> set w2. is_ws c"
    "\<not> is_ws (hd (trim s))" "\<not> is_ws (last (trim s))"
proof -
  let ?a = "dropWhile is_ws s"
  let ?w2 = "rev (takeWhile is_ws (rev ?a))"
  have b: "dropWhile is_ws (rev ?a) \<noteq> []" and t: "trim s = rev (dropWhile is_ws (rev ?a))"
    using assms by (simp_all add: trim_def trim_by_def)
  have a: "?a = trim s @ ?w2" unfolding t by (metis rev_append rev_rev_ident takeWhile_dropWhile_id)
  have "s = takeWhile is_ws s @ trim s @ ?w2" using a by (metis takeWhile_dropWhile_id)
  moreover have "\<not> is_ws (last (trim s))" unfolding t last_rev by (rule hd_dropWhile [OF b])
  moreover have "\<not> is_ws (hd (trim s))"
    using a assms hd_dropWhile [of is_ws s] by (metis append_is_Nil_conv hd_append2)
  ultimately show thesis by (intro that [of "takeWhile is_ws s" ?w2]) (auto dest: set_takeWhileD)
qed

lemma trim_idem [simp]: "trim (trim s) = trim s"
proof (cases "trim s = []")
  case True
  show ?thesis unfolding True by (simp add: trim_def trim_by_def)
next
  case False
  show ?thesis
    by (rule trim_core [OF False]) (use trim_wrap [of "[]" "[]" "trim s"] False in simp)
qed

text \<open>The seeds a file line carries: on one line, not blank, not starting with an equals sign.\<close>

definition seed_line :: "string \<Rightarrow> bool" where
  "seed_line s \<longleftrightarrow> CHR 0x0A \<notin> set s \<and> trim s \<noteq> [] \<and> hd (trim s) \<noteq> CHR ''=''"

lemma first_seed_line:
  assumes "seed_line s"
  shows "first_seed [strip_cr (''seed = '' @ s)] = Some (trim s)"
proof -
  have ne: "trim s \<noteq> []" using assms by (simp add: seed_line_def)
  obtain w1 w2 where s: "s = w1 @ trim s @ w2" "\<forall>c \<in> set w1. is_ws c" "\<forall>c \<in> set w2. is_ws c"
      and c: "\<not> is_ws (hd (trim s))" "\<not> is_ws (last (trim s))"
    by (rule trim_core [OF ne])
  obtain w2' where w: "strip_cr (''seed = '' @ s) = ''seed = '' @ w1 @ trim s @ w2'" "\<forall>c \<in> set w2'. is_ws c"
  proof (cases "w2 = []")
    case True
    have "last (''seed = '' @ s) \<noteq> CHR 0x0D" using True s(1) ne c(2)
      by (metis append_Nil2 append_is_Nil_conv insertI1 insertI2 is_ws_def last_append)
    then have "strip_cr (''seed = '' @ s) = ''seed = '' @ s" by (simp add: strip_cr_def)
    then show thesis using True s by (intro that [of "[]"]) simp_all
  next
    case False
    have "strip_cr (''seed = '' @ s) \<in> {''seed = '' @ s, ''seed = '' @ butlast s}"
      using False s(1) by (auto simp: strip_cr_def butlast_append)
    moreover have "butlast s = w1 @ trim s @ butlast w2" using False s(1) by (metis append_is_Nil_conv butlast_append)
    ultimately show thesis
      using s that [of w2] that [of "butlast w2"] by (auto dest: in_set_butlastD)
  qed
  have "trim (''seed = '' @ w1 @ trim s @ w2') = ''seed = '' @ w1 @ trim s"
    using trim_wrap [of "[]" w2' "''seed = '' @ w1 @ trim s"] w(2) c(2) ne by (simp add: is_ws_def)
  moreover have "strip_prefix ''seed'' (''seed = '' @ w1 @ trim s) = Some ('' = '' @ w1 @ trim s)"
    by (simp add: strip_prefix_def)
  moreover have "trim (dropWhile (\<lambda>c. c = CHR '' '' \<or> c = CHR ''='') ('' = '' @ w1 @ trim s)) = trim s"
  proof -
    let ?p = "\<lambda>c. c = CHR '' '' \<or> c = CHR ''=''"
    have h: "\<not> ?p (hd (trim s))" using assms c(1) by (auto simp: seed_line_def is_ws_def)
    then have "dropWhile ?p (w1 @ trim s) = dropWhile ?p w1 @ trim s"
      using ne by (cases "dropWhile ?p w1 = []") (auto simp: dropWhile_append dropWhile_hd)
    then show ?thesis
      using trim_wrap [of "dropWhile ?p w1" "[]" "trim s"] s(2) c ne by (auto dest: set_dropWhileD)
  qed
  ultimately show ?thesis using ne w(1) by (simp add: Let_def)
qed

lemma comment_line:
  assumes "l \<noteq> []" "hd l = CHR ''#''" "\<not> is_ws (last l)"
  shows "first_seed (strip_cr l # ls) = first_seed ls"
proof -
  have "strip_cr l = l" using assms(3) by (auto simp: strip_cr_def is_ws_def)
  moreover have "trim l = l" using trim_wrap [of "[]" "[]" l] assms by (simp add: is_ws_def)
  moreover have "strip_prefix ''seed'' l = None" using assms(1,2) by (cases l) (simp_all add: strip_prefix_def)
  ultimately show ?thesis by simp
qed

lemma load_save_source:
  assumes "seed_line s"
  shows "load_source (Some (save_source s)) = Some (trim s)"
proof -
  have nl: "CHR 0x0A \<notin> set (''seed = '' @ s)" using assms by (simp add: seed_line_def)
  have "text_lines (''seed = '' @ s @ [CHR 0x0A]) = [strip_cr (''seed = '' @ s)]"
    using text_lines_line [OF nl, of "[]"] by simp
  then have "load_source (Some (save_source s)) = first_seed [strip_cr (''seed = '' @ s)]"
    unfolding load_source_def save_source_def option.case
    by (subst text_lines_line, simp, subst comment_line, simp, simp, simp add: is_ws_def)+ (simp only:)
  then show ?thesis using first_seed_line [OF assms] by simp
qed

lemma random_seed_line: "seed_line (random_source r)"
proof -
  have ok: "\<not> is_ws c \<and> c \<noteq> CHR ''=''" if "c \<in> set (hex_016 n)" for c n
  proof -
    have "c = CHR ''0'' \<or> (\<exists>d < 16. c = digit_char d)"
      using that print_uint_digits [of 16 n] by (auto simp: hex_016_def Let_def split: if_splits)
    moreover have "digit_val 16 CHR ''='' = None" by (simp add: digit_val_def)
    then have "digit_char d \<noteq> CHR ''=''" if "d < 16" for d
    proof -
      have "digit_val 16 (digit_char d) = Some d" using that by simp
      then show ?thesis using \<open>digit_val 16 CHR ''='' = None\<close> by (metis option.distinct(1))
    qed
    ultimately show ?thesis using digit_char_plain by (auto simp: is_ws_def)
  qed
  have "trim (''0x'' @ hex_016 n) = ''0x'' @ hex_016 n" for n
  proof -
    have "hex_016 n \<noteq> []" using print_uint_digits [of 16 n] by (simp add: hex_016_def Let_def)
    then have "\<not> is_ws (last (''0x'' @ hex_016 n))" using ok [OF last_in_set] by simp
    then show ?thesis using trim_wrap [of "[]" "[]" "''0x'' @ hex_016 n"] by (simp add: is_ws_def)
  qed
  moreover have "CHR 0x0A \<notin> set (hex_016 n)" for n using ok by (auto simp: is_ws_def)
  ultimately show ?thesis
    by (auto simp: seed_line_def random_source_def split: option.split simp: trim_def trim_by_def is_ws_def)
qed

text \<open>
  C34: A seed given on the command line that fits the identity file's format (one line, not blank,
  not starting with an equals sign), or the random one an instance mints when it has none, is the
  instance's for good: when the write of the identity file succeeds, the instance started again
  without a seed on that file has the same identity and leaves the file as it is. A write that
  fails does not change the identity of the run it fails in; that run's seed is then not kept.
\<close>

theorem identity_survives_restart:
  assumes "seed_arg = None \<and> load_source file = None \<or> (\<exists>s. seed_arg = Some s \<and> seed_line s)"
    and "\<And>old new. fs_write old new = Some new"
  shows "init_identity H fs_write' None rnd' (snd (init_identity H fs_write seed_arg rnd file)) =
      init_identity H fs_write seed_arg rnd file \<and>
    fst (init_identity H fs_write'' seed_arg rnd file) = fst (init_identity H fs_write seed_arg rnd file)"
proof (intro conjI)
  obtain s where s: "seed_line s"
      "init_identity H fs_write seed_arg rnd file = (identity_from_source H s, Some (save_source s))"
  proof (cases seed_arg)
    case None
    then show thesis
      using assms random_seed_line by (intro that [of "random_source rnd"]) (simp_all add: init_identity_def)
  next
    case (Some s)
    then show thesis using assms by (intro that [of s]) (simp_all add: init_identity_def)
  qed
  have "init_identity H fs_write' None rnd' (Some (save_source s)) = (identity_from_source H s, Some (save_source s))"
    using load_save_source [OF s(1)] by (simp add: init_identity_def identity_from_source_def)
  then show "init_identity H fs_write' None rnd' (snd (init_identity H fs_write seed_arg rnd file)) =
      init_identity H fs_write seed_arg rnd file"
    using s(2) by simp
  show "fst (init_identity H fs_write'' seed_arg rnd file) = fst (init_identity H fs_write seed_arg rnd file)"
    by (simp add: init_identity_def split: option.split)
qed

definition toy_hash :: "u8 list \<Rightarrow> u8 list" where
  "toy_hash m = map (\<lambda>i. of_nat (i + length m)) [0..<32]"

theorem identity_survives_restart_witness:
  "init_identity toy_hash (\<lambda>old new. old) None (Some 7)
       (snd (init_identity toy_hash (\<lambda>old. Some) (Some '' rack 3'') None None)) =
     init_identity toy_hash (\<lambda>old. Some) (Some '' rack 3'') None None \<and>
   fst (init_identity toy_hash (\<lambda>old. Some) (Some '' rack 3'') None None) \<noteq> None"
proof -
  have "seed_line '' rack 3''" by (simp add: seed_line_def trim_def trim_by_def is_ws_def)
  then show ?thesis
    using identity_survives_restart [of "Some '' rack 3''" None "\<lambda>old. Some" toy_hash "\<lambda>old new. old" "Some 7" None]
    by (simp add: init_identity_def identity_from_source_def trim_def trim_by_def is_ws_def ascii_lower_def
        hex_prefix_def strip_prefix_def Let_def)
qed

text \<open>
  The seeds the file does not carry: of a blank one, and of one starting with an equals sign,
  the next start reads nothing, or something else. So it is after a write that failed.
\<close>

lemma blank_seed_is_lost: "load_source (Some (save_source [])) = None"
proof -
  have "text_lines (''seed = '' @ [] @ [CHR 0x0A]) = [strip_cr ''seed = '']"
    using text_lines_line [of "''seed = ''" "[]"] by simp
  then have "load_source (Some (save_source [])) = first_seed [strip_cr ''seed = '']"
    unfolding load_source_def save_source_def option.case
    by (subst text_lines_line, simp, subst comment_line, simp, simp, simp add: is_ws_def)+ (simp only:)
  then show ?thesis by (simp add: strip_cr_def trim_def trim_by_def is_ws_def strip_prefix_def)
qed

lemma unwritten_seed_is_lost:
  "init_identity H (\<lambda>old new. old) (Some s) rnd None = (identity_from_source H s, None)"
  by (simp add: init_identity_def)

text \<open>
  Every identity has fields of the right width, a RoT UUID of RFC 4122's version 3 and
  variant, and a MAC that is locally administered and unicast, whatever the seed.
\<close>

theorem identity_well_shaped:
  assumes "\<And>m. length (H m) = 32" and "identity_from_source H s = Some i"
  shows "length (id_sp_uid i) = 12 \<and> length (id_rot_uuid i) = 16 \<and> length (id_dice_cdi i) = 32 \<and>
         length (id_puf_uds i) = 32 \<and> length (id_mac i) = 6 \<and>
         drop_bit 4 (id_rot_uuid i ! 6) = 3 \<and> drop_bit 6 (id_rot_uuid i ! 8) = 2 \<and>
         bit (id_mac i ! 0) 1 \<and> \<not> bit (id_mac i ! 0) 0"
proof -
  have u: "drop_bit 4 ((v AND 0x0f) OR 0x30 :: u8) = 3" "drop_bit 6 ((v AND 0x3f) OR 0x80 :: u8) = 2" for v
    by (rule bit_word_eqI; simp add: bit_simps; auto simp: less_Suc_eq numeral_eq_Suc)+
  have m: "bit ((v OR 0x02) AND NOT 0x01 :: u8) 1" "\<not> bit ((v OR 0x02) AND NOT 0x01 :: u8) 0" for v
    by (simp_all add: bit_simps)
  have f: "length (id_rot_uuid j) = 16" "length (id_mac j) = 6"
    "drop_bit 4 (id_rot_uuid j ! 6) = 3" "drop_bit 6 (id_rot_uuid j ! 8) = 2"
    "bit (id_mac j ! 0) 1" "\<not> bit (id_mac j ! 0) 0"
    if "j = from_master H k" for j k
    using u m assms(1) by (simp_all add: that from_master_def derive_def shape_uuid_def shape_mac_def)
  have l: "length (id_sp_uid (from_master H k)) = 12" "length (id_dice_cdi (from_master H k)) = 32"
    "length (id_puf_uds (from_master H k)) = 32" for k
    using assms(1) by (simp_all add: from_master_def derive_def)
  consider "i = legacy H" | k where "i = from_master H k"
    using assms(2) by (auto simp: identity_from_source_def Let_def split: if_splits option.splits)
  then show ?thesis
  proof cases
    case 1
    then show ?thesis using f [OF refl, of LEGACY_MASTER]
      by (simp add: legacy_def words_to_le_bytes_def LEGACY_SP_UID_WORDS_def LEGACY_DICE_CDI_WORDS_def
          LEGACY_PUF_UDS_def le_bytes32_def)
  next
    case 2
    then show ?thesis using f [OF 2] l by simp
  qed
qed

theorem identity_well_shaped_witness:
  "\<exists>i. identity_from_source toy_hash ''0xBEEF'' = Some i \<and> drop_bit 4 (id_rot_uuid i ! 6) = 3"
proof -
  have "identity_from_source toy_hash ''0xBEEF'' = Some (from_master toy_hash (toy_hash (le_bytes64 0xBEEF)))"
    by (simp add: identity_from_source_def trim_def trim_by_def is_ws_def ascii_lower_def hex_prefix_def
        strip_prefix_def Let_def parse_hex_u64_def parse_uint_def digit_val_def)
  then show ?thesis using identity_well_shaped [of toy_hash "''0xBEEF''"] by (simp add: toy_hash_def)
qed

end
