(* ===== verification/RotService.thy ===== *)
theory RotService
  imports Serve
begin

text \<open>
  The shared RoT service of \<open>src/rot_service.rs\<close>: one emulated RoT answers request frames for
  several service processors. The worker drives the RoT through the two SPI transactions of an
  exchange by the shared link, keeps the replies it got, and steps the RoT between requests;
  connections carry length-prefixed frames. Threads and sockets are the sequence of jobs the
  worker takes and the bytes a connection delivers; tracing is left out.
\<close>

unbundle bit_operations_syntax

section \<open>Driving the RoT\<close>

fun run_quantum :: "env \<Rightarrow> nat \<Rightarrow> cpu \<Rightarrow> bus \<Rightarrow> bool \<times> machine" where
  "run_quantum E 0 c b = (False, c, b)"
| "run_quantum E (Suc n) c b =
     (case step E c b of
        (Some _, m) \<Rightarrow> (False, m)
      | (None, c1, b1) \<Rightarrow>
          (let (c2, b2) = maybe_tick c1 b1; (c3, b3) = maybe_interrupt c2 b2 in
           if 0 < idle_skip c3 then (True, c3\<lparr>idle_skip := 0\<rparr>, b3) else run_quantum E n c3 b3))"

fun first_nonzero :: "u8 list \<Rightarrow> nat option" where
  "first_nonzero [] = None"
| "first_nonzero (b # bs) = (if b \<noteq> 0 then Some 0 else map_option Suc (first_nonzero bs))"

record exchange =
  fed :: nat
  deasserted :: bool
  phase2 :: bool
  resp :: "u8 list"
  ex_total :: "nat option"
  ex_done :: bool
  quiet :: nat

definition exchange_new :: exchange where
  "exchange_new = \<lparr>fed = 0, deasserted = False, phase2 = False, resp = [], ex_total = None,
     ex_done = False, quiet = 0\<rparr>"

definition start_link :: "link \<Rightarrow> link" where
  "start_link lk = lk\<lparr>mosi := [], miso := [], l_cs := True, l_ssa := True, l_ssd := False,
     sot_pending := True, rot_irq := False, request_in_flight := False, sp_rot_irq_pending := False\<rparr>"

text \<open>Phase 1: request bytes into the FIFO as it drains, chip select off at the end.\<close>

definition feed :: "u8 list \<Rightarrow> exchange \<Rightarrow> link \<Rightarrow> exchange \<times> link" where
  "feed req x lk =
     (if deasserted x then (x, lk)
      else
        let n = min (length req - fed x) (16 - length (mosi lk));
            lk1 = lk\<lparr>mosi := mosi lk @ take n (drop (fed x) req)\<rparr>;
            x1 = x\<lparr>fed := fed x + n\<rparr>
        in if length req \<le> fed x1 \<and> length (mosi lk1) \<le> 2
           then (x1\<lparr>deasserted := True\<rparr>, lk1\<lparr>l_cs := False, l_ssd := True\<rparr>)
           else (x1, lk1))"

text \<open>The reply starts at the first nonzero byte and its header tells its length.\<close>

abbreviation (input) MAX_RESP :: nat where "MAX_RESP \<equiv> 2048"

definition reply_end :: "u8 list \<Rightarrow> nat option" where
  "reply_end rp =
     (case first_nonzero rp of
        None \<Rightarrow> None
      | Some s \<Rightarrow>
          if s + 6 \<le> length rp then
            (let body_size = unat (le16 (rp ! (s + 4)) (rp ! (s + 5))) in
             if body_size + 8 \<le> MAX_RESP then Some (s + 6 + body_size + 2) else None)
          else None)"

definition collect :: "u8 list \<Rightarrow> exchange \<Rightarrow> exchange" where
  "collect bytes x =
     (let rp = (if ex_done x then resp x else resp x @ bytes);
          tot = (if ex_total x = None then reply_end rp else ex_total x)
      in case tot of
           Some t \<Rightarrow>
             if t \<le> length rp \<and> \<not> ex_done x then
               (let start = (case first_nonzero rp of Some s \<Rightarrow> s | None \<Rightarrow> 0) in
                x\<lparr>resp := take (t - start) (drop start rp), ex_total := tot, ex_done := True\<rparr>)
             else x\<lparr>resp := rp, ex_total := tot\<rparr>
         | None \<Rightarrow> x\<lparr>resp := rp, ex_total := tot\<rparr>)"

definition end_transfer :: "link \<Rightarrow> link" where
  "end_transfer lk = lk\<lparr>l_cs := False, l_ssa := False, l_ssd := True\<rparr>"

definition link_get :: "bus \<Rightarrow> link" where
  "link_get b = (case link_of b of Some lk \<Rightarrow> lk | None \<Rightarrow> link_default)"

text \<open>One round of the exchange; the first part of the result tells whether it was the last.\<close>

definition exchange_round :: "env \<Rightarrow> u8 list \<Rightarrow> exchange \<times> machine \<Rightarrow> bool \<times> exchange \<times> machine" where
  "exchange_round E req s =
     (case s of (x0, c0, b0) \<Rightarrow>
        let (x1, lk1) = feed req x0 (link_get b0);
            b1 = map_link (\<lambda>_. lk1) b0;
            b2 = (if l_ssa lk1 \<or> l_cs lk1 \<or> rot_irq lk1 then pend_irq b1 59 else b1);
            (idled, c3, b3) = run_quantum E 2048 c0 b2;
            lk3 = link_get b3
        in if \<not> phase2 x1 \<and> rot_irq lk3 then
             (False, x1\<lparr>phase2 := True\<rparr>,
              c3, map_link (\<lambda>lk. lk\<lparr>l_cs := True, l_ssa := True, l_ssd := False\<rparr>) b3)
           else if \<not> phase2 x1 then (False, x1\<lparr>quiet := 0\<rparr>, c3, b3)
           else
             let x4 = collect (miso lk3) x1;
                 b4 = map_link (\<lambda>lk. lk\<lparr>miso := []\<rparr>) b3;
                 b5 = (if ex_done x4 \<and> \<not> ex_done x1 then map_link end_transfer b4 else b4)
             in if ex_done x4 \<and> \<not> rot_irq (link_get b5) then (True, x4, c3, b5)
                else if idled \<and> miso (link_get b5) = [] then
                  (8 \<le> quiet x4 + 1, x4\<lparr>quiet := quiet x4 + 1\<rparr>, c3, b5)
                else (False, x4\<lparr>quiet := 0\<rparr>, c3, b5))"

fun exchange_loop :: "env \<Rightarrow> u8 list \<Rightarrow> nat \<Rightarrow> exchange \<times> machine \<Rightarrow> exchange \<times> machine" where
  "exchange_loop E req 0 s = s"
| "exchange_loop E req (Suc n) s =
     (case exchange_round E req s of (stop, s1) \<Rightarrow> if stop then s1 else exchange_loop E req n s1)"

definition rot_exchange :: "env \<Rightarrow> u8 list \<Rightarrow> machine \<Rightarrow> u8 list \<times> machine" where
  "rot_exchange E req m =
     (case m of (c, b) \<Rightarrow>
        case exchange_loop E req 200000 (exchange_new, c, map_link start_link b) of (x, m1) \<Rightarrow> (resp x, m1))"

section \<open>The worker\<close>

type_synonym reply_cache = "u8 list \<rightharpoonup> u8 list"

datatype job = Request "u8 list" | Idle

text \<open>One turn of the worker's loop: a request answered, or the RoT stepped.\<close>

fun worker_turn :: "env \<Rightarrow> job \<Rightarrow> reply_cache \<times> machine \<Rightarrow> u8 list option \<times> reply_cache \<times> machine" where
  "worker_turn E (Request req) (cache, m) =
     (case cache req of
        Some rp \<Rightarrow> (Some rp, cache, m)
      | None \<Rightarrow>
          (case rot_exchange E req m of (rp, m1) \<Rightarrow>
             (Some rp, if rp \<noteq> [] then cache(req \<mapsto> rp) else cache, m1)))"
| "worker_turn E Idle (cache, c, b) = (case run_quantum E 2048 c b of (_, m1) \<Rightarrow> (None, cache, m1))"

fun worker :: "env \<Rightarrow> job list \<Rightarrow> reply_cache \<times> machine \<Rightarrow> (reply_cache \<times> machine)" where
  "worker E [] s = s"
| "worker E (j # js) s = worker E js (snd (worker_turn E j s))"

text \<open>The worker's pre-boot runs its budget through every idle.\<close>

fun service_preboot :: "env \<Rightarrow> nat \<Rightarrow> cpu \<Rightarrow> bus \<Rightarrow> machine" where
  "service_preboot E 0 c b = (c, b)"
| "service_preboot E (Suc n) c b =
     (case step E c b of
        (Some _, m) \<Rightarrow> m
      | (None, c1, b1) \<Rightarrow>
          (let (c2, b2) = maybe_tick c1 b1; (c3, b3) = maybe_interrupt c2 b2 in
           service_preboot E n (if 0 < idle_skip c3 then c3\<lparr>idle_skip := 0\<rparr> else c3) b3))"

section \<open>Frames on the socket\<close>

abbreviation (input) MAX_FRAME :: nat where "MAX_FRAME \<equiv> 4096"

definition frame_of :: "u8 list \<Rightarrow> u8 list" where
  "frame_of bs = le_bytes32 (of_nat (length bs)) @ bs"

text \<open>One length-prefixed frame off a stream, with what follows it.\<close>

definition take_frame :: "u8 list \<Rightarrow> (u8 list \<times> u8 list) option" where
  "take_frame s =
     (if length s < 4 then None
      else let n = unat (le32 (s ! 0) (s ! 1) (s ! 2) (s ! 3)) in
           if MAX_FRAME < n \<or> length s < 4 + n then None
           else Some (take n (drop 4 s), drop (4 + n) s))"

function conn_loop :: "u8 list \<Rightarrow> u8 list list" where
  "conn_loop s = (case take_frame s of None \<Rightarrow> [] | Some (req, rest) \<Rightarrow> req # conn_loop rest)"
  by auto
termination
  by (relation "measure length") (auto simp: take_frame_def Let_def split: if_splits)

declare conn_loop.simps [simp del]

text \<open>
  The client's two tries; each is \<open>None\<close> when there is no connection, else whether the request
  could be written and what came back.
\<close>

fun client_tries :: "(bool \<times> u8 list) option list \<Rightarrow> u8 list" where
  "client_tries [] = []"
| "client_tries (None # ts) = []"
| "client_tries (Some (ok, back) # ts) =
     (case (if ok then take_frame back else None) of
        Some (reply, _) \<Rightarrow> reply
      | None \<Rightarrow> client_tries ts)"

definition client_exchange :: "(bool \<times> u8 list) option \<Rightarrow> (bool \<times> u8 list) option \<Rightarrow> u8 list" where
  "client_exchange t1 t2 = client_tries [t1, t2]"

section \<open>Properties\<close>

text \<open>A reply as the RoT sends it: a nonzero first byte, and the length its header declares.\<close>

definition sprot_reply :: "u8 list \<Rightarrow> bool" where
  "sprot_reply rp \<longleftrightarrow>
     8 \<le> length rp \<and> length rp \<le> MAX_RESP \<and> rp ! 0 \<noteq> 0 \<and> length rp = 8 + unat (le16 (rp ! 4) (rp ! 5))"

lemma first_nonzero_pad: "first_nonzero (replicate z 0 @ s) = map_option (\<lambda>n. z + n) (first_nonzero s)"
proof (induction z)
  case 0
  then show ?case by (simp add: option.map_ident)
next
  case (Suc z)
  then show ?case by (simp add: option.map_comp o_def)
qed

lemma first_nonzero_none: "(\<forall>b \<in> set s. b = 0) \<Longrightarrow> first_nonzero s = None"
  by (induction s) auto

lemma first_nonzero_prefix:
  assumes "rp \<noteq> []" "rp ! 0 \<noteq> 0"
  shows "first_nonzero (take n (replicate z 0 @ rp @ rest)) = (if n \<le> z then None else Some z)"
proof (cases "n \<le> z")
  case True
  then show ?thesis by (simp add: first_nonzero_none)
next
  case False
  then obtain k where "n = z + Suc k" by (metis add_Suc_right less_iff_Suc_add not_le)
  moreover obtain a s where "rp = a # s" using assms(1) by (cases rp) auto
  ultimately show ?thesis using assms(2) by (simp add: first_nonzero_pad)
qed

lemma reply_end_prefix:
  assumes "sprot_reply rp"
  shows "reply_end (take n (replicate z 0 @ rp @ rest)) =
           (if z + 6 \<le> n \<and> z + 6 \<le> length (take n (replicate z 0 @ rp @ rest)) then Some (z + length rp) else None)"
proof -
  let ?s = "replicate z 0 @ rp @ rest"
  have rp: "rp \<noteq> []" "rp ! 0 \<noteq> 0" "8 \<le> length rp" "length rp = 8 + unat (le16 (rp ! 4) (rp ! 5))" "length rp \<le> MAX_RESP"
    using assms by (auto simp: sprot_reply_def)
  have i: "take n ?s ! (z + 4) = rp ! 4" "take n ?s ! (z + 5) = rp ! 5" if "z + 6 \<le> n"
  proof -
    have "4 < n - z" "5 < n - z" using that by linarith+
    then show "take n ?s ! (z + 4) = rp ! 4" "take n ?s ! (z + 5) = rp ! 5"
      using that rp(3) by (simp_all add: nth_append)
  qed
  define a where "a = take n ?s"
  have f: "first_nonzero a = (if n \<le> z then None else Some z)"
    unfolding a_def by (rule first_nonzero_prefix [OF rp(1,2)])
  have l: "length a = min n (z + length rp + length rest)" by (simp add: a_def)
  show ?thesis unfolding a_def [symmetric]
  proof (cases "z + 6 \<le> n")
    case True
    then have "reply_end a = (let body_size = unat (le16 (rp ! 4) (rp ! 5)) in
        if body_size + 8 \<le> MAX_RESP then Some (z + 6 + body_size + 2) else None)"
      using i [folded a_def] f l rp(3) by (simp add: reply_end_def)
    then show "reply_end a = (if z + 6 \<le> n \<and> z + 6 \<le> length a then Some (z + length rp) else None)"
      using True rp(3,5) l by (simp add: rp(4) [symmetric] Let_def)
        (use rp(4) in linarith)
  next
    case False
    then show "reply_end a = (if z + 6 \<le> n \<and> z + 6 \<le> length a then Some (z + length rp) else None)"
      using f l by (simp add: reply_end_def)
  qed
qed

lemma collect_fresh:
  assumes "\<not> ex_done x" and tot: "tot = (if ex_total x = None then reply_end (resp x @ c) else ex_total x)"
  shows "tot = Some t \<Longrightarrow> t \<le> length (resp x @ c) \<Longrightarrow> first_nonzero (resp x @ c) = Some z \<Longrightarrow>
           collect c x = x\<lparr>resp := take (t - z) (drop z (resp x @ c)), ex_total := Some t, ex_done := True\<rparr>"
    and "tot = None \<or> (\<exists>t. tot = Some t \<and> length (resp x @ c) < t) \<Longrightarrow>
           collect c x = x\<lparr>resp := resp x @ c, ex_total := tot\<rparr>"
  using assms(1) by (auto simp: collect_def tot [symmetric] simp del: length_append)

lemma collect_done: "ex_done x \<Longrightarrow> ex_total x = Some t \<Longrightarrow> collect c x = x"
  by (simp add: collect_def)

text \<open>A prefix that holds the reply whole: where it starts, and that it is what stands there.\<close>

lemma reply_in_prefix:
  assumes "sprot_reply rp" and "z + length rp \<le> n"
  shows "first_nonzero (take n (replicate z 0 @ rp @ rest)) = Some z"
    and "take (length rp) (drop z (take n (replicate z 0 @ rp @ rest))) = rp"
proof -
  have big: "8 \<le> length rp" "rp \<noteq> []" "rp ! 0 \<noteq> 0" using assms(1) by (auto simp: sprot_reply_def)
  show "first_nonzero (take n (replicate z 0 @ rp @ rest)) = Some z"
    using assms(2) big(1) by (subst first_nonzero_prefix [OF big(2,3)]) simp
  show "take (length rp) (drop z (take n (replicate z 0 @ rp @ rest))) = rp"
    using assms(2) by (simp add: drop_take take_take min_def)
qed

text \<open>Collecting keeps what was received until the reply is complete, and then the reply.\<close>

definition cut_inv :: "nat \<Rightarrow> u8 list \<Rightarrow> u8 list \<Rightarrow> exchange \<Rightarrow> bool" where
  "cut_inv z rp got x \<longleftrightarrow>
     (if length got < z + length rp
      then resp x = got \<and> \<not> ex_done x \<and> ex_total x \<in> {None, Some (z + length rp)}
      else resp x = rp \<and> ex_done x \<and> ex_total x = Some (z + length rp))"

lemma cut_inv_step:
  assumes rp: "sprot_reply rp" and s: "replicate z 0 @ rp @ rest = (got @ c) @ tail" and x: "cut_inv z rp got x"
  shows "cut_inv z rp (got @ c) (collect c x)"
proof -
  let ?t = "z + length rp" and ?a = "got @ c"
  have a: "?a = take (length ?a) (replicate z 0 @ rp @ rest)" unfolding s by simp
  have e: "reply_end ?a = (if z + 6 \<le> length ?a then Some ?t else None)"
    using reply_end_prefix [OF rp, of "length ?a" z rest] a by metis
  have big: "8 \<le> length rp" using rp by (auto simp: sprot_reply_def)
  have f: "first_nonzero ?a = Some z" and cut: "take (length rp) (drop z ?a) = rp" if "?t \<le> length ?a"
    using reply_in_prefix [OF rp that, of rest] a by metis+
  show ?thesis
  proof (cases "length got < ?t")
    case True
    then have x': "resp x = got" "\<not> ex_done x" "ex_total x \<in> {None, Some ?t}" using x by (simp_all add: cut_inv_def)
    define tot where "tot = (if ex_total x = None then reply_end (resp x @ c) else ex_total x)"
    have tot: "tot \<in> {None, Some ?t}" "?t \<le> length ?a \<Longrightarrow> tot = Some ?t"
      using x'(3) e big by (auto simp: tot_def x'(1))
    show ?thesis
    proof (cases "?t \<le> length ?a")
      case True
      then show ?thesis using collect_fresh(1) [OF x'(2) tot_def tot(2)] cut f x'(1) by (simp add: cut_inv_def)
    next
      case False
      then have "collect c x = x\<lparr>resp := ?a, ex_total := tot\<rparr>"
        using collect_fresh(2) [OF x'(2) tot_def] tot(1) x'(1) by auto
      then show ?thesis using False tot(1) x'(2) by (simp add: cut_inv_def)
    qed
  next
    case False
    then show ?thesis using x by (simp add: cut_inv_def collect_done [where t = ?t])
  qed
qed

text \<open>
  The reply is cut out of what the RoT shifts out exactly, however its bytes are spread over
  the rounds: the idle frames before it, however many, and whatever follows it are dropped.
\<close>

theorem reply_cut_out:
  assumes rp: "sprot_reply rp" and cs: "concat chunks = replicate z 0 @ rp @ rest"
  shows "resp (fold collect chunks exchange_new) = rp \<and> ex_done (fold collect chunks exchange_new)"
proof -
  have "cut_inv z rp (concat cs) (fold collect cs exchange_new)"
    if "\<exists>tail. replicate z 0 @ rp @ rest = concat cs @ tail" for cs
    using that
  proof (induction cs rule: rev_induct)
    case Nil
    have "0 < length rp" using rp by (simp add: sprot_reply_def)
    then show ?case by (simp add: exchange_new_def cut_inv_def)
  next
    case (snoc c cs)
    then obtain tail where tail: "replicate z 0 @ rp @ rest = (concat cs @ c) @ tail" by auto
    with snoc.IH have "cut_inv z rp (concat cs) (fold collect cs exchange_new)" by (metis append.assoc)
    from cut_inv_step [OF rp tail this] show ?case by simp
  qed
  from this [of chunks] show ?thesis using cs by (simp add: cut_inv_def)
qed

theorem reply_cut_out_witness:
  "resp (fold collect [[0, 0], [0, 6, 0, 0], [0, 1], [], [0, 9, 0xAA, 0xBB, 0, 0]] exchange_new) =
     [6, 0, 0, 0, 1, 0, 9, 0xAA, 0xBB]"
proof -
  have "sprot_reply [6, 0, 0, 0, 1, 0, 9, 0xAA, 0xBB]" by (simp add: sprot_reply_def le16_def)
  moreover have "concat [[0, 0], [0, 6, 0, 0], [0, 1], [], [0, 9, 0xAA, 0xBB, 0, 0]] =
      replicate 3 0 @ [6, 0, 0, 0, 1, 0, 9, 0xAA, 0xBB] @ [0, 0 :: u8]"
    by (simp add: numeral_3_eq_3)
  ultimately show ?thesis
    using reply_cut_out [of "[6, 0, 0, 0, 1, 0, 9, 0xAA, 0xBB]"] by blast
qed

text \<open>
  A request once answered is answered from the cache from then on: whatever requests and idle
  turns come between, a repetition gets the same reply and leaves the RoT as it is. (It is the
  hazard of the cache as well: a repeated state-changing request does not reach the RoT.)
\<close>

lemma worker_keeps: "fst s req = Some rp \<Longrightarrow> fst (worker E js s) req = Some rp"
proof (induction js arbitrary: s)
  case (Cons j js)
  obtain cache c b where s: "s = (cache, c, b)" by (cases s)
  have "fst (snd (worker_turn E j s)) req = Some rp"
    using Cons.prems s by (cases j) (auto split: option.split prod.split)
  then show ?case using Cons.IH by simp
qed simp

theorem cached_reply_stands:
  assumes "fst (worker_turn E (Request req) s) = Some rp" "rp \<noteq> []"
    and "worker E js (snd (worker_turn E (Request req) s)) = (cache, m)"
  shows "worker_turn E (Request req) (cache, m) = (Some rp, cache, m)"
proof -
  obtain cache0 m0 where s: "s = (cache0, m0)" by (cases s)
  have "fst (snd (worker_turn E (Request req) s)) req = Some rp"
    using assms(1,2) s by (auto split: option.splits prod.splits)
  then have "cache req = Some rp" using worker_keeps assms(3) by (metis fst_conv)
  then show ?thesis by simp
qed

theorem cached_reply_stands_witness:
  "\<exists>E m. worker_turn E (Request [1]) (worker E [Request [1]] ([[1] \<mapsto> [6, 7]], m)) = (Some [6, 7], [[1] \<mapsto> [6, 7]], m)"
proof -
  obtain E :: env and m :: machine where True by simp
  have "worker E [Request [1]] (snd (worker_turn E (Request [1]) ([[1] \<mapsto> [6, 7]], m))) = ([[1] \<mapsto> [6, 7]], m)"
    by simp
  then have "worker_turn E (Request [1]) ([[1] \<mapsto> [6, 7]], m) = (Some [6, 7], [[1] \<mapsto> [6, 7]], m)"
    by (rule cached_reply_stands [rotated 2]) simp_all
  then show ?thesis by (intro exI) simp
qed

text \<open>
  The wire: the frames of a client come out of the connection's loop one by one as they were
  sent, a frame whose length exceeds the limit ends the connection, and a reply comes back as
  the service wrote it.
\<close>

lemma take_frame_of:
  assumes "length bs \<le> MAX_FRAME"
  shows "take_frame (frame_of bs @ rest) = Some (bs, rest)"
proof -
  have "unat (of_nat (length bs) :: u32) = length bs" using assms by (simp add: unat_of_nat)
  moreover define w where "w = le_bytes32 (of_nat (length bs))"
  moreover have "length w = 4" "le32 (w ! 0) (w ! 1) (w ! 2) (w ! 3) = of_nat (length bs)"
    by (simp_all add: w_def le_bytes32_def le32_bytes)
  ultimately show ?thesis using assms by (simp add: take_frame_def frame_of_def w_def [symmetric] nth_append)
qed

theorem service_wire_round_trip:
  assumes "list_all (\<lambda>q. length q \<le> MAX_FRAME) reqs" "length reply \<le> MAX_FRAME"
  shows "conn_loop (concat (map frame_of reqs)) = reqs \<and>
         client_exchange (Some (True, frame_of reply)) t2 = reply"
proof -
  have "conn_loop (concat (map frame_of reqs)) = reqs"
    using assms(1)
  proof (induction reqs)
    case Nil
    then show ?case by (simp add: conn_loop.simps take_frame_def)
  next
    case (Cons q qs)
    then show ?case by (subst conn_loop.simps) (simp add: take_frame_of)
  qed
  then show ?thesis
    using take_frame_of [OF assms(2), of "[]"] by (simp add: client_exchange_def)
qed

theorem service_wire_round_trip_witness:
  "conn_loop (concat (map frame_of [[1, 2, 3], [], [4]])) = [[1, 2, 3], [], [4]]"
  using service_wire_round_trip [of "[[1, 2, 3], [], [4]]" "[]"] by simp

end
