(* ===== verification/Config_Schema.thy ===== *)
theory Config_Schema
  imports Text
begin

text \<open>
  The data of the configuration crate (\<open>sp-emu-config/src\<close>): the external schema v1 with one
  record per TOML section and every knob optional (\<open>schema/v1.rs\<close>), the validated \<open>Config\<close>
  the emulator reads (\<open>config.rs\<close>), the detected version (\<open>version.rs\<close>) and the errors
  (\<open>error.rs\<close>). A field carries its section's name as a prefix, so \<open>op_mode\<close> is the dotted
  path \<open>op.mode\<close>; a 32-bit float is its bit pattern.
\<close>

type_synonym f32 = u32

section \<open>The external schema\<close>

record sec_op =
  op_mode :: "string option"
  op_slot :: "string option"
  op_run_max :: "u64 option"
  op_board :: "string option"
  op_seed :: "string option"
  op_ignition :: "string option"

record sec_paths =
  paths_flash :: "string option"
  paths_rot_nvm :: "string option"
  paths_identity :: "string option"
  paths_state_dir :: "string option"
  paths_archive :: "string option"

record sec_net =
  net_bridge :: "string option"
  net_well_known_ports :: "bool option"
  net_addr0 :: "string option"
  net_addr1 :: "string option"
  net_vid0 :: "u16 option"
  net_vid1 :: "u16 option"
  net_eth_quantum :: "u32 option"
  net_eth_txbreak :: "bool option"
  net_idle_ms :: "u64 option"

record sec_host =
  host_uart :: "string option"
  host_pty :: "bool option"

record sec_i2c =
  i2c_bridge :: "string option"
  i2c_device :: "string option"

record sec_rot =
  rot_rom :: "bool option"
  rot_fresh :: "bool option"
  rot_measure :: "bool option"
  rot_service :: "string option"
  rot_flash :: "string option"
  rot_bootleby :: "string option"
  rot_no_bootleby :: "bool option"
  rot_cmpa :: "string option"
  rot_cfpa :: "string option"
  rot_nmpa :: "string option"
  rot_image_b :: "string option"
  rot_erase_a :: "bool option"
  rot_boot_pref :: "string option"
  rot_dice :: "string option"
  rot_preboot :: "u64 option"

record sec_sprot =
  sprot_flowctl :: "u32 option"
  sprot_couple :: "bool option"
  sprot_endoscope_couple :: "bool option"
  sprot_sp_clock_khz :: "u32 option"

record sec_vpd =
  vpd_serial :: "string option"
  vpd_part :: "string option"
  vpd_rev :: "string option"

record sec_sensors =
  sensors_overrides :: "string option"
  sensors_ambient_c :: "f32 option"

record sec_dump =
  dump_dir :: "string option"
  dump_archive_id :: "string option"

record sec_trace =
  trace_enabled :: "bool option"
  trace_from :: "u64 option"
  trace_to :: "u64 option"
  trace_rot_from :: "u32 option"
  trace_rot_to :: "u32 option"
  trace_rotpc :: "u64 option"
  trace_rotdump :: "string option"
  trace_watch :: "u32 option"
  trace_diff :: "string option"
  trace_pcprof :: "bool option"

record sec_stats =
  stats_rx :: "bool option"
  stats_rtt :: "bool option"
  stats_pump :: "bool option"
  stats_pump_ms :: "u64 option"

record sec_debug =
  debug_no_debug :: "bool option"
  debug_no_archive_warn :: "bool option"
  debug_swd_trigger :: "bool option"
  debug_jtag_trigger :: "bool option"
  debug_swd_trace :: "bool option"
  debug_rotsvc :: "bool option"
  debug_pingtest :: "bool option"
  debug_flash :: "bool option"
  debug_rotflash :: "bool option"
  debug_eth :: "bool option"
  debug_uart :: "bool option"
  debug_bridge :: "bool option"
  debug_puf :: "bool option"
  debug_vsc :: "bool option"
  debug_rx :: "bool option"
  debug_mdio :: "bool option"
  debug_vpd :: "bool option"
  debug_spi :: "bool option"
  debug_panic :: "bool option"
  debug_svc :: "bool option"
  debug_exc :: "bool option"
  debug_sprot :: "bool option"
  debug_couple :: "bool option"
  debug_rom :: "bool option"
  debug_config :: "bool option"

record config_file_v1 =
  schema_version :: "u32 option"
  v1_op :: sec_op
  v1_paths :: sec_paths
  v1_net :: sec_net
  v1_host :: sec_host
  v1_i2c :: sec_i2c
  v1_rot :: sec_rot
  v1_sprot :: sec_sprot
  v1_vpd :: sec_vpd
  v1_sensors :: sec_sensors
  v1_dump :: sec_dump
  v1_trace :: sec_trace
  v1_stats :: sec_stats
  v1_debug :: sec_debug

definition op_none :: sec_op where
  "op_none = \<lparr>op_mode = None, op_slot = None, op_run_max = None, op_board = None, op_seed = None,
     op_ignition = None\<rparr>"

definition paths_none :: sec_paths where
  "paths_none = \<lparr>paths_flash = None, paths_rot_nvm = None, paths_identity = None,
     paths_state_dir = None, paths_archive = None\<rparr>"

definition net_none :: sec_net where
  "net_none = \<lparr>net_bridge = None, net_well_known_ports = None, net_addr0 = None, net_addr1 = None,
     net_vid0 = None, net_vid1 = None, net_eth_quantum = None, net_eth_txbreak = None,
     net_idle_ms = None\<rparr>"

definition host_none :: sec_host where
  "host_none = \<lparr>host_uart = None, host_pty = None\<rparr>"

definition i2c_none :: sec_i2c where
  "i2c_none = \<lparr>i2c_bridge = None, i2c_device = None\<rparr>"

definition rot_none :: sec_rot where
  "rot_none = \<lparr>rot_rom = None, rot_fresh = None, rot_measure = None, rot_service = None,
     rot_flash = None, rot_bootleby = None, rot_no_bootleby = None, rot_cmpa = None, rot_cfpa = None,
     rot_nmpa = None, rot_image_b = None, rot_erase_a = None, rot_boot_pref = None, rot_dice = None,
     rot_preboot = None\<rparr>"

definition sprot_none :: sec_sprot where
  "sprot_none = \<lparr>sprot_flowctl = None, sprot_couple = None, sprot_endoscope_couple = None,
     sprot_sp_clock_khz = None\<rparr>"

definition vpd_none :: sec_vpd where
  "vpd_none = \<lparr>vpd_serial = None, vpd_part = None, vpd_rev = None\<rparr>"

definition sensors_none :: sec_sensors where
  "sensors_none = \<lparr>sensors_overrides = None, sensors_ambient_c = None\<rparr>"

definition dump_none :: sec_dump where
  "dump_none = \<lparr>dump_dir = None, dump_archive_id = None\<rparr>"

definition trace_none :: sec_trace where
  "trace_none = \<lparr>trace_enabled = None, trace_from = None, trace_to = None, trace_rot_from = None,
     trace_rot_to = None, trace_rotpc = None, trace_rotdump = None, trace_watch = None, trace_diff = None,
     trace_pcprof = None\<rparr>"

definition stats_none :: sec_stats where
  "stats_none = \<lparr>stats_rx = None, stats_rtt = None, stats_pump = None, stats_pump_ms = None\<rparr>"

definition debug_none :: sec_debug where
  "debug_none = \<lparr>debug_no_debug = None, debug_no_archive_warn = None, debug_swd_trigger = None,
     debug_jtag_trigger = None, debug_swd_trace = None, debug_rotsvc = None, debug_pingtest = None,
     debug_flash = None, debug_rotflash = None, debug_eth = None, debug_uart = None, debug_bridge = None,
     debug_puf = None, debug_vsc = None, debug_rx = None, debug_mdio = None, debug_vpd = None,
     debug_spi = None, debug_panic = None, debug_svc = None, debug_exc = None, debug_sprot = None,
     debug_couple = None, debug_rom = None, debug_config = None\<rparr>"

definition v1_default :: config_file_v1 where
  "v1_default = \<lparr>schema_version = None, v1_op = op_none, v1_paths = paths_none, v1_net = net_none,
     v1_host = host_none, v1_i2c = i2c_none, v1_rot = rot_none, v1_sprot = sprot_none, v1_vpd = vpd_none,
     v1_sensors = sensors_none, v1_dump = dump_none, v1_trace = trace_none, v1_stats = stats_none,
     v1_debug = debug_none\<rparr>"

section \<open>The validated configuration\<close>

datatype board_kind = Gimlet | Sidecar

definition is_sidecar :: "board_kind \<Rightarrow> bool" where
  "is_sidecar b \<longleftrightarrow> b = Sidecar"

record config =
  cfg_flash_path :: string
  cfg_rot_nvm_path :: string
  cfg_identity_path :: string
  cfg_state_dir :: "string option"
  cfg_archive :: "string option"
  cfg_seed :: "string option"
  cfg_mode :: "string option"
  cfg_boot_slot :: "string option"
  cfg_run_max :: "u64 option"
  cfg_board :: board_kind
  cfg_ignition :: string
  cfg_bridge :: "string option"
  cfg_well_known_ports :: bool
  cfg_addr0 :: "string option"
  cfg_addr1 :: "string option"
  cfg_vid0 :: "u16 option"
  cfg_vid1 :: "u16 option"
  cfg_eth_quantum :: u32
  cfg_eth_txbreak :: bool
  cfg_idle_ms :: u64
  cfg_host_uart :: "string option"
  cfg_host_pty :: bool
  cfg_i2c_bridge :: "string option"
  cfg_i2c_device :: "string option"
  cfg_rot_rom :: bool
  cfg_rot_fresh :: bool
  cfg_rot_measure :: bool
  cfg_rot_service :: "string option"
  cfg_rot_flash :: "string option"
  cfg_rot_bootleby :: "string option"
  cfg_rot_no_bootleby :: bool
  cfg_rot_cmpa :: "string option"
  cfg_rot_cfpa :: "string option"
  cfg_rot_nmpa :: "string option"
  cfg_rot_image_b :: "string option"
  cfg_rot_erase_a :: bool
  cfg_rot_boot_pref :: "string option"
  cfg_rot_dice :: "string option"
  cfg_rot_preboot :: "u64 option"
  cfg_sprot_flowctl :: u32
  cfg_sprot_couple :: bool
  cfg_endoscope_couple :: bool
  cfg_sp_clock_khz :: u32
  cfg_vpd_serial :: "string option"
  cfg_vpd_part :: "string option"
  cfg_vpd_rev :: "string option"
  cfg_sensors :: "string option"
  cfg_ambient_c :: f32
  cfg_dump_dir :: "string option"
  cfg_dump_archive_id :: string
  cfg_trace :: bool
  cfg_trace_from :: "u64 option"
  cfg_trace_to :: "u64 option"
  cfg_rot_trace_from :: "u32 option"
  cfg_rot_trace_to :: "u32 option"
  cfg_rotpc :: "u64 option"
  cfg_rotdump :: "(u32 \<times> u32) option"
  cfg_watch :: "u32 option"
  cfg_diff :: "string option"
  cfg_pcprof :: bool
  cfg_rxstats :: bool
  cfg_rttstats :: bool
  cfg_pumpstats :: bool
  cfg_pumpstats_ms :: u64
  cfg_no_debug :: bool
  cfg_no_archive_warn :: bool
  cfg_swd_trigger :: bool
  cfg_jtag_trigger :: bool
  cfg_swd_trace :: bool
  cfg_rotsvc :: bool
  cfg_pingtest :: bool
  cfg_flashdbg :: bool
  cfg_rotflashdbg :: bool
  cfg_ethdbg :: bool
  cfg_uartdbg :: bool
  cfg_bridgedbg :: bool
  cfg_pufdbg :: bool
  cfg_vscdbg :: bool
  cfg_rxdbg :: bool
  cfg_mdiodbg :: bool
  cfg_vpddbg :: bool
  cfg_spidbg :: bool
  cfg_panicdbg :: bool
  cfg_svcdbg :: bool
  cfg_excdbg :: bool
  cfg_sprotdbg :: bool
  cfg_coupledbg :: bool
  cfg_romdbg :: bool
  cfg_configdbg :: bool

section \<open>Versions and errors\<close>

definition CURRENT :: u32 where
  "CURRENT = 1"

datatype schema_version = LegacyFlat | Known u32 | Newer u32

text \<open>
  The problem a validation error reports, by its parts rather than as a formatted sentence:
  the spellings that are allowed and the one given, a board, a malformed window, a version
  without a migration.
\<close>

datatype problem =
    ExpectedOneOf "string list" string
  | ExpectedBoard string
  | ExpectedWindow string
  | NoMigration u32

datatype config_error =
    Io string
  | Parse string
  | Serialize string
  | Validation string problem
  | NewerSchema u32 u32

text \<open>The \<open>?\<close> operator on a result.\<close>

definition bind_result :: "'e + 'a \<Rightarrow> ('a \<Rightarrow> 'e + 'b) \<Rightarrow> 'e + 'b" where
  "bind_result m f = (case m of Inl e \<Rightarrow> Inl e | Inr x \<Rightarrow> f x)"

lemma bind_result_simps [simp]:
  "bind_result (Inl e) f = Inl e" "bind_result (Inr x) f = f x"
  by (simp_all add: bind_result_def)

lemma bind_result_Inr_iff [simp]:
  "bind_result m f = Inr y \<longleftrightarrow> (\<exists>x. m = Inr x \<and> f x = Inr y)"
  by (cases m) simp_all

lemma bind_result_Inl_iff:
  "bind_result m f = Inl e \<longleftrightarrow> m = Inl e \<or> (\<exists>x. m = Inr x \<and> f x = Inl e)"
  by (cases m) simp_all

end
