(* ===== verification/Config.thy ===== *)
theory Config
  imports Config_Schema
begin

text \<open>
  The configuration crate's operations: \<open>ingest\<close>, which validates an external form into a
  \<open>Config\<close> (\<open>ingest.rs\<close>); \<open>config_to_external\<close>, which writes one back (\<open>dump.rs\<close>); the flat
  \<open>SP_EMU_*\<close> names and the lenient setters behind them (\<open>legacy.rs\<close>); and the version
  dispatch of a file (\<open>version.rs\<close>, \<open>migrate.rs\<close>, \<open>load.rs\<close>, \<open>validate.rs\<close>). The TOML
  library and the conversion of a decimal text to a 32-bit float are parameters.
\<close>

section \<open>Numbers in values\<close>

definition parse_u64 :: "string \<Rightarrow> u64 option" where
  "parse_u64 s = map_option of_nat (parse_uint 10 (2 ^ 64 - 1) s)"

definition parse_u32 :: "string \<Rightarrow> u32 option" where
  "parse_u32 s = map_option of_nat (parse_uint 10 (2 ^ 32 - 1) s)"

text \<open>\<open>hex::<T>\<close>: read as 64 bits, then narrowed, out of range being no value.\<close>

definition hex_raw :: "string \<Rightarrow> nat option" where
  "hex_raw s = parse_uint 16 (2 ^ 64 - 1) (trim_0x (trim s))"

definition hex_u16 :: "string \<Rightarrow> u16 option" where
  "hex_u16 s = (case hex_raw s of None \<Rightarrow> None | Some n \<Rightarrow> if n < 2 ^ 16 then Some (of_nat n) else None)"

definition hex_u32 :: "string \<Rightarrow> u32 option" where
  "hex_u32 s = (case hex_raw s of None \<Rightarrow> None | Some n \<Rightarrow> if n < 2 ^ 32 then Some (of_nat n) else None)"

section \<open>Ingest\<close>

definition or_default :: "'a \<Rightarrow> 'a option \<Rightarrow> 'a" where
  "or_default d x = (case x of None \<Rightarrow> d | Some v \<Rightarrow> v)"

definition positive :: "u32 option \<Rightarrow> u32 option" where
  "positive x = (case x of Some v \<Rightarrow> if v > 0 then Some v else None | None \<Rightarrow> None)"

definition nonempty :: "string option \<Rightarrow> string option" where
  "nonempty x = (case x of Some s \<Rightarrow> if s \<noteq> [] then Some s else None | None \<Rightarrow> None)"

definition one_of :: "string option \<Rightarrow> string \<Rightarrow> string list \<Rightarrow> config_error + string option" where
  "one_of x path allowed =
     (case nonempty x of
        None \<Rightarrow> Inr None
      | Some s \<Rightarrow>
          if s \<in> set allowed then Inr (Some s) else Inl (Validation path (ExpectedOneOf allowed s)))"

definition board_of :: "string option \<Rightarrow> config_error + board_kind" where
  "board_of x =
     (case x of
        None \<Rightarrow> Inr Gimlet
      | Some s \<Rightarrow>
          if s = ''gimlet'' then Inr Gimlet
          else if s = ''sidecar'' then Inr Sidecar
          else Inl (Validation ''op.board'' (ExpectedBoard s)))"

text \<open>The window \<open>0xADDR:LEN\<close>, a hexadecimal address and a decimal length.\<close>

definition parse_rotdump :: "string \<Rightarrow> (u32 \<times> u32) option" where
  "parse_rotdump s =
     (case split_once CHR '':'' s of
        None \<Rightarrow> None
      | Some (a, l) \<Rightarrow>
          (case parse_uint 16 (2 ^ 32 - 1) (trim_0x (trim a)) of
             None \<Rightarrow> None
           | Some addr \<Rightarrow>
               (case parse_uint 10 (2 ^ 32 - 1) (trim l) of
                  None \<Rightarrow> None
                | Some len \<Rightarrow> Some (of_nat addr, of_nat len))))"

definition rotdump_of :: "string option \<Rightarrow> config_error + (u32 \<times> u32) option" where
  "rotdump_of x =
     (case x of
        None \<Rightarrow> Inr None
      | Some s \<Rightarrow>
          (case parse_rotdump s of
             None \<Rightarrow> Inl (Validation ''trace.rotdump'' (ExpectedWindow s))
           | Some w \<Rightarrow> Inr (Some w)))"

text \<open>30.0 as a 32-bit float.\<close>

definition f32_30 :: f32 where
  "f32_30 = 0x41F00000"

definition ingest :: "config_file_v1 \<Rightarrow> config_error + config" where
  "ingest e =
     bind_result (one_of (op_mode (v1_op e)) ''op.mode'' [''run'', ''gdb'']) (\<lambda>md.
     bind_result (one_of (op_slot (v1_op e)) ''op.slot'' [''a'', ''b'']) (\<lambda>sl.
     bind_result (board_of (op_board (v1_op e))) (\<lambda>bd.
     bind_result (one_of (rot_boot_pref (v1_rot e)) ''rot.boot_pref'' [''a'', ''b'']) (\<lambda>bp.
     bind_result (rotdump_of (trace_rotdump (v1_trace e))) (\<lambda>rd.
     Inr \<lparr>
       cfg_flash_path = or_default ''sp-flash.bin'' (paths_flash (v1_paths e)),
       cfg_rot_nvm_path = or_default ''sp-rot-flash.bin'' (paths_rot_nvm (v1_paths e)),
       cfg_identity_path = or_default ''sp-emu-identity'' (paths_identity (v1_paths e)),
       cfg_state_dir = paths_state_dir (v1_paths e),
       cfg_archive = paths_archive (v1_paths e),
       cfg_seed = op_seed (v1_op e),
       cfg_mode = md,
       cfg_boot_slot = sl,
       cfg_run_max = op_run_max (v1_op e),
       cfg_board = bd,
       cfg_ignition = or_default ''0:gimlet,1:sidecar,2:gimlet,3:gimlet'' (op_ignition (v1_op e)),
       cfg_bridge = net_bridge (v1_net e),
       cfg_well_known_ports = or_default False (net_well_known_ports (v1_net e)),
       cfg_addr0 = net_addr0 (v1_net e),
       cfg_addr1 = net_addr1 (v1_net e),
       cfg_vid0 = net_vid0 (v1_net e),
       cfg_vid1 = net_vid1 (v1_net e),
       cfg_eth_quantum = or_default 4096 (positive (net_eth_quantum (v1_net e))),
       cfg_eth_txbreak = or_default True (net_eth_txbreak (v1_net e)),
       cfg_idle_ms = or_default 10 (net_idle_ms (v1_net e)),
       cfg_host_uart = host_uart (v1_host e),
       cfg_host_pty = or_default False (host_pty (v1_host e)),
       cfg_i2c_bridge = nonempty (i2c_bridge (v1_i2c e)),
       cfg_i2c_device = nonempty (i2c_device (v1_i2c e)),
       cfg_rot_rom = or_default False (rot_rom (v1_rot e)),
       cfg_rot_fresh = or_default False (rot_fresh (v1_rot e)),
       cfg_rot_measure = or_default False (rot_measure (v1_rot e)),
       cfg_rot_service = nonempty (rot_service (v1_rot e)),
       cfg_rot_flash = rot_flash (v1_rot e),
       cfg_rot_bootleby = rot_bootleby (v1_rot e),
       cfg_rot_no_bootleby = or_default False (rot_no_bootleby (v1_rot e)),
       cfg_rot_cmpa = rot_cmpa (v1_rot e),
       cfg_rot_cfpa = rot_cfpa (v1_rot e),
       cfg_rot_nmpa = rot_nmpa (v1_rot e),
       cfg_rot_image_b = rot_image_b (v1_rot e),
       cfg_rot_erase_a = or_default False (rot_erase_a (v1_rot e)),
       cfg_rot_boot_pref = bp,
       cfg_rot_dice = rot_dice (v1_rot e),
       cfg_rot_preboot = rot_preboot (v1_rot e),
       cfg_sprot_flowctl = or_default 16 (sprot_flowctl (v1_sprot e)),
       cfg_sprot_couple = or_default True (sprot_couple (v1_sprot e)),
       cfg_endoscope_couple = or_default True (sprot_endoscope_couple (v1_sprot e)),
       cfg_sp_clock_khz = or_default 400000 (positive (sprot_sp_clock_khz (v1_sprot e))),
       cfg_vpd_serial = nonempty (vpd_serial (v1_vpd e)),
       cfg_vpd_part = nonempty (vpd_part (v1_vpd e)),
       cfg_vpd_rev = nonempty (vpd_rev (v1_vpd e)),
       cfg_sensors = sensors_overrides (v1_sensors e),
       cfg_ambient_c = or_default f32_30 (sensors_ambient_c (v1_sensors e)),
       cfg_dump_dir = dump_dir (v1_dump e),
       cfg_dump_archive_id = or_default [] (dump_archive_id (v1_dump e)),
       cfg_trace = or_default False (trace_enabled (v1_trace e)),
       cfg_trace_from = trace_from (v1_trace e),
       cfg_trace_to = trace_to (v1_trace e),
       cfg_rot_trace_from = trace_rot_from (v1_trace e),
       cfg_rot_trace_to = trace_rot_to (v1_trace e),
       cfg_rotpc = trace_rotpc (v1_trace e),
       cfg_rotdump = rd,
       cfg_watch = trace_watch (v1_trace e),
       cfg_diff = trace_diff (v1_trace e),
       cfg_pcprof = or_default False (trace_pcprof (v1_trace e)),
       cfg_rxstats = or_default False (stats_rx (v1_stats e)),
       cfg_rttstats = or_default False (stats_rtt (v1_stats e)),
       cfg_pumpstats = or_default False (stats_pump (v1_stats e)),
       cfg_pumpstats_ms = or_default 50 (stats_pump_ms (v1_stats e)),
       cfg_no_debug = or_default False (debug_no_debug (v1_debug e)),
       cfg_no_archive_warn = or_default False (debug_no_archive_warn (v1_debug e)),
       cfg_swd_trigger = or_default False (debug_swd_trigger (v1_debug e)),
       cfg_jtag_trigger = or_default False (debug_jtag_trigger (v1_debug e)),
       cfg_swd_trace = or_default False (debug_swd_trace (v1_debug e)),
       cfg_rotsvc = or_default False (debug_rotsvc (v1_debug e)),
       cfg_pingtest = or_default False (debug_pingtest (v1_debug e)),
       cfg_flashdbg = or_default False (debug_flash (v1_debug e)),
       cfg_rotflashdbg = or_default False (debug_rotflash (v1_debug e)),
       cfg_ethdbg = or_default False (debug_eth (v1_debug e)),
       cfg_uartdbg = or_default False (debug_uart (v1_debug e)),
       cfg_bridgedbg = or_default False (debug_bridge (v1_debug e)),
       cfg_pufdbg = or_default False (debug_puf (v1_debug e)),
       cfg_vscdbg = or_default False (debug_vsc (v1_debug e)),
       cfg_rxdbg = or_default False (debug_rx (v1_debug e)),
       cfg_mdiodbg = or_default False (debug_mdio (v1_debug e)),
       cfg_vpddbg = or_default False (debug_vpd (v1_debug e)),
       cfg_spidbg = or_default False (debug_spi (v1_debug e)),
       cfg_panicdbg = or_default False (debug_panic (v1_debug e)),
       cfg_svcdbg = or_default False (debug_svc (v1_debug e)),
       cfg_excdbg = or_default False (debug_exc (v1_debug e)),
       cfg_sprotdbg = or_default False (debug_sprot (v1_debug e)),
       cfg_coupledbg = or_default False (debug_couple (v1_debug e)),
       cfg_romdbg = or_default False (debug_rom (v1_debug e)),
       cfg_configdbg = or_default False (debug_config (v1_debug e))\<rparr>)))))"

section \<open>Dump\<close>

definition board_str :: "board_kind \<Rightarrow> string" where
  "board_str b = (case b of Gimlet \<Rightarrow> ''gimlet'' | Sidecar \<Rightarrow> ''sidecar'')"

definition window_str :: "u32 \<times> u32 \<Rightarrow> string" where
  "window_str w = ''0x'' @ print_uint 16 (unat (fst w)) @ '':'' @ dec (unat (snd w))"

definition config_to_external :: "config \<Rightarrow> config_file_v1" where
  "config_to_external c = \<lparr>
     schema_version = Some CURRENT,
     v1_op = \<lparr>op_mode = cfg_mode c, op_slot = cfg_boot_slot c, op_run_max = cfg_run_max c,
       op_board = Some (board_str (cfg_board c)), op_seed = cfg_seed c,
       op_ignition = Some (cfg_ignition c)\<rparr>,
     v1_paths = \<lparr>paths_flash = Some (cfg_flash_path c), paths_rot_nvm = Some (cfg_rot_nvm_path c),
       paths_identity = Some (cfg_identity_path c), paths_state_dir = cfg_state_dir c,
       paths_archive = cfg_archive c\<rparr>,
     v1_net = \<lparr>net_bridge = cfg_bridge c, net_well_known_ports = Some (cfg_well_known_ports c),
       net_addr0 = cfg_addr0 c, net_addr1 = cfg_addr1 c, net_vid0 = cfg_vid0 c, net_vid1 = cfg_vid1 c,
       net_eth_quantum = Some (cfg_eth_quantum c), net_eth_txbreak = Some (cfg_eth_txbreak c),
       net_idle_ms = Some (cfg_idle_ms c)\<rparr>,
     v1_host = \<lparr>host_uart = cfg_host_uart c, host_pty = Some (cfg_host_pty c)\<rparr>,
     v1_i2c = \<lparr>i2c_bridge = cfg_i2c_bridge c, i2c_device = cfg_i2c_device c\<rparr>,
     v1_rot = \<lparr>rot_rom = Some (cfg_rot_rom c), rot_fresh = Some (cfg_rot_fresh c),
       rot_measure = Some (cfg_rot_measure c), rot_service = cfg_rot_service c,
       rot_flash = cfg_rot_flash c, rot_bootleby = cfg_rot_bootleby c,
       rot_no_bootleby = Some (cfg_rot_no_bootleby c), rot_cmpa = cfg_rot_cmpa c,
       rot_cfpa = cfg_rot_cfpa c, rot_nmpa = cfg_rot_nmpa c, rot_image_b = cfg_rot_image_b c,
       rot_erase_a = Some (cfg_rot_erase_a c), rot_boot_pref = cfg_rot_boot_pref c,
       rot_dice = cfg_rot_dice c, rot_preboot = cfg_rot_preboot c\<rparr>,
     v1_sprot = \<lparr>sprot_flowctl = Some (cfg_sprot_flowctl c),
       sprot_couple = Some (cfg_sprot_couple c), sprot_endoscope_couple = Some (cfg_endoscope_couple c),
       sprot_sp_clock_khz = Some (cfg_sp_clock_khz c)\<rparr>,
     v1_vpd = \<lparr>vpd_serial = cfg_vpd_serial c, vpd_part = cfg_vpd_part c,
       vpd_rev = cfg_vpd_rev c\<rparr>,
     v1_sensors = \<lparr>sensors_overrides = cfg_sensors c,
       sensors_ambient_c = Some (cfg_ambient_c c)\<rparr>,
     v1_dump = \<lparr>dump_dir = cfg_dump_dir c, dump_archive_id = Some (cfg_dump_archive_id c)\<rparr>,
     v1_trace = \<lparr>trace_enabled = Some (cfg_trace c), trace_from = cfg_trace_from c,
       trace_to = cfg_trace_to c, trace_rot_from = cfg_rot_trace_from c, trace_rot_to = cfg_rot_trace_to c,
       trace_rotpc = cfg_rotpc c, trace_rotdump = map_option window_str (cfg_rotdump c),
       trace_watch = cfg_watch c, trace_diff = cfg_diff c, trace_pcprof = Some (cfg_pcprof c)\<rparr>,
     v1_stats = \<lparr>stats_rx = Some (cfg_rxstats c), stats_rtt = Some (cfg_rttstats c),
       stats_pump = Some (cfg_pumpstats c), stats_pump_ms = Some (cfg_pumpstats_ms c)\<rparr>,
     v1_debug = \<lparr>debug_no_debug = Some (cfg_no_debug c),
       debug_no_archive_warn = Some (cfg_no_archive_warn c), debug_swd_trigger = Some (cfg_swd_trigger c),
       debug_jtag_trigger = Some (cfg_jtag_trigger c), debug_swd_trace = Some (cfg_swd_trace c),
       debug_rotsvc = Some (cfg_rotsvc c), debug_pingtest = Some (cfg_pingtest c),
       debug_flash = Some (cfg_flashdbg c), debug_rotflash = Some (cfg_rotflashdbg c),
       debug_eth = Some (cfg_ethdbg c), debug_uart = Some (cfg_uartdbg c),
       debug_bridge = Some (cfg_bridgedbg c), debug_puf = Some (cfg_pufdbg c),
       debug_vsc = Some (cfg_vscdbg c), debug_rx = Some (cfg_rxdbg c), debug_mdio = Some (cfg_mdiodbg c),
       debug_vpd = Some (cfg_vpddbg c), debug_spi = Some (cfg_spidbg c),
       debug_panic = Some (cfg_panicdbg c), debug_svc = Some (cfg_svcdbg c),
       debug_exc = Some (cfg_excdbg c), debug_sprot = Some (cfg_sprotdbg c),
       debug_couple = Some (cfg_coupledbg c), debug_rom = Some (cfg_romdbg c),
       debug_config = Some (cfg_configdbg c)\<rparr>\<rparr>"

section \<open>The flat names\<close>

definition ENV_NAMES :: "string list" where
  "ENV_NAMES = [
    ''SP_EMU_FLASH'', ''SP_EMU_ROT_NVM'', ''SP_EMU_IDENTITY'',
    ''SP_EMU_STATE_DIR'', ''SP_EMU_ARCHIVE'', ''SP_EMU_SEED'',
    ''SP_EMU_MODE'', ''SP_EMU_SLOT'', ''SP_EMU_RUN_MAX'',
    ''SP_EMU_BOARD'', ''SP_EMU_IGNITION'', ''SP_EMU_BRIDGE'',
    ''SP_EMU_WELL_KNOWN_PORTS'', ''SP_EMU_ADDR0'', ''SP_EMU_ADDR1'',
    ''SP_EMU_VID0'', ''SP_EMU_VID1'', ''SP_EMU_ETH_QUANTUM'',
    ''SP_EMU_ETH_TXBREAK'', ''SP_EMU_IDLE_MS'', ''SP_EMU_HOST_UART'',
    ''SP_EMU_HOST_PTY'', ''SP_EMU_I2C_BRIDGE'', ''SP_EMU_I2C_DEVICE'',
    ''SP_EMU_ROT_ROM'', ''SP_EMU_ROT_FRESH'', ''SP_EMU_ROT_MEASURE'',
    ''SP_EMU_ROT_SERVICE'', ''SP_EMU_ROT_FLASH'', ''SP_EMU_ROT_BOOTLEBY'',
    ''SP_EMU_ROT_NO_BOOTLEBY'', ''SP_EMU_ROT_CMPA'', ''SP_EMU_ROT_CFPA'',
    ''SP_EMU_ROT_NMPA'', ''SP_EMU_ROT_IMAGE_B'', ''SP_EMU_ROT_ERASE_A'',
    ''SP_EMU_ROT_BOOT_PREF'', ''SP_EMU_ROT_DICE'', ''SP_EMU_ROT_PREBOOT'',
    ''SP_EMU_SPROT_FLOWCTL'', ''SP_EMU_SPROT_COUPLE'', ''SP_EMU_ENDOSCOPE_COUPLE'',
    ''SP_EMU_SP_CLOCK_KHZ'', ''SP_EMU_VPD_SERIAL'', ''SP_EMU_VPD_PART'',
    ''SP_EMU_VPD_REV'', ''SP_EMU_SENSORS'', ''SP_EMU_AMBIENT_C'',
    ''SP_EMU_DUMP_DIR'', ''SP_EMU_DUMP_ARCHIVE_ID'', ''SP_EMU_TRACE'',
    ''SP_EMU_TRACE_FROM'', ''SP_EMU_TRACE_TO'', ''SP_EMU_ROT_TRACE_FROM'',
    ''SP_EMU_ROT_TRACE_TO'', ''SP_EMU_ROTPC'', ''SP_EMU_ROTDUMP'',
    ''SP_EMU_WATCH'', ''SP_EMU_DIFF'', ''SP_EMU_PCPROF'',
    ''SP_EMU_RXSTATS'', ''SP_EMU_RTTSTATS'', ''SP_EMU_PUMPSTATS'',
    ''SP_EMU_PUMPSTATS_MS'', ''SP_EMU_NO_DEBUG'', ''SP_EMU_NO_ARCHIVE_WARN'',
    ''SP_EMU_SWD_TRIGGER'', ''SP_EMU_JTAG_TRIGGER'', ''SP_EMU_SWD_TRACE'',
    ''SP_EMU_ROTSVC'', ''SP_EMU_PINGTEST'', ''SP_EMU_FLASHDBG'',
    ''SP_EMU_ROTFLASHDBG'', ''SP_EMU_ETHDBG'', ''SP_EMU_UARTDBG'',
    ''SP_EMU_BRIDGEDBG'', ''SP_EMU_PUFDBG'', ''SP_EMU_VSCDBG'',
    ''SP_EMU_RXDBG'', ''SP_EMU_MDIODBG'', ''SP_EMU_VPDDBG'',
    ''SP_EMU_SPIDBG'', ''SP_EMU_PANICDBG'', ''SP_EMU_SVCDBG'',
    ''SP_EMU_EXCDBG'', ''SP_EMU_SPROTDBG'', ''SP_EMU_COUPLEDBG'',
    ''SP_EMU_ROMDBG'', ''SP_EMU_CONFIGDBG'']"

text \<open>
  The arms of \<open>set\<close>, in its order. A presence flag takes \<open>True\<close> whatever its value, a ternary
  one is off for \<open>0\<close> only, and a number that does not parse leaves its knob unset; a board other
  than \<open>sidecar\<close>, a boot preference other than \<open>a\<close> or \<open>b\<close> and a malformed window change nothing.
\<close>

definition setters :: "(string \<Rightarrow> f32 option) \<Rightarrow> (string \<times> (string \<Rightarrow> config_file_v1 \<Rightarrow> config_file_v1)) list" where
  "setters parse_f32 = [
    (''SP_EMU_FLASH'', \<lambda>s. v1_paths_update (paths_flash_update (\<lambda>_. Some s))),
    (''SP_EMU_ROT_NVM'', \<lambda>s. v1_paths_update (paths_rot_nvm_update (\<lambda>_. Some s))),
    (''SP_EMU_IDENTITY'', \<lambda>s. v1_paths_update (paths_identity_update (\<lambda>_. Some s))),
    (''SP_EMU_STATE_DIR'', \<lambda>s. v1_paths_update (paths_state_dir_update (\<lambda>_. Some s))),
    (''SP_EMU_ARCHIVE'', \<lambda>s. v1_paths_update (paths_archive_update (\<lambda>_. Some s))),
    (''SP_EMU_SEED'', \<lambda>s. v1_op_update (op_seed_update (\<lambda>_. Some s))),
    (''SP_EMU_MODE'', \<lambda>s. v1_op_update (op_mode_update (\<lambda>_. Some s))),
    (''SP_EMU_SLOT'', \<lambda>s. v1_op_update (op_slot_update (\<lambda>_. Some s))),
    (''SP_EMU_RUN_MAX'', \<lambda>s. v1_op_update (op_run_max_update (\<lambda>_. parse_u64 s))),
    (''SP_EMU_BOARD'', (\<lambda>s c. if s = ''sidecar'' then v1_op_update (op_board_update (\<lambda>_. Some ''sidecar'')) c else c)),
    (''SP_EMU_IGNITION'', \<lambda>s. v1_op_update (op_ignition_update (\<lambda>_. Some s))),
    (''SP_EMU_BRIDGE'', \<lambda>s. v1_net_update (net_bridge_update (\<lambda>_. Some s))),
    (''SP_EMU_WELL_KNOWN_PORTS'', \<lambda>_. v1_net_update (net_well_known_ports_update (\<lambda>_. Some True))),
    (''SP_EMU_ADDR0'', \<lambda>s. v1_net_update (net_addr0_update (\<lambda>_. Some s))),
    (''SP_EMU_ADDR1'', \<lambda>s. v1_net_update (net_addr1_update (\<lambda>_. Some s))),
    (''SP_EMU_VID0'', \<lambda>s. v1_net_update (net_vid0_update (\<lambda>_. hex_u16 s))),
    (''SP_EMU_VID1'', \<lambda>s. v1_net_update (net_vid1_update (\<lambda>_. hex_u16 s))),
    (''SP_EMU_ETH_QUANTUM'', \<lambda>s. v1_net_update (net_eth_quantum_update (\<lambda>_. parse_u32 s))),
    (''SP_EMU_ETH_TXBREAK'', \<lambda>s. v1_net_update (net_eth_txbreak_update (\<lambda>_. Some (s \<noteq> ''0'')))),
    (''SP_EMU_IDLE_MS'', \<lambda>s. v1_net_update (net_idle_ms_update (\<lambda>_. parse_u64 s))),
    (''SP_EMU_HOST_UART'', \<lambda>s. v1_host_update (host_uart_update (\<lambda>_. Some s))),
    (''SP_EMU_HOST_PTY'', \<lambda>_. v1_host_update (host_pty_update (\<lambda>_. Some True))),
    (''SP_EMU_I2C_BRIDGE'', \<lambda>s. v1_i2c_update (i2c_bridge_update (\<lambda>_. Some s))),
    (''SP_EMU_I2C_DEVICE'', \<lambda>s. v1_i2c_update (i2c_device_update (\<lambda>_. Some s))),
    (''SP_EMU_ROT_ROM'', \<lambda>_. v1_rot_update (rot_rom_update (\<lambda>_. Some True))),
    (''SP_EMU_ROT_FRESH'', \<lambda>_. v1_rot_update (rot_fresh_update (\<lambda>_. Some True))),
    (''SP_EMU_ROT_MEASURE'', \<lambda>_. v1_rot_update (rot_measure_update (\<lambda>_. Some True))),
    (''SP_EMU_ROT_SERVICE'', \<lambda>s. v1_rot_update (rot_service_update (\<lambda>_. Some s))),
    (''SP_EMU_ROT_FLASH'', \<lambda>s. v1_rot_update (rot_flash_update (\<lambda>_. Some s))),
    (''SP_EMU_ROT_BOOTLEBY'', \<lambda>s. v1_rot_update (rot_bootleby_update (\<lambda>_. Some s))),
    (''SP_EMU_ROT_NO_BOOTLEBY'', \<lambda>_. v1_rot_update (rot_no_bootleby_update (\<lambda>_. Some True))),
    (''SP_EMU_ROT_CMPA'', \<lambda>s. v1_rot_update (rot_cmpa_update (\<lambda>_. Some s))),
    (''SP_EMU_ROT_CFPA'', \<lambda>s. v1_rot_update (rot_cfpa_update (\<lambda>_. Some s))),
    (''SP_EMU_ROT_NMPA'', \<lambda>s. v1_rot_update (rot_nmpa_update (\<lambda>_. Some s))),
    (''SP_EMU_ROT_IMAGE_B'', \<lambda>s. v1_rot_update (rot_image_b_update (\<lambda>_. Some s))),
    (''SP_EMU_ROT_ERASE_A'', \<lambda>_. v1_rot_update (rot_erase_a_update (\<lambda>_. Some True))),
    (''SP_EMU_ROT_BOOT_PREF'', (\<lambda>s c. if s = ''a'' \<or> s = ''b'' then v1_rot_update (rot_boot_pref_update (\<lambda>_. Some s)) c else c)),
    (''SP_EMU_ROT_DICE'', \<lambda>s. v1_rot_update (rot_dice_update (\<lambda>_. Some s))),
    (''SP_EMU_ROT_PREBOOT'', \<lambda>s. v1_rot_update (rot_preboot_update (\<lambda>_. parse_u64 s))),
    (''SP_EMU_SPROT_FLOWCTL'', \<lambda>s. v1_sprot_update (sprot_flowctl_update (\<lambda>_. parse_u32 s))),
    (''SP_EMU_SPROT_COUPLE'', \<lambda>s. v1_sprot_update (sprot_couple_update (\<lambda>_. Some (s \<noteq> ''0'')))),
    (''SP_EMU_ENDOSCOPE_COUPLE'', \<lambda>s. v1_sprot_update (sprot_endoscope_couple_update (\<lambda>_. Some (s \<noteq> ''0'')))),
    (''SP_EMU_SP_CLOCK_KHZ'', \<lambda>s. v1_sprot_update (sprot_sp_clock_khz_update (\<lambda>_. parse_u32 s))),
    (''SP_EMU_VPD_SERIAL'', \<lambda>s. v1_vpd_update (vpd_serial_update (\<lambda>_. Some s))),
    (''SP_EMU_VPD_PART'', \<lambda>s. v1_vpd_update (vpd_part_update (\<lambda>_. Some s))),
    (''SP_EMU_VPD_REV'', \<lambda>s. v1_vpd_update (vpd_rev_update (\<lambda>_. Some s))),
    (''SP_EMU_SENSORS'', \<lambda>s. v1_sensors_update (sensors_overrides_update (\<lambda>_. Some s))),
    (''SP_EMU_AMBIENT_C'', \<lambda>s. v1_sensors_update (sensors_ambient_c_update (\<lambda>_. parse_f32 (trim s)))),
    (''SP_EMU_DUMP_DIR'', \<lambda>s. v1_dump_update (dump_dir_update (\<lambda>_. Some s))),
    (''SP_EMU_DUMP_ARCHIVE_ID'', \<lambda>s. v1_dump_update (dump_archive_id_update (\<lambda>_. Some s))),
    (''SP_EMU_TRACE'', \<lambda>_. v1_trace_update (trace_enabled_update (\<lambda>_. Some True))),
    (''SP_EMU_TRACE_FROM'', \<lambda>s. v1_trace_update (trace_from_update (\<lambda>_. parse_u64 s))),
    (''SP_EMU_TRACE_TO'', \<lambda>s. v1_trace_update (trace_to_update (\<lambda>_. parse_u64 s))),
    (''SP_EMU_ROT_TRACE_FROM'', \<lambda>s. v1_trace_update (trace_rot_from_update (\<lambda>_. hex_u32 s))),
    (''SP_EMU_ROT_TRACE_TO'', \<lambda>s. v1_trace_update (trace_rot_to_update (\<lambda>_. hex_u32 s))),
    (''SP_EMU_ROTPC'', \<lambda>s. v1_trace_update (trace_rotpc_update (\<lambda>_. parse_u64 s))),
    (''SP_EMU_ROTDUMP'', (\<lambda>s c. if parse_rotdump s \<noteq> None then v1_trace_update (trace_rotdump_update (\<lambda>_. Some s)) c else c)),
    (''SP_EMU_WATCH'', \<lambda>s. v1_trace_update (trace_watch_update (\<lambda>_. hex_u32 s))),
    (''SP_EMU_DIFF'', \<lambda>s. v1_trace_update (trace_diff_update (\<lambda>_. Some s))),
    (''SP_EMU_PCPROF'', \<lambda>_. v1_trace_update (trace_pcprof_update (\<lambda>_. Some True))),
    (''SP_EMU_RXSTATS'', \<lambda>_. v1_stats_update (stats_rx_update (\<lambda>_. Some True))),
    (''SP_EMU_RTTSTATS'', \<lambda>_. v1_stats_update (stats_rtt_update (\<lambda>_. Some True))),
    (''SP_EMU_PUMPSTATS'', \<lambda>_. v1_stats_update (stats_pump_update (\<lambda>_. Some True))),
    (''SP_EMU_PUMPSTATS_MS'', \<lambda>s. v1_stats_update (stats_pump_ms_update (\<lambda>_. parse_u64 s))),
    (''SP_EMU_NO_DEBUG'', \<lambda>_. v1_debug_update (debug_no_debug_update (\<lambda>_. Some True))),
    (''SP_EMU_NO_ARCHIVE_WARN'', \<lambda>_. v1_debug_update (debug_no_archive_warn_update (\<lambda>_. Some True))),
    (''SP_EMU_SWD_TRIGGER'', \<lambda>_. v1_debug_update (debug_swd_trigger_update (\<lambda>_. Some True))),
    (''SP_EMU_JTAG_TRIGGER'', \<lambda>_. v1_debug_update (debug_jtag_trigger_update (\<lambda>_. Some True))),
    (''SP_EMU_SWD_TRACE'', \<lambda>_. v1_debug_update (debug_swd_trace_update (\<lambda>_. Some True))),
    (''SP_EMU_ROTSVC'', \<lambda>_. v1_debug_update (debug_rotsvc_update (\<lambda>_. Some True))),
    (''SP_EMU_PINGTEST'', \<lambda>_. v1_debug_update (debug_pingtest_update (\<lambda>_. Some True))),
    (''SP_EMU_FLASHDBG'', \<lambda>_. v1_debug_update (debug_flash_update (\<lambda>_. Some True))),
    (''SP_EMU_ROTFLASHDBG'', \<lambda>_. v1_debug_update (debug_rotflash_update (\<lambda>_. Some True))),
    (''SP_EMU_ETHDBG'', \<lambda>_. v1_debug_update (debug_eth_update (\<lambda>_. Some True))),
    (''SP_EMU_UARTDBG'', \<lambda>_. v1_debug_update (debug_uart_update (\<lambda>_. Some True))),
    (''SP_EMU_BRIDGEDBG'', \<lambda>_. v1_debug_update (debug_bridge_update (\<lambda>_. Some True))),
    (''SP_EMU_PUFDBG'', \<lambda>_. v1_debug_update (debug_puf_update (\<lambda>_. Some True))),
    (''SP_EMU_VSCDBG'', \<lambda>_. v1_debug_update (debug_vsc_update (\<lambda>_. Some True))),
    (''SP_EMU_RXDBG'', \<lambda>_. v1_debug_update (debug_rx_update (\<lambda>_. Some True))),
    (''SP_EMU_MDIODBG'', \<lambda>_. v1_debug_update (debug_mdio_update (\<lambda>_. Some True))),
    (''SP_EMU_VPDDBG'', \<lambda>_. v1_debug_update (debug_vpd_update (\<lambda>_. Some True))),
    (''SP_EMU_SPIDBG'', \<lambda>_. v1_debug_update (debug_spi_update (\<lambda>_. Some True))),
    (''SP_EMU_PANICDBG'', \<lambda>_. v1_debug_update (debug_panic_update (\<lambda>_. Some True))),
    (''SP_EMU_SVCDBG'', \<lambda>_. v1_debug_update (debug_svc_update (\<lambda>_. Some True))),
    (''SP_EMU_EXCDBG'', \<lambda>_. v1_debug_update (debug_exc_update (\<lambda>_. Some True))),
    (''SP_EMU_SPROTDBG'', \<lambda>_. v1_debug_update (debug_sprot_update (\<lambda>_. Some True))),
    (''SP_EMU_COUPLEDBG'', \<lambda>_. v1_debug_update (debug_couple_update (\<lambda>_. Some True))),
    (''SP_EMU_ROMDBG'', \<lambda>_. v1_debug_update (debug_rom_update (\<lambda>_. Some True))),
    (''SP_EMU_CONFIGDBG'', \<lambda>_. v1_debug_update (debug_config_update (\<lambda>_. Some True)))]"

definition set_flat :: "(string \<Rightarrow> f32 option) \<Rightarrow> config_file_v1 \<Rightarrow> string \<Rightarrow> string \<Rightarrow> config_file_v1" where
  "set_flat parse_f32 c name s = (case map_of (setters parse_f32) name of None \<Rightarrow> c | Some f \<Rightarrow> f s c)"

definition flat_pairs_to_v1 :: "(string \<Rightarrow> f32 option) \<Rightarrow> (string \<times> string) list \<Rightarrow> config_file_v1" where
  "flat_pairs_to_v1 parse_f32 ps = foldl (\<lambda>c (name, value). set_flat parse_f32 c name value) v1_default ps"

section \<open>Files\<close>

text \<open>
  What the TOML library does: parse a text and read the \<open>schema_version\<close> key alone, parse a
  table of values, deserialize the typed form, and serialize it. An error is its message.
\<close>

datatype 'd toml_value =
    TString string | TInteger int | TBoolean bool | TFloat 'd | TOther 'd

record 'd toml_lib =
  toml_version :: "string \<Rightarrow> string + u32 option"
  toml_table :: "string \<Rightarrow> string + (string \<times> 'd toml_value) list"
  toml_typed :: "string \<Rightarrow> string + config_file_v1"
  toml_pretty :: "config_file_v1 \<Rightarrow> string + string"
  toml_show :: "'d \<Rightarrow> string"

definition from_toml :: "string + 'a \<Rightarrow> config_error + 'a" where
  "from_toml x = (case x of Inl m \<Rightarrow> Inl (Parse m) | Inr v \<Rightarrow> Inr v)"

definition print_int :: "int \<Rightarrow> string" where
  "print_int i = (if i < 0 then CHR ''-'' # dec (nat (- i)) else dec (nat i))"

definition scalar_string :: "'d toml_lib \<Rightarrow> 'd toml_value \<Rightarrow> string" where
  "scalar_string T v =
     (case v of
        TString s \<Rightarrow> s
      | TInteger i \<Rightarrow> print_int i
      | TBoolean b \<Rightarrow> if b then ''true'' else ''false''
      | TFloat d \<Rightarrow> toml_show T d
      | TOther d \<Rightarrow> toml_show T d)"

definition flat_to_v1 ::
  "'d toml_lib \<Rightarrow> (string \<Rightarrow> f32 option) \<Rightarrow> string \<Rightarrow> config_error + config_file_v1" where
  "flat_to_v1 T parse_f32 text =
     bind_result (from_toml (toml_table T text)) (\<lambda>table.
     Inr (flat_pairs_to_v1 parse_f32 (map (\<lambda>(k, v). (k, scalar_string T v)) table)))"

definition peek_version :: "'d toml_lib \<Rightarrow> string \<Rightarrow> config_error + schema_version" where
  "peek_version T text =
     bind_result (from_toml (toml_version T text)) (\<lambda>probe.
     Inr (case probe of
            None \<Rightarrow> LegacyFlat
          | Some n \<Rightarrow> if n \<le> CURRENT then Known n else Newer n))"

definition migrate ::
  "'d toml_lib \<Rightarrow> (string \<Rightarrow> f32 option) \<Rightarrow> string \<Rightarrow> config_error + config_file_v1" where
  "migrate T parse_f32 text =
     bind_result (peek_version T text) (\<lambda>v.
       case v of
         LegacyFlat \<Rightarrow> flat_to_v1 T parse_f32 text
       | Known n \<Rightarrow>
           if n = 0 then flat_to_v1 T parse_f32 text
           else if n = 1 then from_toml (toml_typed T text)
           else Inl (Validation ''schema_version'' (NoMigration n))
       | Newer found \<Rightarrow> Inl (NewerSchema found CURRENT))"

definition load_str :: "'d toml_lib \<Rightarrow> (string \<Rightarrow> f32 option) \<Rightarrow> string \<Rightarrow> config_error + config" where
  "load_str T parse_f32 text = bind_result (migrate T parse_f32 text) ingest"

definition load_config ::
  "'d toml_lib \<Rightarrow> (string \<Rightarrow> f32 option) \<Rightarrow> (string \<Rightarrow> string option) \<Rightarrow> string \<Rightarrow> config_error + config" where
  "load_config T parse_f32 files path =
     (case files path of None \<Rightarrow> Inl (Io path) | Some text \<Rightarrow> load_str T parse_f32 text)"

definition validate ::
  "'d toml_lib \<Rightarrow> (string \<Rightarrow> f32 option) \<Rightarrow> string \<Rightarrow> config_error + schema_version" where
  "validate T parse_f32 text =
     bind_result (peek_version T text) (\<lambda>version.
     bind_result (migrate T parse_f32 text) (\<lambda>e.
     bind_result (ingest e) (\<lambda>_. Inr version)))"

definition to_toml :: "'d toml_lib \<Rightarrow> config_file_v1 \<Rightarrow> config_error + string" where
  "to_toml T e = (case toml_pretty T e of Inl m \<Rightarrow> Inl (Serialize m) | Inr text \<Rightarrow> Inr text)"

definition dump :: "'d toml_lib \<Rightarrow> config \<Rightarrow> config_error + string" where
  "dump T c = to_toml T (config_to_external c)"

end
