(* ===== verification/Codec.thy ===== *)
theory Codec
  imports Main
begin

text \<open>
  The interface of everything the program writes and reads back: an encoder, a partial decoder,
  and the values the encoder is meant for. What a client relies on (the encoder loses nothing, a
  decoded value can be written again, two codecs in a row are one) is proved from the one law.
\<close>

locale codec =
  fixes enc :: "'a \<Rightarrow> 'b"
    and decd :: "'b \<Rightarrow> 'a option"
    and good :: "'a \<Rightarrow> bool"
  assumes decode_encode: "good x \<Longrightarrow> decd (enc x) = Some x"
begin

lemma encode_inj: "good x \<Longrightarrow> good y \<Longrightarrow> enc x = enc y \<Longrightarrow> x = y"
  by (metis decode_encode option.inject)

lemma decode_total: "good x \<Longrightarrow> decd (enc x) \<noteq> None"
  by (simp add: decode_encode)

lemma reencode: "good x \<Longrightarrow> map_option enc (decd (enc x)) = Some (enc x)"
  by (simp add: decode_encode)

lemma decode_unique: "good x \<Longrightarrow> decd (enc x) = Some y \<Longrightarrow> y = x"
  by (simp add: decode_encode)

end

text \<open>A codec whose values are written by a second one.\<close>

locale codec_pair = codec enc decd good + outer: codec enc' decd' good'
  for enc :: "'a \<Rightarrow> 'b" and decd good and enc' :: "'b \<Rightarrow> 'c" and decd' good' +
  assumes good_enc: "good x \<Longrightarrow> good' (enc x)"

sublocale codec_pair \<subseteq> both: codec "\<lambda>x. enc' (enc x)" "\<lambda>z. Option.bind (decd' z) decd" good
  by unfold_locales (simp add: decode_encode outer.decode_encode good_enc)

end
