(* ===== verification/Config_Props.thy ===== *)
theory Config_Props
  imports Config Codec
begin

text \<open>
  What the configuration crate guarantees: the printed window is read back, the validated
  configurations are exactly what \<open>ingest\<close> produces and survive being dumped, the flat names
  and the setters agree, and flat values are lenient in everything but the mode and the slot.
\<close>

section \<open>The window's text\<close>

lemma digits_no_colon:
  assumes "2 \<le> r" "r \<le> 16"
  shows "CHR '':'' \<notin> set (print_uint r n)"
proof
  assume "CHR '':'' \<in> set (print_uint r n)"
  then obtain d where d: "d < r" "CHR '':'' = digit_char d"
    using print_uint_digits [OF assms(1), of n] by blast
  have "(of_char CHR '':'' :: nat) = 58" by simp
  then have "(of_char (digit_char d) :: nat) = 58" using d(2) by simp
  then show False using d(1) assms(2) by (simp add: digit_char_def split: if_splits)
qed

lemma trim_no_ws: "s \<noteq> [] \<Longrightarrow> \<forall>c \<in> set s. \<not> is_ws c \<Longrightarrow> trim s = s"
  unfolding trim_def by (rule trim_by_id) simp_all

lemma trim_plain: "plain s \<Longrightarrow> trim s = s"
  by (rule trim_no_ws) (auto simp: plain_def plain_char_def)

lemma trim_0x_plain: "plain s \<Longrightarrow> trim (''0x'' @ s) = ''0x'' @ s" "plain s \<Longrightarrow> trim_0x (''0x'' @ s) = s"
proof -
  assume s: "plain s"
  show "trim (''0x'' @ s) = ''0x'' @ s"
    by (rule trim_no_ws) (use s in \<open>auto simp: plain_def plain_char_def is_ws_def\<close>)
  obtain c cs where "s = c # cs" "\<forall>d \<in> set s. d \<noteq> CHR ''x''"
    using s by (cases s) (auto simp: plain_def plain_char_def)
  then show "trim_0x (''0x'' @ s) = s" by (cases cs) auto
qed

lemma parse_rotdump_window [simp]: "parse_rotdump (window_str w) = Some w"
proof -
  let ?a = "print_uint 16 (unat (fst w))" and ?l = "dec (unat (snd w))"
  have "window_str w = (''0x'' @ ?a) @ CHR '':'' # ?l" by (simp add: window_str_def)
  moreover have "CHR '':'' \<notin> set (''0x'' @ ?a)" using digits_no_colon [of 16] by simp
  ultimately have "split_once CHR '':'' (window_str w) = Some (''0x'' @ ?a, ?l)"
    by (metis split_once_eq)
  moreover have "parse_uint 16 (2 ^ 32 - 1) ?a = Some (unat (fst w))"
    using unsigned_less [of "fst w", where 'a = nat]
    by (intro parse_plain) (simp_all add: plain_print digits_val_print)
  moreover have "parse_uint 10 (2 ^ 32 - 1) ?l = Some (unat (snd w))"
    using unsigned_less [of "snd w", where 'a = nat] by (intro parse_dec) simp
  ultimately show ?thesis
    by (simp add: parse_rotdump_def trim_0x_plain [simplified] trim_plain plain_print)
qed

interpretation win: codec window_str parse_rotdump "\<lambda>_. True"
  by unfold_locales simp

section \<open>Validated configurations\<close>

definition config_valid :: "config \<Rightarrow> bool" where
  "config_valid c \<longleftrightarrow>
     cfg_mode c \<in> {None, Some ''run'', Some ''gdb''} \<and>
     cfg_boot_slot c \<in> {None, Some ''a'', Some ''b''} \<and>
     cfg_rot_boot_pref c \<in> {None, Some ''a'', Some ''b''} \<and>
     0 < cfg_eth_quantum c \<and> 0 < cfg_sp_clock_khz c \<and>
     Some [] \<notin> {cfg_i2c_bridge c, cfg_i2c_device c, cfg_rot_service c, cfg_vpd_serial c,
                cfg_vpd_part c, cfg_vpd_rev c}"

named_theorems ingest_simps \<open>the value checks of ingest\<close>

lemma or_default_simps [simp]: "or_default d None = d" "or_default d (Some v) = v"
  by (simp_all add: or_default_def)

lemma nonempty_not_empty [simp]: "nonempty x \<noteq> Some []" "Some [] \<noteq> nonempty x"
  by (auto simp: nonempty_def split: option.split)

lemma nonempty_id: "Some [] \<noteq> x \<Longrightarrow> nonempty x = x"
  by (auto simp: nonempty_def split: option.split)

lemma or_default_positive [simp]: "0 < d \<Longrightarrow> 0 < or_default d (positive x)"
  by (auto simp: positive_def split: option.split)

lemma positive_id [simp]: "0 < v \<Longrightarrow> positive (Some v) = Some v"
  by (simp add: positive_def)

lemma one_of_Inr: "one_of x p allowed = Inr y \<longleftrightarrow> y = nonempty x \<and> (\<forall>s. y = Some s \<longrightarrow> s \<in> set allowed)"
  by (auto simp: one_of_def split: option.split)

lemma one_of_Inl:
  "one_of x p allowed = Inl e \<longleftrightarrow>
     (\<exists>s. nonempty x = Some s \<and> s \<notin> set allowed \<and> e = Validation p (ExpectedOneOf allowed s))"
  by (auto simp: one_of_def split: option.split)

lemma board_of_str [simp]: "board_of (Some (board_str b)) = Inr b"
  by (cases b) (simp_all add: board_of_def board_str_def)

lemma rotdump_of_window [simp]: "rotdump_of (map_option window_str w) = Inr w"
  by (cases w) (simp_all add: rotdump_of_def)

lemma one_of_two: "one_of x p [a, b] = Inr y \<Longrightarrow> y \<in> {None, Some a, Some b}"
  by (cases y) (auto simp: one_of_Inr)

lemma one_of_kept:
  "y \<in> {None, Some a, Some b} \<Longrightarrow> a \<noteq> [] \<Longrightarrow> b \<noteq> [] \<Longrightarrow> one_of y p [a, b] = Inr y"
  by (auto simp: one_of_def nonempty_def)

lemma ingest_valid: "ingest e = Inr c \<Longrightarrow> config_valid c"
  unfolding ingest_def by (clarsimp simp: config_valid_def dest!: one_of_two)

lemma ingest_dumped:
  assumes "config_valid c"
  shows "ingest (config_to_external c) = Inr c"
proof -
  have "one_of (cfg_mode c) ''op.mode'' [''run'', ''gdb''] = Inr (cfg_mode c)"
    "one_of (cfg_boot_slot c) ''op.slot'' [''a'', ''b''] = Inr (cfg_boot_slot c)"
    "one_of (cfg_rot_boot_pref c) ''rot.boot_pref'' [''a'', ''b''] = Inr (cfg_rot_boot_pref c)"
    using assms by (simp_all only: config_valid_def) (rule one_of_kept; simp)+
  with assms show ?thesis
    by (simp add: config_to_external_def ingest_def config_valid_def nonempty_id)
qed

text \<open>The dump of a validated configuration and its ingestion, as a codec.\<close>

definition ingest_ok :: "config_file_v1 \<Rightarrow> config option" where
  "ingest_ok e = (case ingest e of Inl _ \<Rightarrow> None | Inr c \<Rightarrow> Some c)"

interpretation dumped: codec config_to_external ingest_ok config_valid
  by unfold_locales (simp add: ingest_ok_def ingest_dumped)

text \<open>No two validated configurations have the same dump.\<close>

lemma dump_injective: "config_valid c \<Longrightarrow> config_valid d \<Longrightarrow> config_to_external c = config_to_external d \<Longrightarrow> c = d"
  by (rule dumped.encode_inj)

lemma ingest_image: "(\<exists>e. ingest e = Inr c) \<longleftrightarrow> config_valid c"
  using ingest_valid ingest_dumped by blast

text \<open>A value outside the spellings allowed; the empty string counts as no value.\<close>

definition bad_choice :: "string option \<Rightarrow> string list \<Rightarrow> bool" where
  "bad_choice x allowed \<longleftrightarrow> (\<exists>s. x = Some s \<and> s \<noteq> [] \<and> s \<notin> set allowed)"

lemma one_of_cases:
  "one_of x p allowed =
     (if bad_choice x allowed then Inl (Validation p (ExpectedOneOf allowed (the x)))
      else Inr (nonempty x))"
  by (auto simp: one_of_def bad_choice_def nonempty_def split: option.splits)

section \<open>The flat names and the setters\<close>

lemma setters_names: "map fst (setters pf) = ENV_NAMES"
  by (simp add: setters_def ENV_NAMES_def)

lemma ENV_NAMES_distinct: "distinct ENV_NAMES"
  by (simp add: ENV_NAMES_def)

lemma set_flat_unknown: "name \<notin> set ENV_NAMES \<Longrightarrow> set_flat pf c name s = c"
  using setters_names [of pf] by (auto simp: set_flat_def split: option.split dest!: map_of_SomeD) (metis fst_conv image_eqI list.set_map)

section \<open>Leniency of flat values\<close>

definition lenient :: "config_file_v1 \<Rightarrow> bool" where
  "lenient e \<longleftrightarrow>
     op_board (v1_op e) \<in> {None, Some ''sidecar''} \<and>
     rot_boot_pref (v1_rot e) \<in> {None, Some ''a'', Some ''b''} \<and>
     (\<forall>s. trace_rotdump (v1_trace e) = Some s \<longrightarrow> parse_rotdump s \<noteq> None)"

lemma setters_lenient: "list_all (\<lambda>(n, f). \<forall>s c. lenient c \<longrightarrow> lenient (f s c)) (setters pf)"
  unfolding setters_def list.pred_inject prod.case lenient_def by simp

lemma setters_mode:
  "list_all (\<lambda>(n, f). \<forall>s c.
     op_mode (v1_op (f s c)) = (if n = ''SP_EMU_MODE'' then Some s else op_mode (v1_op c))) (setters pf)"
  unfolding setters_def list.pred_inject prod.case by simp

lemma setters_slot:
  "list_all (\<lambda>(n, f). \<forall>s c.
     op_slot (v1_op (f s c)) = (if n = ''SP_EMU_SLOT'' then Some s else op_slot (v1_op c))) (setters pf)"
  unfolding setters_def list.pred_inject prod.case by simp

lemma set_flat_cases:
  obtains "set_flat pf c n s = c" "n \<notin> set ENV_NAMES"
  | f where "(n, f) \<in> set (setters pf)" "set_flat pf c n s = f s c"
proof (cases "map_of (setters pf) n")
  case None
  then have "n \<notin> set (map fst (setters pf))" by (simp add: map_of_eq_None_iff)
  with None show thesis by (intro that(1)) (simp_all add: set_flat_def setters_names)
next
  case (Some f)
  then show thesis by (intro that(2) [of f]) (simp_all add: set_flat_def map_of_SomeD)
qed

lemma set_flat_lenient: "lenient c \<Longrightarrow> lenient (set_flat pf c n s)"
  by (rule set_flat_cases [of pf c n s]) (use setters_lenient [of pf] in \<open>auto simp: list_all_iff\<close>)

lemma set_flat_mode:
  "op_mode (v1_op (set_flat pf c n s)) = (if n = ''SP_EMU_MODE'' then Some s else op_mode (v1_op c))"
  by (rule set_flat_cases [of pf c n s]) (use setters_mode [of pf] in \<open>auto simp: ENV_NAMES_def list_all_iff\<close>)

lemma set_flat_slot:
  "op_slot (v1_op (set_flat pf c n s)) = (if n = ''SP_EMU_SLOT'' then Some s else op_slot (v1_op c))"
  by (rule set_flat_cases [of pf c n s]) (use setters_slot [of pf] in \<open>auto simp: ENV_NAMES_def list_all_iff\<close>)

lemma flat_snoc:
  "flat_pairs_to_v1 pf [] = v1_default"
  "flat_pairs_to_v1 pf (ps @ [(n, s)]) = set_flat pf (flat_pairs_to_v1 pf ps) n s"
  by (simp_all add: flat_pairs_to_v1_def)

lemma v1_default_unset:
  "lenient v1_default" "op_mode (v1_op v1_default) = None" "op_slot (v1_op v1_default) = None"
  by (simp_all add: lenient_def v1_default_def op_none_def rot_none_def trace_none_def)

text \<open>The last value given for a name, as a loop over the pairs leaves it.\<close>

definition last_value :: "(string \<times> string) list \<Rightarrow> string \<Rightarrow> string option" where
  "last_value ps n = map_of (rev ps) n"

lemma flat_facts:
  "lenient (flat_pairs_to_v1 pf ps)"
  "op_mode (v1_op (flat_pairs_to_v1 pf ps)) = last_value ps ''SP_EMU_MODE''"
  "op_slot (v1_op (flat_pairs_to_v1 pf ps)) = last_value ps ''SP_EMU_SLOT''"
  by (induction ps rule: rev_induct)
    (auto simp: flat_snoc v1_default_unset set_flat_lenient set_flat_mode set_flat_slot last_value_def)

text \<open>
  Flat values are refused for the mode and the slot only, the mode first; every other value,
  however malformed, leaves its knob unset.
\<close>

definition flat_refusal :: "string option \<Rightarrow> string option \<Rightarrow> config_error option" where
  "flat_refusal mode slot =
     (if bad_choice mode [''run'', ''gdb'']
      then Some (Validation ''op.mode'' (ExpectedOneOf [''run'', ''gdb''] (the mode)))
      else if bad_choice slot [''a'', ''b'']
      then Some (Validation ''op.slot'' (ExpectedOneOf [''a'', ''b''] (the slot)))
      else None)"

lemma ingest_lenient:
  assumes "lenient e"
  shows "case flat_refusal (op_mode (v1_op e)) (op_slot (v1_op e)) of
           Some err \<Rightarrow> ingest e = Inl err
         | None \<Rightarrow> \<exists>c. ingest e = Inr c"
proof -
  have b: "board_of (op_board (v1_op e)) = Inr (if op_board (v1_op e) = None then Gimlet else Sidecar)"
    using assms by (auto simp: lenient_def board_of_def)
  have p: "\<not> bad_choice (rot_boot_pref (v1_rot e)) [''a'', ''b'']"
    using assms by (auto simp: lenient_def bad_choice_def)
  obtain w where w: "rotdump_of (trace_rotdump (v1_trace e)) = Inr w"
    using assms by (cases "trace_rotdump (v1_trace e)") (auto simp: lenient_def rotdump_of_def)
  show ?thesis by (simp add: flat_refusal_def ingest_def one_of_cases b p w)
qed

corollary ingest_flat:
  "case flat_refusal (last_value ps ''SP_EMU_MODE'') (last_value ps ''SP_EMU_SLOT'') of
     Some err \<Rightarrow> ingest (flat_pairs_to_v1 pf ps) = Inl err
   | None \<Rightarrow> \<exists>c. ingest (flat_pairs_to_v1 pf ps) = Inr c"
  using ingest_lenient [OF flat_facts(1), of pf ps] by (simp only: flat_facts(2,3))

text \<open>A value every setter accepts, so that each known name moves the form off its default.\<close>

definition probe :: "string \<Rightarrow> string" where
  "probe n =
     (if n = ''SP_EMU_BOARD'' then ''sidecar''
      else if n = ''SP_EMU_MODE'' then ''run''
      else if n = ''SP_EMU_SLOT'' \<or> n = ''SP_EMU_ROT_BOOT_PREF'' then ''a''
      else if n = ''SP_EMU_ROTDUMP'' then ''0x10:20'' else ''1'')"

lemma probe_values:
  "parse_u64 ''1'' = Some 1" "parse_u32 ''1'' = Some 1" "hex_u16 ''1'' = Some 1" "hex_u32 ''1'' = Some 1"
  "parse_rotdump ''0x10:20'' = Some (16, 20)" "trim ''1'' = ''1''"
  by (simp_all add: parse_u64_def parse_u32_def hex_u16_def hex_u32_def hex_raw_def parse_rotdump_def
      parse_uint_def digit_val_def split_once_def trim_def trim_by_def is_ws_def)

lemma section_moved:
  "v1_op_update g_op v1_default = v1_default \<longleftrightarrow> g_op op_none = op_none"
  "v1_paths_update g_paths v1_default = v1_default \<longleftrightarrow> g_paths paths_none = paths_none"
  "v1_net_update g_net v1_default = v1_default \<longleftrightarrow> g_net net_none = net_none"
  "v1_host_update g_host v1_default = v1_default \<longleftrightarrow> g_host host_none = host_none"
  "v1_i2c_update g_i2c v1_default = v1_default \<longleftrightarrow> g_i2c i2c_none = i2c_none"
  "v1_rot_update g_rot v1_default = v1_default \<longleftrightarrow> g_rot rot_none = rot_none"
  "v1_sprot_update g_sprot v1_default = v1_default \<longleftrightarrow> g_sprot sprot_none = sprot_none"
  "v1_vpd_update g_vpd v1_default = v1_default \<longleftrightarrow> g_vpd vpd_none = vpd_none"
  "v1_sensors_update g_sensors v1_default = v1_default \<longleftrightarrow> g_sensors sensors_none = sensors_none"
  "v1_dump_update g_dump v1_default = v1_default \<longleftrightarrow> g_dump dump_none = dump_none"
  "v1_trace_update g_trace v1_default = v1_default \<longleftrightarrow> g_trace trace_none = trace_none"
  "v1_stats_update g_stats v1_default = v1_default \<longleftrightarrow> g_stats stats_none = stats_none"
  "v1_debug_update g_debug v1_default = v1_default \<longleftrightarrow> g_debug debug_none = debug_none"
  by (simp_all add: v1_default_def)

lemmas section_none_defs =
  op_none_def paths_none_def net_none_def host_none_def i2c_none_def rot_none_def sprot_none_def
  vpd_none_def sensors_none_def dump_none_def trace_none_def stats_none_def debug_none_def

lemma setters_probe:
  assumes "pf ''1'' \<noteq> None"
  shows "list_all (\<lambda>(n, f). f (probe n) v1_default \<noteq> v1_default) (setters pf)"
  unfolding setters_def list.pred_inject prod.case
  using assms by (intro conjI; simp add: probe_def probe_values section_moved section_none_defs)

lemma every_env_name_is_handled:
  assumes "pf ''1'' \<noteq> None" and "n \<in> set ENV_NAMES"
  shows "flat_pairs_to_v1 pf [(n, probe n)] \<noteq> v1_default"
proof -
  have "set_flat pf v1_default n (probe n) \<noteq> v1_default"
    by (rule set_flat_cases [of pf v1_default n "probe n"])
      (use assms setters_probe [where pf = pf, OF assms(1)] in \<open>auto simp: list_all_iff\<close>)
  then show ?thesis by (simp add: flat_pairs_to_v1_def)
qed

section \<open>Versions\<close>

lemma known_versions: "peek_version T text = Inr (Known n) \<Longrightarrow> n = 0 \<or> n = 1"
proof -
  assume "peek_version T text = Inr (Known n)"
  then have "n \<le> 1" by (auto simp: peek_version_def CURRENT_def split: option.splits if_splits)
  then have "unat n = 0 \<or> unat n = unat (1 :: u32)" unfolding word_le_nat_alt by auto
  then show ?thesis by (simp add: word_unat_eq_iff)
qed

lemma migrate_newer:
  "toml_version T text = Inr (Some n) \<Longrightarrow> CURRENT < n \<Longrightarrow> migrate T pf text = Inl (NewerSchema n CURRENT)"
  by (simp add: migrate_def peek_version_def from_toml_def linorder_not_le [symmetric])

lemma validate_load: "(\<exists>v. validate T pf text = Inr v) \<longleftrightarrow> (\<exists>c. load_str T pf text = Inr c)"
proof -
  have "\<exists>v. peek_version T text = Inr v" if "migrate T pf text = Inr e" for e
    using that by (auto simp: migrate_def)
  then show ?thesis by (auto simp: validate_def load_str_def)
qed

lemma dump_reload:
  assumes "config_valid c" "dump T c = Inr text"
    and "toml_version T text = Inr (Some CURRENT)" "toml_typed T text = Inr (config_to_external c)"
  shows "load_str T pf text = Inr c"
  using assms by (simp add: load_str_def migrate_def peek_version_def from_toml_def CURRENT_def ingest_dumped)

section \<open>Properties\<close>

text \<open>
  C18: A configuration is obtainable from some file exactly when it is valid: its mode, its slots and
  its boot preference have an allowed spelling or none, its quantum and its clock are positive,
  and the addresses and names that treat the empty string as unset are not empty.
\<close>

theorem ingest_yields_valid: "(\<exists>e. ingest e = Inr c) \<longleftrightarrow> config_valid c"
  by (rule ingest_image)

text \<open>
  C16: Dumping the validated configuration and ingesting the dump gives the configuration back, every
  knob of it: the defaults are written out, the board's name and the window's text are read back.
\<close>

theorem dump_then_ingest:
  assumes "ingest e = Inr c"
  shows "ingest (config_to_external c) = Inr c"
  using dumped.decode_encode [OF ingest_valid [OF assms]] by (simp add: ingest_ok_def split: sum.splits)

theorem dump_then_ingest_witness:
  "\<exists>c. ingest (v1_default\<lparr>v1_trace := trace_none\<lparr>trace_rotdump := Some ''0x10:20''\<rparr>\<rparr>) = Inr c \<and>
     cfg_rotdump c = Some (16, 20) \<and> ingest (config_to_external c) = Inr c"
proof -
  let ?e = "v1_default\<lparr>v1_trace := trace_none\<lparr>trace_rotdump := Some ''0x10:20''\<rparr>\<rparr>"
  have "\<exists>c. ingest ?e = Inr c \<and> cfg_rotdump c = Some (16, 20)"
    by (simp add: ingest_def v1_default_def section_none_defs one_of_def nonempty_def board_of_def
        rotdump_of_def probe_values)
  then show ?thesis using dump_then_ingest [of ?e] by blast
qed

end
