(* ===== verification/Paths.thy ===== *)
theory Paths
  imports Text
begin

text \<open>
  Paths as text, the way \<open>std::path\<close> reads them on Unix: \<open>Path::is_absolute\<close>, \<open>parent\<close>,
  \<open>file_name\<close> and \<open>join\<close>. A path is cut at its slashes; empty pieces and \<open>.\<close> pieces behind the
  first are no components. Files are a map from a path's text to their bytes.
\<close>

type_synonym files = "string \<Rightarrow> u8 list option"

definition is_absolute :: "string \<Rightarrow> bool" where
  "is_absolute p \<longleftrightarrow> p \<noteq> [] \<and> hd p = CHR ''/''"

definition pieces :: "string \<Rightarrow> string list" where
  "pieces p = split_char CHR ''/'' p"

fun join_pieces :: "string list \<Rightarrow> string" where
  "join_pieces [] = []"
| "join_pieces [x] = x"
| "join_pieces (x # xs) = x @ CHR ''/'' # join_pieces xs"

text \<open>Trailing pieces that are no components.\<close>

function strip_back :: "string list \<Rightarrow> string list" where
  "strip_back ps =
     (if 1 < length ps \<and> last ps \<in> {'''', ''.''} then strip_back (butlast ps) else ps)"
  by pat_completeness auto
termination by (relation "measure length") auto

declare strip_back.simps [simp del]

definition path_parent :: "string \<Rightarrow> string option" where
  "path_parent p =
     (case strip_back (pieces p) of
        [x] \<Rightarrow> if x = [] then None else Some []
      | ps \<Rightarrow>
          (let qs = strip_back (butlast ps)
           in Some (if qs = [''''] then ''/'' else join_pieces qs)))"

definition file_name :: "string \<Rightarrow> string option" where
  "file_name p =
     (let x = last (strip_back (pieces p)) in if x \<in> {'''', ''.'', ''..''} then None else Some x)"

definition path_join :: "string \<Rightarrow> string \<Rightarrow> string" where
  "path_join base rel =
     (if is_absolute rel then rel
      else if base = [] \<or> last base = CHR ''/'' then base @ rel
      else base @ CHR ''/'' # rel)"

section \<open>Facts\<close>

lemma pieces_simple: "CHR ''/'' \<notin> set p \<Longrightarrow> pieces p = [p]"
proof -
  assume "CHR ''/'' \<notin> set p"
  then have d: "dropWhile (\<lambda>c. c \<noteq> CHR ''/'') p = []" by (auto simp: dropWhile_eq_Nil_conv)
  show "pieces p = [p]" unfolding pieces_def by (subst split_char.simps) (simp only: d list.case)
qed

lemma pieces_slash: "CHR ''/'' \<notin> set p \<Longrightarrow> pieces (p @ CHR ''/'' # q) = p # pieces q"
  unfolding pieces_def
  by (subst split_char.simps) (simp add: dropWhile_append3 takeWhile_tail dropWhile_append)

lemma pieces_not_Nil [simp]: "pieces p \<noteq> []"
  unfolding pieces_def by (subst split_char.simps) (auto split: list.split)

lemma strip_back_single [simp]: "strip_back [x] = [x]"
  by (subst strip_back.simps) simp

text \<open>The parent of a bare file name is the empty path.\<close>

lemma path_parent_simple: "CHR ''/'' \<notin> set p \<Longrightarrow> p \<noteq> [] \<Longrightarrow> path_parent p = Some []"
  by (simp add: path_parent_def pieces_simple)

lemma path_parent_dir:
  assumes "CHR ''/'' \<notin> set f" "f \<notin> {'''', ''.''}" "CHR ''/'' \<notin> set d" "d \<notin> {''''}"
  shows "path_parent (d @ CHR ''/'' # f) = Some d"
proof -
  have "strip_back [d, f] = [d, f]" using assms by (subst strip_back.simps) simp
  with assms show ?thesis by (simp add: path_parent_def pieces_slash pieces_simple)
qed

end
