(* ===== verification/Config_Env.thy ===== *)
theory Config_Env
  imports Config_Props Paths
begin

text \<open>
  The emulator's side of the configuration (\<open>src/config.rs\<close>): where the \<open>SP_EMU_*\<close> values come
  from (the environment, or a flat file instead of it), the resolved configuration that is
  stored once, the flat file written back, and the paths derived from it. The environment is a
  map from names to values; files hold text.
\<close>

definition NOT_PERSISTED :: "string list" where
  "NOT_PERSISTED = [''SP_EMU_CONFIGDBG'']"

record resolved =
  rs_config :: config
  rs_inputs :: "(string \<times> string) list"

section \<open>Resolving a source\<close>

definition lookup_inputs :: "(string \<Rightarrow> string option) \<Rightarrow> (string \<times> string) list" where
  "lookup_inputs get = List.map_filter (\<lambda>name. map_option (\<lambda>v. (name, v)) (get name)) ENV_NAMES"

definition with_seed :: "string option \<Rightarrow> config_file_v1 \<Rightarrow> config_file_v1" where
  "with_seed seed_override e =
     (case seed_override of None \<Rightarrow> e | Some s \<Rightarrow> v1_op_update (op_seed_update (\<lambda>_. Some s)) e)"

definition resolve ::
  "(string \<Rightarrow> f32 option) \<Rightarrow> (string \<Rightarrow> string option) \<Rightarrow> string option \<Rightarrow> config_error + resolved" where
  "resolve parse_f32 get seed_override =
     (let inputs = lookup_inputs get;
          external = with_seed seed_override (flat_pairs_to_v1 parse_f32 inputs)
      in bind_result (ingest external) (\<lambda>c. Inr \<lparr>rs_config = c, rs_inputs = inputs\<rparr>))"

definition is_set_in :: "(string \<times> string) list \<Rightarrow> string \<Rightarrow> bool" where
  "is_set_in inputs name \<longleftrightarrow> (\<exists>x \<in> set inputs. fst x = name)"

section \<open>The flat file\<close>

text \<open>\<open>str::replace\<close> of one character by a text.\<close>

definition replace_char :: "char \<Rightarrow> string \<Rightarrow> string \<Rightarrow> string" where
  "replace_char c by s = concat (map (\<lambda>x. if x = c then by else [x]) s)"

definition escape_toml :: "string \<Rightarrow> string" where
  "escape_toml s =
     replace_char CHR 0x0A [CHR 0x5C, CHR ''n'']
       (replace_char CHR 0x22 [CHR 0x5C, CHR 0x22] (replace_char CHR 0x5C [CHR 0x5C, CHR 0x5C] s))"

definition flat_line :: "string \<times> string \<Rightarrow> string" where
  "flat_line x = fst x @ '' = '' @ CHR 0x22 # escape_toml (snd x) @ [CHR 0x22, CHR 0x0A]"

definition flat_header :: string where
  "flat_header =
     ''# sp-emu configuration (mirrors $SP_EMU_*; the environment overrides it).'' @ CHR 0x0A #
     ''# Load with `--load-config <this file>`; omitted variables use their default.'' @ CHR 0x0A #
     ''# A flag is on by presence -- delete its line to disable it.'' @ [CHR 0x0A, CHR 0x0A]"

definition persisted :: "(string \<times> string) list \<Rightarrow> (string \<times> string) list" where
  "persisted inputs = filter (\<lambda>x. fst x \<notin> set NOT_PERSISTED) inputs"

definition flat_toml :: "(string \<times> string) list \<Rightarrow> string" where
  "flat_toml inputs = flat_header @ concat (map flat_line (persisted inputs))"

text \<open>
  The reader of the flat file: a boolean \<open>false\<close> and a value that is no scalar leave the name
  out, \<open>true\<close> is \<open>1\<close>.
\<close>

definition config_value :: "'d toml_lib \<Rightarrow> 'd toml_value \<Rightarrow> string option" where
  "config_value T v =
     (case v of
        TString s \<Rightarrow> Some s
      | TInteger i \<Rightarrow> Some (print_int i)
      | TFloat d \<Rightarrow> Some (toml_show T d)
      | TBoolean b \<Rightarrow> if b then Some ''1'' else None
      | TOther d \<Rightarrow> None)"

definition parse_config_toml :: "'d toml_lib \<Rightarrow> string \<Rightarrow> string + (string \<times> string) list" where
  "parse_config_toml T text =
     (case toml_table T text of
        Inl m \<Rightarrow> Inl m
      | Inr table \<Rightarrow>
          Inr (List.map_filter (\<lambda>(k, v). map_option (\<lambda>s. (k, s)) (config_value T v)) table))"

section \<open>The process configuration\<close>

datatype init_error =
    ReadConfig string
  | VersionedFile string
  | MalformedConfig string string
  | InvalidConfig config_error
  | AlreadyResolved

record process =
  pr_config :: "resolved option"
  pr_files :: "string \<Rightarrow> string option"

definition invalid :: "config_error + resolved \<Rightarrow> init_error + resolved" where
  "invalid x = (case x of Inl e \<Rightarrow> Inl (InvalidConfig e) | Inr rs \<Rightarrow> Inr rs)"

definition load_config_file ::
  "'d toml_lib \<Rightarrow> (string \<Rightarrow> f32 option) \<Rightarrow> (string \<Rightarrow> string option) \<Rightarrow> string \<Rightarrow> string option \<Rightarrow>
   init_error + resolved" where
  "load_config_file T parse_f32 files path seed_override =
     (case files path of
        None \<Rightarrow> Inl (ReadConfig path)
      | Some text \<Rightarrow>
          if (case peek_version T text of
                Inl _ \<Rightarrow> False
              | Inr v \<Rightarrow> v \<noteq> LegacyFlat \<and> v \<noteq> Known 0)
          then Inl (VersionedFile path)
          else
            (case parse_config_toml T text of
               Inl m \<Rightarrow> Inl (MalformedConfig path m)
             | Inr file \<Rightarrow> invalid (resolve parse_f32 (map_of file) seed_override)))"

definition config_init ::
  "'d toml_lib \<Rightarrow> (string \<Rightarrow> f32 option) \<Rightarrow> (string \<Rightarrow> string option) \<Rightarrow> (string \<Rightarrow> bool) \<Rightarrow>
   string option \<Rightarrow> string option \<Rightarrow> string option \<Rightarrow> process \<Rightarrow> (init_error + unit) \<times> process" where
  "config_init T parse_f32 env writable seed_override load_path dump_path p =
     (case (case load_path of
              Some path \<Rightarrow> load_config_file T parse_f32 (pr_files p) path seed_override
            | None \<Rightarrow> invalid (resolve parse_f32 env seed_override)) of
        Inl e \<Rightarrow> (Inl e, p)
      | Inr rs \<Rightarrow>
          (let p1 = (case dump_path of
                       Some path \<Rightarrow>
                         if writable path
                         then p\<lparr>pr_files := (pr_files p)(path \<mapsto> flat_toml (rs_inputs rs))\<rparr> else p
                     | None \<Rightarrow> p)
           in case pr_config p1 of
                Some _ \<Rightarrow> (Inl AlreadyResolved, p1)
              | None \<Rightarrow> (Inr (), p1\<lparr>pr_config := Some rs\<rparr>)))"

text \<open>
  \<open>resolved()\<close>: the stored configuration, or the environment's when \<open>init\<close> has not run; the
  program panics (no value) when the environment is refused.
\<close>

definition config_resolved ::
  "(string \<Rightarrow> f32 option) \<Rightarrow> (string \<Rightarrow> string option) \<Rightarrow> process \<Rightarrow> (resolved \<times> process) option" where
  "config_resolved parse_f32 env p =
     (case pr_config p of
        Some rs \<Rightarrow> Some (rs, p)
      | None \<Rightarrow>
          (case resolve parse_f32 env None of
             Inl _ \<Rightarrow> None
           | Inr rs \<Rightarrow> Some (rs, p\<lparr>pr_config := Some rs\<rparr>)))"

section \<open>Paths derived from the configuration\<close>

definition state_dir_of :: "config \<Rightarrow> (string \<Rightarrow> string option) \<Rightarrow> string \<Rightarrow> string" where
  "state_dir_of cfg env temp_dir =
     (case cfg_state_dir cfg of
        Some d \<Rightarrow> d
      | None \<Rightarrow>
          (case (case nonempty (env ''XDG_STATE_HOME'') of
                   Some s \<Rightarrow> Some s
                 | None \<Rightarrow> map_option (\<lambda>h. h @ ''/.local/state'') (nonempty (env ''HOME''))) of
             Some b \<Rightarrow> b @ ''/sp-emu''
           | None \<Rightarrow> temp_dir @ ''/sp-emu''))"

definition state_dir_is_default :: "config \<Rightarrow> bool" where
  "state_dir_is_default cfg \<longleftrightarrow> cfg_state_dir cfg = None"

definition instance_file ::
  "resolved \<Rightarrow> (string \<Rightarrow> string option) \<Rightarrow> string \<Rightarrow> string \<Rightarrow> string \<Rightarrow> string" where
  "instance_file rs env temp_dir env_name value =
     (if is_set_in (rs_inputs rs) env_name \<or> is_absolute value then value
      else state_dir_of (rs_config rs) env temp_dir @ CHR ''/'' # value)"

definition BOOTLEBY_NAME :: string where
  "BOOTLEBY_NAME = ''bootleby-oxide-rot-1.zip''"

definition bootleby_candidates :: "config \<Rightarrow> (string \<Rightarrow> string option) \<Rightarrow> string list" where
  "bootleby_candidates cfg env =
     (case Option.bind (cfg_rot_flash cfg) path_parent of
        None \<Rightarrow> [] | Some dir \<Rightarrow> [dir @ CHR ''/'' # BOOTLEBY_NAME]) @
     (case env ''HUBRIS'' of
        None \<Rightarrow> [] | Some h \<Rightarrow> [h @ ''/app/oxide-rot-1/'' @ BOOTLEBY_NAME])"

definition resolve_rot_bootleby :: "config \<Rightarrow> (string \<Rightarrow> string option) \<Rightarrow> (string \<Rightarrow> bool) \<Rightarrow> string option" where
  "resolve_rot_bootleby cfg env exists =
     (if cfg_rot_no_bootleby cfg then None
      else case cfg_rot_bootleby cfg of
        Some p \<Rightarrow> Some p
      | None \<Rightarrow> List.find exists (bootleby_candidates cfg env))"

definition pc_range :: "string \<Rightarrow> (u32 \<times> u32) option" where
  "pc_range w =
     (case split_once CHR ''-'' w of
        None \<Rightarrow> None
      | Some (lo, hi) \<Rightarrow>
          (case parse_uint 16 (2 ^ 32 - 1) (trim_0x lo) of
             None \<Rightarrow> None
           | Some a \<Rightarrow>
               (case parse_uint 16 (2 ^ 32 - 1) (trim_0x hi) of
                  None \<Rightarrow> None
                | Some b \<Rightarrow> Some (of_nat a, of_nat b))))"

definition pcwin :: "(string \<Rightarrow> string option) \<Rightarrow> (u32 \<times> u32) list option" where
  "pcwin env =
     (case env ''SP_EMU_PCWIN'' of
        None \<Rightarrow> None
      | Some s \<Rightarrow>
          (let v = List.map_filter pc_range (split_char CHR '','' s) in if v \<noteq> [] then Some v else None))"

section \<open>Escaping\<close>

definition esc :: "char \<Rightarrow> string" where
  "esc c =
     (if c = CHR 0x5C then [CHR 0x5C, CHR 0x5C]
      else if c = CHR 0x22 then [CHR 0x5C, CHR 0x22]
      else if c = CHR 0x0A then [CHR 0x5C, CHR ''n'']
      else [c])"

lemma replace_char_simps [simp]:
  "replace_char c by [] = []"
  "replace_char c by (x # s) = (if x = c then by else [x]) @ replace_char c by s"
  by (simp_all add: replace_char_def)

lemma replace_char_append [simp]: "replace_char c by (s @ t) = replace_char c by s @ replace_char c by t"
  by (simp add: replace_char_def)

text \<open>The three replacements in a row are one pass over the characters.\<close>

lemma escape_single_pass: "escape_toml s = concat (map esc s)"
  by (induction s) (simp_all add: escape_toml_def esc_def)

text \<open>The characters of a basic string's body up to its closing quote, the escapes decoded.\<close>

fun basic_string :: "string \<Rightarrow> (string \<times> string) option" where
  "basic_string (c # s) =
     (if c = CHR 0x22 then Some ([], s)
      else if c = CHR 0x0A then None
      else if c = CHR 0x5C then
        (case s of
           d # t \<Rightarrow>
             if d = CHR 0x5C \<or> d = CHR 0x22 then map_option (apfst (Cons d)) (basic_string t)
             else if d = CHR ''n'' then map_option (apfst (Cons CHR 0x0A)) (basic_string t)
             else None
         | [] \<Rightarrow> None)
      else map_option (apfst (Cons c)) (basic_string s))"
| "basic_string [] = None"

lemma basic_string_escaped: "basic_string (escape_toml v @ CHR 0x22 # rest) = Some (v, rest)"
  unfolding escape_single_pass by (induction v) (simp_all add: esc_def)

interpretation basic: codec "\<lambda>v. escape_toml v @ [CHR 0x22]" "\<lambda>s. map_option fst (basic_string s)" "\<lambda>_. True"
  by unfold_locales (simp add: basic_string_escaped)

text \<open>The window's text as the body of a quoted value.\<close>

interpretation quoted_window: codec_pair window_str parse_rotdump "\<lambda>_. True"
    "\<lambda>v. escape_toml v @ [CHR 0x22]" "\<lambda>s. map_option fst (basic_string s)" "\<lambda>_. True"
  by unfold_locales simp

lemma escape_toml_injective: "escape_toml v = escape_toml w \<Longrightarrow> v = w"
  by (rule basic.encode_inj) simp_all

lemma escape_toml_keeps_cr: "CHR 0x0D \<in> set v \<Longrightarrow> CHR 0x0D \<in> set (escape_toml v)"
  unfolding escape_single_pass by (auto simp: esc_def intro!: bexI [of _ "CHR 0x0D"])

section \<open>What a source resolves to\<close>

lemma map_filter_cons [simp]:
  "List.map_filter f [] = []"
  "List.map_filter f (x # xs) = (case f x of None \<Rightarrow> List.map_filter f xs | Some y \<Rightarrow> y # List.map_filter f xs)"
  by (simp_all add: List.map_filter_def split: option.split)

lemma map_filter_append: "List.map_filter f (xs @ ys) = List.map_filter f xs @ List.map_filter f ys"
  by (simp add: List.map_filter_def)

lemma fst_map_filter:
  "map fst (List.map_filter (\<lambda>n. map_option (Pair n) (get n)) ns) = filter (\<lambda>n. get n \<noteq> None) ns"
  by (induction ns) auto

lemma lookup_inputs_distinct: "distinct (map fst (lookup_inputs get))"
  unfolding lookup_inputs_def fst_map_filter using ENV_NAMES_distinct by simp

lemma map_of_map_filter:
  "map_of (List.map_filter (\<lambda>n. map_option (Pair n) (get n)) ns) n = (if n \<in> set ns then get n else None)"
  by (induction ns) (auto split: option.split)

lemma map_of_lookup_inputs: "map_of (lookup_inputs get) n = (if n \<in> set ENV_NAMES then get n else None)"
  by (simp add: lookup_inputs_def map_of_map_filter)

lemma lookup_inputs_cong:
  assumes "\<And>n. n \<in> set ENV_NAMES \<Longrightarrow> f n = g n"
  shows "lookup_inputs f = lookup_inputs g"
proof -
  have "(\<And>n. n \<in> set ns \<Longrightarrow> f n = g n) \<Longrightarrow>
    List.map_filter (\<lambda>n. map_option (Pair n) (f n)) ns = List.map_filter (\<lambda>n. map_option (Pair n) (g n)) ns" for ns
    by (induction ns) (simp_all split: option.split)
  with assms show ?thesis by (simp add: lookup_inputs_def)
qed

lemma map_of_rev_distinct: "distinct (map fst ps) \<Longrightarrow> map_of (rev ps) = map_of ps"
proof (rule ext)
  fix n assume d: "distinct (map fst ps)"
  then have "distinct (map fst (rev ps))" by (simp add: rev_map [symmetric])
  then have "map_of (rev ps) n = Some v \<longleftrightarrow> map_of ps n = Some v" for v
    using d by (simp add: map_of_eq_Some_iff)
  then show "map_of (rev ps) n = map_of ps n" by (metis option.exhaust)
qed

lemma last_value_inputs: "last_value (lookup_inputs get) n = (if n \<in> set ENV_NAMES then get n else None)"
  unfolding last_value_def map_of_rev_distinct [OF lookup_inputs_distinct] by (rule map_of_lookup_inputs)

lemma with_seed_facts:
  "lenient (with_seed seed e) = lenient e"
  "op_mode (v1_op (with_seed seed e)) = op_mode (v1_op e)"
  "op_slot (v1_op (with_seed seed e)) = op_slot (v1_op e)"
  by (simp_all add: with_seed_def lenient_def split: option.split)

text \<open>\<open>--seed\<close> wins over \<open>SP_EMU_SEED\<close> and is not one of the inputs that are written back.\<close>

lemma seed_override_wins: "resolve pf get (Some s) = Inr rs \<Longrightarrow> cfg_seed (rs_config rs) = Some s"
  by (auto simp: resolve_def Let_def with_seed_def ingest_def)

lemma inputs_of_resolve: "resolve pf get seed = Inr rs \<Longrightarrow> rs_inputs rs = lookup_inputs get"
  by (auto simp: resolve_def Let_def)

section \<open>The flat file reproduces the run\<close>

lemma ENV_NAMES_split: "ENV_NAMES = butlast ENV_NAMES @ NOT_PERSISTED"
  by (simp add: ENV_NAMES_def NOT_PERSISTED_def)

lemma NOT_PERSISTED_last: "''SP_EMU_CONFIGDBG'' \<notin> set (butlast ENV_NAMES)"
  by (simp add: ENV_NAMES_def)

lemma lookup_inputs_split:
  "lookup_inputs get = persisted (lookup_inputs get) @
     (case get ''SP_EMU_CONFIGDBG'' of None \<Rightarrow> [] | Some v \<Rightarrow> [(''SP_EMU_CONFIGDBG'', v)])"
proof -
  let ?f = "\<lambda>name. map_option (Pair name) (get name)"
  have "fst x \<in> set (butlast ENV_NAMES)" if "x \<in> set (List.map_filter ?f (butlast ENV_NAMES))" for x
    using that by (auto simp: List.map_filter_def)
  then have "persisted (List.map_filter ?f (butlast ENV_NAMES)) = List.map_filter ?f (butlast ENV_NAMES)"
    using NOT_PERSISTED_last by (auto simp: persisted_def NOT_PERSISTED_def intro!: filter_True)
  moreover have "lookup_inputs get = List.map_filter ?f (butlast ENV_NAMES) @ List.map_filter ?f NOT_PERSISTED"
    unfolding lookup_inputs_def by (subst ENV_NAMES_split) (rule map_filter_append)
  ultimately show ?thesis
    by (auto simp: persisted_def NOT_PERSISTED_def split: option.split)
qed

lemma setters_configdbg:
  "list_all (\<lambda>(n, f). \<forall>s c.
     debug_config (v1_debug (f s c)) =
       (if n = ''SP_EMU_CONFIGDBG'' then Some True else debug_config (v1_debug c))) (setters pf)"
  unfolding setters_def list.pred_inject prod.case by simp

lemma flat_configdbg:
  "\<forall>x \<in> set ps. fst x \<noteq> ''SP_EMU_CONFIGDBG'' \<Longrightarrow> debug_config (v1_debug (flat_pairs_to_v1 pf ps)) = None"
proof (induction ps rule: rev_induct)
  case Nil
  show ?case by (simp add: flat_snoc v1_default_def debug_none_def)
next
  case (snoc x ps)
  obtain n v where x: "x = (n, v)" by (cases x)
  show ?case unfolding x flat_snoc
    by (rule set_flat_cases [of pf "flat_pairs_to_v1 pf ps" n v])
      (use snoc x setters_configdbg [of pf] in \<open>auto simp: list_all_iff\<close>)
qed

lemma set_flat_configdbg:
  "set_flat pf c ''SP_EMU_CONFIGDBG'' v = v1_debug_update (debug_config_update (\<lambda>_. Some True)) c"
  by (simp add: set_flat_def setters_def)

lemma map_sum_bind: "map_sum id g (bind_result m f) = bind_result m (\<lambda>y. map_sum id g (f y))"
  by (cases m) simp_all

lemma ingest_configdbg:
  "ingest (v1_debug_update (debug_config_update (\<lambda>_. x)) e) =
     map_sum id (cfg_configdbg_update (\<lambda>_. or_default False x)) (ingest e)"
  by (simp add: ingest_def map_sum_bind)

lemma ingest_configdbg_unset: "ingest e = Inr c \<Longrightarrow> cfg_configdbg c = or_default False (debug_config (v1_debug e))"
  by (auto simp: ingest_def)

lemma with_seed_configdbg:
  "with_seed seed (v1_debug_update g e) = v1_debug_update g (with_seed seed e)"
  by (simp add: with_seed_def split: option.split)

lemma persisted_lookup:
  "lookup_inputs (map_of (persisted (lookup_inputs get))) = persisted (lookup_inputs get)"
proof -
  define g where "g n = (if n \<in> set NOT_PERSISTED then None else get n)" for n
  have "filter (\<lambda>x. fst x \<notin> set NOT_PERSISTED) (List.map_filter (\<lambda>n. map_option (Pair n) (get n)) ns) =
    List.map_filter (\<lambda>n. map_option (Pair n) (g n)) ns" for ns
    by (induction ns) (auto simp: g_def split: option.split)
  then have "persisted (lookup_inputs get) = lookup_inputs g"
    by (simp add: persisted_def lookup_inputs_def)
  moreover have "lookup_inputs (map_of (lookup_inputs g)) = lookup_inputs g"
    by (rule lookup_inputs_cong) (simp add: map_of_lookup_inputs)
  ultimately show ?thesis by simp
qed

lemma flat_reload:
  assumes "resolve pf get seed = Inr rs"
  shows "resolve pf (map_of (persisted (rs_inputs rs))) seed =
    Inr \<lparr>rs_config = (rs_config rs)\<lparr>cfg_configdbg := False\<rparr>, rs_inputs = persisted (rs_inputs rs)\<rparr>"
proof -
  define ps where "ps = persisted (lookup_inputs get)"
  let ?e = "with_seed seed (flat_pairs_to_v1 pf ps)"
  have i: "rs_inputs rs = lookup_inputs get" and c: "ingest (with_seed seed (flat_pairs_to_v1 pf (lookup_inputs get))) = Inr (rs_config rs)"
    using assms by (auto simp: resolve_def Let_def)
  have "debug_config (v1_debug ?e) = None"
    using flat_configdbg [of ps pf]
    by (auto simp: ps_def persisted_def NOT_PERSISTED_def with_seed_def split: option.split)
  then have n: "cfg_configdbg c' = False" if "ingest ?e = Inr c'" for c'
    using ingest_configdbg_unset [OF that] by simp
  have "ingest ?e = Inr ((rs_config rs)\<lparr>cfg_configdbg := False\<rparr>)"
  proof (cases "get ''SP_EMU_CONFIGDBG''")
    case None
    then have "lookup_inputs get = ps" using lookup_inputs_split [of get] by (simp add: ps_def)
    then have "ingest ?e = Inr (rs_config rs)" using c by simp
    with n show ?thesis by simp
  next
    case (Some v)
    then have "lookup_inputs get = ps @ [(''SP_EMU_CONFIGDBG'', v)]"
      using lookup_inputs_split [of get] by (simp add: ps_def)
    then have "map_sum id (cfg_configdbg_update (\<lambda>_. True)) (ingest ?e) = Inr (rs_config rs)"
      using c by (simp add: flat_snoc set_flat_configdbg with_seed_configdbg ingest_configdbg)
    moreover from this obtain c' where c': "ingest ?e = Inr c'" by (cases "ingest ?e") simp_all
    ultimately have r: "rs_config rs = c'\<lparr>cfg_configdbg := True\<rparr>" by simp
    have "(rs_config rs)\<lparr>cfg_configdbg := cfg_configdbg c'\<rparr> = c'" unfolding r by simp
    then show ?thesis using c' n [OF c'] by simp
  qed
  then show ?thesis by (simp add: i resolve_def persisted_lookup ps_def)
qed

section \<open>Derived paths\<close>

text \<open>
  A RoT archive named without a directory has the empty path for its parent, so the bootleby image
  beside it is looked for in the root directory.
\<close>

lemma bootleby_beside_bare_name:
  assumes "cfg_rot_flash cfg = Some p" "CHR ''/'' \<notin> set p" "p \<noteq> []"
  shows "hd (bootleby_candidates cfg env) = CHR ''/'' # BOOTLEBY_NAME"
  using assms by (simp add: bootleby_candidates_def path_parent_simple)

lemma instance_file_default:
  "\<not> is_set_in (rs_inputs rs) n \<Longrightarrow> \<not> is_absolute v \<Longrightarrow> cfg_state_dir (rs_config rs) = Some d \<Longrightarrow>
     instance_file rs env tmp n v = d @ CHR ''/'' # v"
  by (simp add: instance_file_def state_dir_of_def)

section \<open>Loading a file\<close>

lemma names_known: "''SP_EMU_MODE'' \<in> set ENV_NAMES" "''SP_EMU_SLOT'' \<in> set ENV_NAMES" "''SP_EMU_SEED'' \<in> set ENV_NAMES"
  by (simp_all add: ENV_NAMES_def)

lemma resolve_cases:
  "case flat_refusal (get ''SP_EMU_MODE'') (get ''SP_EMU_SLOT'') of
     Some err \<Rightarrow> resolve pf get seed = Inl err
   | None \<Rightarrow> \<exists>rs. resolve pf get seed = Inr rs"
proof -
  let ?e = "with_seed seed (flat_pairs_to_v1 pf (lookup_inputs get))"
  have r: "resolve pf get seed = bind_result (ingest ?e) (\<lambda>c. Inr \<lparr>rs_config = c, rs_inputs = lookup_inputs get\<rparr>)"
    by (simp only: resolve_def Let_def)
  have "op_mode (v1_op ?e) = get ''SP_EMU_MODE''" "op_slot (v1_op ?e) = get ''SP_EMU_SLOT''"
    by (simp_all only: with_seed_facts flat_facts last_value_inputs names_known if_True)
  then have "case flat_refusal (get ''SP_EMU_MODE'') (get ''SP_EMU_SLOT'') of
      Some err \<Rightarrow> ingest ?e = Inl err | None \<Rightarrow> \<exists>c. ingest ?e = Inr c"
    using ingest_lenient [of ?e] by (simp only: with_seed_facts flat_facts)
  then show ?thesis
    unfolding r by (cases "flat_refusal (get ''SP_EMU_MODE'') (get ''SP_EMU_SLOT'')") auto
qed

text \<open>
  The part of TOML the flat file is written in, as the TOML specification gives it: comment lines,
  blank lines and lines \<open>KEY = "basic string"\<close>, the key bare, and no raw control character but tab
  and the newline that ends a line. Text outside of it (a carriage return among others) has no
  value here.
\<close>

definition toml_char :: "char \<Rightarrow> bool" where
  "toml_char c \<longleftrightarrow> c = CHR 0x0A \<or> c = CHR 0x09 \<or> 32 \<le> (of_char c :: nat) \<and> of_char c \<noteq> (127 :: nat)"

definition key_char :: "char \<Rightarrow> bool" where
  "key_char c \<longleftrightarrow>
     (let n = (of_char c :: nat)
      in 65 \<le> n \<and> n \<le> 90 \<or> 97 \<le> n \<and> n \<le> 122 \<or> 48 \<le> n \<and> n \<le> 57 \<or> n = 95 \<or> n = 45)"

definition toml_entry :: "string \<Rightarrow> ((string \<times> string) \<times> string) option" where
  "toml_entry s =
     (let k = takeWhile key_char s; r = dropWhile key_char s
      in if k = [] \<or> take 4 r \<noteq> '' = '' @ [CHR 0x22] then None
         else case basic_string (drop 4 r) of
           None \<Rightarrow> None
         | Some (v, t) \<Rightarrow> if t \<noteq> [] \<and> hd t = CHR 0x0A then Some ((k, v), tl t) else None)"

definition toml_comment :: "string \<Rightarrow> string option" where
  "toml_comment s = (case dropWhile (\<lambda>c. c \<noteq> CHR 0x0A) s of [] \<Rightarrow> None | c # r \<Rightarrow> Some r)"

lemma basic_string_shorter: "basic_string s = Some (v, t) \<Longrightarrow> length t < length s"
proof (induction s arbitrary: v t rule: length_induct)
  case (1 s)
  then show ?case
    by (cases s) (auto split: if_splits list.splits simp: less_Suc_eq)
qed

lemma toml_entry_shorter: "toml_entry s = Some (kv, t) \<Longrightarrow> length t < length s"
  using length_dropWhile_le [of key_char s]
  by (auto simp: toml_entry_def Let_def split: if_splits option.splits dest!: basic_string_shorter)

lemma toml_comment_shorter: "toml_comment s = Some t \<Longrightarrow> length t < length s"
  using length_dropWhile_le [of "\<lambda>c. c \<noteq> CHR 0x0A" s]
  by (auto simp: toml_comment_def split: list.splits)

function toml_lines :: "string \<Rightarrow> (string \<times> string) list option" where
  "toml_lines [] = Some []"
| "toml_lines (c # s) =
     (if c = CHR 0x0A then toml_lines s
      else if c = CHR ''#'' then (case toml_comment s of None \<Rightarrow> None | Some r \<Rightarrow> toml_lines r)
      else
        (case toml_entry (c # s) of
           None \<Rightarrow> None
         | Some (kv, r) \<Rightarrow> map_option (Cons kv) (toml_lines r)))"
  by pat_completeness auto

termination toml_lines
  by (relation "measure length") (auto dest: toml_entry_shorter toml_comment_shorter)

definition flat_reader :: "string \<Rightarrow> (string \<times> string) list option" where
  "flat_reader text = (if list_all toml_char text then toml_lines text else None)"

text \<open>
  What the TOML library does with such a text whose keys are distinct, as TOML defines it: the table
  holds exactly the keys and their decoded strings, in some order, and there is no schema version
  where no key is one.
\<close>

definition toml_reads_flat :: "'d toml_lib \<Rightarrow> bool" where
  "toml_reads_flat T \<longleftrightarrow>
     (\<forall>text ps. flat_reader text = Some ps \<and> distinct (map fst ps) \<and> ''schema_version'' \<notin> fst ` set ps \<longrightarrow>
        toml_version T text = Inr None \<and>
        (\<exists>kvs. toml_table T text = Inr (map (\<lambda>(n, v). (n, TString v)) kvs) \<and>
           distinct (map fst kvs) \<and> set kvs = set ps))"

definition known_entry :: "string \<times> string \<Rightarrow> bool" where
  "known_entry x \<longleftrightarrow> fst x \<in> set ENV_NAMES \<and> list_all toml_char (snd x)"

lemma key_char_not [simp]:
  "\<not> key_char CHR 0x0A" "\<not> key_char CHR ''#''" "\<not> key_char CHR '' ''"
  by (simp_all add: key_char_def)

lemma env_names_bare: "list_all (\<lambda>n. n \<noteq> [] \<and> list_all key_char n \<and> n \<noteq> ''schema_version'') ENV_NAMES"
  by code_simp

lemma key_char_printable: "key_char c \<Longrightarrow> toml_char c"
  by (auto simp: key_char_def toml_char_def Let_def)

lemma toml_entry_line:
  assumes "list_all key_char k" "k \<noteq> []"
  shows "toml_entry (flat_line (k, v) @ rest) = Some ((k, v), rest)"
proof -
  have k: "\<And>c. c \<in> set k \<Longrightarrow> key_char c" using assms(1) by (simp add: list_all_iff)
  show ?thesis
    using assms(2) k
    by (simp add: toml_entry_def flat_line_def takeWhile_append2 dropWhile_append2 basic_string_escaped)
qed

lemma toml_lines_line:
  assumes "list_all key_char k" "k \<noteq> []"
  shows "toml_lines (flat_line (k, v) @ rest) = map_option (Cons (k, v)) (toml_lines rest)"
proof -
  obtain c s where l: "flat_line (k, v) @ rest = c # s" "key_char c"
    using assms by (cases k) (auto simp: flat_line_def)
  then have "c \<noteq> CHR 0x0A" "c \<noteq> CHR ''#''" by auto
  then show ?thesis using toml_entry_line [OF assms, of v rest] by (simp add: l(1))
qed

lemma known_entry_bare: "known_entry (k, v) \<Longrightarrow> list_all key_char k \<and> k \<noteq> [] \<and> k \<noteq> ''schema_version''"
  using env_names_bare by (auto simp: known_entry_def list_all_iff)

lemma toml_lines_entries: "list_all known_entry ps \<Longrightarrow> toml_lines (concat (map flat_line ps)) = Some ps"
proof (induction ps)
  case (Cons x ps)
  obtain k v where x: "x = (k, v)" by (cases x)
  then have "list_all key_char k" "k \<noteq> []" using Cons.prems known_entry_bare [of k v] by auto
  then show ?case using Cons by (simp add: x toml_lines_line)
qed simp

lemma toml_lines_comment: "CHR 0x0A \<notin> set b \<Longrightarrow> toml_lines (CHR ''#'' # b @ CHR 0x0A # rest) = toml_lines rest"
proof -
  assume "CHR 0x0A \<notin> set b"
  then have "toml_comment (b @ CHR 0x0A # rest) = Some rest"
    by (induction b) (auto simp: toml_comment_def)
  then show ?thesis by simp
qed

lemma toml_lines_header: "toml_lines (flat_header @ rest) = toml_lines rest"
proof -
  let ?l1 = "'' sp-emu configuration (mirrors $SP_EMU_*; the environment overrides it).''"
  let ?l2 = "'' Load with `--load-config <this file>`; omitted variables use their default.''"
  let ?l3 = "'' A flag is on by presence -- delete its line to disable it.''"
  have eq: "flat_header @ rest = CHR ''#'' # ?l1 @ CHR 0x0A # CHR ''#'' # ?l2 @ CHR 0x0A # CHR ''#'' # ?l3 @ CHR 0x0A # CHR 0x0A # rest"
    by (simp only: flat_header_def append.simps append_assoc)
  show ?thesis unfolding eq by ((subst toml_lines_comment, simp)+) simp
qed

lemma escape_printable: "list_all toml_char v \<Longrightarrow> list_all toml_char (escape_toml v)"
  unfolding escape_single_pass by (induction v) (auto simp: esc_def toml_char_def)

lemma header_printable: "list_all toml_char flat_header"
  by code_simp

lemma line_printable: "known_entry (k, v) \<Longrightarrow> list_all toml_char (flat_line (k, v))"
  using known_entry_bare [of k v] escape_printable [of v]
  by (auto simp: known_entry_def flat_line_def list_all_iff toml_char_def [of "CHR 0x0A"]
        toml_char_def [of "CHR 0x22"] toml_char_def [of "CHR '' ''"] toml_char_def [of "CHR ''=''"]
        intro: key_char_printable)

text \<open>The file reads back as the pairs that were written.\<close>

lemma flat_reader_flat_toml:
  assumes "list_all known_entry (persisted inputs)"
  shows "flat_reader (flat_toml inputs) = Some (persisted inputs)"
proof -
  have "list_all toml_char (concat (map flat_line ps))" if "list_all known_entry ps" for ps
    using that by (induction ps) (auto simp: line_printable)
  then show ?thesis
    using assms toml_lines_entries [OF assms]
    by (simp add: flat_reader_def flat_toml_def toml_lines_header header_printable)
qed

lemma flat_reader_cr:
  assumes "(n, v) \<in> set (persisted inputs)" and "CHR 0x0D \<in> set v"
  shows "flat_reader (flat_toml inputs) = None"
proof -
  have "set (flat_line (n, v)) \<subseteq> set (flat_toml inputs)" using assms(1) by (auto simp: flat_toml_def)
  moreover have "CHR 0x0D \<in> set (flat_line (n, v))"
    using assms(2) by (simp add: flat_line_def escape_toml_keeps_cr)
  moreover have "\<not> toml_char CHR 0x0D" by (simp add: toml_char_def)
  ultimately have "\<not> list_all toml_char (flat_toml inputs)" unfolding list_all_iff by blast
  then show ?thesis by (simp add: flat_reader_def)
qed

lemma map_filter_strings:
  "List.map_filter (\<lambda>(k, v). map_option (Pair k) (config_value T v)) (map (\<lambda>(n, v). (n, TString v)) kvs) = kvs"
  by (induction kvs) (auto simp: config_value_def)

lemma load_flat_toml:
  assumes "toml_reads_flat T" and "list_all known_entry (lookup_inputs get)"
    and "files path = Some (flat_toml (lookup_inputs get))"
  shows "load_config_file T pf files path seed =
    invalid (resolve pf (map_of (persisted (lookup_inputs get))) seed)"
proof -
  let ?t = "flat_toml (lookup_inputs get)" and ?ps = "persisted (lookup_inputs get)"
  have known: "list_all known_entry ?ps" using assms(2) by (auto simp: persisted_def list_all_iff)
  then have r: "flat_reader ?t = Some ?ps" by (rule flat_reader_flat_toml)
  have d: "distinct (map fst ?ps)"
    using lookup_inputs_distinct [of get] by (simp add: persisted_def distinct_map_filter)
  have "''schema_version'' \<notin> fst ` set ?ps"
    using known known_entry_bare by (force simp: list_all_iff)
  with r d assms(1) obtain kvs where v: "toml_version T ?t = Inr None"
      and kvs: "toml_table T ?t = Inr (map (\<lambda>(n, v). (n, TString v)) kvs)"
        "distinct (map fst kvs)" "set kvs = set ?ps"
    unfolding toml_reads_flat_def by blast
  have "peek_version T ?t = Inr LegacyFlat"
    by (simp add: v peek_version_def from_toml_def)
  moreover have "map_of kvs = map_of ?ps" using kvs(2,3) d by (simp add: map_of_inject_set)
  ultimately show ?thesis
    using assms(3) by (simp add: load_config_file_def parse_config_toml_def kvs(1) map_filter_strings)
qed

section \<open>Malformed values\<close>

text \<open>
  The knobs that take a number or one of a few spellings, by the kind of value, and when a value is
  none of that kind.
\<close>

definition DECIMAL_64 :: "string list" where
  "DECIMAL_64 =
     [''SP_EMU_RUN_MAX'', ''SP_EMU_IDLE_MS'', ''SP_EMU_ROT_PREBOOT'', ''SP_EMU_TRACE_FROM'',
      ''SP_EMU_TRACE_TO'', ''SP_EMU_ROTPC'', ''SP_EMU_PUMPSTATS_MS'']"

definition DECIMAL_32 :: "string list" where
  "DECIMAL_32 = [''SP_EMU_ETH_QUANTUM'', ''SP_EMU_SPROT_FLOWCTL'', ''SP_EMU_SP_CLOCK_KHZ'']"

definition HEX_16 :: "string list" where
  "HEX_16 = [''SP_EMU_VID0'', ''SP_EMU_VID1'']"

definition HEX_32 :: "string list" where
  "HEX_32 = [''SP_EMU_ROT_TRACE_FROM'', ''SP_EMU_ROT_TRACE_TO'', ''SP_EMU_WATCH'']"

definition no_hex :: "nat \<Rightarrow> string \<Rightarrow> bool" where
  "no_hex bound v = (case parse_uint 16 (2 ^ 64 - 1) (trim_0x (trim v)) of None \<Rightarrow> True | Some k \<Rightarrow> bound \<le> k)"

definition malformed :: "(string \<Rightarrow> f32 option) \<Rightarrow> string \<Rightarrow> string \<Rightarrow> bool" where
  "malformed pf n v \<longleftrightarrow>
     n \<in> set DECIMAL_64 \<and> parse_uint 10 (2 ^ 64 - 1) v = None \<or>
     n \<in> set DECIMAL_32 \<and> parse_uint 10 (2 ^ 32 - 1) v = None \<or>
     n \<in> set HEX_16 \<and> no_hex (2 ^ 16) v \<or>
     n \<in> set HEX_32 \<and> no_hex (2 ^ 32) v \<or>
     n = ''SP_EMU_AMBIENT_C'' \<and> pf (trim v) = None \<or>
     n = ''SP_EMU_BOARD'' \<and> v \<noteq> ''sidecar'' \<or>
     n = ''SP_EMU_ROT_BOOT_PREF'' \<and> v \<notin> {''a'', ''b''} \<or>
     n = ''SP_EMU_ROTDUMP'' \<and> parse_rotdump v = None"

text \<open>The fields these knobs write, and whether a field is unset.\<close>

definition numeric_fields :: "(string \<times> (config_file_v1 \<Rightarrow> bool)) list" where
  "numeric_fields = [
    (''SP_EMU_RUN_MAX'', \<lambda>c. op_run_max (v1_op c) = None),
    (''SP_EMU_IDLE_MS'', \<lambda>c. net_idle_ms (v1_net c) = None),
    (''SP_EMU_ROT_PREBOOT'', \<lambda>c. rot_preboot (v1_rot c) = None),
    (''SP_EMU_TRACE_FROM'', \<lambda>c. trace_from (v1_trace c) = None),
    (''SP_EMU_TRACE_TO'', \<lambda>c. trace_to (v1_trace c) = None),
    (''SP_EMU_ROTPC'', \<lambda>c. trace_rotpc (v1_trace c) = None),
    (''SP_EMU_PUMPSTATS_MS'', \<lambda>c. stats_pump_ms (v1_stats c) = None),
    (''SP_EMU_ETH_QUANTUM'', \<lambda>c. net_eth_quantum (v1_net c) = None),
    (''SP_EMU_SPROT_FLOWCTL'', \<lambda>c. sprot_flowctl (v1_sprot c) = None),
    (''SP_EMU_SP_CLOCK_KHZ'', \<lambda>c. sprot_sp_clock_khz (v1_sprot c) = None),
    (''SP_EMU_VID0'', \<lambda>c. net_vid0 (v1_net c) = None),
    (''SP_EMU_VID1'', \<lambda>c. net_vid1 (v1_net c) = None),
    (''SP_EMU_ROT_TRACE_FROM'', \<lambda>c. trace_rot_from (v1_trace c) = None),
    (''SP_EMU_ROT_TRACE_TO'', \<lambda>c. trace_rot_to (v1_trace c) = None),
    (''SP_EMU_WATCH'', \<lambda>c. trace_watch (v1_trace c) = None),
    (''SP_EMU_AMBIENT_C'', \<lambda>c. sensors_ambient_c (v1_sensors c) = None)]"

definition knob_unset :: "string \<Rightarrow> config_file_v1 \<Rightarrow> bool" where
  "knob_unset n c = (case map_of numeric_fields n of None \<Rightarrow> True | Some unset \<Rightarrow> unset c)"

lemma section_same:
  "f1 (v1_net c) = v1_net c \<Longrightarrow> v1_net_update f1 c = c"
  "f2 (v1_op c) = v1_op c \<Longrightarrow> v1_op_update f2 c = c"
  "f3 (v1_rot c) = v1_rot c \<Longrightarrow> v1_rot_update f3 c = c"
  "f4 (v1_sensors c) = v1_sensors c \<Longrightarrow> v1_sensors_update f4 c = c"
  "f5 (v1_sprot c) = v1_sprot c \<Longrightarrow> v1_sprot_update f5 c = c"
  "f6 (v1_stats c) = v1_stats c \<Longrightarrow> v1_stats_update f6 c = c"
  "f7 (v1_trace c) = v1_trace c \<Longrightarrow> v1_trace_update f7 c = c"
  by (cases c, simp)+

lemma field_unset:
  "op_run_max rop = None \<Longrightarrow> op_run_max_update (\<lambda>_. None) rop = rop"
  "net_idle_ms rnet = None \<Longrightarrow> net_idle_ms_update (\<lambda>_. None) rnet = rnet"
  "rot_preboot rrot = None \<Longrightarrow> rot_preboot_update (\<lambda>_. None) rrot = rrot"
  "trace_from rtra = None \<Longrightarrow> trace_from_update (\<lambda>_. None) rtra = rtra"
  "trace_to rtra = None \<Longrightarrow> trace_to_update (\<lambda>_. None) rtra = rtra"
  "trace_rotpc rtra = None \<Longrightarrow> trace_rotpc_update (\<lambda>_. None) rtra = rtra"
  "stats_pump_ms rsta = None \<Longrightarrow> stats_pump_ms_update (\<lambda>_. None) rsta = rsta"
  "net_eth_quantum rnet = None \<Longrightarrow> net_eth_quantum_update (\<lambda>_. None) rnet = rnet"
  "sprot_flowctl rspr = None \<Longrightarrow> sprot_flowctl_update (\<lambda>_. None) rspr = rspr"
  "sprot_sp_clock_khz rspr = None \<Longrightarrow> sprot_sp_clock_khz_update (\<lambda>_. None) rspr = rspr"
  "net_vid0 rnet = None \<Longrightarrow> net_vid0_update (\<lambda>_. None) rnet = rnet"
  "net_vid1 rnet = None \<Longrightarrow> net_vid1_update (\<lambda>_. None) rnet = rnet"
  "trace_rot_from rtra = None \<Longrightarrow> trace_rot_from_update (\<lambda>_. None) rtra = rtra"
  "trace_rot_to rtra = None \<Longrightarrow> trace_rot_to_update (\<lambda>_. None) rtra = rtra"
  "trace_watch rtra = None \<Longrightarrow> trace_watch_update (\<lambda>_. None) rtra = rtra"
  "sensors_ambient_c rsen = None \<Longrightarrow> sensors_ambient_c_update (\<lambda>_. None) rsen = rsen"
  by ((cases rnet, simp; fail)|(cases rop, simp; fail)|(cases rrot, simp; fail)|(cases rsen, simp; fail)|(cases rspr, simp; fail)|(cases rsta, simp; fail)|(cases rtra, simp; fail))+

lemmas unset_simps = set_flat_def setters_def knob_unset_def numeric_fields_def section_same field_unset

lemma hex_none: "hex_u16 v = None \<longleftrightarrow> no_hex (2 ^ 16) v" "hex_u32 v = None \<longleftrightarrow> no_hex (2 ^ 32) v"
  by (auto simp: hex_u16_def hex_u32_def hex_raw_def no_hex_def not_le split: option.splits)

lemma decimal_none:
  "parse_uint 10 (2 ^ 64 - 1) v = None \<Longrightarrow> parse_u64 v = None"
  "parse_uint 10 (2 ^ 32 - 1) v = None \<Longrightarrow> parse_u32 v = None"
  by (simp_all only: parse_u64_def parse_u32_def option.map)

lemma set_flat_decimal_64: "n \<in> set DECIMAL_64 \<Longrightarrow> parse_u64 v = None \<Longrightarrow> knob_unset n c \<Longrightarrow> set_flat pf c n v = c"
  unfolding DECIMAL_64_def set_simps by (elim insertE emptyE) (simp_all add: unset_simps)

lemma set_flat_decimal_32: "n \<in> set DECIMAL_32 \<Longrightarrow> parse_u32 v = None \<Longrightarrow> knob_unset n c \<Longrightarrow> set_flat pf c n v = c"
  unfolding DECIMAL_32_def set_simps by (elim insertE emptyE) (simp_all add: unset_simps)

lemma set_flat_hex_16: "n \<in> set HEX_16 \<Longrightarrow> hex_u16 v = None \<Longrightarrow> knob_unset n c \<Longrightarrow> set_flat pf c n v = c"
  unfolding HEX_16_def set_simps by (elim insertE emptyE) (simp_all add: unset_simps)

lemma set_flat_hex_32: "n \<in> set HEX_32 \<Longrightarrow> hex_u32 v = None \<Longrightarrow> knob_unset n c \<Longrightarrow> set_flat pf c n v = c"
  unfolding HEX_32_def set_simps by (elim insertE emptyE) (simp_all add: unset_simps)

lemma set_flat_choices:
  "pf (trim v) = None \<Longrightarrow> knob_unset ''SP_EMU_AMBIENT_C'' c \<Longrightarrow> set_flat pf c ''SP_EMU_AMBIENT_C'' v = c"
  "v \<noteq> ''sidecar'' \<Longrightarrow> set_flat pf c ''SP_EMU_BOARD'' v = c"
  "v \<notin> {''a'', ''b''} \<Longrightarrow> set_flat pf c ''SP_EMU_ROT_BOOT_PREF'' v = c"
  "parse_rotdump v = None \<Longrightarrow> set_flat pf c ''SP_EMU_ROTDUMP'' v = c"
  by (simp_all add: unset_simps)

text \<open>A malformed value leaves the external form alone where the knob has no value yet.\<close>

lemma set_flat_malformed: "malformed pf n v \<Longrightarrow> knob_unset n c \<Longrightarrow> set_flat pf c n v = c"
  unfolding malformed_def
  by (elim disjE conjE)
    (simp_all only: set_flat_decimal_64 set_flat_decimal_32 set_flat_hex_16 set_flat_hex_32
       set_flat_choices decimal_none hex_none not_False_eq_True)

text \<open>No setter writes another knob's field.\<close>

lemma setters_own_field:
  "list_all (\<lambda>(m, f). \<forall>s c. list_all (\<lambda>(n, unset). n = m \<or> unset c = unset (f s c)) numeric_fields) (setters pf)"
  unfolding setters_def numeric_fields_def list.pred_inject prod.case by simp

lemma knob_unset_other:
  assumes "m \<noteq> n"
  shows "knob_unset n (set_flat pf c m s) = knob_unset n c"
proof -
  have "u (f s c) = u c" if "(n, u) \<in> set numeric_fields" "(m, f) \<in> set (setters pf)" for u f
    using setters_own_field [of pf] that assms unfolding list_all_iff by fastforce
  then show ?thesis
    by (auto simp: knob_unset_def set_flat_def split: option.split dest: map_of_SomeD)
qed

lemma knob_unset_default: "knob_unset n v1_default"
proof -
  have "list_all (\<lambda>(n, u). u v1_default) numeric_fields"
    unfolding numeric_fields_def list.pred_inject prod.case
    by (simp add: v1_default_def op_none_def net_none_def rot_none_def trace_none_def stats_none_def
          sprot_none_def sensors_none_def)
  then show ?thesis by (auto simp: knob_unset_def list_all_iff split: option.split dest: map_of_SomeD)
qed

lemma knob_unset_absent: "n \<notin> fst ` set ps \<Longrightarrow> knob_unset n (flat_pairs_to_v1 pf ps)"
proof (induction ps rule: rev_induct)
  case Nil
  show ?case by (simp add: flat_pairs_to_v1_def knob_unset_default)
next
  case (snoc x ps)
  obtain m s where x: "x = (m, s)" by (cases x)
  with snoc have "m \<noteq> n" "knob_unset n (flat_pairs_to_v1 pf ps)" by auto
  then show ?case by (simp add: x flat_snoc knob_unset_other)
qed

lemma flat_malformed:
  assumes "malformed pf n v" and "n \<notin> fst ` set as"
  shows "flat_pairs_to_v1 pf (as @ (n, v) # bs) = flat_pairs_to_v1 pf (as @ bs)"
proof -
  have "set_flat pf (flat_pairs_to_v1 pf as) n v = flat_pairs_to_v1 pf as"
    using assms by (simp add: set_flat_malformed knob_unset_absent)
  then show ?thesis by (simp add: flat_pairs_to_v1_def)
qed

lemma lookup_inputs_unset:
  assumes "get n = Some v" and "n \<in> set ENV_NAMES"
  shows "\<exists>as bs. lookup_inputs get = as @ (n, v) # bs \<and> lookup_inputs (get(n := None)) = as @ bs \<and>
    n \<notin> fst ` set as"
proof -
  let ?f = "\<lambda>get name. map_option (Pair name) (get name)"
  obtain xs ys where ns: "ENV_NAMES = xs @ n # ys" using assms(2) by (auto simp: in_set_conv_decomp)
  then have d: "n \<notin> set xs" "n \<notin> set ys" using ENV_NAMES_distinct unfolding ns by auto
  have same: "List.map_filter (?f (get(n := None))) zs = List.map_filter (?f get) zs" if "n \<notin> set zs" for zs
    using that by (induction zs) (auto split: option.splits)
  have "n \<notin> fst ` set (List.map_filter (?f get) xs)"
    using d(1) by (auto simp: List.map_filter_def)
  then show ?thesis
    using assms(1) d same unfolding lookup_inputs_def ns map_filter_append
    by (intro exI [of _ "List.map_filter (?f get) xs"] exI [of _ "List.map_filter (?f get) ys"]) simp
qed

lemma flat_unset:
  assumes "get n = Some v" and "malformed pf n v"
  shows "flat_pairs_to_v1 pf (lookup_inputs get) = flat_pairs_to_v1 pf (lookup_inputs (get(n := None)))"
proof (cases "n \<in> set ENV_NAMES")
  case True
  then show ?thesis using lookup_inputs_unset [of get n v, OF assms(1)] flat_malformed [OF assms(2)] by auto
next
  case False
  then have "lookup_inputs get = lookup_inputs (get(n := None))" by (intro lookup_inputs_cong) auto
  then show ?thesis by simp
qed

lemma malformed_is_unset:
  assumes "get n = Some v" and "malformed pf n v"
  shows "map_sum id rs_config (resolve pf get seed) = map_sum id rs_config (resolve pf (get(n := None)) seed)"
proof -
  have "map_sum id rs_config (bind_result m (\<lambda>c. Inr \<lparr>rs_config = c, rs_inputs = i\<rparr>)) = m"
    for m :: "config_error + config" and i by (cases m) simp_all
  then show ?thesis by (simp add: resolve_def Let_def flat_unset [where get = get and v = v, OF assms])
qed

section \<open>Properties\<close>

text \<open>
  C17: The environment (or a flat file) is refused for its mode and its slot alone, and exactly when
  one of them is set to something that is neither empty nor an allowed spelling, the mode being
  checked first. No other value, however malformed, stops a start: a number that does not parse or
  is out of range, an unknown board or boot preference and a trace window that does not parse give
  the configuration that leaving the variable unset gives, so the knob has its default.
\<close>

theorem environment_refused:
  "(resolve pf get seed = Inl err \<longleftrightarrow> flat_refusal (get ''SP_EMU_MODE'') (get ''SP_EMU_SLOT'') = Some err) \<and>
   (get n = Some v \<and> malformed pf n v \<longrightarrow>
      map_sum id rs_config (resolve pf get seed) = map_sum id rs_config (resolve pf (get(n := None)) seed))"
proof (intro conjI impI)
  show "resolve pf get seed = Inl err \<longleftrightarrow> flat_refusal (get ''SP_EMU_MODE'') (get ''SP_EMU_SLOT'') = Some err"
    using resolve_cases [where get = get and pf = pf and seed = seed]
    by (cases "flat_refusal (get ''SP_EMU_MODE'') (get ''SP_EMU_SLOT'')") auto
qed (elim conjE, rule malformed_is_unset)

theorem environment_refused_witness:
  "map_sum id rs_config (resolve (\<lambda>_. None) [''SP_EMU_VID0'' \<mapsto> ''zz'', ''SP_EMU_BOARD'' \<mapsto> ''sidecar''] None) =
   map_sum id rs_config (resolve (\<lambda>_. None) ([''SP_EMU_VID0'' \<mapsto> ''zz'', ''SP_EMU_BOARD'' \<mapsto> ''sidecar'']
     (''SP_EMU_VID0'' := None)) None)"
proof -
  have "parse_uint 16 (2 ^ 64 - 1) (trim_0x (trim ''zz'')) = None"
    by (simp add: parse_uint_def trim_def trim_by_def is_ws_def digit_val_def)
  then have "malformed (\<lambda>_. None) ''SP_EMU_VID0'' ''zz''"
    unfolding malformed_def no_hex_def HEX_16_def by (simp only: list.set insert_iff option.case simp_thms)
  then show ?thesis
    by (intro environment_refused [where v = "''zz''", THEN conjunct2, THEN mp]) simp
qed


definition env_example :: "string \<Rightarrow> string option" where
  "env_example = [''SP_EMU_BOARD'' \<mapsto> ''sidecar'', ''SP_EMU_CONFIGDBG'' \<mapsto> ''1'']"

text \<open>A library that reads this part of TOML and nothing else.\<close>

definition toml_example :: "unit toml_lib" where
  "toml_example =
     \<lparr>toml_version = \<lambda>_. Inr None,
      toml_table = \<lambda>text. case flat_reader text of
        None \<Rightarrow> Inl [] | Some ps \<Rightarrow> Inr (map (\<lambda>(n, v). (n, TString v)) ps),
      toml_typed = \<lambda>_. Inl [], toml_pretty = \<lambda>_. Inl [], toml_show = \<lambda>_. []\<rparr>"

lemma inputs_example:
  "lookup_inputs env_example = [(''SP_EMU_BOARD'', ''sidecar''), (''SP_EMU_CONFIGDBG'', ''1'')]"
  by (simp add: lookup_inputs_def ENV_NAMES_def env_example_def)

lemma toml_example_reads_flat: "toml_reads_flat toml_example"
  unfolding toml_reads_flat_def toml_example_def by auto


end
