(* ===== verification/Config_Template.thy ===== *)
theory Config_Template
  imports Config_Props
begin

text \<open>
  The documented template \<open>sp-emu config schema\<close> prints (\<open>template\<close> in
  \<open>sp-emu-config/src/dump.rs\<close>), line by line: the knobs with a default as active lines, the
  others as commented examples. The printing of a 32-bit float is a parameter. The lemma compares
  the knobs the template lists with the fields of the schema.
\<close>

definition debug_char :: "char \<Rightarrow> string" where
  "debug_char c =
     (if c = CHR 0x22 \<or> c = CHR 0x5C then [CHR 0x5C, c]
      else if c = CHR 0x0A then [CHR 0x5C, CHR ''n'']
      else if c = CHR 0x0D then [CHR 0x5C, CHR ''r'']
      else if c = CHR 0x09 then [CHR 0x5C, CHR ''t'']
      else if c = CHR 0x00 then [CHR 0x5C, CHR ''0'']
      else [c])"

text \<open>
  \<open>{:?}\<close> of a string. The other control characters, printed by their code point, do not occur in
  a default value.
\<close>

definition debug_str :: "string \<Rightarrow> string" where
  "debug_str s = CHR 0x22 # concat (map debug_char s) @ [CHR 0x22]"

definition show_bool :: "bool \<Rightarrow> string" where
  "show_bool b = (if b then ''true'' else ''false'')"

definition template_lines :: "(f32 \<Rightarrow> string) \<Rightarrow> config \<Rightarrow> string list" where
  "template_lines show_f32 d = [
    ''# sp-emu configuration, schema v'' @ dec (unat CURRENT) @ ''.'',
    ''# Active lines are the defaults; commented lines are optional knobs with'',
    ''# example values. (Loaded today as the flat SP_EMU_* form; see `sp-emu config`.)'',
    ''schema_version = '' @ dec (unat CURRENT),
    [CHR 0x0A] @ ''# What this instance is and how it runs.'',
    ''[op]'',
    ''# mode = '' @ [CHR 0x22] @ ''run'' @ [CHR 0x22] @ ''          # run | gdb; unset prints usage'',
    ''# slot = '' @ [CHR 0x22] @ ''a'' @ [CHR 0x22] @ ''            # a | b; unset uses the persisted swap bank'',
    ''# run_max = 0            # instruction budget; 0 serves forever'',
    ''board = '' @ debug_str (board_str (cfg_board d)),
    ''# seed = '' @ [CHR 0x22] @ ''0xC0FFEE'' @ [CHR 0x22] @ ''     # per-instance identity seed'',
    ''ignition = '' @ debug_str (cfg_ignition d),
    [CHR 0x0A] @ ''# Instance state files (created on first use).'',
    ''[paths]'',
    ''flash = '' @ debug_str (cfg_flash_path d),
    ''rot_nvm = '' @ debug_str (cfg_rot_nvm_path d),
    ''identity = '' @ debug_str (cfg_identity_path d),
    ''# state_dir = '' @ [CHR 0x22] @ ''/path/to/state'' @ [CHR 0x22] @ ''   # default: $XDG_STATE_HOME/sp-emu'',
    ''# archive = '' @ [CHR 0x22] @ ''gimlet.zip'' @ [CHR 0x22] @ ''         # the SP Hubris archive'',
    [CHR 0x0A] @ ''# Host bridge and Ethernet.'',
    ''[net]'',
    ''# bridge = '' @ [CHR 0x22] @ ''1'' @ [CHR 0x22] @ ''          # MGS bind address, or '' @ [CHR 0x22] @ ''1'' @ [CHR 0x22] @ '' for the default'',
    ''well_known_ports = '' @ show_bool (cfg_well_known_ports d),
    ''# addr0 = '' @ [CHR 0x22] @ ''::1'' @ [CHR 0x22],
    ''# addr1 = '' @ [CHR 0x22] @ ''::1'' @ [CHR 0x22],
    ''# vid0 = 0x301'',
    ''# vid1 = 0x302'',
    ''eth_quantum = '' @ dec (unat (cfg_eth_quantum d)),
    ''eth_txbreak = '' @ show_bool (cfg_eth_txbreak d),
    ''idle_ms = '' @ dec (unat (cfg_idle_ms d)),
    [CHR 0x0A] @ ''# Host UART / IPCC.'',
    ''[host]'',
    ''# uart = '' @ [CHR 0x22] @ ''/path/to/socket'' @ [CHR 0x22] @ ''       # connect the host UART to a unix socket'',
    ''pty = '' @ show_bool (cfg_host_pty d),
    [CHR 0x0A] @ ''# Companion I2C bridge.'',
    ''[i2c]'',
    ''# bridge = '' @ [CHR 0x22] @ ''127.0.0.1:9100'' @ [CHR 0x22] @ ''      # SNIFF: tee transactions to this address'',
    ''# device = '' @ [CHR 0x22] @ ''127.0.0.1:9100'' @ [CHR 0x22] @ ''      # DELEGATE: serve reads from this device'',
    [CHR 0x0A] @ ''# Root of Trust.'',
    ''[rot]'',
    ''rom = '' @ show_bool (cfg_rot_rom d),
    ''fresh = '' @ show_bool (cfg_rot_fresh d),
    ''measure = '' @ show_bool (cfg_rot_measure d),
    ''# service = '' @ [CHR 0x22] @ ''127.0.0.1:9200'' @ [CHR 0x22] @ ''     # shared rot-service over IPC'',
    ''# flash = '' @ [CHR 0x22] @ ''rot-a.bin'' @ [CHR 0x22] @ ''            # in-process RoT slot-A image'',
    ''# bootleby = '' @ [CHR 0x22] @ ''bootleby.zip'' @ [CHR 0x22],
    ''no_bootleby = '' @ show_bool (cfg_rot_no_bootleby d),
    ''# cmpa = '' @ [CHR 0x22] @ ''cmpa.bin'' @ [CHR 0x22],
    ''# cfpa = '' @ [CHR 0x22] @ ''cfpa.bin'' @ [CHR 0x22],
    ''# nmpa = '' @ [CHR 0x22] @ ''nmpa.bin'' @ [CHR 0x22],
    ''# image_b = '' @ [CHR 0x22] @ ''rot-b.bin'' @ [CHR 0x22] @ ''          # slot-B image, for A/B selection'',
    ''erase_a = '' @ show_bool (cfg_rot_erase_a d),
    ''# boot_pref = '' @ [CHR 0x22] @ ''a'' @ [CHR 0x22] @ ''       # a | b; the synthesized CFPA boot preference'',
    ''# dice = '' @ [CHR 0x22] @ ''dice-dir'' @ [CHR 0x22] @ ''              # DICE handoff blob directory'',
    ''# preboot = 400000000            # RoT preboot instruction budget'',
    [CHR 0x0A] @ ''# SP <-> RoT coupling.'',
    ''[sprot]'',
    ''flowctl = '' @ dec (unat (cfg_sprot_flowctl d)),
    ''couple = '' @ show_bool (cfg_sprot_couple d),
    ''endoscope_couple = '' @ show_bool (cfg_endoscope_couple d),
    ''sp_clock_khz = '' @ dec (unat (cfg_sp_clock_khz d)),
    [CHR 0x0A] @ ''# VPD identity fields.'',
    ''[vpd]'',
    ''# serial = '' @ [CHR 0x22] @ ''BRM42220001'' @ [CHR 0x22],
    ''# part = '' @ [CHR 0x22] @ ''913-0000019'' @ [CHR 0x22],
    ''# rev = '' @ [CHR 0x22] @ ''002'' @ [CHR 0x22],
    [CHR 0x0A] @ ''# Sensor model.'',
    ''[sensors]'',
    ''# overrides = '' @ [CHR 0x22] @ ''0x48=30.0,0x49=31.5'' @ [CHR 0x22] @ ''   # per-address temperature overrides'',
    ''ambient_c = '' @ show_f32 (cfg_ambient_c d),
    [CHR 0x0A] @ ''# Hydrate RAM-dump trigger.'',
    ''[dump]'',
    ''# dir = '' @ [CHR 0x22] @ ''dump-dir'' @ [CHR 0x22],
    ''archive_id = '' @ debug_str (cfg_dump_archive_id d),
    [CHR 0x0A] @ ''# Instruction traces, windows, and profiling.'',
    ''[trace]'',
    ''enabled = '' @ show_bool (cfg_trace d),
    ''# from = 0'',
    ''# to = 0'',
    ''# rot_from = 0'',
    ''# rot_to = 0'',
    ''# rotpc = 0'',
    ''# rotdump = '' @ [CHR 0x22] @ ''0x20000000:256'' @ [CHR 0x22] @ ''      # RoT RAM window, 0xADDR:LEN'',
    ''# watch = 0'',
    ''# diff = '' @ [CHR 0x22] @ ''diff.log'' @ [CHR 0x22] @ ''               # differential-trace output file'',
    ''pcprof = '' @ show_bool (cfg_pcprof d),
    [CHR 0x0A] @ ''# Periodic counters.'',
    ''[stats]'',
    ''rx = '' @ show_bool (cfg_rxstats d),
    ''rtt = '' @ show_bool (cfg_rttstats d),
    ''pump = '' @ show_bool (cfg_pumpstats d),
    ''pump_ms = '' @ dec (unat (cfg_pumpstats_ms d)),
    [CHR 0x0A] @ ''# Per-subsystem log toggles and one-shot triggers.'',
    ''[debug]'',
    ''no_debug = '' @ show_bool (cfg_no_debug d),
    ''no_archive_warn = '' @ show_bool (cfg_no_archive_warn d),
    ''swd_trigger = '' @ show_bool (cfg_swd_trigger d),
    ''jtag_trigger = '' @ show_bool (cfg_jtag_trigger d),
    ''swd_trace = '' @ show_bool (cfg_swd_trace d),
    ''rotsvc = '' @ show_bool (cfg_rotsvc d),
    ''pingtest = '' @ show_bool (cfg_pingtest d),
    ''flash = '' @ show_bool (cfg_flashdbg d),
    ''rotflash = '' @ show_bool (cfg_rotflashdbg d),
    ''eth = '' @ show_bool (cfg_ethdbg d),
    ''uart = '' @ show_bool (cfg_uartdbg d),
    ''bridge = '' @ show_bool (cfg_bridgedbg d),
    ''puf = '' @ show_bool (cfg_pufdbg d),
    ''vsc = '' @ show_bool (cfg_vscdbg d),
    ''rx = '' @ show_bool (cfg_rxdbg d),
    ''mdio = '' @ show_bool (cfg_mdiodbg d),
    ''vpd = '' @ show_bool (cfg_vpddbg d),
    ''spi = '' @ show_bool (cfg_spidbg d),
    ''panic = '' @ show_bool (cfg_panicdbg d),
    ''svc = '' @ show_bool (cfg_svcdbg d),
    ''exc = '' @ show_bool (cfg_excdbg d),
    ''sprot = '' @ show_bool (cfg_sprotdbg d),
    ''couple = '' @ show_bool (cfg_coupledbg d),
    ''rom = '' @ show_bool (cfg_romdbg d),
    ''config = '' @ show_bool (cfg_configdbg d)]"

definition template :: "(f32 \<Rightarrow> string) \<Rightarrow> string option" where
  "template show_f32 =
     (case ingest v1_default of
        Inl _ \<Rightarrow> None
      | Inr d \<Rightarrow> Some (concat (map (\<lambda>l. l @ [CHR 0x0A]) (template_lines show_f32 d))))"

section \<open>The template and the schema\<close>

text \<open>The fields of the schema, by their section and name.\<close>

definition schema_knobs :: "(string \<times> string) list" where
  "schema_knobs = [
    (''op'', ''mode''), (''op'', ''slot''), (''op'', ''run_max''), (''op'', ''board''),
    (''op'', ''seed''), (''op'', ''ignition''), (''paths'', ''flash''), (''paths'', ''rot_nvm''),
    (''paths'', ''identity''), (''paths'', ''state_dir''), (''paths'', ''archive''), (''net'', ''bridge''),
    (''net'', ''well_known_ports''), (''net'', ''addr0''), (''net'', ''addr1''), (''net'', ''vid0''),
    (''net'', ''vid1''), (''net'', ''eth_quantum''), (''net'', ''eth_txbreak''), (''net'', ''idle_ms''),
    (''host'', ''uart''), (''host'', ''pty''), (''i2c'', ''bridge''), (''i2c'', ''device''),
    (''rot'', ''rom''), (''rot'', ''fresh''), (''rot'', ''measure''), (''rot'', ''service''),
    (''rot'', ''flash''), (''rot'', ''bootleby''), (''rot'', ''no_bootleby''), (''rot'', ''cmpa''),
    (''rot'', ''cfpa''), (''rot'', ''nmpa''), (''rot'', ''image_b''), (''rot'', ''erase_a''),
    (''rot'', ''boot_pref''), (''rot'', ''dice''), (''rot'', ''preboot''), (''sprot'', ''flowctl''),
    (''sprot'', ''couple''), (''sprot'', ''endoscope_couple''), (''sprot'', ''sp_clock_khz''), (''vpd'', ''serial''),
    (''vpd'', ''part''), (''vpd'', ''rev''), (''sensors'', ''overrides''), (''sensors'', ''ambient_c''),
    (''dump'', ''dir''), (''dump'', ''archive_id''), (''trace'', ''enabled''), (''trace'', ''from''),
    (''trace'', ''to''), (''trace'', ''rot_from''), (''trace'', ''rot_to''), (''trace'', ''rotpc''),
    (''trace'', ''rotdump''), (''trace'', ''watch''), (''trace'', ''diff''), (''trace'', ''pcprof''),
    (''stats'', ''rx''), (''stats'', ''rtt''), (''stats'', ''pump''), (''stats'', ''pump_ms''),
    (''debug'', ''no_debug''), (''debug'', ''no_archive_warn''), (''debug'', ''swd_trigger''), (''debug'', ''jtag_trigger''),
    (''debug'', ''swd_trace''), (''debug'', ''rotsvc''), (''debug'', ''pingtest''), (''debug'', ''flash''),
    (''debug'', ''rotflash''), (''debug'', ''eth''), (''debug'', ''uart''), (''debug'', ''bridge''),
    (''debug'', ''puf''), (''debug'', ''vsc''), (''debug'', ''rx''), (''debug'', ''mdio''),
    (''debug'', ''vpd''), (''debug'', ''spi''), (''debug'', ''panic''), (''debug'', ''svc''),
    (''debug'', ''exc''), (''debug'', ''sprot''), (''debug'', ''couple''), (''debug'', ''rom''),
    (''debug'', ''config'')]"

text \<open>
  The knob a line is about, active or commented: the text before its first equals sign, when it
  has the shape of a key. A section line changes the section.
\<close>

fun cut_eq :: "string \<Rightarrow> string option" where
  "cut_eq (a # b # c # s) =
     (if a = CHR '' '' \<and> b = CHR ''='' \<and> c = CHR '' '' then Some []
      else map_option (Cons a) (cut_eq (b # c # s)))"
| "cut_eq _ = None"

definition key_char :: "char \<Rightarrow> bool" where
  "key_char c \<longleftrightarrow> (let n = of_char c :: nat in (97 \<le> n \<and> n \<le> 122) \<or> (48 \<le> n \<and> n \<le> 57) \<or> n = 95)"

definition line_body :: "string \<Rightarrow> string" where
  "line_body l = (case strip_prefix ''# '' l of Some t \<Rightarrow> t | None \<Rightarrow> l)"

definition knob_key :: "string \<Rightarrow> string option" where
  "knob_key l =
     (case cut_eq (line_body l) of
        Some k \<Rightarrow> if k \<noteq> [] \<and> list_all key_char k then Some k else None
      | None \<Rightarrow> None)"

fun listed_knobs :: "string \<Rightarrow> string list \<Rightarrow> (string \<times> string) list" where
  "listed_knobs sec [] = []"
| "listed_knobs sec (l # ls) =
     (if l \<noteq> [] \<and> hd l = CHR ''['' then listed_knobs (takeWhile (\<lambda>c. c \<noteq> CHR '']'') (tl l)) ls
      else case knob_key l of
        Some k \<Rightarrow> (sec, k) # listed_knobs sec ls
      | None \<Rightarrow> listed_knobs sec ls)"

lemma current_text: "dec (unat CURRENT) = ''1''"
proof -
  have "digit_char 1 = CHR ''1''" by code_simp
  then show ?thesis by (simp add: CURRENT_def print_uint.simps)
qed

lemma template_lists_every_knob:
  "listed_knobs [] (template_lines show_f32 d) = ([], ''schema_version'') # schema_knobs"
  by (simp add: template_lines_def schema_knobs_def knob_key_def line_body_def strip_prefix_def key_char_def
      debug_str_def current_text)

end
