(* ===== verification/Instance.thy ===== *)
theory Instance
  imports Config_Env Flash Vpd
begin

text \<open>
  An instance's files and the commands that change them: images and Hubris archives
  (\<open>load_image\<close>, \<open>is_archive\<close>, \<open>instance_base\<close>, \<open>stow_archive\<close> in \<open>src/flash.rs\<close>), the
  \<open>flash\<close>, \<open>erase\<close> and \<open>info\<close> commands, the SP's archive and the socket ports it declares
  (\<open>src/main.rs\<close>). Files are a map from paths to bytes, read as text they are taken to be UTF-8, and a directory
  is there when a file below it is written; which paths can be written, what a path
  is called when links are resolved, and the zip and TOML libraries are parameters.
\<close>

section \<open>The file system\<close>

record os =
  os_writable :: "string \<Rightarrow> bool"
  os_canonical :: "files \<Rightarrow> string \<Rightarrow> string option"
  os_zip_entry :: "u8 list \<Rightarrow> string \<Rightarrow> u8 list option"

definition text_of :: "u8 list \<Rightarrow> string" where
  "text_of bs = map (\<lambda>b. char_of (unat b)) bs"

definition read_text :: "files \<Rightarrow> string \<Rightarrow> string option" where
  "read_text fs path = map_option text_of (fs path)"

datatype cmd_error =
    Usage
  | Slot slot_error
  | Unreadable string
  | Unwritable string
  | NoEntry string
  | TooShort string nat
  | SlotEmpty char

definition write_file :: "os \<Rightarrow> files \<Rightarrow> string \<Rightarrow> u8 list \<Rightarrow> cmd_error + files" where
  "write_file os fs path bs = (if os_writable os path then Inr (fs(path \<mapsto> bs)) else Inl (Unwritable path))"

lemma text_of_ascii [simp]: "text_of (ascii s) = s"
proof -
  have "char_of (unat (of_char c :: u8)) = c" for c
  proof -
    have "(of_char c :: u8) = of_nat (of_char c)" by (simp add: of_nat_of_char)
    then show ?thesis by (simp add: unat_of_nat of_char_mod_256)
  qed
  then show ?thesis by (induction s) (simp_all add: text_of_def ascii_def)
qed

lemma read_text_written [simp]: "read_text (fs(p \<mapsto> ascii t)) p = Some t"
  by (simp add: read_text_def)

lemma read_text_frame: "fs' p = fs p \<Longrightarrow> read_text fs' p = read_text fs p"
  by (simp add: read_text_def)

section \<open>State kept in a text file\<close>

text \<open>
  The interface of a state file: a printer and a reader that is total (a file that is missing or
  damaged has some meaning), the reader giving back what the printer wrote. A client relies on
  what it reads after a save, and on other files not mattering.
\<close>

locale text_store =
  fixes save :: "'a \<Rightarrow> string"
    and load :: "string option \<Rightarrow> 'a"
    and good :: "'a \<Rightarrow> bool"
  assumes load_save: "good x \<Longrightarrow> load (Some (save x)) = x"
begin

lemma after_save: "good x \<Longrightarrow> load (read_text (fs(p \<mapsto> ascii (save x))) p) = x"
  by (simp add: load_save)

lemma other_file: "p \<noteq> q \<Longrightarrow> load (read_text (fs(q \<mapsto> bs)) p) = load (read_text fs p)"
  by (simp add: read_text_def)

lemma last_save: "good y \<Longrightarrow> load (read_text (fs(p \<mapsto> ascii (save x), p \<mapsto> ascii (save y))) p) = y"
  by (simp add: load_save)

lemma save_inj: "good x \<Longrightarrow> good y \<Longrightarrow> save x = save y \<Longrightarrow> x = y"
  by (metis load_save)

end

interpretation nv: text_store save_nv load_nv "\<lambda>nv. \<forall>a. nv_archive nv = Some a \<longrightarrow> line_value a"
  by unfold_locales (rule load_save_nv, blast)

interpretation rotmeta: text_store save_rot_meta load_rot_meta
    "\<lambda>m. \<forall>a. a \<in> {slot_a_archive m, slot_b_archive m, stage0_archive m} \<longrightarrow> (\<forall>v. a = Some v \<longrightarrow> line_value v)"
  by unfold_locales (rule load_save_rot_meta; blast)

section \<open>Images and archives\<close>

text \<open>The zip magic \<open>PK\<close>.\<close>

definition zip_magic :: "u8 list" where
  "zip_magic = [0x50, 0x4B]"

definition load_image :: "os \<Rightarrow> files \<Rightarrow> string \<Rightarrow> cmd_error + u8 list" where
  "load_image os fs path =
     (case fs path of
        None \<Rightarrow> Inl (Unreadable path)
      | Some raw \<Rightarrow>
          if take 2 raw = zip_magic
          then (case os_zip_entry os raw ''img/final.bin'' of None \<Rightarrow> Inl (NoEntry path) | Some img \<Rightarrow> Inr img)
          else Inr raw)"

definition archive_app_toml :: "os \<Rightarrow> files \<Rightarrow> string \<Rightarrow> string option" where
  "archive_app_toml os fs path =
     (case fs path of
        None \<Rightarrow> None
      | Some raw \<Rightarrow>
          if take 2 raw \<noteq> zip_magic then None
          else map_option text_of (os_zip_entry os raw ''app.toml''))"

definition is_archive :: "files \<Rightarrow> string \<Rightarrow> bool" where
  "is_archive fs path \<longleftrightarrow> (case fs path of None \<Rightarrow> False | Some raw \<Rightarrow> take 2 raw = zip_magic)"

definition instance_base :: "string \<Rightarrow> string" where
  "instance_base flash_path =
     (case path_parent flash_path of
        None \<Rightarrow> ''.''
      | Some p \<Rightarrow> if p = [] then ''.'' else p)"

definition files_identical :: "files \<Rightarrow> string \<Rightarrow> string \<Rightarrow> bool" where
  "files_identical fs a b \<longleftrightarrow>
     (case (fs a, fs b) of
        (Some x, Some y) \<Rightarrow> length x = length y \<and> x = y
      | _ \<Rightarrow> False)"

definition archive_ref :: "string \<Rightarrow> string" where
  "archive_ref name = ''archives/'' @ name @ ''.zip''"

definition stow_archive ::
  "os \<Rightarrow> files \<Rightarrow> string \<Rightarrow> string \<Rightarrow> string \<Rightarrow> (cmd_error + string) \<times> files" where
  "stow_archive os fs flash_path src name =
     (let rel = archive_ref name;
          dst = path_join (instance_base flash_path) rel;
          same_path = (case (os_canonical os fs src, os_canonical os fs dst) of
                         (Some a, Some b) \<Rightarrow> a = b
                       | _ \<Rightarrow> False)
      in if same_path \<or> files_identical fs src dst then (Inr rel, fs)
         else case fs src of
           None \<Rightarrow> (Inl (Unreadable src), fs)
         | Some bs \<Rightarrow>
             (case write_file os fs dst bs of
                Inl e \<Rightarrow> (Inl e, fs)
              | Inr fs' \<Rightarrow> (Inr rel, fs')))"

definition nv_state_path :: "string \<Rightarrow> string" where
  "nv_state_path flash_path = flash_path @ ''.nv''"

definition nv_of :: "files \<Rightarrow> string \<Rightarrow> nv_state" where
  "nv_of fs path = load_nv (read_text fs (nv_state_path path))"

lemma nv_state_path_neq [simp]: "nv_state_path p \<noteq> p" "p \<noteq> nv_state_path p"
  by (simp_all add: nv_state_path_def)

lemma nv_of_frame: "fs' (nv_state_path p) = fs (nv_state_path p) \<Longrightarrow> nv_of fs' p = nv_of fs p"
  by (simp add: nv_of_def read_text_def)

section \<open>The commands\<close>

definition slot_arg :: "string \<Rightarrow> slot_error + char" where
  "slot_arg s =
     (let c = (case s of [] \<Rightarrow> CHR ''?'' | c # _ \<Rightarrow> c) in map_sum id (\<lambda>_. c) (slot_offset c))"

definition on_slot :: "slot_error + 'a \<Rightarrow> cmd_error + 'a" where
  "on_slot x = map_sum Slot id x"

definition record_archive :: "os \<Rightarrow> string \<Rightarrow> string \<Rightarrow> files \<Rightarrow> nv_state \<times> files" where
  "record_archive os path src fs =
     (let nv = nv_of fs path in
      if is_archive fs src
      then (case stow_archive os fs path src ''sp'' of
              (Inr rel, fs') \<Rightarrow> (nv\<lparr>nv_archive := Some rel\<rparr>, fs')
            | (Inl _, fs') \<Rightarrow> (nv, fs'))
      else (nv\<lparr>nv_archive := None\<rparr>, fs))"

definition cmd_flash :: "os \<Rightarrow> string \<Rightarrow> string list \<Rightarrow> files \<Rightarrow> (cmd_error + unit) \<times> files" where
  "cmd_flash os path args fs =
     (case args of
        slot_text # src # _ \<Rightarrow>
          (case bind_result (on_slot (slot_arg slot_text)) (\<lambda>slot.
                bind_result (load_image os fs src) (\<lambda>image.
                if length image < 8 then Inl (TooShort src (length image))
                else bind_result (on_slot (program_slot (fs path) slot image)) (write_file os fs path))) of
             Inl e \<Rightarrow> (Inl e, fs)
           | Inr fs1 \<Rightarrow>
               (let (nv, fs2) = record_archive os path src fs1
                in case write_file os fs2 (nv_state_path path) (ascii (save_nv nv)) of
                     Inl e \<Rightarrow> (Inl e, fs2)
                   | Inr fs3 \<Rightarrow> (Inr (), fs3)))
      | _ \<Rightarrow> (Inl Usage, fs))"

definition cmd_erase :: "os \<Rightarrow> string \<Rightarrow> string list \<Rightarrow> files \<Rightarrow> (cmd_error + unit) \<times> files" where
  "cmd_erase os path args fs =
     (case args of
        [] \<Rightarrow> (Inl Usage, fs)
      | slot_text # _ \<Rightarrow>
          (case bind_result (on_slot (slot_arg slot_text)) (\<lambda>slot.
                bind_result (on_slot (erase_slot (fs path) slot)) (write_file os fs path)) of
             Inl e \<Rightarrow> (Inl e, fs)
           | Inr fs1 \<Rightarrow> (Inr (), fs1)))"

text \<open>What \<open>info\<close> reports of each slot: its stack pointer and reset vector when programmed.\<close>

definition slot_info :: "u8 list \<Rightarrow> char \<Rightarrow> (u32 \<times> u32) option" where
  "slot_info nvm slot =
     (case (slot_programmed nvm slot, slot_offset slot) of
        (Inr True, Inr off) \<Rightarrow>
          Some (le32 (nvm ! off) (nvm ! (off + 1)) (nvm ! (off + 2)) (nvm ! (off + 3)),
                le32 (nvm ! (off + 4)) (nvm ! (off + 5)) (nvm ! (off + 6)) (nvm ! (off + 7)) AND NOT 1)
      | _ \<Rightarrow> None)"

definition cmd_info :: "string \<Rightarrow> files \<Rightarrow> (u32 \<times> u32) option list" where
  "cmd_info path fs = map (slot_info (load_nvm (fs path))) [CHR ''a'', CHR ''b'']"

section \<open>The SP's archive and its sockets\<close>

definition nvm_path :: "resolved \<Rightarrow> (string \<Rightarrow> string option) \<Rightarrow> string \<Rightarrow> string" where
  "nvm_path rs env temp_dir =
     instance_file rs env temp_dir ''SP_EMU_FLASH'' (cfg_flash_path (rs_config rs))"

definition rot_nvm_path :: "resolved \<Rightarrow> (string \<Rightarrow> string option) \<Rightarrow> string \<Rightarrow> string" where
  "rot_nvm_path rs env temp_dir =
     instance_file rs env temp_dir ''SP_EMU_ROT_NVM'' (cfg_rot_nvm_path (rs_config rs))"

definition sp_archive :: "config \<Rightarrow> string \<Rightarrow> files \<Rightarrow> string option" where
  "sp_archive cfg path fs =
     (case cfg_archive cfg of
        Some a \<Rightarrow> Some a
      | None \<Rightarrow> map_option (path_join (instance_base path)) (nv_archive (nv_of fs path)))"

text \<open>The ports of an \<open>app.toml\<close> as the TOML library finds them, none when a table is missing.\<close>

definition archive_socket_ports ::
  "os \<Rightarrow> (string \<Rightarrow> int list option) \<Rightarrow> files \<Rightarrow> string \<Rightarrow> u16 list option" where
  "archive_socket_ports os sockets fs archive =
     (case Option.bind (archive_app_toml os fs archive) sockets of
        None \<Rightarrow> None
      | Some ps \<Rightarrow>
          (let ports = sort (map of_int (filter (\<lambda>p. 0 \<le> p \<and> p \<le> 65535) ps))
           in if ports = [] then None else Some ports))"

definition default_socket_ports :: "bool \<Rightarrow> u16 list" where
  "default_socket_ports sidecar = [7, 997, 998, 11111, 11113, 57005] @ (if sidecar then [11112] else [23547])"

definition well_known_ports_of ::
  "os \<Rightarrow> (string \<Rightarrow> int list option) \<Rightarrow> config \<Rightarrow> string \<Rightarrow> files \<Rightarrow> u16 list" where
  "well_known_ports_of os sockets cfg path fs =
     (case Option.bind (sp_archive cfg path fs) (archive_socket_ports os sockets fs) of
        Some ports \<Rightarrow> ports
      | None \<Rightarrow> default_socket_ports (is_sidecar (cfg_board cfg)))"

section \<open>The RoT's archives\<close>

definition stow_region ::
  "os \<Rightarrow> string \<Rightarrow> files \<Rightarrow> string option \<Rightarrow> string \<Rightarrow> string option \<times> files" where
  "stow_region os anchor fs src name =
     (case src of
        None \<Rightarrow> (None, fs)
      | Some s \<Rightarrow>
          if is_archive fs s
          then (case stow_archive os fs anchor s name of
                  (Inr rel, fs') \<Rightarrow> (Some rel, fs')
                | (Inl _, fs') \<Rightarrow> (None, fs'))
          else (None, fs))"

definition record_rot_archives ::
  "os \<Rightarrow> config \<Rightarrow> string option \<Rightarrow> string \<Rightarrow> string \<Rightarrow> string \<Rightarrow> files \<Rightarrow> files" where
  "record_rot_archives os cfg bootleby nvm anchor slot_a fs =
     (let (a, fs1) = stow_region os anchor fs (Some slot_a) ''rot-a'';
          (b, fs2) = stow_region os anchor fs1 (cfg_rot_image_b cfg) ''rot-b'';
          (s, fs3) = stow_region os anchor fs2 bootleby ''stage0'';
          meta = \<lparr>slot_a_archive = a, slot_b_archive = b, stage0_archive = s\<rparr>
      in case write_file os fs3 (nv_state_path nvm) (ascii (save_rot_meta meta)) of
           Inl _ \<Rightarrow> fs3
         | Inr fs4 \<Rightarrow> fs4)"

end
