(* ===== verification/Cli.thy ===== *)
theory Cli
  imports Instance Config_Template
begin

text \<open>
  The command line (\<open>src/main.rs\<close>): the global flags taken out of the arguments, the choice of
  the subcommand, the \<open>config\<close> tool, the plan of a \<open>run\<close> or \<open>gdb\<close> (which slot, how long, serve
  or batch), the choice of the RoT's side and of the host backend. Carrying the plan out is the
  subject of the machine's theories.
\<close>

section \<open>Flags\<close>

definition flag_matches :: "string \<Rightarrow> string \<Rightarrow> bool" where
  "flag_matches flag a \<longleftrightarrow> a = flag \<or> strip_prefix (flag @ ''='') a \<noteq> None"

definition extract_flag_value :: "string list \<Rightarrow> string \<Rightarrow> string option \<times> string list" where
  "extract_flag_value args flag =
     (let before = takeWhile (\<lambda>a. \<not> flag_matches flag a) args in
      case dropWhile (\<lambda>a. \<not> flag_matches flag a) args of
        [] \<Rightarrow> (None, args)
      | arg # after \<Rightarrow>
          (case strip_prefix (flag @ ''='') arg of
             Some v \<Rightarrow> (Some v, before @ after)
           | None \<Rightarrow>
               (case after of
                  v # rest \<Rightarrow> (Some v, before @ rest)
                | [] \<Rightarrow> (None, before))))"

datatype startup =
    PrintVersion
  | ConfigTool "string list"
  | Start "string option" "string option" "string option" "string list"

definition main_args :: "string list \<Rightarrow> startup" where
  "main_args args =
     (if \<exists>a \<in> set args. a = ''--version'' \<or> a = ''-V'' then PrintVersion
      else if args \<noteq> [] \<and> hd args = ''config'' then ConfigTool (tl args)
      else
        (let (seed, args1) = extract_flag_value args ''--seed'';
             (load_path, args2) = extract_flag_value args1 ''--load-config'';
             (dump_path, args3) = extract_flag_value args2 ''--dump-config''
         in Start seed load_path dump_path args3))"

section \<open>The subcommand\<close>

datatype subcommand =
    Cmd_flash | Cmd_erase | Cmd_info | Cmd_run | Cmd_gdb | Cmd_rot | Cmd_rot_serve | Cmd_pack
  | Cmd_unpack | Cmd_i2c_sniff | Cmd_i2c_device | Cmd_image string | Cmd_usage

text \<open>The first argument, or the configuration's mode; an error is a mode that cannot be run.\<close>

definition choose_cmd :: "config \<Rightarrow> string list \<Rightarrow> string + string option" where
  "choose_cmd cfg args =
     (case args of
        c # _ \<Rightarrow> Inr (Some c)
      | [] \<Rightarrow>
          (case cfg_mode cfg of
             None \<Rightarrow> Inr None
           | Some m \<Rightarrow> if m = ''run'' \<or> m = ''gdb'' then Inr (Some m) else Inl m))"

definition subcommands :: "(string \<times> subcommand) list" where
  "subcommands =
     [(''flash'', Cmd_flash), (''erase'', Cmd_erase), (''info'', Cmd_info), (''run'', Cmd_run),
      (''gdb'', Cmd_gdb), (''rot'', Cmd_rot), (''rot-serve'', Cmd_rot_serve), (''pack'', Cmd_pack),
      (''unpack'', Cmd_unpack), (''i2c-sniff'', Cmd_i2c_sniff), (''i2c-device'', Cmd_i2c_device)]"

definition subcommand_of :: "(string \<Rightarrow> bool) \<Rightarrow> string option \<Rightarrow> subcommand" where
  "subcommand_of exists cmd =
     (case cmd of
        None \<Rightarrow> Cmd_usage
      | Some c \<Rightarrow>
          (case map_of subcommands c of
             Some k \<Rightarrow> k
           | None \<Rightarrow> if exists c then Cmd_image c else Cmd_usage))"

definition uses_instance_state :: "string option \<Rightarrow> bool" where
  "uses_instance_state cmd \<longleftrightarrow>
     cmd \<in> Some ` {''flash'', ''erase'', ''info'', ''run'', ''gdb'', ''rot'', ''rot-serve'', ''pack''}"

text \<open>The default listen address of the two I2C servers, and a flat image's budget.\<close>

definition listen_addr :: "string list \<Rightarrow> string" where
  "listen_addr sub_args = (case sub_args of [] \<Rightarrow> ''[::1]:9100'' | a # _ \<Rightarrow> a)"

definition image_budget :: "string list \<Rightarrow> u64" where
  "image_budget sub_args =
     (case sub_args of [] \<Rightarrow> 5000000 | a # _ \<Rightarrow> or_default 5000000 (parse_u64 a))"

section \<open>Running\<close>

record run_args =
  ra_slot :: char
  ra_slot_given :: bool
  ra_max :: u64
  ra_max_given :: bool

definition run_arg :: "run_args \<Rightarrow> string \<Rightarrow> run_args" where
  "run_arg ra a =
     (case slot_arg a of
        Inr c \<Rightarrow> ra\<lparr>ra_slot := c, ra_slot_given := True\<rparr>
      | Inl _ \<Rightarrow>
          (case parse_u64 a of
             Some n \<Rightarrow> ra\<lparr>ra_max := n, ra_max_given := True\<rparr>
           | None \<Rightarrow> ra))"

definition parse_run_args :: "u64 \<Rightarrow> string list \<Rightarrow> run_args" where
  "parse_run_args budget args =
     foldl run_arg \<lparr>ra_slot = CHR ''a'', ra_slot_given = False, ra_max = budget, ra_max_given = False\<rparr> args"

definition slot_from_config :: "config \<Rightarrow> run_args \<Rightarrow> slot_error + run_args" where
  "slot_from_config cfg ra =
     (case (ra_slot_given ra, cfg_boot_slot cfg) of
        (False, Some s) \<Rightarrow> map_sum id (\<lambda>c. ra\<lparr>ra_slot := c, ra_slot_given := True\<rparr>) (slot_arg s)
      | _ \<Rightarrow> Inr ra)"

datatype run_plan =
    Serve_forever char bool u64
  | Batch char bool u64

definition cmd_run :: "config \<Rightarrow> string list \<Rightarrow> slot_error + run_plan" where
  "cmd_run cfg args =
     bind_result (slot_from_config cfg (parse_run_args 5000000 args)) (\<lambda>ra.
       let max = (if ra_max_given ra then ra_max ra else or_default (ra_max ra) (cfg_run_max cfg))
       in Inr (if max = 0 then Serve_forever (ra_slot ra) (ra_slot_given ra) 0
               else Batch (ra_slot ra) (ra_slot_given ra) max))"

definition cmd_gdb :: "config \<Rightarrow> string list \<Rightarrow> slot_error + run_plan" where
  "cmd_gdb cfg args =
     bind_result (slot_from_config cfg (parse_run_args 3000000 args)) (\<lambda>ra.
       Inr (Serve_forever (ra_slot ra) (ra_slot_given ra) (ra_max ra)))"

text \<open>The bank that boots, and the swap handed to the machine; an empty slot is refused.\<close>

definition swap_override :: "char \<Rightarrow> bool \<Rightarrow> bool option" where
  "swap_override slot slot_given = (if slot_given then Some (slot = CHR ''b'') else None)"

definition boot_slot :: "bool option \<Rightarrow> nv_state \<Rightarrow> char" where
  "boot_slot override nv = (if or_default (swap_bank nv) override then CHR ''b'' else CHR ''a'')"

definition checked_boot :: "string \<Rightarrow> files \<Rightarrow> char \<Rightarrow> bool \<Rightarrow> cmd_error + (u8 list \<times> bool option)" where
  "checked_boot path fs slot slot_given =
     (let nvm = load_nvm (fs path);
          override = swap_override slot slot_given;
          bs = boot_slot override (nv_of fs path)
      in bind_result (on_slot (slot_programmed nvm bs)) (\<lambda>programmed.
           if \<not> programmed then Inl (SlotEmpty bs) else Inr (nvm, override)))"

text \<open>Serving presents the image in both banks, and picks the RoT's side.\<close>

definition serve_boot :: "string \<Rightarrow> files \<Rightarrow> char \<Rightarrow> bool \<Rightarrow> cmd_error + (u8 list \<times> bool option)" where
  "serve_boot path fs slot slot_given =
     map_sum id (\<lambda>(nvm, override). (mirror_unprogrammed_slot nvm, override)) (checked_boot path fs slot slot_given)"

record rot_side =
  rot_sprot :: bool
  rot_swd :: bool
  rot_core_image :: "string option"
  rot_client :: "string option"

definition serve_rot :: "config \<Rightarrow> rot_side" where
  "serve_rot cfg =
     \<lparr>rot_sprot = (cfg_rot_service cfg \<noteq> None \<or> cfg_rot_flash cfg \<noteq> None),
      rot_swd = (cfg_rot_flash cfg \<noteq> None),
      rot_core_image =
        (case (cfg_rot_service cfg, cfg_rot_flash cfg) of (None, Some p) \<Rightarrow> Some p | _ \<Rightarrow> None),
      rot_client = cfg_rot_service cfg\<rparr>"

section \<open>The host backend\<close>

datatype 'ip host_choice =
    Host_stdout
  | Host_bridge string
  | Host_well_known "('ip \<times> u16) list" "u16 list"

definition make_well_known_host ::
  "(string \<Rightarrow> 'ip option) \<Rightarrow> 'ip \<Rightarrow> u16 \<times> u16 \<Rightarrow> config \<Rightarrow> u16 list \<Rightarrow> 'ip host_choice" where
  "make_well_known_host parse_ip localhost vids cfg ports =
     (let addr0 = or_default localhost (Option.bind (cfg_addr0 cfg) parse_ip);
          views = (addr0, fst vids) #
            (case Option.bind (cfg_addr1 cfg) parse_ip of Some a \<Rightarrow> [(a, snd vids)] | None \<Rightarrow> [])
      in Host_well_known views ports)"

definition make_host ::
  "(string \<Rightarrow> 'ip option) \<Rightarrow> 'ip \<Rightarrow> u16 \<times> u16 \<Rightarrow> config \<Rightarrow> u16 list \<Rightarrow> 'ip host_choice" where
  "make_host parse_ip localhost vids cfg ports =
     (if cfg_well_known_ports cfg then make_well_known_host parse_ip localhost vids cfg ports
      else case cfg_bridge cfg of
        Some v \<Rightarrow> Host_bridge (if v = [] \<or> v = ''1'' then ''[::1]:11111'' else v)
      | None \<Rightarrow> Host_stdout)"

section \<open>The config tool\<close>

datatype tool_error =
    ToolUsage
  | ToolRead string
  | ToolWrite string
  | ToolConfig string config_error
  | ToolPanic

datatype tool_output =
    Validated schema_version
  | Printed string
  | Upgraded

definition tool_of :: "string \<Rightarrow> config_error + 'a \<Rightarrow> tool_error + 'a" where
  "tool_of path x = (case x of Inl e \<Rightarrow> Inl (ToolConfig path e) | Inr v \<Rightarrow> Inr v)"

definition read_for_tool :: "files \<Rightarrow> string \<Rightarrow> tool_error + string" where
  "read_for_tool fs path = (case read_text fs path of None \<Rightarrow> Inl (ToolRead path) | Some t \<Rightarrow> Inr t)"

definition upgrade_text ::
  "'d toml_lib \<Rightarrow> (string \<Rightarrow> f32 option) \<Rightarrow> string \<Rightarrow> config_error + string" where
  "upgrade_text T parse_f32 text =
     bind_result (migrate T parse_f32 text) (\<lambda>external.
     bind_result (ingest external) (\<lambda>_.
     to_toml T (external\<lparr>schema_version := Some CURRENT\<rparr>)))"

text \<open>
  Printing a 32-bit float is the parameter \<open>show_f32\<close>; a template of a refused default would be
  a panic.
\<close>

definition cmd_config ::
  "'d toml_lib \<Rightarrow> (string \<Rightarrow> f32 option) \<Rightarrow> (f32 \<Rightarrow> string) \<Rightarrow> os \<Rightarrow> string list \<Rightarrow> files \<Rightarrow>
   (tool_error + tool_output) \<times> files" where
  "cmd_config T parse_f32 show_f32 os args fs =
     (case args of
        [] \<Rightarrow> (Inl ToolUsage, fs)
      | tool # rest \<Rightarrow>
          if tool = ''validate'' then
            (case rest of
               [] \<Rightarrow> (Inl ToolUsage, fs)
             | path # _ \<Rightarrow>
                 (bind_result (read_for_tool fs path) (\<lambda>text.
                    map_sum id Validated (tool_of path (validate T parse_f32 text))), fs))
          else if tool = ''schema'' then
            (case template show_f32 of None \<Rightarrow> (Inl ToolPanic, fs) | Some text \<Rightarrow> (Inr (Printed text), fs))
          else if tool = ''upgrade'' then
            (case rest of
               [] \<Rightarrow> (Inl ToolUsage, fs)
             | input # outs \<Rightarrow>
                 (case bind_result (read_for_tool fs input) (\<lambda>text. tool_of input (upgrade_text T parse_f32 text)) of
                    Inl e \<Rightarrow> (Inl e, fs)
                  | Inr out_toml \<Rightarrow>
                      (case outs of
                         [] \<Rightarrow> (Inr (Printed out_toml), fs)
                       | out # _ \<Rightarrow>
                           (case write_file os fs out (ascii out_toml) of
                              Inl _ \<Rightarrow> (Inl (ToolWrite out), fs)
                            | Inr fs' \<Rightarrow> (Inr Upgraded, fs')))))
          else (Inl ToolUsage, fs))"

definition describe_version :: "schema_version \<Rightarrow> string" where
  "describe_version v =
     (case v of
        LegacyFlat \<Rightarrow> ''the legacy flat SP_EMU_* format''
      | Known n \<Rightarrow> ''schema v'' @ dec (unat n)
      | Newer n \<Rightarrow> ''schema v'' @ dec (unat n) @ '' (newer than this build)'')"

end
