(* ===== verification/Cli_Props.thy ===== *)
theory Cli_Props
  imports Cli
begin

text \<open>
  What the command line guarantees: a global flag is found wherever it stands, the mode of a
  validated configuration can be run, an empty slot is never booted, an upgraded file keeps its
  configuration, and a flashed archive stays with the instance.
\<close>

section \<open>Flags\<close>

lemma strip_prefix_append [simp]: "strip_prefix p (p @ s) = Some s"
  by (simp add: strip_prefix_def)

lemma strip_prefix_longer: "length s < length p \<Longrightarrow> strip_prefix p s = None"
  by (auto simp: strip_prefix_def)

lemma takeWhile_before: "\<forall>a \<in> set xs. P a \<Longrightarrow> \<not> P y \<Longrightarrow> takeWhile P (xs @ y # ys) = xs"
  by (induction xs) auto

lemma dropWhile_before: "\<forall>a \<in> set xs. P a \<Longrightarrow> \<not> P y \<Longrightarrow> dropWhile P (xs @ y # ys) = y # ys"
  by (induction xs) auto

lemma extract_flag_separate:
  assumes "\<forall>a \<in> set before. \<not> flag_matches flag a"
  shows "extract_flag_value (before @ flag # v # after) flag = (Some v, before @ after)"
proof -
  have "flag_matches flag flag" by (simp add: flag_matches_def)
  then show ?thesis
    using assms takeWhile_before [of before "\<lambda>a. \<not> flag_matches flag a" flag "v # after"]
      dropWhile_before [of before "\<lambda>a. \<not> flag_matches flag a" flag "v # after"]
    by (simp add: extract_flag_value_def strip_prefix_longer)
qed

lemma extract_flag_joined:
  assumes "\<forall>a \<in> set before. \<not> flag_matches flag a"
  shows "extract_flag_value (before @ (flag @ ''='' @ v) # after) flag = (Some v, before @ after)"
proof -
  let ?a = "flag @ ''='' @ v"
  have s: "strip_prefix (flag @ ''='') ?a = Some v" using strip_prefix_append [of "flag @ ''=''" v] by simp
  then have "flag_matches flag ?a" by (simp add: flag_matches_def)
  then show ?thesis
    using assms s takeWhile_before [of before "\<lambda>a. \<not> flag_matches flag a" ?a after]
      dropWhile_before [of before "\<lambda>a. \<not> flag_matches flag a" ?a after]
    by (simp add: extract_flag_value_def)
qed

lemma extract_flag_absent:
  "\<forall>a \<in> set args. \<not> flag_matches flag a \<Longrightarrow> extract_flag_value args flag = (None, args)"
  unfolding extract_flag_value_def by (subst dropWhile_eq_Nil_conv [THEN iffD2]) simp_all

section \<open>The plan of a run\<close>

lemma mode_runs: "config_valid cfg \<Longrightarrow> \<exists>cmd. choose_cmd cfg args = Inr cmd"
  by (auto simp: choose_cmd_def config_valid_def split: list.split)

lemma boots_programmed:
  "checked_boot path fs slot given = Inr (nvm, ov) \<Longrightarrow>
     slot_programmed nvm (boot_slot ov (nv_of fs path)) = Inr True"
  by (cases "slot_programmed (load_nvm (fs path)) (boot_slot (swap_override slot given) (nv_of fs path))")
    (auto simp: checked_boot_def Let_def on_slot_def split: if_splits)

text \<open>
  An upper-case \<open>B\<close> passes for a slot, and the bank it boots is the one of slot A: the override
  is taken from a comparison with the lower-case letter.
\<close>

lemma upper_case_slot_boots_a:
  "slot_arg ''B'' = Inr CHR ''B''" "slot_base CHR ''B'' = slot_base CHR ''b''"
  "boot_slot (swap_override CHR ''B'' True) nv = CHR ''a''"
  "boot_slot (swap_override CHR ''b'' True) nv = CHR ''b''"
  by (simp_all add: slot_arg_def slot_offset_def slot_base_def boot_slot_def swap_override_def)

section \<open>Upgrading a file\<close>

lemma ingest_ignores_version: "ingest (e\<lparr>schema_version := v\<rparr>) = ingest e"
  by (simp add: ingest_def)

text \<open>A form that was serialized is parsed back, and its version with it.\<close>

definition typed_round_trip :: "'d toml_lib \<Rightarrow> bool" where
  "typed_round_trip T \<longleftrightarrow>
     (\<forall>e text. toml_pretty T e = Inr text \<longrightarrow>
        toml_typed T text = Inr e \<and> toml_version T text = Inr (schema_version e))"

lemma tool_of_Inr [simp]: "tool_of path x = Inr v \<longleftrightarrow> x = Inr v"
  by (cases x) (simp_all add: tool_of_def)

lemma read_for_tool_Inr [simp]: "read_for_tool fs path = Inr t \<longleftrightarrow> read_text fs path = Some t"
  by (simp add: read_for_tool_def split: option.split)

lemma to_toml_Inr [simp]: "to_toml T e = Inr text \<longleftrightarrow> toml_pretty T e = Inr text"
  by (simp add: to_toml_def split: sum.split)

lemma upgrade_text_loads:
  assumes "typed_round_trip T" "upgrade_text T pf text = Inr out"
  shows "\<exists>c. load_str T pf text = Inr c \<and> load_str T pf out = Inr c"
proof -
  obtain e c where e: "migrate T pf text = Inr e" "ingest e = Inr c"
      "toml_pretty T (e\<lparr>schema_version := Some CURRENT\<rparr>) = Inr out"
    using assms(2) by (auto simp: upgrade_text_def)
  then have "toml_typed T out = Inr (e\<lparr>schema_version := Some CURRENT\<rparr>)"
    "toml_version T out = Inr (Some CURRENT)"
    using assms(1) by (auto simp: typed_round_trip_def)
  then have "load_str T pf out = Inr c"
    using e(2) by (simp add: load_str_def migrate_def peek_version_def from_toml_def CURRENT_def ingest_ignores_version)
  with e show ?thesis by (simp add: load_str_def)
qed

section \<open>A stowed archive\<close>

text \<open>Two names of one file have one content.\<close>

definition links_resolve :: "os \<Rightarrow> bool" where
  "links_resolve os \<longleftrightarrow>
     (\<forall>fs a b x. os_canonical os fs a = Some x \<and> os_canonical os fs b = Some x \<longrightarrow> fs a = fs b)"

abbreviation stow_path :: "string \<Rightarrow> string \<Rightarrow> string" where
  "stow_path path name \<equiv> path_join (instance_base path) (archive_ref name)"

lemma stow_archive_ok:
  assumes "links_resolve os" "os_writable os (stow_path path name)" "fs src = Some bs"
  obtains fs' where "stow_archive os fs path src name = (Inr (archive_ref name), fs')"
    "fs' (stow_path path name) = Some bs" "\<forall>p. p \<noteq> stow_path path name \<longrightarrow> fs' p = fs p"
proof (cases "(case (os_canonical os fs src, os_canonical os fs (stow_path path name)) of
      (Some a, Some b) \<Rightarrow> a = b | _ \<Rightarrow> False) \<or> files_identical fs src (stow_path path name)")
  case True
  then consider x where "os_canonical os fs (stow_path path name) = Some x" "os_canonical os fs src = Some x"
    | "files_identical fs src (stow_path path name)"
    by (auto split: option.splits)
  then have "fs (stow_path path name) = fs src"
  proof cases
    case 1
    then show ?thesis using assms(1) unfolding links_resolve_def by blast
  qed (simp add: files_identical_def split: option.splits)
  with True show thesis by (intro that [of fs]) (simp_all add: stow_archive_def Let_def assms(3))
next
  case False
  then have "stow_archive os fs path src name = (Inr (archive_ref name), fs(stow_path path name \<mapsto> bs))"
    by (simp add: stow_archive_def Let_def assms(2,3) write_file_def)
  then show thesis by (rule that) simp_all
qed

lemma stow_archive_again:
  assumes "fs src = Some bs" "fs (stow_path path name) = Some bs"
  shows "stow_archive os fs path src name = (Inr (archive_ref name), fs)"
  using assms by (simp add: stow_archive_def Let_def files_identical_def)

lemma on_slot_simps [simp]: "on_slot (Inr x) = Inr x" "on_slot (Inl e) = Inl (Slot e)"
  by (simp_all add: on_slot_def)

lemma on_slot_Inr [simp]: "on_slot x = Inr y \<longleftrightarrow> x = Inr y"
  by (cases x) (simp_all add: on_slot_def)

lemma write_file_Inr [simp]: "write_file os fs p bs = Inr fs' \<longleftrightarrow> os_writable os p \<and> fs' = fs(p \<mapsto> bs)"
  by (auto simp: write_file_def)

lemma is_archive_frame: "fs' p = fs p \<Longrightarrow> is_archive fs' p = is_archive fs p"
  by (simp add: is_archive_def)

lemma line_value_ref: "CHR 0x0A \<notin> set name \<Longrightarrow> line_value (archive_ref name)"
  by (simp add: archive_ref_def line_value_def)

section \<open>The RoT's archives\<close>

text \<open>The state file beside the RoT's flash names exactly the archives that were stowed.\<close>

lemma stow_region_ref:
  "fst (stow_region os anchor fs src name) \<in> {None, Some (archive_ref name)}"
  by (auto simp: stow_region_def stow_archive_def Let_def split: option.split sum.split)

lemma recorded_rot_archives:
  assumes "os_writable os (nv_state_path nvm)"
    and "stow_region os anchor fs (Some slot_a) ''rot-a'' = (a, fs1)"
    and "stow_region os anchor fs1 (cfg_rot_image_b cfg) ''rot-b'' = (b, fs2)"
    and "stow_region os anchor fs2 bootleby ''stage0'' = (s, fs3)"
  shows "load_rot_meta (read_text (record_rot_archives os cfg bootleby nvm anchor slot_a fs) (nv_state_path nvm)) =
    \<lparr>slot_a_archive = a, slot_b_archive = b, stage0_archive = s\<rparr>"
proof -
  have refs: "a \<in> {None, Some (archive_ref ''rot-a'')}" "b \<in> {None, Some (archive_ref ''rot-b'')}"
      "s \<in> {None, Some (archive_ref ''stage0'')}"
    using stow_region_ref [of os anchor] assms(2-4) by (metis fst_conv)+
  have "load_rot_meta (read_text (fs3(nv_state_path nvm \<mapsto>
      ascii (save_rot_meta \<lparr>slot_a_archive = a, slot_b_archive = b, stage0_archive = s\<rparr>))) (nv_state_path nvm)) =
    \<lparr>slot_a_archive = a, slot_b_archive = b, stage0_archive = s\<rparr>"
    by (rule rotmeta.after_save) (use refs in \<open>auto simp: line_value_ref\<close>)
  then show ?thesis by (simp add: record_rot_archives_def assms write_file_def)
qed

lemma default_config:
  obtains cfg where "ingest v1_default = Inr cfg" "cfg_archive cfg = None"
proof -
  have "\<exists>cfg. ingest v1_default = Inr cfg \<and> cfg_archive cfg = None"
    by (simp add: ingest_def v1_default_def section_none_defs one_of_def nonempty_def board_of_def rotdump_of_def)
  then show thesis using that by blast
qed

section \<open>A successful \<open>flash\<close>\<close>

lemma record_archive_frame: "q \<noteq> stow_path path ''sp'' \<Longrightarrow> snd (record_archive os path src fs) q = fs q"
  by (auto simp: record_archive_def stow_archive_def Let_def split: sum.splits prod.splits option.splits if_splits)

lemma cmd_flash_ok:
  assumes "cmd_flash os path (slot_text # src # rest) fs = (Inr (), fs')"
  obtains slot img nvm nv fs2 where "slot_arg slot_text = Inr slot" "load_image os fs src = Inr img"
    "8 \<le> length img" "program_slot (fs path) slot img = Inr nvm" "os_writable os path"
    "record_archive os path src (fs(path \<mapsto> nvm)) = (nv, fs2)"
    "fs' = fs2(nv_state_path path \<mapsto> ascii (save_nv nv))"
proof -
  obtain slot img nvm where p: "slot_arg slot_text = Inr slot" "load_image os fs src = Inr img" "8 \<le> length img"
      "program_slot (fs path) slot img = Inr nvm" "os_writable os path"
    and r: "(case record_archive os path src (fs(path \<mapsto> nvm)) of (nv, fs2) \<Rightarrow>
        case write_file os fs2 (nv_state_path path) (ascii (save_nv nv)) of
          Inl e \<Rightarrow> (Inl e, fs2) | Inr fs3 \<Rightarrow> (Inr (), fs3)) = (Inr (), fs')"
    using assms by (auto simp: cmd_flash_def split: sum.splits if_splits)
  obtain nv fs2 where a: "record_archive os path src (fs(path \<mapsto> nvm)) = (nv, fs2)" by (cases "record_archive os path src (fs(path \<mapsto> nvm))")
  with r have "fs' = fs2(nv_state_path path \<mapsto> ascii (save_nv nv))" by (auto split: sum.splits)
  with p a show thesis by (rule that)
qed

section \<open>Properties\<close>

text \<open>
  C20: Flashing a Hubris archive leaves an instance that does not need the archive any more: the image
  is in the slot, a copy of the archive stands under the instance's base, the state file names it
  and keeps the persisted bank swap, and the SP's socket ports are the ones the archive declares.
\<close>

theorem flash_keeps_archive:
  assumes "cmd_flash os path (slot_text # src # rest) fs = (Inr (), fs')"
    and "is_archive fs src" and "src \<noteq> path"
    and "links_resolve os" and "os_writable os (stow_path path ''sp'')"
    and "stow_path path ''sp'' \<notin> {path, nv_state_path path}" and "cfg_archive cfg = None"
  shows "(\<exists>slot img nvm. slot_arg slot_text = Inr slot \<and> load_image os fs src = Inr img \<and>
            program_slot (fs path) slot img = Inr nvm \<and> fs' path = Some nvm) \<and>
    fs' (stow_path path ''sp'') = fs src \<and>
    sp_archive cfg path fs' = Some (stow_path path ''sp'') \<and>
    swap_bank (nv_of fs' path) = swap_bank (nv_of fs path) \<and>
    well_known_ports_of os sockets cfg path fs' =
      (case archive_socket_ports os sockets fs src of
         Some ports \<Rightarrow> ports | None \<Rightarrow> default_socket_ports (is_sidecar (cfg_board cfg)))"
proof -
  let ?d = "stow_path path ''sp''"
  obtain bs where bs: "fs src = Some bs" using assms(2) by (auto simp: is_archive_def split: option.splits)
  obtain slot img nvm nv fs2' where p: "slot_arg slot_text = Inr slot" "load_image os fs src = Inr img"
      "program_slot (fs path) slot img = Inr nvm"
    and r: "record_archive os path src (fs(path \<mapsto> nvm)) = (nv, fs2')"
      "fs' = fs2'(nv_state_path path \<mapsto> ascii (save_nv nv))"
    by (rule cmd_flash_ok [OF assms(1)])
  let ?fs1 = "fs(path \<mapsto> nvm)"
  obtain fs2 where s: "stow_archive os ?fs1 path src ''sp'' = (Inr (archive_ref ''sp''), fs2)"
      "fs2 ?d = Some bs" "\<forall>q. q \<noteq> ?d \<longrightarrow> fs2 q = ?fs1 q"
    using stow_archive_ok [OF assms(4,5), of ?fs1 src bs] bs assms(3) by auto
  let ?nv = "(nv_of fs path)\<lparr>nv_archive := Some (archive_ref ''sp'')\<rparr>"
  have "record_archive os path src ?fs1 = (?nv, fs2)"
    using assms(2,3) s(1) by (simp add: record_archive_def is_archive_def nv_of_frame [of ?fs1 path fs])
  then have f: "fs' = fs2(nv_state_path path \<mapsto> ascii (save_nv ?nv))"
    using r by simp
  have n: "nv_of fs' path = ?nv"
    unfolding f nv_of_def by (rule nv.after_save) (simp add: line_value_ref)
  have d: "fs' ?d = fs src" "fs' path = Some nvm" using assms(6) s(2,3) bs by (auto simp: f)
  have a: "sp_archive cfg path fs' = Some ?d" using assms(7) by (simp add: sp_archive_def n)
  have "archive_socket_ports os sockets fs' ?d = archive_socket_ports os sockets fs src"
    by (simp add: archive_socket_ports_def archive_app_toml_def d)
  with p d a n show ?thesis by (simp add: well_known_ports_of_def)
qed

definition os_example :: os where
  "os_example =
     \<lparr>os_writable = \<lambda>_. True, os_canonical = \<lambda>_ _. None,
      os_zip_entry = \<lambda>_ name. if name = ''img/final.bin'' then Some (replicate 8 0) else None\<rparr>"

lemma stow_path_example: "stow_path ''sp-flash.bin'' ''sp'' = ''./archives/sp.zip''"
  by (simp add: instance_base_def path_parent_simple path_join_def is_absolute_def archive_ref_def)

lemma cmd_flash_example:
  "\<exists>fs'. cmd_flash os_example ''sp-flash.bin'' [''a'', ''sp.zip''] [''sp.zip'' \<mapsto> zip_magic] = (Inr (), fs')"
  by (simp add: cmd_flash_def slot_arg_def slot_offset_def load_image_def zip_magic_def os_example_def
      program_slot_def Let_def record_archive_def is_archive_def write_file_def
      split: prod.split)

theorem flash_keeps_archive_witness:
  "\<exists>cfg fs'. ingest v1_default = Inr cfg \<and>
     cmd_flash os_example ''sp-flash.bin'' [''a'', ''sp.zip''] [''sp.zip'' \<mapsto> zip_magic] = (Inr (), fs') \<and>
     fs' ''./archives/sp.zip'' = Some zip_magic \<and>
     sp_archive cfg ''sp-flash.bin'' fs' = Some ''./archives/sp.zip''"
proof -
  obtain cfg where c: "ingest v1_default = Inr cfg" "cfg_archive cfg = None" by (rule default_config)
  obtain fs' where f: "cmd_flash os_example ''sp-flash.bin'' [''a'', ''sp.zip''] [''sp.zip'' \<mapsto> zip_magic] = (Inr (), fs')"
    using cmd_flash_example by (elim exE)
  have "is_archive [''sp.zip'' \<mapsto> zip_magic] ''sp.zip''" by (simp add: is_archive_def zip_magic_def)
  moreover have "links_resolve os_example" "os_writable os_example p" for p
    by (simp_all add: os_example_def links_resolve_def)
  ultimately have "fs' ''./archives/sp.zip'' = Some zip_magic \<and>
      sp_archive cfg ''sp-flash.bin'' fs' = Some ''./archives/sp.zip''"
    using flash_keeps_archive [OF f, of cfg] c(2) by (simp add: stow_path_example nv_state_path_def)
  with c(1) f show ?thesis by blast
qed

text \<open>
  \<open>config upgrade\<close>: when it reports success, the input was a valid configuration, and the file
  written in the current schema loads to the same configuration, every knob of it. The TOML
  library is assumed to parse back what it serializes.
\<close>

theorem upgrade_keeps_config:
  assumes "cmd_config T pf show os [''upgrade'', input, out] fs = (Inr Upgraded, fs')"
    and "typed_round_trip T"
  shows "\<exists>c. load_config T pf (read_text fs) input = Inr c \<and> load_config T pf (read_text fs') out = Inr c"
proof -
  obtain old out_toml where t: "read_text fs input = Some old" "upgrade_text T pf old = Inr out_toml"
      "fs' = fs(out \<mapsto> ascii out_toml)"
    using assms(1) by (auto simp: cmd_config_def split: sum.splits)
  show ?thesis using upgrade_text_loads [OF assms(2) t(2)] by (simp add: load_config_def t(1,3))
qed

definition toml_upgrade :: "unit toml_lib" where
  "toml_upgrade =
     \<lparr>toml_version = \<lambda>t. Inr (if t = [] then None else Some 1), toml_table = \<lambda>_. Inr [],
      toml_typed = \<lambda>_. Inr (v1_default\<lparr>schema_version := Some 1\<rparr>),
      toml_pretty = \<lambda>e. if e = v1_default\<lparr>schema_version := Some 1\<rparr> then Inr ''v1'' else Inl [],
      toml_show = \<lambda>_. []\<rparr>"

theorem upgrade_keeps_config_witness:
  "\<exists>c fs'. cmd_config toml_upgrade (\<lambda>_. None) (\<lambda>_. []) os_example [''upgrade'', ''old.toml'', ''new.toml'']
       [''old.toml'' \<mapsto> []] = (Inr Upgraded, fs') \<and>
     load_config toml_upgrade (\<lambda>_. None) (read_text [''old.toml'' \<mapsto> []]) ''old.toml'' = Inr c \<and>
     load_config toml_upgrade (\<lambda>_. None) (read_text fs') ''new.toml'' = Inr c"
proof -
  obtain c where "ingest v1_default = Inr c" by (rule default_config)
  moreover have "migrate toml_upgrade (\<lambda>_. None) [] = Inr v1_default"
    by (simp add: migrate_def peek_version_def from_toml_def toml_upgrade_def flat_to_v1_def flat_snoc)
  moreover have "toml_pretty toml_upgrade (v1_default\<lparr>schema_version := Some CURRENT\<rparr>) = Inr ''v1''"
    by (simp add: toml_upgrade_def CURRENT_def)
  ultimately have u: "upgrade_text toml_upgrade (\<lambda>_. None) [] = Inr ''v1''"
    by (auto simp: upgrade_text_def)
  have r: "read_text [''old.toml'' \<mapsto> []] ''old.toml'' = Some []" by (simp add: read_text_def text_of_def)
  have c: "cmd_config toml_upgrade (\<lambda>_. None) (\<lambda>_. []) os_example [''upgrade'', ''old.toml'', ''new.toml'']
       [''old.toml'' \<mapsto> []] = (Inr Upgraded, [''old.toml'' \<mapsto> [], ''new.toml'' \<mapsto> ascii ''v1''])"
    by (simp add: cmd_config_def read_for_tool_def r u tool_of_def write_file_def os_example_def)
  have "typed_round_trip toml_upgrade" by (simp add: typed_round_trip_def toml_upgrade_def)
  then show ?thesis using upgrade_keeps_config [OF c] c by blast
qed

end
