(* ===== verification/Bundle_Props.thy ===== *)
theory Bundle_Props
  imports Bundle Cli_Props Identity
begin

text \<open>
  What a bundle guarantees: \<open>unpack\<close> never writes outside its destination, packing and unpacking
  give every file of the instance back, and the packed configuration sets exactly the knobs that
  were set, with the instance's paths replaced by bundle-relative ones.
\<close>

section \<open>Where unpack writes\<close>

text \<open>
  Walking a path from a directory, given as the stack of its components: empty and \<open>.\<close> pieces
  stay, \<open>..\<close> goes up, any other piece goes down.
\<close>

definition walk_piece :: "string list \<Rightarrow> string \<Rightarrow> string list" where
  "walk_piece st c = (if c = [] \<or> c = ''.'' then st else if c = ''..'' then tl st else c # st)"

definition walk :: "string list \<Rightarrow> string list \<Rightarrow> string list" where
  "walk st cs = foldl walk_piece st cs"

text \<open>A path below a destination: no step of the way to it leaves the destination.\<close>

definition below :: "string \<Rightarrow> string \<Rightarrow> bool" where
  "below dest p \<longleftrightarrow>
     (\<exists>rel. p = path_join dest rel \<and> \<not> is_absolute rel \<and>
        (\<forall>k st. \<exists>down. walk st (take k (pieces rel)) = down @ st))"

lemma walk_down: "''..'' \<notin> set cs \<Longrightarrow> \<exists>down. walk st cs = down @ st"
proof (induction cs rule: rev_induct)
  case (snoc c cs)
  then obtain down where d: "walk st cs = down @ st" by auto
  have "walk st (cs @ [c]) = (if c = [] \<or> c = ''.'' then down else c # down) @ st"
    using snoc.prems d by (auto simp: walk_def walk_piece_def)
  then show ?case by blast
qed (simp add: walk_def)

lemma safe_below: "is_safe_entry name \<Longrightarrow> below dest (path_join dest name)"
  unfolding below_def
  by (rule exI [of _ name])
    (auto simp: is_safe_entry_def is_absolute_def pieces_def intro!: walk_down dest: in_set_takeD)

lemma unpack_entries_below: "snd (unpack_entries os dest xs fs) p = fs p \<or> below dest p"
proof (induction xs arbitrary: fs)
  case (Cons x xs)
  obtain name is_dir data where x: "x = (name, is_dir, data)" by (cases x)
  let ?fs' = "fs(path_join dest name \<mapsto> data)"
  have "is_safe_entry name \<Longrightarrow> ?fs' p = fs p \<or> below dest p" using safe_below [of name dest] by auto
  then show ?case
    using Cons.IH [of fs] Cons.IH [of ?fs'] unfolding x
    by (cases "is_safe_entry name"; cases is_dir; cases "os_writable os (path_join dest name)")
      (auto simp: write_file_def simp del: fun_upd_apply)
qed simp

lemma unpack_entries_safe: "fst (unpack_entries os dest xs fs) = Inr () \<Longrightarrow> x \<in> set xs \<Longrightarrow> is_safe_entry (fst x)"
  by (induction xs arbitrary: fs) (auto simp: write_file_def split: if_splits)

section \<open>Names\<close>

lemma pieces_no_slash: "x \<in> set (pieces p) \<Longrightarrow> CHR ''/'' \<notin> set x"
proof (induction "length p" arbitrary: p rule: less_induct)
  case less
  show ?case
  proof (cases "CHR ''/'' \<in> set p")
    case False
    with less.prems show ?thesis by (simp add: pieces_simple)
  next
    case True
    then obtain a b where p: "p = a @ CHR ''/'' # b" "CHR ''/'' \<notin> set a" by (metis split_list_first)
    with less.prems less.hyps [of b] show ?thesis by (auto simp: pieces_slash)
  qed
qed

lemma strip_back_subset: "set (strip_back ps) \<subseteq> set ps"
proof (induction ps rule: strip_back.induct)
  case (1 ps)
  then show ?case by (subst strip_back.simps) (auto dest: in_set_butlastD)
qed

lemma strip_back_not_Nil: "ps \<noteq> [] \<Longrightarrow> strip_back ps \<noteq> []"
proof (induction ps rule: strip_back.induct)
  case (1 ps)
  then show ?case by (subst strip_back.simps) (cases ps; auto)
qed

lemma file_name_simple: "file_name p = Some n \<Longrightarrow> CHR ''/'' \<notin> set n \<and> n \<notin> {'''', ''..''}"
proof -
  assume a: "file_name p = Some n"
  have "last (strip_back (pieces p)) \<in> set (pieces p)"
    using strip_back_subset strip_back_not_Nil [OF pieces_not_Nil] last_in_set by blast
  with a show ?thesis by (auto simp: file_name_def Let_def dest: pieces_no_slash split: if_splits)
qed

text \<open>The names a directory listing and a path's last component can have.\<close>

definition plain_name :: "string \<Rightarrow> bool" where
  "plain_name n \<longleftrightarrow> CHR ''/'' \<notin> set n \<and> n \<notin> {'''', ''..''}"

lemma safe_archive_name: "plain_name n \<Longrightarrow> is_safe_entry (''archives/'' @ n)"
proof -
  assume n: "plain_name n"
  have "pieces (''archives'' @ CHR ''/'' # n) = [''archives'', n]"
    using n by (subst pieces_slash) (simp_all add: pieces_simple plain_name_def)
  with n show ?thesis by (simp add: is_safe_entry_def pieces_def plain_name_def)
qed

lemma safe_simple: "CHR ''/'' \<notin> set n \<Longrightarrow> n \<notin> {'''', ''..''} \<Longrightarrow> is_safe_entry n"
  using pieces_simple [of n] by (cases n) (auto simp: is_safe_entry_def pieces_def)

lemma path_join_inject:
  "\<not> is_absolute a \<Longrightarrow> \<not> is_absolute b \<Longrightarrow> path_join d a = path_join d b \<longleftrightarrow> a = b"
  by (auto simp: path_join_def)

lemma safe_not_absolute: "is_safe_entry n \<Longrightarrow> \<not> is_absolute n"
  by (simp add: is_safe_entry_def is_absolute_def)

section \<open>Deduplication\<close>

lemma dedup_names_subset: "set (dedup_names xs) \<subseteq> set xs"
  by (induction xs rule: dedup_names.induct) auto

lemma dedup_names_distinct: "sorted (map fst xs) \<Longrightarrow> distinct (map fst (dedup_names xs))"
proof (induction xs rule: dedup_names.induct)
  case (1 x y xs)
  show ?case
  proof (cases "fst x = fst y")
    case True
    with 1 show ?thesis by simp
  next
    case False
    have "fst x < fst y" using 1(3) False by (simp add: order_le_less)
    moreover have "\<forall>z \<in> set (y # xs). fst y \<le> fst z" using 1(3) by auto
    ultimately have "fst x \<notin> fst ` set (dedup_names (y # xs))"
      using dedup_names_subset [of "y # xs"] by (fastforce simp: subset_iff)
    with 1 False show ?thesis by simp
  qed
qed simp_all

section \<open>Packing and unpacking\<close>

lemma push_file_set: "set (foldl (push_file fs) acc xs) = set acc \<union> {x \<in> set xs. fs (snd x) \<noteq> None}"
  by (induction xs arbitrary: acc) (auto simp: push_file_def)

lemma bundle_files_present: "x \<in> set (bundle_files ip fs) \<Longrightarrow> fs (snd x) \<noteq> None"
  using dedup_names_subset unfolding bundle_files_def Let_def
  by (fastforce simp: push_file_set subset_iff)

lemma bundle_files_distinct: "distinct (map fst (bundle_files ip fs))"
  unfolding bundle_files_def Let_def by (rule dedup_names_distinct) simp

lemma bundle_files_from:
  "set (bundle_files ip fs) \<subseteq>
     set (candidate_files ip) \<union> set (stowed_files ip) \<union> set (referenced_files (rs_config (ip_resolved ip)))"
  unfolding bundle_files_def Let_def
  by (rule subset_trans [OF dedup_names_subset]) (auto simp: push_file_set)

lemma bundle_names:
  assumes "\<forall>n \<in> set (ip_archives ip). plain_name n" "x \<in> set (bundle_files ip fs)"
  shows "is_safe_entry (fst x) \<and> fst x \<notin> {''manifest.toml'', ''config.toml''}"
proof -
  consider "x \<in> set (candidate_files ip)" | n where "fst x = ''archives/'' @ n" "plain_name n"
  proof -
    have "\<exists>n. fst x = ''archives/'' @ n \<and> plain_name n" if "x \<in> set (stowed_files ip)"
      using that assms(1) by (auto simp: stowed_files_def)
    moreover have "\<exists>n. fst x = ''archives/'' @ n \<and> plain_name n"
      if "x \<in> set (referenced_files (rs_config (ip_resolved ip)))"
      using that file_name_simple
      by (auto simp: referenced_files_def plain_name_def split: option.splits if_splits)
    ultimately show thesis using that assms(2) bundle_files_from by blast
  qed
  then show ?thesis
    by cases (auto simp: candidate_files_def safe_archive_name [simplified] intro: safe_simple)
qed

lemma unpack_writes:
  assumes "\<forall>x \<in> set xs. is_safe_entry (fst x) \<and> os_writable os (path_join dest (fst x))"
    and "distinct (map fst xs)"
  shows "fst (unpack_entries os dest (map (\<lambda>(n, d). (n, False, d)) xs) fs) = Inr () \<and>
    (\<forall>x \<in> set xs. snd (unpack_entries os dest (map (\<lambda>(n, d). (n, False, d)) xs) fs) (path_join dest (fst x)) = Some (snd x)) \<and>
    (\<forall>p. p \<notin> (\<lambda>x. path_join dest (fst x)) ` set xs \<longrightarrow>
       snd (unpack_entries os dest (map (\<lambda>(n, d). (n, False, d)) xs) fs) p = fs p)"
  using assms
proof (induction xs arbitrary: fs)
  case (Cons x xs)
  obtain n d where x: "x = (n, d)" by (cases x)
  let ?fs' = "fs(path_join dest n \<mapsto> d)"
  have ok: "is_safe_entry n" "os_writable os (path_join dest n)" using Cons.prems(1) by (simp_all add: x)
  have "path_join dest n \<notin> (\<lambda>x. path_join dest (fst x)) ` set xs"
  proof
    assume "path_join dest n \<in> (\<lambda>x. path_join dest (fst x)) ` set xs"
    then obtain y where "y \<in> set xs" "path_join dest n = path_join dest (fst y)" by blast
    moreover from this Cons.prems(1) have "is_safe_entry (fst y)" by simp
    ultimately have "n = fst y" using ok(1) path_join_inject safe_not_absolute by blast
    with \<open>y \<in> set xs\<close> Cons.prems(2) show False by (auto simp: x)
  qed
  moreover have "unpack_entries os dest (map (\<lambda>(n, d). (n, False, d)) (x # xs)) fs =
      unpack_entries os dest (map (\<lambda>(n, d). (n, False, d)) xs) ?fs'"
    by (simp add: x ok write_file_def del: fun_upd_apply)
  moreover have "\<forall>y \<in> set xs. is_safe_entry (fst y) \<and> os_writable os (path_join dest (fst y))" "distinct (map fst xs)"
    using Cons.prems by simp_all
  ultimately show ?case
    using Cons.IH [of ?fs'] by (simp add: x del: fun_upd_apply) (simp add: fun_upd_other)
qed simp

section \<open>The packed configuration\<close>

text \<open>A line of the flat file without its newline.\<close>

definition knob_line :: "string \<times> string \<Rightarrow> string" where
  "knob_line x = fst x @ '' = '' @ CHR 0x22 # escape_toml (snd x) @ [CHR 0x22]"

lemma flat_line_knob: "flat_line x = knob_line x @ [CHR 0x0A]"
  by (simp add: flat_line_def knob_line_def)

definition knob_name :: "string \<Rightarrow> bool" where
  "knob_name n \<longleftrightarrow> n \<noteq> [] \<and> hd n \<noteq> CHR ''#'' \<and> list_all (\<lambda>c. \<not> is_ws c \<and> c \<noteq> CHR ''='') n"

lemma ENV_NAMES_plain: "list_all knob_name ENV_NAMES"
  unfolding ENV_NAMES_def by (simp add: knob_name_def is_ws_def)

lemma knob_name_ENV: "n \<in> set ENV_NAMES \<Longrightarrow> knob_name n"
  using ENV_NAMES_plain by (simp add: list_all_iff)

lemma escape_no_newline: "CHR 0x0A \<notin> set (escape_toml v)"
  unfolding escape_single_pass by (auto simp: esc_def split: if_splits)

lemma knob_line_no_newline: "knob_name (fst x) \<Longrightarrow> CHR 0x0A \<notin> set (knob_line x)"
  by (auto simp: knob_line_def escape_no_newline knob_name_def list_all_iff is_ws_def)

lemma text_lines_knobs:
  "\<forall>x \<in> set xs. knob_name (fst x) \<Longrightarrow> text_lines (concat (map flat_line xs)) = map knob_line xs"
proof (induction xs)
  case (Cons x xs)
  have "strip_cr (knob_line x) = knob_line x" by (simp add: strip_cr_def knob_line_def)
  with Cons show ?case
    using text_lines_line [OF knob_line_no_newline [of x], of "concat (map flat_line xs)"]
    by (simp add: flat_line_knob [of x])
qed simp

lemma trim_knob_line: "knob_name (fst x) \<Longrightarrow> trim (knob_line x) = knob_line x"
  unfolding trim_def
  by (rule trim_by_id) (auto simp: knob_line_def knob_name_def list_all_iff is_ws_def hd_append)

lemma knob_of_line: "knob_name (fst x) \<Longrightarrow> knob_of (knob_line x) = fst x"
proof -
  assume k: "knob_name (fst x)"
  have "takeWhile (\<lambda>c. c \<noteq> CHR ''='') (knob_line x) = fst x @ '' ''"
    using k takeWhile_before [of "fst x @ '' ''" "\<lambda>c. c \<noteq> CHR ''=''" "CHR ''=''"]
    by (simp add: knob_line_def knob_name_def list_all_iff)
  moreover have "trim ([] @ fst x @ '' '') = fst x"
    by (rule trim_wrap) (use k in \<open>auto simp: knob_name_def list_all_iff is_ws_def\<close>)
  ultimately show ?thesis by (simp add: knob_of_def)
qed

lemma kept_knob_line: "knob_name (fst x) \<Longrightarrow> kept_line (knob_line x) \<longleftrightarrow> fst x \<notin> set PATH_KNOBS"
  by (simp add: kept_line_def Let_def trim_knob_line knob_of_line)
    (simp add: knob_line_def knob_name_def hd_append)

lemma flat_header_lines:
  "\<exists>ls. text_lines (flat_header @ rest) = ls @ text_lines rest \<and> filter kept_line ls = []"
proof -
  let ?a = "''# sp-emu configuration (mirrors $SP_EMU_*; the environment overrides it).''"
  let ?b = "''# Load with `--load-config <this file>`; omitted variables use their default.''"
  let ?c = "''# A flag is on by presence -- delete its line to disable it.''"
  have e: "flat_header @ rest = ?a @ CHR 0x0A # ?b @ CHR 0x0A # ?c @ CHR 0x0A # [] @ CHR 0x0A # rest"
    by (simp add: flat_header_def)
  have n: "CHR 0x0A \<notin> set ?a" "CHR 0x0A \<notin> set ?b" "CHR 0x0A \<notin> set ?c" "CHR 0x0A \<notin> set ([] :: string)"
    by simp_all
  have "text_lines (flat_header @ rest) =
      strip_cr ?a # strip_cr ?b # strip_cr ?c # strip_cr [] # text_lines rest"
    unfolding e by (simp only: text_lines_line [OF n(1)] text_lines_line [OF n(2)] text_lines_line [OF n(3)]
        text_lines_line [OF n(4)])
  then have "text_lines (flat_header @ rest) = [strip_cr ?a, strip_cr ?b, strip_cr ?c, strip_cr []] @ text_lines rest"
    by simp
  moreover have "filter kept_line [strip_cr ?a, strip_cr ?b, strip_cr ?c, strip_cr []] = []"
    by (simp add: strip_cr_def kept_line_def trim_def trim_by_def is_ws_def)
  ultimately show ?thesis by blast
qed

lemma map_filter_line:
  "concat (map (\<lambda>l. l @ [CHR 0x0A]) (filter P (map knob_line xs))) =
     concat (map flat_line (filter (\<lambda>x. P (knob_line x)) xs))"
  by (induction xs) (simp_all add: flat_line_knob)

lemma filter_cong_set: "(\<And>x. x \<in> set xs \<Longrightarrow> P x = Q x) \<Longrightarrow> filter P xs = filter Q xs"
  by (rule filter_cong) simp_all

section \<open>Properties\<close>

text \<open>
  C14: Whatever a bundle's entries are called, \<open>unpack\<close> changes no file outside its destination: every
  path it writes is reached from the destination without leaving it at any step of the way.
\<close>

theorem unpack_confined:
  "snd (unpack os zip_entries bundle dest fs) p = fs p \<or> below dest p"
  using unpack_entries_below by (auto simp: unpack_def split: option.split)

lemma pack_entries_plain:
  assumes "out \<notin> snd ` set (bundle_files ip fs)"
  shows "pack_entries zip_part ip out fs =
    (''manifest.toml'', ascii (build_manifest ip fs)) # (''config.toml'', ascii (rewritten_config ip fs)) #
    map (\<lambda>(rel, src). (rel, the (fs src))) (bundle_files ip fs)"
proof -
  have "foldl (\<lambda>es (rel, src). es @ [(rel, if src = out then zip_part es else the (fs src))]) es xs =
      es @ map (\<lambda>(rel, src). (rel, the (fs src))) xs" if "out \<notin> snd ` set xs" for es xs
    using that by (induction xs arbitrary: es) auto
  from this [OF assms] show ?thesis by (simp add: pack_entries_def)
qed

text \<open>
  C12: A packed instance that is unpacked anywhere has every file it was packed with, under the
  bundle's names, byte for byte, the manifest and the configuration written by \<open>pack\<close> with them.
  The output is not one of the files packed. The zip library is assumed to read back the entries it wrote, and a directory listing to hold
  names of one component.
\<close>

theorem bundle_round_trip:
  assumes "pack os zip_part zip_bytes ip out fs = Inr fs1"
    and "zip_entries (zip_bytes (pack_entries zip_part ip out fs)) =
      Some (map (\<lambda>(n, d). (n, False, d)) (pack_entries zip_part ip out fs))"
    and "out \<notin> snd ` set (bundle_files ip fs)"
    and "\<forall>n \<in> set (ip_archives ip). plain_name n" and "\<forall>rel. os_writable os (path_join dest rel)"
  shows "\<exists>fs2. unpack os zip_entries out dest fs1 = (Inr (), fs2) \<and>
    (\<forall>x \<in> set (bundle_files ip fs). fs2 (path_join dest (fst x)) = fs (snd x)) \<and>
    fs2 (path_join dest ''config.toml'') = Some (ascii (rewritten_config ip fs)) \<and>
    fs2 (path_join dest ''manifest.toml'') = Some (ascii (build_manifest ip fs))"
proof -
  let ?es = "pack_entries zip_part ip out fs"
  note es = pack_entries_plain [OF assms(3), of zip_part]
  let ?u = "unpack_entries os dest (map (\<lambda>(n, d). (n, False, d)) ?es) fs1"
  have names: "is_safe_entry (fst x) \<and> fst x \<notin> {''manifest.toml'', ''config.toml''}"
    if "x \<in> set (bundle_files ip fs)" for x
    using bundle_names [OF assms(4) that] .
  have "map fst ?es = [''manifest.toml'', ''config.toml''] @ map fst (bundle_files ip fs)"
    by (simp add: es case_prod_unfold comp_def)
  then have d: "distinct (map fst ?es)" using bundle_files_distinct [of ip fs] names by fastforce
  have s: "\<forall>x \<in> set ?es. is_safe_entry (fst x) \<and> os_writable os (path_join dest (fst x))"
    using names assms(5) safe_simple [of "''manifest.toml''"] safe_simple [of "''config.toml''"]
    by (auto simp: es)
  have f: "fs1 out = Some (zip_bytes ?es)" using assms(1) by (auto simp: pack_def)
  have u: "unpack os zip_entries out dest fs1 = ?u" by (simp add: unpack_def f assms(2))
  have w: "fst ?u = Inr ()" "x \<in> set ?es \<Longrightarrow> snd ?u (path_join dest (fst x)) = Some (snd x)" for x
    using unpack_writes [OF s d, of fs1] by blast+
  have "snd ?u (path_join dest (fst x)) = fs (snd x)" if "x \<in> set (bundle_files ip fs)" for x
  proof -
    have "(fst x, the (fs (snd x))) \<in> set ?es"
      using that by (auto simp: es case_prod_unfold intro: rev_image_eqI)
    from w(2) [OF this] show ?thesis using bundle_files_present [OF that] by auto
  qed
  moreover have "snd ?u (path_join dest ''config.toml'') = Some (ascii (rewritten_config ip fs))"
    "snd ?u (path_join dest ''manifest.toml'') = Some (ascii (build_manifest ip fs))"
    using w(2) [of "(''config.toml'', ascii (rewritten_config ip fs))"]
      w(2) [of "(''manifest.toml'', ascii (build_manifest ip fs))"] by (simp_all add: es)
  ultimately show ?thesis using w(1) by (intro exI [of _ "snd ?u"]) (simp add: u prod_eq_iff)
qed

definition instance_example :: "config \<Rightarrow> instance_paths" where
  "instance_example cfg =
     \<lparr>ip_resolved = \<lparr>rs_config = cfg, rs_inputs = lookup_inputs env_example\<rparr>, ip_sp_flash = ''/i/sp-flash.bin'',
      ip_identity = ''/i/sp-emu-identity'', ip_rot_nvm = ''/i/sp-rot-flash.bin'', ip_archives = [''sp.zip'']\<rparr>"

theorem bundle_round_trip_witness:
  "\<exists>cfg fs1 fs2. ingest v1_default = Inr cfg \<and>
     pack os_example (\<lambda>_. []) (\<lambda>_. []) (instance_example cfg) ''b.zip'' [''/i/sp-flash.bin'' \<mapsto> [1]] = Inr fs1 \<and>
     unpack os_example
       (\<lambda>_. Some (map (\<lambda>(n, d). (n, False, d)) (pack_entries (\<lambda>_. []) (instance_example cfg) ''b.zip''
         [''/i/sp-flash.bin'' \<mapsto> [1]])))
       ''b.zip'' ''out'' fs1 = (Inr (), fs2) \<and>
     (\<forall>x \<in> set (bundle_files (instance_example cfg) [''/i/sp-flash.bin'' \<mapsto> [1]]).
        fs2 (path_join ''out'' (fst x)) = [''/i/sp-flash.bin'' \<mapsto> [1]] (snd x))"
proof -
  obtain cfg where c: "ingest v1_default = Inr cfg" by (rule default_config)
  let ?fs = "[''/i/sp-flash.bin'' \<mapsto> [1]] :: files" and ?ip = "instance_example cfg"
  have p: "pack os_example (\<lambda>_. []) (\<lambda>_. []) ?ip ''b.zip'' ?fs = Inr (?fs(''b.zip'' \<mapsto> []))"
    by (simp add: pack_def os_example_def)
  have "\<forall>n \<in> set (ip_archives ?ip). plain_name n" "\<forall>rel. os_writable os_example (path_join ''out'' rel)"
    by (simp_all add: instance_example_def plain_name_def os_example_def)
  moreover have "''b.zip'' \<notin> snd ` set (bundle_files ?ip ?fs)"
    using bundle_files_present [of _ ?ip ?fs] by force
  ultimately show ?thesis using c p
    bundle_round_trip [OF p, where zip_entries =
      "\<lambda>_. Some (map (\<lambda>(n, d). (n, False, d)) (pack_entries (\<lambda>_. []) (instance_example cfg) ''b.zip'' ?fs))"] by blast
qed

text \<open>
  The packed configuration is, line for line, the knobs that were set other than the instance's
  paths, followed by the bundle-relative paths of what is in the bundle.
\<close>

theorem packed_config_sets:
  assumes "rs_inputs (ip_resolved ip) = lookup_inputs env"
  shows "rewritten_config ip fs = bundle_header @ concat (map flat_line
    (filter (\<lambda>x. fst x \<notin> set PATH_KNOBS) (persisted (lookup_inputs env)) @ relative_sets ip fs))"
proof -
  let ?ps = "persisted (lookup_inputs env)"
  have k: "knob_name (fst x)" if "x \<in> set ?ps" for x
    using that by (auto simp: persisted_def lookup_inputs_def List.map_filter_def intro!: knob_name_ENV)
  obtain ls where ls: "text_lines (flat_toml (lookup_inputs env)) = ls @ map knob_line ?ps" "filter kept_line ls = []"
    using flat_header_lines [of "concat (map flat_line ?ps)"] text_lines_knobs [of ?ps] k
    by (auto simp: flat_toml_def)
  have "filter (\<lambda>x. kept_line (knob_line x)) ?ps = filter (\<lambda>x. fst x \<notin> set PATH_KNOBS) ?ps"
    by (rule filter_cong_set) (simp add: kept_knob_line k)
  then show ?thesis by (simp add: rewritten_config_def assms ls map_filter_line)
qed

theorem packed_config_sets_witness:
  "\<exists>cfg. ingest v1_default = Inr cfg \<and>
     rewritten_config (instance_example cfg) Map.empty = bundle_header @ concat (map flat_line
       (filter (\<lambda>x. fst x \<notin> set PATH_KNOBS) (persisted (lookup_inputs env_example)) @
        relative_sets (instance_example cfg) Map.empty))"
proof -
  obtain cfg where c: "ingest v1_default = Inr cfg" by (rule default_config)
  have "rs_inputs (ip_resolved (instance_example cfg)) = lookup_inputs env_example"
    by (simp add: instance_example_def)
  from packed_config_sets [OF this, of Map.empty] c show ?thesis by blast
qed

section \<open>What a bundle leaves out\<close>

text \<open>
  The path of the NMPA page is no path knob: the packed configuration keeps the path it had on
  the machine that packed it.
\<close>

lemma nmpa_not_rewritten:
  "''SP_EMU_ROT_NMPA'' \<in> set ENV_NAMES" "''SP_EMU_ROT_NMPA'' \<notin> set PATH_KNOBS"
  by (simp_all add: ENV_NAMES_def PATH_KNOBS_def)

text \<open>
  An instance without a RoT flash file yet is packed without \<open>SP_EMU_ROT_NVM\<close>, so the bundle is
  run against the RoT flash of the state directory of whoever runs it.
\<close>

lemma no_rot_nvm_not_set:
  "fs (ip_rot_nvm ip) = None \<Longrightarrow> ''SP_EMU_ROT_NVM'' \<notin> fst ` set (relative_sets ip fs)"
  by (auto simp: relative_sets_def Let_def opt_set_def split: option.splits if_splits)

end
