(* ===== verification/Boot_Props.thy ===== *)
theory Boot_Props
  imports Cli_Props Startup
begin

text \<open>
  From the command line to the running machine: how \<open>run\<close> brings the SP up from the instance's
  files (\<open>serve_forever\<close> and \<open>setup\<close> in \<open>src/main.rs\<close>), that the image \<open>flash\<close> programmed is the one
  that boots, and what starting leaves in the flash file.
\<close>

unbundle bit_operations_syntax

section \<open>Starting\<close>

text \<open>
  \<open>setup\<close> on the image and the slot that were chosen: the flash model is built on the instance's
  flash file, whose opening succeeds or not (\<open>file_ok\<close>), and on its state file.
\<close>

definition setup_machine ::
  "board \<Rightarrow> link option \<Rightarrow> config \<Rightarrow> string \<Rightarrow> files \<Rightarrow> bool \<Rightarrow> (nat \<Rightarrow> nat \<Rightarrow> bool) \<Rightarrow> bool \<Rightarrow>
   u8 list \<Rightarrow> bool option \<Rightarrow> machine" where
  "setup_machine k l cfg path fs file_ok write_ok nv_ok img override =
     sp_setup k l (cfg_rot_measure cfg) override
       (flash_new img (nv_of fs path) file_ok (read_text fs (nv_state_path path)) write_ok nv_ok)"

definition start_serving ::
  "board \<Rightarrow> link option \<Rightarrow> config \<Rightarrow> string \<Rightarrow> files \<Rightarrow> bool \<Rightarrow> (nat \<Rightarrow> nat \<Rightarrow> bool) \<Rightarrow> bool \<Rightarrow>
   char \<Rightarrow> bool \<Rightarrow> cmd_error + machine" where
  "start_serving k l cfg path fs file_ok write_ok nv_ok slot slot_given =
     map_sum id (\<lambda>(nvm, override). setup_machine k l cfg path fs file_ok write_ok nv_ok nvm override)
       (serve_boot path fs slot slot_given)"

definition start_batch ::
  "board \<Rightarrow> link option \<Rightarrow> config \<Rightarrow> string \<Rightarrow> files \<Rightarrow> bool \<Rightarrow> (nat \<Rightarrow> nat \<Rightarrow> bool) \<Rightarrow> bool \<Rightarrow>
   char \<Rightarrow> bool \<Rightarrow> cmd_error + machine" where
  "start_batch k l cfg path fs file_ok write_ok nv_ok slot slot_given =
     map_sum id (\<lambda>(nvm, override). setup_machine k l cfg path fs file_ok write_ok nv_ok nvm override)
       (checked_boot path fs slot slot_given)"

text \<open>\<open>sp-emu <image> [max]\<close>: a flat image in the place of the instance's flash.\<close>

definition start_image ::
  "board \<Rightarrow> link option \<Rightarrow> config \<Rightarrow> string \<Rightarrow> files \<Rightarrow> bool \<Rightarrow> (nat \<Rightarrow> nat \<Rightarrow> bool) \<Rightarrow> bool \<Rightarrow>
   string \<Rightarrow> cmd_error + machine" where
  "start_image k l cfg path fs file_ok write_ok nv_ok image_path =
     (case fs image_path of
        None \<Rightarrow> Inl (Unreadable image_path)
      | Some img \<Rightarrow> Inr (setup_machine k l cfg path fs file_ok write_ok nv_ok img (Some False)))"

section \<open>The machine that was set up\<close>

definition vector :: "u8 list \<Rightarrow> nat \<Rightarrow> u32" where
  "vector img k = le32 (img ! k) (img ! (k + 1)) (img ! (k + 2)) (img ! (k + 3))"

lemma vector_at:
  assumes "\<And>i. i < n \<Longrightarrow> xs ! (off + i) = ys ! i" "k + 4 \<le> n"
  shows "vector xs (off + k) = vector ys k"
  using assms(1) [of k] assms(1) [of "k + 1"] assms(1) [of "k + 2"] assms(1) [of "k + 3"] assms(2)
  by (simp add: vector_def add.assoc)

lemma token_keeps_flash:
  assumes "sp_flash b = Some f" "ram_ok b 0x20000000 4"
  shows "sp_flash (deposit_skip_token m b) = Some f"
  using assms by (simp add: deposit_skip_token_def write32_ram ram_store_def ram_put_def rec_write_def Let_def split: option.split)

lemma sp_setup_flash:
  assumes "f1 = (case ov of Some s \<Rightarrow> force_swap f s | None \<Rightarrow> f)"
  shows "sp_flash (snd (sp_setup k l m ov f)) = Some f1"
    and "r (fst (sp_setup k l m ov f)) 13 = read_mem32 f1 0x08000000"
    and "pc (fst (sp_setup k l m ov f)) = read_mem32 f1 0x08000004 AND NOT 1"
proof -
  let ?b = "sp_board k l (Some f1)"
  have rd: "read32 ?b 0x08000000 = (read_mem32 f1 0x08000000, ?b)" "read32 ?b 0x08000004 = (read_mem32 f1 0x08000004, ?b)"
    by (simp_all add: read32_def fold_addr_def in_range_def sp_board_def)
  have s: "sp_setup k l m ov f =
      (cpu_reset cpu_new (read_mem32 f1 0x08000000) (read_mem32 f1 0x08000004 AND NOT 1), deposit_skip_token m ?b)"
    unfolding sp_setup_def assms [symmetric] by (simp add: rd)
  have "ram_ok ?b 0x20000000 4"
    by (simp add: ram_ok_def sp_board_def install_peripherals_def install_memory_def add_ram_def bus_new_def
        fold_addr_def intercepted_def in_range_def ram_for_def ram_in_bounds_def)
  then have "sp_flash (deposit_skip_token m ?b) = Some f1"
    by (intro token_keeps_flash) (simp_all add: sp_board_def)
  then show "sp_flash (snd (sp_setup k l m ov f)) = Some f1" by (simp add: s)
  show "r (fst (sp_setup k l m ov f)) 13 = read_mem32 f1 0x08000000"
    by (simp add: s cpu_reset_def set_r_def)
  show "pc (fst (sp_setup k l m ov f)) = read_mem32 f1 0x08000004 AND NOT 1" by (simp add: s cpu_reset_def)
qed

section \<open>Slots of an image\<close>

lemma length_load_nvm [simp]: "length (load_nvm file) = TOTAL"
  by (simp add: load_nvm_def split: option.split)

lemma program_slot_holds:
  assumes "program_slot file slot img = Inr nvm" "slot_offset slot = Inr off"
  shows "length nvm = TOTAL \<and> length img \<le> BANK_SIZE \<and> (\<forall>i < length img. nvm ! (off + i) = img ! i)"
proof -
  have "off = 0 \<or> off = BANK_SIZE" using assms(2) by (auto simp: slot_offset_def split: if_splits)
  then show ?thesis
    using assms by (auto simp: program_slot_def Let_def nth_append split: if_splits)
qed

lemma slot_programmed_vector:
  "slot_offset slot = Inr off \<Longrightarrow>
     slot_programmed nvm slot = Inr (vector nvm off \<noteq> 0xFFFFFFFF \<and> 0x20000000 \<le> vector nvm off \<and> vector nvm off < 0x40000000)"
  by (simp add: slot_programmed_def vector_def Let_def)

text \<open>Mirroring leaves a programmed slot as it is.\<close>

lemma mirror_keeps_programmed:
  assumes "slot_programmed nvm slot = Inr True" "slot_offset slot = Inr off" "length nvm = TOTAL" "i < BANK_SIZE"
  shows "mirror_unprogrammed_slot nvm ! (off + i) = nvm ! (off + i)"
proof -
  consider "slot_programmed nvm slot = slot_programmed nvm CHR ''a''" "off = 0"
    | "slot_programmed nvm slot = slot_programmed nvm CHR ''b''" "off = BANK_SIZE"
    using assms(2) by (auto simp: slot_offset_def slot_programmed_def split: if_splits)
  then show ?thesis
    using assms by cases (simp_all add: mirror_unprogrammed_slot_def Let_def nth_append split: sum.splits)
qed

lemma length_mirror: "length nvm = TOTAL \<Longrightarrow> length (mirror_unprogrammed_slot nvm) = TOTAL"
  by (simp add: mirror_unprogrammed_slot_def Let_def)

text \<open>The boot aperture of a machine set up on an image, bank by bank.\<close>

lemma setup_aperture:
  assumes "length img = TOTAL" "slot \<in> {CHR ''a'', CHR ''b''}" "slot_offset slot = Inr off" "i < BANK_SIZE"
  shows "aperture (force_swap (flash_new img nv ok txt w nok) (slot = CHR ''b'')) i = img ! (off + i)"
  using assms by (auto simp: aperture_def ap_off_def force_swap_def flash_new_def slot_offset_def Let_def add.commute)

lemma setup_machine_boots:
  assumes "length img = TOTAL" "slot \<in> {CHR ''a'', CHR ''b''}" "slot_offset slot = Inr off"
    and "setup_machine k l cfg path fs ok w nok img (swap_override slot True) = (c, b)"
  shows "\<exists>f. sp_flash b = Some f \<and> r c 13 = vector img off \<and> pc c = vector img (off + 4) AND NOT 1 \<and>
    (\<forall>i < BANK_SIZE. read_mem8 f (0x08000000 + of_nat i) = img ! (off + i))"
proof -
  define f where "f = force_swap (flash_new img (nv_of fs path) ok (read_text fs (nv_state_path path)) w nok) (slot = CHR ''b'')"
  have a: "aperture f i = img ! (off + i)" if "i < BANK_SIZE" for i
    unfolding f_def by (rule setup_aperture [OF assms(1-3) that])
  have vec: "read_mem32 f 0x08000000 = vector img off" "read_mem32 f 0x08000004 = vector img (off + 4)"
    using aperture_read_mem32 [of 0 f] aperture_read_mem32 [of 4 f] by (simp_all add: a vector_def ac_simps)
  have bytes: "read_mem8 f (0x08000000 + of_nat i) = img ! (off + i)" if "i < BANK_SIZE" for i
    using that aperture_read_mem8 [of i f] by (simp add: a)
  have "sp_setup k l (cfg_rot_measure cfg) (Some (slot = CHR ''b''))
      (flash_new img (nv_of fs path) ok (read_text fs (nv_state_path path)) w nok) = (c, b)"
    using assms(4) by (simp add: setup_machine_def swap_override_def)
  moreover have "f = (case Some (slot = CHR ''b'') of
      Some s \<Rightarrow> force_swap (flash_new img (nv_of fs path) ok (read_text fs (nv_state_path path)) w nok) s
    | None \<Rightarrow> flash_new img (nv_of fs path) ok (read_text fs (nv_state_path path)) w nok)"
    by (simp add: f_def)
  note sp_setup_flash [OF this, of k l "cfg_rot_measure cfg"]
  ultimately have "sp_flash b = Some f" "r c 13 = read_mem32 f 0x08000000" "pc c = read_mem32 f 0x08000004 AND NOT 1"
    by simp_all
  with vec bytes show ?thesis by simp
qed

section \<open>Properties\<close>

text \<open>
  C6: What is flashed boots: after \<open>flash\<close> of an image with a plausible stack pointer into a slot,
  serving from that slot starts the core at the image's reset vector with its stack pointer, and
  the boot aperture holds the image.
\<close>

theorem flashed_image_boots:
  assumes "cmd_flash os path (slot_text # src # rest) fs = (Inr (), fs')"
    and "load_image os fs src = Inr img" and "slot_text \<in> {''a'', ''b''}"
    and "0x20000000 \<le> vector img 0" and "vector img 0 < 0x40000000"
    and "stow_path path ''sp'' \<noteq> path"
  shows "\<exists>c b f. start_serving k l cfg path fs' ok w nok (hd slot_text) True = Inr (c, b) \<and>
    r c 13 = vector img 0 \<and> pc c = vector img 4 AND NOT 1 \<and> sp_flash b = Some f \<and>
    (\<forall>i < length img. read_mem8 f (0x08000000 + of_nat i) = img ! i)"
proof -
  let ?s = "hd slot_text"
  obtain slot img' nvm nv fs2 where f: "slot_arg slot_text = Inr slot" "load_image os fs src = Inr img'"
      "8 \<le> length img'" "program_slot (fs path) slot img' = Inr nvm"
    and r: "record_archive os path src (fs(path \<mapsto> nvm)) = (nv, fs2)"
      "fs' = fs2(nv_state_path path \<mapsto> ascii (save_nv nv))"
    by (rule cmd_flash_ok [OF assms(1)])
  have "slot = ?s" using f(1) assms(3) by (auto simp: slot_arg_def slot_offset_def)
  with f assms(2) have n: "8 \<le> length img" "program_slot (fs path) ?s img = Inr nvm" by simp_all
  obtain off where o': "slot_offset ?s = Inr off" using assms(3) by (auto simp: slot_offset_def)
  have s: "?s \<in> {CHR ''a'', CHR ''b''}" using assms(3) by auto
  note h = program_slot_holds [OF n(2) o']
  have path: "fs' path = Some nvm"
    using record_archive_frame [of path path os src "fs(path \<mapsto> nvm)"] assms(6) by (simp add: r)
  have v: "vector nvm off = vector img 0" "vector nvm (off + 4) = vector img 4"
    using vector_at [of "length img" nvm off img 0] vector_at [of "length img" nvm off img 4] h n(1) by simp_all
  have p: "slot_programmed nvm ?s = Inr True"
    using slot_programmed_vector [OF o', of nvm] assms(4,5) by (auto simp: v)
  have "load_nvm (fs' path) = nvm" using h by (simp add: path load_nvm_def)
  moreover have "boot_slot (swap_override ?s True) x = ?s" for x
    using s by (auto simp: boot_slot_def swap_override_def or_default_def)
  ultimately have boot: "serve_boot path fs' ?s True = Inr (mirror_unprogrammed_slot nvm, swap_override ?s True)"
    by (simp add: serve_boot_def checked_boot_def p)
  obtain c b where m: "setup_machine k l cfg path fs' ok w nok (mirror_unprogrammed_slot nvm) (swap_override ?s True) = (c, b)"
    by (cases "setup_machine k l cfg path fs' ok w nok (mirror_unprogrammed_slot nvm) (swap_override ?s True)")
  have k: "mirror_unprogrammed_slot nvm ! (off + i) = nvm ! (off + i)" if "i < BANK_SIZE" for i
    using mirror_keeps_programmed [OF p o' _ that] h by blast
  then have "vector (mirror_unprogrammed_slot nvm) off = vector img 0"
    "vector (mirror_unprogrammed_slot nvm) (off + 4) = vector img 4"
    using vector_at [of "length img" "mirror_unprogrammed_slot nvm" off img 0]
      vector_at [of "length img" "mirror_unprogrammed_slot nvm" off img 4] h n(1) by simp_all
  with setup_machine_boots [OF length_mirror s o' m] h k m show ?thesis
    by (auto simp: start_serving_def boot)
qed

definition image_example :: "u8 list" where
  "image_example = [0, 0, 0, 0x20, 0x41, 0, 0, 8]"

lemma image_example: "length image_example = 8" "vector image_example 0 = 0x20000000"
    "vector image_example 4 = 0x08000041" "take 2 image_example \<noteq> zip_magic"
  by (simp_all add: image_example_def vector_def le32_def zip_magic_def)

lemma flash_image_example:
  "\<exists>fs'. cmd_flash os_example ''sp-flash.bin'' [''b'', ''i.bin''] [''i.bin'' \<mapsto> image_example] = (Inr (), fs')"
  by (simp add: cmd_flash_def slot_arg_def slot_offset_def load_image_def image_example os_example_def
      program_slot_def Let_def record_archive_def is_archive_def write_file_def split: prod.split)

theorem flashed_image_boots_witness:
  "\<exists>cfg fs' c b. ingest v1_default = Inr cfg \<and>
     cmd_flash os_example ''sp-flash.bin'' [''b'', ''i.bin''] [''i.bin'' \<mapsto> image_example] = (Inr (), fs') \<and>
     start_serving plain_board None cfg ''sp-flash.bin'' fs' True (\<lambda>_ _. True) True CHR ''b'' True = Inr (c, b) \<and>
     r c 13 = 0x20000000 \<and> pc c = 0x08000040"
proof -
  obtain cfg where c: "ingest v1_default = Inr cfg" by (rule default_config)
  obtain fs' where f: "cmd_flash os_example ''sp-flash.bin'' [''b'', ''i.bin''] [''i.bin'' \<mapsto> image_example] = (Inr (), fs')"
    using flash_image_example by (elim exE)
  have "load_image os_example [''i.bin'' \<mapsto> image_example] ''i.bin'' = Inr image_example"
    by (simp add: load_image_def image_example)
  from flashed_image_boots [OF f this, where k = plain_board and l = None and cfg = cfg and ok = True
      and w = "\<lambda>_ _. True" and nok = True]
  show ?thesis using c f by (auto simp: image_example stow_path_example)
qed

lemma map_sum_Inr: "map_sum f g x = Inr y \<longleftrightarrow> (\<exists>z. x = Inr z \<and> y = g z)"
  by (cases x) auto

text \<open>
  C21: Serving an instance with one programmed slot leaves the image in both slots of its flash file:
  the flash model writes the image it was built with, mirrored, to the file. The next start finds
  the other slot programmed.
\<close>

theorem serving_mirrors_on_disk:
  assumes "start_serving k l cfg path fs True w nok slot given = Inr (c, b)"
    and "slot_programmed (load_nvm (fs path)) CHR ''a'' = Inr True"
    and "slot_programmed (load_nvm (fs path)) CHR ''b'' = Inr False"
  shows "\<exists>f m. sp_flash b = Some f \<and> fl_file f = Some m \<and>
    (\<forall>i < BANK_SIZE. m i = load_nvm (fs path) ! i \<and> m (BANK_SIZE + i) = load_nvm (fs path) ! i) \<and>
    slot_programmed (load_nvm (Some (map m [0..<TOTAL]))) CHR ''b'' = Inr True"
proof -
  let ?nvm = "load_nvm (fs path)" and ?img = "mirror_unprogrammed_slot (load_nvm (fs path))"
  obtain ov where "setup_machine k l cfg path fs True w nok ?img ov = (c, b)"
    using assms(1) by (auto simp: start_serving_def serve_boot_def checked_boot_def Let_def map_sum_Inr split: if_splits)
  then have "sp_setup k l (cfg_rot_measure cfg) ov
      (flash_new ?img (nv_of fs path) True (read_text fs (nv_state_path path)) w nok) = (c, b)"
    by (simp add: setup_machine_def)
  then obtain f where f: "sp_flash b = Some f" "fl_file f = Some (\<lambda>i. ?img ! i)"
    using sp_setup_flash(1) [OF refl, of k l "cfg_rot_measure cfg" ov
        "flash_new ?img (nv_of fs path) True (read_text fs (nv_state_path path)) w nok"]
    by (auto simp: flash_new_def force_swap_def length_mirror Let_def split: option.splits)
  have m: "?img = take BANK_SIZE ?nvm @ take BANK_SIZE ?nvm"
    using assms(2,3) by (simp add: mirror_unprogrammed_slot_def)
  then have i: "?img ! i = ?nvm ! i" "?img ! (BANK_SIZE + i) = ?nvm ! i" if "i < BANK_SIZE" for i
    using that by (simp_all add: nth_append)
  have "map (\<lambda>i. ?img ! i) [0..<TOTAL] = ?img"
    using length_mirror [of ?nvm] by (metis length_load_nvm map_nth)
  then have "load_nvm (Some (map (\<lambda>i. ?img ! i) [0..<TOTAL])) = ?img"
    using resize_id [OF length_mirror [OF length_load_nvm], where x = ERASED]
    by (simp add: load_nvm_def [of "Some _"])
  moreover have "vector ?img BANK_SIZE = vector ?nvm 0"
    using vector_at [of 4 ?img BANK_SIZE ?nvm 0] i by simp
  then have "slot_programmed ?img CHR ''b'' = Inr True"
    using assms(2) by (simp add: slot_programmed_vector slot_offset_def)
  ultimately show ?thesis using f i by auto
qed

lemma erased_past: "8 \<le> i \<Longrightarrow> i < TOTAL \<Longrightarrow> load_nvm (Some image_example) ! i = ERASED"
  by (simp add: load_nvm_def resize_def image_example nth_append)

lemma example_slots:
  "slot_programmed (load_nvm (Some image_example)) CHR ''a'' = Inr True"
  "slot_programmed (load_nvm (Some image_example)) CHR ''b'' = Inr False"
proof -
  have "load_nvm (Some image_example) ! i = image_example ! i" if "i < 8" for i
    using that by (simp add: load_nvm_def resize_def image_example nth_append)
  then have "vector (load_nvm (Some image_example)) 0 = 0x20000000"
    using vector_at [of 8 "load_nvm (Some image_example)" 0 image_example 0] by (simp add: image_example)
  then show "slot_programmed (load_nvm (Some image_example)) CHR ''a'' = Inr True"
    by (simp add: slot_programmed_vector slot_offset_def)
  have "vector (load_nvm (Some image_example)) BANK_SIZE = 0xFFFFFFFF"
    unfolding vector_def by (simp add: erased_past le32_def)
  then show "slot_programmed (load_nvm (Some image_example)) CHR ''b'' = Inr False"
    by (simp add: slot_programmed_vector slot_offset_def)
qed

theorem serving_mirrors_on_disk_witness:
  "\<exists>cfg c b f m. ingest v1_default = Inr cfg \<and>
     start_serving plain_board None cfg ''sp-flash.bin'' [''sp-flash.bin'' \<mapsto> image_example] True
       (\<lambda>_ _. True) True CHR ''a'' True = Inr (c, b) \<and>
     sp_flash b = Some f \<and> fl_file f = Some m \<and>
     slot_programmed (load_nvm (Some (map m [0..<TOTAL]))) CHR ''b'' = Inr True"
proof -
  let ?fs = "[''sp-flash.bin'' \<mapsto> image_example] :: files"
  obtain cfg where c: "ingest v1_default = Inr cfg" by (rule default_config)
  have p: "?fs ''sp-flash.bin'' = Some image_example" by simp
  have "boot_slot (swap_override CHR ''a'' True) x = CHR ''a''" for x
    by (simp add: boot_slot_def swap_override_def or_default_def)
  then obtain m where m: "start_serving plain_board None cfg ''sp-flash.bin'' ?fs True (\<lambda>_ _. True) True CHR ''a'' True = Inr m"
    by (simp add: start_serving_def serve_boot_def checked_boot_def p example_slots del: fun_upd_apply)
  obtain cc b where "m = (cc, b)" by (cases m)
  with m serving_mirrors_on_disk [of plain_board None cfg "''sp-flash.bin''" ?fs "\<lambda>_ _. True" True "CHR ''a''" True cc b]
    example_slots c show ?thesis by (simp add: p del: fun_upd_apply) blast
qed

text \<open>A flat image given instead of a subcommand takes the place of the instance's flash.\<close>

lemma flat_image_overwrites_flash:
  assumes "start_image k l cfg path fs True w nok image_path = Inr (c, b)" "fs image_path = Some img"
  shows "\<exists>f. sp_flash b = Some f \<and> fl_file f = Some (\<lambda>i. resize TOTAL ERASED img ! i)"
proof -
  have "sp_setup k l (cfg_rot_measure cfg) (Some False)
      (flash_new img (nv_of fs path) True (read_text fs (nv_state_path path)) w nok) = (c, b)"
    using assms by (simp add: start_image_def setup_machine_def)
  then show ?thesis
    using sp_setup_flash(1) [OF refl, of k l "cfg_rot_measure cfg" "Some False"
        "flash_new img (nv_of fs path) True (read_text fs (nv_state_path path)) w nok"]
    by (simp add: flash_new_def force_swap_def Let_def)
qed

end
