(* ===== verification/Wiring.thy ===== *)
theory Wiring
  imports Cli_Props Serve Bridge I2c
begin

text \<open>
  How the configuration reaches the machine: the settings of the serve loop, the identity of the
  VPD and the VLANs of the bridge (\<open>config::get()\<close> in \<open>src/gdb.rs\<close>, \<open>src/soc.rs\<close> and
  \<open>src/bridge.rs\<close>), and the ports of the two debug probes (\<open>serve\<close> in \<open>src/gdb.rs\<close>), which are
  derived from the instance's place in the port layout.
\<close>

section \<open>The instance's place in the layout\<close>

text \<open>The number after the last colon of a bridge address.\<close>

definition bridge_port :: "string \<Rightarrow> u16 option" where
  "bridge_port b = map_option of_nat (parse_uint 10 (2 ^ 16 - 1) (last (split_char CHR '':'' b)))"

definition layout_offset :: "config \<Rightarrow> u16 option" where
  "layout_offset cfg = Option.bind (cfg_bridge cfg) (\<lambda>b. a4x2_offset (bridge_port b))"

definition swd_off :: "config \<Rightarrow> u16" where
  "swd_off cfg = or_default 0 (layout_offset cfg)"

definition sp_probe_port :: "config \<Rightarrow> u16 option" where
  "sp_probe_port cfg = (if cfg_no_debug cfg then None else Some (4444 + swd_off cfg))"

definition rot_probe_port :: "config \<Rightarrow> bool \<Rightarrow> u16 option" where
  "rot_probe_port cfg has_rot =
     (if cfg_no_debug cfg \<or> \<not> has_rot then None else Some (4544 + swd_off cfg))"

section \<open>Settings\<close>

definition serve_cfg_of :: "config \<Rightarrow> serve_cfg" where
  "serve_cfg_of cfg =
     \<lparr>sc_quantum = unat (cfg_eth_quantum cfg), sc_txbreak = cfg_eth_txbreak cfg,
      sc_sprot_couple = cfg_sprot_couple cfg, sc_endo_couple = cfg_endoscope_couple cfg,
      sc_clock_khz = cfg_sp_clock_khz cfg, sc_jtag_trigger = cfg_jtag_trigger cfg,
      sc_swd_trigger = cfg_swd_trigger cfg\<rparr>"

definition vpd_config_of :: "config \<Rightarrow> vpd_config" where
  "vpd_config_of cfg =
     \<lparr>vc_sidecar = is_sidecar (cfg_board cfg),
      vc_index = (case layout_offset cfg of None \<Rightarrow> 0 | Some off \<Rightarrow> ucast (off div 10)),
      vc_serial = cfg_vpd_serial cfg, vc_part = cfg_vpd_part cfg, vc_rev = cfg_vpd_rev cfg\<rparr>"

definition vids_of :: "config \<Rightarrow> u16 \<times> u16" where
  "vids_of cfg = default_vids (is_sidecar (cfg_board cfg)) (cfg_vid0 cfg) (cfg_vid1 cfg)"

section \<open>Sensors\<close>

text \<open>
  The overrides \<open>0xADDR=DEGREES\<close>, separated by commas, a malformed one left out; the conversions
  of a temperature to the sensors' registers are the parameters \<open>lsb\<close> (units of 7.8125 mC) and
  \<open>whole\<close> (degrees).
\<close>

definition sensor_override :: "(string \<Rightarrow> f32 option) \<Rightarrow> string \<Rightarrow> (u8 \<times> f32) option" where
  "sensor_override parse_f32 kv =
     (case split_once CHR ''='' kv of
        None \<Rightarrow> None
      | Some (a, v) \<Rightarrow>
          (case (parse_uint 16 255 (trim_0x (trim a)), parse_f32 (trim v)) of
             (Some addr, Some t) \<Rightarrow> Some (of_nat addr, t)
           | _ \<Rightarrow> None))"

definition sensor_overrides :: "(string \<Rightarrow> f32 option) \<Rightarrow> config \<Rightarrow> u8 \<rightharpoonup> f32" where
  "sensor_overrides parse_f32 cfg =
     (case cfg_sensors cfg of
        None \<Rightarrow> Map.empty
      | Some s \<Rightarrow>
          foldl (\<lambda>m (a, t). m(a \<mapsto> t)) Map.empty
            (List.map_filter (sensor_override parse_f32) (split_char CHR '','' s)))"

definition temp_c :: "(string \<Rightarrow> f32 option) \<Rightarrow> config \<Rightarrow> u8 \<Rightarrow> f32" where
  "temp_c parse_f32 cfg addr = or_default (cfg_ambient_c cfg) (sensor_overrides parse_f32 cfg addr)"

definition sensors_of :: "(f32 \<Rightarrow> u16) \<Rightarrow> (f32 \<Rightarrow> u16) \<Rightarrow> (string \<Rightarrow> f32 option) \<Rightarrow> config \<Rightarrow> sensors" where
  "sensors_of lsb whole parse_f32 cfg =
     \<lparr>temp_lsb = (\<lambda>a. lsb (temp_c parse_f32 cfg a)), temp_int = (\<lambda>a. whole (temp_c parse_f32 cfg a))\<rparr>"

section \<open>The RAM dump\<close>

text \<open>
  \<open>write_hydrate_dump\<close>: one file for each RAM region but the flash window, then the description;
  the first write that fails ends it.
\<close>

definition quoted :: "string \<Rightarrow> string" where
  "quoted s = CHR 0x22 # s @ [CHR 0x22]"

definition hydrate_json :: "bool \<Rightarrow> string \<Rightarrow> string" where
  "hydrate_json sidecar archive_id =
     ''{'' @ quoted ''format'' @ '':1,'' @ quoted ''task_index'' @ '':0,'' @ quoted ''crash_time'' @ '':0,'' @
     quoted ''board_name'' @ '':'' @ quoted (if sidecar then ''sidecar-c'' else ''gimlet'') @ '','' @
     quoted ''git_commit'' @ '':'' @ quoted ''emu'' @ '','' @ quoted ''archive_id'' @ '':'' @
     quoted (replace_char CHR 0x22 [CHR 0x5C, CHR 0x22] (replace_char CHR 0x5C [CHR 0x5C, CHR 0x5C] archive_id)) @
     '','' @ quoted ''fw_version'' @ '':null}''"

definition hydrate_ram :: "string \<Rightarrow> ram \<Rightarrow> string \<times> u8 list" where
  "hydrate_ram dir x =
     (dir @ ''/0x'' @ print_uint 16 (unat (ram_base x)) @ ''.bin'', slice (ram_data x) 0 (unat (ram_len x)))"

primrec write_files :: "os \<Rightarrow> (string \<times> u8 list) list \<Rightarrow> files \<Rightarrow> (cmd_error + unit) \<times> files" where
  "write_files os [] fs = (Inr (), fs)"
| "write_files os (x # xs) fs =
     (case write_file os fs (fst x) (snd x) of
        Inl e \<Rightarrow> (Inl e, fs)
      | Inr fs' \<Rightarrow> write_files os xs fs')"

definition write_hydrate_dump ::
  "os \<Rightarrow> config \<Rightarrow> string \<Rightarrow> string \<Rightarrow> bus \<Rightarrow> files \<Rightarrow> (cmd_error + unit) \<times> files" where
  "write_hydrate_dump os cfg dir archive_id b fs =
     write_files os
       (map (hydrate_ram dir) (filter (\<lambda>x. ram_base x \<noteq> 0x08000000) (rams b)) @
        [(dir @ ''/dump.json'', ascii (hydrate_json (is_sidecar (cfg_board cfg)) archive_id))]) fs"

section \<open>The RoT's commands\<close>

definition rot_serve_args :: "os \<Rightarrow> files \<Rightarrow> string list \<Rightarrow> cmd_error + (string \<times> u8 list)" where
  "rot_serve_args os fs args =
     (case args of
        listen # image_path # _ \<Rightarrow> map_sum id (\<lambda>img. (listen, img)) (load_image os fs image_path)
      | _ \<Rightarrow> Inl Usage)"

definition rot_args :: "os \<Rightarrow> files \<Rightarrow> string list \<Rightarrow> cmd_error + (u8 list \<times> u64)" where
  "rot_args os fs args =
     (case args of
        [] \<Rightarrow> Inl Usage
      | path # rest \<Rightarrow>
          map_sum id (\<lambda>img. (img, case rest of [] \<Rightarrow> 20000000 | m # _ \<Rightarrow> or_default 20000000 (parse_u64 m)))
            (load_image os fs path))"

section \<open>Facts\<close>

text \<open>Of several overrides of a sensor the last one counts, and a sensor reads what it was given.\<close>

lemma foldl_map_of: "foldl (\<lambda>m (a, t). m(a \<mapsto> t)) m0 xs = m0 ++ map_of (rev xs)"
  by (induction xs arbitrary: m0) (auto simp: map_add_def fun_eq_iff split: option.split)

lemma sensor_reads_override:
  assumes "0x48 \<le> a" "a \<le> 0x4a" "cfg_sensors cfg = Some s"
  shows "device_reg (sensors_of lsb whole parse_f32 cfg) a 0 = Some (lsb
    (case map_of (rev (List.map_filter (sensor_override parse_f32) (split_char CHR '','' s))) a of
       Some t \<Rightarrow> t | None \<Rightarrow> cfg_ambient_c cfg))"
  using assms by (simp add: device_reg_def sensors_of_def temp_c_def sensor_overrides_def foldl_map_of or_default_def
      split: option.split)

lemma write_files_all:
  "fst (write_files os xs fs) = Inr () \<Longrightarrow> distinct (map fst xs) \<Longrightarrow> (p, bs) \<in> set xs \<Longrightarrow>
     snd (write_files os xs fs) p = Some bs"
proof (induction xs arbitrary: fs)
  case (Cons x xs)
  have frame: "q \<notin> fst ` set ys \<Longrightarrow> snd (write_files os ys gs) q = gs q" for q ys gs
    by (induction ys arbitrary: gs) (auto simp: write_file_def)
  show ?case
  proof (cases "os_writable os (fst x)")
    case True
    then have w: "write_files os (x # xs) fs = write_files os xs (fs(fst x \<mapsto> snd x))"
      by (simp add: write_file_def)
    show ?thesis
    proof (cases "x = (p, bs)")
      case True
      with Cons.prems(2) have "p \<notin> fst ` set xs" by simp
      from frame [OF this, of "fs(p \<mapsto> bs)"] True show ?thesis unfolding w by simp
    next
      case False
      with Cons.prems(3) have "(p, bs) \<in> set xs" by simp
      moreover have "fst (write_files os xs (fs(fst x \<mapsto> snd x))) = Inr ()" using Cons.prems(1) unfolding w .
      ultimately show ?thesis unfolding w using Cons.IH Cons.prems(2) by simp
    qed
  qed (use Cons.prems in \<open>simp add: write_file_def\<close>)
qed simp

text \<open>A dump that succeeded holds every region's bytes under its base address.\<close>

lemma print_hex_inj:
  assumes "print_uint 16 m = print_uint 16 n"
  shows "m = n"
proof -
  have d: "digits_val 16 0 (print_uint 16 k) = Some k" for k by (rule digits_val_print) simp_all
  from d [of m] d [of n] show ?thesis unfolding assms by simp
qed

lemma hydrate_dump_holds_ram:
  assumes "fst (write_hydrate_dump os cfg dir archive_id b fs) = Inr ()"
    and "distinct (map ram_base (rams b))" "x \<in> set (rams b)" "ram_base x \<noteq> 0x08000000"
  shows "snd (write_hydrate_dump os cfg dir archive_id b fs) (fst (hydrate_ram dir x)) =
    Some (slice (ram_data x) 0 (unat (ram_len x)))"
proof -
  let ?rs = "filter (\<lambda>x. ram_base x \<noteq> 0x08000000) (rams b)"
  let ?fs = "map (hydrate_ram dir) ?rs @
    [(dir @ ''/dump.json'', ascii (hydrate_json (is_sidecar (cfg_board cfg)) archive_id))]"
  have "inj_on (\<lambda>x. fst (hydrate_ram dir x)) (set (rams b))"
  proof (rule inj_onI)
    fix x y
    assume xy: "x \<in> set (rams b)" "y \<in> set (rams b)" "fst (hydrate_ram dir x) = fst (hydrate_ram dir y)"
    then have "unat (ram_base x) = unat (ram_base y)" by (simp add: hydrate_ram_def print_hex_inj)
    then have "ram_base x = ram_base y" by (rule word_unat_eq_iff [THEN iffD2])
    with xy assms(2) show "x = y" by (auto simp: distinct_map inj_on_def)
  qed
  then have "distinct (map (\<lambda>x. fst (hydrate_ram dir x)) ?rs)"
    using assms(2) by (auto simp: distinct_map intro: inj_on_subset)
  then have "distinct (map fst ?fs)" by (auto simp: comp_def hydrate_ram_def)
  moreover have "(fst (hydrate_ram dir x), slice (ram_data x) 0 (unat (ram_len x))) \<in> set ?fs"
    using assms(3,4) by (force simp: hydrate_ram_def)
  ultimately show ?thesis
    using assms(1) write_files_all unfolding write_hydrate_dump_def by blast
qed


lemma swd_off_layout: "unat (swd_off cfg) < 1000 \<and> unat (swd_off cfg) mod 10 = 0"
proof (cases "layout_offset cfg")
  case None
  then show ?thesis by (simp add: swd_off_def)
next
  case (Some off)
  then obtain p where "A4X2_BASE_PORT \<le> p" "off = p - A4X2_BASE_PORT" "off mod 10 = 0" "off < 1000"
    by (auto simp: layout_offset_def a4x2_offset_def bind_eq_Some_conv split: option.splits if_splits)
  then have "unat off < 1000" and rest: "unat (off mod 10) = 0"
    by (simp_all add: word_less_nat_alt)
  from rest have "unat off mod 10 = 0" by (simp add: unat_mod_distrib)
  with Some \<open>unat off < 1000\<close> show ?thesis by (simp add: swd_off_def)
qed

lemma probe_ports_value:
  "unat (4444 + swd_off cfg) = 4444 + unat (swd_off cfg)"
  "unat (4544 + swd_off cfg) = 4544 + unat (swd_off cfg)"
  using swd_off_layout [of cfg] by (simp_all add: unat_word_ariths)

text \<open>
  C39: Two instances with debug servers: their SP probes share a port exactly when they have the same
  offset, so do their RoT probes, and the SP probe of one takes the port of the RoT probe of the
  instance a hundred below it.
\<close>

theorem probe_ports_collide:
  assumes "\<not> cfg_no_debug a" "\<not> cfg_no_debug b"
  shows "(sp_probe_port a = sp_probe_port b \<longleftrightarrow> swd_off a = swd_off b) \<and>
    (rot_probe_port a True = rot_probe_port b True \<longleftrightarrow> swd_off a = swd_off b) \<and>
    (sp_probe_port a = rot_probe_port b True \<longleftrightarrow> unat (swd_off a) = unat (swd_off b) + 100)"
proof -
  have "4444 + swd_off a = 4544 + swd_off b \<longleftrightarrow> unat (swd_off a) = unat (swd_off b) + 100"
    by (simp only: word_unat_eq_iff probe_ports_value) linarith
  with assms show ?thesis by (simp add: sp_probe_port_def rot_probe_port_def)
qed

lemma split_char_no: "CHR '':'' \<notin> set s \<Longrightarrow> split_char CHR '':'' s = [s]"
proof -
  assume "CHR '':'' \<notin> set s"
  then have "dropWhile (\<lambda>c. c \<noteq> CHR '':'') s = []" "takeWhile (\<lambda>c. c \<noteq> CHR '':'') s = s"
    by (auto simp: dropWhile_eq_Nil_conv takeWhile_eq_all_conv)
  then show ?thesis by (subst split_char.simps) (simp only: list.case)
qed

lemma split_char_last: "CHR '':'' \<notin> set t \<Longrightarrow> last (split_char CHR '':'' (s @ CHR '':'' # t)) = t"
proof (induction s rule: length_induct)
  case (1 s)
  show ?case
  proof (cases "CHR '':'' \<in> set s")
    case False
    then have "split_char CHR '':'' (s @ CHR '':'' # t) = s # split_char CHR '':'' t"
      by (subst split_char.simps) (simp add: dropWhile_append3 takeWhile_append takeWhile_eq_all_conv dropWhile_append)
    with 1 show ?thesis by (simp add: split_char_no)
  next
    case True
    then obtain u v where s: "s = u @ CHR '':'' # v" "CHR '':'' \<notin> set u" by (meson split_list_first)
    then have "split_char CHR '':'' (s @ CHR '':'' # t) = u # split_char CHR '':'' (v @ CHR '':'' # t)"
      by (subst split_char.simps) (simp add: takeWhile_append dropWhile_append dropWhile_append3 takeWhile_eq_all_conv)
    moreover have "split_char CHR '':'' (v @ CHR '':'' # t) \<noteq> []"
      by (subst split_char.simps) (simp split: list.split)
    moreover have "last (split_char CHR '':'' (v @ CHR '':'' # t)) = t"
      using 1 s by simp
    ultimately show ?thesis by simp
  qed
qed

lemma bridge_port_of: "CHR '':'' \<notin> set t \<Longrightarrow>
    bridge_port (s @ CHR '':'' # t) = map_option of_nat (parse_uint 10 (2 ^ 16 - 1) t)"
  by (simp add: bridge_port_def split_char_last)

lemma swd_off_examples:
  "cfg_bridge a = Some ''[::1]:33400'' \<Longrightarrow> swd_off a = 100"
  "cfg_bridge a = Some ''[::1]:33300'' \<Longrightarrow> swd_off a = 0"
  using bridge_port_of [of "''33400''" "''[::1]''"] bridge_port_of [of "''33300''" "''[::1]''"]
  by (simp_all add: swd_off_def layout_offset_def a4x2_offset_def parse_uint_def digit_val_def A4X2_BASE_PORT_def)

theorem probe_ports_collide_witness:
  "\<exists>a b. sp_probe_port a = rot_probe_port b True \<and> sp_probe_port a \<noteq> None"
proof -
  obtain cfg where "ingest v1_default = Inr cfg" by (rule default_config)
  let ?a = "cfg\<lparr>cfg_bridge := Some ''[::1]:33400'', cfg_no_debug := False\<rparr>"
  let ?b = "cfg\<lparr>cfg_bridge := Some ''[::1]:33300'', cfg_no_debug := False\<rparr>"
  have "swd_off ?a = 100" "swd_off ?b = 0" by (rule swd_off_examples, simp)+
  then have "sp_probe_port ?a = rot_probe_port ?b True"
    using probe_ports_collide [of ?a ?b] by simp
  moreover have "sp_probe_port ?a \<noteq> None" by (simp add: sp_probe_port_def)
  ultimately show ?thesis by blast
qed

text \<open>The divisor of the endoscope's credit is the core's reload, or the configured clock.\<close>

lemma divisor_zero_iff:
  assumes "config_valid cfg"
  shows "(case tick_divisor c of Some v \<Rightarrow> v | None \<Rightarrow> sc_clock_khz (serve_cfg_of cfg)) = 0 \<longleftrightarrow>
    syst_rvr c = 0xFFFFFFFF"
proof -
  have "syst_rvr c + 1 = 0 \<longleftrightarrow> syst_rvr c = - 1" by (metis add.commute add_eq_0_iff)
  moreover have "(- 1 :: u32) = 0xFFFFFFFF" by simp
  ultimately show ?thesis
    using assms by (auto simp: tick_divisor_def serve_cfg_of_def config_valid_def)
qed

end
