(* ===== verification/Spec2Isabelle.thy ===== *)
theory Spec2Isabelle
  imports Flash Qspi RotFlash RotSeed Bus_Eth Bus_Props Cpu_Arith Cpu_Block Cpu_Inv
    Debug_Props RotSwd Glasgow_Props Sprot_Props I2c Fpga Vsc7448 Boards Serve_Props Startup
    Bridge_Props Identity RotService Config_Env Config_Template Bundle_Props Boot_Props Wiring
begin

text \<open>
  A verification development for the sp-emu emulator (\<open>src/\<close>), which runs the firmware of an
  Oxide service processor (SP, an STM32H7) and its root of trust (RoT, an LPC55) on a host.

  \<^bold>\<open>The program and its parts.\<close> An emulated chip is a processor core (\<open>cpu.rs\<close>) on a bus
  (\<open>mem.rs\<close>) that decodes addresses to RAM, flash, interrupt controller, Ethernet MAC and a list
  of devices (\<open>soc.rs\<close> and the files for single devices). The SP executes from its dual-bank
  flash (\<open>flash.rs\<close>), the RoT from its own (\<open>rot_flash.rs\<close>), calling boot-ROM routines that are
  trapped (\<open>romapi.rs\<close>). The two chips share an SPI link with GPIO lines (\<open>sprot.rs\<close>) and an SWD
  link by which the RoT debugs the SP (\<open>rotswd.rs\<close>); a host debugger reaches the same SWD port
  (\<open>debugport.rs\<close>) over the Glasgow protocol (\<open>glasgow.rs\<close>). The serve loop (\<open>gdb.rs\<close>)
  interleaves the two cores and carries edges and bytes between them; \<open>main.rs\<close> assembles, boots
  and resets. The SP's network traffic goes to a bridge (\<open>bridge.rs\<close>), its I2C traffic to modelled
  parts or to a host server (\<open>i2c_bridge.rs\<close>); several SPs may share one RoT over a socket
  (\<open>rot_service.rs\<close>); the identity of an instance comes from a seed (\<open>identity.rs\<close>). An instance
  is described by a configuration, taken from the environment or a file (\<open>config.rs\<close> and the crate
  \<open>sp-emu-config\<close>), and driven by the command line (\<open>main.rs\<close>), which programs its flash, starts
  it, and packs it into a portable bundle (\<open>bundle.rs\<close>).

  \<^bold>\<open>Theories and the code they model.\<close>
  \<^item> \<open>Prelude\<close>: machine integers, byte stores, register maps, bit and byte lemmas.
    \<open>Word_Memory\<close>: the locale of a word-addressed memory, interpreted on the bus.
    \<open>Text\<close>, \<open>Nv\<close>: the string functions of the Rust library, number formats, the state files.
  \<^item> \<open>Flash\<close> (\<open>flash.rs\<close>): aperture, controller, unlock sequences, option bytes, bank swap, files.
    \<open>RotFlash\<close>, \<open>RotSeed\<close> (\<open>rot_flash.rs\<close>): command engine; seeding, loading, boot preference.
    \<open>Qspi\<close>: the external flash. \<open>Romapi\<close> (\<open>romapi.rs\<close>): pointer graph, traps, slot verification.
  \<^item> \<open>Devices\<close>, \<open>Soc_Ctl\<close>, \<open>Vsc7448\<close>, \<open>Fpga\<close>, \<open>I2c\<close>, \<open>Vpd\<close>, \<open>Soc\<close> (\<open>soc.rs\<close>, \<open>hashcrypt.rs\<close>),
    \<open>Puf\<close> (\<open>puf.rs\<close>), \<open>I2c_Bridge\<close> (\<open>i2c_bridge.rs\<close>), \<open>Sprot\<close> (\<open>sprot.rs\<close>), \<open>RotSwd_Port\<close>
    (\<open>rotswd.rs\<close>): one record and one group of operations per device; \<open>Soc\<close> joins them in the
    datatype \<open>device\<close> with the state they share.
  \<^item> \<open>Bus\<close>, \<open>Bus_Ram\<close>, \<open>Bus_Eth\<close>, \<open>Bus_Props\<close> (\<open>mem.rs\<close>): address decode, interrupt
    controller, timer, Ethernet DMA, pumps.
  \<^item> \<open>Cpu_State\<close> to \<open>Cpu_Step\<close> (\<open>cpu.rs\<close>): registers, data processing (\<open>Cpu_Alu\<close>), exceptions
    (\<open>Cpu_Exc\<close>), loads and stores (\<open>Cpu_Mem\<close>), floating point (\<open>Cpu_Vfp\<close>), fetch, cache, step.
    \<open>Cpu_Arith\<close>, \<open>Cpu_Stack\<close>, \<open>Cpu_Block\<close>, \<open>Cpu_Inv\<close> hold what is proved of them.
  \<^item> \<open>Debugport\<close>, \<open>Debug_Props\<close>; \<open>RotSwd\<close>; \<open>Glasgow\<close>, \<open>Glasgow_Props\<close>; \<open>Sprot_Props\<close>.
  \<^item> \<open>Boards\<close> (\<open>soc.rs\<close>, \<open>lpc55.rs\<close>, \<open>main.rs\<close>), \<open>Serve\<close>, \<open>Serve_Props\<close> (\<open>gdb.rs\<close>), \<open>Startup\<close>
    (\<open>main.rs\<close>), \<open>RotService\<close>, \<open>Bridge\<close>, \<open>Bridge_Props\<close>, \<open>Identity\<close>.
  \<^item> \<open>Config_Schema\<close>, \<open>Config\<close>, \<open>Config_Props\<close>, \<open>Config_Template\<close> (the crate \<open>sp-emu-config\<close>):
    schema and validated configuration, ingest and dump, the flat names, versions, the template.
    \<open>Config_Env\<close> (\<open>src/config.rs\<close>): where the values come from, the flat file, the stored
    configuration. \<open>Codec\<close>: the locales of printers with a reader; \<open>Paths\<close>: \<open>std::path\<close>.
  \<^item> \<open>Instance\<close> (\<open>flash.rs\<close>, \<open>main.rs\<close>): an instance's files, archives, the \<open>flash\<close>, \<open>erase\<close> and
    \<open>info\<close> commands, and the locale of a state file. \<open>Cli\<close>, \<open>Cli_Props\<close> (\<open>main.rs\<close>): flags,
    subcommands, the plan of a run. \<open>Bundle\<close>, \<open>Bundle_Props\<close> (\<open>bundle.rs\<close>). \<open>Wiring\<close>: the settings
    the machine takes from the configuration. \<open>Boot_Props\<close>: from the command to the machine.

  \<^bold>\<open>State and operations.\<close> A struct of the source is a record, an enum a datatype, a method a
  function that takes and returns the state; integers keep their width, so that arithmetic wraps
  where the release build wraps. A panic that the code can reach is a flag of the state
  (\<open>bus_panicked\<close>, \<open>rf_panicked\<close>); an error is \<open>None\<close> or \<open>Inl\<close>. Shared cells of the source (the
  link, the SWD queue) are one component of the shared device state, lent from one chip's bus to
  the other's when the threads take turns (\<open>lend_wires\<close>); threads are explicit turns, and the
  schedule is universally quantified where a property depends on it. Files are their contents,
  sockets the bytes or datagrams they deliver.

  \<^bold>\<open>Parameters.\<close> Third-party code is an argument: the instruction decoder (yaxpeax), IEEE
  arithmetic, SHA-256 and SHA3-256, the page layouts of \<open>lpc55_areas\<close> and the image verifier; so
  are the TOML and zip libraries, the conversion of a float from and to text, the captured NMPA
  pages, the iteration order of hash maps, the listing of a directory, what a path is called when
  links are resolved, and the success of writes to host files and sockets. What is relied on is a named hypothesis (\<open>pfr_sized\<close>, the order law of
  \<open>full_backlog_evicts_busiest\<close>, \<open>toml_reads_flat\<close> on comments, blank lines and lines of a bare
  key and a basic string, \<open>links_resolve\<close>, the zip reader on the entries written). A device server
  on the I2C bridge is what it answers to the lines it was sent. Files read as text are taken to be UTF-8, as the program writes them.

  \<^bold>\<open>What the lemmas show.\<close>
  \<^item> Updates: the SP's in-band update boots the new image, survives a restart and is impossible
    without the unlock sequence; a firmware self-reset enters the committed bank with a clean
    interrupt controller and decode cache; the RoT's page update leaves exactly the written page,
    erased pages are blank, and the part comes back from its files after any traffic.
  \<^item> The core: data processing against the architecture's AddWithCarry and shifts; exception entry
    and return, PUSH and POP are inverse; every reachable state keeps the well-formedness of PC,
    IPSR and the live stack pointer.
  \<^item> The bus: memory laws through the locale \<open>word_memory\<close>, secure aliases, interrupt
    arbitration, and two levels of nested Ethernet walks suffice.
  \<^item> Debugging: a session over the Glasgow stream executes the transfers sent, in order, each in the
    pass that completes it with the run engine between the passes; transfers over SWD reach the same port and come back; block transfers, register access,
    reset and vector catch.
  \<^item> The two chips: requests that fit the FIFO and replies cross the SPI link unchanged, the paced clock neither
    drops nor invents bytes, a self-reset reaches the RoT, the freeze of the SP ends, a shared
    service gets every piece of a request up to the FIFO's sixteen bytes per pass, its answer is
    read back, and replies are cut out of the padding around them.
  \<^item> The host side: every frame the bridge queues is acceptable to an IPv6 receiver and at most
    32 wait, eviction is fair, the UDP relay routes answers back; reads delegated over the I2C
    bridge carry the server's bytes; the identity is stable over restarts, once written, and well
    shaped.
  \<^item> The instance: every accepted configuration is in range and survives dump and reload, in the
    typed and in the flat form; the environment is refused for its mode and slot alone, and any other
    malformed value is as good as none; what is
    flashed boots, and its archive stays with the instance; a bundle unpacks to the files it was
    packed from and never writes outside its destination; which instances' probe ports collide.
  \<^item> Devices: external flash, PHY registers, sequencer debug port, EEPROM reads, TLV-C checksum.

  \<^bold>\<open>Bounds and fuel.\<close> The nested Ethernet walk has fuel 2 (theorem \<open>tx_walk_depth\<close>: more gives the
  same); the boot-ROM settle count is 1024 steps and the pacing budget of the link 400 turns, as in
  the code; a freeze lasts at most 1000 turns of the SP; an exchange with the RoT has the 200000
  rounds of the code. The code's own for-loops have the bound of the source as their fuel, so
  running out is the loop's end and not a missing result. Only \<open>boot_loop\<close> stands for a loop that
  may run for ever (limit 0); its fuel counts passes and no property rests on its result. Other
  loops are structural or have a termination proof.

  \<^bold>\<open>Not modelled.\<close> Logging, usage texts, traces and statistics, which change no state; opening
  sockets and pseudo-terminals, and wall-clock sleeps, whose effects are the arguments above; the
  interior of the TOML and zip libraries and serde's derived code; \<open>build.rs\<close> and the offline
  analyser \<open>bin/analyze.rs\<close>, which no emulated machine uses. A path names one file: links among the
  files of an instance count only where the code resolves them. The firmware itself is input.
\<close>

end
